(* ===== verification/Prelude.thy ===== *)
theory Prelude
  imports Main "HOL-Library.Word"
begin

text \<open>
  Shared ground of the development: the fixed-width integer types of the C code, the
  status codes its functions return, the two list operations every linked list and hash
  table of the code is built from (update and delete the first match), byte order, and
  the collections of simplification facts that the component theories extend.
\<close>

unbundle bit_operations_syntax

type_synonym u8 = "8 word"
type_synonym u16 = "16 word"
type_synonym u32 = "32 word"
type_synonym u64 = "64 word"

text \<open>VLAN ids, multicast group ids and port ids are 16-bit values of the control protocol.\<close>

type_synonym vid = "16 word"
type_synonym mcg = "16 word"
type_synonym mac = "8 word list"

datatype status =
    ST_OK
  | ST_BAD_VALUE
  | ST_BAD_STATE
  | ST_HEX
  | ST_HW_ERROR
  | ST_ALREADY_EXISTS
  | ST_DOES_NOT_EXIST
  | ST_BUSY
  | ST_NOT_IMPLEMENTED
  | ST_NOT_READY
  | ST_NOT_SUPPORTED
  | ST_BAD_REQUEST
  | ST_BAD_FORMAT

text \<open>The ids of VLANs a client may use (\<open>src/vlan.h\<close>).\<close>

definition vlan_valid :: "vid \<Rightarrow> bool" where
  "vlan_valid v \<longleftrightarrow> 0 < v \<and> v < 4095"

text \<open>Return codes of the switch library; \<open>GT_OTHER\<close> stands for every code the callers
  send to their \<open>default:\<close> branch.\<close>

datatype gt_status = GT_OK | GT_HW_ERROR | GT_NOT_FOUND | GT_BAD_PARAM | GT_NOT_APPLICABLE_DEVICE | GT_OTHER

named_theorems frame_simps \<open>fields an operation leaves alone\<close>
named_theorems upd_simps \<open>lookups after updates and deletions\<close>

section \<open>First-match list operations\<close>

fun upd1 :: "('a \<Rightarrow> bool) \<Rightarrow> ('a \<Rightarrow> 'a) \<Rightarrow> 'a list \<Rightarrow> 'a list" where
  "upd1 P f [] = []"
| "upd1 P f (x # xs) = (if P x then f x # xs else x # upd1 P f xs)"

fun del1 :: "('a \<Rightarrow> bool) \<Rightarrow> 'a list \<Rightarrow> 'a list" where
  "del1 P [] = []"
| "del1 P (x # xs) = (if P x then xs else x # del1 P xs)"

lemma set_del1_subset: "set (del1 P xs) \<subseteq> set xs"
  by (induction xs) auto

lemma del1_id [simp]: "\<forall>x \<in> set xs. \<not> P x \<Longrightarrow> del1 P xs = xs"
  by (induction xs) auto

lemma upd1_id [simp]: "\<forall>x \<in> set xs. \<not> P x \<Longrightarrow> upd1 P f xs = xs"
  by (induction xs) auto

lemma length_upd1 [simp]: "length (upd1 P f xs) = length xs"
  by (induction xs) auto

lemma map_upd1 [simp]: "(\<And>x. P x \<Longrightarrow> g (f x) = g x) \<Longrightarrow> map g (upd1 P f xs) = map g xs"
  by (induction xs) auto

lemma find_append: "find P (xs @ ys) = (case find P xs of None \<Rightarrow> find P ys | Some x \<Rightarrow> Some x)"
  by (induction xs) auto

lemma find_SomeD: "find P xs = Some x \<Longrightarrow> x \<in> set xs \<and> P x"
  by (induction xs) (auto split: if_splits)

lemma distinct_map_del1: "distinct (map k xs) \<Longrightarrow> distinct (map k (del1 P xs))"
  by (induction xs) (auto dest: set_del1_subset [THEN subsetD])

lemma Suc_length_del1: "\<exists>x \<in> set xs. P x \<Longrightarrow> Suc (length (del1 P xs)) = length xs"
  by (induction xs) auto

lemma del1_upd1 [simp]: "(\<And>x. P (f x) = P x) \<Longrightarrow> del1 P (upd1 P f xs) = del1 P xs"
  by (induction xs) auto

lemma set_del1_key:
  "distinct (map k xs) \<Longrightarrow> set (del1 (\<lambda>x. k x = a) xs) = {x \<in> set xs. k x \<noteq> a}"
  by (induction xs) (auto simp: rev_image_eqI)

lemma distinct_map_del1_other:
  "distinct (map k xs) \<Longrightarrow> distinct (map g xs) \<Longrightarrow> x \<in> set xs \<Longrightarrow> k x = a \<Longrightarrow>
     g ` set (del1 (\<lambda>x. k x = a) xs) = g ` set xs - {g x}"
  by (auto simp: set_del1_key distinct_map dest: inj_onD)

lemma find_key_None: "find (\<lambda>x. k x = b) xs = None \<longleftrightarrow> b \<notin> k ` set xs"
  by (induction xs) auto

lemma find_del1_key [upd_simps]:
  "distinct (map k xs) \<Longrightarrow>
     find (\<lambda>x. k x = b) (del1 (\<lambda>x. k x = a) xs) = (if a = b then None else find (\<lambda>x. k x = b) xs)"
proof (induction xs)
  case Nil
  then show ?case by simp
next
  case (Cons y ys)
  then show ?case
    by (cases "k y = a") (auto simp: find_key_None)
qed

lemma find_upd1_key [upd_simps]:
  "(\<And>x. k (f x) = k x) \<Longrightarrow>
     find (\<lambda>x. k x = b) (upd1 (\<lambda>x. k x = a) f xs) =
       (if a = b then map_option f (find (\<lambda>x. k x = b) xs) else find (\<lambda>x. k x = b) xs)"
  by (induction xs) auto

lemma find_key_iff:
  "distinct (map k xs) \<Longrightarrow> find (\<lambda>x. k x = a) xs = Some x \<longleftrightarrow> x \<in> set xs \<and> k x = a"
  by (induction xs) (auto simp: rev_image_eqI)

lemma set_upd1_key:
  "distinct (map k xs) \<Longrightarrow> (\<And>x. k (f x) = k x) \<Longrightarrow>
     set (upd1 (\<lambda>x. k x = a) f xs) = (\<lambda>x. if k x = a then f x else x) ` set xs"
proof (induction xs)
  case Nil
  then show ?case by simp
next
  case (Cons y ys)
  show ?case
  proof (cases "k y = a")
    case True
    with Cons.prems(1) have "\<forall>x \<in> set ys. k x \<noteq> a" by (auto simp: rev_image_eqI)
    then have "(\<lambda>x. if k x = a then f x else x) ` set ys = set ys" by force
    with True show ?thesis by simp
  next
    case False
    with Cons show ?thesis by simp
  qed
qed

section \<open>Byte order\<close>

text \<open>
  \<open>ntohl\<close> and \<open>htonl\<close> of the C library: the identity on a big-endian host, a byte
  reversal on a little-endian one. The host's byte order is a parameter.
\<close>

definition bswap32 :: "u32 \<Rightarrow> u32" where
  "bswap32 x =
     push_bit 24 (take_bit 8 x) OR push_bit 16 (take_bit 8 (drop_bit 8 x))
       OR push_bit 8 (take_bit 8 (drop_bit 16 x)) OR take_bit 8 (drop_bit 24 x)"

definition ntohl :: "bool \<Rightarrow> u32 \<Rightarrow> u32" where
  "ntohl big_endian x = (if big_endian then x else bswap32 x)"

abbreviation htonl :: "bool \<Rightarrow> u32 \<Rightarrow> u32" where
  "htonl \<equiv> ntohl"

lemma bit_bswap32:
  "bit (bswap32 x) n \<longleftrightarrow>
     n < 32 \<and> bit x (if n < 8 then n + 24 else if n < 16 then n + 8
                     else if n < 24 then n - 8 else n - 24)"
proof (cases "n < 32")
  case True
  then show ?thesis
    by (auto simp: bswap32_def bit_or_iff bit_push_bit_iff bit_take_bit_iff bit_drop_bit_eq
        add.commute dest: bit_imp_le_length)
next
  case False
  then show ?thesis by (auto dest: bit_imp_le_length)
qed

lemma bswap32_bswap32 [simp]: "bswap32 (bswap32 x) = x"
proof (rule bit_word_eqI)
  fix n assume "n < LENGTH(32)"
  then consider "n < 8" | "8 \<le> n" "n < 16" | "16 \<le> n" "n < 24" | "24 \<le> n" "n < 32"
    by force
  then show "bit (bswap32 (bswap32 x)) n = bit x n"
    by cases (auto simp: bit_bswap32 less_diff_conv)
qed

lemma ntohl_ntohl [simp]: "ntohl be (ntohl be x) = x"
  by (simp add: ntohl_def)

lemma ntohl_inj [simp]: "ntohl be x = ntohl be y \<longleftrightarrow> x = y"
  by (metis ntohl_ntohl)

end
