(* ===== verification/Containers.thy ===== *)
theory Containers
  imports Prelude
begin

text \<open>
  The intrusive containers every component keeps its state in: doubly linked lists
  (\<open>src/utlist.h\<close>) as HOL lists in link order, and hash tables (\<open>uthash\<close>) as lists in
  insertion order, which is the order \<open>HASH_ITER\<close> walks and whose first element is the
  table's head pointer. The contract of a table is a locale, interpreted on the list model
  once for every key function; the contract of an identifier pool is a second locale, which
  the allocators of the later theories interpret.
\<close>

section \<open>Doubly linked lists\<close>

definition dl_search :: "('a \<Rightarrow> 'a \<Rightarrow> int) \<Rightarrow> 'a list \<Rightarrow> 'a \<Rightarrow> 'a option" where
  "dl_search cmp head elt = find (\<lambda>out. cmp out elt = 0) head"

definition dl_append :: "'a list \<Rightarrow> 'a \<Rightarrow> 'a list" where
  "dl_append head add = head @ [add]"

text \<open>\<open>DL_DELETE\<close> is only ever applied to the element a preceding \<open>DL_SEARCH\<close> with the same
  arguments has found.\<close>

definition dl_delete_found :: "('a \<Rightarrow> 'a \<Rightarrow> int) \<Rightarrow> 'a list \<Rightarrow> 'a \<Rightarrow> 'a list" where
  "dl_delete_found cmp head elt = del1 (\<lambda>out. cmp out elt = 0) head"

text \<open>The comparison of integer lists, \<open>ret_list_int_cmp\<close> and \<open>ret_group_list_int_cmp\<close>.\<close>

definition list_int_cmp :: "int \<Rightarrow> int \<Rightarrow> int" where
  "list_int_cmp a b = (if a = b then 0 else if a > b then 1 else -1)"

lemma list_int_cmp_0 [simp]: "list_int_cmp a b = 0 \<longleftrightarrow> a = b"
  by (simp add: list_int_cmp_def)

lemma dl_search_None: "dl_search cmp xs e = None \<longleftrightarrow> (\<forall>x \<in> set xs. cmp x e \<noteq> 0)"
  by (auto simp: dl_search_def find_None_iff)

lemma dl_search_int: "dl_search list_int_cmp xs v = (if v \<in> set xs then Some v else None)"
  unfolding dl_search_def by (induction xs) auto

lemma set_dl_append [simp]: "set (dl_append xs x) = insert x (set xs)"
  by (simp add: dl_append_def)

lemma distinct_dl_append [simp]: "distinct (dl_append xs x) \<longleftrightarrow> distinct xs \<and> x \<notin> set xs"
  by (auto simp: dl_append_def)

lemma dl_delete_found_int: "dl_delete_found list_int_cmp xs v = remove1 v xs"
  unfolding dl_delete_found_def by (induction xs) auto

section \<open>Hash tables\<close>

definition hash_find :: "('v \<Rightarrow> 'k) \<Rightarrow> 'v list \<Rightarrow> 'k \<Rightarrow> 'v option" where
  "hash_find key tbl k = find (\<lambda>e. key e = k) tbl"

definition hash_add :: "'v \<Rightarrow> 'v list \<Rightarrow> 'v list" where
  "hash_add e tbl = tbl @ [e]"

definition hash_del :: "('v \<Rightarrow> 'k) \<Rightarrow> 'k \<Rightarrow> 'v list \<Rightarrow> 'v list" where
  "hash_del key k tbl = del1 (\<lambda>e. key e = k) tbl"

text \<open>Writing a field of an element through the pointer a lookup returned.\<close>

definition hash_mod :: "('v \<Rightarrow> 'k) \<Rightarrow> 'k \<Rightarrow> ('v \<Rightarrow> 'v) \<Rightarrow> 'v list \<Rightarrow> 'v list" where
  "hash_mod key k f tbl = upd1 (\<lambda>e. key e = k) f tbl"

abbreviation keys_distinct :: "('v \<Rightarrow> 'k) \<Rightarrow> 'v list \<Rightarrow> bool" where
  "keys_distinct key tbl \<equiv> distinct (map key tbl)"

locale keyed_table =
  fixes lookup :: "'t \<Rightarrow> 'k \<Rightarrow> 'v option"
    and add :: "'v \<Rightarrow> 't \<Rightarrow> 't"
    and del :: "'k \<Rightarrow> 't \<Rightarrow> 't"
    and modify :: "'k \<Rightarrow> ('v \<Rightarrow> 'v) \<Rightarrow> 't \<Rightarrow> 't"
    and key_of :: "'v \<Rightarrow> 'k"
    and wf :: "'t \<Rightarrow> bool"
  assumes lookup_key: "lookup t k = Some v \<Longrightarrow> key_of v = k"
    and lookup_add: "wf t \<Longrightarrow> lookup t (key_of v) = None \<Longrightarrow>
          lookup (add v t) k = (if k = key_of v then Some v else lookup t k)"
    and wf_add: "wf t \<Longrightarrow> lookup t (key_of v) = None \<Longrightarrow> wf (add v t)"
    and lookup_del: "wf t \<Longrightarrow> lookup (del k' t) k = (if k = k' then None else lookup t k)"
    and wf_del: "wf t \<Longrightarrow> wf (del k t)"
    and lookup_modify: "(\<And>v. key_of (f v) = key_of v) \<Longrightarrow>
          lookup (modify k' f t) k = (if k = k' then map_option f (lookup t k) else lookup t k)"
    and wf_modify: "wf t \<Longrightarrow> (\<And>v. key_of (f v) = key_of v) \<Longrightarrow> wf (modify k f t)"
begin

lemma add_then_find: "wf t \<Longrightarrow> lookup t (key_of v) = None \<Longrightarrow> lookup (add v t) (key_of v) = Some v"
  by (simp add: lookup_add)

lemma add_then_del:
  "wf t \<Longrightarrow> lookup t (key_of v) = None \<Longrightarrow> lookup (del (key_of v) (add v t)) = lookup t"
  by (auto simp: fun_eq_iff lookup_del lookup_add wf_add)

lemma del_then_find: "wf t \<Longrightarrow> lookup (del k t) k = None"
  by (simp add: lookup_del)

lemma del_add_wf: "wf t \<Longrightarrow> key_of v = k \<Longrightarrow> wf (add v (del k t))"
  by (simp add: wf_add wf_del lookup_del)

lemma del_add_lookup:
  "wf t \<Longrightarrow> key_of v = k \<Longrightarrow> lookup (add v (del k t)) x = (if x = k then Some v else lookup t x)"
  by (simp add: lookup_add wf_del lookup_del)

lemma modify_other:
  "(\<And>v. key_of (f v) = key_of v) \<Longrightarrow> k \<noteq> k' \<Longrightarrow> lookup (modify k' f t) k = lookup t k"
  by (simp add: lookup_modify)

end

interpretation uth: keyed_table
  "hash_find key" hash_add "hash_del key" "hash_mod key" key "keys_distinct key"
  for key :: "'v \<Rightarrow> 'k"
proof (unfold_locales, goal_cases)
  case 1 then show ?case by (auto simp: hash_find_def dest: find_SomeD)
next
  case 2 then show ?case by (auto simp: hash_find_def hash_add_def find_append split: option.splits)
next
  case 3 then show ?case by (auto simp: hash_find_def hash_add_def find_key_None)
next
  case 4 then show ?case by (auto simp: hash_find_def hash_del_def upd_simps)
next
  case 5 then show ?case by (simp add: hash_del_def distinct_map_del1)
next
  case 6 then show ?case by (simp add: hash_find_def hash_mod_def upd_simps)
next
  case 7 then show ?case by (simp add: hash_mod_def)
qed

lemma hash_find_in: "hash_find key t k = Some e \<Longrightarrow> e \<in> set t \<and> key e = k"
  by (auto simp: hash_find_def dest: find_SomeD)

lemma hash_find_iff:
  "keys_distinct key t \<Longrightarrow> hash_find key t k = Some e \<longleftrightarrow> e \<in> set t \<and> key e = k"
  by (simp add: hash_find_def find_key_iff)

lemma hash_find_None: "hash_find key t k = None \<longleftrightarrow> k \<notin> key ` set t"
  by (simp add: hash_find_def find_key_None)

lemma hash_find_Nil [simp]: "hash_find key [] k = None"
  by (simp add: hash_find_def)

lemma set_hash_add [simp]: "set (hash_add e t) = insert e (set t)"
  by (simp add: hash_add_def)

lemma set_hash_del: "keys_distinct key t \<Longrightarrow> set (hash_del key k t) = {e \<in> set t. key e \<noteq> k}"
  by (simp add: hash_del_def set_del1_key)

lemma set_hash_mod:
  "keys_distinct key t \<Longrightarrow> (\<And>x. key (f x) = key x) \<Longrightarrow>
     set (hash_mod key k f t) = (\<lambda>x. if key x = k then f x else x) ` set t"
  by (simp add: hash_mod_def set_upd1_key)

lemma map_hash_mod [simp]:
  "(\<And>x. g (f x) = g x) \<Longrightarrow> map g (hash_mod key k f t) = map g t"
  by (simp add: hash_mod_def)

lemmas table_simps =
  uth.lookup_del uth.lookup_modify uth.lookup_add uth.wf_del uth.wf_add uth.wf_modify

section \<open>Identifier pools\<close>

text \<open>
  Several components hand out small integers (route entry slots, next-hop slots, group ids,
  LTT rows, policer indexes, multicast pair slots). What their clients rely on is the same:
  an index is never handed out while it is in use. A client is a sequence of requests; it
  only gives back what it holds.
\<close>

datatype 'i pool_op = Take | Give 'i

fun pool_run ::
  "('s \<Rightarrow> ('i \<times> 's) option) \<Rightarrow> ('i \<Rightarrow> 's \<Rightarrow> 's) \<Rightarrow> 'i pool_op list \<Rightarrow> 'i list \<times> 's \<Rightarrow> 'i list \<times> 's" where
  "pool_run tk gv [] hs = hs"
| "pool_run tk gv (Take # ops) (held, s) =
     pool_run tk gv ops (case tk s of None \<Rightarrow> (held, s) | Some (i, s') \<Rightarrow> (i # held, s'))"
| "pool_run tk gv (Give i # ops) (held, s) =
     pool_run tk gv ops (if i \<in> set held then (remove1 i held, gv i s) else (held, s))"

locale id_pool =
  fixes tk :: "'s \<Rightarrow> ('i \<times> 's) option"
    and gv :: "'i \<Rightarrow> 's \<Rightarrow> 's"
    and in_use :: "'s \<Rightarrow> 'i set"
    and ok :: "'s \<Rightarrow> bool"
  assumes take_fresh: "ok s \<Longrightarrow> tk s = Some (i, s') \<Longrightarrow> i \<notin> in_use s"
    and take_uses: "ok s \<Longrightarrow> tk s = Some (i, s') \<Longrightarrow> in_use s' = insert i (in_use s)"
    and take_ok: "ok s \<Longrightarrow> tk s = Some (i, s') \<Longrightarrow> ok s'"
    and give_frees: "ok s \<Longrightarrow> i \<in> in_use s \<Longrightarrow> in_use (gv i s) = in_use s - {i}"
    and give_ok: "ok s \<Longrightarrow> i \<in> in_use s \<Longrightarrow> ok (gv i s)"
begin

lemma take_twice_differ:
  "ok s \<Longrightarrow> tk s = Some (i, s1) \<Longrightarrow> tk s1 = Some (j, s2) \<Longrightarrow> i \<noteq> j"
  using take_fresh take_uses take_ok by (metis insertI1)

lemma give_undoes_take:
  "ok s \<Longrightarrow> tk s = Some (i, s') \<Longrightarrow> in_use (gv i s') = in_use s"
  using give_frees take_fresh take_uses take_ok by fastforce

lemma run_exclusive:
  assumes "ok s" and "distinct held" and "set held \<subseteq> in_use s"
    and "pool_run tk gv ops (held, s) = (held', s')"
  shows "ok s' \<and> distinct held' \<and> set held' \<subseteq> in_use s' \<and>
         in_use s' - set held' = in_use s - set held"
  using assms
proof (induction ops arbitrary: held s)
  case Nil
  then show ?case by auto
next
  case (Cons op ops)
  show ?case
  proof (cases op)
    case Take
    show ?thesis
    proof (cases "tk s")
      case None
      with Cons Take show ?thesis by simp
    next
      case (Some p)
      then obtain i s1 where tk: "tk s = Some (i, s1)" by (cases p) auto
      note facts = take_fresh [OF Cons.prems(1) tk] take_uses [OF Cons.prems(1) tk]
        take_ok [OF Cons.prems(1) tk]
      have "ok s' \<and> distinct held' \<and> set held' \<subseteq> in_use s' \<and>
            in_use s' - set held' = in_use s1 - set (i # held)"
        using Cons.prems Take tk facts by (intro Cons.IH) auto
      with facts show ?thesis by auto
    qed
  next
    case (Give i)
    show ?thesis
    proof (cases "i \<in> set held")
      case True
      with Cons.prems have i: "i \<in> in_use s" by auto
      note facts = give_frees [OF Cons.prems(1) i] give_ok [OF Cons.prems(1) i]
      have "ok s' \<and> distinct held' \<and> set held' \<subseteq> in_use s' \<and>
            in_use s' - set held' = in_use (gv i s) - set (remove1 i held)"
        using Cons.prems Give True facts by (intro Cons.IH) auto
      with facts True Cons.prems(2) show ?thesis by auto
    next
      case False
      with Cons Give show ?thesis by simp
    qed
  qed
qed

end

end
