(* ===== verification/Platform.thy ===== *)
theory Platform
  imports Prelude
begin

text \<open>
  What the code sees of the world outside \<open>src/\<close>: the switch library (CPSS), the ARP
  daemon's socket and the stack peers. Every call that leaves the program is an
  \<open>effect\<close>; a state carries the effects issued so far, newest first. What the library
  answers (return codes, values read back) is an \<open>env\<close>, a parameter of every operation:
  a function of the effects so far and of the call. The byte order of the host, the number
  of switch devices, their interconnect ports (\<open>dev_info\<close>) and the constants of the control protocol's header are in it too.

  The flag \<open>crashed\<close> of a state is set where the C code runs into undefined behaviour (an
  access out of bounds, a null or uninitialised read) or a failing \<open>assert\<close>.
\<close>

section \<open>Library data\<close>

datatype pkt_cmd =
    CMD_FORWARD | CMD_MIRROR_TO_CPU | CMD_TRAP_TO_CPU | CMD_DROP_HARD | CMD_DROP_SOFT | CMD_ROUTE

datatype iface = IF_None | IF_Port u8 u8 | IF_Trunk nat | IF_Vidx u16

text \<open>\<open>CPSS_DXCH_IP_UC_ROUTE_ENTRY_STC\<close>, the fields the code sets; all others stay zero.\<close>

record uc_route_entry =
  uc_cmd :: pkt_cmd
  uc_nextHopInterface :: iface
  uc_nextHopARPPointer :: nat
  uc_nextHopVlanId :: vid
  uc_ttlHopLimitDecEnable :: bool
  uc_cpuCodeIdx :: nat
  uc_appSpecificCpuCodeEnable :: bool
  uc_trapMirrorArpBcEnable :: bool

definition uc_zero :: uc_route_entry where
  "uc_zero = \<lparr>uc_cmd = CMD_FORWARD, uc_nextHopInterface = IF_None, uc_nextHopARPPointer = 0,
     uc_nextHopVlanId = 0, uc_ttlHopLimitDecEnable = False, uc_cpuCodeIdx = 0,
     uc_appSpecificCpuCodeEnable = False, uc_trapMirrorArpBcEnable = False\<rparr>"

text \<open>\<open>CPSS_DXCH_IP_LTT_ENTRY_STC\<close>: the first route entry of an ECMP group and the number of
  paths minus one.\<close>

record ltt_entry =
  routeEntryBaseIndex :: int
  ltt_numOfPaths :: int

record mc_route_entry =
  mc_cmd :: pkt_cmd
  mc_RPFVlan :: vid
  mc_RPFFailCommand :: pkt_cmd
  mc_RPFCheckEnable :: bool
  mc_internalMLLPointer :: int

text \<open>One node and one pair of the multicast linked list in hardware.\<close>

record mll_node =
  nd_vidx :: mcg
  nd_vlan :: vid
  nd_last :: bool

record mll_hw_pair =
  firstMllNode :: mll_node
  secondMllNode :: mll_node
  nextPointer :: int

text \<open>An IPv6 address is its 16 bytes in memory order.\<close>

type_synonym ipv6 = "u8 list"

datatype arpd_cmd = ARPD_CC_IP_ADDR_ADD | ARPD_CC_IP_ADDR_DEL | NDPD_CC_IP_ADDR_ADD | NDPD_CC_IP_ADDR_DEL

text \<open>The id of a virtual interface: a 32-bit word of the control protocol with three fields.\<close>

record vif_id =
  vif_type :: nat
  vif_dev :: nat
  vif_num :: nat

text \<open>The MAC table. A key is a union tagged by the entry's type; an interface description is a
  struct, of which the code fills the fields of one type and leaves the others zero.\<close>

datatype fdb_key =
    MAC_ADDR vid mac
  | IPV4_MCAST vid "u8 list" "u8 list"
  | IPV6_MCAST vid "u8 list" "u8 list"

datatype cpss_if_type = CPSS_IF_PORT | CPSS_IF_TRUNK | CPSS_IF_VIDX | CPSS_IF_VID | CPSS_IF_OTHER

record cpss_iface =
  ci_type :: cpss_if_type
  ci_devNum :: u8
  ci_portNum :: u8
  ci_trunkId :: nat
  ci_vidx :: u16
  ci_vlanId :: vid

datatype mac_cmd = MAC_TABLE_FRWRD | MAC_TABLE_DROP

record mac_entry =
  me_key :: fdb_key
  me_dst :: cpss_iface
  me_isStatic :: bool
  me_userDefined :: nat
  me_daCommand :: mac_cmd
  me_saCommand :: mac_cmd
  me_daRoute :: bool
  me_appSpecificCpuCode :: bool
  me_spUnknown :: bool
  me_sourceID :: nat

datatype fdb_action_mode = AGE_WITHOUT_REMOVAL | AGE_WITH_REMOVAL | FDB_DELETING

datatype lock_cmd = LOCK_FRWRD | LOCK_DROP

text \<open>What the FDB registers of a device held before a flush.\<close>

record fdb_regs =
  fr_act_mode :: fdb_action_mode
  fr_mac_mode :: nat
  fr_act_dev :: "u32 \<times> u32"
  fr_act_vid :: "u16 \<times> u16"
  fr_is_trunk :: "u32 \<times> u32"
  fr_port :: "u32 \<times> u32"

text \<open>A message about a security breach.\<close>

datatype breach_code = BREACH_PORT_NOT_IN_VLAN | BREACH_PORT_NA | BREACH_MOVED_STATIC | BREACH_OTHER
datatype breach_type = SB_PORT_NA | SB_MOVED_STATIC

record breach_msg =
  sb_code :: breach_code
  sb_port :: u8
  sb_vlan :: vid
  sb_mac :: mac

text \<open>Requests about MAC addresses, from the manager and between the units of a stack. \<open>None\<close>
  stands for \<open>ALL_VLANS\<close>, \<open>ALL_PORTS\<close> and \<open>ALL_VIFS\<close>.\<close>

datatype mac_entry_type = MET_DYNAMIC | MET_STATIC | MET_SECURE

record mac_op_arg =
  ma_mac :: mac
  ma_vid :: vid
  ma_port :: u16
  ma_drop :: bool
  ma_type :: mac_entry_type
  ma_delete :: bool

record mac_op_arg_vif =
  mv_mac :: mac
  mv_vid :: vid
  mv_vifid :: vif_id
  mv_drop :: bool
  mv_type :: mac_entry_type
  mv_delete :: bool

record mc_ip_op_arg =
  mi_src :: "u8 list"
  mi_dst :: "u8 list"
  mi_vid :: vid
  mi_mcg :: mcg
  mi_delete :: bool

record fdb_flush_arg =
  aa_vid :: "vid option"
  aa_port :: "u16 option"
  aa_ds :: bool

record fdb_flush_arg_vif =
  av_vid :: "vid option"
  av_vifid :: "vif_id option"
  av_ds :: bool

text \<open>\<open>struct pti_fdbr\<close> and \<open>struct pti_fdbr_msg\<close> of \<open>src/mac.c\<close>. The union of a record lies over two
  bytes: \<open>port.hwdev\<close> and \<open>trunk.trunkId\<close> are the first, \<open>port.hwport\<close> is the second.\<close>

datatype pti_fdb_op = PTI_FDB_OP_ADD | PTI_FDB_OP_DEL
datatype pti_iface_type = IFTYPE_PORT | IFTYPE_TRUNK | IFTYPE_OTHER

record pti_fdbr =
  pf_operation :: pti_fdb_op
  pf_type :: pti_iface_type
  pf_byte0 :: u8
  pf_byte1 :: u8
  pf_vid :: u16
  pf_mac :: mac

datatype fdbman_cmd =
    FMC_MASTER_READY
  | FMC_UPDATE "pti_fdbr list"
  | FMC_MASTER_UPDATE "pti_fdbr list"
  | FMC_FLUSH fdb_flush_arg
  | FMC_MASTER_FLUSH fdb_flush_arg
  | FMC_FLUSH_VIF fdb_flush_arg_vif
  | FMC_MASTER_FLUSH_VIF fdb_flush_arg_vif
  | FMC_MACOP mac_op_arg_vif
  | FMC_MASTER_MACOP mac_op_arg_vif
  | FMC_MASTER_RT "u8 list"
  | FMC_MASTER_NA "u8 list"
  | FMC_MASTER_NA_IPV6 "u8 list"
  | FMC_OPNA "u8 list"
  | FMC_OPNA_IPV6 "u8 list"
  | FMC_MASTER_UDT u32
  | FMC_MASTER_UDT_IPV6 ipv6
  | FMC_MASTER_CLEAR_ROUTING
  | FMC_VIF_LS "u8 list"
  | FMC_VIFLS_GET
  | FMC_VIF_SET_STP_STATE vif_id "u8 list"

record fdbman_msg =
  fm_stack_id :: u8
  fm_serial :: u64
  fm_devsbmp :: u16
  fm_cmd :: fdbman_cmd

text \<open>Commands of the MAC task to the control task.\<close>

datatype control_cmd =
    SC_INT_RTBD_CMD "u8 list"
  | SC_INT_NA_CMD "u8 list"
  | SC_INT_NA_IPV6_CMD "u8 list"
  | SC_INT_OPNA_CMD "u8 list"
  | SC_INT_OPNA_IPV6_CMD "u8 list"
  | SC_INT_UDT_CMD u32
  | SC_INT_UDT_IPV6_CMD ipv6
  | SC_INT_CLEAR_RT_CMD
  | SC_INT_CLEAR_RE_CMD u16
  | SC_INT_VIF_SET_STP_STATE vif_id "u8 list"
  | CC_INT_GET_RT_CMD
  | CC_INT_GET_UDADDRS_CMD

datatype fdb_effect =
    FdbHashCalc fdb_key
  | FdbMacEntryWrite nat nat mac_entry
  | FdbMacEntryInvalidate nat nat
  | FdbAAandTAToCpuSet nat bool
  | FdbActionModeGet nat
  | FdbActionModeSet nat fdb_action_mode
  | FdbMacTriggerModeGet nat
  | FdbMacTriggerModeSet nat nat
  | FdbActionActiveDevGet nat
  | FdbActionActiveDevSet nat "u32 \<times> u32"
  | FdbActionActiveVlanGet nat
  | FdbActionActiveVlanSet nat "u16 \<times> u16"
  | FdbActionActiveInterfaceGet nat
  | FdbActionActiveInterfaceSet nat "u32 \<times> u32" "u32 \<times> u32"
  | FdbActionsEnableSet nat bool
  | FdbStaticDelEnable nat bool
  | FdbTrigActionStart nat
  | FdbTrigActionStatusGet nat
  | FdbAgingTimeoutSet nat nat
  | FdbAgingTimeoutGet nat
  | FdbPortLearnStatusSet nat nat lock_cmd
  | FdbNaToCpuPerPortSet nat nat bool
  | FdbNaStormPreventSet nat nat bool
  | SecurBreachNaPerPortSet nat nat bool
  | SecurBreachMovedStaticAddrSet nat bool
  | SecurBreachMsgGet nat

text \<open>Notifications to the manager and messages to the other units and tasks.\<close>

datatype fdb_notify =
    CN_NEW_ADDR u16 mac vid
  | CN_MAC_OP_LEARN u16 mac vid
  | CN_FDB_EVENT mac vid vif_id
  | CN_SECURITY_BREACH breach_type u16 vid mac
  | FdbmanSend fdbman_msg
  | ControlCmd control_cmd
  | ClearLsSerial u16
  | ProcessLs "u8 list"
  | SendAllLs

section \<open>Effects\<close>

text \<open>Unicast routing tables (route entries, next-hop MAC addresses, prefixes, LTT).\<close>

datatype uc_effect =
    UcRouteEntriesWrite nat int uc_route_entry
  | RouterArpAddrWrite nat nat mac
  | LpmIpv4UcPrefixAdd u32 nat ltt_entry
  | LpmIpv4UcPrefixDel u32 nat
  | LpmIpv6UcPrefixAdd ipv6 nat ltt_entry
  | LpmIpv6UcPrefixDel ipv6 nat
  | LttWrite nat u32 u8 ltt_entry
  | RoutingEnable nat
  | RouterMacSaBaseSet nat mac

text \<open>Multicast: route entries, prefixes, the linked list of pairs, bridge groups.\<close>

datatype mc_effect =
    McRouteEntriesWrite nat int mc_route_entry
  | McRouteEntriesRead nat int
  | LpmIpv4McEntryAdd "u8 list" "u8 list" nat ltt_entry
  | LpmIpv4McEntrySearch "u8 list" "u8 list" nat
  | LpmIpv4McEntryDel "u8 list" "u8 list" nat
  | MllPairWrite nat int mll_hw_pair
  | MllPairRead nat int
  | McEntryWrite nat mcg "nat set"
  | McGroupDelete nat mcg
  | McMemberAdd nat mcg nat
  | McMemberDelete nat mcg nat

text \<open>Messages to the ARP daemon and to the MAC task.\<close>

datatype msg_effect =
    ArpdSend arpd_cmd vid u32
  | NdpdSend arpd_cmd vid ipv6
  | MacOpOpna arpd_cmd vid u32
  | MacOpOpnaV6 arpd_cmd vid ipv6
  | MacOpUdt u32
  | MacFlushVif vid
  | MacOpOwn vid mac bool
  | PdsaVlanIfOp vid bool

text \<open>VLAN and spanning tree tables. A VLAN entry, as far as the code sets or changes it: its
  members, the members that are tagged, the command of each port, the spanning tree group and
  the two fields that steer control packets to the CPU.\<close>

datatype tag_cmd = UNTAGGED_CMD | TAG0_CMD | OUTER_TAG0_INNER_TAG1_CMD | POP_OUTER_TAG_CMD

record vlan_entry =
  ve_members :: "nat set"
  ve_tagging :: "nat set"
  ve_cmd :: "nat \<Rightarrow> tag_cmd"
  ve_stgId :: nat
  ve_ipCtrlToCpu :: bool
  ve_unregIpv4BcastCmd :: pkt_cmd

datatype vlan_effect =
    VlanEntryWrite nat vid vlan_entry
  | VlanEntryRead nat vid
  | VlanEntryInvalidate nat vid
  | RouterVlanMacSaLsbSet nat vid u8
  | VlanToStpIdBind nat vid nat
  | StpStateSetForward nat nat nat
  | VlanMemberSet nat vid nat bool bool tag_cmd
  | VlanTableInvalidate nat
  | VlanNaToCpuEnable nat vid bool
  | VlanIpMcRouteEnable nat vid bool
  | VlanFloodVidxModeSet nat vid nat

text \<open>Policers and QoS profiles.\<close>

datatype pol_cmd = NO_CHANGE | REMARK_BY_ENTRY | POL_DROP
datatype remark_mode = REMARK_NONE | REMARK_L2 | REMARK_L3
datatype token_bucket = SR_TCM u32 u32 u32 | TR_TCM u32 u32 u32 u32

record metering_entry =
  mt_countingEntryIndex :: int
  mt_bucket :: token_bucket
  mt_yellow :: pol_cmd
  mt_red :: pol_cmd
  mt_modifyDscp :: bool
  mt_modifyUp :: bool
  mt_qosProfile :: nat
  mt_remark :: remark_mode

record cos_profile =
  cp_up :: nat
  cp_tc :: nat
  cp_dscp :: nat
  cp_exp :: nat

datatype pol_stage = STAGE_INGRESS | STAGE_EGRESS

datatype pol_effect =
    PolicerMeteringEntrySet nat pol_stage int metering_entry
  | PolicerMeteringEntryGet nat pol_stage int
  | PolicerBillingEntrySet nat pol_stage int
  | PolicerBillingEntryGet nat pol_stage int bool
  | PolicerEgressL2RemarkModelSet nat
  | CosProfileEntrySet nat nat cos_profile
  | CosDscpToProfileMapSet nat nat nat
  | CosUpCfiDeiToProfileMapSet nat nat nat nat
  | PortTxQArbGroupSet nat nat bool nat
  | PortTxQWrrProfileSet nat nat u8 nat

text \<open>Ports: VLANs, spanning tree states, isolation and blocked traffic.\<close>

record link_state =
  ls_link :: nat
  ls_speed :: nat
  ls_duplex :: nat

datatype iso_traffic = ISO_L2 | ISO_L3

datatype port_effect =
    VlanPortDelete nat vid nat
  | VlanPortVidSet nat nat vid
  | VlanForcePvidEnable nat nat bool
  | VlanPortIngressTpidSet nat nat nat nat
  | StpStateSet nat nat nat nat
  | CN_PORT_VID_SET u16 vid
  | PortIsolationSet nat iso_traffic u8 nat "nat set"
  | PortEgrFltUnkEnable nat nat bool
  | PortEgrFltUregMcastEnable nat nat bool
  | PortEgrFltUregBcEnable nat nat bool
  | VlanRemoveTag1IfZeroSet nat bool

text \<open>Trunks and link states. A message about link states names the unit, its serial and ports.\<close>

record vif_ls_msg =
  vl_stack_id :: nat
  vl_serial :: u64
  vl_data :: "(vif_id \<times> link_state) list"

datatype trunk_effect =
    TrunkMembersSet nat nat "(u8 \<times> u8) list" "(u8 \<times> u8) list"
  | CN_PORT_STATE vif_id u16 link_state
  | CN_CH_GR_RESET vif_id
  | CN_CH_GR_SET vif_id vif_id
  | MacOpSendVifLs vif_ls_msg
  | FlexShutdown vif_id bool

text \<open>The stack. A link to another unit is a port, no port, or the trunk between the devices.\<close>

datatype cscd_link = LINK_PORT nat | LINK_NULL_PORT | LINK_CSCD_TRUNK

datatype stack_effect =
    SrcIdGroupEntrySet nat nat "nat set"
  | SrcIdGroupPortAdd nat nat nat
  | SrcIdGroupPortDelete nat nat nat
  | SrcIdUcastEgressFilterSet nat
  | CscdCtrlQosSet nat
  | CscdDevMapTableSet nat nat cscd_link
  | CpuCodeDesignatedDeviceSet nat u8
  | MacSetMaster u8 u64 u16

text \<open>What a rule of an access list or a policy is bound to.\<close>

datatype pcl_interface_type = PCL_INTERFACE_TYPE_PORT | PCL_INTERFACE_TYPE_VLAN | PCL_INTERFACE_TYPE_OTHER

record pcl_interface =
  pif_type :: pcl_interface_type
  pif_num :: u16

text \<open>Policy control lists. A rule gives value and mask of the fields it sets; the others are zero in
  both. \<open>PF_cmpBitmap\<close> stands for the byte with the port comparators (\<open>udb[2]\<close>, or
  \<open>egrTcpUdpPortComparator\<close>).\<close>

datatype pcl_value = PV_num nat | PV_bytes "u8 list"

datatype pcl_field =
    PF_pclId | PF_isL2Valid | PF_isTagged | PF_isIp | PF_isIpv6 | PF_isL4Valid | PF_l2Encap | PF_ipProtocol | PF_sip | PF_dip
  | PF_l4Byte nat | PF_cmpBitmap | PF_dscp | PF_macSa | PF_macDa | PF_etherType | PF_vid | PF_up | PF_sourcePort

type_synonym pcl_match = "(pcl_field \<times> pcl_value \<times> pcl_value) list"

datatype pcl_format =
    INGRESS_EXT_NOT_IPV6 | EGRESS_EXT_NOT_IPV6 | INGRESS_EXT_IPV6_L4 | EGRESS_EXT_IPV6_L4

datatype pcl_cmd = PCL_FORWARD | PCL_MIRROR_TO_CPU | PCL_TRAP_TO_CPU | PCL_DROP_HARD | PCL_CMD_OTHER nat

datatype cpu_code =
    FIRST_USER_DEFINED nat | LINK_LOCAL_MC_DIP_TRP_MRR | NEIGHBOR_SOLICITATION

text \<open>An action: VLAN assignment (for tagged frames only, nested, with hard precedence, the VLAN), QoS
  (modify DSCP, modify priority, profile), policer, route through an LTT position, match counter, CPU
  code, bypass of the ingress pipe and the bridge.\<close>

record pcl_action =
  ac_pktCmd :: pcl_cmd
  ac_actionStop :: bool
  ac_egressPolicy :: bool
  ac_vlan :: "(bool \<times> bool \<times> bool \<times> vid) option"
  ac_qos :: "(bool \<times> bool \<times> nat) option"
  ac_policer :: "nat option"
  ac_ltt :: "int option"
  ac_counter :: "nat option"
  ac_cpuCode :: "cpu_code option"
  ac_bypass :: bool

datatype pcl_dest = PCL_DEST_INGRESS | PCL_DEST_EGRESS | PCL_DEST_OTHER
datatype pcl_port_type = PCL_PORT_SRC | PCL_PORT_DST
datatype pcl_port_op = PCL_GTE | PCL_LTE

datatype pcl_effect =
    PclRuleSet nat pcl_format nat pcl_match pcl_action
  | PclRuleInvalidate nat nat
  | PclRuleCopy nat nat nat
  | PclPortComparatorSet nat pcl_dest u8 nat pcl_port_type pcl_port_op u16
  | PclCfgTblSet nat cpss_iface pcl_dest nat bool nat
  | PclPortIngressPolicyEnable nat nat bool
  | PclPortLookupModeSet nat nat pcl_dest nat bool
  | EgressPclPacketTypesSet nat nat bool
  | PclInit nat
  | PclIngressPolicyEnable nat bool
  | PclEgressPolicyEnable nat bool
  | PclCfgTblAccessModeSet nat
  | PclUserDefinedByteSet nat u8 nat
  | CncCounterSet nat nat nat
  | CncCounterGet nat nat nat
  | CncBlockClientEnableSet nat nat bool
  | CncBlockClientRangesSet nat nat
  | CncCounterClearByReadEnableSet nat bool

datatype effect =
    Uc uc_effect | Mc mc_effect | Msg msg_effect | Vl vlan_effect | Pl pol_effect
  | Fd fdb_effect | Nt fdb_notify | Pt port_effect | Tk trunk_effect | Sk stack_effect | Pc pcl_effect

text \<open>The counters of a billing entry: two words each for green, yellow and red packets.\<close>

record billing_entry =
  greenCntr :: "u32 \<times> u32"
  yellowCntr :: "u32 \<times> u32"
  redCntr :: "u32 \<times> u32"

record env =
  e_big_endian :: bool
  e_ndevs :: nat
  e_gt :: "effect list \<Rightarrow> effect \<Rightarrow> gt_status"
  e_mll_read :: "effect list \<Rightarrow> int \<Rightarrow> mll_hw_pair"
  e_mc_read :: "effect list \<Rightarrow> int \<Rightarrow> mc_route_entry"
  e_vlan_read :: "effect list \<Rightarrow> nat \<Rightarrow> vid \<Rightarrow> vlan_entry \<times> bool"
  e_meter_read :: "effect list \<Rightarrow> pol_stage \<Rightarrow> int \<Rightarrow> token_bucket"
  e_bill_read :: "effect list \<Rightarrow> pol_stage \<Rightarrow> int \<Rightarrow> billing_entry"
  e_ic_ports :: "nat \<Rightarrow> nat list"
  e_mc_search :: "effect list \<Rightarrow> u8 list \<Rightarrow> u8 list \<Rightarrow> nat \<Rightarrow> ltt_entry"
  e_vift_fe :: nat
  e_vift_pc :: nat
  e_trunk_id_min :: nat
  e_trunk_id_max :: nat

text \<open>What only the MAC task reads: the bucket of a key, the FDB registers, the state of an
  action, aging times, breach messages, the answers of the control task about routes, the bounds of the control protocol for port security
  and the number of records that fit a message between units. \<open>v_flush_polls\<close> bounds the polls
  of an action the model follows. The key of an FDB entry is a union of the library's headers;
  \<open>v_macvlan\<close> is what the bytes of an IP multicast key are when the member \<open>macVlan\<close> is read.\<close>

record fdb_env =
  v_hash :: "fdb_key \<Rightarrow> nat"
  v_macvlan :: "fdb_key \<Rightarrow> vid \<times> u8 list"
  v_regs :: "effect list \<Rightarrow> nat \<Rightarrow> fdb_regs"
  v_act_mode :: "effect list \<Rightarrow> nat \<Rightarrow> fdb_action_mode"
  v_trig_done :: "effect list \<Rightarrow> nat \<Rightarrow> bool"
  v_flush_polls :: nat
  v_aging_get :: "effect list \<Rightarrow> nat \<Rightarrow> nat"
  v_breach :: "effect list \<Rightarrow> nat \<Rightarrow> breach_msg"
  v_psec_addrs_min :: int
  v_psec_addrs_max :: int
  v_fdb_nrec :: nat
  v_routes :: "effect list \<Rightarrow> u8 list list option"
  v_udaddrs :: "effect list \<Rightarrow> u32 list option"

record sw =
  hw :: "effect list"
  crashed :: bool

definition crash :: "'a sw_scheme \<Rightarrow> 'a sw_scheme" where
  "crash s = s\<lparr>crashed := True\<rparr>"

definition emit :: "effect \<Rightarrow> 'a sw_scheme \<Rightarrow> 'a sw_scheme" where
  "emit e s = s\<lparr>hw := e # hw s\<rparr>"

text \<open>One library call: its return code, and the state with the call recorded.\<close>

definition crp :: "env \<Rightarrow> effect \<Rightarrow> 'a sw_scheme \<Rightarrow> gt_status \<times> 'a sw_scheme" where
  "crp E e s = (e_gt E (hw s) e, emit e s)"

text \<open>
  \<open>for_each_dev (d) rc = CRP (call (d, ...))\<close>: the call on every device in order, and the
  return code of the last one.
\<close>

fun for_devs :: "env \<Rightarrow> (nat \<Rightarrow> effect) \<Rightarrow> nat list \<Rightarrow> gt_status \<Rightarrow> 'a sw_scheme \<Rightarrow> gt_status \<times> 'a sw_scheme" where
  "for_devs E call [] rc s = (rc, s)"
| "for_devs E call (d # ds) rc s = (case crp E (call d) s of (rc', s') \<Rightarrow> for_devs E call ds rc' s')"

definition for_each_dev :: "env \<Rightarrow> (nat \<Rightarrow> effect) \<Rightarrow> 'a sw_scheme \<Rightarrow> gt_status \<times> 'a sw_scheme" where
  "for_each_dev E call s = for_devs E call [0 ..< e_ndevs E] GT_OK s"

definition dev_writes :: "env \<Rightarrow> (nat \<Rightarrow> effect) \<Rightarrow> effect list" where
  "dev_writes E call = rev (map call [0 ..< e_ndevs E])"

lemma for_devs_state: "snd (for_devs E call ds rc s) = s\<lparr>hw := rev (map call ds) @ hw s\<rparr>"
  by (induction ds arbitrary: rc s) (auto simp: crp_def emit_def)

lemma for_each_dev_state [simp]:
  "snd (for_each_dev E call s) = s\<lparr>hw := dev_writes E call @ hw s\<rparr>"
  by (simp add: for_each_dev_def dev_writes_def for_devs_state)

lemma for_each_dev_eq:
  "for_each_dev E call s = (fst (for_each_dev E call s), s\<lparr>hw := dev_writes E call @ hw s\<rparr>)"
  by (simp add: prod_eq_iff)

lemma hw_emit [simp]: "hw (emit e s) = e # hw s"
  by (simp add: emit_def)

lemma crashed_emit [simp]: "crashed (emit e s) = crashed s"
  by (simp add: emit_def)

lemma crashed_crash [simp]: "crashed (crash s)"
  by (simp add: crash_def)

lemma hw_crash [simp]: "hw (crash s) = hw s"
  by (simp add: crash_def)

lemma for_devs_ok:
  "(\<And>h d. e_gt E h (call d) = GT_OK) \<Longrightarrow> rc = GT_OK \<Longrightarrow> fst (for_devs E call ds rc s) = GT_OK"
  by (induction ds arbitrary: rc s) (auto simp: crp_def)

lemma for_each_dev_ok:
  "(\<And>h d. e_gt E h (call d) = GT_OK) \<Longrightarrow> fst (for_each_dev E call s) = GT_OK"
  by (simp add: for_each_dev_def for_devs_ok)

text \<open>The value a hardware table holds at an index after a history: that of the newest write.\<close>

definition uc_write :: "nat \<Rightarrow> int \<Rightarrow> effect \<Rightarrow> uc_route_entry option" where
  "uc_write d i e =
     (case e of Uc u \<Rightarrow> (case u of UcRouteEntriesWrite d' i' v \<Rightarrow> if d' = d \<and> i' = i then Some v else None
                            | _ \<Rightarrow> None)
      | _ \<Rightarrow> None)"

fun uc_entry_at :: "effect list \<Rightarrow> nat \<Rightarrow> int \<Rightarrow> uc_route_entry option" where
  "uc_entry_at [] d i = None"
| "uc_entry_at (e # es) d i = (case uc_write d i e of Some v \<Rightarrow> Some v | None \<Rightarrow> uc_entry_at es d i)"

text \<open>What a prefix table holds for an address and length: the entry of the newest call about
  them, none after a deletion.\<close>

definition lpm_write :: "u32 \<Rightarrow> nat \<Rightarrow> effect \<Rightarrow> ltt_entry option option" where
  "lpm_write a l e =
     (case e of
        Uc u \<Rightarrow> (case u of
            LpmIpv4UcPrefixAdd a' l' v \<Rightarrow> if a' = a \<and> l' = l then Some (Some v) else None
          | LpmIpv4UcPrefixDel a' l' \<Rightarrow> if a' = a \<and> l' = l then Some None else None
          | _ \<Rightarrow> None)
      | _ \<Rightarrow> None)"

fun lpm_ipv4_at :: "effect list \<Rightarrow> u32 \<Rightarrow> nat \<Rightarrow> ltt_entry option" where
  "lpm_ipv4_at [] a l = None"
| "lpm_ipv4_at (e # es) a l = (case lpm_write a l e of Some r \<Rightarrow> r | None \<Rightarrow> lpm_ipv4_at es a l)"

definition mll_write :: "nat \<Rightarrow> int \<Rightarrow> effect \<Rightarrow> mll_hw_pair option" where
  "mll_write d i e =
     (case e of Mc m \<Rightarrow> (case m of MllPairWrite d' i' v \<Rightarrow> if d' = d \<and> i' = i then Some v else None
                            | _ \<Rightarrow> None)
      | _ \<Rightarrow> None)"

fun mll_pair_at :: "effect list \<Rightarrow> nat \<Rightarrow> int \<Rightarrow> mll_hw_pair option" where
  "mll_pair_at [] d i = None"
| "mll_pair_at (e # es) d i = (case mll_write d i e of Some v \<Rightarrow> Some v | None \<Rightarrow> mll_pair_at es d i)"

lemma uc_entry_at_app:
  "uc_entry_at (xs @ ys) d i = (case uc_entry_at xs d i of None \<Rightarrow> uc_entry_at ys d i | Some v \<Rightarrow> Some v)"
  by (induction xs) (auto split: option.splits)

section \<open>Boot state\<close>

text \<open>A board with two devices on which every call of the library succeeds and reads back
  zeroes, and the statically initialised globals. The later theories extend the state by the
  globals of their components; the examples of the development start from it.\<close>

definition env0 :: env where
  "env0 = \<lparr>e_big_endian = True, e_ndevs = 2, e_gt = (\<lambda>_ _. GT_OK),
     e_mll_read = (\<lambda>_ _. \<lparr>firstMllNode = \<lparr>nd_vidx = 0, nd_vlan = 0, nd_last = False\<rparr>,
       secondMllNode = \<lparr>nd_vidx = 0, nd_vlan = 0, nd_last = False\<rparr>, nextPointer = 0\<rparr>),
     e_mc_read = (\<lambda>_ _. \<lparr>mc_cmd = CMD_FORWARD, mc_RPFVlan = 0, mc_RPFFailCommand = CMD_FORWARD,
       mc_RPFCheckEnable = False, mc_internalMLLPointer = 0\<rparr>),
     e_vlan_read = (\<lambda>_ _ _. (\<lparr>ve_members = {}, ve_tagging = {}, ve_cmd = (\<lambda>_. UNTAGGED_CMD), ve_stgId = 0,
       ve_ipCtrlToCpu = False, ve_unregIpv4BcastCmd = CMD_FORWARD\<rparr>, True)),
     e_meter_read = (\<lambda>_ _ _. SR_TCM 0 0 0),
     e_bill_read = (\<lambda>_ _ _. \<lparr>greenCntr = (0, 0), yellowCntr = (0, 0), redCntr = (0, 0)\<rparr>),
     e_ic_ports = (\<lambda>_. []),
     e_mc_search = (\<lambda>_ _ _ _. \<lparr>routeEntryBaseIndex = 0, ltt_numOfPaths = 0\<rparr>),
     e_vift_fe = 0, e_vift_pc = 3, e_trunk_id_min = 1, e_trunk_id_max = 31\<rparr>"

definition sw0 :: sw where "sw0 = \<lparr>hw = [], crashed = False\<rparr>"

end
