(* ===== verification/Vif.thy ===== *)
theory Vif
  imports Platform
begin

text \<open>
  The table of virtual interfaces (\<open>src/vif.c\<close>): for each of the 16 stack devices the
  ports, grouped by type, and the trunks. Modelled are the lookups the routing code uses,
  from an interface id to a table slot and from a slot to the hardware interface. The
  logical-to-physical device map is that of \<open>src/dev.c\<close>.
\<close>

section \<open>State\<close>

record vif =
  islocal :: bool
  local_ldev :: nat
  local_lport :: u8
  remote_hw_dev :: u8
  remote_hw_port :: u8

text \<open>A \<open>struct vif *\<close>: a slot of \<open>vifs[dev].port[]\<close>, or a trunk.\<close>

datatype vif_ref = VPort nat nat | VTrunk nat

text \<open>The fields of \<open>struct port\<close> (\<open>src/port.h\<close>) that the routing and VLAN code reads;
  \<open>stacking\<close> says that the port's stack role is not \<open>PSR_NONE\<close>; \<open>tallow\<close> and \<open>refc\<close> are
  those of \<open>vlan_conf\<close>, by index.\<close>

datatype port_mode = PM_ACCESS | PM_TRUNK | PM_CUSTOMER

record port =
  pt_ldev :: nat
  pt_lport :: nat
  stacking :: bool
  pt_mode :: port_mode
  pt_access_vid :: vid
  pt_native_vid :: vid
  pt_customer_vid :: vid
  pt_voice_vid :: vid
  tallow :: "nat \<Rightarrow> bool"
  refc :: "nat \<Rightarrow> nat"

record vif_st = sw +
  ports :: "port list"
  stack_id :: nat
  master_id :: nat
  n_by_type :: "nat \<Rightarrow> nat \<Rightarrow> nat"
  n_total :: "nat \<Rightarrow> nat"
  vif_port :: "nat \<Rightarrow> int \<Rightarrow> vif"
  dev_map :: "nat \<Rightarrow> u8"

section \<open>Operations\<close>

definition in_range :: "nat \<Rightarrow> nat \<Rightarrow> nat \<Rightarrow> bool" where
  "in_range val lo hi \<longleftrightarrow> lo \<le> val \<and> val \<le> hi"

definition port_valid :: "u16 \<Rightarrow> 'a vif_st_scheme \<Rightarrow> bool" where
  "port_valid n s \<longleftrightarrow> 0 < unat n \<and> unat n \<le> length (ports s)"

definition port_ptr :: "u16 \<Rightarrow> 'a vif_st_scheme \<Rightarrow> port option" where
  "port_ptr n s = (if port_valid n s then Some (ports s ! (unat n - 1)) else None)"

definition stack_active :: "'a vif_st_scheme \<Rightarrow> bool" where
  "stack_active s \<longleftrightarrow> stack_id s \<noteq> 0"

definition is_stack_port :: "port \<Rightarrow> 'a vif_st_scheme \<Rightarrow> bool" where
  "is_stack_port p s \<longleftrightarrow> stack_active s \<and> stacking p"

definition phys_dev :: "nat \<Rightarrow> 'a vif_st_scheme \<Rightarrow> u8 \<times> 'a vif_st_scheme" where
  "phys_dev ldev s = (if ldev < 32 then (dev_map s ldev, s) else (0, crash s))"

definition dev_set_map :: "nat \<Rightarrow> u8 \<Rightarrow> 'a vif_st_scheme \<Rightarrow> 'a vif_st_scheme" where
  "dev_set_map ldev pdev s =
     (if ldev < 32 \<and> pdev < 32 then s\<lparr>dev_map := (dev_map s)(ldev := pdev)\<rparr> else crash s)"

text \<open>The slots the types before \<open>type\<close> take.\<close>

definition type_base :: "'a vif_st_scheme \<Rightarrow> nat \<Rightarrow> nat \<Rightarrow> nat" where
  "type_base s dev type = sum_list (map (n_by_type s dev) [0 ..< type])"

definition vif_get :: "env \<Rightarrow> nat \<Rightarrow> nat \<Rightarrow> nat \<Rightarrow> 'a vif_st_scheme \<Rightarrow> vif_ref option \<times> 'a vif_st_scheme" where
  "vif_get E type dev num s =
     (if \<not> in_range type (e_vift_fe E) (e_vift_pc E) \<or> \<not> in_range dev 0 15 then (None, s)
      else if stack_id s = 0 \<and> dev \<noteq> 0 then (None, s)
      else let dev = (if stack_id s \<noteq> 0 \<and> dev = 0 then stack_id s else dev) in
        if type = e_vift_pc E then
          (if \<not> in_range num (e_trunk_id_min E) (e_trunk_id_max E) then (None, s)
           else (Some (VTrunk num), s))
        else if num > n_by_type s dev type \<or> num = 0 then (None, s)
        else let off = type_base s dev type + num - 1 in
          if off < n_total s dev then (Some (VPort dev off), s) else (None, crash s))"

definition vif_getn :: "env \<Rightarrow> vif_id \<Rightarrow> 'a vif_st_scheme \<Rightarrow> vif_ref option \<times> 'a vif_st_scheme" where
  "vif_getn E i s = vif_get E (vif_type i) (vif_dev i) (vif_num i) s"

text \<open>The member \<open>fill_cpss_if\<close>: \<open>vif_fill_cpss_if_port\<close> for ports,
  \<open>vif_fill_cpss_if_trunk\<close> for trunks.\<close>

definition vif_fill_cpss_if_port :: "vif \<Rightarrow> 'a vif_st_scheme \<Rightarrow> iface \<times> 'a vif_st_scheme" where
  "vif_fill_cpss_if_port v s =
     (if islocal v then (case phys_dev (local_ldev v) s of (d, s) \<Rightarrow> (IF_Port d (local_lport v), s))
      else (IF_Port (remote_hw_dev v) (remote_hw_port v), s))"

definition fill_cpss_if :: "vif_ref \<Rightarrow> 'a vif_st_scheme \<Rightarrow> iface \<times> 'a vif_st_scheme" where
  "fill_cpss_if r s =
     (case r of VPort dev off \<Rightarrow> vif_fill_cpss_if_port (vif_port s dev (int off)) s
      | VTrunk t \<Rightarrow> (IF_Trunk t, s))"

definition vif_get_hw :: "vif_ref option \<Rightarrow> 'a vif_st_scheme \<Rightarrow> (status \<times> u8 \<times> u8) \<times> 'a vif_st_scheme" where
  "vif_get_hw r s =
     (case r of None \<Rightarrow> ((ST_DOES_NOT_EXIST, 0, 0), s)
      | Some (VTrunk t) \<Rightarrow> ((ST_OK, 0, 0), s)
      | Some (VPort dev off) \<Rightarrow>
          let v = vif_port s dev (int off) in
          if islocal v then (case phys_dev (local_ldev v) s of (d, s) \<Rightarrow> ((ST_OK, d, local_lport v), s))
          else ((ST_OK, remote_hw_dev v, remote_hw_port v), s))"

text \<open>
  \<open>vif_get_hw_port\<close> computes the slot of \<open>(type, dev, num)\<close> again. It has no check for
  \<open>num = 0\<close>: the slot is then the one before the type's first.
\<close>

definition vif_get_hw_port :: "env \<Rightarrow> nat \<Rightarrow> nat \<Rightarrow> nat \<Rightarrow> 'a vif_st_scheme \<Rightarrow> (status \<times> u8 \<times> u8) \<times> 'a vif_st_scheme" where
  "vif_get_hw_port E type dev num s =
     (if \<not> in_range type (e_vift_fe E) (e_vift_pc E) \<or> \<not> in_range dev 0 15 then ((ST_BAD_VALUE, 0, 0), s)
      else if stack_id s = 0 \<and> dev \<noteq> 0 then ((ST_BAD_VALUE, 0, 0), s)
      else let dev = (if stack_id s \<noteq> 0 \<and> dev = 0 then stack_id s else dev);
               loc = (stack_id s = 0 \<or> dev = stack_id s) in
        if num > n_by_type s dev type then ((ST_DOES_NOT_EXIST, 0, 0), s)
        else let off = int (type_base s dev type) + int num - 1 in
          if \<not> off < int (n_total s dev) then ((ST_OK, 0, 0), crash s)
          else if off < 0 then ((ST_OK, 0, 0), crash s)
          else let v = vif_port s dev off in
            if loc then (case phys_dev (local_ldev v) s of (d, s) \<Rightarrow> ((ST_OK, d, local_lport v), s))
            else ((ST_OK, remote_hw_dev v, remote_hw_port v), s))"

section \<open>Properties\<close>

text \<open>The table is consistent when the slots of a device hold all its typed ports, and the
  devices its local ports sit on have a physical number.\<close>

definition vif_wf :: "env \<Rightarrow> 'a vif_st_scheme \<Rightarrow> bool" where
  "vif_wf E s \<longleftrightarrow>
     (\<forall>dev \<le> 15. type_base s dev (e_vift_pc E) \<le> n_total s dev) \<and>
     (\<forall>dev off. islocal (vif_port s dev off) \<longrightarrow> local_ldev (vif_port s dev off) < 32) \<and>
     stack_id s \<le> 15"

lemma type_base_Suc: "type_base s dev (Suc t) = type_base s dev t + n_by_type s dev t"
  by (simp add: type_base_def)

lemma type_base_mono: "t \<le> t' \<Longrightarrow> type_base s dev t \<le> type_base s dev t'"
  by (rule lift_Suc_mono_le [of "type_base s dev"]) (simp_all add: type_base_Suc)

lemma type_slot_below:
  "t < t' \<Longrightarrow> num \<le> n_by_type s dev t \<Longrightarrow> type_base s dev t + num \<le> type_base s dev t'"
  using type_base_mono [of "Suc t" t' s dev] by (simp add: type_base_Suc)

lemma type_slot_inj:
  assumes "type_base s dev t + n - 1 = type_base s dev t' + n' - 1"
    and "0 < n" "n \<le> n_by_type s dev t" "0 < n'" "n' \<le> n_by_type s dev t'"
  shows "t = t' \<and> n = n'"
proof -
  have False if "t < t'"
    using type_slot_below [OF that assms(3)] assms by linarith
  moreover have False if "t' < t"
    using type_slot_below [OF that assms(5)] assms by linarith
  ultimately have "t = t'" by (cases t t' rule: linorder_cases) auto
  with assms show ?thesis by auto
qed

lemma vif_get_Some:
  assumes "vif_get E t dev n s = (Some r, s')"
  shows "s' = s \<and>
    (case r of VTrunk k \<Rightarrow> k = n \<and> t = e_vift_pc E
     | VPort d off \<Rightarrow> d = (if stack_id s \<noteq> 0 \<and> dev = 0 then stack_id s else dev) \<and> t \<noteq> e_vift_pc E \<and>
         t < e_vift_pc E \<and> 0 < n \<and> n \<le> n_by_type s d t \<and> off = type_base s d t + n - 1 \<and> off < n_total s d)"
  using assms unfolding vif_get_def Let_def
  by (auto split: if_splits simp: in_range_def)

lemma vif_get_total:
  assumes "vif_wf E s"
  shows "snd (vif_get E t dev n s) = s"
proof -
  have "type_base s d t + n - 1 < n_total s d"
    if "t < e_vift_pc E" "0 < n" "n \<le> n_by_type s d t" "d \<le> 15" for d
  proof -
    have "type_base s d t + n \<le> type_base s d (e_vift_pc E)"
      by (rule type_slot_below) (use that in auto)
    also have "\<dots> \<le> n_total s d" using assms that by (simp add: vif_wf_def)
    finally show ?thesis using that by linarith
  qed
  moreover have "stack_id s \<le> 15" using assms by (simp add: vif_wf_def)
  ultimately show ?thesis
    unfolding vif_get_def Let_def by (auto simp: in_range_def)
qed

lemma vif_getn_state [simp]: "vif_wf E s \<Longrightarrow> snd (vif_getn E i s) = s"
  by (simp add: vif_getn_def vif_get_total)

lemma fill_cpss_if_state [simp]: "vif_wf E s \<Longrightarrow> snd (fill_cpss_if r s) = s"
  by (auto simp: fill_cpss_if_def vif_fill_cpss_if_port_def phys_dev_def vif_wf_def split: vif_ref.splits)

lemma vif_getn_frame: "\<exists>c. snd (vif_getn E i s) = s\<lparr>crashed := c\<rparr>"
proof -
  have same: "\<exists>c. snd (x, s) = s\<lparr>crashed := c\<rparr>" for x :: "vif_ref option" by (intro exI [of _ "crashed s"]) simp
  have crash: "\<exists>c. snd (x, crash s) = s\<lparr>crashed := c\<rparr>" for x :: "vif_ref option"
    by (intro exI [of _ True]) (simp add: crash_def)
  have branch: "\<exists>c. snd (if b then x else y) = s\<lparr>crashed := c\<rparr>"
    if "\<exists>c. snd x = s\<lparr>crashed := c\<rparr>" "\<exists>c. snd y = s\<lparr>crashed := c\<rparr>" for b and x y :: "vif_ref option \<times> 'a vif_st_scheme"
    using that by simp
  show ?thesis unfolding vif_getn_def vif_get_def Let_def by (intro branch same crash)
qed

text \<open>Two fast ports, one gigabit port on device 0 of a switch outside a stack.\<close>

definition vif0 :: vif_st where
  "vif0 = sw.extend sw0 (vif_st.fields [] 0 0 (\<lambda>dev t. if dev = 0 then [2, 1, 0] ! t else 0)
     (\<lambda>dev. if dev = 0 then 3 else 0)
     (\<lambda>dev i. \<lparr>islocal = dev = 0, local_ldev = 0, local_lport = word_of_int i, remote_hw_dev = 0, remote_hw_port = 0\<rparr>)
     (\<lambda>n. word_of_nat n))"

lemma vif0_wf: "vif_wf env0 vif0"
proof -
  have "type_base vif0 dev 3 \<le> n_total vif0 dev" for dev
    by (simp add: vif0_def sw0_def type_base_def sw.defs vif_st.defs upt_rec)
  then show ?thesis by (simp add: vif_wf_def env0_def) (simp add: vif0_def sw0_def sw.defs vif_st.defs)
qed

text \<open>In a consistent interface table, the lookup of an interface by type, device and number
  never leaves the table, and interfaces that differ in type or number within a device have
  different slots.\<close>

theorem vif_get_injective:
  assumes wf: "vif_wf E s"
    and a: "vif_get E t dev n s = (Some (VPort d i), s1)" and b: "vif_get E t' dev' n' s = (Some (VPort d i), s2)"
  shows "t = t' \<and> n = n' \<and> s1 = s \<and> s2 = s \<and> i < n_total s d"
  using vif_get_Some [OF a] vif_get_Some [OF b] type_slot_inj [of s d t n t' n'] by auto

theorem vif_get_injective_witness:
  "snd (vif_get env0 1 0 1 vif0) = vif0"
proof -
  have "fst (vif_get env0 1 0 1 vif0) = Some (VPort 0 2)" by code_simp
  then have "vif_get env0 1 0 1 vif0 = (Some (VPort 0 2), snd (vif_get env0 1 0 1 vif0))" by (simp add: prod_eq_iff)
  from vif_get_injective [OF vif0_wf this this] show ?thesis by blast
qed

end
