(* ===== verification/Pools.thy ===== *)
theory Pools
  imports Containers Vif
begin

text \<open>
  The allocators of the routing code: runs of consecutive route entry slots
  (\<open>res_pop\<close>, \<open>res_push\<close> in \<open>src/ret.c\<close>), group ids (\<open>get_new_group_id\<close>,
  \<open>del_id\<close> in \<open>src/ret_group.c\<close>) and LTT rows (\<open>src/lttindex.c\<close>). For each: what is
  handed out was free, is the least that fits, and the search ends; then the allocator is an
  interpretation of the pool contract.
\<close>

record pool_st = vif_st +
  ret_indexes_used :: "int list"
  group_ids :: "int list"

section \<open>Route entry slots\<close>

text \<open>The reserved route entries, \<open>src/route-p.h\<close>.\<close>

definition DEFAULT_UC_RE_IDX :: int where "DEFAULT_UC_RE_IDX = 0"
definition DEFAULT_MC_RE_IDX :: int where "DEFAULT_MC_RE_IDX = 1"
definition TRAP_RE_IDX :: int where "TRAP_RE_IDX = 2"
definition DROP_RE_IDX :: int where "DROP_RE_IDX = 3"
definition MGMT_IP_RE_IDX :: int where "MGMT_IP_RE_IDX = 4"
definition FIRST_REGULAR_RE_IDX :: int where "FIRST_REGULAR_RE_IDX = 5"
definition RE_LIMIT :: int where "RE_LIMIT = 4096"

lemmas re_idx_defs = DEFAULT_UC_RE_IDX_def DEFAULT_MC_RE_IDX_def TRAP_RE_IDX_def DROP_RE_IDX_def
  MGMT_IP_RE_IDX_def FIRST_REGULAR_RE_IDX_def RE_LIMIT_def

text \<open>The scan of \<open>res_pop\<close>: \<open>ids\<close> is the run of free indexes ending before \<open>i\<close>.\<close>

function res_scan :: "int list \<Rightarrow> int \<Rightarrow> int \<Rightarrow> int list \<Rightarrow> int list" where
  "res_scan used count i ids =
     (if i < RE_LIMIT then
        (if dl_search list_int_cmp used i = None then
           let ids' = ids @ [i] in
           if int (length ids') = count then ids' else res_scan used count (i + 1) ids'
         else res_scan used count (i + 1) [])
      else ids)"
  by pat_completeness auto
termination
  by (relation "measure (\<lambda>(used, count, i, ids). nat (RE_LIMIT - i))") auto

declare res_scan.simps [simp del]

definition res_pop :: "int \<Rightarrow> 'a pool_st_scheme \<Rightarrow> (int list \<times> 'a pool_st_scheme) option" where
  "res_pop count s =
     (if \<not> (0 < count \<and> count < 9) then None
      else let ids = res_scan (ret_indexes_used s) count FIRST_REGULAR_RE_IDX [] in
        if count \<noteq> int (length ids) then None
        else Some (ids, s\<lparr>ret_indexes_used := fold (\<lambda>i used. dl_append used i) ids (ret_indexes_used s)\<rparr>))"

definition res_push :: "int \<Rightarrow> int list \<Rightarrow> 'a pool_st_scheme \<Rightarrow> bool \<times> 'a pool_st_scheme" where
  "res_push count ids s =
     (if \<not> (0 < count \<and> count < 9) then (False, s)
      else (True, s\<lparr>ret_indexes_used :=
              fold (\<lambda>i used. dl_delete_found list_int_cmp used i) ids (ret_indexes_used s)\<rparr>))"

definition res_push_count_first :: "int \<Rightarrow> int \<Rightarrow> 'a pool_st_scheme \<Rightarrow> bool \<times> 'a pool_st_scheme" where
  "res_push_count_first count first s =
     (if \<not> (0 < count \<and> count < 9) then (False, s)
      else res_push count (map (\<lambda>i. first + int i) [0 ..< nat count]) s)"

subsection \<open>The scan finds the first free run\<close>

definition free_run :: "int list \<Rightarrow> int \<Rightarrow> int \<Rightarrow> bool" where
  "free_run used count a \<longleftrightarrow>
     FIRST_REGULAR_RE_IDX \<le> a \<and> a + count \<le> RE_LIMIT \<and> (\<forall>j. a \<le> j \<and> j < a + count \<longrightarrow> j \<notin> set used)"

definition scan_inv :: "int list \<Rightarrow> int \<Rightarrow> int \<Rightarrow> int list \<Rightarrow> bool" where
  "scan_inv used count i ids \<longleftrightarrow>
     ids = [i - int (length ids) .. i - 1] \<and> FIRST_REGULAR_RE_IDX \<le> i - int (length ids) \<and>
     int (length ids) < count \<and> set ids \<inter> set used = {} \<and> i \<le> RE_LIMIT \<and>
     (\<forall>a < i - int (length ids). \<not> free_run used count a)"

lemma scan_inv_used:
  assumes "scan_inv used count i ids" and "i \<in> set used" and "i < RE_LIMIT"
  shows "scan_inv used count (i + 1) []"
proof -
  have "\<not> free_run used count a" if "a < i + 1" for a
  proof (cases "a < i - int (length ids)")
    case True
    with assms(1) show ?thesis by (simp add: scan_inv_def)
  next
    case False
    with assms(1) that have "a \<le> i" "i < a + count" by (auto simp: scan_inv_def)
    with assms(2) show ?thesis by (auto simp: free_run_def)
  qed
  with assms show ?thesis by (auto simp: scan_inv_def)
qed

lemma scan_inv_free:
  assumes "scan_inv used count i ids" and "i \<notin> set used" and "i < RE_LIMIT"
  shows "int (Suc (length ids)) \<noteq> count \<Longrightarrow> scan_inv used count (i + 1) (ids @ [i])"
    and "int (Suc (length ids)) = count \<Longrightarrow>
      ids @ [i] = [i - int (length ids) .. i] \<and> free_run used count (i - int (length ids)) \<and>
      (\<forall>a < i - int (length ids). \<not> free_run used count a)"
proof -
  have ids: "ids = [i - int (length ids) .. i - 1]" using assms(1) by (simp add: scan_inv_def)
  have snoc: "ids @ [i] = [i - int (length ids) .. i]"
    by (subst ids, subst upto_rec2 [of _ i]) auto
  have facts: "FIRST_REGULAR_RE_IDX \<le> i - int (length ids)" "int (length ids) < count"
    "\<forall>a < i - int (length ids). \<not> free_run used count a"
    and free: "set (ids @ [i]) \<inter> set used = {}"
    using assms by (auto simp: scan_inv_def)
  show "int (Suc (length ids)) \<noteq> count \<Longrightarrow> scan_inv used count (i + 1) (ids @ [i])"
    using facts free snoc assms(3) unfolding scan_inv_def by simp
  assume c: "int (Suc (length ids)) = count"
  from free have "j \<notin> set used" if "i - int (length ids) \<le> j" "j \<le> i" for j
    using that unfolding snoc by auto
  then have "free_run used count (i - int (length ids))"
    using facts(1) assms(3) c unfolding free_run_def by auto
  with facts(3) snoc show "ids @ [i] = [i - int (length ids) .. i] \<and>
      free_run used count (i - int (length ids)) \<and>
      (\<forall>a < i - int (length ids). \<not> free_run used count a)"
    by simp
qed

lemma scan_inv_end:
  assumes "scan_inv used count i ids" and "\<not> i < RE_LIMIT"
  shows "\<not> free_run used count a"
proof (cases "a < i - int (length ids)")
  case True
  with assms(1) show ?thesis by (simp add: scan_inv_def)
next
  case False
  with assms show ?thesis by (auto simp: scan_inv_def free_run_def)
qed

lemma res_scan_first_fit:
  assumes "scan_inv used count i ids"
  shows "(\<exists>a. res_scan used count i ids = [a .. a + count - 1] \<and>
              int (length (res_scan used count i ids)) = count \<and>
              free_run used count a \<and> (\<forall>b < a. \<not> free_run used count b))
         \<or> (int (length (res_scan used count i ids)) < count \<and> (\<forall>a. \<not> free_run used count a))"
  using assms
proof (induction used count i ids rule: res_scan.induct)
  case (1 used count i ids)
  show ?case
  proof (cases "i < RE_LIMIT")
    case lim: True
    show ?thesis
    proof (cases "i \<in> set used")
      case True
      with lim have "res_scan used count i ids = res_scan used count (i + 1) []"
        by (simp add: res_scan.simps [of used count i] dl_search_int)
      with True lim "1.IH"(2) scan_inv_used [OF "1.prems"] show ?thesis
        by (simp add: dl_search_int)
    next
      case False
      show ?thesis
      proof (cases "int (Suc (length ids)) = count")
        case full: True
        with lim False have "res_scan used count i ids = ids @ [i]"
          by (simp add: res_scan.simps [of used count i] dl_search_int)
        moreover note scan_inv_free(2) [OF "1.prems" False lim full]
        moreover have "i = (i - int (length ids)) + count - 1" using full by linarith
        ultimately show ?thesis using full by (metis length_append_singleton)
      next
        case more: False
        with lim False have "res_scan used count i ids = res_scan used count (i + 1) (ids @ [i])"
          by (simp add: res_scan.simps [of used count i] dl_search_int)
        with False lim more "1.IH"(1) scan_inv_free(1) [OF "1.prems" False lim more] show ?thesis
          by (simp add: dl_search_int)
      qed
    qed
  next
    case False
    then have "res_scan used count i ids = ids" by (simp add: res_scan.simps [of used count i])
    with False "1.prems" scan_inv_end [OF "1.prems" False] show ?thesis
      by (simp add: scan_inv_def)
  qed
qed

lemma fold_dl_append: "fold (\<lambda>i used. dl_append used i) ids used = used @ ids"
  by (induction ids arbitrary: used) (auto simp: dl_append_def)

lemma fold_dl_delete: "fold (\<lambda>i used. dl_delete_found list_int_cmp used i) ids used = fold remove1 ids used"
  by (simp add: dl_delete_found_int)

lemma set_fold_remove1: "distinct xs \<Longrightarrow> set (fold remove1 ids xs) = set xs - set ids"
  by (induction ids arbitrary: xs) auto

lemma distinct_fold_remove1: "distinct xs \<Longrightarrow> distinct (fold remove1 ids xs)"
  by (induction ids arbitrary: xs) auto

lemma res_pop_cases:
  assumes "0 < count" and "count < 9"
  obtains (found) a where "res_pop count s = Some ([a .. a + count - 1],
        s\<lparr>ret_indexes_used := ret_indexes_used s @ [a .. a + count - 1]\<rparr>)"
      "free_run (ret_indexes_used s) count a" "\<forall>b < a. \<not> free_run (ret_indexes_used s) count b"
    | (full) "res_pop count s = None" "\<forall>a. \<not> free_run (ret_indexes_used s) count a"
proof -
  have "scan_inv (ret_indexes_used s) count FIRST_REGULAR_RE_IDX []"
    using assms by (auto simp: scan_inv_def free_run_def re_idx_defs)
  from res_scan_first_fit [OF this] show thesis
  proof (elim disjE exE conjE, goal_cases)
    case (1 a)
    then have "res_pop count s = Some ([a .. a + count - 1],
        s\<lparr>ret_indexes_used := ret_indexes_used s @ [a .. a + count - 1]\<rparr>)"
      using assms by (simp add: res_pop_def fold_dl_append Let_def)
    with 1 show ?case by (intro found)
  next
    case 2
    then have "res_pop count s = None"
      using assms by (simp add: res_pop_def Let_def)
    with 2 show ?case by (intro full)
  qed
qed

lemma res_pop_SomeD:
  assumes "res_pop count s = Some (ids, s')"
  shows "\<exists>a. ids = [a .. a + count - 1] \<and> s' = s\<lparr>ret_indexes_used := ret_indexes_used s @ ids\<rparr> \<and>
             0 < count \<and> count < 9 \<and> free_run (ret_indexes_used s) count a"
proof -
  have c: "0 < count" "count < 9" using assms by (auto simp: res_pop_def split: if_splits)
  show ?thesis
    by (rule res_pop_cases [OF c, of s]) (use assms c in auto)
qed

lemma map_from_upto: "map (\<lambda>i. a + int i) [0 ..< nat count] = [a .. a + count - 1]"
proof (cases "0 \<le> count")
  case True
  then obtain n where n: "count = int n" using zero_le_imp_eq_int by blast
  have "map (\<lambda>i. a + int i) [0 ..< n] = [a .. a + int n - 1]"
    by (induction n) (auto simp: upto_rec2 [of a] algebra_simps)
  with n show ?thesis by simp
qed simp

lemma res_push_count_first_frees:
  "distinct (ret_indexes_used s) \<Longrightarrow> 0 < count \<Longrightarrow> count < 9 \<Longrightarrow>
     set (ret_indexes_used (snd (res_push_count_first count a s))) =
       set (ret_indexes_used s) - {a ..< a + count}"
  by (auto simp: res_push_count_first_def res_push_def fold_dl_delete set_fold_remove1 map_from_upto)

text \<open>The state of the pool: no slot recorded twice, all within the regular range.\<close>

definition res_ok :: "'a pool_st_scheme \<Rightarrow> bool" where
  "res_ok s \<longleftrightarrow> distinct (ret_indexes_used s) \<and>
     (\<forall>i \<in> set (ret_indexes_used s). FIRST_REGULAR_RE_IDX \<le> i \<and> i < RE_LIMIT)"

lemma res_pop_ok: "res_ok s \<Longrightarrow> res_pop count s = Some (ids, s') \<Longrightarrow> res_ok s'"
  by (auto simp: res_ok_def free_run_def dest!: res_pop_SomeD)

lemma res_push_ok: "res_ok s \<Longrightarrow> res_ok (snd (res_push count ids s))"
  by (auto simp: res_ok_def res_push_def fold_dl_delete distinct_fold_remove1 set_fold_remove1)

lemma res_push_count_first_ok: "res_ok s \<Longrightarrow> res_ok (snd (res_push_count_first count a s))"
  by (simp add: res_push_count_first_def res_push_ok)

definition res_pop1 :: "'a pool_st_scheme \<Rightarrow> (int \<times> 'a pool_st_scheme) option" where
  "res_pop1 s = map_option (\<lambda>(ids, s'). (hd ids, s')) (res_pop 1 s)"

definition res_push1 :: "int \<Rightarrow> 'a pool_st_scheme \<Rightarrow> 'a pool_st_scheme" where
  "res_push1 i s = snd (res_push 1 [i] s)"

lemma res_pop1_SomeD:
  assumes "res_pop1 s = Some (i, s')"
  shows "i \<notin> set (ret_indexes_used s) \<and> s' = s\<lparr>ret_indexes_used := ret_indexes_used s @ [i]\<rparr> \<and>
     res_pop 1 s = Some ([i], s')"
proof -
  from assms obtain ids where ids: "res_pop 1 s = Some (ids, s')" "i = hd ids"
    by (auto simp: res_pop1_def)
  from res_pop_SomeD [OF ids(1)] obtain a where a: "ids = [a .. a + 1 - 1]"
    and s': "s' = s\<lparr>ret_indexes_used := ret_indexes_used s @ ids\<rparr>"
    and free: "free_run (ret_indexes_used s) 1 a" by blast
  from a ids(2) have "ids = [i]" "a = i" by simp_all
  with free have "i \<notin> set (ret_indexes_used s)" by (simp add: free_run_def)
  with ids(1) s' show ?thesis unfolding \<open>ids = [i]\<close> by blast
qed

interpretation re_slots: id_pool res_pop1 res_push1 "\<lambda>s. set (ret_indexes_used s)" res_ok
proof (unfold_locales, goal_cases)
  case (1 s i s') then show ?case by (blast dest: res_pop1_SomeD)
next
  case (2 s i s') then have "s' = s\<lparr>ret_indexes_used := ret_indexes_used s @ [i]\<rparr>"
    by (blast dest: res_pop1_SomeD)
  then show ?case by simp
next
  case (3 s i s') then show ?case by (blast dest: res_pop1_SomeD intro: res_pop_ok)
next
  case (4 s i) then show ?case
    by (simp add: res_push1_def res_push_def dl_delete_found_int res_ok_def)
next
  case (5 s i) then show ?case by (simp add: res_push1_def res_push_ok)
qed

section \<open>Group ids\<close>

function fresh_from :: "int list \<Rightarrow> int \<Rightarrow> int" where
  "fresh_from used i = (if dl_search list_int_cmp used i \<noteq> None then fresh_from used (i + 1) else i)"
  by pat_completeness auto
termination
proof (relation "measure (\<lambda>(used, i). card {x \<in> set used. i \<le> x})", goal_cases)
  case 1 show ?case by simp
next
  case (2 used i)
  then have "i \<in> {x \<in> set used. i \<le> x}" by (auto simp: dl_search_int split: if_splits)
  moreover have "{x \<in> set used. i + 1 \<le> x} = {x \<in> set used. i \<le> x} - {i}" by auto
  ultimately show ?case
    using card_Diff1_less [of "{x \<in> set used. i \<le> x}" i] by simp
qed

declare fresh_from.simps [simp del]

definition get_new_group_id :: "'a pool_st_scheme \<Rightarrow> int \<times> 'a pool_st_scheme" where
  "get_new_group_id s =
     (let i = fresh_from (group_ids s) 1 in (i, s\<lparr>group_ids := dl_append (group_ids s) i\<rparr>))"

definition del_id :: "int \<Rightarrow> 'a pool_st_scheme \<Rightarrow> 'a pool_st_scheme" where
  "del_id i s = s\<lparr>group_ids := dl_delete_found list_int_cmp (group_ids s) i\<rparr>"

lemma fresh_from_least:
  "fresh_from used i \<notin> set used \<and> i \<le> fresh_from used i \<and> (\<forall>j. i \<le> j \<and> j < fresh_from used i \<longrightarrow> j \<in> set used)"
proof (induction used i rule: fresh_from.induct)
  case (1 used i)
  show ?case
  proof (cases "i \<in> set used")
    case True
    then have eq: "fresh_from used i = fresh_from used (i + 1)"
      by (simp add: fresh_from.simps [of used i] dl_search_int)
    have IH: "fresh_from used (i + 1) \<notin> set used" "i + 1 \<le> fresh_from used (i + 1)"
      "\<And>j. i + 1 \<le> j \<Longrightarrow> j < fresh_from used (i + 1) \<Longrightarrow> j \<in> set used"
      using 1 True by (auto simp: dl_search_int)
    have "j \<in> set used" if "i \<le> j" "j < fresh_from used (i + 1)" for j
      using True IH(3) [of j] that by (cases "j = i") auto
    with IH(1,2) eq show ?thesis by simp
  next
    case False
    then have "fresh_from used i = i"
      by (simp add: fresh_from.simps [of used i] dl_search_int)
    with False show ?thesis by auto
  qed
qed

lemma get_new_group_id_fresh:
  "get_new_group_id s = (i, s') \<Longrightarrow>
     i \<notin> set (group_ids s) \<and> 1 \<le> i \<and> (\<forall>j. 1 \<le> j \<and> j < i \<longrightarrow> j \<in> set (group_ids s)) \<and>
     s' = s\<lparr>group_ids := group_ids s @ [i]\<rparr>"
  using fresh_from_least [of "group_ids s" 1]
  by (auto simp: get_new_group_id_def Let_def dl_append_def)

lemma set_del_id: "distinct (group_ids s) \<Longrightarrow> set (group_ids (del_id i s)) = set (group_ids s) - {i}"
  by (simp add: del_id_def dl_delete_found_int)

interpretation group_pool: id_pool "\<lambda>s. Some (get_new_group_id s)" del_id
  "\<lambda>s. set (group_ids s)" "\<lambda>s. distinct (group_ids s)"
proof (unfold_locales, goal_cases)
  case (1 s i s') then show ?case by (auto dest: get_new_group_id_fresh)
next
  case (2 s i s') then show ?case by (auto dest!: get_new_group_id_fresh)
next
  case (3 s i s') then show ?case by (auto dest!: get_new_group_id_fresh)
next
  case (4 s i) then show ?case by (simp add: set_del_id)
next
  case (5 s i) then show ?case by (simp add: del_id_def dl_delete_found_int)
qed

definition pool0 :: pool_st where "pool0 = vif_st.extend vif0 (pool_st.fields [] [])"

section \<open>Properties\<close>

text \<open>C27. \<open>res_pop\<close> is first fit: for 1 to 8 slots it returns the lowest run of that many
  consecutive free slots of the regular range and records it, and it fails only when there is no
  such run; for any other count it fails.\<close>

theorem res_pop_first_fit:
  "case res_pop count s of
     None \<Rightarrow> \<not> (0 < count \<and> count < 9) \<or> (\<nexists>a. free_run (ret_indexes_used s) count a)
   | Some (ids, s') \<Rightarrow> 0 < count \<and> count < 9 \<and>
       (\<exists>a. ids = [a .. a + count - 1] \<and> free_run (ret_indexes_used s) count a \<and>
            (\<nexists>b. b < a \<and> free_run (ret_indexes_used s) count b) \<and>
            s' = s\<lparr>ret_indexes_used := ret_indexes_used s @ ids\<rparr>)"
proof (cases "0 < count \<and> count < 9")
  case True
  then have c: "0 < count" "count < 9" by auto
  show ?thesis by (rule res_pop_cases [OF c, of s]) (use c in auto)
next
  case False
  then show ?thesis by (simp add: res_pop_def)
qed

theorem res_pop_first_fit_witness:
  "res_pop 2 (pool0\<lparr>ret_indexes_used := [5, 7]\<rparr>) = Some ([8, 9], pool0\<lparr>ret_indexes_used := [5, 7, 8, 9]\<rparr>)"
proof -
  obtain ids s' where pop: "res_pop 2 (pool0\<lparr>ret_indexes_used := [5, 7]\<rparr>) = Some (ids, s')"
    and ids: "ids = [8, 9]"
  proof -
    have "map_option fst (res_pop 2 (pool0\<lparr>ret_indexes_used := [5, 7]\<rparr>)) = Some [8, 9]" by code_simp
    then show thesis using that by auto
  qed
  then show ?thesis using res_pop_first_fit [of 2 "pool0\<lparr>ret_indexes_used := [5, 7]\<rparr>"] by auto
qed

text \<open>Giving a run back with \<open>res_push_count_first\<close> undoes the \<open>res_pop\<close> that handed it out:
  the list of used slots is what it was.\<close>

theorem res_pop_push_round_trip:
  assumes "distinct (ret_indexes_used s)" and "res_pop count s = Some (ids, s')"
  shows "snd (res_push_count_first count (hd ids) s') = s"
proof -
  from res_pop_SomeD [OF assms(2)] obtain a where a: "ids = [a .. a + count - 1]"
    "s' = s\<lparr>ret_indexes_used := ret_indexes_used s @ ids\<rparr>" "0 < count" "count < 9"
    "free_run (ret_indexes_used s) count a" by blast
  have hd: "hd ids = a" using a by (simp add: upto.simps [of a])
  have fresh: "set ids \<inter> set (ret_indexes_used s) = {}" using a(1,5) by (auto simp: free_run_def)
  have "fold remove1 ys (xs @ ys) = xs" if "set ys \<inter> set xs = {}" for xs ys :: "int list"
    using that by (induction ys) (auto simp: remove1_append)
  then have "fold remove1 ids (ret_indexes_used s @ ids) = ret_indexes_used s" using fresh by blast
  then show ?thesis
    using a hd by (simp add: res_push_count_first_def res_push_def fold_dl_delete map_from_upto)
qed

theorem res_pop_push_round_trip_witness:
  "snd (res_push_count_first 3 5 (pool0\<lparr>ret_indexes_used := [5, 6, 7]\<rparr>)) = pool0"
proof -
  have used: "ret_indexes_used pool0 = []" by (simp add: pool0_def vif0_def sw0_def pool_st.defs vif_st.defs sw.defs)
  have "map_option fst (res_pop 3 pool0) = Some [5, 6, 7]" by code_simp
  then obtain s' where pop: "res_pop 3 pool0 = Some ([5, 6, 7], s')" by auto
  then have "s' = pool0\<lparr>ret_indexes_used := [5, 6, 7]\<rparr>" using res_pop_SomeD used by fastforce
  with res_pop_push_round_trip [OF _ pop] used show ?thesis by simp
qed

text \<open>C30. Group ids are exclusive: whatever sequence of requests and returns a client makes (it
  only returns what it holds), the ids it holds are pairwise different, and the pool records
  exactly them beside the ids that were in use before.\<close>

theorem group_ids_exclusive:
  assumes "distinct (group_ids s)"
    and "pool_run (\<lambda>s. Some (get_new_group_id s)) del_id ops ([], s) = (held, s')"
  shows "distinct held \<and> set (group_ids s') = set (group_ids s) \<union> set held \<and>
         set held \<inter> set (group_ids s) = {}"
proof -
  note R = group_pool.run_exclusive [OF assms(1) _ _ assms(2)]
  have "set (group_ids s) \<subseteq> set (group_ids s') - set held" using R by simp
  with R show ?thesis by auto
qed

theorem group_ids_exclusive_witness:
  "distinct [2, 1 :: int] \<and>
   set (group_ids (snd (pool_run (\<lambda>s. Some (get_new_group_id s)) del_id [Take, Take, Give 1, Take] ([], pool0)))) = {1, 2}"
proof -
  let ?r = "pool_run (\<lambda>s. Some (get_new_group_id s)) del_id [Take, Take, Give 1, Take] ([], pool0)"
  have h: "fst ?r = [1, 2]" by code_simp
  have d: "group_ids pool0 = []" by (simp add: pool0_def vif0_def sw0_def pool_st.defs vif_st.defs sw.defs)
  show ?thesis using group_ids_exclusive [of pool0 "[Take, Take, Give 1, Take]" "[1, 2]" "snd ?r"] h d
    by (auto simp: prod_eq_iff)
qed

text \<open>\<open>get_new_group_id\<close> ends and returns the least positive id that is not in use.\<close>

theorem get_new_group_id_least:
  "1 \<le> fst (get_new_group_id s) \<and> fst (get_new_group_id s) \<notin> set (group_ids s) \<and>
   {1 ..< fst (get_new_group_id s)} \<subseteq> set (group_ids s) \<and>
   snd (get_new_group_id s) = s\<lparr>group_ids := group_ids s @ [fst (get_new_group_id s)]\<rparr>"
  using get_new_group_id_fresh [of s "fst (get_new_group_id s)" "snd (get_new_group_id s)"] by auto

end
