(* ===== verification/Nht.thy ===== *)
theory Nht
  imports Pools
begin

text \<open>
  The table of next-hop MAC addresses (\<open>src/nht.c\<close>): a reference-counted map from addresses
  to slots of the hardware ARP table, with a stack of free slots. Its contract (what a
  holder of a reference may rely on) is the locale \<open>ref_table\<close>; the invariant \<open>nht_ok\<close>
  says that the free stack and the slots in use partition the ARP table.
\<close>

section \<open>State and operations\<close>

definition MAX_NH :: nat where "MAX_NH = 4096"

record nexthop =
  nh_addr :: mac
  nh_idx :: nat
  nh_refc :: nat

record nht_st = pool_st +
  nht :: "nexthop list"
  nhs_sp :: nat
  nhs_data :: "nat \<Rightarrow> nat"

definition nhs_pop :: "'a nht_st_scheme \<Rightarrow> int \<times> 'a nht_st_scheme" where
  "nhs_pop s =
     (if nhs_sp s \<ge> MAX_NH - 1 then (-1, s)
      else (int (nhs_data s (nhs_sp s)), s\<lparr>nhs_sp := nhs_sp s + 1\<rparr>))"

definition nhs_push :: "nat \<Rightarrow> 'a nht_st_scheme \<Rightarrow> 'a nht_st_scheme" where
  "nhs_push nh s =
     (if nhs_sp s = 0 then s
      else s\<lparr>nhs_sp := nhs_sp s - 1, nhs_data := (nhs_data s)(nhs_sp s - 1 := nh)\<rparr>)"

definition nht_add :: "env \<Rightarrow> mac \<Rightarrow> 'a nht_st_scheme \<Rightarrow> int \<times> 'a nht_st_scheme" where
  "nht_add E addr s =
     (case hash_find nh_addr (nht s) addr of
        Some nh \<Rightarrow> (int (nh_idx nh),
                    s\<lparr>nht := hash_mod nh_addr addr (\<lambda>e. e\<lparr>nh_refc := nh_refc e + 1\<rparr>) (nht s)\<rparr>)
      | None \<Rightarrow>
          (case nhs_pop s of (idx, s) \<Rightarrow>
             if idx < 0 then (idx, s)
             else (case for_each_dev E (\<lambda>d. Uc (RouterArpAddrWrite d (nat idx) addr)) s of (rc, s) \<Rightarrow>
                     if rc \<noteq> GT_OK then (-1, nhs_push (nat idx) s)
                     else (idx, s\<lparr>nht := hash_add \<lparr>nh_addr = addr, nh_idx = nat idx, nh_refc = 1\<rparr> (nht s)\<rparr>))))"

definition nht_unref :: "mac \<Rightarrow> 'a nht_st_scheme \<Rightarrow> status \<times> 'a nht_st_scheme" where
  "nht_unref addr s =
     (case hash_find nh_addr (nht s) addr of
        None \<Rightarrow> (ST_DOES_NOT_EXIST, s)
      | Some nh \<Rightarrow>
          let s = s\<lparr>nht := hash_mod nh_addr addr (\<lambda>e. e\<lparr>nh_refc := nh_refc e - 1\<rparr>) (nht s)\<rparr> in
          if nh_refc nh - 1 = 0 then
            let s = nhs_push (nh_idx nh) s in
            (ST_OK, s\<lparr>nht := hash_del nh_addr addr (nht s)\<rparr>)
          else (ST_OK, s))"

definition nht_init :: "'a nht_st_scheme \<Rightarrow> 'a nht_st_scheme" where
  "nht_init s = s\<lparr>nhs_data := (\<lambda>n. n), nhs_sp := 0\<rparr>"

section \<open>Invariant\<close>

definition nht_ok :: "'a nht_st_scheme \<Rightarrow> bool" where
  "nht_ok s \<longleftrightarrow>
     keys_distinct nh_addr (nht s) \<and> distinct (map nh_idx (nht s)) \<and>
     (\<forall>e \<in> set (nht s). 0 < nh_refc e \<and> nh_idx e < MAX_NH \<and> nh_idx e \<notin> nhs_data s ` {nhs_sp s ..< MAX_NH}) \<and>
     inj_on (nhs_data s) {nhs_sp s ..< MAX_NH} \<and> nhs_data s ` {nhs_sp s ..< MAX_NH} \<subseteq> {..< MAX_NH} \<and>
     nhs_sp s < MAX_NH \<and> length (nht s) = nhs_sp s"

definition nht_refs :: "'a nht_st_scheme \<Rightarrow> mac \<Rightarrow> nat" where
  "nht_refs s a = (case hash_find nh_addr (nht s) a of None \<Rightarrow> 0 | Some e \<Rightarrow> nh_refc e)"

definition nht_slot :: "'a nht_st_scheme \<Rightarrow> mac \<Rightarrow> int" where
  "nht_slot s a = (case hash_find nh_addr (nht s) a of None \<Rightarrow> -1 | Some e \<Rightarrow> int (nh_idx e))"

section \<open>The contract\<close>

text \<open>One step of a client: take a reference on a key, or drop one.\<close>

datatype 'k ref_op = Acquire 'k | Release 'k

fun ref_run :: "('k \<Rightarrow> 's \<Rightarrow> int \<times> 's) \<Rightarrow> ('k \<Rightarrow> 's \<Rightarrow> 's) \<Rightarrow> 'k ref_op list \<Rightarrow> 's \<Rightarrow> 's" where
  "ref_run acq rel [] s = s"
| "ref_run acq rel (Acquire k # ops) s = ref_run acq rel ops (snd (acq k s))"
| "ref_run acq rel (Release k # ops) s = ref_run acq rel ops (rel k s)"

locale ref_table =
  fixes acquire :: "'k \<Rightarrow> 's \<Rightarrow> int \<times> 's"
    and release :: "'k \<Rightarrow> 's \<Rightarrow> 's"
    and refs :: "'s \<Rightarrow> 'k \<Rightarrow> nat"
    and slot :: "'s \<Rightarrow> 'k \<Rightarrow> int"
    and ok :: "'s \<Rightarrow> bool"
  assumes acquire_ok: "ok s \<Longrightarrow> ok (snd (acquire k s))"
    and acquire_refs: "ok s \<Longrightarrow> refs (snd (acquire k s)) k' =
          (if k' = k \<and> 0 \<le> fst (acquire k s) then refs s k' + 1 else refs s k')"
    and acquire_slot: "ok s \<Longrightarrow> 0 \<le> fst (acquire k s) \<Longrightarrow> slot (snd (acquire k s)) k = fst (acquire k s)"
    and acquire_keeps: "ok s \<Longrightarrow> 0 < refs s k' \<Longrightarrow> slot (snd (acquire k s)) k' = slot s k'"
    and release_ok: "ok s \<Longrightarrow> ok (release k s)"
    and release_refs: "ok s \<Longrightarrow> refs (release k s) k' = (if k' = k then refs s k' - 1 else refs s k')"
    and release_keeps: "ok s \<Longrightarrow> 0 < refs (release k s) k' \<Longrightarrow> slot (release k s) k' = slot s k'"
    and slot_inj: "ok s \<Longrightarrow> 0 < refs s k \<Longrightarrow> 0 < refs s k' \<Longrightarrow> slot s k = slot s k' \<Longrightarrow> k = k'"
begin

lemma run_ok: "ok s \<Longrightarrow> ok (ref_run acquire release ops s)"
proof (induction ops arbitrary: s)
  case Nil
  then show ?case by simp
next
  case (Cons op ops)
  then show ?case by (cases op) (auto simp: acquire_ok release_ok)
qed

lemma acquire_release_refs:
  "ok s \<Longrightarrow> 0 \<le> fst (acquire k s) \<Longrightarrow> refs (release k (snd (acquire k s))) = refs s"
  by (auto simp: fun_eq_iff release_refs acquire_refs acquire_ok)

lemma run_slots_distinct:
  "ok s \<Longrightarrow> t = ref_run acquire release ops s \<Longrightarrow> 0 < refs t k \<Longrightarrow> 0 < refs t k' \<Longrightarrow> k \<noteq> k' \<Longrightarrow>
     slot t k \<noteq> slot t k'"
  using run_ok slot_inj by blast

text \<open>While the other clients' operations are balanced or only add, a held slot does not move:
  as long as a key keeps a reference at every moment of a run, its slot is the same at the end.\<close>

lemma run_keeps_slot:
  "ok s \<Longrightarrow> (\<And>ops1 ops2. ops = ops1 @ ops2 \<Longrightarrow> 0 < refs (ref_run acquire release ops1 s) k) \<Longrightarrow>
     slot (ref_run acquire release ops s) k = slot s k"
proof (induction ops arbitrary: s)
  case Nil
  then show ?case by simp
next
  case (Cons op ops)
  have now: "0 < refs s k" using Cons.prems(2) [of "[]"] by simp
  obtain s1 where s1: "ref_run acquire release [op] s = s1" by blast
  have step: "ref_run acquire release (op # ops') s = ref_run acquire release ops' s1" for ops'
    using s1 by (cases op) auto
  have pos: "0 < refs (ref_run acquire release ops1 s1) k" if "ops = ops1 @ ops2" for ops1 ops2
    using Cons.prems(2) [of "op # ops1" ops2] that step by simp
  have "ok s1" and "slot s1 k = slot s k"
    using s1 Cons.prems(1) now pos [of "[]" ops]
    by (cases op; auto simp: acquire_ok release_ok acquire_keeps release_keeps)+
  with Cons.IH [OF _ pos] step show ?case by simp
qed

end

section \<open>The table meets its contract\<close>

lemma nht_st_hw_simps [simp]:
  "nht (s\<lparr>hw := h\<rparr>) = nht s" "nhs_sp (s\<lparr>hw := h\<rparr>) = nhs_sp s" "nhs_data (s\<lparr>hw := h\<rparr>) = nhs_data s"
  by simp_all

lemma nht_ok_refc: "nht_ok s \<Longrightarrow> hash_find nh_addr (nht s) a = Some e \<Longrightarrow> 0 < nh_refc e"
  by (auto simp: nht_ok_def dest: hash_find_in)

lemma nht_ok_hw [simp]: "nht_ok (s\<lparr>hw := h\<rparr>) = nht_ok s"
  by (simp add: nht_ok_def)

lemma nhs_push_pop:
  "nhs_pop s = (i, s') \<Longrightarrow> 0 \<le> i \<Longrightarrow> nhs_push (nat i) (s'\<lparr>hw := h\<rparr>) = s\<lparr>hw := h\<rparr>"
  by (rule nht_st.equality) (auto simp: nhs_pop_def nhs_push_def split: if_splits)

text \<open>The three outcomes of \<open>nht_add\<close>.\<close>

lemma nht_add_cases:
  obtains (hit) e where "hash_find nh_addr (nht s) a = Some e"
      "nht_add E a s = (int (nh_idx e),
         s\<lparr>nht := hash_mod nh_addr a (\<lambda>e. e\<lparr>nh_refc := nh_refc e + 1\<rparr>) (nht s)\<rparr>)"
    | (fail) i h where "hash_find nh_addr (nht s) a = None" "i < 0" "nht_add E a s = (i, s\<lparr>hw := h\<rparr>)"
    | (new) h where "hash_find nh_addr (nht s) a = None" "nhs_sp s < MAX_NH - 1"
      "nht_add E a s = (int (nhs_data s (nhs_sp s)),
         s\<lparr>hw := h, nhs_sp := nhs_sp s + 1,
           nht := hash_add \<lparr>nh_addr = a, nh_idx = nhs_data s (nhs_sp s), nh_refc = 1\<rparr> (nht s)\<rparr>)"
proof (cases "hash_find nh_addr (nht s) a")
  case (Some e)
  with hit show thesis by (simp add: nht_add_def)
next
  case None
  show thesis
  proof (cases "nhs_sp s \<ge> MAX_NH - 1")
    case True
    with None have "nht_add E a s = (-1, s\<lparr>hw := hw s\<rparr>)" by (simp add: nht_add_def nhs_pop_def)
    with None show thesis by (intro fail [of "-1" "hw s"]) auto
  next
    case False
    let ?i = "nhs_data s (nhs_sp s)" and ?s1 = "s\<lparr>nhs_sp := nhs_sp s + 1\<rparr>"
    let ?call = "\<lambda>d. Uc (RouterArpAddrWrite d ?i a)"
    obtain rc where dev: "for_each_dev E ?call ?s1 = (rc, ?s1\<lparr>hw := dev_writes E ?call @ hw s\<rparr>)"
      using for_each_dev_eq [of E ?call ?s1] by simp
    have pop: "nhs_pop s = (int ?i, ?s1)" using False by (simp add: nhs_pop_def)
    show thesis
    proof (cases "rc = GT_OK")
      case True
      with None pop dev False show thesis 
        by (intro new [of "dev_writes E ?call @ hw s"]) (auto simp: nht_add_def)
    next
      case bad: False
      from None pop dev bad have "nht_add E a s = (-1, s\<lparr>hw := dev_writes E ?call @ hw s\<rparr>)"
        using nhs_push_pop [OF pop] by (simp add: nht_add_def)
      with None show thesis by (intro fail [of "-1"]) auto
    qed
  qed
qed

lemma nht_ok_new:
  assumes ok: "nht_ok s" and n: "hash_find nh_addr (nht s) a = None" and sp: "nhs_sp s < MAX_NH - 1"
  shows "nht_ok (s\<lparr>hw := h, nhs_sp := nhs_sp s + 1,
           nht := hash_add \<lparr>nh_addr = a, nh_idx = nhs_data s (nhs_sp s), nh_refc = 1\<rparr> (nht s)\<rparr>)"
proof -
  let ?F = "{nhs_sp s ..< MAX_NH}" and ?G = "{Suc (nhs_sp s) ..< MAX_NH}"
  have sub: "?G \<subseteq> ?F" and top: "nhs_sp s \<in> ?F" "nhs_sp s \<notin> ?G" using sp by auto
  have inj: "inj_on (nhs_data s) ?F" using ok by (simp add: nht_ok_def)
  have new: "nhs_data s (nhs_sp s) \<notin> nhs_data s ` ?G"
    using inj_on_image_mem_iff [OF inj top(1) sub] top(2) by simp
  have old: "nhs_data s (nhs_sp s) \<notin> nh_idx ` set (nht s)"
    using ok imageI [OF top(1), of "nhs_data s"] by (fastforce simp: nht_ok_def)
  show ?thesis
    unfolding nht_ok_def
  proof (intro conjI ballI, goal_cases)
    case (3 e) with ok show ?case by (auto simp: nht_ok_def)
  next
    case (4 e)
    have "nhs_data s (nhs_sp s) < MAX_NH"
      using ok imageI [OF top(1), of "nhs_data s"] unfolding nht_ok_def by blast
    with 4 ok show ?case by (auto simp: nht_ok_def)
  next
    case (5 e)
    then consider "nh_idx e = nhs_data s (nhs_sp s)" | "e \<in> set (nht s)" by auto
    then show ?case
    proof cases
      case 1 with new show ?thesis by simp
    next
      case 2 with ok have "nh_idx e \<notin> nhs_data s ` ?F" by (simp add: nht_ok_def)
      with image_mono [OF sub, of "nhs_data s"] show ?thesis by auto
    qed
  next
    case 7
    have "nhs_data s ` ?F \<subseteq> {..< MAX_NH}" using ok by (simp add: nht_ok_def)
    with image_mono [OF sub, of "nhs_data s"] show ?case by (auto dest: subset_trans)
  qed (use ok n sp old inj_on_subset [OF inj sub] in \<open>auto simp: nht_ok_def hash_find_None hash_add_def\<close>)
qed

text \<open>The two outcomes of \<open>nht_unref\<close> on a recorded address.\<close>

lemma nht_unref_cases:
  obtains (none) "hash_find nh_addr (nht s) a = None" "nht_unref a s = (ST_DOES_NOT_EXIST, s)"
    | (dec) e where "hash_find nh_addr (nht s) a = Some e" "nh_refc e - 1 \<noteq> 0"
      "nht_unref a s = (ST_OK, s\<lparr>nht := hash_mod nh_addr a (\<lambda>e. e\<lparr>nh_refc := nh_refc e - 1\<rparr>) (nht s)\<rparr>)"
    | (gone) e where "hash_find nh_addr (nht s) a = Some e" "nh_refc e - 1 = 0"
      "nht_unref a s = (ST_OK, (nhs_push (nh_idx e) s)
         \<lparr>nht := hash_del nh_addr a (hash_mod nh_addr a (\<lambda>e. e\<lparr>nh_refc := nh_refc e - 1\<rparr>) (nht s))\<rparr>)"
  by (cases "hash_find nh_addr (nht s) a")
    (auto simp: nht_unref_def Let_def nhs_push_def split: if_splits)

lemma nht_ok_gone:
  assumes ok: "nht_ok s" and e: "hash_find nh_addr (nht s) a = Some e"
    and f: "\<And>x. nh_addr (f x) = nh_addr x" "\<And>x. nh_idx (f x) = nh_idx x"
  shows "nht_ok ((nhs_push (nh_idx e) s)\<lparr>nht := hash_del nh_addr a (hash_mod nh_addr a f (nht s))\<rparr>)"
proof -
  let ?t = "hash_del nh_addr a (hash_mod nh_addr a f (nht s))"
  have kd: "keys_distinct nh_addr (nht s)" and id: "distinct (map nh_idx (nht s))"
    and ein: "e \<in> set (nht s)" "nh_addr e = a" using ok e by (auto simp: nht_ok_def dest: hash_find_in)
  have t: "?t = hash_del nh_addr a (nht s)"
    unfolding hash_del_def hash_mod_def by (rule del1_upd1) (simp add: f)
  have t1: "keys_distinct nh_addr ?t" "distinct (map nh_idx ?t)"
    unfolding t unfolding hash_del_def using kd id by (auto intro: distinct_map_del1)
  have idx: "nh_idx ` set ?t = nh_idx ` set (nht s) - {nh_idx e}"
    unfolding t unfolding hash_del_def using distinct_map_del1_other [OF kd id ein] .
  have "Suc (length ?t) = length (nht s)"
    unfolding t unfolding hash_del_def by (rule Suc_length_del1) (use ein in auto)
  then have len: "length ?t = nhs_sp s - 1" using ok by (simp add: nht_ok_def)
  have sub: "set ?t \<subseteq> set (nht s)" unfolding t unfolding hash_del_def by (rule set_del1_subset)
  obtain p where p: "nhs_sp s = Suc p"
    using ok ein by (cases "nhs_sp s") (auto simp: nht_ok_def)
  let ?d = "(nhs_data s)(p := nh_idx e)"
  have F: "{p ..< MAX_NH} = insert p {Suc p ..< MAX_NH}" using ok p by (auto simp: nht_ok_def)
  have img: "?d ` {p ..< MAX_NH} = insert (nh_idx e) (nhs_data s ` {Suc p ..< MAX_NH})"
    unfolding F by (auto simp: image_iff)
  have inj: "inj_on ?d {p ..< MAX_NH}"
  proof -
    have "inj_on (nhs_data s) {Suc p ..< MAX_NH}" "nh_idx e \<notin> nhs_data s ` {Suc p ..< MAX_NH}"
      using ok ein p by (auto simp: nht_ok_def)
    moreover have "?d ` {Suc p ..< MAX_NH} = nhs_data s ` {Suc p ..< MAX_NH}" by auto
    ultimately show ?thesis unfolding F by (simp add: inj_on_fun_updI)
  qed
  have push: "nhs_push (nh_idx e) s = s\<lparr>nhs_sp := p, nhs_data := ?d\<rparr>"
    by (simp add: nhs_push_def p)
  show ?thesis
    unfolding nht_ok_def push
  proof (intro conjI ballI, goal_cases)
    case (5 x)
    then have x: "x \<in> set (nht s)" "nh_idx x \<noteq> nh_idx e" using sub idx by auto
    with ok p have "nh_idx x \<notin> ?d ` {p ..< MAX_NH}" unfolding img by (auto simp: nht_ok_def)
    then show ?case by (simp del: fun_upd_image)
  next
    case 7
    have "?d ` {p ..< MAX_NH} \<subseteq> {..< MAX_NH}"
      using ok ein p unfolding img by (auto simp: nht_ok_def)
    then show ?case by (simp del: fun_upd_image)
  qed (use t1 sub ok p len inj in \<open>auto simp: nht_ok_def\<close>)
qed

lemma nht_ok_count:
  assumes "nht_ok s" and "hash_find nh_addr (nht s) a = Some e"
    and "\<And>x. nh_addr (f x) = nh_addr x" and "\<And>x. nh_idx (f x) = nh_idx x" and "0 < nh_refc (f e)"
  shows "nht_ok (s\<lparr>nht := hash_mod nh_addr a f (nht s)\<rparr>)"
proof -
  have "length (hash_mod nh_addr a f (nht s)) = length (nht s)" by (simp add: hash_mod_def)
  moreover have "x = e" if "x \<in> set (nht s)" "nh_addr x = a" for x
    using that assms(1,2) hash_find_iff [of nh_addr "nht s" a x] by (simp add: nht_ok_def)
  ultimately show ?thesis using assms by (auto simp: nht_ok_def set_hash_mod)
qed

lemma nht_add_ok:
  assumes "nht_ok s" shows "nht_ok (snd (nht_add E a s))"
proof (cases rule: nht_add_cases [of s a E])
  case (hit e)
  with assms show ?thesis by (auto intro: nht_ok_count)
next
  case (fail i h)
  with assms show ?thesis by simp
next
  case (new h)
  with nht_ok_new [OF assms new(1,2)] show ?thesis by simp
qed

lemma nht_unref_ok: "nht_ok s \<Longrightarrow> nht_ok (snd (nht_unref a s))"
  by (rule nht_unref_cases [of s a]) (auto intro: nht_ok_count nht_ok_gone)

lemmas nht_lookup = nht_refs_def nht_slot_def table_simps

interpretation nht: ref_table "nht_add E" "\<lambda>a s. snd (nht_unref a s)" nht_refs nht_slot nht_ok
  for E :: env
proof (unfold_locales, goal_cases)
  case 1 then show ?case by (rule nht_add_ok)
next
  case (2 s k k')
  then have kd: "keys_distinct nh_addr (nht s)" by (simp add: nht_ok_def)
  show ?case
    by (rule nht_add_cases [of s k E]) (auto simp: nht_lookup kd split: option.splits)
next
  case (3 s k)
  then have kd: "keys_distinct nh_addr (nht s)" by (simp add: nht_ok_def)
  show ?case
    by (rule nht_add_cases [of s k E]) (use 3 in \<open>auto simp: nht_lookup kd\<close>)
next
  case (4 s k' k)
  then have kd: "keys_distinct nh_addr (nht s)" by (simp add: nht_ok_def)
  show ?case
    by (rule nht_add_cases [of s k E]) (use 4 in \<open>auto simp: nht_lookup kd split: option.splits\<close>)
next
  case 5 then show ?case by (rule nht_unref_ok)
next
  case (6 s k k')
  then have kd: "keys_distinct nh_addr (nht s)" by (simp add: nht_ok_def)
  show ?case
    by (rule nht_unref_cases [of s k]) (auto simp: nht_lookup kd split: option.splits)
next
  case (7 s k k')
  then have kd: "keys_distinct nh_addr (nht s)" by (simp add: nht_ok_def)
  show ?case
    by (rule nht_unref_cases [of s k]) (use 7 in \<open>auto simp: nht_lookup kd split: option.splits\<close>)
next
  case (8 s k k')
  then show ?case
    by (auto simp: nht_refs_def nht_slot_def nht_ok_def distinct_map inj_on_def
        split: option.splits dest!: hash_find_in)
qed

definition nht0 :: nht_st where "nht0 = nht_init (pool_st.extend pool0 (nht_st.fields [] 0 (\<lambda>_. 0)))"

lemma nht0_ok: "nht_ok nht0"
  by (auto simp: nht_ok_def nht0_def nht_init_def nht_st.defs pool_st.defs MAX_NH_def)

section \<open>Properties\<close>

text \<open>Over any run of additions and releases from an empty table, two addresses that are
  still referenced have different slots of the hardware ARP table, and every slot in use is within
  the table.\<close>

theorem nht_slots_exclusive:
  assumes "nht_ok s" and "t = ref_run (nht_add E) (\<lambda>a s. snd (nht_unref a s)) ops s"
    and "0 < nht_refs t a" and "0 < nht_refs t b" and "a \<noteq> b"
  shows "nht_slot t a \<noteq> nht_slot t b \<and> 0 \<le> nht_slot t a \<and> nht_slot t a < int MAX_NH"
proof -
  have ok: "nht_ok t" unfolding assms(2) by (rule nht.run_ok [OF assms(1)])
  from assms(3) obtain e where "hash_find nh_addr (nht t) a = Some e" by (auto simp: nht_refs_def split: option.splits)
  with ok have "0 \<le> nht_slot t a" "nht_slot t a < int MAX_NH"
    by (auto simp: nht_slot_def nht_ok_def dest!: hash_find_in)
  with nht.run_slots_distinct [OF assms(1,2) assms(3,4,5)] show ?thesis by simp
qed

theorem nht_slots_exclusive_witness:
  "nht_slot (ref_run (nht_add env0) (\<lambda>a s. snd (nht_unref a s)) [Acquire [1], Acquire [2], Acquire [1], Release [1]] nht0) [1] \<noteq>
   nht_slot (ref_run (nht_add env0) (\<lambda>a s. snd (nht_unref a s)) [Acquire [1], Acquire [2], Acquire [1], Release [1]] nht0) [2]"
proof -
  let ?t = "ref_run (nht_add env0) (\<lambda>a s. snd (nht_unref a s)) [Acquire [1], Acquire [2], Acquire [1], Release [1]] nht0"
  have "0 < nht_refs ?t [1]" "0 < nht_refs ?t [2]" "[1] \<noteq> ([2] :: mac)" by code_simp+
  from nht_slots_exclusive [OF nht0_ok refl this] show ?thesis by blast
qed

text \<open>A slot does not move while its address is referenced, whatever the other clients of
  the table do in between.\<close>

theorem nht_slot_stable:
  assumes "nht_ok s"
    and "\<And>ops1 ops2. ops = ops1 @ ops2 \<Longrightarrow> 0 < nht_refs (ref_run (nht_add E) (\<lambda>a s. snd (nht_unref a s)) ops1 s) a"
  shows "nht_slot (ref_run (nht_add E) (\<lambda>a s. snd (nht_unref a s)) ops s) a = nht_slot s a"
  by (rule nht.run_keeps_slot [OF assms])

theorem nht_slot_stable_witness:
  "nht_slot (ref_run (nht_add env0) (\<lambda>a s. snd (nht_unref a s)) [Acquire [2], Release [2]] (snd (nht_add env0 [1] nht0))) [1] =
   nht_slot (snd (nht_add env0 [1] nht0)) [1]"
proof (rule nht_slot_stable)
  show "nht_ok (snd (nht_add env0 [1] nht0))" by (rule nht_add_ok [OF nht0_ok])
  fix ops1 ops2 :: "mac ref_op list"
  assume "[Acquire [2], Release [2]] = ops1 @ ops2"
  then consider "ops1 = []" | "ops1 = [Acquire [2]]" | "ops1 = [Acquire [2], Release [2]]"
    by (cases ops1; cases "tl ops1"; auto simp: Cons_eq_append_conv)
  moreover have "0 < nht_refs (ref_run (nht_add env0) (\<lambda>a s. snd (nht_unref a s)) [] (snd (nht_add env0 [1] nht0))) [1]"
    "0 < nht_refs (ref_run (nht_add env0) (\<lambda>a s. snd (nht_unref a s)) [Acquire [2]] (snd (nht_add env0 [1] nht0))) [1]"
    "0 < nht_refs (ref_run (nht_add env0) (\<lambda>a s. snd (nht_unref a s)) [Acquire [2], Release [2]] (snd (nht_add env0 [1] nht0))) [1]"
    by code_simp+
  ultimately show "0 < nht_refs (ref_run (nht_add env0) (\<lambda>a s. snd (nht_unref a s)) ops1 (snd (nht_add env0 [1] nht0))) [1]"
    by cases (simp_all only:)
qed

text \<open>As long as the hardware accepts the writes, a new address is refused only when 4095
  addresses are in the table, although the hardware table has 4096 slots; a refusal leaves the
  table alone.\<close>

theorem nht_add_capacity:
  assumes "nht_ok s" and "hash_find nh_addr (nht s) a = None" and "\<And>h e. e_gt E h e = GT_OK"
  shows "(fst (nht_add E a s) < 0 \<longleftrightarrow> length (nht s) = MAX_NH - 1) \<and>
         (fst (nht_add E a s) < 0 \<longrightarrow> snd (nht_add E a s) = s)"
proof -
  have ok: "fst (for_each_dev E f s) = GT_OK" for f and s :: "'a nht_st_scheme"
    by (rule for_each_dev_ok) (rule assms(3))
  have len: "nhs_sp s = length (nht s)" "nhs_sp s < MAX_NH" using assms(1) by (auto simp: nht_ok_def)
  show ?thesis
  proof (cases "MAX_NH - 1 \<le> nhs_sp s")
    case True
    with assms(2) len show ?thesis by (auto simp: nht_add_def nhs_pop_def MAX_NH_def)
  next
    case False
    with assms(2) len ok show ?thesis
      by (simp add: nht_add_def nhs_pop_def split: prod.splits) (metis fst_conv)
  qed
qed

theorem nht_add_capacity_witness:
  "0 \<le> fst (nht_add env0 [7] nht0)"
proof -
  have "hash_find nh_addr (nht nht0) [7] = None" "length (nht nht0) \<noteq> MAX_NH - 1" by code_simp+
  with nht_add_capacity [OF nht0_ok, of "[7]" env0] show ?thesis by (simp add: env0_def)
qed

end
