(* ===== verification/Ret.thy ===== *)
theory Ret
  imports Nht
begin

text \<open>
  The table of next hops of unicast routing (\<open>src/ret.c\<close>) and its ARP client
  (\<open>src/arpc.c\<close>): one \<open>re\<close> per gateway, with the list of the ECMP groups that use it,
  created by the first group and deleted with the last. Modelled are the table's
  operations, the writing of a route entry, and the requests sent to the ARP daemon; setting
  and unsetting a gateway's MAC address goes through the groups and is in \<open>Ret_Mac\<close>.
\<close>

section \<open>State\<close>

record gw =
  gw_addr :: u32
  gw_vid :: vid

definition route_fill_gw :: "u32 \<Rightarrow> vid \<Rightarrow> gw" where
  "route_fill_gw addr vid = \<lparr>gw_addr = addr, gw_vid = vid\<rparr>"

record re =
  re_gw :: gw
  re_valid :: bool
  re_def :: bool
  re_ridx :: nat
  re_addr :: mac
  re_nh_idx :: nat
  re_vif_id :: vif_id
  re_group_ids :: "int list"
  re_refc :: int

record gw_v6 =
  gw6_addr :: ipv6
  gw6_vid :: vid

record re_ipv6 =
  re6_gw :: gw_v6
  re6_valid :: bool
  re6_def :: bool
  re6_idx :: nat
  re6_addr :: mac
  re6_nh_idx :: nat
  re6_vif_id :: vif_id
  re6_refc :: int

record ret_st = nht_st +
  arpc_sock_ready :: bool
  ret :: "re list"
  ret_ipv6 :: "re_ipv6 list"
  re_cnt :: int

section \<open>Requests to the ARP daemon\<close>

definition arpc_ip_addr_op :: "gw \<Rightarrow> arpd_cmd \<Rightarrow> 'a ret_st_scheme \<Rightarrow> 'a ret_st_scheme" where
  "arpc_ip_addr_op g cmd s =
     (if \<not> arpc_sock_ready s then s
      else if stack_id s \<noteq> master_id s then emit (Msg (MacOpOpna cmd (gw_vid g) (gw_addr g))) s
      else emit (Msg (ArpdSend cmd (gw_vid g) (gw_addr g))) s)"

definition arpc_request_addr :: "gw \<Rightarrow> 'a ret_st_scheme \<Rightarrow> 'a ret_st_scheme" where
  "arpc_request_addr g s = arpc_ip_addr_op g ARPD_CC_IP_ADDR_ADD s"

definition arpc_release_addr :: "gw \<Rightarrow> 'a ret_st_scheme \<Rightarrow> 'a ret_st_scheme" where
  "arpc_release_addr g s = arpc_ip_addr_op g ARPD_CC_IP_ADDR_DEL s"

definition ret_arpc_request_addr :: "gw \<Rightarrow> 'a ret_st_scheme \<Rightarrow> 'a ret_st_scheme" where
  "ret_arpc_request_addr g s = arpc_request_addr g s"

definition ndpc_ip_addr_op :: "gw_v6 \<Rightarrow> arpd_cmd \<Rightarrow> 'a ret_st_scheme \<Rightarrow> 'a ret_st_scheme" where
  "ndpc_ip_addr_op g cmd s =
     (if \<not> arpc_sock_ready s then s
      else if stack_id s \<noteq> master_id s then emit (Msg (MacOpOpnaV6 cmd (gw6_vid g) (gw6_addr g))) s
      else emit (Msg (NdpdSend cmd (gw6_vid g) (gw6_addr g))) s)"

definition ndpc_request_addr :: "gw_v6 \<Rightarrow> 'a ret_st_scheme \<Rightarrow> 'a ret_st_scheme" where
  "ndpc_request_addr g s = ndpc_ip_addr_op g NDPD_CC_IP_ADDR_ADD s"

definition ndpc_release_addr :: "gw_v6 \<Rightarrow> 'a ret_st_scheme \<Rightarrow> 'a ret_st_scheme" where
  "ndpc_release_addr g s = ndpc_ip_addr_op g NDPD_CC_IP_ADDR_DEL s"

section \<open>The table\<close>

definition ret_add_group_to_list :: "int list \<Rightarrow> int \<Rightarrow> int list" where
  "ret_add_group_to_list head group_id =
     (if dl_search list_int_cmp head group_id = None then dl_append head group_id else head)"

definition ret_remove_group_from_list :: "int list \<Rightarrow> int \<Rightarrow> int list" where
  "ret_remove_group_from_list head group_id = dl_delete_found list_int_cmp head group_id"

text \<open>\<open>calloc\<close>, then the assignments of \<open>ret_add\<close>.\<close>

definition new_re :: "gw \<Rightarrow> int \<Rightarrow> re" where
  "new_re g group_id =
     \<lparr>re_gw = g, re_valid = False, re_def = False, re_ridx = 0, re_addr = replicate 6 0, re_nh_idx = 0,
      re_vif_id = \<lparr>vif_type = 0, vif_dev = 0, vif_num = 0\<rparr>,
      re_group_ids = ret_add_group_to_list [] group_id, re_refc = 1\<rparr>"

definition re_join :: "int \<Rightarrow> re \<Rightarrow> re" where
  "re_join group_id re = re\<lparr>re_group_ids := ret_add_group_to_list (re_group_ids re) group_id\<rparr>"

definition re_leave :: "int \<Rightarrow> re \<Rightarrow> re" where
  "re_leave group_id re = re\<lparr>re_group_ids := ret_remove_group_from_list (re_group_ids re) group_id\<rparr>"

definition ret_add :: "gw \<Rightarrow> int \<Rightarrow> 'a ret_st_scheme \<Rightarrow> re \<times> 'a ret_st_scheme" where
  "ret_add g group_id s =
     (case hash_find re_gw (ret s) g of
        Some re \<Rightarrow> (re_join group_id re, s\<lparr>ret := hash_mod re_gw g (re_join group_id) (ret s)\<rparr>)
      | None \<Rightarrow>
          let re = new_re g group_id in
          (re, s\<lparr>ret := hash_add re (ret s), re_cnt := re_cnt s + 1\<rparr>))"

definition ret_unref :: "gw \<Rightarrow> int \<Rightarrow> 'a ret_st_scheme \<Rightarrow> status \<times> 'a ret_st_scheme" where
  "ret_unref g group_id s =
     (case hash_find re_gw (ret s) g of
        None \<Rightarrow> (ST_DOES_NOT_EXIST, s)
      | Some re \<Rightarrow>
          let re = re_leave group_id re;
              s = s\<lparr>ret := hash_mod re_gw g (re_leave group_id) (ret s)\<rparr> in
          if re_group_ids re = [] then
            let s = s\<lparr>ret := hash_del re_gw g (ret s)\<rparr>;
                s = (if re_valid re then snd (nht_unref (re_addr re) s) else s);
                s = arpc_release_addr g s in
            (ST_OK, s\<lparr>re_cnt := re_cnt s - 1\<rparr>)
          else (ST_OK, s))"

text \<open>The route entry of a resolved gateway.\<close>

definition re_route_entry :: "iface \<Rightarrow> nat \<Rightarrow> vid \<Rightarrow> uc_route_entry" where
  "re_route_entry nextHopInterface arp_ptr vid =
     uc_zero\<lparr>uc_cmd := CMD_ROUTE, uc_nextHopInterface := nextHopInterface,
       uc_nextHopARPPointer := arp_ptr, uc_nextHopVlanId := vid, uc_ttlHopLimitDecEnable := True\<rparr>"

definition ret_set_re_to_idx :: "env \<Rightarrow> re \<Rightarrow> int \<Rightarrow> 'a ret_st_scheme \<Rightarrow> 'a ret_st_scheme" where
  "ret_set_re_to_idx E re idx s =
     (case vif_getn E (re_vif_id re) s of
        (None, s) \<Rightarrow> s
      | (Some vif, s) \<Rightarrow>
          (case fill_cpss_if vif s of (ifc, s) \<Rightarrow>
             snd (for_each_dev E (\<lambda>d. Uc (UcRouteEntriesWrite d idx
                    (re_route_entry ifc (re_nh_idx re) (gw_vid (re_gw re))))) s)))"

definition ret_set_re_to_idx_gw :: "env \<Rightarrow> gw \<Rightarrow> int \<Rightarrow> 'a ret_st_scheme \<Rightarrow> 'a ret_st_scheme" where
  "ret_set_re_to_idx_gw E g idx s =
     (case hash_find re_gw (ret s) g of None \<Rightarrow> s | Some re \<Rightarrow> ret_set_re_to_idx E re idx s)"

definition ret_init :: "'a ret_st_scheme \<Rightarrow> 'a ret_st_scheme" where
  "ret_init s = nht_init s"

definition ret0 :: ret_st where "ret0 = nht_st.extend nht0 (ret_st.fields True [] [] 0)"

text \<open>A group that joins a gateway with \<open>ret_add\<close> and leaves it with \<open>ret_unref\<close> leaves the
  gateway table as it was: an entry made for the group is gone again, an entry other groups use
  has its list of groups back.\<close>

theorem ret_add_unref_round_trip:
  assumes kd: "keys_distinct re_gw (ret s)"
    and ids: "\<And>re. re \<in> set (ret s) \<Longrightarrow> re_group_ids re \<noteq> [] \<and> gid \<notin> set (re_group_ids re)"
  shows "ret (snd (ret_unref g gid (snd (ret_add g gid s)))) = ret s \<and>
         re_cnt (snd (ret_unref g gid (snd (ret_add g gid s)))) = re_cnt s"
proof (cases "hash_find re_gw (ret s) g")
  case None
  then have new: "g \<notin> re_gw ` set (ret s)" by (simp add: hash_find_None)
  let ?re = "new_re g gid" and ?s = "s\<lparr>ret := ret s @ [new_re g gid], re_cnt := re_cnt s + 1\<rparr>"
  have add: "snd (ret_add g gid s) = ?s" using None by (simp add: ret_add_def hash_add_def Let_def)
  have gw: "re_gw ?re = g" "re_group_ids (re_leave gid ?re) = []" "re_valid (re_leave gid ?re) = False"
    by (simp_all add: new_re_def re_leave_def ret_remove_group_from_list_def ret_add_group_to_list_def
        dl_delete_found_int dl_append_def dl_search_def)
  have find: "hash_find re_gw (ret s @ [?re]) g = Some ?re"
    using None gw by (simp add: hash_find_def find_append)
  have "del1 (\<lambda>e. re_gw e = g) (upd1 (\<lambda>e. re_gw e = g) (re_leave gid) (xs @ [?re])) = xs"
    if "g \<notin> re_gw ` set xs" for xs using that gw by (induction xs) (auto simp: re_leave_def)
  with new have "hash_del re_gw g (hash_mod re_gw g (re_leave gid) (ret s @ [?re])) = ret s"
    by (simp add: hash_del_def hash_mod_def)
  then show ?thesis unfolding add using find gw
    by (simp add: ret_unref_def Let_def arpc_release_addr_def arpc_ip_addr_op_def emit_def)
next
  case (Some e)
  then have e: "e \<in> set (ret s)" "re_gw e = g" using hash_find_in by fastforce+
  have undo: "re_leave gid (re_join gid r) = r" if "r \<in> set (ret s)" for r
    using ids [OF that] by (simp add: re_leave_def re_join_def ret_add_group_to_list_def dl_search_int
        ret_remove_group_from_list_def dl_delete_found_int dl_append_def remove1_append)
  let ?t = "hash_mod re_gw g (re_join gid) (ret s)"
  have add: "snd (ret_add g gid s) = s\<lparr>ret := ?t\<rparr>" using Some by (simp add: ret_add_def)
  have find: "hash_find re_gw ?t g = Some (re_join gid e)"
    using Some uth.lookup_modify [where key = re_gw and f = "re_join gid" and k' = g and t = "ret s" and k = g] by (simp add: re_join_def)
  have "upd1 (\<lambda>e. re_gw e = g) (re_leave gid) (upd1 (\<lambda>e. re_gw e = g) (re_join gid) xs) = xs"
    if "\<And>r. r \<in> set xs \<Longrightarrow> re_leave gid (re_join gid r) = r" for xs
    using that by (induction xs) (auto simp: re_join_def)
  with undo have "hash_mod re_gw g (re_leave gid) ?t = ret s" by (simp add: hash_mod_def)
  then show ?thesis unfolding add using find undo [OF e(1)] ids [OF e(1)] by (simp add: ret_unref_def Let_def)
qed

theorem ret_add_unref_round_trip_witness:
  "ret (snd (ret_unref \<lparr>gw_addr = 1, gw_vid = 2\<rparr> 3 (snd (ret_add \<lparr>gw_addr = 1, gw_vid = 2\<rparr> 3 ret0)))) = ret ret0"
proof -
  have "ret ret0 = []" by code_simp
  then show ?thesis using ret_add_unref_round_trip [of ret0 3 "\<lparr>gw_addr = 1, gw_vid = 2\<rparr>"] by simp
qed

end
