(* ===== verification/Lttindex.thy ===== *)
theory Lttindex
  imports Containers
begin

text \<open>
  The allocator of LTT positions for policy based routing (\<open>src/lttindex.c\<close>): rows from 1205
  on, column 0. The row is a 32-bit counter that wraps, so the search is given as much fuel as
  it can need (one step more than there are recorded positions) and is shown to return while
  fewer than \<open>2^32\<close> positions are recorded.
\<close>

record row_colum =
  row :: u32
  colum :: u8

definition firstIndex :: u32 where "firstIndex = 1205"

definition ltt_next :: "row_colum \<Rightarrow> row_colum" where
  "ltt_next el = el\<lparr>row := row el + 1\<rparr>"

definition ltt_cmp :: "row_colum \<Rightarrow> row_colum \<Rightarrow> int" where
  "ltt_cmp a b =
     (if row a = row b \<and> colum a = colum b then 0
      else if row a > row b then 1
      else if row a < row b then -1
      else if row a = row b \<and> colum a > colum b then 1
      else -1)"

fun ltt_scan :: "nat \<Rightarrow> row_colum list \<Rightarrow> row_colum \<Rightarrow> row_colum option" where
  "ltt_scan 0 db etmp = None"
| "ltt_scan (Suc fuel) db etmp =
     (if dl_search ltt_cmp db etmp = None then Some etmp else ltt_scan fuel db (ltt_next etmp))"

definition ltt_index_get :: "row_colum list \<Rightarrow> (row_colum \<times> row_colum list) option" where
  "ltt_index_get db =
     (case ltt_scan (Suc (length db)) db \<lparr>row = firstIndex, colum = 0\<rparr> of
        None \<Rightarrow> None
      | Some e \<Rightarrow> Some (e, dl_append db e))"

definition ltt_index_del :: "row_colum \<Rightarrow> row_colum list \<Rightarrow> row_colum list" where
  "ltt_index_del index db = dl_delete_found ltt_cmp db index"

lemma ltt_cmp_0 [simp]: "ltt_cmp a b = 0 \<longleftrightarrow> a = b"
  by (cases a, cases b) (auto simp: ltt_cmp_def)

lemma ltt_cmp_antisym: "ltt_cmp a b = - ltt_cmp b a"
  by (auto simp: ltt_cmp_def)

lemma ltt_search: "dl_search ltt_cmp db e = None \<longleftrightarrow> e \<notin> set db"
  by (auto simp: dl_search_None)

lemma ltt_scan_shape:
  "ltt_scan fuel db e = Some r \<Longrightarrow>
     \<exists>k < fuel. r = e\<lparr>row := row e + of_nat k\<rparr> \<and> r \<notin> set db \<and>
       (\<forall>j < k. e\<lparr>row := row e + of_nat j\<rparr> \<in> set db)"
proof (induction fuel arbitrary: e)
  case 0
  then show ?case by simp
next
  case (Suc fuel)
  show ?case
  proof (cases "e \<in> set db")
    case False
    with Suc.prems show ?thesis by (intro exI [of _ 0]) (simp add: ltt_search)
  next
    case True
    with Suc.prems have "ltt_scan fuel db (ltt_next e) = Some r" by (simp add: ltt_search)
    from Suc.IH [OF this] obtain k where k: "k < fuel"
      "r = (ltt_next e)\<lparr>row := row (ltt_next e) + of_nat k\<rparr>" "r \<notin> set db"
      "\<forall>j < k. (ltt_next e)\<lparr>row := row (ltt_next e) + of_nat j\<rparr> \<in> set db" by blast
    have "e\<lparr>row := row e + of_nat j\<rparr> \<in> set db" if "j < Suc k" for j
      using True k(4) that by (cases j) (auto simp: ltt_next_def algebra_simps)
    with k(1-3) show ?thesis
      by (intro exI [of _ "Suc k"]) (simp add: ltt_next_def algebra_simps)
  qed
qed

lemma ltt_scan_None:
  "ltt_scan fuel db e = None \<Longrightarrow> j < fuel \<Longrightarrow> e\<lparr>row := row e + of_nat j\<rparr> \<in> set db"
proof (induction fuel arbitrary: e j)
  case 0
  then show ?case by simp
next
  case (Suc fuel)
  then have e: "e \<in> set db" and n: "ltt_scan fuel db (ltt_next e) = None"
    by (auto simp: ltt_search split: if_splits)
  show ?case
  proof (cases j)
    case 0
    with e show ?thesis by simp
  next
    case (Suc i)
    with Suc.prems(2) Suc.IH [OF n, of i] show ?thesis
      by (simp add: ltt_next_def algebra_simps)
  qed
qed

declare ltt_scan.simps(2) [simp del]

lemma ltt_scan_enough:
  assumes "length db < 2 ^ 32"
  shows "ltt_scan (Suc (length db)) db e \<noteq> None"
proof
  let ?f = "\<lambda>j. e\<lparr>row := row e + of_nat j\<rparr>"
  assume "ltt_scan (Suc (length db)) db e = None"
  then have "?f ` {..length db} \<subseteq> set db"
    using ltt_scan_None by (auto simp: less_Suc_eq_le)
  moreover have "inj_on ?f {..length db}"
  proof (rule inj_onI)
    fix i j assume ij: "i \<in> {..length db}" "j \<in> {..length db}" and "?f i = ?f j"
    then have "(of_nat i :: u32) = of_nat j"
      by (metis (no_types, lifting) add_left_cancel row_colum.select_convs(1) row_colum.surjective
          row_colum.update_convs(1))
    then have "unat (of_nat i :: u32) = unat (of_nat j :: u32)" by simp
    then show "i = j" using ij assms by (simp add: unat_of_nat)
  qed
  ultimately have "Suc (length db) \<le> card (set db)"
    by (metis List.finite_set card_atMost card_image card_mono)
  with card_length [of db] show False by linarith
qed

text \<open>The allocator is a pool whose identifiers are table positions.\<close>

lemma ltt_index_get_SomeD:
  "ltt_index_get db = Some (e, db') \<Longrightarrow> e \<notin> set db \<and> db' = db @ [e] \<and> colum e = 0"
  by (auto simp: ltt_index_get_def dl_append_def split: option.splits dest!: ltt_scan_shape)

lemma ltt_index_del_eq: "ltt_index_del e db = remove1 e db"
  unfolding ltt_index_del_def dl_delete_found_def by (induction db) auto

interpretation ltt_pool: id_pool ltt_index_get ltt_index_del set distinct
  by unfold_locales (auto dest: ltt_index_get_SomeD simp: ltt_index_del_eq)

text \<open>C31. The search for an LTT position follows the wrapping 32-bit row counter; while fewer than
  \<open>2^32\<close> positions are recorded it ends, and it returns the first position from row 1205 on, in
  column 0, that is not recorded, and records it.\<close>

theorem ltt_index_get_first_free:
  assumes "length db < 2 ^ 32"
  shows "\<exists>k. ltt_index_get db = Some (\<lparr>row = firstIndex + of_nat k, colum = 0\<rparr>,
               db @ [\<lparr>row = firstIndex + of_nat k, colum = 0\<rparr>]) \<and>
             \<lparr>row = firstIndex + of_nat k, colum = 0\<rparr> \<notin> set db \<and>
             (\<forall>j < k. \<lparr>row = firstIndex + of_nat j, colum = 0\<rparr> \<in> set db)"
proof -
  obtain r where r: "ltt_scan (Suc (length db)) db \<lparr>row = firstIndex, colum = 0\<rparr> = Some r"
    using ltt_scan_enough [OF assms] by blast
  from ltt_scan_shape [OF this] obtain k where "r = \<lparr>row = firstIndex + of_nat k, colum = 0\<rparr>" "r \<notin> set db"
    "\<forall>j < k. \<lparr>row = firstIndex + of_nat j, colum = 0\<rparr> \<in> set db" by auto
  with r show ?thesis by (intro exI [of _ k]) (simp add: ltt_index_get_def dl_append_def)
qed

theorem ltt_index_get_first_free_witness:
  "\<exists>k. ltt_index_get [\<lparr>row = 1205, colum = 0\<rparr>] = Some (\<lparr>row = firstIndex + of_nat k, colum = 0\<rparr>,
         [\<lparr>row = 1205, colum = 0\<rparr>, \<lparr>row = firstIndex + of_nat k, colum = 0\<rparr>])"
  using ltt_index_get_first_free [of "[\<lparr>row = 1205, colum = 0\<rparr>]"] by auto

text \<open>Taking an LTT position and giving it back restores the list of recorded positions.\<close>

theorem ltt_index_round_trip:
  assumes "ltt_index_get db = Some (e, db')"
  shows "ltt_index_del e db' = db"
  using ltt_index_get_SomeD [OF assms] by (auto simp: ltt_index_del_eq remove1_append)

theorem ltt_index_round_trip_witness:
  "ltt_index_del \<lparr>row = 1205, colum = 0\<rparr> [\<lparr>row = 1205, colum = 0\<rparr>] = []"
proof -
  have "ltt_index_get [] = Some (\<lparr>row = 1205, colum = 0\<rparr>, [\<lparr>row = 1205, colum = 0\<rparr>])" by code_simp
  then show ?thesis by (rule ltt_index_round_trip)
qed

end
