(* ===== verification/Ret_Group.thy ===== *)
theory Ret_Group
  imports Ret Lttindex
begin

text \<open>
  ECMP groups (\<open>src/ret_group.c\<close>): every set of gateways some prefix or policy uses is one
  group with a run of route entry slots. The gateways whose MAC address is known occupy the
  first \<open>numOfPaths + 1\<close> slots of the run, the others point to the drop entry; the prefixes and
  LTT positions of the group name the run. Modelled is the whole file.
\<close>

section \<open>State\<close>

record re_idx =
  ri_gw :: gw
  ri_idx :: int

text \<open>\<open>struct route_pfx_pbr\<close>: the address and length of a prefix (in network byte order), or the
  LTT position and interface of a policy.\<close>

datatype route_pfx_pbr = ROUTE_PFX u32 nat | ROUTE_PBR row_colum pcl_interface

record re_group =
  group_id :: int
  re_count :: int
  first_idx :: int
  numOfPaths :: int
  re_idx :: "re_idx list"
  pfx_pbr :: "route_pfx_pbr list"

record grp_st = ret_st +
  re_group :: "re_group list"

section \<open>List lookups\<close>

definition list_re_idx_cmp :: "re_idx \<Rightarrow> re_idx \<Rightarrow> int" where
  "list_re_idx_cmp a b =
     (if gw_addr (ri_gw a) = gw_addr (ri_gw b) \<and> gw_vid (ri_gw a) = gw_vid (ri_gw b) then 0 else 1)"

definition list_re_idx_cmp2 :: "re_idx \<Rightarrow> re_idx \<Rightarrow> int" where
  "list_re_idx_cmp2 a b = (if ri_idx a = ri_idx b then 0 else 1)"

fun list_route_pfx_pbr_cmp_pfx :: "route_pfx_pbr \<Rightarrow> route_pfx_pbr \<Rightarrow> int" where
  "list_route_pfx_pbr_cmp_pfx (ROUTE_PFX a l) (ROUTE_PFX b m) = (if a = b \<and> l = m then 0 else 1)"
| "list_route_pfx_pbr_cmp_pfx _ _ = 1"

fun list_route_pfx_pbr_cmp_pbr :: "route_pfx_pbr \<Rightarrow> route_pfx_pbr \<Rightarrow> int" where
  "list_route_pfx_pbr_cmp_pbr (ROUTE_PBR x i) (ROUTE_PBR y j) =
     (if row x = row y \<and> colum x = colum y \<and> pif_num i = pif_num j \<and> pif_type i = pif_type j
      then 0 else 1)"
| "list_route_pfx_pbr_cmp_pbr _ _ = 1"

text \<open>\<open>compare_lists\<close>: as many gateways as elements, and each gateway found in the list.\<close>

definition compare_lists :: "gw list \<Rightarrow> re_idx list \<Rightarrow> bool" where
  "compare_lists gws list =
     (if length gws \<noteq> length list then False
      else \<not> list_ex (\<lambda>g. dl_search list_re_idx_cmp list \<lparr>ri_gw = g, ri_idx = 0\<rparr> = None) gws)"

section \<open>What the hardware tables are told\<close>

definition group_ltt_entry :: "re_group \<Rightarrow> ltt_entry" where
  "group_ltt_entry g =
     (if numOfPaths g = -1 then \<lparr>routeEntryBaseIndex = DROP_RE_IDX, ltt_numOfPaths = 0\<rparr>
      else \<lparr>routeEntryBaseIndex = first_idx g, ltt_numOfPaths = numOfPaths g\<rparr>)"

definition get_port_ptr :: "u16 \<Rightarrow> 'a vif_st_scheme \<Rightarrow> status \<times> port option" where
  "get_port_ptr pid s =
     (case port_ptr pid s of
        None \<Rightarrow> (ST_BAD_VALUE, None)
      | Some p \<Rightarrow> if is_stack_port p s then (ST_BAD_VALUE, None) else (ST_OK, Some p))"

definition ltt_write_devs :: "env \<Rightarrow> nat list \<Rightarrow> row_colum \<Rightarrow> ltt_entry \<Rightarrow> 'a sw_scheme \<Rightarrow> 'a sw_scheme" where
  "ltt_write_devs E devs ix e s =
     fold (\<lambda>d s. snd (crp E (Uc (LttWrite d (row ix) (colum ix) e)) s)) devs s"

definition ret_group_ltt_tcam_set ::
  "env \<Rightarrow> row_colum \<Rightarrow> pcl_interface \<Rightarrow> re_group \<Rightarrow> 'a vif_st_scheme \<Rightarrow> status \<times> 'a vif_st_scheme" where
  "ret_group_ltt_tcam_set E ltt_index interface grp s =
     (case pif_type interface of
        PCL_INTERFACE_TYPE_VLAN \<Rightarrow>
          (ST_OK, ltt_write_devs E [0 ..< e_ndevs E] ltt_index (group_ltt_entry grp) s)
      | PCL_INTERFACE_TYPE_PORT \<Rightarrow>
          (case get_port_ptr (pif_num interface) s of
             (ST_OK, Some port) \<Rightarrow>
               (ST_OK, ltt_write_devs E [pt_ldev port] ltt_index (group_ltt_entry grp) s)
           | _ \<Rightarrow> (ST_BAD_VALUE, s))
      | PCL_INTERFACE_TYPE_OTHER \<Rightarrow> (ST_BAD_VALUE, s))"

definition lpm_add :: "env \<Rightarrow> u32 \<Rightarrow> nat \<Rightarrow> ltt_entry \<Rightarrow> 'a sw_scheme \<Rightarrow> 'a sw_scheme" where
  "lpm_add E addr alen e s = snd (crp E (Uc (LpmIpv4UcPrefixAdd addr alen e)) s)"

section \<open>Creating groups\<close>

text \<open>Reading \<open>idxs[n]\<close>; the array is uninitialised where \<open>res_pop\<close> has failed.\<close>

definition idx_at :: "int list \<Rightarrow> nat \<Rightarrow> int" where
  "idx_at idxs n = (if n < length idxs then idxs ! n else 0)"

definition pop_idxs :: "int \<Rightarrow> 'a pool_st_scheme \<Rightarrow> int list \<times> 'a pool_st_scheme" where
  "pop_idxs gw_count s = (case res_pop gw_count s of None \<Rightarrow> ([], crash s) | Some (ids, s) \<Rightarrow> (ids, s))"

text \<open>The loop over the gateways of a new group. \<open>idxs[end]\<close> is read there and overwritten
  with \<open>DROP_RE_IDX\<close>, so it is left out.\<close>

fun group_fill ::
  "env \<Rightarrow> int \<Rightarrow> int list \<Rightarrow> gw list \<Rightarrow> nat \<Rightarrow> re_idx list \<Rightarrow> 'a ret_st_scheme \<Rightarrow>
     nat \<times> re_idx list \<times> 'a ret_st_scheme" where
  "group_fill E gid idxs [] start list s = (start, list, s)"
| "group_fill E gid idxs (g # gs) start list s =
     (case ret_add g gid s of (re, s) \<Rightarrow>
        if re_valid re then
          group_fill E gid idxs gs (start + 1)
            (dl_append list \<lparr>ri_gw = g, ri_idx = idx_at idxs start\<rparr>)
            (ret_set_re_to_idx E re (idx_at idxs start) s)
        else
          group_fill E gid idxs gs start (dl_append list \<lparr>ri_gw = g, ri_idx = DROP_RE_IDX\<rparr>) s)"

definition group_match :: "gw list \<Rightarrow> 'a grp_st_scheme \<Rightarrow> re_group option" where
  "group_match gws s = find (\<lambda>el. compare_lists gws (re_idx el)) (re_group s)"

text \<open>The part of \<open>ret_group_add\<close> and \<open>ret_group_add_pbr\<close> that builds a new group.\<close>

definition group_new :: "env \<Rightarrow> gw list \<Rightarrow> route_pfx_pbr \<Rightarrow> 'a grp_st_scheme \<Rightarrow> re_group \<times> 'a grp_st_scheme" where
  "group_new E gws add s =
     (case get_new_group_id s of (gid, s) \<Rightarrow>
      case pop_idxs (int (length gws)) s of (idxs, s) \<Rightarrow>
      case group_fill E gid idxs gws 0 [] s of (start, list, s) \<Rightarrow>
        (\<lparr>group_id = gid, re_count = int (length gws), first_idx = idx_at idxs 0,
          numOfPaths = int start - 1, re_idx = list, pfx_pbr = dl_append [] add\<rparr>, s))"

definition group_put :: "re_group \<Rightarrow> 'a grp_st_scheme \<Rightarrow> 'a grp_st_scheme" where
  "group_put g s = s\<lparr>re_group := hash_mod group_id (group_id g) (\<lambda>_. g) (re_group s)\<rparr>"

definition group_request :: "gw list \<Rightarrow> 'a ret_st_scheme \<Rightarrow> 'a ret_st_scheme" where
  "group_request gws s = fold ret_arpc_request_addr gws s"

definition ret_group_add :: "env \<Rightarrow> gw list \<Rightarrow> u32 \<Rightarrow> nat \<Rightarrow> 'a grp_st_scheme \<Rightarrow> int \<times> 'a grp_st_scheme" where
  "ret_group_add E gws ip alen s =
     (let addr = htonl (e_big_endian E) ip; add = ROUTE_PFX addr alen in
      case group_match gws s of
        Some el \<Rightarrow>
          let el' = (if dl_search list_route_pfx_pbr_cmp_pfx (pfx_pbr el) add = None
                     then el\<lparr>pfx_pbr := dl_append (pfx_pbr el) add\<rparr> else el);
              s = group_put el' s in
          (group_id el, lpm_add E addr alen (group_ltt_entry el') s)
      | None \<Rightarrow>
          (case group_new E gws add s of (group_add, s) \<Rightarrow>
             let s = lpm_add E addr alen (group_ltt_entry group_add) s;
                 s = s\<lparr>re_group := hash_add group_add (re_group s)\<rparr> in
             (group_id group_add, group_request gws s)))"

text \<open>
  In \<open>ret_group_add_pbr\<close> the branch of an existing group writes the LTT position from the
  table's first group, \<open>re_group\<close>, not from the group \<open>el\<close> it has found.
\<close>

definition ret_group_add_pbr ::
  "env \<Rightarrow> gw list \<Rightarrow> row_colum \<Rightarrow> pcl_interface \<Rightarrow> 'a grp_st_scheme \<Rightarrow> int \<times> 'a grp_st_scheme" where
  "ret_group_add_pbr E gws ltt_index interface s =
     (let add = ROUTE_PBR ltt_index interface in
      case group_match gws s of
        Some el \<Rightarrow>
          let el' = (if dl_search list_route_pfx_pbr_cmp_pbr (pfx_pbr el) add = None
                     then el\<lparr>pfx_pbr := dl_append (pfx_pbr el) add\<rparr> else el);
              s = group_put el' s in
          (group_id el, snd (ret_group_ltt_tcam_set E ltt_index interface (hd (re_group s)) s))
      | None \<Rightarrow>
          (case group_new E gws add s of (group_add, s) \<Rightarrow>
             let s = snd (ret_group_ltt_tcam_set E ltt_index interface group_add s);
                 s = s\<lparr>re_group := hash_add group_add (re_group s)\<rparr> in
             (group_id group_add, group_request gws s)))"

section \<open>Deleting groups\<close>

definition ret_group_del_2 :: "re_group \<Rightarrow> 'a grp_st_scheme \<Rightarrow> 'a grp_st_scheme" where
  "ret_group_del_2 g s =
     (let s = fold (\<lambda>el s. snd (ret_unref (ri_gw el) (group_id g) s)) (re_idx g) s;
          s = snd (res_push_count_first (re_count g) (first_idx g) s) in
      del_id (group_id g) s)"

definition ret_group_remove_pfx :: "bool \<Rightarrow> route_pfx_pbr list \<Rightarrow> u32 \<Rightarrow> nat \<Rightarrow> route_pfx_pbr list" where
  "ret_group_remove_pfx be head pfx alen =
     dl_delete_found list_route_pfx_pbr_cmp_pfx head (ROUTE_PFX (htonl be pfx) alen)"

definition ret_group_remove_pbr :: "route_pfx_pbr list \<Rightarrow> row_colum \<Rightarrow> pcl_interface \<Rightarrow> route_pfx_pbr list" where
  "ret_group_remove_pbr head ltt_index interface =
     dl_delete_found list_route_pfx_pbr_cmp_pbr head (ROUTE_PBR ltt_index interface)"

text \<open>The common tail of the two deletions: a group without users goes.\<close>

definition group_drop :: "re_group \<Rightarrow> 'a grp_st_scheme \<Rightarrow> 'a grp_st_scheme" where
  "group_drop g s =
     (let s = group_put g s in
      if pfx_pbr g = [] then
        let s = ret_group_del_2 g s in s\<lparr>re_group := hash_del group_id (group_id g) (re_group s)\<rparr>
      else s)"

definition ret_group_del :: "env \<Rightarrow> int \<Rightarrow> u32 \<Rightarrow> nat \<Rightarrow> 'a grp_st_scheme \<Rightarrow> 'a grp_st_scheme" where
  "ret_group_del E gid pfx alen s =
     (case hash_find group_id (re_group s) gid of
        None \<Rightarrow> s
      | Some g \<Rightarrow> group_drop (g\<lparr>pfx_pbr := ret_group_remove_pfx (e_big_endian E) (pfx_pbr g) pfx alen\<rparr>) s)"

definition ret_group_del_pbr :: "int \<Rightarrow> row_colum \<Rightarrow> pcl_interface \<Rightarrow> 'a grp_st_scheme \<Rightarrow> 'a grp_st_scheme" where
  "ret_group_del_pbr gid ltt_index interface s =
     (case hash_find group_id (re_group s) gid of
        None \<Rightarrow> s
      | Some g \<Rightarrow> group_drop (g\<lparr>pfx_pbr := ret_group_remove_pbr (pfx_pbr g) ltt_index interface\<rparr>) s)"

section \<open>A gateway's MAC address changes\<close>

definition group_user_update :: "env \<Rightarrow> re_group \<Rightarrow> route_pfx_pbr \<Rightarrow> 'a grp_st_scheme \<Rightarrow> 'a grp_st_scheme" where
  "group_user_update E g u s =
     (case u of
        ROUTE_PFX addr alen \<Rightarrow> lpm_add E addr alen (group_ltt_entry g) s
      | ROUTE_PBR ix i \<Rightarrow> snd (ret_group_ltt_tcam_set E ix i g s))"

definition ret_group_update_lpm_table :: "env \<Rightarrow> re_group \<Rightarrow> 'a grp_st_scheme \<Rightarrow> 'a grp_st_scheme" where
  "ret_group_update_lpm_table E g s = fold (group_user_update E g) (pfx_pbr g) s"

text \<open>Writing \<open>idx\<close> into the element a search has found.\<close>

definition list_set_idx :: "(re_idx \<Rightarrow> re_idx \<Rightarrow> int) \<Rightarrow> re_idx \<Rightarrow> int \<Rightarrow> re_idx list \<Rightarrow> re_idx list" where
  "list_set_idx cmp elt idx list = upd1 (\<lambda>out. cmp out elt = 0) (\<lambda>out. out\<lparr>ri_idx := idx\<rparr>) list"

definition ret_group_gw_changed_enable :: "env \<Rightarrow> re_group \<Rightarrow> re \<Rightarrow> 'a grp_st_scheme \<Rightarrow> 'a grp_st_scheme" where
  "ret_group_gw_changed_enable E g re s =
     (let idx = (if numOfPaths g = -1 then first_idx g else first_idx g + numOfPaths g + 1);
          g = g\<lparr>numOfPaths := numOfPaths g + 1,
                re_idx := list_set_idx list_re_idx_cmp \<lparr>ri_gw = re_gw re, ri_idx = 0\<rparr> idx (re_idx g)\<rparr>;
          s = group_put g s;
          s = ret_set_re_to_idx E re idx s in
      ret_group_update_lpm_table E g s)"

definition ret_group_gw_changed_enable_changed :: "env \<Rightarrow> re_group \<Rightarrow> re \<Rightarrow> 'a grp_st_scheme \<Rightarrow> 'a grp_st_scheme" where
  "ret_group_gw_changed_enable_changed E g re s =
     (case dl_search list_re_idx_cmp (re_idx g) \<lparr>ri_gw = re_gw re, ri_idx = 0\<rparr> of
        None \<Rightarrow> s
      | Some out \<Rightarrow> ret_set_re_to_idx E re (ri_idx out) s)"

definition ret_group_gw_changed_disable :: "env \<Rightarrow> re_group \<Rightarrow> re \<Rightarrow> 'a grp_st_scheme \<Rightarrow> 'a grp_st_scheme" where
  "ret_group_gw_changed_disable E g re s =
     (let elt = \<lparr>ri_gw = re_gw re, ri_idx = 0\<rparr> in
      case dl_search list_re_idx_cmp (re_idx g) elt of
        None \<Rightarrow> s
      | Some out \<Rightarrow>
          let idx = ri_idx out;
              g = g\<lparr>re_idx := list_set_idx list_re_idx_cmp elt DROP_RE_IDX (re_idx g)\<rparr> in
          if numOfPaths g = -1 then group_put g s
          else
            let last = elt\<lparr>ri_idx := first_idx g + numOfPaths g\<rparr>;
                moved = (if numOfPaths g = 0 then None else dl_search list_re_idx_cmp2 (re_idx g) last);
                g = (if moved = None then g
                     else g\<lparr>re_idx := list_set_idx list_re_idx_cmp2 last idx (re_idx g)\<rparr>);
                s = (case moved of None \<Rightarrow> s | Some out \<Rightarrow> ret_set_re_to_idx_gw E (ri_gw out) idx s);
                g = g\<lparr>numOfPaths := numOfPaths g - 1\<rparr> in
            ret_group_update_lpm_table E g (group_put g s))"

definition ret_group_gw_changed :: "env \<Rightarrow> int \<Rightarrow> re \<Rightarrow> bool \<Rightarrow> 'a grp_st_scheme \<Rightarrow> 'a grp_st_scheme" where
  "ret_group_gw_changed E gid re is_changed_valid s =
     (case hash_find group_id (re_group s) gid of
        None \<Rightarrow> s
      | Some g \<Rightarrow>
          if re_valid re \<and> is_changed_valid then ret_group_gw_changed_enable E g re s
          else if re_valid re \<and> \<not> is_changed_valid then ret_group_gw_changed_enable_changed E g re s
          else if \<not> re_valid re \<and> is_changed_valid then ret_group_gw_changed_disable E g re s
          else s)"

section \<open>Users of a set of groups\<close>

definition ret_group_get :: "int \<Rightarrow> 'a grp_st_scheme \<Rightarrow> re_group option" where
  "ret_group_get gid s = hash_find group_id (re_group s) gid"

definition ret_group_copy_pfx_pbr :: "route_pfx_pbr list \<Rightarrow> re_group \<Rightarrow> route_pfx_pbr list" where
  "ret_group_copy_pfx_pbr dst g =
     fold (\<lambda>el dst. if dl_search list_route_pfx_pbr_cmp_pfx dst el = None then dl_append dst el else dst)
       (pfx_pbr g) dst"

definition grp0 :: grp_st where "grp0 = ret_st.extend ret0 (grp_st.fields [])"

end
