(* ===== verification/Ret_Mac.thy ===== *)
theory Ret_Mac
  imports Ret_Group
begin

text \<open>
  Resolution of gateways (\<open>ret_set_mac_addr\<close>, \<open>ret_unset_mac_addr\<close> of \<open>src/ret.c\<close> and
  their caller \<open>arpc_set_mac_addr\<close> of \<open>src/arpc.c\<close>): the ARP daemon reports a gateway's MAC
  address and interface, or zeroes when it is gone, and every group of the gateway is told.
\<close>

section \<open>Operations\<close>

text \<open>Writing the \<open>re\<close> a lookup has returned back into the table.\<close>

definition re_put :: "re \<Rightarrow> 'a ret_st_scheme \<Rightarrow> 'a ret_st_scheme" where
  "re_put re s = s\<lparr>ret := hash_mod re_gw (re_gw re) (\<lambda>_. re) (ret s)\<rparr>"

text \<open>The lookup of \<open>ret_set_mac_addr\<close>: by hash, else the last element of the table with the same
  address and VLAN.\<close>

definition ret_lookup_gw :: "gw \<Rightarrow> 'a ret_st_scheme \<Rightarrow> re option" where
  "ret_lookup_gw g s =
     (case hash_find re_gw (ret s) g of
        Some re \<Rightarrow> Some re
      | None \<Rightarrow>
          fold (\<lambda>el r. if re_gw el = g \<or> gw_addr (re_gw el) = gw_addr g \<and> gw_vid (re_gw el) = gw_vid g
                        then Some el else r)
            (ret s) None)"

definition ret_set_mac_addr :: "env \<Rightarrow> gw \<Rightarrow> mac \<Rightarrow> vif_id \<Rightarrow> 'a grp_st_scheme \<Rightarrow> status \<times> 'a grp_st_scheme" where
  "ret_set_mac_addr E g addr vid s =
     (case vif_getn E vid s of
        (None, s) \<Rightarrow> (ST_HEX, s)
      | (Some vif, s) \<Rightarrow>
          (case ret_lookup_gw g s of
             None \<Rightarrow> (ST_DOES_NOT_EXIST, s)
           | Some re \<Rightarrow>
               if re_valid re \<and> re_addr re = addr \<and> re_vif_id re = vid then (ST_OK, s)
               else
                 let is_changed_valid = (\<not> re_valid re);
                     re = re\<lparr>re_valid := True, re_addr := addr, re_vif_id := vid\<rparr>;
                     s = re_put re s in
                 (case nht_add E addr s of (idx, s) \<Rightarrow>
                    if idx < 0 then (ST_HEX, s)
                    else
                      let re = re\<lparr>re_nh_idx := nat idx\<rparr>; s = re_put re s in
                      (ST_OK,
                       fold (\<lambda>gid s. ret_group_gw_changed E gid re is_changed_valid s) (re_group_ids re) s))))"

definition ret_unset_mac_addr :: "env \<Rightarrow> gw \<Rightarrow> 'a grp_st_scheme \<Rightarrow> status \<times> 'a grp_st_scheme" where
  "ret_unset_mac_addr E g s =
     (case hash_find re_gw (ret s) g of
        None \<Rightarrow> (ST_DOES_NOT_EXIST, s)
      | Some re \<Rightarrow>
          if re_valid re then
            let re = re\<lparr>re_valid := False\<rparr>;
                s = re_put re s;
                s = snd (nht_unref (re_addr re) s) in
            (ST_OK, fold (\<lambda>gid s. ret_group_gw_changed E gid re True s) (re_group_ids re) s)
          else (ST_OK, s))"

definition arpc_set_mac_addr :: "env \<Rightarrow> u32 \<Rightarrow> vid \<Rightarrow> mac \<Rightarrow> vif_id \<Rightarrow> 'a grp_st_scheme \<Rightarrow> 'a grp_st_scheme" where
  "arpc_set_mac_addr E ip vid mac vif s =
     (let g = route_fill_gw ip vid in
      if mac = replicate 6 0 then snd (ret_unset_mac_addr E g s)
      else snd (ret_set_mac_addr E g mac vif s))"

end
