(* ===== verification/Pbr.thy ===== *)
theory Pbr
  imports Ret_Mac
begin

text \<open>
  Policy based routes (\<open>src/pbr.c\<close>): one entry per interface, with its next hop, its LTT
  position and the group it uses. An address is its four bytes in memory order, read as
  \<open>GT_IPADDR.u32Ip\<close>.
\<close>

record pbr_entry =
  pe_interface :: pcl_interface
  pe_gw :: u32
  pe_vid :: vid
  pe_group_id :: int
  pe_ltt_index :: row_colum

record pbr_st = grp_st +
  pbr_entry :: "pbr_entry list"

definition pbr_ltt_tcam_set ::
  "env \<Rightarrow> row_colum \<Rightarrow> u32 \<Rightarrow> pcl_interface \<Rightarrow> int \<Rightarrow> 'a vif_st_scheme \<Rightarrow> status \<times> 'a vif_st_scheme" where
  "pbr_ltt_tcam_set E ltt_index nextHop interface ix s =
     (let e = \<lparr>routeEntryBaseIndex = ix, ltt_numOfPaths = 0\<rparr> in
      case pif_type interface of
        PCL_INTERFACE_TYPE_VLAN \<Rightarrow> (ST_OK, ltt_write_devs E [0 ..< e_ndevs E] ltt_index e s)
      | PCL_INTERFACE_TYPE_PORT \<Rightarrow>
          (case get_port_ptr (pif_num interface) s of
             (ST_OK, Some port) \<Rightarrow> (ST_OK, ltt_write_devs E [pt_ldev port] ltt_index e s)
           | _ \<Rightarrow> (ST_BAD_VALUE, s))
      | PCL_INTERFACE_TYPE_OTHER \<Rightarrow> (ST_BAD_VALUE, s))"

definition pbr_route_set ::
  "env \<Rightarrow> row_colum \<Rightarrow> u32 \<Rightarrow> vid \<Rightarrow> pcl_interface \<Rightarrow> 'a pbr_st_scheme \<Rightarrow> status \<times> 'a pbr_st_scheme" where
  "pbr_route_set E ltt_index nextHop vid interface s =
     (case (case hash_find pe_interface (pbr_entry s) interface of
              Some pe \<Rightarrow> (pe, s)
            | None \<Rightarrow>
                let pe = \<lparr>pe_interface = interface, pe_gw = nextHop, pe_vid = vid, pe_group_id = 0,
                          pe_ltt_index = ltt_index\<rparr> in
                (pe, s\<lparr>pbr_entry := hash_add pe (pbr_entry s)\<rparr>)) of
        (pe, s) \<Rightarrow>
          (case ret_group_add_pbr E [route_fill_gw nextHop vid] (pe_ltt_index pe) (pe_interface pe) s of
             (gid, s) \<Rightarrow>
               (ST_OK, s\<lparr>pbr_entry :=
                  hash_mod pe_interface interface (\<lambda>pe. pe\<lparr>pe_group_id := gid\<rparr>) (pbr_entry s)\<rparr>)))"

definition pbr_route_unset :: "pcl_interface \<Rightarrow> 'a pbr_st_scheme \<Rightarrow> status \<times> 'a pbr_st_scheme" where
  "pbr_route_unset interface s =
     (case hash_find pe_interface (pbr_entry s) interface of
        None \<Rightarrow> (ST_OK, s)
      | Some pe \<Rightarrow>
          let s = ret_group_del_pbr (pe_group_id pe) (pe_ltt_index pe) (pe_interface pe) s in
          (ST_OK, s\<lparr>pbr_entry := hash_del pe_interface interface (pbr_entry s)\<rparr>))"

definition pbr0 :: pbr_st where "pbr0 = grp_st.extend grp0 (pbr_st.fields [])"

end
