(* ===== verification/Fib.thy ===== *)
theory Fib
  imports Pbr
begin

text \<open>
  The forwarding information base (\<open>src/fib.c\<close>): one hash table per prefix length, the default
  route in place 0, and for connected routes a table of host entries (\<open>children\<close>) made on
  demand. \<open>fib_route\<close> searches from length 32 down. The deletion of an entry withdraws its
  prefix from the hardware and its group (\<open>route_del_fib_entry\<close> of \<open>src/route.c\<close>).
  Addresses are in host byte order, as in the source.
\<close>

section \<open>State\<close>

text \<open>\<open>struct fib_entry\<close>. A child never has children of its own, so its type is the entry's
  without that field.\<close>

record fib_node =
  fe_addr :: u32
  fe_pfx :: u32
  fe_gw :: "u32 list"
  fe_vid :: "vid list"
  fe_len :: nat
  fe_group_id :: int
  fe_ret_key :: "gw list"

record fib_entry = fib_node +
  children :: "fib_node list"

record fib_st = pbr_st +
  fib_e :: "nat \<Rightarrow> fib_entry list"

text \<open>A \<open>struct fib_entry *\<close>: an entry by length and address, or a child of one.\<close>

datatype fib_ref = FR_Entry nat u32 | FR_Child nat u32 u32

text \<open>\<open>struct route\<close> (\<open>src/route.h\<close>); the first \<open>gw_count\<close> elements of \<open>gw[8]\<close> as a list.\<close>

record route =
  rt_addr :: u32
  rt_addrv6 :: ipv6
  rt_alen :: nat
  rt_gw :: "gw list"
  rt_gw_v6 :: ipv6
  rt_vid :: vid

section \<open>Entries\<close>

definition mkmask :: "nat \<Rightarrow> u32" where
  "mkmask n = (if n \<noteq> 0 then NOT (push_bit (32 - n) 1 - 1) else 0)"

definition route_list_uint32_cmp :: "u32 \<Rightarrow> u32 \<Rightarrow> int" where
  "route_list_uint32_cmp a b = (if a > b then 1 else if a < b then -1 else 0)"

definition fib_entry_new :: "u32 \<Rightarrow> u32 \<Rightarrow> nat \<Rightarrow> fib_entry" where
  "fib_entry_new addr pfx len =
     \<lparr>fe_addr = addr, fe_pfx = pfx, fe_gw = [], fe_vid = [], fe_len = len, fe_group_id = 0,
      fe_ret_key = [], children = []\<rparr>"

text \<open>One turn of the loop over the gateways in \<open>fib_add\<close>: one whose address is listed already
  is skipped, whatever its VLAN.\<close>

definition fib_entry_add_gw :: "bool \<Rightarrow> gw \<Rightarrow> fib_entry \<Rightarrow> fib_entry" where
  "fib_entry_add_gw be g e =
     (let val = ntohl be (gw_addr g) in
      if dl_search route_list_uint32_cmp (fe_gw e) val \<noteq> None then e
      else e\<lparr>fe_gw := dl_append (fe_gw e) val,
             fe_vid := dl_append (fe_vid e) (gw_vid g),
             fe_ret_key := dl_append (fe_ret_key e) \<lparr>gw_addr = 0, gw_vid = 0\<rparr>\<rparr>)"

definition fib_entry_add_gws :: "bool \<Rightarrow> gw list \<Rightarrow> fib_entry \<Rightarrow> fib_entry" where
  "fib_entry_add_gws be gws e = fold (fib_entry_add_gw be) gws e"

section \<open>Insertion and lookup\<close>

definition fib_find :: "nat \<Rightarrow> u32 \<Rightarrow> 'a fib_st_scheme \<Rightarrow> fib_entry option" where
  "fib_find len addr s = hash_find fe_addr (fib_e s len) addr"

definition fib_set :: "nat \<Rightarrow> fib_entry list \<Rightarrow> 'a fib_st_scheme \<Rightarrow> 'a fib_st_scheme" where
  "fib_set len tbl s = s\<lparr>fib_e := (fib_e s)(len := tbl)\<rparr>"

definition fib_add :: "env \<Rightarrow> u32 \<Rightarrow> nat \<Rightarrow> gw list \<Rightarrow> 'a fib_st_scheme \<Rightarrow> 'a fib_st_scheme" where
  "fib_add E addr len gws s =
     (if \<not> len < 33 then crash s
      else if len = 0 then
        let e = (case fib_e s 0 of [] \<Rightarrow> fib_entry_new 0 0 0 | e # _ \<Rightarrow> e);
            e = e\<lparr>fe_addr := 0, fe_pfx := 0, fe_len := len\<rparr> in
        fib_set 0 [fib_entry_add_gws (e_big_endian E) gws e] s
      else
        let pfx = addr; addr = addr AND mkmask len in
        (case fib_find len addr s of
           Some e \<Rightarrow> s
         | None \<Rightarrow>
             let e = fib_entry_add_gws (e_big_endian E) gws (fib_entry_new addr pfx len) in
             fib_set len (hash_add e (fib_e s len)) s))"

definition fib_get :: "u32 \<Rightarrow> nat \<Rightarrow> 'a fib_st_scheme \<Rightarrow> fib_entry option \<times> 'a fib_st_scheme" where
  "fib_get addr len s =
     (if \<not> len < 33 then (None, crash s)
      else if len = 0 then ((case fib_e s 0 of [] \<Rightarrow> None | e # _ \<Rightarrow> Some e), s)
      else (fib_find len (addr AND mkmask len) s, s))"

text \<open>The loop of \<open>fib_route\<close>: lengths \<open>i, i - 1, ..., 1\<close>, clearing one more bit each time.\<close>

fun fib_scan :: "'a fib_st_scheme \<Rightarrow> nat \<Rightarrow> u32 \<Rightarrow> (nat \<times> fib_entry) option" where
  "fib_scan s 0 pfx = None"
| "fib_scan s (Suc i) pfx =
     (case fib_find (Suc i) pfx s of
        Some e \<Rightarrow> Some (Suc i, e)
      | None \<Rightarrow> fib_scan s i (pfx AND NOT (push_bit (32 - Suc i) 1)))"

definition connected :: "'a fib_node_scheme \<Rightarrow> bool" where
  "connected e \<longleftrightarrow> fe_gw e = [0]"

definition fib_child_new :: "u32 \<Rightarrow> fib_entry \<Rightarrow> fib_node" where
  "fib_child_new addr e =
     \<lparr>fe_addr = addr, fe_pfx = addr, fe_gw = dl_append [] addr, fe_vid = fe_vid e, fe_len = 32,
      fe_group_id = 0, fe_ret_key = []\<rparr>"

definition fib_route :: "u32 \<Rightarrow> 'a fib_st_scheme \<Rightarrow> fib_ref option \<times> 'a fib_st_scheme" where
  "fib_route addr s =
     (case fib_scan s 32 addr of
        Some (i, e) \<Rightarrow>
          if connected e then
            (Some (FR_Child i (fe_addr e) addr),
             (case hash_find fe_addr (children e) addr of
                Some c \<Rightarrow> s
              | None \<Rightarrow>
                  fib_set i (hash_mod fe_addr (fe_addr e)
                    (\<lambda>e. e\<lparr>children := hash_add (fib_child_new addr e) (children e)\<rparr>) (fib_e s i)) s))
          else (Some (FR_Entry i (fe_addr e)), s)
      | None \<Rightarrow>
          ((case fib_e s 0 of [] \<Rightarrow> None | e # _ \<Rightarrow> Some (FR_Entry 0 (fe_addr e))), s))"

text \<open>Reading and writing through a \<open>struct fib_entry *\<close>.\<close>

definition fib_deref :: "fib_ref \<Rightarrow> 'a fib_st_scheme \<Rightarrow> fib_node option" where
  "fib_deref r s =
     (case r of
        FR_Entry i a \<Rightarrow> map_option fib_node.truncate (fib_find i a s)
      | FR_Child i a c \<Rightarrow>
          (case fib_find i a s of None \<Rightarrow> None | Some e \<Rightarrow> hash_find fe_addr (children e) c))"

definition fib_entry_set_group_id :: "fib_ref \<Rightarrow> int \<Rightarrow> 'a fib_st_scheme \<Rightarrow> 'a fib_st_scheme" where
  "fib_entry_set_group_id r gid s =
     (case r of
        FR_Entry i a \<Rightarrow> fib_set i (hash_mod fe_addr a (\<lambda>e. e\<lparr>fe_group_id := gid\<rparr>) (fib_e s i)) s
      | FR_Child i a c \<Rightarrow>
          fib_set i (hash_mod fe_addr a
            (\<lambda>e. e\<lparr>children := hash_mod fe_addr c (\<lambda>x. x\<lparr>fe_group_id := gid\<rparr>) (children e)\<rparr>)
            (fib_e s i)) s)"

section \<open>Deletion\<close>

definition route_del_fib_entry :: "env \<Rightarrow> fib_node \<Rightarrow> 'a fib_st_scheme \<Rightarrow> 'a fib_st_scheme" where
  "route_del_fib_entry E e s =
     (let s = ret_group_del E (fe_group_id e) (fe_pfx e) (fe_len e) s;
          pfx = htonl (e_big_endian E) (fe_pfx e) in
      if fe_len e \<noteq> 0 then snd (crp E (Uc (LpmIpv4UcPrefixDel pfx (fe_len e))) s)
      else lpm_add E pfx (fe_len e) \<lparr>routeEntryBaseIndex = DEFAULT_UC_RE_IDX, ltt_numOfPaths = 0\<rparr> s)"

definition fib_del_entry_with_children :: "env \<Rightarrow> fib_entry \<Rightarrow> 'a fib_st_scheme \<Rightarrow> 'a fib_st_scheme" where
  "fib_del_entry_with_children E e s =
     route_del_fib_entry E (fib_node.truncate e) (fold (route_del_fib_entry E) (children e) s)"

definition fib_del :: "env \<Rightarrow> u32 \<Rightarrow> nat \<Rightarrow> 'a fib_st_scheme \<Rightarrow> bool \<times> 'a fib_st_scheme" where
  "fib_del E addr len s =
     (if \<not> len < 33 then (False, crash s)
      else if len = 0 then
        (case fib_e s 0 of
           [] \<Rightarrow> (False, s)
         | e # _ \<Rightarrow> (True, fib_set 0 [] (fib_del_entry_with_children E e s)))
      else
        let addr = addr AND mkmask len in
        (case fib_find len addr s of
           None \<Rightarrow> (False, s)
         | Some e \<Rightarrow>
             (True, fib_del_entry_with_children E e (fib_set len (hash_del fe_addr addr (fib_e s len)) s))))"

section \<open>Listing\<close>

text \<open>\<open>fib_to_route\<close> fills \<open>gw[8]\<close> from the two parallel lists; more than eight gateways overrun
  it.\<close>

definition fib_to_route :: "bool \<Rightarrow> fib_entry \<Rightarrow> route \<Rightarrow> 'a fib_st_scheme \<Rightarrow> route \<times> 'a fib_st_scheme" where
  "fib_to_route be fib rt s =
     (let rt = rt\<lparr>rt_addr := htonl be (fe_pfx fib), rt_alen := fe_len fib,
                  rt_gw := map (\<lambda>(a, v). \<lparr>gw_addr = htonl be a, gw_vid = v\<rparr>) (zip (fe_gw fib) (fe_vid fib))\<rparr> in
      if length (fe_gw fib) > 8 \<or> length (fe_vid fib) \<noteq> length (fe_gw fib) then (rt, crash s) else (rt, s))"

record rtbd_route_msg =
  rm_dst :: u32
  rm_dst_len :: nat
  rm_gw :: "gw list"

text \<open>The loops of the listings run over the lengths below 32.\<close>

definition fib_listed :: "'a fib_st_scheme \<Rightarrow> fib_entry list" where
  "fib_listed s = concat (map (fib_e s) [0 ..< 32])"

definition fib_get_routes :: "bool \<Rightarrow> 'a fib_st_scheme \<Rightarrow> rtbd_route_msg list" where
  "fib_get_routes be s =
     map (\<lambda>e. \<lparr>rm_dst = htonl be (fe_pfx e), rm_dst_len = fe_len e,
               rm_gw = map (\<lambda>(a, v). \<lparr>gw_addr = htonl be a, gw_vid = v\<rparr>) (zip (fe_gw e) (fe_vid e))\<rparr>)
       (fib_listed s)"

definition fib_get_routes_addr :: "bool \<Rightarrow> bool \<Rightarrow> 'a fib_st_scheme \<Rightarrow> u32 list" where
  "fib_get_routes_addr be is_enable_routing s =
     map (\<lambda>e. ntohl be (fe_addr e))
       (filter (\<lambda>e. is_enable_routing \<longrightarrow> fe_group_id e \<noteq> 0) (fib_listed s))"

section \<open>Properties\<close>

lemma bit_exp_minus_1: "n < 32 \<Longrightarrow> bit (2 ^ n - 1 :: u32) i \<longleftrightarrow> i < n"
  unfolding mask_eq_exp_minus_1 [symmetric] by (auto simp: bit_mask_iff)

lemma bit_mkmask: "n \<le> 32 \<Longrightarrow> bit (mkmask n) i \<longleftrightarrow> i < 32 \<and> 32 \<le> n + i"
  by (cases n) (auto simp: mkmask_def bit_not_iff bit_exp_minus_1 dest: bit_imp_le_length)

lemma mkmask_step: "i < 32 \<Longrightarrow> mkmask (Suc i) AND NOT (push_bit (32 - Suc i) 1) = mkmask i"
proof (rule bit_word_eqI)
  fix n assume "i < 32" "n < LENGTH(32)"
  then show "bit (mkmask (Suc i) AND NOT (push_bit (32 - Suc i) 1)) n = bit (mkmask i) n"
    by (auto simp: bit_and_iff bit_not_iff bit_mkmask bit_exp_iff)
qed

lemma mkmask_32: "mkmask 32 = NOT 0"
  by (rule bit_word_eqI) (simp add: bit_mkmask bit_not_iff)

text \<open>The reference for the lookup: the lengths whose table has the masked address.\<close>

definition fib_match :: "'a fib_st_scheme \<Rightarrow> u32 \<Rightarrow> nat \<Rightarrow> bool" where
  "fib_match s addr j \<longleftrightarrow> (if j = 0 then fib_e s 0 \<noteq> [] else addr AND mkmask j \<in> fe_addr ` set (fib_e s j))"

definition ref_len :: "fib_ref \<Rightarrow> nat" where
  "ref_len r = (case r of FR_Entry i a \<Rightarrow> i | FR_Child i a c \<Rightarrow> i)"

lemma fib_find_match: "0 < j \<Longrightarrow> fib_find j (addr AND mkmask j) s = None \<longleftrightarrow> \<not> fib_match s addr j"
  by (simp add: fib_find_def fib_match_def hash_find_None)

lemma fib_scan_spec:
  "i \<le> 32 \<Longrightarrow>
     (case fib_scan s i (addr AND mkmask i) of
        None \<Rightarrow> \<forall>j. 0 < j \<and> j \<le> i \<longrightarrow> \<not> fib_match s addr j
      | Some (k, e) \<Rightarrow> 0 < k \<and> k \<le> i \<and> fib_match s addr k \<and> fe_addr e = addr AND mkmask k \<and>
          e \<in> set (fib_e s k) \<and> (\<forall>j. k < j \<and> j \<le> i \<longrightarrow> \<not> fib_match s addr j))"
proof (induction i)
  case 0
  then show ?case by simp
next
  case (Suc i)
  show ?case
  proof (cases "fib_find (Suc i) (addr AND mkmask (Suc i)) s")
    case (Some e)
    then have "fib_match s addr (Suc i)" using fib_find_match [of "Suc i" addr s] by simp
    with Some show ?thesis by (auto simp: fib_find_def dest: hash_find_in)
  next
    case None
    then have no: "\<not> fib_match s addr (Suc i)" using fib_find_match [of "Suc i" addr s] by simp
    have "(addr AND mkmask (Suc i)) AND NOT (push_bit (32 - Suc i) 1) = addr AND mkmask i"
      using Suc.prems mkmask_step [of i] by (simp add: and.assoc)
    then have eq: "fib_scan s (Suc i) (addr AND mkmask (Suc i)) = fib_scan s i (addr AND mkmask i)"
      using None by simp
    show ?thesis unfolding eq using Suc.IH Suc.prems no
      by (auto split: option.splits simp: le_Suc_eq)
  qed
qed

text \<open>What a lookup that stops at entry \<open>e\<close> of length \<open>k\<close> refers to: the entry, or the host entry for the
  address below it if it is a connected network (which a default route never is).\<close>

definition lookup_ref :: "nat \<Rightarrow> fib_entry \<Rightarrow> u32 \<Rightarrow> fib_ref" where
  "lookup_ref k e addr =
     (if 0 < k \<and> connected e then FR_Child k (fe_addr e) addr else FR_Entry k (fe_addr e))"

definition best_entry :: "'a fib_st_scheme \<Rightarrow> u32 \<Rightarrow> nat \<Rightarrow> fib_entry \<Rightarrow> bool" where
  "best_entry s addr k e \<longleftrightarrow>
     (if k = 0 then fib_e s 0 \<noteq> [] \<and> e = hd (fib_e s 0)
      else e \<in> set (fib_e s k) \<and> fe_addr e = addr AND mkmask k)"

lemma fib_route_entry:
  "case fst (fib_route addr s) of
     None \<Rightarrow> \<forall>j \<le> 32. \<not> fib_match s addr j
   | Some r \<Rightarrow> \<exists>k e. k \<le> 32 \<and> best_entry s addr k e \<and> r = lookup_ref k e addr \<and> fib_match s addr k \<and>
       (\<forall>j. k < j \<and> j \<le> 32 \<longrightarrow> \<not> fib_match s addr j)"
proof (cases "fib_scan s 32 addr")
  case None
  have "addr AND mkmask 32 = addr" by (simp add: mkmask_32)
  with fib_scan_spec [where i = 32 and s = s and addr = addr] None
  have no: "\<forall>j. 0 < j \<and> j \<le> 32 \<longrightarrow> \<not> fib_match s addr j" by simp
  show ?thesis
  proof (cases "fib_e s 0")
    case Nil
    with None no show ?thesis by (auto simp: fib_route_def fib_match_def)
  next
    case (Cons e es)
    with no show ?thesis
      by (auto simp: fib_route_def None best_entry_def lookup_ref_def fib_match_def intro!: exI [of _ 0] exI [of _ e])
  qed
next
  case (Some x)
  obtain k e where x: "x = (k, e)" by fastforce
  have "addr AND mkmask 32 = addr" by (simp add: mkmask_32)
  with fib_scan_spec [where i = 32 and s = s and addr = addr] Some x
  have "0 < k" "k \<le> 32" "fib_match s addr k" "fe_addr e = addr AND mkmask k" "e \<in> set (fib_e s k)"
    "\<forall>j. k < j \<and> j \<le> 32 \<longrightarrow> \<not> fib_match s addr j" by simp_all
  with Some x show ?thesis
    by (auto simp: fib_route_def best_entry_def lookup_ref_def intro!: exI [of _ k] exI [of _ e])
qed

lemma fib_route_spec:
  "case fst (fib_route addr s) of
     None \<Rightarrow> \<forall>j \<le> 32. \<not> fib_match s addr j
   | Some r \<Rightarrow> ref_len r \<le> 32 \<and> fib_match s addr (ref_len r) \<and> (\<forall>j. ref_len r < j \<and> j \<le> 32 \<longrightarrow> \<not> fib_match s addr j)"
proof -
  have "ref_len (lookup_ref k e addr) = k" for k e by (simp add: lookup_ref_def ref_len_def)
  with fib_route_entry [where addr = addr and s = s] show ?thesis by (auto split: option.splits)
qed

text \<open>C10. \<open>fib_route\<close> is longest-prefix match: it finds nothing exactly when no length matches the
  address, and otherwise the entry whose prefix of the greatest matching length is the address
  masked to that length (the default route counting as length 0), or the host entry of the
  address below that one if its network is connected.\<close>

theorem fib_route_longest_prefix:
  "case fst (fib_route addr s) of
     None \<Rightarrow> {j. j \<le> 32 \<and> fib_match s addr j} = {}
   | Some r \<Rightarrow> {j. j \<le> 32 \<and> fib_match s addr j} \<noteq> {} \<and>
       (\<exists>e. best_entry s addr (Max {j. j \<le> 32 \<and> fib_match s addr j}) e \<and>
          r = lookup_ref (Max {j. j \<le> 32 \<and> fib_match s addr j}) e addr)"
proof (cases "fst (fib_route addr s)")
  case None
  with fib_route_entry [where addr = addr and s = s] show ?thesis by auto
next
  case (Some r)
  let ?M = "{j. j \<le> 32 \<and> fib_match s addr j}"
  from Some fib_route_entry [where addr = addr and s = s] obtain k e where
    ke: "k \<le> 32" "best_entry s addr k e" "r = lookup_ref k e addr" "fib_match s addr k"
      "\<forall>j. k < j \<and> j \<le> 32 \<longrightarrow> \<not> fib_match s addr j" by auto
  then have "k \<in> ?M" "\<And>j. j \<in> ?M \<Longrightarrow> j \<le> k" by (auto simp: not_less [symmetric])
  moreover have "finite ?M" by simp
  ultimately have "Max ?M = k" by (intro Max_eqI) auto
  with ke Some show ?thesis by auto
qed

lemma fib_entry_add_gw_keys [simp]:
  "fe_addr (fib_entry_add_gw be g e) = fe_addr e" "fe_pfx (fib_entry_add_gw be g e) = fe_pfx e"
  "fe_len (fib_entry_add_gw be g e) = fe_len e" "fe_group_id (fib_entry_add_gw be g e) = fe_group_id e"
  "children (fib_entry_add_gw be g e) = children e"
  by (simp_all add: fib_entry_add_gw_def Let_def)

lemma fib_entry_add_gws_keys [simp]:
  "fe_addr (fib_entry_add_gws be gs e) = fe_addr e" "fe_pfx (fib_entry_add_gws be gs e) = fe_pfx e"
  "fe_len (fib_entry_add_gws be gs e) = fe_len e" "fe_group_id (fib_entry_add_gws be gs e) = fe_group_id e"
  "children (fib_entry_add_gws be gs e) = children e"
  unfolding fib_entry_add_gws_def by (induction gs arbitrary: e) simp_all

lemma cmp_uint32_0 [simp]: "route_list_uint32_cmp a b = 0 \<longleftrightarrow> a = b"
  by (auto simp: route_list_uint32_cmp_def)

lemma dl_search_uint32: "dl_search route_list_uint32_cmp xs v = None \<longleftrightarrow> v \<notin> set xs"
  by (auto simp: dl_search_None)

text \<open>The gateways recorded: the distinct addresses, in order, each with the VLAN it came with
  first; the three lists of the entry stay in step.\<close>

lemma fib_entry_add_gws_distinct:
  assumes "distinct (map gw_addr gs)" and "set (map (ntohl be \<circ> gw_addr) gs) \<inter> set (fe_gw e) = {}"
  shows "fe_gw (fib_entry_add_gws be gs e) = fe_gw e @ map (ntohl be \<circ> gw_addr) gs \<and>
         fe_vid (fib_entry_add_gws be gs e) = fe_vid e @ map gw_vid gs"
  using assms
proof (induction gs arbitrary: e)
  case Nil
  then show ?case by (simp add: fib_entry_add_gws_def)
next
  case (Cons g gs)
  let ?e = "fib_entry_add_gw be g e"
  have new: "dl_search route_list_uint32_cmp (fe_gw e) (ntohl be (gw_addr g)) = None"
    using Cons.prems(2) by (simp add: dl_search_uint32)
  have e: "fe_gw ?e = fe_gw e @ [ntohl be (gw_addr g)]" "fe_vid ?e = fe_vid e @ [gw_vid g]"
    using new by (simp_all add: fib_entry_add_gw_def Let_def dl_append_def)
  have "fe_gw (fib_entry_add_gws be gs ?e) = fe_gw ?e @ map (ntohl be \<circ> gw_addr) gs \<and>
      fe_vid (fib_entry_add_gws be gs ?e) = fe_vid ?e @ map gw_vid gs"
    using Cons.prems by (intro Cons.IH) (auto simp: e)
  then show ?case by (simp add: fib_entry_add_gws_def e)
qed

text \<open>C34. Adding a new prefix of length 1 to 32 with gateways of distinct addresses makes
  \<open>fib_get\<close> return an entry with exactly those gateways, in order and in host byte order, and
  changes the result of no other lookup.\<close>

theorem fib_add_get:
  assumes len: "0 < len" "len < 33" and new: "fib_find len (addr AND mkmask len) s = None"
    and gws: "distinct (map gw_addr gws)"
  shows "\<exists>e. fst (fib_get addr len (fib_add E addr len gws s)) = Some e \<and> fe_pfx e = addr \<and> fe_len e = len \<and>
      fe_gw e = map (ntohl (e_big_endian E) \<circ> gw_addr) gws \<and> fe_vid e = map gw_vid gws \<and> fe_group_id e = 0 \<and>
      (\<forall>l a. (l, a) \<noteq> (len, addr AND mkmask len) \<longrightarrow> fib_find l a (fib_add E addr len gws s) = fib_find l a s)"
proof -
  let ?e = "fib_entry_add_gws (e_big_endian E) gws (fib_entry_new (addr AND mkmask len) addr len)"
  have add: "fib_add E addr len gws s = fib_set len (hash_add ?e (fib_e s len)) s"
    using len new by (simp add: fib_add_def Let_def)
  have none: "hash_find fe_addr (fib_e s len) (addr AND mkmask len) = None" using new by (simp add: fib_find_def)
  have look: "hash_find fe_addr (hash_add ?e t) a = (case hash_find fe_addr t a of None \<Rightarrow> if a = addr AND mkmask len then Some ?e else None | Some x \<Rightarrow> Some x)"
    for t a by (auto simp: hash_find_def hash_add_def find_append fib_entry_new_def split: option.splits)
  have "fst (fib_get addr len (fib_add E addr len gws s)) = Some ?e"
    using len none by (simp add: add fib_get_def fib_find_def fib_set_def look)
  moreover have "fib_find l a (fib_add E addr len gws s) = fib_find l a s" if "(l, a) \<noteq> (len, addr AND mkmask len)" for l a
    using that none by (auto simp: add fib_find_def fib_set_def look split: option.splits)
  moreover have "fe_gw ?e = map (ntohl (e_big_endian E) \<circ> gw_addr) gws \<and> fe_vid ?e = map gw_vid gws"
    using fib_entry_add_gws_distinct [OF gws, of "e_big_endian E" "fib_entry_new (addr AND mkmask len) addr len"]
    by (simp add: fib_entry_new_def)
  ultimately show ?thesis by (intro exI [of _ ?e]) (simp add: fib_entry_new_def)
qed

definition fib0 :: fib_st where "fib0 = pbr_st.extend pbr0 (fib_st.fields (\<lambda>_. []))"

theorem fib_add_get_witness:
  "map_option fe_gw (fst (fib_get 0x0A010203 16 (fib_add env0 0x0A010203 16 [\<lparr>gw_addr = 1, gw_vid = 2\<rparr>] fib0))) = Some [1]"
proof -
  have "fib_find 16 (0x0A010203 AND mkmask 16) fib0 = None" by (simp add: fib_find_def fib0_def pbr_st.defs fib_st.defs)
  with fib_add_get [of 16 "0x0A010203" fib0 "[\<lparr>gw_addr = 1, gw_vid = 2\<rparr>]" env0]
  show ?thesis by (auto simp: ntohl_def env0_def)
qed

end
