(* ===== verification/Route.thy ===== *)
theory Route
  imports Fib
begin

text \<open>
  The routing front end for IPv4 (\<open>src/route.c\<close>): adding, deleting and changing routes,
  the packets trapped because their destination has no route entry yet
  (\<open>route_handle_udt\<close>), management addresses, and the reinstallation of a gateway's prefixes.
\<close>

section \<open>Adding routes\<close>

text \<open>The tail that \<open>route_add\<close> and \<open>route_add_change\<close> share: packets of the default route go to
  the CPU, those of the other prefixes to the entry \<open>base\<close>.\<close>

definition route_install :: "env \<Rightarrow> int \<Rightarrow> route \<Rightarrow> 'a fib_st_scheme \<Rightarrow> 'a fib_st_scheme" where
  "route_install E base rt s =
     (if rt_alen rt = 0 then
        snd (for_each_dev E (\<lambda>d. Uc (UcRouteEntriesWrite d DEFAULT_UC_RE_IDX
          (uc_zero\<lparr>uc_cmd := CMD_TRAP_TO_CPU, uc_cpuCodeIdx := 1\<rparr>))) s)
      else lpm_add E (rt_addr rt) (rt_alen rt) \<lparr>routeEntryBaseIndex = base, ltt_numOfPaths = 0\<rparr> s)"

definition route_add :: "env \<Rightarrow> route \<Rightarrow> 'a fib_st_scheme \<Rightarrow> status \<times> 'a fib_st_scheme" where
  "route_add E rt s =
     (ST_OK, route_install E TRAP_RE_IDX rt
        (fib_add E (ntohl (e_big_endian E) (rt_addr rt)) (rt_alen rt) (rt_gw rt) s))"

definition route_add_change :: "env \<Rightarrow> route \<Rightarrow> 'a fib_st_scheme \<Rightarrow> status \<times> 'a fib_st_scheme" where
  "route_add_change E rt s =
     (ST_OK, route_install E DROP_RE_IDX rt
        (fib_add E (ntohl (e_big_endian E) (rt_addr rt)) (rt_alen rt) (rt_gw rt) s))"

definition route_del :: "env \<Rightarrow> route \<Rightarrow> 'a fib_st_scheme \<Rightarrow> status \<times> 'a fib_st_scheme" where
  "route_del E rt s =
     (ST_OK, snd (fib_del E (ntohl (e_big_endian E) (rt_addr rt)) (rt_alen rt) s))"

section \<open>Packets without a route entry\<close>

text \<open>\<open>gw_arr[8]\<close> is filled from the two lists of the entry; a ninth gateway overruns it.\<close>

definition route_request_mac_addr :: "env \<Rightarrow> fib_ref \<Rightarrow> fib_node \<Rightarrow> nat \<Rightarrow> 'a fib_st_scheme \<Rightarrow> 'a fib_st_scheme" where
  "route_request_mac_addr E r e alen s =
     (let s = (if length (fe_gw e) > 8 \<or> length (fe_vid e) \<noteq> length (fe_gw e) then crash s else s);
          gw_arr = map (\<lambda>(a, v). \<lparr>gw_addr = htonl (e_big_endian E) a, gw_vid = v\<rparr>) (zip (fe_gw e) (fe_vid e)) in
      case ret_group_add E gw_arr (fe_pfx e) alen s of (gid, s) \<Rightarrow> fib_entry_set_group_id r gid s)"

definition route_handle_udaddr :: "env \<Rightarrow> u32 \<Rightarrow> 'a fib_st_scheme \<Rightarrow> 'a fib_st_scheme" where
  "route_handle_udaddr E daddr s =
     (case fib_route daddr s of
        (None, s) \<Rightarrow> s
      | (Some r, s) \<Rightarrow>
          (case fib_deref r s of
             None \<Rightarrow> crash s
           | Some e \<Rightarrow>
               if fe_group_id e \<noteq> 0 then s
               else let alen = (if fe_gw e \<noteq> [] then fe_len e else 32) in
                 route_request_mac_addr E r e alen s))"

definition MIN_IPv4_PKT_LEN :: int where "MIN_IPv4_PKT_LEN = 12 + 2 + 20"

text \<open>A byte of the frame; the frame is not longer than its stated length.\<close>

definition frame_byte :: "u8 list \<Rightarrow> nat \<Rightarrow> u8" where
  "frame_byte data n = (if n < length data then data ! n else 0)"

text \<open>The four bytes at \<open>data + 30\<close>, loaded as a host integer and put in host order: the
  first byte is the most significant.\<close>

definition frame_daddr :: "u8 list \<Rightarrow> u32" where
  "frame_daddr data =
     push_bit 24 (ucast (frame_byte data 30)) OR push_bit 16 (ucast (frame_byte data 31))
       OR push_bit 8 (ucast (frame_byte data 32)) OR ucast (frame_byte data 33)"

definition route_handle_udt :: "env \<Rightarrow> u8 list \<Rightarrow> int \<Rightarrow> 'a fib_st_scheme \<Rightarrow> 'a fib_st_scheme" where
  "route_handle_udt E data len s =
     (if len < MIN_IPv4_PKT_LEN then s
      else if frame_byte data 12 \<noteq> 0x08 \<or> frame_byte data 13 \<noteq> 0x00 then s
      else
        let daddr = frame_daddr data;
            s = (if master_id s = stack_id s then emit (Msg (MacOpUdt daddr)) s else s) in
        route_handle_udaddr E daddr s)"

section \<open>Changing routes\<close>

definition route_change :: "env \<Rightarrow> route \<Rightarrow> 'a fib_st_scheme \<Rightarrow> status \<times> 'a fib_st_scheme" where
  "route_change E rt s =
     (let daddr = ntohl (e_big_endian E) (rt_addr rt) in
      case fib_get daddr (rt_alen rt) s of (fib, s) \<Rightarrow>
        let gid = (case fib of None \<Rightarrow> 0 | Some e \<Rightarrow> fe_group_id e);
            s = snd (route_del E rt s) in
        if gid \<noteq> 0 then (ST_OK, route_handle_udaddr E daddr (snd (route_add_change E rt s)))
        else (ST_OK, snd (route_add E rt s)))"

text \<open>
  \<open>route_reset_prefixes4gw\<close>: the \<open>if\<close> guards only the conversion; \<open>route_del\<close> and \<open>route_add\<close>
  run on an uninitialised route where the prefix is not in the table.
\<close>

definition rt_zero :: route where
  "rt_zero = \<lparr>rt_addr = 0, rt_addrv6 = [], rt_alen = 0, rt_gw = [], rt_gw_v6 = [], rt_vid = 0\<rparr>"

definition route_reset_prefixes4gw :: "env \<Rightarrow> u32 \<Rightarrow> nat \<Rightarrow> 'a fib_st_scheme \<Rightarrow> 'a fib_st_scheme" where
  "route_reset_prefixes4gw E addr alen s =
     (case fib_get (ntohl (e_big_endian E) addr) alen s of
        (None, s) \<Rightarrow> crash s
      | (Some fib, s) \<Rightarrow>
          (case fib_to_route (e_big_endian E) fib rt_zero s of (rt, s) \<Rightarrow>
             snd (route_add E rt (snd (route_del E rt s)))))"

text \<open>\<open>fib_clear_routing\<close> of \<open>src/fib.c\<close>: every entry of the lengths below 32 is deleted.\<close>

definition fib_clear_routing :: "env \<Rightarrow> 'a fib_st_scheme \<Rightarrow> 'a fib_st_scheme" where
  "fib_clear_routing E s =
     fold (\<lambda>i s. fold (\<lambda>e s.
         case fib_to_route (e_big_endian E) e rt_zero s of (rt, s) \<Rightarrow> snd (route_del E rt s))
       (fib_e s i) s) [0 ..< 32] s"

text \<open>\<open>ret_clear_devs_res\<close> of \<open>src/ret.c\<close>: the prefixes of every gateway that sits on a device
  of the bitmap are reinstalled. \<open>fe\<close> and \<open>xg\<close> are the first and last port types.\<close>

definition ret_clear_devs_res :: "env \<Rightarrow> nat \<Rightarrow> u32 \<Rightarrow> 'a fib_st_scheme \<Rightarrow> 'a fib_st_scheme" where
  "ret_clear_devs_res E xg dbmp s =
     (let on_devs = (\<lambda>re. in_range (vif_type (re_vif_id re)) (e_vift_fe E) xg \<and>
                          push_bit (vif_dev (re_vif_id re)) 1 AND dbmp \<noteq> 0);
          users = fold (\<lambda>gid l. case ret_group_get gid s of None \<Rightarrow> l | Some g \<Rightarrow> ret_group_copy_pfx_pbr l g)
                    (concat (map re_group_ids (filter on_devs (ret s)))) [] in
      fold (\<lambda>u s. case u of ROUTE_PFX addr alen \<Rightarrow> route_reset_prefixes4gw E addr alen s
                          | ROUTE_PBR ix i \<Rightarrow> s) users s)"

section \<open>Management addresses\<close>

definition route_add_mgmt_ip :: "env \<Rightarrow> u32 \<Rightarrow> 'a sw_scheme \<Rightarrow> status \<times> 'a sw_scheme" where
  "route_add_mgmt_ip E ga s =
     (case crp E (Uc (LpmIpv4UcPrefixAdd ga 32 \<lparr>routeEntryBaseIndex = MGMT_IP_RE_IDX, ltt_numOfPaths = 0\<rparr>)) s of
        (GT_OK, s) \<Rightarrow> (ST_OK, s)
      | (_, s) \<Rightarrow> (ST_HEX, s))"

definition route_del_mgmt_ip :: "env \<Rightarrow> u32 \<Rightarrow> 'a sw_scheme \<Rightarrow> status \<times> 'a sw_scheme" where
  "route_del_mgmt_ip E ga s =
     (case crp E (Uc (LpmIpv4UcPrefixDel ga 32)) s of
        (GT_OK, s) \<Rightarrow> (ST_OK, s)
      | (GT_NOT_FOUND, s) \<Rightarrow> (ST_DOES_NOT_EXIST, s)
      | (_, s) \<Rightarrow> (ST_HEX, s))"

definition route_add_mgmt_ipv6 :: "env \<Rightarrow> ipv6 \<Rightarrow> 'a sw_scheme \<Rightarrow> status \<times> 'a sw_scheme" where
  "route_add_mgmt_ipv6 E ga s =
     (case crp E (Uc (LpmIpv6UcPrefixAdd ga 128 \<lparr>routeEntryBaseIndex = MGMT_IP_RE_IDX, ltt_numOfPaths = 0\<rparr>)) s of
        (GT_OK, s) \<Rightarrow> (ST_OK, s)
      | (_, s) \<Rightarrow> (ST_HEX, s))"

definition route_del_mgmt_ipv6 :: "env \<Rightarrow> ipv6 \<Rightarrow> 'a sw_scheme \<Rightarrow> status \<times> 'a sw_scheme" where
  "route_del_mgmt_ipv6 E ga s =
     (case crp E (Uc (LpmIpv6UcPrefixDel ga 128)) s of
        (GT_OK, s) \<Rightarrow> (ST_OK, s)
      | (GT_NOT_FOUND, s) \<Rightarrow> (ST_DOES_NOT_EXIST, s)
      | (_, s) \<Rightarrow> (ST_HEX, s))"

end
