(* ===== verification/Ret_Inv.thy ===== *)
theory Ret_Inv
  imports Ret_Mac
begin

text \<open>
  The invariant of ECMP groups. \<open>slots_ok V f n l\<close> is the discipline of one group: the
  gateways in \<open>V\<close> (those resolved) occupy the slots \<open>f .. f + n\<close>, each exactly one, the others
  point to the drop entry. The state invariant \<open>grp_inv\<close> adds that runs of different groups are
  disjoint and recorded as used, that gateways and groups name each other, and that the
  hardware route entry of every resolved gateway is the gateway's.
\<close>

section \<open>The slots of one group\<close>

definition slots_ok :: "gw set \<Rightarrow> int \<Rightarrow> int \<Rightarrow> re_idx list \<Rightarrow> bool" where
  "slots_ok V f n l \<longleftrightarrow>
     distinct (map ri_gw l) \<and> -1 \<le> n \<and>
     (\<forall>x \<in> set l. ri_gw x \<notin> V \<longrightarrow> ri_idx x = DROP_RE_IDX) \<and>
     (\<forall>x \<in> set l. ri_gw x \<in> V \<longrightarrow> f \<le> ri_idx x \<and> ri_idx x \<le> f + n) \<and>
     (\<forall>x \<in> set l. \<forall>y \<in> set l. ri_gw x \<in> V \<longrightarrow> ri_gw y \<in> V \<longrightarrow> ri_idx x = ri_idx y \<longrightarrow> ri_gw x = ri_gw y) \<and>
     (\<forall>i. f \<le> i \<and> i \<le> f + n \<longrightarrow> (\<exists>x \<in> set l. ri_gw x \<in> V \<and> ri_idx x = i))"

lemma list_re_idx_cmp_0 [simp]: "list_re_idx_cmp a b = 0 \<longleftrightarrow> ri_gw a = ri_gw b"
  by (cases "ri_gw a", cases "ri_gw b") (auto simp: list_re_idx_cmp_def)

lemma list_re_idx_cmp2_0 [simp]: "list_re_idx_cmp2 a b = 0 \<longleftrightarrow> ri_idx a = ri_idx b"
  by (auto simp: list_re_idx_cmp2_def)

definition map_idx :: "(gw \<Rightarrow> int \<Rightarrow> int) \<Rightarrow> re_idx list \<Rightarrow> re_idx list" where
  "map_idx h l = map (\<lambda>x. x\<lparr>ri_idx := h (ri_gw x) (ri_idx x)\<rparr>) l"

abbreviation set_idx :: "gw \<Rightarrow> int \<Rightarrow> re_idx list \<Rightarrow> re_idx list" where
  "set_idx w k \<equiv> map_idx (\<lambda>g i. if g = w then k else i)"

lemma upd1_map:
  "distinct (map key l) \<Longrightarrow> (\<And>x. x \<in> set l \<Longrightarrow> P x \<longleftrightarrow> key x = a) \<Longrightarrow>
     upd1 P f l = map (\<lambda>x. if key x = a then f x else x) l"
proof (induction l)
  case Nil
  then show ?case by simp
next
  case (Cons y ys)
  show ?case
  proof (cases "key y = a")
    case True
    then have "\<forall>x \<in> set ys. key x \<noteq> a" using Cons.prems(1) by (auto simp: rev_image_eqI)
    with True Cons.prems(2) show ?thesis by (auto intro: map_idI [symmetric])
  next
    case False
    with Cons show ?thesis by simp
  qed
qed

lemma set_map_idx:
  "y \<in> set (map_idx h l) \<longleftrightarrow> (\<exists>x \<in> set l. ri_gw y = ri_gw x \<and> ri_idx y = h (ri_gw x) (ri_idx x))"
proof -
  have eq: "y = x\<lparr>ri_idx := k\<rparr> \<longleftrightarrow> ri_gw y = ri_gw x \<and> ri_idx y = k" for x k
    by (cases x, cases y) auto
  show ?thesis unfolding map_idx_def set_map image_iff eq ..
qed

lemma map_gw_map_idx [simp]: "map ri_gw (map_idx h l) = map ri_gw l"
  by (simp add: map_idx_def)

lemma length_map_idx [simp]: "length (map_idx h l) = length l"
  by (simp add: map_idx_def)

lemma map_idx_map_idx: "map_idx h (map_idx h' l) = map_idx (\<lambda>g i. h g (h' g i)) l"
  by (simp add: map_idx_def)

lemma list_set_idx_gw:
  "distinct (map ri_gw l) \<Longrightarrow> list_set_idx list_re_idx_cmp e k l = set_idx (ri_gw e) k l"
  unfolding list_set_idx_def map_idx_def by (subst upd1_map [where key = ri_gw and a = "ri_gw e"]) auto

lemma slots_okD:
  assumes "slots_ok V f n l"
  shows "distinct (map ri_gw l)" and "-1 \<le> n"
    and "\<And>x. x \<in> set l \<Longrightarrow> ri_gw x \<notin> V \<Longrightarrow> ri_idx x = DROP_RE_IDX"
    and "\<And>x. x \<in> set l \<Longrightarrow> ri_gw x \<in> V \<Longrightarrow> f \<le> ri_idx x"
    and "\<And>x. x \<in> set l \<Longrightarrow> ri_gw x \<in> V \<Longrightarrow> ri_idx x \<le> f + n"
    and "\<And>x y. x \<in> set l \<Longrightarrow> y \<in> set l \<Longrightarrow> ri_gw x \<in> V \<Longrightarrow> ri_gw y \<in> V \<Longrightarrow> ri_idx x = ri_idx y \<Longrightarrow>
           ri_gw x = ri_gw y"
    and "\<And>i. f \<le> i \<Longrightarrow> i \<le> f + n \<Longrightarrow> \<exists>x \<in> set l. ri_gw x \<in> V \<and> ri_idx x = i"
  using assms unfolding slots_ok_def by blast+

lemma slots_okI:
  assumes "distinct (map ri_gw l)" and "-1 \<le> n"
    and "\<And>x. x \<in> set l \<Longrightarrow> ri_gw x \<notin> V \<Longrightarrow> ri_idx x = DROP_RE_IDX"
    and "\<And>x. x \<in> set l \<Longrightarrow> ri_gw x \<in> V \<Longrightarrow> f \<le> ri_idx x \<and> ri_idx x \<le> f + n"
    and "\<And>x y. x \<in> set l \<Longrightarrow> y \<in> set l \<Longrightarrow> ri_gw x \<in> V \<Longrightarrow> ri_gw y \<in> V \<Longrightarrow> ri_idx x = ri_idx y \<Longrightarrow>
           ri_gw x = ri_gw y"
    and "\<And>i. f \<le> i \<Longrightarrow> i \<le> f + n \<Longrightarrow> \<exists>x \<in> set l. ri_gw x \<in> V \<and> ri_idx x = i"
  shows "slots_ok V f n l"
  using assms unfolding slots_ok_def by blast

lemma slots_ok_cover: "slots_ok V f n l \<Longrightarrow> {f .. f + n} \<subseteq> ri_idx ` {y \<in> set l. ri_gw y \<in> V}"
  using slots_okD(7) by (fastforce simp: image_iff)

lemma card_slots_le: "{f .. f + n} \<subseteq> ri_idx ` A \<Longrightarrow> finite A \<Longrightarrow> nat (n + 1) \<le> card A"
  using card_mono [of "ri_idx ` A" "{f .. f + n}"] card_image_le [of A ri_idx] by simp

lemma slots_ok_count:
  assumes ok: "slots_ok V f n l" and x: "x \<in> set l" "ri_gw x \<notin> V"
  shows "n + 1 < int (length l)"
proof -
  let ?A = "{y \<in> set l. ri_gw y \<in> V}"
  have "nat (n + 1) \<le> card ?A" using card_slots_le [OF slots_ok_cover [OF ok]] by simp
  moreover have "card ?A < card (set l)" using x by (intro psubset_card_mono) auto
  moreover have "card (set l) \<le> length l" by (rule card_length)
  ultimately show ?thesis by linarith
qed

lemma slots_ok_bound: "slots_ok V f n l \<Longrightarrow> n < int (length l)"
  using card_slots_le [OF slots_ok_cover] card_mono [of "set l" "{y \<in> set l. ri_gw y \<in> V}"] card_length [of l]
  by fastforce

text \<open>A gateway comes up: it takes the slot after the last.\<close>

lemma slots_ok_enable:
  assumes ok: "slots_ok V f n l" and w: "w \<notin> V" "w \<in> ri_gw ` set l"
  shows "slots_ok (insert w V) f (n + 1) (set_idx w (f + n + 1) l)"
proof -
  note D = slots_okD [OF ok]
  have below: "ri_idx z \<noteq> f + n + 1" if "z \<in> set l" "ri_gw z \<in> V" for z
    using D(5) [OF that] by linarith
  show ?thesis
  proof (rule slots_okI, goal_cases)
    case 1 with D(1) show ?case by simp
  next
    case 2 with D(2) show ?case by simp
  next
    case (3 x) with D(3) show ?case by (auto simp: set_map_idx)
  next
    case (4 x) with D(2,4,5) show ?case by (fastforce simp: set_map_idx)
  next
    case (5 x y) with D(6) below show ?case by (auto simp: set_map_idx split: if_splits) metis+
  next
    case (6 i)
    show ?case
    proof (cases "i = f + n + 1")
      case True
      with w(2) obtain x where "x \<in> set l" "ri_gw x = w" by auto
      with True show ?thesis by (intro bexI [of _ "\<lparr>ri_gw = w, ri_idx = i\<rparr>"]) (auto simp: set_map_idx)
    next
      case False
      with 6 have "i \<le> f + n" by linarith
      with D(7) 6 obtain x where "x \<in> set l" "ri_gw x \<in> V" "ri_idx x = i" by blast
      with w show ?thesis by (intro bexI [of _ x]) (auto simp: set_map_idx)
    qed
  qed
qed

text \<open>A gateway goes down: the holder of the last slot takes its place.\<close>

lemma slots_ok_disable:
  assumes ok: "slots_ok V f n l" and w: "w \<in> V"
    and x: "x \<in> set l" "ri_gw x = w" and y: "y \<in> set l" "ri_gw y \<in> V" "ri_idx y = f + n"
  shows "slots_ok (V - {w}) f (n - 1)
    (map_idx (\<lambda>g i. if g = w then DROP_RE_IDX else if g = ri_gw y then ri_idx x else i) l)"
proof -
  note D = slots_okD [OF ok]
  have key: "a = b" if "a \<in> set l" "b \<in> set l" "ri_gw a = ri_gw b" for a b
    using D(1) that by (auto simp: distinct_map dest: inj_onD)
  have last: "ri_idx z < f + n" if "z \<in> set l" "ri_gw z \<in> V" "ri_gw z \<noteq> ri_gw y" for z
    using D(5) [OF that(1,2)] D(6) [OF that(1) y(1) that(2) y(2)] that(3) y(3) by fastforce
  have mine: "ri_idx z \<noteq> ri_idx x" if "z \<in> set l" "ri_gw z \<in> V" "ri_gw z \<noteq> w" for z
    using D(6) [OF that(1) x(1) that(2)] that(3) x(2) w by auto
  show ?thesis
  proof (rule slots_okI, goal_cases)
    case 1 with D(1) show ?case by simp
  next
    case 2 from D(4) [OF y(1,2)] y(3) show ?case by linarith
  next
    case (3 z) with D(3) show ?case using y(2) by (auto simp: set_map_idx split: if_splits)
  next
    case (4 z)
    then obtain a where a: "a \<in> set l" "ri_gw z = ri_gw a" "ri_gw a \<in> V" "ri_gw a \<noteq> w"
      "ri_idx z = (if ri_gw a = ri_gw y then ri_idx x else ri_idx a)"
      by (auto simp: set_map_idx)
    have "ri_gw y \<noteq> w \<Longrightarrow> ri_idx x < f + n" using last [of x] x w by auto
    with a last [of a] D(4) [of a] D(4) [of x] x w show ?case by (auto split: if_splits)
  next
    case (5 a b) with D(6) mine show ?case by (auto simp: set_map_idx split: if_splits) metis+
  next
    case (6 i)
    from 6 D(7) obtain z where z: "z \<in> set l" "ri_gw z \<in> V" "ri_idx z = i" by fastforce
    with 6 y(3) have zy: "ri_gw z \<noteq> ri_gw y" using key [of z y] y(1) by auto
    show ?case
    proof (cases "ri_gw z = w")
      case True
      with z x have "i = ri_idx x" using key by blast
      with True zy y show ?thesis
        by (intro bexI [of _ "\<lparr>ri_gw = ri_gw y, ri_idx = i\<rparr>"]) (auto simp: set_map_idx)
    next
      case False
      with z zy show ?thesis by (intro bexI [of _ z]) (auto simp: set_map_idx)
    qed
  qed
qed

lemma slots_ok_cong:
  "(\<And>x. x \<in> set l \<Longrightarrow> ri_gw x \<in> V \<longleftrightarrow> ri_gw x \<in> V') \<Longrightarrow> slots_ok V f n l = slots_ok V' f n l"
  unfolding slots_ok_def by (intro conj_cong refl ball_cong iff_allI) (auto cong: imp_cong)

section \<open>Hardware entries of gateways\<close>

text \<open>The route entry that stands for a gateway; none where its interface does not exist.\<close>

definition re_hw :: "env \<Rightarrow> 'a vif_st_scheme \<Rightarrow> re \<Rightarrow> uc_route_entry option" where
  "re_hw E s re =
     (case fst (vif_getn E (re_vif_id re) s) of
        None \<Rightarrow> None
      | Some r \<Rightarrow> Some (re_route_entry (fst (fill_cpss_if r s)) (re_nh_idx re) (gw_vid (re_gw re))))"

text \<open>The tables a lookup of interfaces depends on.\<close>

definition vif_same :: "'a vif_st_scheme \<Rightarrow> 'b vif_st_scheme \<Rightarrow> bool" where
  "vif_same s s' \<longleftrightarrow> stack_id s = stack_id s' \<and> n_by_type s = n_by_type s' \<and> n_total s = n_total s' \<and>
     vif_port s = vif_port s' \<and> dev_map s = dev_map s'"

lemma vif_same_get: "vif_same s s' \<Longrightarrow> fst (vif_getn E i s) = fst (vif_getn E i s')"
  by (auto simp: vif_same_def vif_getn_def vif_get_def type_base_def Let_def)

lemma vif_same_fill: "vif_same s s' \<Longrightarrow> fst (fill_cpss_if r s) = fst (fill_cpss_if r s')"
  by (auto simp: vif_same_def fill_cpss_if_def vif_fill_cpss_if_port_def phys_dev_def split: vif_ref.splits)

lemma vif_same_hw: "vif_same s s' \<Longrightarrow> re_hw E s re = re_hw E s' re"
  by (simp add: re_hw_def vif_same_get [of s s'] vif_same_fill [of s s'] cong: option.case_cong)

lemma vif_same_wf: "vif_same s s' \<Longrightarrow> vif_wf E s = vif_wf E s'"
  by (simp add: vif_same_def vif_wf_def type_base_def)

lemma uc_entry_dev_writes:
  "uc_entry_at (dev_writes E (\<lambda>d. Uc (UcRouteEntriesWrite d k v)) @ h) d i =
     (if d < e_ndevs E \<and> i = k then Some v else uc_entry_at h d i)"
proof -
  have "uc_entry_at (rev (map (\<lambda>d. Uc (UcRouteEntriesWrite d k v)) [0 ..< n]) @ h) d i =
     (if d < n \<and> i = k then Some v else uc_entry_at h d i)" for n
    by (induction n) (auto simp: uc_write_def)
  then show ?thesis by (simp add: dev_writes_def)
qed

lemma ret_set_re_to_idx_eq:
  assumes "vif_wf E s" and "re_hw E s re = Some v"
  shows "ret_set_re_to_idx E re k s = s\<lparr>hw := dev_writes E (\<lambda>d. Uc (UcRouteEntriesWrite d k v)) @ hw s\<rparr>"
proof -
  from assms(2) obtain r where r: "fst (vif_getn E (re_vif_id re) s) = Some r"
    "v = re_route_entry (fst (fill_cpss_if r s)) (re_nh_idx re) (gw_vid (re_gw re))"
    by (auto simp: re_hw_def split: option.splits)
  then have "vif_getn E (re_vif_id re) s = (Some r, s)" using vif_getn_state [OF assms(1)]
    by (metis prod.collapse)
  moreover obtain ifc where "fill_cpss_if r s = (ifc, s)" using fill_cpss_if_state [OF assms(1)]
    by (metis prod.collapse)
  ultimately show ?thesis
    using r(2) by (simp add: ret_set_re_to_idx_def)
qed

text \<open>Calls that leave the route entries alone.\<close>

definition uc_silent :: "effect list \<Rightarrow> effect list \<Rightarrow> bool" where
  "uc_silent h h' \<longleftrightarrow> (\<forall>d i. uc_entry_at h' d i = uc_entry_at h d i)"

lemma uc_silent_refl [simp]: "uc_silent h h"
  by (simp add: uc_silent_def)

lemma uc_silent_trans: "uc_silent h h' \<Longrightarrow> uc_silent h' h'' \<Longrightarrow> uc_silent h h''"
  by (simp add: uc_silent_def)

lemma uc_silent_Cons: "(\<And>d i. uc_write d i e = None) \<Longrightarrow> uc_silent h (e # h)"
  by (simp add: uc_silent_def)

lemma uc_silent_append: "(\<And>e d i. e \<in> set es \<Longrightarrow> uc_write d i e = None) \<Longrightarrow> uc_silent h (es @ h)"
  by (induction es) (auto simp: uc_silent_def)

lemma ltt_write_devs_eq:
  "\<exists>h. ltt_write_devs E ds ix e s = s\<lparr>hw := h\<rparr> \<and> uc_silent (hw s) h"
proof (induction ds arbitrary: s)
  case Nil
  show ?case by (intro exI [of _ "hw s"]) (simp add: ltt_write_devs_def)
next
  case (Cons d ds)
  let ?s = "emit (Uc (LttWrite d (row ix) (colum ix) e)) s"
  have s: "uc_silent (hw s) (hw ?s)" by (auto intro!: uc_silent_Cons simp: uc_write_def)
  from Cons.IH [of ?s] obtain h where "ltt_write_devs E ds ix e ?s = ?s\<lparr>hw := h\<rparr>" "uc_silent (hw ?s) h"
    by blast
  with s show ?case
    by (intro exI [of _ h]) (auto simp: ltt_write_devs_def crp_def emit_def intro: uc_silent_trans)
qed

lemma ret_group_ltt_tcam_set_eq:
  "\<exists>h. snd (ret_group_ltt_tcam_set E ix i g s) = s\<lparr>hw := h\<rparr> \<and> uc_silent (hw s) h"
proof -
  have "\<exists>h. s = s\<lparr>hw := h\<rparr> \<and> uc_silent (hw s) h" by (intro exI [of _ "hw s"]) simp
  then show ?thesis
    using ltt_write_devs_eq
    by (auto simp: ret_group_ltt_tcam_set_def split: pcl_interface_type.split prod.split status.split option.split)
qed

lemma lpm_add_eq: "lpm_add E a l e s = s\<lparr>hw := Uc (LpmIpv4UcPrefixAdd a l e) # hw s\<rparr>"
  by (simp add: lpm_add_def crp_def emit_def)

lemma lpm_add_silent: "uc_silent h (Uc (LpmIpv4UcPrefixAdd a l e) # h)"
  by (rule uc_silent_Cons) (simp add: uc_write_def)

lemma group_user_update_eq: "\<exists>h. group_user_update E g u s = s\<lparr>hw := h\<rparr> \<and> uc_silent (hw s) h"
  unfolding group_user_update_def
  by (cases u) (auto simp: lpm_add_eq lpm_add_silent ret_group_ltt_tcam_set_eq)

lemma fold_hw_silent:
  assumes "\<And>x s. \<exists>h. f x s = s\<lparr>hw := h\<rparr> \<and> uc_silent (hw s) h"
  shows "\<exists>h. fold f xs s = s\<lparr>hw := h\<rparr> \<and> uc_silent (hw s) h"
proof (induction xs arbitrary: s)
  case Nil
  show ?case by (intro exI [of _ "hw s"]) simp
next
  case (Cons x xs)
  from assms [of x s] obtain h where h: "f x s = s\<lparr>hw := h\<rparr>" "uc_silent (hw s) h" by blast
  from Cons.IH [of "f x s"] obtain h' where "fold f xs (f x s) = (f x s)\<lparr>hw := h'\<rparr>" "uc_silent (hw (f x s)) h'"
    by blast
  with h show ?case by (intro exI [of _ h']) (auto intro: uc_silent_trans)
qed

lemma ret_group_update_lpm_table_eq:
  "\<exists>h. ret_group_update_lpm_table E g s = s\<lparr>hw := h\<rparr> \<and> uc_silent (hw s) h"
  unfolding ret_group_update_lpm_table_def by (rule fold_hw_silent) (rule group_user_update_eq)

section \<open>The state invariant\<close>

text \<open>
  \<open>V\<close> gives the gateways each group counts as resolved and \<open>X\<close> those whose hardware entry may
  be stale in it; while a change of one gateway is being passed to its groups they differ
  between groups.
\<close>

definition group_ok :: "env \<Rightarrow> gw set \<Rightarrow> gw set \<Rightarrow> 'a grp_st_scheme \<Rightarrow> re_group \<Rightarrow> bool" where
  "group_ok E V X s g \<longleftrightarrow>
     re_count g = int (length (re_idx g)) \<and>
     slots_ok V (first_idx g) (numOfPaths g) (re_idx g) \<and>
     {first_idx g ..< first_idx g + re_count g} \<subseteq> set (ret_indexes_used s) \<and>
     (\<forall>x \<in> set (re_idx g). \<exists>re \<in> set (ret s). re_gw re = ri_gw x \<and> group_id g \<in> set (re_group_ids re)) \<and>
     (\<forall>x \<in> set (re_idx g). \<forall>re \<in> set (ret s). \<forall>d < e_ndevs E.
        ri_gw x \<in> V - X \<longrightarrow> re_gw re = ri_gw x \<longrightarrow> uc_entry_at (hw s) d (ri_idx x) = re_hw E s re)"

definition re_ok :: "'a grp_st_scheme \<Rightarrow> re \<Rightarrow> bool" where
  "re_ok s re \<longleftrightarrow>
     distinct (re_group_ids re) \<and> re_group_ids re \<noteq> [] \<and>
     (\<forall>gid \<in> set (re_group_ids re). \<exists>g \<in> set (re_group s). group_id g = gid \<and> re_gw re \<in> ri_gw ` set (re_idx g))"

definition runs_disjoint :: "re_group list \<Rightarrow> bool" where
  "runs_disjoint gs \<longleftrightarrow>
     (\<forall>g \<in> set gs. \<forall>g' \<in> set gs. group_id g \<noteq> group_id g' \<longrightarrow>
        {first_idx g ..< first_idx g + re_count g} \<inter> {first_idx g' ..< first_idx g' + re_count g'} = {})"

lemma runs_disjoint_map:
  "runs_disjoint gs \<Longrightarrow> set gs' = f ` set gs \<Longrightarrow>
     (\<And>a. a \<in> set gs \<Longrightarrow> group_id (f a) = group_id a \<and> first_idx (f a) = first_idx a \<and> re_count (f a) = re_count a) \<Longrightarrow>
     runs_disjoint gs'"
  unfolding runs_disjoint_def by simp

definition grp_base :: "env \<Rightarrow> 'a grp_st_scheme \<Rightarrow> bool" where
  "grp_base E s \<longleftrightarrow>
     vif_wf E s \<and> res_ok s \<and> keys_distinct re_gw (ret s) \<and> keys_distinct group_id (re_group s) \<and>
     distinct (group_ids s) \<and> group_id ` set (re_group s) \<subseteq> set (group_ids s) \<and>
     runs_disjoint (re_group s) \<and>
     (\<forall>re \<in> set (ret s). re_ok s re \<and> (re_valid re \<longrightarrow> re_hw E s re \<noteq> None))"

definition grp_inv_v :: "env \<Rightarrow> (int \<Rightarrow> gw set) \<Rightarrow> (int \<Rightarrow> gw set) \<Rightarrow> 'a grp_st_scheme \<Rightarrow> bool" where
  "grp_inv_v E V X s \<longleftrightarrow>
     grp_base E s \<and> (\<forall>g \<in> set (re_group s). group_ok E (V (group_id g)) (X (group_id g)) s g)"

definition valid_gws :: "'a ret_st_scheme \<Rightarrow> gw set" where
  "valid_gws s = re_gw ` {re \<in> set (ret s). re_valid re}"

definition grp_inv :: "env \<Rightarrow> 'a grp_st_scheme \<Rightarrow> bool" where
  "grp_inv E s \<longleftrightarrow> grp_inv_v E (\<lambda>_. valid_gws s) (\<lambda>_. {}) s"

text \<open>The parts of the state the invariant reads.\<close>

lemma grp_inv_v_cong:
  assumes "vif_same s' s" and "ret s' = ret s" and "re_group s' = re_group s"
    and "ret_indexes_used s' = ret_indexes_used s" and "group_ids s' = group_ids s"
    and "uc_silent (hw s) (hw s')" and inv: "grp_inv_v E V X s"
  shows "grp_inv_v E V X s'"
proof -
  have "uc_entry_at (hw s') = uc_entry_at (hw s)"
    using assms(6) by (auto simp: uc_silent_def fun_eq_iff)
  note eqs = this assms(2-5) vif_same_hw [OF assms(1)] vif_same_wf [OF assms(1)]
  have "grp_inv_v E V X s' = grp_inv_v E V X s"
    unfolding grp_inv_v_def grp_base_def group_ok_def re_ok_def res_ok_def by (simp only: eqs)
  with inv show ?thesis by simp
qed

lemma group_okD:
  assumes "group_ok E V X s g"
  shows "re_count g = int (length (re_idx g))"
    and "slots_ok V (first_idx g) (numOfPaths g) (re_idx g)"
    and "{first_idx g ..< first_idx g + re_count g} \<subseteq> set (ret_indexes_used s)"
    and "\<And>x. x \<in> set (re_idx g) \<Longrightarrow> \<exists>re \<in> set (ret s). re_gw re = ri_gw x \<and> group_id g \<in> set (re_group_ids re)"
    and "\<And>x re d. x \<in> set (re_idx g) \<Longrightarrow> re \<in> set (ret s) \<Longrightarrow> d < e_ndevs E \<Longrightarrow> ri_gw x \<in> V - X \<Longrightarrow>
           re_gw re = ri_gw x \<Longrightarrow> uc_entry_at (hw s) d (ri_idx x) = re_hw E s re"
  using assms unfolding group_ok_def by blast+

lemma group_ok_transfer:
  assumes "group_ok E V X s g" and "ret t = ret s" and "ret_indexes_used t = ret_indexes_used s"
    and "\<And>re. re_hw E t re = re_hw E s re"
    and "\<And>x d. x \<in> set (re_idx g) \<Longrightarrow> ri_gw x \<in> V \<Longrightarrow> uc_entry_at (hw t) d (ri_idx x) = uc_entry_at (hw s) d (ri_idx x)"
  shows "group_ok E V X t g"
  using assms(1) unfolding group_ok_def assms(2-4) by (intro conjI) (simp_all only: assms(5) DiffD1 simp_thms, (metis DiffD1 assms(5))+)

lemma group_ok_slot:
  assumes "group_ok E V X s g" and "x \<in> set (re_idx g)" and "ri_gw x \<in> V"
  shows "first_idx g \<le> ri_idx x \<and> ri_idx x < first_idx g + re_count g"
proof -
  have ok: "slots_ok V (first_idx g) (numOfPaths g) (re_idx g)" and c: "re_count g = int (length (re_idx g))"
    using assms(1) by (simp_all add: group_ok_def)
  show ?thesis using slots_okD(4,5) [OF ok assms(2,3)] slots_ok_bound [OF ok] c by linarith
qed

text \<open>A change of one group, with a write of one slot of its run: the other groups are not
  touched.\<close>

lemma grp_inv_v_change:
  assumes inv: "grp_inv_v E V X s" and g: "g \<in> set (re_group s)"
    and g': "group_id g' = group_id g" "first_idx g' = first_idx g" "re_count g' = re_count g"
      "map ri_gw (re_idx g') = map ri_gw (re_idx g)"
    and k: "first_idx g \<le> k" "k < first_idx g + re_count g"
    and h: "\<And>d i. i \<noteq> k \<Longrightarrow> uc_entry_at h d i = uc_entry_at (hw s) d i"
    and new: "group_ok E V1 X1 (s\<lparr>hw := h\<rparr>) g'"
  shows "grp_inv_v E (V(group_id g := V1)) (X(group_id g := X1)) ((group_put g' s)\<lparr>hw := h\<rparr>)"
proof -
  obtain t where t: "t = (group_put g' s)\<lparr>hw := h\<rparr>" by blast
  have gws: "ri_gw ` set (re_idx g') = ri_gw ` set (re_idx g)" using g'(4) by (metis list.set_map)
  have base: "grp_base E s" and kd: "keys_distinct group_id (re_group s)"
    and disj: "runs_disjoint (re_group s)"
    using inv by (simp_all add: grp_inv_v_def grp_base_def)
  have fields: "ret t = ret s" "ret_indexes_used t = ret_indexes_used s" "group_ids t = group_ids s" "hw t = h"
    by (simp_all add: t group_put_def)
  have vs: "vif_same t s" and vs': "vif_same (s\<lparr>hw := h\<rparr>) s"
    by (simp_all add: vif_same_def t group_put_def)
  have re_hw: "re_hw E t re = re_hw E s re" "re_hw E (s\<lparr>hw := h\<rparr>) re = re_hw E s re" for re
    using vif_same_hw [OF vs] vif_same_hw [OF vs'] by auto
  have key: "a = g" if "a \<in> set (re_group s)" "group_id a = group_id g" for a
    using kd that g by (auto simp: distinct_map dest: inj_onD)
  have tbl: "re_group t = map (\<lambda>a. if group_id a = group_id g then g' else a) (re_group s)"
    using upd1_map [OF kd, of "\<lambda>e. group_id e = group_id g" "group_id g" "\<lambda>_. g'"]
    by (simp add: t group_put_def hash_mod_def g'(1))
  have ids: "map group_id (re_group t) = map group_id (re_group s)"
    by (simp add: tbl g'(1))
  then have idset: "group_id ` set (re_group t) = group_id ` set (re_group s)" by (metis list.set_map)
  have set_tbl: "set (re_group t) = (\<lambda>a. if a = g then g' else a) ` set (re_group s)"
    unfolding tbl using key by force
  have "runs_disjoint (re_group t)"
    by (rule runs_disjoint_map [OF disj set_tbl]) (simp add: g')
  moreover have "re_ok t re" if "re \<in> set (ret s)" for re
  proof -
    have ok: "re_ok s re" using base that by (simp add: grp_base_def)
    show ?thesis
      unfolding re_ok_def set_tbl
    proof (intro conjI ballI)
      fix gid assume "gid \<in> set (re_group_ids re)"
      with ok obtain a where a: "a \<in> set (re_group s)" "group_id a = gid" "re_gw re \<in> ri_gw ` set (re_idx a)"
        by (auto simp: re_ok_def)
      then show "\<exists>b \<in> (\<lambda>a. if a = g then g' else a) ` set (re_group s).
          group_id b = gid \<and> re_gw re \<in> ri_gw ` set (re_idx b)"
        by (intro bexI [of _ "if a = g then g' else a"]) (auto simp: g' gws)
    qed (use ok in \<open>auto simp: re_ok_def\<close>)
  qed
  ultimately have "grp_base E t"
    using base by (simp add: grp_base_def res_ok_def fields ids idset re_hw vif_same_wf [OF vs])
  moreover have "group_ok E ((V(group_id g := V1)) (group_id a)) ((X(group_id g := X1)) (group_id a)) t a"
    if "a \<in> set (re_group t)" for a
  proof (cases "group_id a = group_id g")
    case True
    with that key have "a = g'" unfolding set_tbl by (auto split: if_splits)
    have "group_ok E V1 X1 t g'"
      by (rule group_ok_transfer [OF new]) (simp_all add: fields re_hw)
    with True \<open>a = g'\<close> show ?thesis by simp
  next
    case False
    with that have a: "a \<in> set (re_group s)" "group_ok E (V (group_id a)) (X (group_id a)) s a"
      using inv g' unfolding set_tbl by (auto simp: grp_inv_v_def split: if_splits)
    have "ri_idx x \<noteq> k" if "x \<in> set (re_idx a)" "ri_gw x \<in> V (group_id a)" for x
      using group_ok_slot [OF a(2) that] disj a(1) g False k unfolding runs_disjoint_def
      by (metis atLeastLessThan_iff disjoint_iff)
    then have "group_ok E (V (group_id a)) (X (group_id a)) t a"
      by (intro group_ok_transfer [OF a(2)]) (simp_all add: fields re_hw h)
    with False show ?thesis by simp
  qed
  ultimately show ?thesis unfolding t [symmetric] by (simp add: grp_inv_v_def)
qed

section \<open>Passing a change to one group\<close>

lemma grp_inv_v_base:
  assumes "grp_inv_v E V X s"
  shows "vif_wf E s" and "keys_distinct re_gw (ret s)" and "keys_distinct group_id (re_group s)"
    and "\<And>re. re \<in> set (ret s) \<Longrightarrow> re_valid re \<Longrightarrow> \<exists>v. re_hw E s re = Some v"
    and "\<And>re. re \<in> set (ret s) \<Longrightarrow> re_ok s re" and "res_ok s"
    and "\<And>g. g \<in> set (re_group s) \<Longrightarrow> group_ok E (V (group_id g)) (X (group_id g)) s g"
  using assms by (auto simp: grp_inv_v_def grp_base_def)

lemma re_unique:
  "keys_distinct re_gw t \<Longrightarrow> a \<in> set t \<Longrightarrow> b \<in> set t \<Longrightarrow> re_gw a = re_gw b \<Longrightarrow> a = b"
  by (auto simp: distinct_map dest: inj_onD)

lemma group_put_frame:
  "ret (group_put g s) = ret s" "ret_indexes_used (group_put g s) = ret_indexes_used s"
  "group_ids (group_put g s) = group_ids s" "hw (group_put g s) = hw s"
  "vif_same (group_put g s) s"
  by (simp_all add: group_put_def vif_same_def)

text \<open>The result of a write of the gateway \<open>re\<close> to slot \<open>k\<close> and of the update of the prefix tables.\<close>

lemma write_and_update:
  assumes "vif_wf E s" and "re_hw E s re = Some v"
  obtains h where "ret_group_update_lpm_table E g' (ret_set_re_to_idx E re k (group_put g s)) = (group_put g s)\<lparr>hw := h\<rparr>"
    and "\<And>d i. uc_entry_at h d i = (if d < e_ndevs E \<and> i = k then Some v else uc_entry_at (hw s) d i)"
proof -
  have "ret_set_re_to_idx E re k (group_put g s) =
      (group_put g s)\<lparr>hw := dev_writes E (\<lambda>d. Uc (UcRouteEntriesWrite d k v)) @ hw s\<rparr>"
    using ret_set_re_to_idx_eq [of E "group_put g s" re v k] assms
      vif_same_wf [OF group_put_frame(5), of E g s] vif_same_hw [OF group_put_frame(5), of E g s]
    by (simp add: group_put_frame)
  moreover obtain h where
    "ret_group_update_lpm_table E g' ((group_put g s)\<lparr>hw := dev_writes E (\<lambda>d. Uc (UcRouteEntriesWrite d k v)) @ hw s\<rparr>)
       = (group_put g s)\<lparr>hw := h\<rparr>"
    "uc_silent (dev_writes E (\<lambda>d. Uc (UcRouteEntriesWrite d k v)) @ hw s) h"
    using ret_group_update_lpm_table_eq [of E g' "(group_put g s)\<lparr>hw := dev_writes E (\<lambda>d. Uc (UcRouteEntriesWrite d k v)) @ hw s\<rparr>"]
    by auto
  ultimately show thesis
    by (intro that [of h]) (simp_all add: uc_silent_def uc_entry_dev_writes)
qed

lemma enable_step:
  assumes inv: "grp_inv_v E V X s" and g: "g \<in> set (re_group s)" and re: "re \<in> set (ret s)" "re_valid re"
    and w: "re_gw re \<in> ri_gw ` set (re_idx g)" "re_gw re \<notin> V (group_id g)"
  shows "grp_inv_v E (V(group_id g := insert (re_gw re) (V (group_id g))))
           (X(group_id g := X (group_id g) - {re_gw re})) (ret_group_gw_changed_enable E g re s) \<and>
         (\<exists>t h. ret_group_gw_changed_enable E g re s = s\<lparr>re_group := t, hw := h\<rparr>)"
proof -
  note base = grp_inv_v_base [OF inv]
  let ?w = "re_gw re" and ?k = "first_idx g + numOfPaths g + 1"
  let ?g = "g\<lparr>numOfPaths := numOfPaths g + 1, re_idx := set_idx ?w ?k (re_idx g)\<rparr>"
  have ok: "group_ok E (V (group_id g)) (X (group_id g)) s g" using base(7) g .
  then have sl: "slots_ok (V (group_id g)) (first_idx g) (numOfPaths g) (re_idx g)"
    and c: "re_count g = int (length (re_idx g))" by (rule group_okD)+
  note D = slots_okD [OF sl]
  obtain v where v: "re_hw E s re = Some v" using base(4) re by blast
  obtain h where res: "ret_group_update_lpm_table E ?g (ret_set_re_to_idx E re ?k (group_put ?g s)) = (group_put ?g s)\<lparr>hw := h\<rparr>"
    and h: "\<And>d i. uc_entry_at h d i = (if d < e_ndevs E \<and> i = ?k then Some v else uc_entry_at (hw s) d i)"
    using write_and_update [OF base(1) v] by blast
  have eq: "ret_group_gw_changed_enable E g re s = (group_put ?g s)\<lparr>hw := h\<rparr>"
    unfolding res [symmetric] using D(1)
    by (simp add: ret_group_gw_changed_enable_def Let_def list_set_idx_gw)
  have k: "first_idx g \<le> ?k" "?k < first_idx g + re_count g"
    using D(2) slots_ok_count [OF sl] w c by auto
  have new: "group_ok E (insert ?w (V (group_id g))) (X (group_id g) - {?w}) (s\<lparr>hw := h\<rparr>) ?g"
    unfolding group_ok_def
  proof (intro conjI ballI allI impI, goal_cases)
    case 1 with c show ?case by simp
  next
    case 2 with slots_ok_enable [OF sl w(2,1)] show ?case by simp
  next
    case 3 with group_okD(3) [OF ok] show ?case by simp
  next
    case (4 x) with group_okD(4) [OF ok] show ?case by (fastforce simp: set_map_idx)
  next
    case (5 x r d)
    have hw: "re_hw E (s\<lparr>hw := h\<rparr>) r = re_hw E s r" by (rule vif_same_hw) (simp add: vif_same_def)
    show ?case
    proof (cases "re_gw r = ?w")
      case True
      with re_unique [OF base(2) _ re(1)] 5(2) have "r = re" by simp
      with 5 True hw v show ?thesis by (auto simp: set_map_idx h)
    next
      case False
      with 5 obtain y where y: "y \<in> set (re_idx g)" "ri_gw y = re_gw r" "ri_idx x = ri_idx y"
        by (auto simp: set_map_idx split: if_splits)
      with 5 False have V: "re_gw r \<in> V (group_id g)" "re_gw r \<notin> X (group_id g)" by auto
      with D(5) [OF y(1)] y have "ri_idx y \<noteq> ?k" by auto
      with group_okD(5) [OF ok y(1), of r d] 5 y V hw show ?thesis by (simp add: h)
    qed
  qed
  have "grp_inv_v E (V(group_id g := insert ?w (V (group_id g)))) (X(group_id g := X (group_id g) - {?w}))
      ((group_put ?g s)\<lparr>hw := h\<rparr>)"
    by (rule grp_inv_v_change [OF inv g _ _ _ _ k _ new]) (simp_all add: h)
  then show ?thesis
    unfolding eq by (auto simp: group_put_def)
qed

lemma grp_inv_v_stale:
  "grp_inv_v E V X s \<Longrightarrow> (\<And>i. X i \<subseteq> X' i) \<Longrightarrow> grp_inv_v E V X' s"
  unfolding grp_inv_v_def group_ok_def by blast

lemma enable_changed_step:
  assumes inv: "grp_inv_v E V X s" and g: "g \<in> set (re_group s)" and re: "re \<in> set (ret s)" "re_valid re"
    and w: "re_gw re \<in> ri_gw ` set (re_idx g)" "re_gw re \<in> V (group_id g)"
  shows "grp_inv_v E V (X(group_id g := X (group_id g) - {re_gw re})) (ret_group_gw_changed_enable_changed E g re s) \<and>
         (\<exists>t h. ret_group_gw_changed_enable_changed E g re s = s\<lparr>re_group := t, hw := h\<rparr>)"
proof -
  note base = grp_inv_v_base [OF inv]
  have ok: "group_ok E (V (group_id g)) (X (group_id g)) s g" using base(7) g .
  then have sl: "slots_ok (V (group_id g)) (first_idx g) (numOfPaths g) (re_idx g)"
    and c: "re_count g = int (length (re_idx g))" by (rule group_okD)+
  note D = slots_okD [OF sl]
  have key: "a = b" if "a \<in> set (re_idx g)" "b \<in> set (re_idx g)" "ri_gw a = ri_gw b" for a b
    using D(1) that by (auto simp: distinct_map dest: inj_onD)
  obtain out where out: "dl_search list_re_idx_cmp (re_idx g) \<lparr>ri_gw = re_gw re, ri_idx = 0\<rparr> = Some out"
    using w(1) by (cases "dl_search list_re_idx_cmp (re_idx g) \<lparr>ri_gw = re_gw re, ri_idx = 0\<rparr>")
      (auto simp: dl_search_None)
  then have om: "out \<in> set (re_idx g)" "ri_gw out = re_gw re"
    by (auto simp: dl_search_def dest!: find_SomeD)
  obtain v where v: "re_hw E s re = Some v" using base(4) re by blast
  obtain h where h: "h = dev_writes E (\<lambda>d. Uc (UcRouteEntriesWrite d (ri_idx out) v)) @ hw s" by blast
  then have h': "uc_entry_at h d i = (if d < e_ndevs E \<and> i = ri_idx out then Some v else uc_entry_at (hw s) d i)" for d i
    by (simp add: uc_entry_dev_writes)
  have eq: "ret_group_gw_changed_enable_changed E g re s = s\<lparr>hw := h\<rparr>"
    by (simp add: ret_group_gw_changed_enable_changed_def out ret_set_re_to_idx_eq [OF base(1) v] h)
  have put: "group_put g s = s"
  proof -
    have "hash_mod group_id (group_id g) (\<lambda>_. g) (re_group s) =
        map (\<lambda>a. if group_id a = group_id g then g else a) (re_group s)"
      unfolding hash_mod_def by (rule upd1_map [OF base(3)]) simp
    also have "\<dots> = re_group s"
      using base(3) g by (intro map_idI) (auto simp: distinct_map dest: inj_onD)
    finally show ?thesis by (simp add: group_put_def)
  qed
  have new: "group_ok E (V (group_id g)) (X (group_id g) - {re_gw re}) (s\<lparr>hw := h\<rparr>) g"
    unfolding group_ok_def
  proof (intro conjI ballI allI impI, goal_cases)
    case 1 show ?case by (rule c)
  next
    case 2 show ?case by (rule sl)
  next
    case 3 with group_okD(3) [OF ok] show ?case by simp
  next
    case (4 x) with group_okD(4) [OF ok] show ?case by simp
  next
    case (5 x r d)
    have hw: "re_hw E (s\<lparr>hw := h\<rparr>) r = re_hw E s r" by (rule vif_same_hw) (simp add: vif_same_def)
    have r: "r \<in> set (ret s)" using 5 by simp
    show ?case
    proof (cases "re_gw r = re_gw re")
      case True
      with re_unique [OF base(2) r re(1)] have "r = re" .
      moreover have "x = out" using key [OF 5(1) om(1)] 5 True om(2) by simp
      ultimately show ?thesis using 5 hw v by (simp add: h')
    next
      case False
      with 5 have "ri_gw x \<in> V (group_id g)" "ri_gw x \<noteq> ri_gw out" using om by auto
      with D(6) [OF 5(1) om(1)] om w have "ri_idx x \<noteq> ri_idx out" by auto
      with group_okD(5) [OF ok 5(1) r, of d] 5 False hw show ?thesis by (simp add: h')
    qed
  qed
  have "grp_inv_v E (V(group_id g := V (group_id g))) (X(group_id g := X (group_id g) - {re_gw re}))
      ((group_put g s)\<lparr>hw := h\<rparr>)"
    by (rule grp_inv_v_change [OF inv g _ _ _ _ _ _ _ new, of "ri_idx out"])
      (use group_ok_slot [OF ok om(1)] om w in \<open>auto simp: h'\<close>)
  then show ?thesis unfolding eq put by (auto intro!: exI [of _ "re_group s"])
qed

lemma disable_step:
  assumes inv: "grp_inv_v E V X s" and g: "g \<in> set (re_group s)"
    and w: "re_gw re \<in> ri_gw ` set (re_idx g)" "re_gw re \<in> V (group_id g)"
    and X: "X (group_id g) \<subseteq> {re_gw re}"
    and others: "\<And>x. x \<in> V (group_id g) \<Longrightarrow> x \<in> ri_gw ` set (re_idx g) \<Longrightarrow> x \<noteq> re_gw re \<Longrightarrow> x \<in> valid_gws s"
  shows "grp_inv_v E (V(group_id g := V (group_id g) - {re_gw re})) X (ret_group_gw_changed_disable E g re s) \<and>
         (\<exists>t h. ret_group_gw_changed_disable E g re s = s\<lparr>re_group := t, hw := h\<rparr>)"
proof -
  note base = grp_inv_v_base [OF inv]
  let ?w = "re_gw re" and ?V = "V (group_id g)" and ?n = "numOfPaths g" and ?f = "first_idx g" and ?l = "re_idx g"
  have ok: "group_ok E ?V (X (group_id g)) s g" using base(7) g .
  then have sl: "slots_ok ?V ?f ?n ?l" and c: "re_count g = int (length ?l)" by (rule group_okD)+
  note D = slots_okD [OF sl]
  have key: "a = b" if "a \<in> set ?l" "b \<in> set ?l" "ri_gw a = ri_gw b" for a b
    using D(1) that by (auto simp: distinct_map dest: inj_onD)
  let ?elt = "\<lparr>ri_gw = ?w, ri_idx = 0\<rparr>"
  obtain out where out: "dl_search list_re_idx_cmp ?l ?elt = Some out"
    using w(1) by (cases "dl_search list_re_idx_cmp ?l ?elt") (auto simp: dl_search_None)
  then have om: "out \<in> set ?l" "ri_gw out = ?w"
    by (auto simp: dl_search_def dest!: find_SomeD)
  have n: "0 \<le> ?n" and k: "?f \<le> ri_idx out" "ri_idx out < ?f + re_count g"
    using D(4,5) [OF om(1)] group_ok_slot [OF ok om(1)] om w by auto
  have "?f \<in> set (ret_indexes_used s)" using group_okD(3) [OF ok] k by auto
  then have drop: "DROP_RE_IDX < ?f" using base(6) by (auto simp: res_ok_def re_idx_defs)
  obtain y where y: "y \<in> set ?l" "ri_gw y \<in> ?V" "ri_idx y = ?f + ?n" using D(7) [of "?f + ?n"] n by auto
  let ?l1 = "set_idx ?w DROP_RE_IDX ?l"
  let ?l2 = "map_idx (\<lambda>g i. if g = ?w then DROP_RE_IDX else if g = ri_gw y then ri_idx out else i) ?l"
  let ?g = "g\<lparr>re_idx := ?l2, numOfPaths := ?n - 1\<rparr>"
  have slots: "slots_ok (?V - {?w}) ?f (?n - 1) ?l2" by (rule slots_ok_disable [OF sl w(2) om y])
  have last: "ri_idx x = ?f + ?n \<longleftrightarrow> ri_gw x = ri_gw y \<and> ri_gw y \<noteq> ?w" if x: "x \<in> set ?l1" for x
  proof -
    obtain a where a: "a \<in> set ?l" "ri_gw x = ri_gw a" "ri_idx x = (if ri_gw a = ?w then DROP_RE_IDX else ri_idx a)"
      using x unfolding set_map_idx by blast
    have "ri_idx a = ?f + ?n \<longleftrightarrow> ri_gw a = ri_gw y"
      using D(3) [OF a(1)] D(6) [OF a(1) y(1)] y drop n key [OF a(1) y(1)] by fastforce
    with a drop n show ?thesis by auto
  qed
  have new: "group_ok E (?V - {?w}) (X (group_id g)) (s\<lparr>hw := h\<rparr>) ?g"
    if H: "\<And>d i. i \<noteq> ri_idx out \<Longrightarrow> uc_entry_at h d i = uc_entry_at (hw s) d i"
      and Y: "ri_gw y \<noteq> ?w \<Longrightarrow> \<exists>rz \<in> set (ret s). re_gw rz = ri_gw y \<and>
                (\<forall>d < e_ndevs E. uc_entry_at h d (ri_idx out) = re_hw E s rz)" for h
    unfolding group_ok_def
  proof (intro conjI ballI allI impI, goal_cases)
    case 1 with c show ?case by simp
  next
    case 2 with slots show ?case by simp
  next
    case 3 with group_okD(3) [OF ok] show ?case by simp
  next
    case (4 x) with group_okD(4) [OF ok] show ?case by (fastforce simp: set_map_idx)
  next
    case (5 x r d)
    have hw: "re_hw E (s\<lparr>hw := h\<rparr>) r = re_hw E s r" by (rule vif_same_hw) (simp add: vif_same_def)
    have r: "r \<in> set (ret s)" using 5 by simp
    obtain a where a: "a \<in> set ?l" "ri_gw x = ri_gw a" "ri_gw a \<in> ?V" "ri_gw a \<noteq> ?w"
      "ri_idx x = (if ri_gw a = ri_gw y then ri_idx out else ri_idx a)"
      using 5 by (auto simp: set_map_idx)
    show ?case
    proof (cases "ri_gw a = ri_gw y")
      case True
      with Y a(4) obtain rz where rz: "rz \<in> set (ret s)" "re_gw rz = ri_gw y"
        "\<forall>d < e_ndevs E. uc_entry_at h d (ri_idx out) = re_hw E s rz" by auto
      with re_unique [OF base(2) r rz(1)] 5 a True have "r = rz" by simp
      with rz 5 a True hw show ?thesis by simp
    next
      case False
      have "ri_idx a \<noteq> ri_idx out" using D(6) [OF a(1) om(1) a(3)] om w a(4) by auto
      moreover have "ri_gw a \<in> ?V - X (group_id g)" using a X by auto
      ultimately show ?thesis using group_okD(5) [OF ok a(1) r, of d] 5 a False hw by (simp add: H)
    qed
  qed
  show ?thesis
  proof (cases "ri_gw y = ?w")
    case True
    then have l2: "?l2 = ?l1" by (simp add: map_idx_def)
    have "dl_search list_re_idx_cmp2 ?l1 \<lparr>ri_gw = ?w, ri_idx = ?f + ?n\<rparr> = None"
      using last True by (auto simp: dl_search_None)
    then have "ret_group_gw_changed_disable E g re s = ret_group_update_lpm_table E ?g (group_put ?g s)"
      using n D(1) by (simp add: ret_group_gw_changed_disable_def out Let_def list_set_idx_gw l2)
    then obtain h where eq: "ret_group_gw_changed_disable E g re s = (group_put ?g s)\<lparr>hw := h\<rparr>"
      and h: "uc_silent (hw s) h"
      using ret_group_update_lpm_table_eq [of E ?g "group_put ?g s"] by (auto simp: group_put_frame)
    have "group_ok E (?V - {?w}) (X (group_id g)) (s\<lparr>hw := h\<rparr>) ?g"
      using h True by (intro new) (simp_all add: uc_silent_def)
    then have "grp_inv_v E (V(group_id g := ?V - {?w})) (X(group_id g := X (group_id g))) ((group_put ?g s)\<lparr>hw := h\<rparr>)"
      by (rule grp_inv_v_change [OF inv g _ _ _ _ k, rotated -1])
        (use h in \<open>simp_all add: uc_silent_def\<close>)
    then show ?thesis unfolding eq by (auto simp: group_put_def)
  next
    case False
    then obtain rz where rz: "rz \<in> set (ret s)" "re_gw rz = ri_gw y" "re_valid rz"
      using others [of "ri_gw y"] y by (auto simp: valid_gws_def)
    then obtain v where v: "re_hw E s rz = Some v" using base(4) by blast
    have find: "hash_find re_gw (ret s) (ri_gw y) = Some rz"
      using rz base(2) by (simp add: hash_find_iff)
    have "0 < ?n" using n D(5) [OF om(1)] D(4) [OF om(1)] D(6) [OF om(1) y(1)] om w y False by fastforce
    have "y \<in> set ?l1" using y(1) False by (auto simp: set_map_idx)
    with y(3) have "dl_search list_re_idx_cmp2 ?l1 \<lparr>ri_gw = ?w, ri_idx = ?f + ?n\<rparr> \<noteq> None"
      by (auto simp: dl_search_None)
    then obtain m where m: "dl_search list_re_idx_cmp2 ?l1 \<lparr>ri_gw = ?w, ri_idx = ?f + ?n\<rparr> = Some m" by blast
    then have "m \<in> set ?l1" "ri_idx m = ?f + ?n" by (auto simp: dl_search_def dest!: find_SomeD)
    with last have my: "ri_gw m = ri_gw y" by blast
    have "list_set_idx list_re_idx_cmp2 \<lparr>ri_gw = ?w, ri_idx = ?f + ?n\<rparr> (ri_idx out) ?l1 = ?l2"
    proof -
      have "list_set_idx list_re_idx_cmp2 \<lparr>ri_gw = ?w, ri_idx = ?f + ?n\<rparr> (ri_idx out) ?l1 = set_idx (ri_gw y) (ri_idx out) ?l1"
        unfolding list_set_idx_def
        by (subst upd1_map [where key = ri_gw and a = "ri_gw y"])
          (use D(1) last False in \<open>auto simp: map_idx_def [of _ "?l1"]\<close>)
      also have "\<dots> = ?l2" using False by (auto simp: map_idx_map_idx fun_eq_iff intro!: arg_cong [where f = "\<lambda>h. map_idx h ?l"])
      finally show ?thesis .
    qed
    then have "ret_group_gw_changed_disable E g re s =
        ret_group_update_lpm_table E ?g (group_put ?g (ret_set_re_to_idx E rz (ri_idx out) s))"
      using \<open>0 < ?n\<close> D(1) m my find
      by (simp add: ret_group_gw_changed_disable_def out Let_def list_set_idx_gw ret_set_re_to_idx_gw_def)
    also have "group_put ?g (ret_set_re_to_idx E rz (ri_idx out) s) = ret_set_re_to_idx E rz (ri_idx out) (group_put ?g s)"
      using ret_set_re_to_idx_eq [OF base(1) v] ret_set_re_to_idx_eq [of E "group_put ?g s" rz v] base(1) v
        vif_same_wf [OF group_put_frame(5), of E ?g s] vif_same_hw [OF group_put_frame(5), of E ?g s]
      by (simp add: group_put_def)
    finally have res: "ret_group_gw_changed_disable E g re s =
        ret_group_update_lpm_table E ?g (ret_set_re_to_idx E rz (ri_idx out) (group_put ?g s))" .
    obtain h where eq: "ret_group_gw_changed_disable E g re s = (group_put ?g s)\<lparr>hw := h\<rparr>"
      and h: "\<And>d i. uc_entry_at h d i = (if d < e_ndevs E \<and> i = ri_idx out then Some v else uc_entry_at (hw s) d i)"
      unfolding res using write_and_update [OF base(1) v] by blast
    have "group_ok E (?V - {?w}) (X (group_id g)) (s\<lparr>hw := h\<rparr>) ?g"
      using rz v by (intro new) (auto simp: h)
    then have "grp_inv_v E (V(group_id g := ?V - {?w})) (X(group_id g := X (group_id g))) ((group_put ?g s)\<lparr>hw := h\<rparr>)"
      by (rule grp_inv_v_change [OF inv g _ _ _ _ k, rotated -1])
        (simp_all add: h)
    then show ?thesis unfolding eq by (auto simp: group_put_def)
  qed
qed

section \<open>Passing a change to every group of a gateway\<close>

lemma frame_trans:
  "s' = (s::'a grp_st_scheme)\<lparr>re_group := t, hw := h\<rparr> \<Longrightarrow> s'' = s'\<lparr>re_group := t', hw := h'\<rparr> \<Longrightarrow>
     s'' = s\<lparr>re_group := t', hw := h'\<rparr>"
  by simp

lemma gw_group:
  assumes inv: "grp_inv_v E V X s" and re: "re \<in> set (ret s)" and gid: "gid \<in> set (re_group_ids re)"
  obtains g where "hash_find group_id (re_group s) gid = Some g" "g \<in> set (re_group s)" "group_id g = gid"
    "re_gw re \<in> ri_gw ` set (re_idx g)"
proof -
  from grp_inv_v_base(5) [OF inv re] gid obtain g where
    "g \<in> set (re_group s)" "group_id g = gid" "re_gw re \<in> ri_gw ` set (re_idx g)"
    by (auto simp: re_ok_def)
  with grp_inv_v_base(3) [OF inv] show thesis by (intro that [of g]) (simp_all add: hash_find_iff)
qed

text \<open>\<open>A\<close> and \<open>B\<close> are what \<open>V\<close> and \<open>X\<close> become in the groups that have been told, \<open>D\<close>.\<close>

definition grp_mid ::
  "env \<Rightarrow> (int \<Rightarrow> gw set) \<Rightarrow> (int \<Rightarrow> gw set) \<Rightarrow> (int \<Rightarrow> gw set) \<Rightarrow> (int \<Rightarrow> gw set) \<Rightarrow> int set \<Rightarrow>
     'a grp_st_scheme \<Rightarrow> bool" where
  "grp_mid E V A X B D s =
     grp_inv_v E (\<lambda>i. if i \<in> D then A i else V i) (\<lambda>i. if i \<in> D then B i else X i) s"

lemma grp_mid_step:
  assumes "grp_inv_v E ((\<lambda>i. if i \<in> D then A i else V i)(k := A k)) ((\<lambda>i. if i \<in> D then B i else X i)(k := B k)) s"
  shows "grp_mid E V A X B (insert k D) s"
proof -
  have "(\<lambda>i. if i \<in> D then C i else W i)(k := C k) = (\<lambda>i. if i \<in> insert k D then C i else W i)"
    for C W :: "int \<Rightarrow> gw set" by (auto simp: fun_eq_iff)
  with assms show ?thesis by (simp add: grp_mid_def)
qed

lemma fold_groups:
  assumes step: "\<And>D gid s. grp_mid E V A X B D s \<Longrightarrow> gid \<in> G \<Longrightarrow> gid \<notin> D \<Longrightarrow> ret s = tbl \<Longrightarrow>
      grp_mid E V A X B (insert gid D) (f gid s) \<and> (\<exists>t h. f gid s = s\<lparr>re_group := t, hw := h\<rparr>)"
    and "grp_mid E V A X B D s" and "ret s = tbl" and "distinct gids" and "set gids \<subseteq> G" and "set gids \<inter> D = {}"
  shows "grp_mid E V A X B (D \<union> set gids) (fold f gids s) \<and>
         (\<exists>t h. fold f gids s = s\<lparr>re_group := t, hw := h\<rparr>)"
  using assms(2-)
proof (induction gids arbitrary: s D)
  case Nil
  then show ?case by (auto intro!: exI [of _ "re_group s"] exI [of _ "hw s"])
next
  case (Cons gid gids)
  have one: "grp_mid E V A X B (insert gid D) (f gid s)" "\<exists>t h. f gid s = s\<lparr>re_group := t, hw := h\<rparr>"
    using step [of D s gid] Cons.prems by auto
  then obtain t h where th: "f gid s = s\<lparr>re_group := t, hw := h\<rparr>" by blast
  have "grp_mid E V A X B (insert gid D \<union> set gids) (fold f gids (f gid s)) \<and>
      (\<exists>t h. fold f gids (f gid s) = (f gid s)\<lparr>re_group := t, hw := h\<rparr>)"
    using Cons.prems th by (intro Cons.IH [OF one(1)]) auto
  with th show ?case by (auto simp: insert_commute)
qed

lemma enable_fold:
  assumes "grp_inv_v E V X s" and re: "re \<in> set (ret s)" "re_valid re"
    and V: "\<And>gid. gid \<in> set (re_group_ids re) \<Longrightarrow> re_gw re \<notin> V gid"
  shows "grp_mid E V (\<lambda>i. insert (re_gw re) (V i)) X (\<lambda>i. X i - {re_gw re}) (set (re_group_ids re))
           (fold (\<lambda>gid s. ret_group_gw_changed E gid re True s) (re_group_ids re) s) \<and>
         (\<exists>t h. fold (\<lambda>gid s. ret_group_gw_changed E gid re True s) (re_group_ids re) s = s\<lparr>re_group := t, hw := h\<rparr>)"
proof -
  have "grp_mid E V (\<lambda>i. insert (re_gw re) (V i)) X (\<lambda>i. X i - {re_gw re}) (insert gid D) (ret_group_gw_changed E gid re True a) \<and>
      (\<exists>t h. ret_group_gw_changed E gid re True a = a\<lparr>re_group := t, hw := h\<rparr>)"
    if mid: "grp_mid E V (\<lambda>i. insert (re_gw re) (V i)) X (\<lambda>i. X i - {re_gw re}) D a"
      and gid: "gid \<in> set (re_group_ids re)" "gid \<notin> D" and "ret a = ret s" for D gid a
  proof -
    note inv = mid [unfolded grp_mid_def]
    have re': "re \<in> set (ret a)" using re that by simp
    obtain g where g: "hash_find group_id (re_group a) gid = Some g" "g \<in> set (re_group a)" "group_id g = gid"
      "re_gw re \<in> ri_gw ` set (re_idx g)" using gw_group [OF inv re' gid(1)] .
    have eq: "ret_group_gw_changed E gid re True a = ret_group_gw_changed_enable E g re a"
      using g re by (simp add: ret_group_gw_changed_def)
    have w: "re_gw re \<notin> (if group_id g \<in> D then insert (re_gw re) (V (group_id g)) else V (group_id g))"
      using V gid g(3) by simp
    have "grp_inv_v E ((\<lambda>i. if i \<in> D then (\<lambda>i. insert (re_gw re) (V i)) i else V i)(gid := (\<lambda>i. insert (re_gw re) (V i)) gid))
        ((\<lambda>i. if i \<in> D then (\<lambda>i. X i - {re_gw re}) i else X i)(gid := (\<lambda>i. X i - {re_gw re}) gid)) (ret_group_gw_changed_enable E g re a) \<and>
        (\<exists>t h. ret_group_gw_changed_enable E g re a = a\<lparr>re_group := t, hw := h\<rparr>)"
      using enable_step [OF inv g(2) re' re(2) g(4) w] g(3) gid(2) by simp
    then show ?thesis unfolding eq using grp_mid_step [of E D "(\<lambda>i. insert (re_gw re) (V i))" V gid "(\<lambda>i. X i - {re_gw re})" X] by blast
  qed
  note step = this
  have start: "grp_mid E V (\<lambda>i. insert (re_gw re) (V i)) X (\<lambda>i. X i - {re_gw re}) {} s"
    using assms(1) by (simp add: grp_mid_def)
  have dist: "distinct (re_group_ids re)" using grp_inv_v_base(5) [OF assms(1) re(1)] by (simp add: re_ok_def)
  from fold_groups [OF step start refl dist subset_refl Int_empty_right]
  show ?thesis unfolding Un_empty_left .
qed

lemma enable_changed_fold:
  assumes "grp_inv_v E V X s" and re: "re \<in> set (ret s)" "re_valid re"
    and V: "\<And>gid. gid \<in> set (re_group_ids re) \<Longrightarrow> re_gw re \<in> V gid"
  shows "grp_mid E V V X (\<lambda>i. X i - {re_gw re}) (set (re_group_ids re))
           (fold (\<lambda>gid s. ret_group_gw_changed E gid re False s) (re_group_ids re) s) \<and>
         (\<exists>t h. fold (\<lambda>gid s. ret_group_gw_changed E gid re False s) (re_group_ids re) s = s\<lparr>re_group := t, hw := h\<rparr>)"
proof -
  have "grp_mid E V V X (\<lambda>i. X i - {re_gw re}) (insert gid D) (ret_group_gw_changed E gid re False a) \<and>
      (\<exists>t h. ret_group_gw_changed E gid re False a = a\<lparr>re_group := t, hw := h\<rparr>)"
    if mid: "grp_mid E V V X (\<lambda>i. X i - {re_gw re}) D a"
      and gid: "gid \<in> set (re_group_ids re)" "gid \<notin> D" and "ret a = ret s" for D gid a
  proof -
    note inv = mid [unfolded grp_mid_def]
    have re': "re \<in> set (ret a)" using re that by simp
    obtain g where g: "hash_find group_id (re_group a) gid = Some g" "g \<in> set (re_group a)" "group_id g = gid"
      "re_gw re \<in> ri_gw ` set (re_idx g)" using gw_group [OF inv re' gid(1)] .
    have eq: "ret_group_gw_changed E gid re False a = ret_group_gw_changed_enable_changed E g re a"
      using g re by (simp add: ret_group_gw_changed_def)
    have w: "re_gw re \<in> (if group_id g \<in> D then V (group_id g) else V (group_id g))"
      using V gid g(3) by simp
    have "grp_inv_v E ((\<lambda>i. if i \<in> D then V i else V i)(gid := V gid))
        ((\<lambda>i. if i \<in> D then (\<lambda>i. X i - {re_gw re}) i else X i)(gid := (\<lambda>i. X i - {re_gw re}) gid)) (ret_group_gw_changed_enable_changed E g re a) \<and>
        (\<exists>t h. ret_group_gw_changed_enable_changed E g re a = a\<lparr>re_group := t, hw := h\<rparr>)"
      using enable_changed_step [OF inv g(2) re' re(2) g(4) w] g(3) gid(2) by simp
    then show ?thesis unfolding eq using grp_mid_step [of E D "V" V gid "(\<lambda>i. X i - {re_gw re})" X] by blast
  qed
  note step = this
  have start: "grp_mid E V V X (\<lambda>i. X i - {re_gw re}) {} s"
    using assms(1) by (simp add: grp_mid_def)
  have dist: "distinct (re_group_ids re)" using grp_inv_v_base(5) [OF assms(1) re(1)] by (simp add: re_ok_def)
  from fold_groups [OF step start refl dist subset_refl Int_empty_right]
  show ?thesis unfolding Un_empty_left .
qed

lemma disable_fold:
  assumes "grp_inv_v E V X s" and re: "re \<in> set (ret s)" "\<not> re_valid re"
    and V: "\<And>gid. gid \<in> set (re_group_ids re) \<Longrightarrow> re_gw re \<in> V gid"
    and X: "\<And>gid. X gid \<subseteq> {re_gw re}"
    and others: "\<And>gid x. x \<in> V gid \<Longrightarrow> x \<noteq> re_gw re \<Longrightarrow> x \<in> valid_gws s"
  shows "grp_mid E V (\<lambda>i. V i - {re_gw re}) X X (set (re_group_ids re))
           (fold (\<lambda>gid s. ret_group_gw_changed E gid re True s) (re_group_ids re) s) \<and>
         (\<exists>t h. fold (\<lambda>gid s. ret_group_gw_changed E gid re True s) (re_group_ids re) s = s\<lparr>re_group := t, hw := h\<rparr>)"
proof -
  have "grp_mid E V (\<lambda>i. V i - {re_gw re}) X X (insert gid D) (ret_group_gw_changed E gid re True a) \<and>
      (\<exists>t h. ret_group_gw_changed E gid re True a = a\<lparr>re_group := t, hw := h\<rparr>)"
    if mid: "grp_mid E V (\<lambda>i. V i - {re_gw re}) X X D a"
      and gid: "gid \<in> set (re_group_ids re)" "gid \<notin> D" and tbl: "ret a = ret s" for D gid a
  proof -
    note inv = mid [unfolded grp_mid_def]
    have re': "re \<in> set (ret a)" using re tbl by simp
    obtain g where g: "hash_find group_id (re_group a) gid = Some g" "g \<in> set (re_group a)" "group_id g = gid"
      "re_gw re \<in> ri_gw ` set (re_idx g)" using gw_group [OF inv re' gid(1)] .
    have eq: "ret_group_gw_changed E gid re True a = ret_group_gw_changed_disable E g re a"
      using g re by (simp add: ret_group_gw_changed_def)
    have w: "re_gw re \<in> (if group_id g \<in> D then V (group_id g) - {re_gw re} else V (group_id g))"
      using V gid g(3) by simp
    have X': "(if group_id g \<in> D then X (group_id g) else X (group_id g)) \<subseteq> {re_gw re}" using X by simp
    have vg: "x \<in> valid_gws a" if "x \<in> (if group_id g \<in> D then V (group_id g) - {re_gw re} else V (group_id g))"
      "x \<in> ri_gw ` set (re_idx g)" "x \<noteq> re_gw re" for x
      using others [of x "group_id g"] that tbl by (simp add: valid_gws_def split: if_splits)
    have "grp_inv_v E ((\<lambda>i. if i \<in> D then (\<lambda>i. V i - {re_gw re}) i else V i)(gid := (\<lambda>i. V i - {re_gw re}) gid))
        ((\<lambda>i. if i \<in> D then X i else X i)(gid := X gid)) (ret_group_gw_changed_disable E g re a) \<and>
        (\<exists>t h. ret_group_gw_changed_disable E g re a = a\<lparr>re_group := t, hw := h\<rparr>)"
      using disable_step [OF inv g(2) g(4) w X' vg] g(3) gid(2) by simp
    then show ?thesis unfolding eq using grp_mid_step [of E D "(\<lambda>i. V i - {re_gw re})" V gid "X" X] by blast
  qed
  note step = this
  have start: "grp_mid E V (\<lambda>i. V i - {re_gw re}) X X {} s"
    using assms(1) by (simp add: grp_mid_def)
  have dist: "distinct (re_group_ids re)" using grp_inv_v_base(5) [OF assms(1) re(1)] by (simp add: re_ok_def)
  from fold_groups [OF step start refl dist subset_refl Int_empty_right]
  show ?thesis unfolding Un_empty_left .
qed

section \<open>The whole operations\<close>

lemma group_ok_weaken:
  assumes ok: "group_ok E V X s g"
    and V: "\<And>x. x \<in> set (re_idx g) \<Longrightarrow> ri_gw x \<in> V \<longleftrightarrow> ri_gw x \<in> V'"
    and X: "\<And>x. x \<in> set (re_idx g) \<Longrightarrow> ri_gw x \<in> V' \<Longrightarrow> ri_gw x \<in> X \<Longrightarrow> ri_gw x \<in> X'"
  shows "group_ok E V' X' s g"
proof -
  have "slots_ok V' (first_idx g) (numOfPaths g) (re_idx g)"
    using group_okD(2) [OF ok] slots_ok_cong [of "re_idx g" V V'] V by blast
  with group_okD [OF ok] V X show ?thesis unfolding group_ok_def by blast
qed

lemma upd1_key_const: "map k (upd1 (\<lambda>x. k x = k r) (\<lambda>_. r) xs) = map k xs"
  by (induction xs) auto

lemma set_re_put:
  "keys_distinct re_gw (ret s) \<Longrightarrow>
     set (ret (re_put r s)) = (\<lambda>x. if re_gw x = re_gw r then r else x) ` set (ret s)"
  unfolding re_put_def hash_mod_def by (subst upd1_map [where key = re_gw and a = "re_gw r"]) auto

lemma re_put_frame:
  "re_group (re_put r s) = re_group s" "ret_indexes_used (re_put r s) = ret_indexes_used s"
  "group_ids (re_put r s) = group_ids s" "hw (re_put r s) = hw s" "vif_same (re_put r s) s"
  by (simp_all add: re_put_def vif_same_def)

lemma re_put_map_gw: "map re_gw (ret (re_put r s)) = map re_gw (ret s)"
  unfolding re_put_def hash_mod_def by (simp add: upd1_key_const)

lemma re_put_inv:
  assumes inv: "grp_inv_v E V X s" and re: "re \<in> set (ret s)"
    and r: "re_gw r = re_gw re" "re_group_ids r = re_group_ids re"
    and v: "re_valid r \<Longrightarrow> re_hw E s r \<noteq> None"
  shows "grp_inv_v E V (\<lambda>i. insert (re_gw re) (X i)) (re_put r s)"
proof -
  note base = grp_inv_v_base [OF inv]
  note hw = vif_same_hw [OF re_put_frame(5), of E r s] vif_same_wf [OF re_put_frame(5), of E r s]
  have tbl: "set (ret (re_put r s)) = (\<lambda>x. if x = re then r else x) ` set (ret s)"
    unfolding set_re_put [OF base(2)] r using re_unique [OF base(2) _ re] by force
  have kd: "keys_distinct re_gw (ret (re_put r s))"
    using base(2) by (simp only: re_put_map_gw)
  have "re_ok (re_put r s) x \<and> (re_valid x \<longrightarrow> re_hw E (re_put r s) x \<noteq> None)" if "x \<in> set (ret (re_put r s))" for x
  proof (cases "x = r")
    case True
    with base(5) [OF re] v show ?thesis unfolding hw by (simp add: re_ok_def r re_put_frame)
  next
    case False
    with that have "x \<in> set (ret s)" unfolding tbl by (auto split: if_splits)
    with base(4,5) show ?thesis unfolding hw by (fastforce simp: re_ok_def re_put_frame)
  qed
  then have "grp_base E (re_put r s)"
    using inv kd hw(2) by (simp add: grp_inv_v_def grp_base_def res_ok_def re_put_frame)
  moreover have "group_ok E (V (group_id g)) (insert (re_gw re) (X (group_id g))) (re_put r s) g"
    if g: "g \<in> set (re_group s)" for g
  proof -
    note ok = base(7) [OF g]
    have "\<exists>y \<in> set (ret (re_put r s)). re_gw y = ri_gw x \<and> group_id g \<in> set (re_group_ids y)"
      if "x \<in> set (re_idx g)" for x
    proof -
      from group_okD(4) [OF ok that] obtain z
        where "z \<in> set (ret s)" "re_gw z = ri_gw x" "group_id g \<in> set (re_group_ids z)" by blast
      then show ?thesis unfolding tbl by (intro bexI [where x = "if z = re then r else z"]) (auto simp: r)
    qed
    moreover have "uc_entry_at (hw (re_put r s)) d (ri_idx x) = re_hw E (re_put r s) y"
      if "x \<in> set (re_idx g)" "y \<in> set (ret (re_put r s))" "d < e_ndevs E"
        "ri_gw x \<in> V (group_id g) - insert (re_gw re) (X (group_id g))" "re_gw y = ri_gw x" for x y d
    proof -
      have "y \<in> set (ret s)" using that r unfolding tbl by (auto split: if_splits)
      with group_okD(5) [OF ok that(1) this, of d] that show ?thesis unfolding hw by (simp add: re_put_frame)
    qed
    ultimately show ?thesis
      using group_okD(1-3) [OF ok] unfolding group_ok_def re_put_frame by blast
  qed
  ultimately show ?thesis by (simp add: grp_inv_v_def re_put_frame)
qed

lemmas grp0_defs = grp0_def ret0_def nht0_def pool0_def vif0_def sw0_def nht_init_def
  grp_st.defs ret_st.defs nht_st.defs pool_st.defs vif_st.defs sw.defs

lemma grp0_inv: "grp_inv env0 grp0"
proof -
  have "vif_same grp0 vif0" by (simp add: vif_same_def grp0_defs)
  with vif0_wf have "vif_wf env0 grp0" by (simp add: vif_same_wf [of grp0 vif0])
  then show ?thesis
    by (simp add: grp_inv_def grp_inv_v_def grp_base_def res_ok_def runs_disjoint_def) (simp add: grp0_defs)
qed

end
