(* ===== verification/Ret_Resolve.thy ===== *)
theory Ret_Resolve
  imports Ret_Inv
begin

text \<open>
  The gateway operations of \<open>Ret_Mac\<close> against the invariant of \<open>Ret_Inv\<close>: resolving a
  gateway, changing its address and losing it again keep the groups and the hardware route
  table in step, as long as the next-hop table has room.
\<close>

lemma grp_mid_finish:
  assumes mid: "grp_mid E V A X B (set (re_group_ids re)) s" and re: "re \<in> set (ret s)"
    and A: "\<And>i. A i = valid_gws s" and V: "\<And>i x. x \<noteq> re_gw re \<Longrightarrow> x \<in> V i \<longleftrightarrow> x \<in> valid_gws s"
    and X: "\<And>i. X i \<subseteq> {re_gw re}" and B: "\<And>i. B i \<inter> valid_gws s = {}"
  shows "grp_inv E s"
proof -
  note inv = mid [unfolded grp_mid_def]
  note base = grp_inv_v_base [OF inv]
  have "group_ok E (valid_gws s) {} s g" if g: "g \<in> set (re_group s)" for g
  proof (cases "group_id g \<in> set (re_group_ids re)")
    case True
    with base(7) [OF g] have "group_ok E (valid_gws s) (B (group_id g)) s g" by (simp only: if_True A)
    then show ?thesis by (rule group_ok_weaken) (use B in blast)+
  next
    case False
    with base(7) [OF g] have ok: "group_ok E (V (group_id g)) (X (group_id g)) s g" by (simp only: if_False)
    have "ri_gw x \<noteq> re_gw re" if "x \<in> set (re_idx g)" for x
      using group_okD(4) [OF ok that] False re_unique [OF base(2) _ re] by metis
    moreover have "ri_gw x \<in> V (group_id g) \<longleftrightarrow> ri_gw x \<in> valid_gws s" if "x \<in> set (re_idx g)" for x
      using V calculation [OF that] by blast
    moreover have "ri_gw x \<notin> X (group_id g)" if "x \<in> set (re_idx g)" for x
      using X calculation(1) [OF that] by blast
    ultimately show ?thesis by (intro group_ok_weaken [OF ok]) auto
  qed
  with inv show ?thesis by (simp add: grp_inv_def grp_inv_v_def)
qed

lemma in_valid_gws: "x \<in> valid_gws s \<longleftrightarrow> (\<exists>y \<in> set (ret s). re_valid y \<and> re_gw y = x)"
  by (auto simp: valid_gws_def)

lemma valid_gws_re_put:
  assumes "keys_distinct re_gw (ret s)" and "re \<in> set (ret s)" and "re_gw r = re_gw re"
  shows "valid_gws (re_put r s) = (if re_valid r then insert (re_gw re) (valid_gws s) else valid_gws s - {re_gw re})"
proof -
  have "set (ret (re_put r s)) = insert r {x \<in> set (ret s). re_gw x \<noteq> re_gw re}"
    using assms by (force simp: set_re_put)
  with assms(3) have "x \<in> valid_gws (re_put r s) \<longleftrightarrow>
      re_valid r \<and> x = re_gw re \<or> (\<exists>y \<in> set (ret s). re_gw y = x \<and> re_valid y \<and> x \<noteq> re_gw re)" for x
    by (auto simp: in_valid_gws)
  then show ?thesis by (auto simp: in_valid_gws)
qed

lemma valid_gws_cong: "ret t = ret s \<Longrightarrow> valid_gws t = valid_gws s"
  by (simp add: valid_gws_def)

lemma in_re_put: "keys_distinct re_gw (ret s) \<Longrightarrow> re \<in> set (ret s) \<Longrightarrow> re_gw r = re_gw re \<Longrightarrow> r \<in> set (ret (re_put r s))"
  by (force simp: set_re_put)

lemma uc_silent_nht: "uc_silent h (dev_writes E (\<lambda>d. Uc (RouterArpAddrWrite d i a)) @ h)"
  unfolding dev_writes_def by (rule uc_silent_append) (auto simp: uc_write_def)

lemma nht_add_shape:
  "\<exists>n p q h. snd (nht_add E a s) = s\<lparr>nht := n, nhs_sp := p, nhs_data := q, hw := h\<rparr> \<and> uc_silent (hw s) h"
proof (cases "hash_find nh_addr (nht s) a")
  case (Some e)
  then show ?thesis
    by (intro exI [of _ "hash_mod nh_addr a (\<lambda>e. e\<lparr>nh_refc := nh_refc e + 1\<rparr>) (nht s)"] exI [of _ "nhs_sp s"]
        exI [of _ "nhs_data s"] exI [of _ "hw s"]) (simp add: nht_add_def)
next
  case None
  show ?thesis
  proof (cases "MAX_NH - 1 \<le> nhs_sp s")
    case True
    with None show ?thesis
      by (intro exI [of _ "nht s"] exI [of _ "nhs_sp s"] exI [of _ "nhs_data s"] exI [of _ "hw s"])
        (simp add: nht_add_def nhs_pop_def)
  next
    case False
    define h where "h = dev_writes E (\<lambda>d. Uc (RouterArpAddrWrite d (nhs_data s (nhs_sp s)) a)) @ hw s"
    define t where "t = s\<lparr>nhs_sp := nhs_sp s + 1, hw := h\<rparr>"
    have silent: "uc_silent (hw s) h" by (simp add: h_def uc_silent_nht)
    have "nhs_push i t = t\<lparr>nht := nht s, nhs_sp := nhs_sp s, nhs_data := (nhs_data s)(nhs_sp s := i)\<rparr>" for i
      by (simp add: nhs_push_def t_def)
    moreover obtain rc where "for_each_dev E (\<lambda>d. Uc (RouterArpAddrWrite d (nhs_data s (nhs_sp s)) a)) (s\<lparr>nhs_sp := nhs_sp s + 1\<rparr>) = (rc, t)"
      using for_each_dev_eq [of E "\<lambda>d. Uc (RouterArpAddrWrite d (nhs_data s (nhs_sp s)) a)" "s\<lparr>nhs_sp := nhs_sp s + 1\<rparr>"]
      by (simp add: t_def h_def)
    ultimately have "snd (nht_add E a s) \<in>
        {t\<lparr>nht := hash_add \<lparr>nh_addr = a, nh_idx = nhs_data s (nhs_sp s), nh_refc = 1\<rparr> (nht s), nhs_sp := nhs_sp s + 1, nhs_data := nhs_data s\<rparr>,
         t\<lparr>nht := nht s, nhs_sp := nhs_sp s, nhs_data := (nhs_data s)(nhs_sp s := nhs_data s (nhs_sp s))\<rparr>}"
      using None False by (simp add: nht_add_def nhs_pop_def) (simp add: t_def)
    then obtain n p q where "snd (nht_add E a s) = t\<lparr>nht := n, nhs_sp := p, nhs_data := q\<rparr>" by blast
    with silent show ?thesis
      by (intro exI [of _ n] exI [of _ p] exI [of _ q] exI [of _ h]) (simp add: t_def)
  qed
qed

lemma nht_add_frame:
  fixes s :: "'a grp_st_scheme"
  assumes "nht_add E a s = (i, t)"
  shows "vif_same t s" "ret t = ret s" "re_group t = re_group s" "ret_indexes_used t = ret_indexes_used s"
    "group_ids t = group_ids s" "uc_silent (hw s) (hw t)"
proof -
  obtain n p q h where "t = s\<lparr>nht := n, nhs_sp := p, nhs_data := q, hw := h\<rparr>" "uc_silent (hw s) h"
    using nht_add_shape [of E a s] assms by auto
  then show "vif_same t s" "ret t = ret s" "re_group t = re_group s" "ret_indexes_used t = ret_indexes_used s"
    "group_ids t = group_ids s" "uc_silent (hw s) (hw t)" by (simp_all add: vif_same_def)
qed

section \<open>Resolving a gateway\<close>

lemma ret_lookup_gw_in: "ret_lookup_gw g s = Some re \<Longrightarrow> re \<in> set (ret s)"
proof -
  have "fold (\<lambda>el r. if P el then Some el else r) xs r = Some re \<Longrightarrow> re \<in> set xs \<or> r = Some re" for P r and xs :: "re list"
    by (induction xs arbitrary: r) (fastforce split: if_splits)+
  then show "ret_lookup_gw g s = Some re \<Longrightarrow> re \<in> set (ret s)"
    by (fastforce simp: ret_lookup_gw_def dest: hash_find_in split: option.splits)
qed

lemma re_put_put: "re_gw r' = re_gw r \<Longrightarrow> ret t = ret (re_put r s) \<Longrightarrow> ret (re_put r' t) = ret (re_put r' s)"
proof -
  have "upd1 (\<lambda>e. re_gw e = re_gw r) (\<lambda>_. r') (upd1 (\<lambda>e. re_gw e = re_gw r) (\<lambda>_. r) xs) =
      upd1 (\<lambda>e. re_gw e = re_gw r) (\<lambda>_. r') xs" for xs by (induction xs) auto
  then show "re_gw r' = re_gw r \<Longrightarrow> ret t = ret (re_put r s) \<Longrightarrow> ret (re_put r' t) = ret (re_put r' s)"
    by (simp add: re_put_def hash_mod_def)
qed

text \<open>The heart of \<open>ret_set_mac_addr\<close>: the entry is written twice, around the next-hop slot, and
  then every group of the gateway is told.\<close>

lemma resolve_inv:
  fixes s :: "'a grp_st_scheme"
  assumes inv: "grp_inv E s" and re: "re \<in> set (ret s)" and vid: "fst (vif_getn E vid s) \<noteq> None"
    and r1: "r1 = re\<lparr>re_valid := True, re_addr := addr, re_vif_id := vid\<rparr>"
    and nht: "nht_add E addr (re_put r1 s) = (i, s2)" and r2: "r2 = r1\<lparr>re_nh_idx := n\<rparr>"
  shows "grp_inv E (fold (\<lambda>gid s. ret_group_gw_changed E gid r2 (\<not> re_valid re) s) (re_group_ids r2) (re_put r2 s2))"
proof -
  let ?w = "re_gw re" and ?V = "\<lambda>_. valid_gws s" and ?s3 = "re_put r2 s2"
  note inv0 = inv [unfolded grp_inv_def]
  note base = grp_inv_v_base [OF inv0]
  have f: "re_gw r1 = ?w" "re_gw r2 = ?w" "re_group_ids r1 = re_group_ids re" "re_group_ids r2 = re_group_ids re"
    "re_valid r1" "re_valid r2" "re_vif_id r1 = vid" "re_vif_id r2 = vid"
    by (simp_all add: r1 r2)
  have hw1: "re_hw E s r1 \<noteq> None" using vid f by (auto simp: re_hw_def split: option.splits)
  have inv1: "grp_inv_v E ?V (\<lambda>i. {?w}) (re_put r1 s)" using re_put_inv [OF inv0 re f(1,3) hw1] by simp
  note fr = nht_add_frame [OF nht]
  have inv2: "grp_inv_v E ?V (\<lambda>i. {?w}) s2" by (rule grp_inv_v_cong [OF fr inv1])
  have in1: "r1 \<in> set (ret s2)" unfolding fr(2) by (rule in_re_put [OF base(2) re f(1)])
  have "re_hw E s2 r2 \<noteq> None"
    using vid f vif_same_get [OF fr(1)] vif_same_get [OF re_put_frame(5) [of r1 s]] by (auto simp: re_hw_def split: option.splits)
  then have inv3: "grp_inv_v E ?V (\<lambda>i. {?w}) ?s3"
    using re_put_inv [OF inv2 in1, of r2] f by simp
  have tbl: "ret ?s3 = ret (re_put r2 s)" by (rule re_put_put [OF _ fr(2)]) (simp add: f)
  have in3: "r2 \<in> set (ret ?s3)" unfolding tbl by (rule in_re_put [OF base(2) re f(2)])
  have vg: "valid_gws ?s3 = insert ?w (valid_gws s)"
    unfolding valid_gws_cong [OF tbl] valid_gws_re_put [OF base(2) re f(2)] by (simp add: f)
  let ?t = "fold (\<lambda>gid s. ret_group_gw_changed E gid r2 (\<not> re_valid re) s) (re_group_ids r2) ?s3"
  have w: "?w \<in> valid_gws s \<longleftrightarrow> re_valid re"
    using re re_unique [OF base(2) _ re] by (auto simp: in_valid_gws)
  define A where "A = (\<lambda>i :: int. insert ?w (valid_gws s))"
  have "grp_mid E ?V A (\<lambda>i. {?w}) (\<lambda>i. {}) (set (re_group_ids r2)) ?t \<and> (\<exists>t h. ?t = ?s3\<lparr>re_group := t, hw := h\<rparr>)"
  proof (cases "re_valid re")
    case False
    with w enable_fold [OF inv3 in3 f(6)] f(2) show ?thesis by (simp add: A_def)
  next
    case True
    with w have "A = ?V" by (auto simp: A_def)
    with True w enable_changed_fold [OF inv3 in3 f(6)] f(2) show ?thesis by simp
  qed
  moreover obtain t where t: "t = ?t" by blast
  ultimately have mid: "grp_mid E ?V A (\<lambda>i. {?w}) (\<lambda>i. {}) (set (re_group_ids r2)) t" and ret: "ret t = ret ?s3"
    by auto
  have vt: "valid_gws t = insert ?w (valid_gws s)" unfolding valid_gws_cong [OF ret] by (rule vg)
  have "grp_inv E t"
    by (rule grp_mid_finish [OF mid]) (use in3 in \<open>auto simp: ret vt A_def f\<close>)
  then show ?thesis unfolding t .
qed

theorem ret_set_mac_addr_inv:
  assumes inv: "grp_inv E s" and res: "ret_set_mac_addr E g addr vid s = (ST_OK, s')"
  shows "grp_inv E s'"
proof -
  have wf: "vif_wf E s" using inv by (simp add: grp_inv_def grp_inv_v_def grp_base_def)
  then obtain v where v: "vif_getn E vid s = (Some v, s)"
    using res vif_getn_state [OF wf, of vid] by (cases "vif_getn E vid s") (auto simp: ret_set_mac_addr_def split: option.splits)
  with res obtain re where look: "ret_lookup_gw g s = Some re" by (auto simp: ret_set_mac_addr_def split: option.splits)
  then have re: "re \<in> set (ret s)" by (rule ret_lookup_gw_in)
  show ?thesis
  proof (cases "re_valid re \<and> re_addr re = addr \<and> re_vif_id re = vid")
    case True
    with res v look inv show ?thesis by (simp add: ret_set_mac_addr_def)
  next
    case False
    obtain r1 where r1: "r1 = re\<lparr>re_valid := True, re_addr := addr, re_vif_id := vid\<rparr>" by blast
    obtain i s2 where nht: "nht_add E addr (re_put r1 s) = (i, s2)" by (cases "nht_add E addr (re_put r1 s)") auto
    obtain r2 where r2: "r2 = r1\<lparr>re_nh_idx := nat i\<rparr>" by blast
    have "s' = fold (\<lambda>gid s. ret_group_gw_changed E gid r2 (\<not> re_valid re) s) (re_group_ids r2) (re_put r2 s2)"
      using res v look False nht unfolding ret_set_mac_addr_def r1 r2 by (auto simp: Let_def split: if_splits)
    moreover have "fst (vif_getn E vid s) \<noteq> None" using v by simp
    ultimately show ?thesis using resolve_inv [OF inv re _ r1 nht r2] by simp
  qed
qed

section \<open>Losing a gateway\<close>

lemma nht_unref_shape: "\<exists>n p q. snd (nht_unref a s) = s\<lparr>nht := n, nhs_sp := p, nhs_data := q\<rparr>"
proof (cases "hash_find nh_addr (nht s) a")
  case None
  then show ?thesis by (intro exI [of _ "nht s"] exI [of _ "nhs_sp s"] exI [of _ "nhs_data s"]) (simp add: nht_unref_def)
next
  case (Some e)
  let ?n = "hash_mod nh_addr a (\<lambda>e. e\<lparr>nh_refc := nh_refc e - 1\<rparr>) (nht s)"
  have "snd (nht_unref a s) \<in>
      {s\<lparr>nht := ?n, nhs_sp := nhs_sp s, nhs_data := nhs_data s\<rparr>,
       s\<lparr>nht := hash_del nh_addr a ?n, nhs_sp := nhs_sp s, nhs_data := nhs_data s\<rparr>,
       s\<lparr>nht := hash_del nh_addr a ?n, nhs_sp := nhs_sp s - 1, nhs_data := (nhs_data s)(nhs_sp s - 1 := nh_idx e)\<rparr>}"
    using Some by (simp add: nht_unref_def nhs_push_def Let_def)
  then show ?thesis by blast
qed

lemma nht_unref_frame:
  fixes s :: "'a grp_st_scheme"
  assumes "t = snd (nht_unref a s)"
  shows "vif_same t s" "ret t = ret s" "re_group t = re_group s" "ret_indexes_used t = ret_indexes_used s"
    "group_ids t = group_ids s" "uc_silent (hw s) (hw t)"
proof -
  obtain n p q where "t = s\<lparr>nht := n, nhs_sp := p, nhs_data := q\<rparr>"
    using nht_unref_shape [of a s] assms by auto
  then show "vif_same t s" "ret t = ret s" "re_group t = re_group s" "ret_indexes_used t = ret_indexes_used s"
    "group_ids t = group_ids s" "uc_silent (hw s) (hw t)" by (simp_all add: vif_same_def)
qed

lemma lose_inv:
  fixes s :: "'a grp_st_scheme"
  assumes inv: "grp_inv E s" and re: "re \<in> set (ret s)" and r1: "r1 = re\<lparr>re_valid := False\<rparr>" and "re_valid re"
  shows "grp_inv E (fold (\<lambda>gid s. ret_group_gw_changed E gid r1 True s) (re_group_ids r1)
           (snd (nht_unref a (re_put r1 s))))"
proof -
  obtain s2 where s2: "s2 = snd (nht_unref a (re_put r1 s))" by blast
  let ?w = "re_gw re" and ?V = "\<lambda>_. valid_gws s"
  note inv0 = inv [unfolded grp_inv_def]
  note base = grp_inv_v_base [OF inv0]
  have f: "re_gw r1 = ?w" "re_group_ids r1 = re_group_ids re" "\<not> re_valid r1" by (simp_all add: r1)
  have inv1: "grp_inv_v E ?V (\<lambda>i. {?w}) (re_put r1 s)" using re_put_inv [OF inv0 re f(1,2)] f(3) by simp
  note fr = nht_unref_frame [OF s2]
  have inv2: "grp_inv_v E ?V (\<lambda>i. {?w}) s2" by (rule grp_inv_v_cong [OF fr inv1])
  have in2: "r1 \<in> set (ret s2)" unfolding fr(2) by (rule in_re_put [OF base(2) re f(1)])
  have vg: "valid_gws s2 = valid_gws s - {?w}"
    unfolding valid_gws_cong [OF fr(2)] valid_gws_re_put [OF base(2) re f(1)] by (simp add: f)
  have w: "?w \<in> valid_gws s" using re assms(4) by (auto simp: in_valid_gws)
  obtain t where t: "t = fold (\<lambda>gid s. ret_group_gw_changed E gid r1 True s) (re_group_ids r1) s2" by blast
  have "grp_mid E ?V (\<lambda>i. valid_gws s - {re_gw r1}) (\<lambda>i. {?w}) (\<lambda>i. {?w}) (set (re_group_ids r1)) t \<and>
      (\<exists>g h. t = s2\<lparr>re_group := g, hw := h\<rparr>)"
    unfolding t by (rule disable_fold [OF inv2 in2 f(3)]) (use w in \<open>auto simp: f vg\<close>)
  then have mid: "grp_mid E ?V (\<lambda>i. valid_gws s - {?w}) (\<lambda>i. {?w}) (\<lambda>i. {?w}) (set (re_group_ids r1)) t"
    and ret: "ret t = ret s2" using f(1) by auto
  have "grp_inv E t"
    by (rule grp_mid_finish [OF mid]) (use in2 in \<open>auto simp: ret valid_gws_cong [OF ret] vg f\<close>)
  then show ?thesis unfolding t s2 .
qed

theorem ret_unset_mac_addr_inv:
  assumes inv: "grp_inv E s"
  shows "grp_inv E (snd (ret_unset_mac_addr E g s))"
proof (cases "hash_find re_gw (ret s) g")
  case None
  with inv show ?thesis by (simp add: ret_unset_mac_addr_def)
next
  case (Some re)
  have "re \<in> set (ret s)" using hash_find_in [OF Some] by blast
  note lose = lose_inv [OF inv this refl]
  show ?thesis
  proof (cases "re_valid re")
    case True
    show ?thesis using lose [OF True, of "re_addr re"] Some True by (simp add: ret_unset_mac_addr_def Let_def)
  next
    case False
    with Some inv show ?thesis by (simp add: ret_unset_mac_addr_def)
  qed
qed

section \<open>What the invariant says of the hardware\<close>

text \<open>A member of a group whose gateway is resolved has a slot of the group's run, and on every
  device that slot holds the entry of the gateway; a member whose gateway is not points to the
  drop entry. The slots of the run up to \<open>numOfPaths\<close> are all taken by resolved members.\<close>

lemma grp_inv_hardware:
  assumes inv: "grp_inv E s" and g: "g \<in> set (re_group s)" and x: "x \<in> set (re_idx g)"
    and re: "re \<in> set (ret s)" "re_gw re = ri_gw x"
  shows "if re_valid re
         then first_idx g \<le> ri_idx x \<and> ri_idx x \<le> first_idx g + numOfPaths g \<and>
              re_hw E s re \<noteq> None \<and> (\<forall>d < e_ndevs E. uc_entry_at (hw s) d (ri_idx x) = re_hw E s re)
         else ri_idx x = DROP_RE_IDX"
proof -
  note inv0 = inv [unfolded grp_inv_def]
  note base = grp_inv_v_base [OF inv0]
  note ok = base(7) [OF g]
  have vw: "ri_gw x \<in> valid_gws s \<longleftrightarrow> re_valid re"
    unfolding in_valid_gws using re re_unique [OF base(2) _ re(1)] by metis
  show ?thesis
  proof (cases "re_valid re")
    case True
    with vw have v: "ri_gw x \<in> valid_gws s" by simp
    then have v': "ri_gw x \<in> valid_gws s - {}" by simp
    note sl = slots_okD(4,5) [OF group_okD(2) [OF ok] x v]
    show ?thesis using True sl base(4) [OF re(1) True] group_okD(5) [OF ok x re(1) _ v' re(2)] by auto
  next
    case False
    with vw slots_okD(3) [OF group_okD(2) [OF ok] x] show ?thesis by simp
  qed
qed

end
