(* ===== verification/Ret_Build.thy ===== *)
theory Ret_Build
  imports Ret_Resolve
begin

text \<open>
  Groups come and go: \<open>ret_group_add\<close> and \<open>ret_group_del\<close> against the invariant of \<open>Ret_Inv\<close>.
  While the loop over the gateways of a new group runs, the group is not in the table yet; the
  relation \<open>fill_inv\<close> says what holds between its turns.
\<close>

section \<open>Joining the gateways of a new group\<close>

definition joined :: "int \<Rightarrow> gw set \<Rightarrow> re list \<Rightarrow> re list \<Rightarrow> bool" where
  "joined k G t0 t \<longleftrightarrow>
     keys_distinct re_gw t \<and> G \<subseteq> re_gw ` set t \<and> re_gw ` set t0 \<subseteq> re_gw ` set t \<and>
     (\<forall>r \<in> set t. if re_gw r \<in> G
        then (\<exists>r0 \<in> set t0. r = re_join k r0) \<or> re_gw r \<notin> re_gw ` set t0 \<and> r = new_re (re_gw r) k
        else r \<in> set t0)"

lemma re_gw_join [simp]: "re_gw (re_join k r) = re_gw r"
  by (simp add: re_join_def)

lemma re_hw_join [simp]: "re_hw E s (re_join k r) = re_hw E s r"
  by (simp add: re_hw_def re_join_def cong: option.case_cong)

lemma new_re_simps [simp]: "re_gw (new_re g k) = g" "\<not> re_valid (new_re g k)" "re_group_ids (new_re g k) = [k]"
  by (simp_all add: new_re_def ret_add_group_to_list_def dl_search_def dl_append_def)

lemma joined_start: "keys_distinct re_gw t \<Longrightarrow> joined k {} t t"
  by (simp add: joined_def)

lemma joined_cases:
  assumes "joined k G t0 t" and "r \<in> set t"
  obtains (old) "re_gw r \<notin> G" "r \<in> set t0"
    | (join) r0 where "re_gw r \<in> G" "r0 \<in> set t0" "r = re_join k r0"
    | (fresh) "re_gw r \<in> G" "re_gw r \<notin> re_gw ` set t0" "r = new_re (re_gw r) k"
  using assms unfolding joined_def by metis

lemma ret_add_joined:
  assumes J: "joined k G t0 (ret s)" and g: "g \<notin> G" and add: "ret_add g k s = (re, s')"
  shows "joined k (insert g G) t0 (ret s') \<and> re \<in> set (ret s') \<and> re_gw re = g \<and>
         s' = s\<lparr>ret := ret s', re_cnt := re_cnt s'\<rparr>"
proof (cases "hash_find re_gw (ret s) g")
  case None
  then have new: "g \<notin> re_gw ` set (ret s)" by (simp add: hash_find_None)
  from None add have s': "re = new_re g k" "s' = s\<lparr>ret := ret s @ [re], re_cnt := re_cnt s + 1\<rparr>"
    by (auto simp add: ret_add_def hash_add_def Let_def)
  have "if re_gw r \<in> insert g G
        then (\<exists>r0 \<in> set t0. r = re_join k r0) \<or> re_gw r \<notin> re_gw ` set t0 \<and> r = new_re (re_gw r) k
        else r \<in> set t0" if "r \<in> set (ret s @ [re])" for r
  proof (cases "r = re")
    case True
    with s'(1) J new show ?thesis by (auto simp: joined_def)
  next
    case False
    with that have "r \<in> set (ret s)" by simp
    moreover from this new have "re_gw r \<noteq> g" by auto
    ultimately show ?thesis using J by (simp add: joined_def)
  qed
  with J new s' show ?thesis by (auto simp: joined_def)
next
  case (Some e)
  have kd: "keys_distinct re_gw (ret s)" using J by (simp add: joined_def)
  from Some have e: "e \<in> set (ret s)" "re_gw e = g" using hash_find_in by fastforce+
  from Some add have s': "re = re_join k e" "s' = s\<lparr>ret := hash_mod re_gw g (re_join k) (ret s)\<rparr>"
    by (simp_all add: ret_add_def)
  have tbl: "set (ret s') = (\<lambda>x. if re_gw x = g then re_join k x else x) ` set (ret s)"
    using set_hash_mod [OF kd, of "re_join k" g] by (simp add: s')
  have gws: "map re_gw (ret s') = map re_gw (ret s)" by (simp add: s')
  have "if re_gw r \<in> insert g G
        then (\<exists>r0 \<in> set t0. r = re_join k r0) \<or> re_gw r \<notin> re_gw ` set t0 \<and> r = new_re (re_gw r) k
        else r \<in> set t0" if "r \<in> set (ret s')" for r
  proof (cases "re_gw r = g")
    case True
    with that e kd have "r = re_join k e" unfolding tbl by (auto split: if_splits dest: re_unique)
    moreover have "e \<in> set t0" using J e g by (auto simp: joined_def)
    ultimately show ?thesis using True by auto
  next
    case False
    with that have "r \<in> set (ret s)" unfolding tbl by (auto split: if_splits)
    with False J show ?thesis by (simp add: joined_def)
  qed
  moreover have "re_gw ` set (ret s') = re_gw ` set (ret s)" using gws by (metis list.set_map)
  ultimately have "joined k (insert g G) t0 (ret s')"
    using J kd gws e by (auto simp: joined_def)
  moreover have "re \<in> set (ret s')" using e unfolding tbl s'(1) by auto
  ultimately show ?thesis using e s' by (auto simp: re_join_def)
qed

section \<open>The slots of the new group\<close>

lemma slots_ok_snoc:
  assumes ok: "slots_ok V f m l" and g: "g \<notin> ri_gw ` set l"
  shows "g \<notin> V \<Longrightarrow> slots_ok V f m (l @ [\<lparr>ri_gw = g, ri_idx = DROP_RE_IDX\<rparr>])"
    and "g \<in> V \<Longrightarrow> slots_ok V f (m + 1) (l @ [\<lparr>ri_gw = g, ri_idx = f + m + 1\<rparr>])"
proof -
  note D = slots_okD [OF ok]
  show "slots_ok V f m (l @ [\<lparr>ri_gw = g, ri_idx = DROP_RE_IDX\<rparr>])" if "g \<notin> V"
    using that D g by (intro slots_okI) auto
  have below: "ri_idx x < f + m + 1" if "x \<in> set l" "ri_gw x \<in> V" for x using D(5) [OF that] by linarith
  show "slots_ok V f (m + 1) (l @ [\<lparr>ri_gw = g, ri_idx = f + m + 1\<rparr>])" if "g \<in> V"
  proof (rule slots_okI, goal_cases)
    case 1 with D(1) g show ?case by auto
  next
    case 2 with D(2) show ?case by simp
  next
    case (3 x) with D(3) that show ?case by auto
  next
    case (4 x) with D(2) D(4) [of x] below [of x] show ?case by auto
  next
    case (5 x y) with D(6) [of x y] below [of x] below [of y] show ?case by auto
  next
    case (6 i) with D(7) [of i] that show ?case by (cases "i = f + m + 1") auto
  qed
qed

definition fill_inv :: "env \<Rightarrow> int \<Rightarrow> int \<Rightarrow> int \<Rightarrow> 'a grp_st_scheme \<Rightarrow> nat \<Rightarrow> re_idx list \<Rightarrow> 'a grp_st_scheme \<Rightarrow> bool" where
  "fill_inv E k f n s0 start l s \<longleftrightarrow>
     joined k (ri_gw ` set l) (ret s0) (ret s) \<and> slots_ok (valid_gws s0) f (int start - 1) l \<and>
     (\<exists>t c h. s = s0\<lparr>ret := t, re_cnt := c, hw := h\<rparr>) \<and>
     (\<forall>d i. i < f \<or> f + n \<le> i \<longrightarrow> uc_entry_at (hw s) d i = uc_entry_at (hw s0) d i) \<and>
     (\<forall>x \<in> set l. \<forall>r \<in> set (ret s). \<forall>d < e_ndevs E. ri_gw x \<in> valid_gws s0 \<longrightarrow> re_gw r = ri_gw x \<longrightarrow>
        uc_entry_at (hw s) d (ri_idx x) = re_hw E s0 r)"

lemma joined_valid:
  assumes J: "joined k G (ret s0) t" and kd: "keys_distinct re_gw (ret s0)" and r: "r \<in> set t"
  shows "re_valid r \<longleftrightarrow> re_gw r \<in> valid_gws s0"
  using J r
proof (cases rule: joined_cases)
  case old
  with kd re_unique [OF kd] show ?thesis unfolding in_valid_gws by metis
next
  case (join r0)
  then have "re_valid r = re_valid r0" "re_gw r = re_gw r0" by (simp_all add: re_join_def)
  with join kd re_unique [OF kd] show ?thesis unfolding in_valid_gws by metis
next
  case fresh
  have "re_gw r \<notin> valid_gws s0" using fresh(2) unfolding in_valid_gws by (metis image_eqI)
  moreover have "\<not> re_valid r" by (subst fresh(3)) simp
  ultimately show ?thesis by simp
qed

lemma joined_hw:
  assumes J: "joined k G t0 t" and r: "r \<in> set t" "re_valid r"
    and "\<And>x. x \<in> set t0 \<Longrightarrow> re_valid x \<Longrightarrow> re_hw E s x \<noteq> None"
  shows "re_hw E s r \<noteq> None"
  using J r(1)
proof (cases rule: joined_cases)
  case (join r0)
  then have "re_valid r0" using r(2) by (simp add: re_join_def)
  with join assms(4) [of r0] show ?thesis by simp
next
  case fresh
  with r show ?thesis by (metis new_re_simps(2))
qed (use r assms(4) in auto)

text \<open>One turn of the loop.\<close>

lemma fill_inv_frame:
  assumes "fill_inv E k f n s0 start l s"
  shows "vif_same s s0" "re_group s = re_group s0" "ret_indexes_used s = ret_indexes_used s0" "group_ids s = group_ids s0"
proof -
  obtain t c h where "s = s0\<lparr>ret := t, re_cnt := c, hw := h\<rparr>" using assms by (auto simp: fill_inv_def)
  then show "vif_same s s0" "re_group s = re_group s0" "ret_indexes_used s = ret_indexes_used s0" "group_ids s = group_ids s0"
    by (simp_all add: vif_same_def)
qed

lemma fill_step:
  fixes s :: "'a grp_st_scheme"
  assumes inv: "fill_inv E k f n s0 start l s" and g: "g \<notin> ri_gw ` set l"
    and base: "grp_inv E s0" and len: "int (length l) < n" and add: "ret_add g k s = (re, s1)"
  shows "if re_valid re
         then fill_inv E k f n s0 (start + 1) (l @ [\<lparr>ri_gw = g, ri_idx = f + int start\<rparr>]) (ret_set_re_to_idx E re (f + int start) s1)
         else fill_inv E k f n s0 start (l @ [\<lparr>ri_gw = g, ri_idx = DROP_RE_IDX\<rparr>]) s1"
proof -
  note b = grp_inv_v_base [OF base [unfolded grp_inv_def]]
  have J: "joined k (ri_gw ` set l) (ret s0) (ret s)" and sl: "slots_ok (valid_gws s0) f (int start - 1) l"
    and old: "\<And>x r d. x \<in> set l \<Longrightarrow> r \<in> set (ret s) \<Longrightarrow> d < e_ndevs E \<Longrightarrow> ri_gw x \<in> valid_gws s0 \<Longrightarrow>
        re_gw r = ri_gw x \<Longrightarrow> uc_entry_at (hw s) d (ri_idx x) = re_hw E s0 r"
    and out: "\<And>d i. i < f \<or> f + n \<le> i \<Longrightarrow> uc_entry_at (hw s) d i = uc_entry_at (hw s0) d i"
    and "\<exists>t c h. s = s0\<lparr>ret := t, re_cnt := c, hw := h\<rparr>"
    using inv by (auto simp: fill_inv_def)
  then obtain t0 c0 h0 where fr: "s = s0\<lparr>ret := t0, re_cnt := c0, hw := h0\<rparr>" by blast
  have J1: "joined k (insert g (ri_gw ` set l)) (ret s0) (ret s1)" and re: "re \<in> set (ret s1)" "re_gw re = g"
    and s1: "s1 = s\<lparr>ret := ret s1, re_cnt := re_cnt s1\<rparr>"
    using ret_add_joined [OF J g add] by auto
  obtain t c where tc: "s1 = s\<lparr>ret := t, re_cnt := c\<rparr>" using s1 by blast
  then have hw1: "hw s1 = hw s" by simp
  have vs1: "vif_same s1 s0" using fill_inv_frame(1) [OF inv] by (simp add: tc vif_same_def)
  have kd1: "keys_distinct re_gw (ret s1)" using J1 by (simp add: joined_def)
  have gV: "re_valid re \<longleftrightarrow> g \<in> valid_gws s0" using joined_valid [OF J1 b(2) re(1)] re(2) by simp
  text \<open>The entries of the earlier gateways are those of the table before the turn.\<close>
  have keep: "uc_entry_at (hw s) d (ri_idx x) = re_hw E s0 r"
    if "x \<in> set l" "r \<in> set (ret s1)" "d < e_ndevs E" "ri_gw x \<in> valid_gws s0" "re_gw r = ri_gw x" for x r d
  proof -
    have "re_gw r \<noteq> g" using that g by auto
    moreover have "set (ret s1) \<subseteq> set (ret s) \<union> {r. re_gw r = g}"
    proof (cases "hash_find re_gw (ret s) g")
      case None
      with add show ?thesis by (auto simp: ret_add_def hash_add_def Let_def)
    next
      case (Some e)
      have kd: "keys_distinct re_gw (ret s)" using J by (simp add: joined_def)
      from Some add have "ret s1 = hash_mod re_gw g (re_join k) (ret s)" by (auto simp: ret_add_def)
      then show ?thesis using set_hash_mod [OF kd, of "re_join k" g] by auto
    qed
    ultimately have "r \<in> set (ret s)" using that(2) by auto
    from old [OF that(1) this that(3-5)] show ?thesis .
  qed
  show ?thesis
  proof (cases "re_valid re")
    case False
    then have "slots_ok (valid_gws s0) f (int start - 1) (l @ [\<lparr>ri_gw = g, ri_idx = DROP_RE_IDX\<rparr>])"
      using slots_ok_snoc(1) [OF sl g] gV by simp
    moreover have "s1 = s0\<lparr>ret := t, re_cnt := c, hw := h0\<rparr>" unfolding tc fr by simp
    then have "\<exists>t c h. s1 = s0\<lparr>ret := t, re_cnt := c, hw := h\<rparr>" by blast
    ultimately show ?thesis
      using False J1 out keep gV by (auto simp: fill_inv_def hw1)
  next
    case True
    then obtain v where v: "re_hw E s0 re = Some v"
      using joined_hw [OF J1 re(1), of E s0] b(4) by blast
    have "re_hw E s1 re = Some v" using v vif_same_hw [OF vs1] by simp
    moreover have "vif_wf E s1" using b(1) vif_same_wf [OF vs1] by simp
    ultimately have w: "ret_set_re_to_idx E re (f + int start) s1 =
        s1\<lparr>hw := dev_writes E (\<lambda>d. Uc (UcRouteEntriesWrite d (f + int start) v)) @ hw s1\<rparr>" (is "_ = ?s2")
      by (intro ret_set_re_to_idx_eq)
    have "int start - 1 < int (length l)" by (rule slots_ok_bound [OF sl])
    then have "f + int start < f + n" using len by simp
    moreover have "ri_idx x \<noteq> f + int start" if "x \<in> set l" "ri_gw x \<in> valid_gws s0" for x
      using slots_okD(5) [OF sl that] by simp
    moreover have "slots_ok (valid_gws s0) f (int (start + 1) - 1) (l @ [\<lparr>ri_gw = g, ri_idx = f + int start\<rparr>])"
      using slots_ok_snoc(2) [OF sl g] gV True by simp
    moreover have "?s2 = s0\<lparr>ret := t, re_cnt := c, hw := hw ?s2\<rparr>" unfolding tc fr by simp
    then have "\<exists>t c h. ?s2 = s0\<lparr>ret := t, re_cnt := c, hw := h\<rparr>" by blast
    moreover have "r = re" if "r \<in> set (ret s1)" "re_gw r = g" for r
      using that re kd1 re_unique by metis
    ultimately show ?thesis
      using True J1 out keep v unfolding w by (auto simp: fill_inv_def uc_entry_dev_writes hw1)
  qed
qed

lemma group_fill_inv:
  fixes s :: "'a grp_st_scheme"
  assumes "grp_inv E s0" and "fill_inv E k f n s0 start l s" and "distinct (map ri_gw l @ gs)"
    and "int (length l) + int (length gs) \<le> n" and idxs: "idxs = [f .. f + n - 1]"
    and "group_fill E k idxs gs start l s = (start', l', s')"
  shows "fill_inv E k f n s0 start' l' s' \<and> map ri_gw l' = map ri_gw l @ gs"
  using assms(2-4,6)
proof (induction gs arbitrary: start l s)
  case Nil
  then show ?case by simp
next
  case (Cons g gs)
  obtain re s1 where add: "ret_add g k s = (re, s1)" by (cases "ret_add g k s") auto
  have g: "g \<notin> ri_gw ` set l" using Cons.prems(2) by auto
  have len: "int (length l) < n" using Cons.prems(3) by simp
  note step = fill_step [OF Cons.prems(1) g assms(1) len add]
  show ?case
  proof (cases "re_valid re")
    case True
    have "slots_ok (valid_gws s0) f (int start - 1) l" using Cons.prems(1) by (simp add: fill_inv_def)
    from slots_ok_bound [OF this] len have "int start < n" by simp
    then have ix: "idx_at idxs start = f + int start" by (auto simp add: idx_at_def idxs nth_upto)
    let ?l = "dl_append l \<lparr>ri_gw = g, ri_idx = f + int start\<rparr>" and ?s = "ret_set_re_to_idx E re (f + int start) s1"
    have F: "fill_inv E k f n s0 (start + 1) ?l ?s" using step True by (simp add: dl_append_def)
    have eq: "group_fill E k idxs gs (start + 1) ?l ?s = (start', l', s')"
      using Cons.prems(4) True add ix by simp
    from Cons.IH [OF F _ _ eq] Cons.prems(2,3) show ?thesis by (simp add: dl_append_def)
  next
    case False
    let ?l = "dl_append l \<lparr>ri_gw = g, ri_idx = DROP_RE_IDX\<rparr>"
    have F: "fill_inv E k f n s0 start ?l s1" using step False by (simp add: dl_append_def)
    have eq: "group_fill E k idxs gs start ?l s1 = (start', l', s')"
      using Cons.prems(4) False add by simp
    from Cons.IH [OF F _ _ eq] Cons.prems(2,3) show ?thesis by (simp add: dl_append_def)
  qed
qed

section \<open>A new group\<close>

lemma joined_back:
  assumes J: "joined k G t0 t" and r: "r \<in> set t" and "re_gw r \<in> re_gw ` set t0"
  obtains r0 where "r0 \<in> set t0" "r = r0 \<or> r = re_join k r0"
  using J r by (cases rule: joined_cases) (use assms(3) that in blast)+

lemma joined_forth:
  assumes J: "joined k G t0 t" and kd: "keys_distinct re_gw t0" and r0: "r0 \<in> set t0"
  obtains r where "r \<in> set t" "r = r0 \<or> r = re_join k r0"
proof -
  have "re_gw r0 \<in> re_gw ` set t" using J r0 by (auto simp: joined_def)
  then obtain r where r: "r \<in> set t" "re_gw r = re_gw r0" by fastforce
  then have "re_gw r \<in> re_gw ` set t0" using r0 by auto
  from joined_back [OF J r(1) this] obtain a where a: "a \<in> set t0" "r = a \<or> r = re_join k a" .
  then have "re_gw a = re_gw r0" using r(2) by auto
  with re_unique [OF kd a(1) r0] have "a = r0" .
  with a r(1) that show thesis by blast
qed

lemma group_ids_join: "set (re_group_ids (re_join k r)) = insert k (set (re_group_ids r))"
  "distinct (re_group_ids (re_join k r)) = distinct (re_group_ids r)"
  by (auto simp: re_join_def ret_add_group_to_list_def dl_search_int)

text \<open>The invariant once the group is in the table.\<close>

lemma filled_inv:
  fixes s :: "'a grp_st_scheme"
  assumes inv: "grp_inv E s1" and k: "k \<in> set (group_ids s1)" "k \<notin> group_id ` set (re_group s1)"
    and run: "{f ..< f + n} \<subseteq> set (ret_indexes_used s1)"
    and apart: "\<And>a. a \<in> set (re_group s1) \<Longrightarrow> {first_idx a ..< first_idx a + re_count a} \<inter> {f ..< f + n} = {}"
    and fill: "fill_inv E k f n s1 start l s" and len: "int (length l) = n"
    and g: "group_id g = k" "re_count g = n" "first_idx g = f" "numOfPaths g = int start - 1" "re_idx g = l"
    and t: "ret t = ret s" "re_group t = re_group s @ [g]" "ret_indexes_used t = ret_indexes_used s"
      "group_ids t = group_ids s" "vif_same t s" "uc_silent (hw s) (hw t)"
  shows "grp_inv E t"
proof -
  let ?V = "valid_gws s1"
  note b = grp_inv_v_base [OF inv [unfolded grp_inv_def]]
  note fr = fill_inv_frame [OF fill]
  have J: "joined k (ri_gw ` set l) (ret s1) (ret s)" and sl: "slots_ok ?V f (int start - 1) l"
    and new: "\<And>x r d. x \<in> set l \<Longrightarrow> r \<in> set (ret s) \<Longrightarrow> d < e_ndevs E \<Longrightarrow> ri_gw x \<in> ?V \<Longrightarrow>
        re_gw r = ri_gw x \<Longrightarrow> uc_entry_at (hw s) d (ri_idx x) = re_hw E s1 r"
    and out: "\<And>d i. i < f \<or> f + n \<le> i \<Longrightarrow> uc_entry_at (hw s) d i = uc_entry_at (hw s1) d i"
    using fill by (auto simp: fill_inv_def)
  have kd: "keys_distinct re_gw (ret s)" and mem: "ri_gw ` set l \<subseteq> re_gw ` set (ret s)"
    using J by (auto simp: joined_def)
  have vs: "vif_same t s1" using t(5) fr(1) by (auto simp: vif_same_def)
  note hw = vif_same_hw [OF vs] vif_same_wf [OF vs]
  have uc: "uc_entry_at (hw t) = uc_entry_at (hw s)" using t(6) by (auto simp: uc_silent_def fun_eq_iff)
  have grps: "set (re_group t) = insert g (set (re_group s1))" by (simp add: t fr)
  have valid: "re_valid r \<longleftrightarrow> re_gw r \<in> ?V" if "r \<in> set (ret t)" for r
    using joined_valid [OF J b(2)] that t(1) by simp
  have gws: "re_gw ` set (ret s1) \<subseteq> re_gw ` set (ret t)" using J t(1) by (simp add: joined_def)
  have vt: "valid_gws t = ?V"
  proof (intro set_eqI iffI)
    fix x assume "x \<in> valid_gws t"
    with valid show "x \<in> ?V" by (auto simp: in_valid_gws [of x t])
  next
    fix x assume x: "x \<in> ?V"
    then have "x \<in> re_gw ` set (ret s1)" by (auto simp: valid_gws_def)
    with gws obtain r where "r \<in> set (ret t)" "re_gw r = x" by auto
    with x valid show "x \<in> valid_gws t" by (auto simp: in_valid_gws [of x t])
  qed
  have known: "\<exists>a \<in> set (re_group t). group_id a = i \<and> w \<in> ri_gw ` set (re_idx a)"
    if "re_ok s1 r0" "i \<in> set (re_group_ids r0)" "re_gw r0 = w" for r0 i w
    using that unfolding re_ok_def grps by blast
  have mine_gw: "\<exists>a \<in> set (re_group t). group_id a = k \<and> w \<in> ri_gw ` set (re_idx a)" if "w \<in> ri_gw ` set l" for w
    using that g unfolding grps by blast
  have ok: "re_ok t r" if r: "r \<in> set (ret t)" for r
    using J r [unfolded t(1)]
  proof (cases rule: joined_cases)
    case old
    with b(5) [OF old(2)] known show ?thesis by (auto simp: re_ok_def)
  next
    case (join r0)
    from b(5) [OF join(2)] have "distinct (re_group_ids r0)" by (simp add: re_ok_def)
    moreover have "\<exists>a \<in> set (re_group t). group_id a = i \<and> re_gw r0 \<in> ri_gw ` set (re_idx a)"
      if "i \<in> insert k (set (re_group_ids r0))" for i
      using that known [OF b(5) [OF join(2)] _ refl] mine_gw [of "re_gw r0"] join by auto
    ultimately show ?thesis unfolding join(3) re_ok_def group_ids_join re_gw_join
      by (metis group_ids_join(1) insert_not_empty list.set(1))
  next
    case fresh
    have "re_group_ids r = [k]" by (subst fresh(3)) simp
    with mine_gw [OF fresh(1)] show ?thesis by (simp add: re_ok_def)
  qed
  have disj: "runs_disjoint (re_group t)"
  proof -
    have "runs_disjoint (re_group s1)" using inv by (simp add: grp_inv_def grp_inv_v_def grp_base_def)
    with apart show ?thesis unfolding runs_disjoint_def grps by (metis g(2,3) Int_commute insert_iff)
  qed
  have valid_hw: "re_hw E t r \<noteq> None" if "r \<in> set (ret t)" "re_valid r" for r
    unfolding hw using joined_hw [OF J, of r E s1] that t(1) b(4) by force
  have base: "grp_base E t"
    using inv kd k disj ok valid_hw
    by (simp add: grp_inv_def grp_inv_v_def grp_base_def res_ok_def hw t fr g)
  have old: "group_ok E ?V {} t a" if a: "a \<in> set (re_group s1)" for a
  proof -
    note ok = b(7) [OF a]
    have "\<exists>r \<in> set (ret t). re_gw r = ri_gw x \<and> group_id a \<in> set (re_group_ids r)" if x: "x \<in> set (re_idx a)" for x
    proof -
      from group_okD(4) [OF ok x] obtain r0 where r0: "r0 \<in> set (ret s1)" "re_gw r0 = ri_gw x" "group_id a \<in> set (re_group_ids r0)" by blast
      from joined_forth [OF J b(2) r0(1)] obtain r where "r \<in> set (ret s)" "r = r0 \<or> r = re_join k r0" .
      with r0 t(1) show ?thesis by (intro bexI [of _ r]) (auto simp: group_ids_join)
    qed
    moreover have "uc_entry_at (hw t) d (ri_idx x) = re_hw E t r"
      if x: "x \<in> set (re_idx a)" and r: "r \<in> set (ret t)" and d: "d < e_ndevs E" and v: "ri_gw x \<in> ?V - {}" and w: "re_gw r = ri_gw x" for x r d
    proof -
      have "first_idx a \<le> ri_idx x" "ri_idx x < first_idx a + re_count a"
        using group_ok_slot [OF ok x] v by auto
      with apart [OF a] have "ri_idx x < f \<or> f + n \<le> ri_idx x" by fastforce
      then have "uc_entry_at (hw t) d (ri_idx x) = uc_entry_at (hw s1) d (ri_idx x)" by (simp add: uc out)
      moreover have "re_gw r \<in> re_gw ` set (ret s1)" using v w by (auto simp: valid_gws_def)
      moreover obtain r0 where r0: "r0 \<in> set (ret s1)" "r = r0 \<or> r = re_join k r0"
        using joined_back [OF J] r t(1) calculation(2) by metis
      moreover have "re_gw r0 = ri_gw x" using r0(2) w by auto
      ultimately show ?thesis using group_okD(5) [OF ok x r0(1) d v] hw(1) by auto
    qed
    ultimately show ?thesis using group_okD(1-3) [OF ok] unfolding group_ok_def t fr by blast
  qed
  have mine: "group_ok E ?V {} t g"
    unfolding group_ok_def g t(1)
  proof (intro conjI ballI allI impI, goal_cases)
    case 1 with len show ?case by simp
  next
    case 2 from sl show ?case .
  next
    case 3 with run show ?case by (simp add: t fr)
  next
    case (4 x)
    with mem obtain r where r: "r \<in> set (ret s)" "re_gw r = ri_gw x" by auto
    from 4 r(2) have "re_gw r \<in> ri_gw ` set l" by auto
    with J r(1) have "k \<in> set (re_group_ids r)"
      by (cases rule: joined_cases) (simp, simp add: group_ids_join, metis list.set_intros(1) new_re_simps(3))
    with r show ?case by blast
  next
    case (5 x r d)
    with new [of x r d] show ?case by (simp add: uc hw)
  qed
  show ?thesis using base old mine by (simp add: grp_inv_def grp_inv_v_def vt grps)
qed

section \<open>Adding a prefix\<close>

lemma lpm_add_eq_ex: "\<exists>h. lpm_add E a l e s = s\<lparr>hw := h\<rparr> \<and> uc_silent (hw s) h"
  by (auto simp: lpm_add_eq lpm_add_silent)

lemma group_request_eq: "\<exists>h. group_request gws s = s\<lparr>hw := h\<rparr> \<and> uc_silent (hw s) h"
proof -
  have "\<exists>h. ret_arpc_request_addr g s = s\<lparr>hw := h\<rparr> \<and> uc_silent (hw s) h" for g and s :: "'a ret_st_scheme"
  proof -
    have "ret_arpc_request_addr g s \<in> {s\<lparr>hw := hw s\<rparr>,
        s\<lparr>hw := Msg (MacOpOpna ARPD_CC_IP_ADDR_ADD (gw_vid g) (gw_addr g)) # hw s\<rparr>,
        s\<lparr>hw := Msg (ArpdSend ARPD_CC_IP_ADDR_ADD (gw_vid g) (gw_addr g)) # hw s\<rparr>}"
      by (simp add: ret_arpc_request_addr_def arpc_request_addr_def arpc_ip_addr_op_def emit_def)
    moreover have "uc_silent h (Msg m # h)" for h m by (rule uc_silent_Cons) (simp add: uc_write_def)
    ultimately show ?thesis by (elim insertE) (force intro: exI [of _ "hw s"])+
  qed
  from fold_hw_silent [of ret_arpc_request_addr, OF this] show ?thesis by (simp add: group_request_def)
qed

text \<open>A change of the users of a group is not seen by the invariant.\<close>

lemma group_put_users_inv:
  fixes s :: "'a grp_st_scheme"
  assumes inv: "grp_inv E s" and g: "g \<in> set (re_group s)"
  shows "grp_inv E (group_put (g\<lparr>pfx_pbr := u\<rparr>) s)"
proof -
  let ?g = "g\<lparr>pfx_pbr := u\<rparr>" and ?t = "group_put (g\<lparr>pfx_pbr := u\<rparr>) s"
  note inv0 = inv [unfolded grp_inv_def]
  note b = grp_inv_v_base [OF inv0]
  have hw: "re_hw E ?t r = re_hw E s r" "vif_wf E ?t = vif_wf E s" for r
    by (rule vif_same_hw [OF group_put_frame(5)], rule vif_same_wf [OF group_put_frame(5)])
  have tbl: "re_group ?t = map (\<lambda>a. if group_id a = group_id g then ?g else a) (re_group s)"
    using upd1_map [OF b(3), of "\<lambda>e. group_id e = group_id g" "group_id g" "\<lambda>_. ?g"]
    by (simp add: group_put_def hash_mod_def)
  have key: "a = g" if "a \<in> set (re_group s)" "group_id a = group_id g" for a
    using b(3) that g by (auto simp: distinct_map dest: inj_onD)
  have set_tbl: "set (re_group ?t) = (\<lambda>a. if a = g then ?g else a) ` set (re_group s)"
    unfolding tbl using key by force
  have ids: "map group_id (re_group ?t) = map group_id (re_group s)" by (simp add: tbl)
  have idset: "group_id ` set (re_group ?t) = group_id ` set (re_group s)" using ids by (metis list.set_map)
  have vg: "valid_gws ?t = valid_gws s" by (rule valid_gws_cong) (simp add: group_put_frame)
  have "runs_disjoint (re_group s)" using inv0 by (simp add: grp_inv_v_def grp_base_def)
  then have "runs_disjoint (re_group ?t)" by (rule runs_disjoint_map [OF _ set_tbl]) simp
  moreover have "re_ok ?t r" if "r \<in> set (ret s)" for r
  proof -
    have "\<exists>b \<in> set (re_group ?t). group_id b = i \<and> w \<in> ri_gw ` set (re_idx b)"
      if "a \<in> set (re_group s)" "group_id a = i" "w \<in> ri_gw ` set (re_idx a)" for a i w
      unfolding set_tbl using that by (intro bexI [of _ "if a = g then ?g else a"]) auto
    with b(5) [OF that] show ?thesis unfolding re_ok_def by metis
  qed
  ultimately have "grp_base E ?t"
    using inv0 by (simp add: grp_inv_v_def grp_base_def res_ok_def hw ids idset group_put_frame)
  moreover have "group_ok E (valid_gws s) {} ?t a" if "a \<in> set (re_group ?t)" for a
  proof -
    have same: "group_ok E (valid_gws s) {} ?t (c\<lparr>pfx_pbr := v\<rparr>) = group_ok E (valid_gws s) {} s c"
      "group_ok E (valid_gws s) {} ?t c = group_ok E (valid_gws s) {} s c" for c v
    proof -
      have e: "re_count (c\<lparr>pfx_pbr := v\<rparr>) = re_count c" "first_idx (c\<lparr>pfx_pbr := v\<rparr>) = first_idx c"
        "numOfPaths (c\<lparr>pfx_pbr := v\<rparr>) = numOfPaths c" "re_idx (c\<lparr>pfx_pbr := v\<rparr>) = re_idx c"
        "group_id (c\<lparr>pfx_pbr := v\<rparr>) = group_id c" by simp_all
      show "group_ok E (valid_gws s) {} ?t (c\<lparr>pfx_pbr := v\<rparr>) = group_ok E (valid_gws s) {} s c"
        unfolding group_ok_def hw group_put_frame e ..
      show "group_ok E (valid_gws s) {} ?t c = group_ok E (valid_gws s) {} s c"
        unfolding group_ok_def hw group_put_frame ..
    qed
    from that obtain c where c: "c \<in> set (re_group s)" "a = (if c = g then ?g else c)" unfolding set_tbl by blast
    show ?thesis
    proof (cases "c = g")
      case True
      show ?thesis unfolding c(2) if_P [OF True] same(1) by (rule b(7) [OF g])
    next
      case False
      show ?thesis unfolding c(2) if_not_P [OF False] same(2) by (rule b(7) [OF c(1)])
    qed
  qed
  ultimately show ?thesis by (simp add: grp_inv_def grp_inv_v_def vg)
qed

lemma grp_inv_cong:
  fixes s s' :: "'a grp_st_scheme"
  assumes "vif_same s' s" and "ret s' = ret s" and "re_group s' = re_group s"
    and "ret_indexes_used s' = ret_indexes_used s" and "group_ids s' = group_ids s"
    and "uc_silent (hw s) (hw s')" and "grp_inv E s"
  shows "grp_inv E s'"
  using grp_inv_v_cong [OF assms(1-6), of E] assms(7) valid_gws_cong [OF assms(2)] by (simp add: grp_inv_def)

lemma grp_inv_hw: "grp_inv E s \<Longrightarrow> uc_silent (hw s) h \<Longrightarrow> grp_inv E (s\<lparr>hw := h\<rparr>)"
  by (rule grp_inv_cong [of "s\<lparr>hw := h\<rparr>" s]) (simp_all add: vif_same_def)

lemma group_new_inv:
  fixes s :: "'a grp_st_scheme"
  assumes inv: "grp_inv E s" and gws: "distinct gws" and pop: "res_pop (int (length gws)) s = Some (ids, s')"
    and new: "group_new E gws add s = (g, t)"
  shows "grp_inv E (t\<lparr>re_group := re_group t @ [g]\<rparr>) \<and> re_group t = re_group s \<and>
     map ri_gw (re_idx g) = gws \<and> pfx_pbr g = [add] \<and> group_id g \<notin> set (group_ids s) \<and> 0 < group_id g"
proof -
  let ?n = "int (length gws)"
  note b = grp_inv_v_base [OF inv [unfolded grp_inv_def]]
  obtain k s0 where k: "get_new_group_id s = (k, s0)" by (cases "get_new_group_id s") auto
  note fresh = get_new_group_id_fresh [OF k]
  then have s0: "s0 = s\<lparr>group_ids := group_ids s @ [k]\<rparr>" by blast
  from res_pop_SomeD [OF pop] have n: "0 < ?n" "?n < 9" by auto
  have used: "ret_indexes_used s0 = ret_indexes_used s" by (simp add: s0)
  from res_pop_SomeD [OF pop] obtain a0 where "free_run (ret_indexes_used s0) ?n a0" unfolding used by blast
  then obtain f where pop0: "res_pop ?n s0 = Some ([f .. f + ?n - 1], s0\<lparr>ret_indexes_used := ret_indexes_used s0 @ [f .. f + ?n - 1]\<rparr>)"
    and free: "free_run (ret_indexes_used s) ?n f"
    using res_pop_cases [OF n, of s0] unfolding used by metis
  define s1 where "s1 = s0\<lparr>ret_indexes_used := ret_indexes_used s0 @ [f .. f + ?n - 1]\<rparr>"
  obtain start l s2 where fill: "group_fill E k [f .. f + ?n - 1] gws 0 [] s1 = (start, l, s2)"
    by (cases "group_fill E k [f .. f + ?n - 1] gws 0 [] s1") auto
  have first: "idx_at [f .. f + ?n - 1] 0 = f" using n by (simp add: idx_at_def nth_upto)
  have g: "g = \<lparr>group_id = k, re_count = ?n, first_idx = f, numOfPaths = int start - 1, re_idx = l, pfx_pbr = [add]\<rparr>" "t = s2"
    using new fill unfolding group_new_def k by (simp_all add: pop_idxs_def pop0 s1_def first dl_append_def dl_append_def)
  have vs: "vif_same s1 s" by (simp add: s1_def s0 vif_same_def)
  note hw = vif_same_hw [OF vs] vif_same_wf [OF vs]
  have res: "res_ok s1" using b(6) res_pop_ok [OF _ pop0] s0 by (simp add: s1_def res_ok_def)
  have fields: "ret s1 = ret s" "re_group s1 = re_group s" "group_ids s1 = group_ids s @ [k]" "hw s1 = hw s"
    "ret_indexes_used s1 = ret_indexes_used s @ [f .. f + ?n - 1]" by (simp_all add: s1_def s0)
  have inv1: "grp_inv E s1"
  proof -
    have "grp_base E s1"
      using inv res fresh by (auto simp: grp_inv_def grp_inv_v_def grp_base_def hw fields re_ok_def)
    moreover have "group_ok E (valid_gws s) {} s1 a" if "a \<in> set (re_group s)" for a
    proof -
      have "{first_idx a ..< first_idx a + re_count a} \<subseteq> set (ret_indexes_used s1)"
        using group_okD(3) [OF b(7) [OF that]] unfolding fields by auto
      with b(7) [OF that] show ?thesis unfolding group_ok_def fields hw by blast
    qed
    ultimately show ?thesis by (simp add: grp_inv_def grp_inv_v_def fields valid_gws_cong [of s1 s])
  qed
  have apart: "{first_idx a ..< first_idx a + re_count a} \<inter> {f ..< f + ?n} = {}" if "a \<in> set (re_group s1)" for a
  proof -
    have "{first_idx a ..< first_idx a + re_count a} \<subseteq> set (ret_indexes_used s)"
      using group_okD(3) [OF b(7)] that unfolding fields by blast
    with free show ?thesis unfolding free_run_def by fastforce
  qed
  have start: "fill_inv E k f ?n s1 0 [] s1"
    using b(2) by (auto simp: fill_inv_def fields joined_start slots_ok_def intro!: exI [of _ "ret s1"] exI [of _ "re_cnt s1"] exI [of _ "hw s1"])
  have F: "fill_inv E k f ?n s1 start l s2" and l: "map ri_gw l = gws"
    using group_fill_inv [OF inv1 start _ _ refl fill] gws by auto
  have run: "{f ..< f + ?n} \<subseteq> set (ret_indexes_used s1)" by (auto simp: fields)
  have "group_id ` set (re_group s) \<subseteq> set (group_ids s)" using inv by (simp add: grp_inv_def grp_inv_v_def grp_base_def)
  then have notin: "k \<notin> group_id ` set (re_group s1)" using fresh by (auto simp: fields)
  have len: "int (length l) = ?n" using l by (metis length_map)
  have kin: "k \<in> set (group_ids s1)" by (simp add: fields)
  have "grp_inv E (t\<lparr>re_group := re_group t @ [g]\<rparr>)"
    by (rule filled_inv [OF inv1 kin notin run apart F len, where g = g]) (simp_all add: g vif_same_def)
  moreover have "re_group t = re_group s" using fill_inv_frame(2) [OF F] by (simp add: g fields)
  ultimately show ?thesis using l fresh by (simp add: g)
qed

theorem ret_group_add_kept:
  assumes inv: "grp_inv E s" and gws: "distinct gws"
    and room: "group_match gws s = None \<Longrightarrow> res_pop (int (length gws)) s \<noteq> None"
  shows "grp_inv E (snd (ret_group_add E gws ip alen s))"
proof (cases "group_match gws s")
  case (Some el)
  then have el: "el \<in> set (re_group s)" unfolding group_match_def by (auto dest: find_SomeD)
  define u where "u = (if dl_search list_route_pfx_pbr_cmp_pfx (pfx_pbr el) (ROUTE_PFX (htonl (e_big_endian E) ip) alen) = None
    then dl_append (pfx_pbr el) (ROUTE_PFX (htonl (e_big_endian E) ip) alen) else pfx_pbr el)"
  have u: "snd (ret_group_add E gws ip alen s) =
      lpm_add E (htonl (e_big_endian E) ip) alen (group_ltt_entry (el\<lparr>pfx_pbr := u\<rparr>)) (group_put (el\<lparr>pfx_pbr := u\<rparr>) s)"
    using Some by (simp add: ret_group_add_def Let_def u_def)
  let ?t = "group_put (el\<lparr>pfx_pbr := u\<rparr>) s"
  have "grp_inv E ?t" by (rule group_put_users_inv [OF inv el])
  moreover obtain h where "lpm_add E (htonl (e_big_endian E) ip) alen (group_ltt_entry (el\<lparr>pfx_pbr := u\<rparr>)) ?t = ?t\<lparr>hw := h\<rparr>"
    "uc_silent (hw ?t) h" using lpm_add_eq_ex by blast
  ultimately show ?thesis unfolding u by (simp only: grp_inv_hw)
next
  case None
  obtain ids s' where pop: "res_pop (int (length gws)) s = Some (ids, s')" using room None by auto
  obtain g t where new: "group_new E gws (ROUTE_PFX (htonl (e_big_endian E) ip) alen) s = (g, t)"
    by (cases "group_new E gws (ROUTE_PFX (htonl (e_big_endian E) ip) alen) s") auto
  note N = group_new_inv [OF inv gws pop new]
  obtain h where h: "lpm_add E (htonl (e_big_endian E) ip) alen (group_ltt_entry g) t = t\<lparr>hw := h\<rparr>" "uc_silent (hw t) h"
    using lpm_add_eq_ex by metis
  let ?u = "t\<lparr>hw := h, re_group := re_group t @ [g]\<rparr>"
  have u: "grp_inv E ?u"
    by (rule grp_inv_cong [of ?u "t\<lparr>re_group := re_group t @ [g]\<rparr>"]) (use conjunct1 [OF N] h(2) in \<open>simp_all add: vif_same_def\<close>)
  obtain h' where h': "group_request gws ?u = ?u\<lparr>hw := h'\<rparr>" "uc_silent (hw ?u) h'"
    using group_request_eq by metis
  have "snd (ret_group_add E gws ip alen s) = group_request gws ?u"
    using None new h by (simp add: ret_group_add_def hash_add_def)
  with grp_inv_hw [OF u h'(2)] h'(1) show ?thesis by simp
qed

lemma ret_group_add_inv:
  "grp_inv E s \<Longrightarrow> distinct gws \<Longrightarrow> res_pop (int (length gws)) s \<noteq> None \<Longrightarrow>
     grp_inv E (snd (ret_group_add E gws ip alen s))"
  by (rule ret_group_add_kept)

section \<open>Leaving a group\<close>

definition left :: "int \<Rightarrow> gw set \<Rightarrow> re list \<Rightarrow> re list \<Rightarrow> bool" where
  "left k G t0 t \<longleftrightarrow>
     keys_distinct re_gw t \<and>
     (\<forall>r \<in> set t. if re_gw r \<in> G then re_group_ids r \<noteq> [] \<and> (\<exists>r0 \<in> set t0. r = re_leave k r0) else r \<in> set t0) \<and>
     (\<forall>r0 \<in> set t0. re_gw r0 \<in> G \<and> re_group_ids (re_leave k r0) = [] \<or> re_gw r0 \<in> re_gw ` set t)"

definition quiet :: "'a grp_st_scheme \<Rightarrow> 'a grp_st_scheme \<Rightarrow> bool" where
  "quiet s t \<longleftrightarrow> vif_same t s \<and> re_group t = re_group s \<and> ret_indexes_used t = ret_indexes_used s \<and>
     group_ids t = group_ids s \<and> uc_silent (hw s) (hw t)"

lemma quiet_refl [simp]: "quiet s s"
  by (simp add: quiet_def vif_same_def)

lemma quiet_trans: "quiet s t \<Longrightarrow> quiet t u \<Longrightarrow> quiet s u"
  by (auto simp: quiet_def vif_same_def intro: uc_silent_trans)

lemma quiet_ret: "quiet s t \<Longrightarrow> quiet s (t\<lparr>ret := r\<rparr>)"
  by (simp add: quiet_def vif_same_def)

lemma quiet_cnt: "quiet s t \<Longrightarrow> quiet s (t\<lparr>re_cnt := r\<rparr>)"
  by (simp add: quiet_def vif_same_def)

lemma quiet_nht_unref: "quiet s t \<Longrightarrow> quiet s (snd (nht_unref a t))"
  using nht_unref_frame [OF refl, where a = a and s = t] by (auto simp: quiet_def vif_same_def intro: uc_silent_trans)

lemma quiet_release: "quiet s t \<Longrightarrow> quiet s (arpc_release_addr g t)"
proof -
  have "uc_silent h (Msg m # h)" for h m by (rule uc_silent_Cons) (simp add: uc_write_def)
  then show "quiet s t \<Longrightarrow> quiet s (arpc_release_addr g t)"
    by (auto simp: quiet_def vif_same_def arpc_release_addr_def arpc_ip_addr_op_def emit_def intro: uc_silent_trans)
qed

lemmas quiet_rules = quiet_ret quiet_cnt quiet_nht_unref quiet_release

lemma ret_release [simp]: "ret (arpc_release_addr g s) = ret s"
  by (simp add: arpc_release_addr_def arpc_ip_addr_op_def emit_def)

lemma re_gw_leave [simp]: "re_gw (re_leave k r) = re_gw r"
  by (simp add: re_leave_def)

lemma re_hw_leave [simp]: "re_hw E s (re_leave k r) = re_hw E s r"
  by (simp add: re_hw_def re_leave_def cong: option.case_cong)

lemma re_valid_leave [simp]: "re_valid (re_leave k r) = re_valid r"
  by (simp add: re_leave_def)

lemma group_ids_leave: "re_group_ids (re_leave k r) = remove1 k (re_group_ids r)"
  by (simp add: re_leave_def ret_remove_group_from_list_def dl_delete_found_int)

lemma leave_either:
  "r = a \<or> r = re_leave k a \<Longrightarrow> re_gw r = re_gw a \<and> re_valid r = re_valid a \<and> re_hw E s r = re_hw E s a"
  by (elim disjE) simp_all

lemma ret_unref_quiet:
  fixes s :: "'a grp_st_scheme"
  shows "quiet s (snd (ret_unref g k s))"
  by (auto simp: ret_unref_def Let_def split: option.splits intro!: quiet_rules)

text \<open>The table after \<open>ret_unref\<close>.\<close>

lemma ret_unref_table:
  fixes s :: "'a grp_st_scheme"
  assumes kd: "keys_distinct re_gw (ret s)"
  shows "set (ret (snd (ret_unref g k s))) =
      {r \<in> set (ret s). re_gw r \<noteq> g} \<union>
      {re_leave k r |r. r \<in> set (ret s) \<and> re_gw r = g \<and> re_group_ids (re_leave k r) \<noteq> []} \<and>
    keys_distinct re_gw (ret (snd (ret_unref g k s)))"
proof (cases "hash_find re_gw (ret s) g")
  case None
  then have "g \<notin> re_gw ` set (ret s)" by (simp add: hash_find_None)
  with None kd show ?thesis by (auto simp: ret_unref_def)
next
  case (Some e)
  let ?t = "hash_mod re_gw g (re_leave k) (ret s)"
  from Some have e: "e \<in> set (ret s)" "re_gw e = g" using hash_find_in by fastforce+
  have kd': "keys_distinct re_gw ?t" using kd by simp
  have only: "r = e" if "r \<in> set (ret s)" "re_gw r = g" for r using re_unique [OF kd that(1) e(1)] that(2) e(2) by simp
  have tbl: "set ?t = (\<lambda>x. if re_gw x = g then re_leave k x else x) ` set (ret s)"
    using set_hash_mod [OF kd, of "re_leave k" g] by simp
  show ?thesis
  proof (cases "re_group_ids (re_leave k e) = []")
    case True
    have unref: "ret (snd (nht_unref a t)) = ret t" for a and t :: "'a grp_st_scheme" by (rule nht_unref_frame(2)) (rule refl)
    have r: "ret (snd (ret_unref g k s)) = hash_del re_gw g ?t"
      using Some True by (simp add: ret_unref_def Let_def unref)
    have e1: "set (hash_del re_gw g ?t) = {r \<in> set (ret s). re_gw r \<noteq> g}"
      unfolding set_hash_del [OF kd'] tbl by auto
    have e2: "{re_leave k r |r. r \<in> set (ret s) \<and> re_gw r = g \<and> re_group_ids (re_leave k r) \<noteq> []} = {}"
      using True only by blast
    have e3: "keys_distinct re_gw (hash_del re_gw g ?t)" by (rule uth.wf_del [OF kd'])
    show ?thesis unfolding r e1 e2 using e3 by simp
  next
    case False
    then have r: "ret (snd (ret_unref g k s)) = ?t" using Some by (simp add: ret_unref_def Let_def)
    have "{re_leave k r |r. r \<in> set (ret s) \<and> re_gw r = g \<and> re_group_ids (re_leave k r) \<noteq> []} = re_leave k ` {r \<in> set (ret s). re_gw r = g}"
      using False only by blast
    then show ?thesis unfolding r tbl using kd' by auto
  qed
qed

lemma left_step:
  fixes s :: "'a grp_st_scheme"
  assumes L: "left k G t0 (ret s)" and kd0: "keys_distinct re_gw t0" and g: "g \<notin> G"
  shows "left k (insert g G) t0 (ret (snd (ret_unref g k s)))"
proof -
  have kd: "keys_distinct re_gw (ret s)" using L by (simp add: left_def)
  note T = ret_unref_table [OF kd, of g k]
  have in0: "r \<in> set t0" if "r \<in> set (ret s)" "re_gw r = g" for r using L that g by (auto simp: left_def)
  have "if re_gw r \<in> insert g G then re_group_ids r \<noteq> [] \<and> (\<exists>r0 \<in> set t0. r = re_leave k r0) else r \<in> set t0"
    if "r \<in> set (ret (snd (ret_unref g k s)))" for r
    using that in0 L T by (auto simp: left_def)
  moreover have "re_gw r0 \<in> insert g G \<and> re_group_ids (re_leave k r0) = [] \<or> re_gw r0 \<in> re_gw ` set (ret (snd (ret_unref g k s)))"
    if r0: "r0 \<in> set t0" for r0
  proof (cases "re_gw r0 \<in> G \<and> re_group_ids (re_leave k r0) = []")
    case False
    with L r0 obtain r where r: "r \<in> set (ret s)" "re_gw r = re_gw r0" by (fastforce simp: left_def)
    show ?thesis
    proof (cases "re_gw r0 = g")
      case True
      with r in0 have "r \<in> set t0" by simp
      from re_unique [OF kd0 this r0 r(2)] have "r = r0" .
      show ?thesis
      proof (cases "re_group_ids (re_leave k r0) = []")
        case False
        have "re_leave k r0 \<in> set (ret (snd (ret_unref g k s)))" using T r(1) \<open>r = r0\<close> True False by blast
        then show ?thesis by (metis image_eqI re_gw_leave)
      qed (use True in simp)
    next
      case False
      then have "r \<in> {r \<in> set (ret s). re_gw r \<noteq> g}" using r by simp
      then have "r \<in> set (ret (snd (ret_unref g k s)))" using T by blast
      then show ?thesis using r(2) by (metis image_eqI)
    qed
  qed simp
  ultimately show ?thesis using T unfolding left_def by blast
qed

lemma left_fold:
  fixes s :: "'a grp_st_scheme"
  assumes "left k G t0 (ret s)" and kd0: "keys_distinct re_gw t0" and "quiet s0 s"
    and "distinct (map ri_gw xs)" and "G \<inter> ri_gw ` set xs = {}"
  shows "left k (G \<union> ri_gw ` set xs) t0 (ret (fold (\<lambda>el s. snd (ret_unref (ri_gw el) k s)) xs s)) \<and>
         quiet s0 (fold (\<lambda>el s. snd (ret_unref (ri_gw el) k s)) xs s)"
  using assms(1,3-)
proof (induction xs arbitrary: s G)
  case Nil
  then show ?case by simp
next
  case (Cons x xs)
  let ?s = "snd (ret_unref (ri_gw x) k s)"
  have "left k (insert (ri_gw x) G) t0 (ret ?s)" using Cons.prems by (intro left_step [OF _ kd0]) auto
  moreover have "quiet s0 ?s" using Cons.prems(2) ret_unref_quiet by (rule quiet_trans)
  ultimately show ?case using Cons.IH [of "insert (ri_gw x) G" ?s] Cons.prems by auto
qed

lemma left_start: "keys_distinct re_gw t \<Longrightarrow> left k {} t t"
  by (simp add: left_def)

text \<open>The invariant once the group is out of the table.\<close>

lemma emptied_inv:
  fixes s :: "'a grp_st_scheme"
  assumes inv: "grp_inv E s" and g: "g \<in> set (re_group s)"
    and L: "left (group_id g) (ri_gw ` set (re_idx g)) (ret s) (ret t)" and vs: "vif_same t s"
    and uc: "uc_silent (hw s) (hw t)" and grps: "set (re_group t) = set (re_group s) - {g}"
    and kd: "keys_distinct group_id (re_group t)" and res: "res_ok t"
    and used: "set (ret_indexes_used s) - {first_idx g ..< first_idx g + re_count g} \<subseteq> set (ret_indexes_used t)"
    and ids: "distinct (group_ids t)" "set (group_ids t) = set (group_ids s) - {group_id g}"
  shows "grp_inv E t"
proof -
  let ?G = "ri_gw ` set (re_idx g)" and ?k = "group_id g" and ?V = "valid_gws s"
  note inv0 = inv [unfolded grp_inv_def]
  note b = grp_inv_v_base [OF inv0]
  note hw = vif_same_hw [OF vs] vif_same_wf [OF vs]
  have ucs: "uc_entry_at (hw t) = uc_entry_at (hw s)" using uc by (auto simp: uc_silent_def fun_eq_iff)
  have gid: "group_id a \<noteq> ?k" if "a \<in> set (re_group t)" for a
    using that g b(3) unfolding grps by (auto simp: distinct_map dest: inj_onD)
  have member: "?k \<in> set (re_group_ids r) \<Longrightarrow> re_gw r \<in> ?G" if "r \<in> set (ret s)" for r
  proof -
    assume "?k \<in> set (re_group_ids r)"
    with b(5) [OF that] obtain a where a: "a \<in> set (re_group s)" "group_id a = ?k" "re_gw r \<in> ri_gw ` set (re_idx a)"
      unfolding re_ok_def by blast
    with b(3) g have "a = g" by (auto simp: distinct_map dest: inj_onD)
    with a show "re_gw r \<in> ?G" by simp
  qed
  have prior: "\<exists>r0 \<in> set (ret s). (r = r0 \<or> r = re_leave ?k r0) \<and> set (re_group_ids r) = set (re_group_ids r0) - {?k} \<and>
      re_group_ids r \<noteq> [] \<and> distinct (re_group_ids r)" if r: "r \<in> set (ret t)" for r
  proof (cases "re_gw r \<in> ?G")
    case True
    from L r have "if re_gw r \<in> ?G then re_group_ids r \<noteq> [] \<and> (\<exists>r0 \<in> set (ret s). r = re_leave ?k r0) else r \<in> set (ret s)"
      unfolding left_def by blast
    with True obtain r0 where r0: "r0 \<in> set (ret s)" "r = re_leave ?k r0" "re_group_ids r \<noteq> []" by (simp only: if_True) blast
    with b(5) [OF r0(1)] show ?thesis by (intro bexI [of _ r0]) (auto simp: re_ok_def group_ids_leave)
  next
    case False
    with L r have r0: "r \<in> set (ret s)" by (auto simp: left_def)
    with member False b(5) [OF r0] show ?thesis by (intro bexI [of _ r]) (auto simp: re_ok_def)
  qed
  have ok: "re_ok t r" if "r \<in> set (ret t)" for r
  proof -
    from prior [OF that] obtain r0 where r0: "r0 \<in> set (ret s)" "r = r0 \<or> r = re_leave ?k r0"
      "set (re_group_ids r) = set (re_group_ids r0) - {?k}" "re_group_ids r \<noteq> []" "distinct (re_group_ids r)" by blast
    have "\<exists>a \<in> set (re_group t). group_id a = i \<and> re_gw r \<in> ri_gw ` set (re_idx a)" if i: "i \<in> set (re_group_ids r)" for i
    proof -
      from i r0(3) b(5) [OF r0(1)] obtain a where "a \<in> set (re_group s)" "group_id a = i" "re_gw r0 \<in> ri_gw ` set (re_idx a)" "i \<noteq> ?k"
        unfolding re_ok_def by blast
      with r0(2) show ?thesis unfolding grps by (intro bexI [of _ a]) auto
    qed
    with r0 show ?thesis by (simp add: re_ok_def)
  qed
  have valid_hw: "re_hw E t r \<noteq> None" if "r \<in> set (ret t)" "re_valid r" for r
  proof -
    from prior [OF that(1)] obtain r0 where r0: "r0 \<in> set (ret s)" "r = r0 \<or> r = re_leave ?k r0" by blast
    from r0(2) that(2) have "re_valid r0" by (metis re_valid_leave)
    from b(4) [OF r0(1) this] r0(2) show ?thesis unfolding hw by (metis option.distinct(1) re_hw_leave)
  qed
  have "runs_disjoint (re_group s)" using inv0 by (simp add: grp_inv_v_def grp_base_def)
  then have disj: "runs_disjoint (re_group t)" unfolding runs_disjoint_def grps by blast
  have "group_id ` set (re_group s) \<subseteq> set (group_ids s)" using inv0 by (simp add: grp_inv_v_def grp_base_def)
  then have "group_id a \<in> set (group_ids t)" if "a \<in> set (re_group t)" for a
    using gid [OF that] that unfolding ids grps by auto
  then have "group_id ` set (re_group t) \<subseteq> set (group_ids t)" by (rule image_subsetI)
  then have base: "grp_base E t"
    using b(1) res kd ids(1) disj ok valid_hw L by (simp add: grp_base_def hw left_def)
  have "group_ok E (valid_gws t) {} t a" if a: "a \<in> set (re_group t)" for a
  proof -
    have as: "a \<in> set (re_group s)" "a \<noteq> g" using a unfolding grps by auto
    note aok = b(7) [OF as(1)]
    have stay: "\<exists>r \<in> set (ret t). re_gw r = ri_gw x \<and> group_id a \<in> set (re_group_ids r) \<and> (re_valid r \<longleftrightarrow> ri_gw x \<in> ?V)"
      if x: "x \<in> set (re_idx a)" for x
    proof -
      from group_okD(4) [OF aok x] obtain r0 where r0: "r0 \<in> set (ret s)" "re_gw r0 = ri_gw x" "group_id a \<in> set (re_group_ids r0)" by blast
      then have "group_id a \<in> set (re_group_ids (re_leave ?k r0))" using gid [OF a] by (simp add: group_ids_leave)
      then have "re_group_ids (re_leave ?k r0) \<noteq> []" by auto
      with L r0(1) obtain r where r: "r \<in> set (ret t)" "re_gw r = re_gw r0" by (fastforce simp: left_def)
      from prior [OF r(1)] obtain r1 where r1: "r1 \<in> set (ret s)" "r = r1 \<or> r = re_leave ?k r1"
        "set (re_group_ids r) = set (re_group_ids r1) - {?k}" by blast
      note e = leave_either [OF r1(2), of E s]
      have "re_gw r1 = re_gw r0" using e r(2) by simp
      with re_unique [OF b(2) r1(1) r0(1)] have "r1 = r0" .
      moreover have "re_valid r0 \<longleftrightarrow> ri_gw x \<in> ?V" unfolding in_valid_gws using r0 re_unique [OF b(2) _ r0(1)] by metis
      ultimately show ?thesis using r(2) r0(2,3) r1(3) e gid [OF a] by (intro bexI [OF _ r(1)]) simp
    qed
    have kdt: "keys_distinct re_gw (ret t)" using L by (simp add: left_def)
    have same: "ri_gw x \<in> valid_gws t \<longleftrightarrow> ri_gw x \<in> ?V" if "x \<in> set (re_idx a)" for x
      using stay [OF that] re_unique [OF kdt] unfolding in_valid_gws [of _ t] by metis
    have slots: "slots_ok (valid_gws t) (first_idx a) (numOfPaths a) (re_idx a)"
      using group_okD(2) [OF aok] slots_ok_cong [of "re_idx a" "valid_gws t" ?V] same by blast
    have "{first_idx a ..< first_idx a + re_count a} \<inter> {first_idx g ..< first_idx g + re_count g} = {}"
      using \<open>runs_disjoint (re_group s)\<close> as g gid [OF a] unfolding runs_disjoint_def by blast
    with group_okD(3) [OF aok] used have run: "{first_idx a ..< first_idx a + re_count a} \<subseteq> set (ret_indexes_used t)" by blast
    have "uc_entry_at (hw t) d (ri_idx x) = re_hw E t r"
      if x: "x \<in> set (re_idx a)" and r: "r \<in> set (ret t)" and d: "d < e_ndevs E" and v: "ri_gw x \<in> valid_gws t - {}" and w: "re_gw r = ri_gw x" for x r d
    proof -
      from prior [OF r] obtain r1 where r1: "r1 \<in> set (ret s)" "r = r1 \<or> r = re_leave ?k r1" by blast
      note e = leave_either [OF r1(2), of E s]
      have "re_gw r1 = ri_gw x" using e w by simp
      with group_okD(5) [OF aok x r1(1) d] same [OF x] v have "uc_entry_at (hw s) d (ri_idx x) = re_hw E s r1" by simp
      with e show ?thesis unfolding hw ucs by simp
    qed
    then show ?thesis using group_okD(1) [OF aok] slots run stay unfolding group_ok_def by blast
  qed
  with base show ?thesis by (simp add: grp_inv_def grp_inv_v_def)
qed

lemma group_unique:
  "keys_distinct group_id t \<Longrightarrow> a \<in> set t \<Longrightarrow> b \<in> set t \<Longrightarrow> group_id a = group_id b \<Longrightarrow> a = b"
  by (auto simp: distinct_map dest: inj_onD)

text \<open>A group that has lost its last user.\<close>

lemma group_drop_empty_aux:
  fixes s :: "'a grp_st_scheme"
  assumes inv: "grp_inv E s" and g: "g \<in> set (re_group s)" and True: "u = []"
    and t0: "t0 = group_drop (g\<lparr>pfx_pbr := u\<rparr>) s"
  shows "grp_inv E t0 \<and> group_id g \<notin> group_id ` set (re_group t0) \<and>
    set (group_ids t0) = set (group_ids s) - {group_id g} \<and>
    (0 < re_count g \<longrightarrow> re_count g < 9 \<longrightarrow>
      set (ret_indexes_used t0) = set (ret_indexes_used s) - {first_idx g ..< first_idx g + re_count g})"
proof -
  let ?g = "g\<lparr>pfx_pbr := u\<rparr>"
  obtain s1 where s1: "s1 = group_put ?g s" by blast
  have inv1: "grp_inv E s1" unfolding s1 by (rule group_put_users_inv [OF inv g])
  note b = grp_inv_v_base [OF inv1 [unfolded grp_inv_def]]
  have g1: "?g \<in> set (re_group s1)"
  proof -
    have "keys_distinct group_id (re_group s)" using inv by (simp add: grp_inv_def grp_inv_v_def grp_base_def)
    from upd1_map [OF this, of "\<lambda>e. group_id e = group_id g" "group_id g" "\<lambda>_. ?g"] g show ?thesis
      by (force simp: s1 group_put_def hash_mod_def)
  qed
  let ?f = "\<lambda>el s. snd (ret_unref (ri_gw el) (group_id g) s)"
  obtain s2 where s2: "s2 = fold ?f (re_idx g) s1" by blast
  obtain s3 where s3: "s3 = snd (res_push_count_first (re_count g) (first_idx g) s2)" by blast
  obtain t where t: "t = (del_id (group_id g) s3)\<lparr>re_group := hash_del group_id (group_id g) (re_group s3)\<rparr>" by blast
  have eq: "group_drop ?g s = t"
  proof -
    have sel: "pfx_pbr ?g = u" "re_idx ?g = re_idx g" "group_id ?g = group_id g" "re_count ?g = re_count g" "first_idx ?g = first_idx g"
      by simp_all
    have del: "re_group (del_id k z) = re_group z" for k and z :: "'a grp_st_scheme" by (simp add: del_id_def)
    show ?thesis
      unfolding group_drop_def Let_def s1 [symmetric] sel if_P [OF True] ret_group_del_2_def s2 [symmetric] s3 [symmetric] t del ..
  qed
  have "distinct (map ri_gw (re_idx g))" using group_okD(2) [OF b(7) [OF g1]] by (simp add: slots_ok_def)
  with left_fold [OF left_start [OF b(2)] b(2) quiet_refl, of "re_idx g" "group_id g"]
  have L: "left (group_id g) (ri_gw ` set (re_idx g)) (ret s1) (ret s2)" and q: "quiet s1 s2"
    unfolding s2 by (simp_all add: Un_empty_left)
  have s3': "\<exists>x. s3 = s2\<lparr>ret_indexes_used := x\<rparr>"
    unfolding s3 res_push_count_first_def res_push_def by (auto intro: exI [of _ "ret_indexes_used s2"])
  then have f: "ret t = ret s2" "hw t = hw s2" "vif_same t s2" "ret_indexes_used t = ret_indexes_used s3"
    "re_group t = hash_del group_id (group_id g) (re_group s2)" "group_ids t = remove1 (group_id g) (group_ids s2)"
    by (auto simp: t vif_same_def del_id_def dl_delete_found_int)
  have q': "vif_same t s1" "uc_silent (hw s1) (hw t)" "re_group s2 = re_group s1" "group_ids s2 = group_ids s1"
    "ret_indexes_used s2 = ret_indexes_used s1"
    using q f by (auto simp: quiet_def vif_same_def)
  have grps: "set (re_group t) = set (re_group s1) - {?g}"
  proof -
    have "a = ?g" if "a \<in> set (re_group s1)" "group_id a = group_id g" for a
      using group_unique [OF b(3) that(1) g1] that(2) by simp
    then have "a \<in> set (re_group s1) \<and> group_id a \<noteq> group_id g \<longleftrightarrow> a \<in> set (re_group s1) \<and> a \<noteq> ?g" for a
      by (metis re_group.select_convs(1) re_group.surjective re_group.update_convs(6))
    then show ?thesis unfolding f q' set_hash_del [OF b(3)] by blast
  qed
  have kd: "keys_distinct group_id (re_group t)" unfolding f q' by (rule uth.wf_del [OF b(3)])
  have res2: "res_ok s2" using b(6) by (simp add: res_ok_def q')
  have "res_ok s3" unfolding s3 by (rule res_push_count_first_ok [OF res2])
  then have res: "res_ok t" by (simp add: res_ok_def f)
  have "set (ret_indexes_used s1) - {first_idx g ..< first_idx g + re_count g} \<subseteq> set (ret_indexes_used s3)"
  proof (cases "0 < re_count g \<and> re_count g < 9")
    case True
    with res2 res_push_count_first_frees [of s2 "re_count g" "first_idx g"] show ?thesis
      unfolding s3 by (simp add: res_ok_def q')
  next
    case False
    then show ?thesis unfolding s3 res_push_count_first_def by (auto simp: q')
  qed
  then have used: "set (ret_indexes_used s1) - {first_idx ?g ..< first_idx ?g + re_count ?g} \<subseteq> set (ret_indexes_used t)"
    by (simp only: f) simp
  have "distinct (group_ids s1)" using inv1 by (simp add: grp_inv_def grp_inv_v_def grp_base_def)
  then have ids: "distinct (group_ids t)" "set (group_ids t) = set (group_ids s1) - {group_id ?g}"
    by (simp_all add: f q')
  have inv_t: "grp_inv E t"
    by (rule emptied_inv [OF inv1 g1 _ q'(1,2) grps kd res used ids]) (use L f(1) in simp)
  have gone: "group_id g \<notin> group_id ` set (re_group t)"
    unfolding f q' set_hash_del [OF b(3)] by (simp add: image_iff)
  have same: "group_ids s1 = group_ids s" "ret_indexes_used s1 = ret_indexes_used s" by (simp_all add: s1 group_put_def)
  have freed: "set (ret_indexes_used t) = set (ret_indexes_used s) - {first_idx g ..< first_idx g + re_count g}"
    if "0 < re_count g" "re_count g < 9"
    using that res2 res_push_count_first_frees [of s2 "re_count g" "first_idx g"]
    unfolding f s3 by (simp add: res_ok_def q' same)
  have freed_ids: "set (group_ids t) = set (group_ids s) - {group_id g}" using ids(2) by (simp add: same)
  show ?thesis unfolding t0 eq using inv_t gone freed freed_ids by blast
qed

lemma group_drop_empty:
  fixes s :: "'a grp_st_scheme"
  assumes "grp_inv E s" and "g \<in> set (re_group s)"
  shows "grp_inv E (group_drop (g\<lparr>pfx_pbr := []\<rparr>) s)"
    and "group_id g \<notin> group_id ` set (re_group (group_drop (g\<lparr>pfx_pbr := []\<rparr>) s))"
    and "set (group_ids (group_drop (g\<lparr>pfx_pbr := []\<rparr>) s)) = set (group_ids s) - {group_id g}"
    and "0 < re_count g \<Longrightarrow> re_count g < 9 \<Longrightarrow> set (ret_indexes_used (group_drop (g\<lparr>pfx_pbr := []\<rparr>) s)) =
      set (ret_indexes_used s) - {first_idx g ..< first_idx g + re_count g}"
  using group_drop_empty_aux [OF assms refl refl] by blast+

theorem group_drop_inv:
  fixes s :: "'a grp_st_scheme"
  assumes inv: "grp_inv E s" and g: "g \<in> set (re_group s)"
  shows "grp_inv E (group_drop (g\<lparr>pfx_pbr := u\<rparr>) s)"
proof (cases "u = []")
  case True
  with group_drop_empty(1) [OF assms] show ?thesis by simp
next
  case False
  then show ?thesis using group_put_users_inv [OF inv g, of u] by (simp add: group_drop_def)
qed

theorem ret_group_del_inv:
  assumes "grp_inv E s"
  shows "grp_inv E (ret_group_del E gid pfx alen s)"
proof (cases "hash_find group_id (re_group s) gid")
  case None
  with assms show ?thesis by (simp add: ret_group_del_def)
next
  case (Some g)
  then have "g \<in> set (re_group s)" using hash_find_in by fastforce
  from group_drop_inv [OF assms this] Some show ?thesis by (simp add: ret_group_del_def)
qed

theorem ret_group_del_pbr_inv:
  assumes "grp_inv E s"
  shows "grp_inv E (ret_group_del_pbr gid ix i s)"
proof (cases "hash_find group_id (re_group s) gid")
  case None
  with assms show ?thesis by (simp add: ret_group_del_pbr_def)
next
  case (Some g)
  then have "g \<in> set (re_group s)" using hash_find_in by fastforce
  from group_drop_inv [OF assms this] Some show ?thesis by (simp add: ret_group_del_pbr_def)
qed

end
