(* ===== verification/Ret_Reach.thy ===== *)
theory Ret_Reach
  imports Ret_Build Pbr
begin

text \<open>
  The operations on next hops and ECMP groups as a transition system over the requests the routing
  front end, the policy routes and the ARP daemon make. A request is refused when it asks for more
  than the unit has; the runs of \<open>ret_step\<close> are the sequences of requests none of which is. Every
  state they reach satisfies the invariant of \<open>Ret_Inv\<close>, from which the properties at the end of
  the theory follow; what a refused request does to it is the subject of the last of them.
\<close>

section \<open>The transition system\<close>

datatype ret_req =
    GroupAdd "gw list" u32 nat
  | GroupAddPbr "gw list" row_colum pcl_interface
  | GroupDel int u32 nat
  | GroupDelPbr int row_colum pcl_interface
  | SetMacAddr gw mac vif_id
  | UnsetMacAddr gw

definition ret_exec :: "env \<Rightarrow> ret_req \<Rightarrow> 'a grp_st_scheme \<Rightarrow> 'a grp_st_scheme" where
  "ret_exec E rq s =
     (case rq of
        GroupAdd gws ip alen \<Rightarrow> snd (ret_group_add E gws ip alen s)
      | GroupAddPbr gws ix i \<Rightarrow> snd (ret_group_add_pbr E gws ix i s)
      | GroupDel gid pfx alen \<Rightarrow> ret_group_del E gid pfx alen s
      | GroupDelPbr gid ix i \<Rightarrow> ret_group_del_pbr gid ix i s
      | SetMacAddr g addr v \<Rightarrow> snd (ret_set_mac_addr E g addr v s)
      | UnsetMacAddr g \<Rightarrow> snd (ret_unset_mac_addr E g s))"

text \<open>What is refused: a new group when no run of free route entries is long enough, the next-hop slot
  of a gateway when the table is full or the hardware does not take the address. A request that names
  a gateway twice counts as refused too.\<close>

definition no_group :: "gw list \<Rightarrow> 'a grp_st_scheme \<Rightarrow> bool" where
  "no_group gws s \<longleftrightarrow> \<not> distinct gws \<or> (group_match gws s = None \<and> res_pop (int (length gws)) s = None)"

definition no_slot :: "env \<Rightarrow> gw \<Rightarrow> mac \<Rightarrow> vif_id \<Rightarrow> 'a grp_st_scheme \<Rightarrow> bool" where
  "no_slot E g addr v s \<longleftrightarrow>
     (case ret_lookup_gw g s of
        None \<Rightarrow> False
      | Some re \<Rightarrow>
          fst (vif_getn E v s) \<noteq> None \<and> \<not> (re_valid re \<and> re_addr re = addr \<and> re_vif_id re = v) \<and>
          fst (nht_add E addr (re_put (re\<lparr>re_valid := True, re_addr := addr, re_vif_id := v\<rparr>) s)) < 0)"

definition ret_refused :: "env \<Rightarrow> ret_req \<Rightarrow> 'a grp_st_scheme \<Rightarrow> bool" where
  "ret_refused E rq s =
     (case rq of
        GroupAdd gws ip alen \<Rightarrow> no_group gws s
      | GroupAddPbr gws ix i \<Rightarrow> no_group gws s
      | SetMacAddr g addr v \<Rightarrow> no_slot E g addr v s
      | _ \<Rightarrow> False)"

inductive ret_step :: "env \<Rightarrow> 'a grp_st_scheme \<Rightarrow> 'a grp_st_scheme \<Rightarrow> bool" for E where
  step_exec: "\<not> ret_refused E rq s \<Longrightarrow> ret_step E s (ret_exec E rq s)"

inductive ret_run :: "env \<Rightarrow> 'a grp_st_scheme \<Rightarrow> 'a grp_st_scheme \<Rightarrow> bool" for E s0 where
  run_refl: "ret_run E s0 s0"
| run_step: "ret_run E s0 s \<Longrightarrow> ret_step E s t \<Longrightarrow> ret_run E s0 t"

text \<open>The same runs as lists of requests: \<open>ret_served\<close> says that none is refused when its turn comes.\<close>

definition ret_execs :: "env \<Rightarrow> ret_req list \<Rightarrow> 'a grp_st_scheme \<Rightarrow> 'a grp_st_scheme" where
  "ret_execs E rqs s = fold (ret_exec E) rqs s"

fun ret_served :: "env \<Rightarrow> ret_req list \<Rightarrow> 'a grp_st_scheme \<Rightarrow> bool" where
  "ret_served E [] s \<longleftrightarrow> True"
| "ret_served E (rq # rqs) s \<longleftrightarrow> \<not> ret_refused E rq s \<and> ret_served E rqs (ret_exec E rq s)"

lemma ret_run_trans: "ret_run E t u \<Longrightarrow> ret_run E s t \<Longrightarrow> ret_run E s u"
  by (induction rule: ret_run.induct) (auto intro: run_step)

lemma ret_served_run: "ret_served E rqs s \<Longrightarrow> ret_run E s (ret_execs E rqs s)"
proof (induction rqs arbitrary: s)
  case Nil
  then show ?case by (simp add: ret_execs_def run_refl)
next
  case (Cons rq rqs)
  then show ?case
    using ret_run_trans [OF Cons.IH run_step [OF run_refl step_exec]] by (simp add: ret_execs_def)
qed

inductive_cases ret_stepE: "ret_step E s t"

definition ret_boot :: "env \<Rightarrow> 'a grp_st_scheme \<Rightarrow> bool" where
  "ret_boot E s \<longleftrightarrow> vif_wf E s \<and> ret s = [] \<and> re_group s = [] \<and> ret_indexes_used s = [] \<and> group_ids s = []"

lemma ret_boot_inv: "ret_boot E s \<Longrightarrow> grp_inv E s"
  by (simp add: ret_boot_def grp_inv_def grp_inv_v_def grp_base_def res_ok_def runs_disjoint_def)

theorem ret_group_add_pbr_inv:
  assumes inv: "grp_inv E s" and gws: "distinct gws"
    and room: "group_match gws s = None \<Longrightarrow> res_pop (int (length gws)) s \<noteq> None"
  shows "grp_inv E (snd (ret_group_add_pbr E gws ix i s))"
proof (cases "group_match gws s")
  case (Some el)
  then have el: "el \<in> set (re_group s)" unfolding group_match_def by (auto dest: find_SomeD)
  define u where "u = (if dl_search list_route_pfx_pbr_cmp_pbr (pfx_pbr el) (ROUTE_PBR ix i) = None
    then dl_append (pfx_pbr el) (ROUTE_PBR ix i) else pfx_pbr el)"
  let ?t = "group_put (el\<lparr>pfx_pbr := u\<rparr>) s"
  have u: "snd (ret_group_add_pbr E gws ix i s) = snd (ret_group_ltt_tcam_set E ix i (hd (re_group ?t)) ?t)"
    using Some by (simp add: ret_group_add_pbr_def Let_def u_def)
  have "grp_inv E ?t" by (rule group_put_users_inv [OF inv el])
  moreover obtain h where "snd (ret_group_ltt_tcam_set E ix i (hd (re_group ?t)) ?t) = ?t\<lparr>hw := h\<rparr>" "uc_silent (hw ?t) h"
    using ret_group_ltt_tcam_set_eq by blast
  ultimately show ?thesis unfolding u by (simp only: grp_inv_hw)
next
  case None
  obtain ids s' where pop: "res_pop (int (length gws)) s = Some (ids, s')" using room None by auto
  obtain g t where new: "group_new E gws (ROUTE_PBR ix i) s = (g, t)"
    by (cases "group_new E gws (ROUTE_PBR ix i) s") auto
  note N = group_new_inv [OF inv gws pop new]
  obtain h where h: "snd (ret_group_ltt_tcam_set E ix i g t) = t\<lparr>hw := h\<rparr>" "uc_silent (hw t) h"
    using ret_group_ltt_tcam_set_eq by blast
  let ?u = "t\<lparr>hw := h, re_group := re_group t @ [g]\<rparr>"
  have u: "grp_inv E ?u"
    by (rule grp_inv_cong [of ?u "t\<lparr>re_group := re_group t @ [g]\<rparr>"]) (use conjunct1 [OF N] h(2) in \<open>simp_all add: vif_same_def\<close>)
  obtain h' where h': "group_request gws ?u = ?u\<lparr>hw := h'\<rparr>" "uc_silent (hw ?u) h'"
    using group_request_eq by metis
  have "snd (ret_group_add_pbr E gws ix i s) = group_request gws ?u"
    using None new h by (simp add: ret_group_add_pbr_def hash_add_def)
  with grp_inv_hw [OF u h'(2)] h'(1) show ?thesis by simp
qed

text \<open>The ways \<open>ret_set_mac_addr\<close> fails without a refusal leave the state as it is.\<close>

lemma ret_set_mac_addr_served:
  fixes s :: "'a grp_st_scheme"
  assumes inv: "grp_inv E s" and served: "\<not> no_slot E g addr v s"
  shows "grp_inv E (snd (ret_set_mac_addr E g addr v s))"
proof (cases "fst (ret_set_mac_addr E g addr v s) = ST_OK")
  case True
  then show ?thesis using ret_set_mac_addr_inv [OF inv, of g addr v] by (metis prod.collapse)
next
  case False
  have wf: "vif_wf E s" using inv by (simp add: grp_inv_def grp_inv_v_def grp_base_def)
  have "snd (vif_getn E v s) = s" by (rule vif_getn_state [OF wf])
  with False served have "snd (ret_set_mac_addr E g addr v s) = s"
    by (auto simp: ret_set_mac_addr_def no_slot_def Let_def split: option.splits prod.splits if_splits)
  with inv show ?thesis by simp
qed

lemma ret_step_inv: "ret_step E s t \<Longrightarrow> grp_inv E s \<Longrightarrow> grp_inv E t"
proof (induction rule: ret_step.induct)
  case (step_exec rq s)
  then show ?case
    by (cases rq) (auto simp: ret_exec_def ret_refused_def no_group_def ret_set_mac_addr_served
        intro!: ret_group_add_kept ret_group_add_pbr_inv ret_group_del_inv ret_group_del_pbr_inv ret_unset_mac_addr_inv)
qed

lemma ret_run_inv: "ret_run E s0 s \<Longrightarrow> ret_boot E s0 \<Longrightarrow> grp_inv E s"
  by (induction rule: ret_run.induct) (auto intro: ret_boot_inv ret_step_inv)

section \<open>Examples\<close>

text \<open>Two gateways share a prefix; the first one is then resolved behind the first port.\<close>

definition gw_a :: gw where "gw_a = route_fill_gw 0x0A000001 10"
definition gw_b :: gw where "gw_b = route_fill_gw 0x0A000002 10"
definition port_1 :: vif_id where "port_1 = \<lparr>vif_type = 0, vif_dev = 0, vif_num = 1\<rparr>"

definition demo_added :: grp_st where
  "demo_added = snd (ret_group_add env0 [gw_a, gw_b] 0x0A010000 16 grp0)"

definition demo_set :: "status \<times> grp_st" where
  "demo_set = ret_set_mac_addr env0 gw_a [0, 1, 2, 3, 4, 5] port_1 demo_added"

lemma grp0_boot: "ret_boot env0 grp0"
  using grp0_inv by (simp add: ret_boot_def grp_inv_def grp_inv_v_def grp_base_def) (simp add: grp0_defs)

definition demo_reqs :: "ret_req list" where
  "demo_reqs = [GroupAdd [gw_a, gw_b] 0x0A010000 16, SetMacAddr gw_a [0, 1, 2, 3, 4, 5] port_1]"

lemma demo_served: "ret_served env0 demo_reqs grp0"
  by code_simp

lemma demo_execs: "ret_execs env0 demo_reqs grp0 = snd demo_set"
  by (simp add: demo_reqs_def ret_execs_def ret_exec_def demo_set_def demo_added_def)

lemma demo_added_run: "ret_run env0 grp0 demo_added"
  using ret_served_run [of env0 "[GroupAdd [gw_a, gw_b] 0x0A010000 16]" grp0] demo_served
  by (simp add: demo_reqs_def ret_execs_def ret_exec_def demo_added_def)

lemma demo_set_run: "ret_run env0 grp0 (snd demo_set)"
  using ret_served_run [OF demo_served] by (simp add: demo_execs)

section \<open>Properties\<close>

lemma slots_ok_card:
  assumes ok: "slots_ok V f n l"
  shows "int (card {x \<in> set l. ri_gw x \<in> V}) = n + 1"
proof -
  note D = slots_okD [OF ok]
  let ?A = "{x \<in> set l. ri_gw x \<in> V}"
  have "inj_on ri_idx ?A"
  proof (rule inj_onI)
    fix x y assume "x \<in> ?A" "y \<in> ?A" "ri_idx x = ri_idx y"
    then have "ri_gw x = ri_gw y" "x \<in> set l" "y \<in> set l" using D(6) by auto
    with D(1) show "x = y" by (auto simp: distinct_map dest: inj_onD)
  qed
  then have "card ?A = card (ri_idx ` ?A)" by (simp add: card_image)
  also have "ri_idx ` ?A = {f .. f + n}" using slots_ok_cover [OF ok] D(4,5) by auto
  finally show ?thesis using D(2) by simp
qed

text \<open>C1. From start-up, any sequence of requests of the routing front end, the policy routes and the
  ARP daemon none of which is refused (no run of route entries free, no next-hop slot to be had, a
  gateway named twice) leads to a state in which each member of an ECMP group whose gateway is resolved has a slot among the
  paths of the group, and on every device that slot of the hardware route table holds the route
  entry of that gateway (its interface, next-hop slot and VLAN); a member whose gateway is not
  resolved points to the drop entry.\<close>

theorem reachable_groups_in_hardware:
  assumes "ret_boot E s0" and "ret_served E rqs s0" and "s = ret_execs E rqs s0"
  shows "\<forall>g \<in> set (re_group s). \<forall>x \<in> set (re_idx g). \<forall>re \<in> set (ret s). re_gw re = ri_gw x \<longrightarrow>
      (if re_valid re
       then first_idx g \<le> ri_idx x \<and> ri_idx x \<le> first_idx g + numOfPaths g \<and> re_hw E s re \<noteq> None \<and>
            (\<forall>d < e_ndevs E. uc_entry_at (hw s) d (ri_idx x) = re_hw E s re)
       else ri_idx x = DROP_RE_IDX)"
  using grp_inv_hardware [OF ret_run_inv [OF ret_served_run [OF assms(2)] assms(1)]] unfolding assms(3) by blast

theorem reachable_groups_in_hardware_witness:
  "re_hw env0 (snd demo_set) (hd (ret (snd demo_set))) \<noteq> None \<and>
   uc_entry_at (hw (snd demo_set)) 1 5 = re_hw env0 (snd demo_set) (hd (ret (snd demo_set)))"
proof -
  let ?s = "snd demo_set" and ?g = "\<lparr>group_id = 1, re_count = 2, first_idx = 5, numOfPaths = 0,
    re_idx = [\<lparr>ri_gw = gw_a, ri_idx = 5\<rparr>, \<lparr>ri_gw = gw_b, ri_idx = 3\<rparr>], pfx_pbr = [ROUTE_PFX 0x0A010000 16]\<rparr>"
  have g: "re_group ?s = [?g]" by code_simp
  have "ret ?s \<noteq> []" by code_simp
  then have r: "hd (ret ?s) \<in> set (ret ?s)" by simp
  have v: "re_gw (hd (ret ?s)) = gw_a" "re_valid (hd (ret ?s))" by code_simp+
  have gin: "?g \<in> set (re_group ?s)" and xin: "\<lparr>ri_gw = gw_a, ri_idx = 5\<rparr> \<in> set (re_idx ?g)" by (simp_all add: g)
  have "(1 :: nat) < e_ndevs env0" by (simp add: env0_def)
  with bspec [OF bspec [OF bspec [OF reachable_groups_in_hardware [OF grp0_boot demo_served demo_execs [symmetric]] gin] xin] r] v
  show ?thesis by simp
qed

text \<open>C18. In every state that requests none of which is refused lead to from start-up, the route
  entry runs of different groups do not overlap, lie in the range of regular entries, and the number
  of paths a group announces to the hardware is the number of its resolved gateways (minus one, as
  the hardware counts).\<close>

theorem reachable_group_runs:
  assumes "ret_boot E s0" and "ret_served E rqs s0" and "s = ret_execs E rqs s0"
  shows "runs_disjoint (re_group s) \<and>
    (\<forall>g \<in> set (re_group s).
       {first_idx g ..< first_idx g + re_count g} \<subseteq> {FIRST_REGULAR_RE_IDX ..< RE_LIMIT} \<and>
       int (card {x \<in> set (re_idx g). ri_gw x \<in> valid_gws s}) = numOfPaths g + 1)"
proof -
  note inv = ret_run_inv [OF ret_served_run [OF assms(2)] assms(1), folded assms(3), unfolded grp_inv_def]
  note b = grp_inv_v_base [OF inv]
  have "runs_disjoint (re_group s)" using inv by (simp add: grp_inv_v_def grp_base_def)
  moreover have "{first_idx g ..< first_idx g + re_count g} \<subseteq> {FIRST_REGULAR_RE_IDX ..< RE_LIMIT}"
    if "g \<in> set (re_group s)" for g
    using group_okD(3) [OF b(7) [OF that]] b(6) unfolding res_ok_def by fastforce
  ultimately show ?thesis using slots_ok_card [OF group_okD(2) [OF b(7)]] by blast
qed

theorem reachable_group_runs_witness:
  "runs_disjoint (re_group (snd demo_set)) \<and>
   int (card {x \<in> set (re_idx (hd (re_group (snd demo_set)))). ri_gw x \<in> valid_gws (snd demo_set)}) = 1"
proof -
  let ?s = "snd demo_set"
  have "re_group ?s \<noteq> []" by code_simp
  then have g: "hd (re_group ?s) \<in> set (re_group ?s)" by simp
  have n: "numOfPaths (hd (re_group ?s)) = 0" by code_simp
  show ?thesis using reachable_group_runs [OF grp0_boot demo_served demo_execs [symmetric]] g n by simp
qed

lemma ret_set_mac_addr_cases:
  fixes s :: "'a grp_st_scheme"
  assumes "vif_wf E s" and "fst (vif_getn E vid s) \<noteq> None" and "ret_lookup_gw g s = Some re"
    and "\<not> (re_valid re \<and> re_addr re = addr \<and> re_vif_id re = vid)"
    and r1: "r1 = re\<lparr>re_valid := True, re_addr := addr, re_vif_id := vid\<rparr>"
    and nht: "nht_add E addr (re_put r1 s) = (i, t)"
  shows "ret_set_mac_addr E g addr vid s =
    (if i < 0 then (ST_HEX, t)
     else (ST_OK, fold (\<lambda>gid s. ret_group_gw_changed E gid (r1\<lparr>re_nh_idx := nat i\<rparr>) (\<not> re_valid re) s)
            (re_group_ids re) (re_put (r1\<lparr>re_nh_idx := nat i\<rparr>) t)))"
proof -
  obtain v where "vif_getn E vid s = (Some v, s)"
    using assms(1,2) vif_getn_state [OF assms(1), of vid] by (cases "vif_getn E vid s") auto
  with assms(3,4) nht show ?thesis by (auto simp: ret_set_mac_addr_def r1 Let_def)
qed

text \<open>A resolution that is refused a next-hop slot.\<close>

lemma ret_set_mac_addr_refused:
  fixes s :: "'a grp_st_scheme"
  assumes wf: "vif_wf E s" and look: "ret_lookup_gw g s = Some re" and no: "no_slot E g addr vid s"
  defines "r1 \<equiv> re\<lparr>re_valid := True, re_addr := addr, re_vif_id := vid\<rparr>"
  shows "\<exists>i t. nht_add E addr (re_put r1 s) = (i, t) \<and> ret_set_mac_addr E g addr vid s = (ST_HEX, t)"
proof -
  obtain i t where nht: "nht_add E addr (re_put r1 s) = (i, t)" by (cases "nht_add E addr (re_put r1 s)") auto
  with no look ret_set_mac_addr_cases [OF wf _ look _ r1_def [THEN meta_eq_to_obj_eq] nht] show ?thesis
    by (auto simp: no_slot_def r1_def)
qed

lemma unresolved_drops:
  fixes s :: "'a grp_st_scheme"
  assumes inv: "grp_inv E s" and re: "re \<in> set (ret s)" "\<not> re_valid re"
    and x: "a \<in> set (re_group s)" "x \<in> set (re_idx a)" "ri_gw x = re_gw re"
  shows "ri_idx x = DROP_RE_IDX"
proof -
  note b = grp_inv_v_base [OF inv [unfolded grp_inv_def]]
  have "re_gw re \<notin> valid_gws s"
  proof
    assume "re_gw re \<in> valid_gws s"
    then obtain y where y: "y \<in> set (ret s)" "re_valid y" "re_gw y = re_gw re" unfolding in_valid_gws by blast
    from re_unique [OF b(2) y(1) re(1) y(3)] y(2) re(2) show False by simp
  qed
  with x(3) have "ri_gw x \<notin> valid_gws s" by (simp only: not_False_eq_True)
  from slots_okD(3) [OF group_okD(2) [OF b(7) [OF x(1)]] x(2) this] show ?thesis .
qed

lemma resolved_not_dropped:
  fixes t :: "'a grp_st_scheme"
  assumes inv: "grp_inv E t" and a: "a \<in> set (re_group t)" "x \<in> set (re_idx a)" "ri_gw x \<in> valid_gws t"
  shows "ri_idx x \<noteq> DROP_RE_IDX"
proof -
  note bt = grp_inv_v_base [OF inv [unfolded grp_inv_def]]
  note slot = group_ok_slot [OF bt(7) [OF a(1)] a(2,3)]
  then have "ri_idx x \<in> {first_idx a ..< first_idx a + re_count a}" by simp
  with group_okD(3) [OF bt(7) [OF a(1)]] have "ri_idx x \<in> set (ret_indexes_used t)" by blast
  with bt(6) show ?thesis by (auto simp: res_ok_def re_idx_defs)
qed

text \<open>C35. \<open>ret_set_mac_addr\<close> marks the gateway as resolved before it asks for a slot of the
  next-hop table. When that is refused (table full, or the hardware does not take the address) for a gateway
  that was not resolved before, the function returns \<open>ST_HEX\<close> and leaves a state in which the
  groups and the gateway table disagree: the table has the gateway as resolved, with the new address and
  interface and in the same groups as before, but in these and all other groups its member still
  points to the drop entry, so the invariant of C1 is broken.\<close>

theorem ret_set_mac_addr_failure_breaks_groups:
  fixes s :: "'a grp_st_scheme"
  assumes inv: "grp_inv E s" and look: "ret_lookup_gw g s = Some re" and "\<not> re_valid re" and no: "no_slot E g addr vid s"
    and t: "ret_set_mac_addr E g addr vid s = (st, t)"
  shows "st = ST_HEX \<and>
    (\<exists>r \<in> set (ret t). re_gw r = re_gw re \<and> re_valid r \<and> re_addr r = addr \<and> re_vif_id r = vid \<and> re_group_ids r = re_group_ids re) \<and>
    re_group_ids re \<noteq> [] \<and>
    (\<forall>k \<in> set (re_group_ids re). \<exists>a x. ret_group_get k t = Some a \<and> x \<in> set (re_idx a) \<and> ri_gw x = re_gw re) \<and>
    (\<forall>a \<in> set (re_group t). \<forall>x \<in> set (re_idx a). ri_gw x = re_gw re \<longrightarrow> ri_idx x = DROP_RE_IDX) \<and>
    \<not> grp_inv E t"
proof -
  let ?r1 = "re\<lparr>re_valid := True, re_addr := addr, re_vif_id := vid\<rparr>"
  note b = grp_inv_v_base [OF inv [unfolded grp_inv_def]]
  obtain i where nht: "nht_add E addr (re_put ?r1 s) = (i, t)" and st: "st = ST_HEX"
    using ret_set_mac_addr_refused [OF b(1) look no] t by auto
  have re: "re \<in> set (ret s)" by (rule ret_lookup_gw_in [OF look])
  note fr = nht_add_frame [OF nht]
  have r1: "?r1 \<in> set (ret t)" unfolding fr(2) by (rule in_re_put [OF b(2) re]) simp
  have groups: "re_group t = re_group s" by (simp add: fr re_put_frame)
  have some: "re_group_ids re \<noteq> []" using b(5) [OF re] by (simp add: re_ok_def)
  have member: "\<exists>a x. ret_group_get k t = Some a \<and> x \<in> set (re_idx a) \<and> ri_gw x = re_gw re" if k: "k \<in> set (re_group_ids re)" for k
  proof -
    obtain a where a: "hash_find group_id (re_group s) k = Some a" "re_gw re \<in> ri_gw ` set (re_idx a)"
      by (rule gw_group [OF inv [unfolded grp_inv_def] re k])
    then obtain x where "x \<in> set (re_idx a)" "ri_gw x = re_gw re" by auto
    with a(1) show ?thesis unfolding ret_group_get_def groups by blast
  qed
  have drop: "ri_idx x = DROP_RE_IDX" if "a \<in> set (re_group t)" "x \<in> set (re_idx a)" "ri_gw x = re_gw re" for a x
    using unresolved_drops [OF inv re assms(3) _ that(2,3)] that(1) unfolding groups by blast
  have "\<not> grp_inv E t"
  proof
    assume bad: "grp_inv E t"
    from some obtain k where "k \<in> set (re_group_ids re)" by (cases "re_group_ids re") auto
    from member [OF this] obtain a x where a: "ret_group_get k t = Some a" "x \<in> set (re_idx a)" "ri_gw x = re_gw re" by blast
    have at: "a \<in> set (re_group t)" using hash_find_in a(1) unfolding ret_group_get_def by fastforce
    have "ri_gw x \<in> valid_gws t" unfolding in_valid_gws by (rule bexI [OF _ r1]) (simp add: a(3))
    with resolved_not_dropped [OF bad at a(2)] drop [OF at a(2,3)] show False by blast
  qed
  then show ?thesis using st some member drop by (auto intro!: bexI [OF _ r1])
qed

text \<open>The next-hop table of the example is full.\<close>

theorem ret_set_mac_addr_failure_breaks_groups_witness:
  "fst (ret_set_mac_addr env0 gw_a [0, 1, 2, 3, 4, 5] port_1 (demo_added\<lparr>nhs_sp := MAX_NH - 1\<rparr>)) = ST_HEX \<and>
   (\<exists>r a x. r \<in> set (ret (snd (ret_set_mac_addr env0 gw_a [0, 1, 2, 3, 4, 5] port_1 (demo_added\<lparr>nhs_sp := MAX_NH - 1\<rparr>)))) \<and>
      re_gw r = gw_a \<and> re_valid r \<and>
      ret_group_get 1 (snd (ret_set_mac_addr env0 gw_a [0, 1, 2, 3, 4, 5] port_1 (demo_added\<lparr>nhs_sp := MAX_NH - 1\<rparr>))) = Some a \<and>
      x \<in> set (re_idx a) \<and> ri_gw x = gw_a \<and> ri_idx x = DROP_RE_IDX) \<and>
   \<not> grp_inv env0 (snd (ret_set_mac_addr env0 gw_a [0, 1, 2, 3, 4, 5] port_1 (demo_added\<lparr>nhs_sp := MAX_NH - 1\<rparr>)))"
proof -
  let ?s = "demo_added\<lparr>nhs_sp := MAX_NH - 1\<rparr>"
  obtain re where re: "re = new_re gw_a 1" by blast
  have "grp_inv env0 demo_added" by (rule ret_run_inv [OF demo_added_run grp0_boot])
  then have inv: "grp_inv env0 ?s" by (rule grp_inv_cong [rotated -1]) (simp_all add: vif_same_def)
  have look: "ret_lookup_gw gw_a ?s = Some re" unfolding re by code_simp
  have down: "\<not> re_valid re" and gw: "re_gw re = gw_a" and ids: "re_group_ids re = [1]" by (simp_all add: re)
  have full: "no_slot env0 gw_a [0, 1, 2, 3, 4, 5] port_1 ?s" by code_simp
  obtain st t where t: "ret_set_mac_addr env0 gw_a [0, 1, 2, 3, 4, 5] port_1 ?s = (st, t)" by (rule prod.exhaust)
  note fails = ret_set_mac_addr_failure_breaks_groups [OF inv look down full t, unfolded gw ids]
  then obtain r a x where r: "r \<in> set (ret t)" "re_gw r = gw_a" "re_valid r"
    and x: "ret_group_get 1 t = Some a" "x \<in> set (re_idx a)" "ri_gw x = gw_a" by auto
  from hash_find_in [OF x(1) [unfolded ret_group_get_def]] fails x have "ri_idx x = DROP_RE_IDX" by blast
  with r x fails show ?thesis unfolding t fst_conv snd_conv by blast
qed

lemma ret_set_re_to_idx_ret [simp]: "ret (ret_set_re_to_idx E re k s) = ret (s :: 'a ret_st_scheme)"
proof -
  obtain v s1 where v: "vif_getn E (re_vif_id re) s = (v, s1)" by (cases "vif_getn E (re_vif_id re) s") auto
  then have s1: "ret s1 = ret s" using vif_getn_frame [of E "re_vif_id re" s] by auto
  have "ret (snd (fill_cpss_if r s1)) = ret s1" for r
    by (auto simp: fill_cpss_if_def vif_fill_cpss_if_port_def phys_dev_def crash_def split: vif_ref.splits)
  with v s1 show ?thesis by (auto simp: ret_set_re_to_idx_def split: option.splits prod.splits) (metis snd_conv)
qed

lemma group_put_ret [simp]: "ret (group_put g s) = ret s"
  by (rule group_put_frame(1))

lemma update_lpm_ret [simp]: "ret (ret_group_update_lpm_table E g s) = ret s"
  using ret_group_update_lpm_table_eq [of E g s] by auto

lemma gw_changed_ret: "ret (ret_group_gw_changed E gid re b s) = ret (s :: 'a grp_st_scheme)"
  by (auto simp: ret_group_gw_changed_def ret_group_gw_changed_enable_def ret_group_gw_changed_enable_changed_def
      ret_group_gw_changed_disable_def ret_set_re_to_idx_gw_def Let_def split: option.splits)

lemma fold_gw_changed_ret:
  "ret (fold (\<lambda>gid s. ret_group_gw_changed E gid re b s) gids s) = ret (s :: 'a grp_st_scheme)"
  by (induction gids arbitrary: s) (simp_all add: gw_changed_ret)

lemma ret_set_mac_addr_entry:
  fixes s :: "'a grp_st_scheme"
  assumes inv: "grp_inv E s" and ok: "ret_set_mac_addr E g addr vid s = (ST_OK, s')"
    and look: "ret_lookup_gw g s = Some re"
  shows "\<exists>r' \<in> set (ret s'). re_gw r' = re_gw re \<and> re_valid r' \<and> re_addr r' = addr \<and> re_vif_id r' = vid \<and>
      re_group_ids r' = re_group_ids re"
proof (cases "re_valid re \<and> re_addr re = addr \<and> re_vif_id re = vid")
  case True
  note b = grp_inv_v_base [OF inv [unfolded grp_inv_def]]
  have "s' = s"
    using ok look True vif_getn_state [OF b(1), of vid]
    by (cases "vif_getn E vid s") (auto simp: ret_set_mac_addr_def split: option.splits)
  with True ret_lookup_gw_in [OF look] show ?thesis by (intro bexI [of _ re]) auto
next
  case False
  note b = grp_inv_v_base [OF inv [unfolded grp_inv_def]]
  have re: "re \<in> set (ret s)" by (rule ret_lookup_gw_in [OF look])
  have vid: "fst (vif_getn E vid s) \<noteq> None"
    using ok by (cases "vif_getn E vid s") (auto simp: ret_set_mac_addr_def split: option.splits)
  let ?r1 = "re\<lparr>re_valid := True, re_addr := addr, re_vif_id := vid\<rparr>"
  obtain i t where nht: "nht_add E addr (re_put ?r1 s) = (i, t)" by (cases "nht_add E addr (re_put ?r1 s)") auto
  let ?r2 = "?r1\<lparr>re_nh_idx := nat i\<rparr>"
  have "ret s' = ret (re_put ?r2 t)"
    using ret_set_mac_addr_cases [OF b(1) vid look False refl nht] ok fold_gw_changed_ret
    by (auto split: if_splits)
  also have "\<dots> = ret (re_put ?r2 s)" by (rule re_put_put [OF _ nht_add_frame(2) [OF nht]]) simp
  finally have "?r2 \<in> set (ret s')" using in_re_put [OF b(2) re, of ?r2] by simp
  then show ?thesis by (intro bexI [of _ ?r2]) simp_all
qed

text \<open>C20. A successful \<open>ret_set_mac_addr\<close> records the address, interface and next-hop slot of the
  gateway, and afterwards every group of the gateway has it among its paths: on every device the
  gateway's slot holds a route entry to the new next-hop slot, and the prefix tables of the group
  name its run.\<close>

theorem ret_set_mac_addr_programs_groups:
  fixes s :: "'a grp_st_scheme"
  assumes inv: "grp_inv E s" and ok: "ret_set_mac_addr E g addr vid s = (ST_OK, s')"
    and look: "ret_lookup_gw g s = Some re" and k: "k \<in> set (re_group_ids re)"
  shows "\<exists>r' a x. r' \<in> set (ret s') \<and> re_gw r' = re_gw re \<and> re_valid r' \<and> re_addr r' = addr \<and> re_vif_id r' = vid \<and>
      ret_group_get k s' = Some a \<and> x \<in> set (re_idx a) \<and> ri_gw x = re_gw re \<and>
      first_idx a \<le> ri_idx x \<and> ri_idx x \<le> first_idx a + numOfPaths a \<and>
      re_hw E s' r' \<noteq> None \<and> (\<forall>d < e_ndevs E. uc_entry_at (hw s') d (ri_idx x) = re_hw E s' r')"
proof -
  have inv': "grp_inv E s'" by (rule ret_set_mac_addr_inv [OF inv ok])
  note b = grp_inv_v_base [OF inv [unfolded grp_inv_def]]
  note b' = grp_inv_v_base [OF inv' [unfolded grp_inv_def]]
  have re: "re \<in> set (ret s)" by (rule ret_lookup_gw_in [OF look])
  obtain r' where r': "r' \<in> set (ret s')" "re_gw r' = re_gw re" "re_valid r'" "re_addr r' = addr" "re_vif_id r' = vid"
    "re_group_ids r' = re_group_ids re"
    using ret_set_mac_addr_entry [OF inv ok look] by blast
  obtain a where a: "hash_find group_id (re_group s') k = Some a" "a \<in> set (re_group s')" "re_gw r' \<in> ri_gw ` set (re_idx a)"
    using gw_group [OF inv' [unfolded grp_inv_def] r'(1)] k r'(6) by metis
  then obtain x where x: "x \<in> set (re_idx a)" "ri_gw x = re_gw r'" by auto
  from grp_inv_hardware [OF inv' a(2) x(1) r'(1)] x(2) r' a(1) x show ?thesis
    unfolding ret_group_get_def by (intro exI [of _ r'] exI [of _ a] exI [of _ x]) simp
qed


theorem ret_set_mac_addr_programs_groups_witness:
  "fst demo_set = ST_OK \<and> (\<exists>r' a x. r' \<in> set (ret (snd demo_set)) \<and> re_gw r' = gw_a \<and> re_valid r' \<and>
      re_addr r' = [0, 1, 2, 3, 4, 5] \<and> re_vif_id r' = port_1 \<and>
      ret_group_get 1 (snd demo_set) = Some a \<and> x \<in> set (re_idx a) \<and> ri_gw x = gw_a \<and>
      first_idx a \<le> ri_idx x \<and> ri_idx x \<le> first_idx a + numOfPaths a \<and>
      re_hw env0 (snd demo_set) r' \<noteq> None \<and>
      uc_entry_at (hw (snd demo_set)) 1 (ri_idx x) = re_hw env0 (snd demo_set) r')"
proof -
  have ok: "fst demo_set = ST_OK" by code_simp
  then have "ret_set_mac_addr env0 gw_a [0, 1, 2, 3, 4, 5] port_1 demo_added = (ST_OK, snd demo_set)"
    by (simp add: demo_set_def prod_eq_iff)
  moreover have "ret_lookup_gw gw_a demo_added = Some (new_re gw_a 1)" by code_simp
  moreover have "1 \<in> set (re_group_ids (new_re gw_a 1))" by simp
  moreover have "re_gw (new_re gw_a 1) = gw_a" by simp
  moreover have "(1 :: nat) < e_ndevs env0" by (simp add: env0_def)
  ultimately show ?thesis
    using ret_set_mac_addr_programs_groups [OF ret_run_inv [OF demo_added_run grp0_boot]] ok by metis
qed

lemma hash_find_put:
  "key e = k \<Longrightarrow> hash_find key (hash_mod key k (\<lambda>_. e) t) k = (if k \<in> key ` set t then Some e else None)"
  unfolding hash_find_def hash_mod_def by (induction t) auto

lemma users_insert:
  "u = (if dl_search list_route_pfx_pbr_cmp_pfx l a = None then dl_append l a else l) \<Longrightarrow> a \<in> set u"
proof -
  have "x = a" if "list_route_pfx_pbr_cmp_pfx x a = 0" for x
    using that by (cases "(x, a)" rule: list_route_pfx_pbr_cmp_pfx.cases) (auto split: if_splits)
  then show "u = (if dl_search list_route_pfx_pbr_cmp_pfx l a = None then dl_append l a else l) \<Longrightarrow> a \<in> set u"
    by (auto simp: dl_search_None)
qed

lemma compare_lists_set:
  assumes m: "compare_lists gws l" and gws: "distinct gws" and l: "distinct (map ri_gw l)"
  shows "ri_gw ` set l = set gws"
proof -
  have len: "length gws = length l" and sub: "set gws \<subseteq> ri_gw ` set l"
    using m by (auto simp: compare_lists_def list_ex_iff dl_search_None split: if_splits)
  have "card (ri_gw ` set l) = length l" using distinct_card [OF l] by simp
  with len distinct_card [OF gws] sub show ?thesis by (metis List.finite_set card_subset_eq finite_imageI)
qed

lemma group_request_frame:
  "re_group (group_request gws s) = re_group (s :: 'a grp_st_scheme)" "lpm_ipv4_at (hw (group_request gws s)) = lpm_ipv4_at (hw s)"
proof -
  have one: "re_group (ret_arpc_request_addr g s) = re_group s \<and> lpm_ipv4_at (hw (ret_arpc_request_addr g s)) = lpm_ipv4_at (hw s)"
    for g and s :: "'a grp_st_scheme"
    by (auto simp: ret_arpc_request_addr_def arpc_request_addr_def arpc_ip_addr_op_def emit_def lpm_write_def fun_eq_iff)
  have "re_group (fold ret_arpc_request_addr gws s) = re_group s \<and> lpm_ipv4_at (hw (fold ret_arpc_request_addr gws s)) = lpm_ipv4_at (hw s)"
    by (induction gws arbitrary: s) (simp_all add: one)
  then show "re_group (group_request gws s) = re_group s" "lpm_ipv4_at (hw (group_request gws s)) = lpm_ipv4_at (hw s)"
    by (simp_all add: group_request_def)
qed

lemma ret_group_add_installs:
  fixes s :: "'a grp_st_scheme"
  assumes inv: "grp_inv E s" and gws: "distinct gws" and room: "res_pop (int (length gws)) s \<noteq> None"
    and add: "ret_group_add E gws ip alen s = (gid, s')"
  shows "\<exists>g. ret_group_get gid s' = Some g \<and> ri_gw ` set (re_idx g) = set gws \<and>
      ROUTE_PFX (htonl (e_big_endian E) ip) alen \<in> set (pfx_pbr g) \<and>
      lpm_ipv4_at (hw s') (htonl (e_big_endian E) ip) alen = Some (group_ltt_entry g)"
proof (cases "group_match gws s")
  case (Some el)
  note b = grp_inv_v_base [OF inv [unfolded grp_inv_def]]
  let ?a = "ROUTE_PFX (htonl (e_big_endian E) ip) alen"
  from Some have el: "el \<in> set (re_group s)" and m: "compare_lists gws (re_idx el)"
    unfolding group_match_def by (auto dest: find_SomeD)
  define u where "u = (if dl_search list_route_pfx_pbr_cmp_pfx (pfx_pbr el) ?a = None then dl_append (pfx_pbr el) ?a else pfx_pbr el)"
  have "ret_group_add E gws ip alen s = (group_id el,
      lpm_add E (htonl (e_big_endian E) ip) alen (group_ltt_entry (el\<lparr>pfx_pbr := u\<rparr>)) (group_put (el\<lparr>pfx_pbr := u\<rparr>) s))"
    using Some by (simp add: ret_group_add_def Let_def u_def)
  with add have s': "gid = group_id el"
    "s' = lpm_add E (htonl (e_big_endian E) ip) alen (group_ltt_entry (el\<lparr>pfx_pbr := u\<rparr>)) (group_put (el\<lparr>pfx_pbr := u\<rparr>) s)"
    by simp_all
  have "?a \<in> set u" by (rule users_insert [where l = "pfx_pbr el"]) (simp add: u_def)
  moreover have "hash_find group_id (re_group s') (group_id el) = Some (el\<lparr>pfx_pbr := u\<rparr>)"
  proof -
    have "re_group s' = hash_mod group_id (group_id el) (\<lambda>_. el\<lparr>pfx_pbr := u\<rparr>) (re_group s)"
      unfolding s'(2) lpm_add_eq group_put_def by simp
    moreover have "group_id el \<in> group_id ` set (re_group s)" using el by (rule imageI)
    ultimately show ?thesis
      using hash_find_put [of group_id "el\<lparr>pfx_pbr := u\<rparr>" "group_id el" "re_group s"] by simp
  qed
  moreover have "ri_gw ` set (re_idx el) = set gws"
    by (rule compare_lists_set [OF m gws]) (use group_okD(2) [OF b(7) [OF el]] in \<open>simp add: slots_ok_def\<close>)
  ultimately show ?thesis
    by (intro exI [of _ "el\<lparr>pfx_pbr := u\<rparr>"]) (simp add: s' ret_group_get_def lpm_add_eq lpm_write_def)
next
  case None
  let ?a = "ROUTE_PFX (htonl (e_big_endian E) ip) alen"
  obtain ids s1 where pop: "res_pop (int (length gws)) s = Some (ids, s1)" using room by auto
  obtain g t where new: "group_new E gws ?a s = (g, t)" by (cases "group_new E gws ?a s") auto
  note N = group_new_inv [OF inv gws pop new]
  have s': "gid = group_id g" "s' = group_request gws
      ((lpm_add E (htonl (e_big_endian E) ip) alen (group_ltt_entry g) t)\<lparr>re_group := re_group t @ [g]\<rparr>)"
    using None add new by (auto simp: ret_group_add_def Let_def hash_add_def lpm_add_eq)
  have fr: "re_group s' = re_group t @ [g]" "lpm_ipv4_at (hw s') = lpm_ipv4_at (Uc (LpmIpv4UcPrefixAdd (htonl (e_big_endian E) ip) alen (group_ltt_entry g)) # hw t)"
    unfolding s' by (simp_all add: group_request_frame lpm_add_eq)
  have "group_id ` set (re_group t) \<subseteq> set (group_ids s)"
    using N inv by (simp add: grp_inv_def grp_inv_v_def grp_base_def)
  then have "hash_find group_id (re_group t) (group_id g) = None" using N by (auto simp: hash_find_None)
  then have "ret_group_get gid s' = Some g" by (simp add: ret_group_get_def s'(1) fr hash_find_def find_append)
  moreover have "ri_gw ` set (re_idx g) = set gws" using N by (metis list.set_map)
  ultimately show ?thesis using N by (intro exI [of _ g]) (simp add: fr lpm_write_def)
qed

text \<open>C21. \<open>ret_group_add\<close> returns the id of a group that has exactly the gateways asked for, lists
  the prefix among its users, and is what the prefix table now holds for the prefix: the group's
  run, or the drop entry while none of its gateways is resolved.\<close>

theorem ret_group_add_installs_prefix:
  fixes s :: "'a grp_st_scheme"
  assumes inv: "grp_inv E s" and gws: "distinct gws" and room: "res_pop (int (length gws)) s \<noteq> None"
    and add: "ret_group_add E gws ip alen s = (gid, s')"
  shows "\<exists>g. ret_group_get gid s' = Some g \<and> ri_gw ` set (re_idx g) = set gws \<and>
      ROUTE_PFX (htonl (e_big_endian E) ip) alen \<in> set (pfx_pbr g) \<and>
      lpm_ipv4_at (hw s') (htonl (e_big_endian E) ip) alen = Some (group_ltt_entry g)"
  by (rule ret_group_add_installs [OF assms])

theorem ret_group_add_installs_prefix_witness:
  "fst (ret_group_add env0 [gw_a, gw_b] 0x0A010000 16 grp0) = 1 \<and>
   (\<exists>g. ret_group_get 1 demo_added = Some g \<and> ri_gw ` set (re_idx g) = {gw_a, gw_b} \<and>
      ROUTE_PFX (htonl (e_big_endian env0) 0x0A010000) 16 \<in> set (pfx_pbr g) \<and>
      lpm_ipv4_at (hw demo_added) (htonl (e_big_endian env0) 0x0A010000) 16 = Some (group_ltt_entry g))"
proof -
  have d: "distinct [gw_a, gw_b]" by code_simp
  have p: "res_pop (int (length [gw_a, gw_b])) grp0 \<noteq> None" by code_simp
  have f: "fst (ret_group_add env0 [gw_a, gw_b] 0x0A010000 16 grp0) = 1" by code_simp
  have "ret_group_add env0 [gw_a, gw_b] 0x0A010000 16 grp0 = (1, demo_added)"
    using f by (simp add: demo_added_def prod_eq_iff)
  from ret_group_add_installs_prefix [OF grp0_inv d p this] f show ?thesis by simp
qed

text \<open>\<open>ret_group_del\<close> of the last prefix of a group takes the group out of the table, gives back
  its id and exactly its run of route entry slots, and no gateway lists the group any more.\<close>

theorem ret_group_del_last:
  fixes s :: "'a grp_st_scheme"
  assumes inv: "grp_inv E s" and g: "ret_group_get gid s = Some g"
    and last: "pfx_pbr g = [ROUTE_PFX (htonl (e_big_endian E) pfx) alen]" and n: "0 < re_count g" "re_count g < 9"
    and s': "s' = ret_group_del E gid pfx alen s"
  shows "ret_group_get gid s' = None \<and> set (group_ids s') = set (group_ids s) - {gid} \<and>
      set (ret_indexes_used s') = set (ret_indexes_used s) - {first_idx g ..< first_idx g + re_count g} \<and>
      (\<forall>re \<in> set (ret s'). gid \<notin> set (re_group_ids re))"
proof -
  have find: "hash_find group_id (re_group s) gid = Some g" using g by (simp add: ret_group_get_def)
  then have in_s: "g \<in> set (re_group s)" "group_id g = gid" using hash_find_in by fastforce+
  have none: "ret_group_remove_pfx (e_big_endian E) (pfx_pbr g) pfx alen = []"
    by (simp add: ret_group_remove_pfx_def last dl_delete_found_def)
  have eq: "s' = group_drop (g\<lparr>pfx_pbr := []\<rparr>) s" unfolding s' ret_group_del_def find by (simp add: none)
  note D = group_drop_empty [OF inv in_s(1)]
  have inv': "grp_inv E s'" unfolding eq by (rule group_drop_inv [OF inv in_s(1)])
  have gone: "ret_group_get gid s' = None"
    using D(2) in_s(2) by (simp add: eq ret_group_get_def hash_find_None)
  moreover have "gid \<notin> set (re_group_ids re)" if "re \<in> set (ret s')" for re
  proof
    assume "gid \<in> set (re_group_ids re)"
    from gw_group [OF inv' [unfolded grp_inv_def] that this] gone show False
      unfolding ret_group_get_def by (metis option.distinct(1))
  qed
  ultimately show ?thesis using D(3,4) n in_s(2) by (simp add: eq)
qed

theorem ret_group_del_last_witness:
  "ret_group_get 1 (ret_group_del env0 1 0x0A010000 16 demo_added) = None \<and>
   set (group_ids (ret_group_del env0 1 0x0A010000 16 demo_added)) = set (group_ids demo_added) - {1} \<and>
   set (ret_indexes_used (ret_group_del env0 1 0x0A010000 16 demo_added)) = set (ret_indexes_used demo_added) - {5 ..< 5 + 2}"
proof -
  obtain g where g: "g = \<lparr>group_id = 1, re_count = 2, first_idx = 5, numOfPaths = -1,
      re_idx = [\<lparr>ri_gw = gw_a, ri_idx = 3\<rparr>, \<lparr>ri_gw = gw_b, ri_idx = 3\<rparr>], pfx_pbr = [ROUTE_PFX 0x0A010000 16]\<rparr>" by blast
  have "ret_group_get 1 demo_added = Some g" unfolding g by code_simp
  moreover have "pfx_pbr g = [ROUTE_PFX (htonl (e_big_endian env0) 0x0A010000) 16]" by (simp add: g env0_def ntohl_def)
  ultimately show ?thesis
    using ret_group_del_last [OF ret_run_inv [OF demo_added_run grp0_boot] _ _ _ _ refl, where gid = 1 and g = g and pfx = "0x0A010000" and alen = 16] by (simp add: g)
qed

end
