(* ===== verification/Route_Inv.thy ===== *)
theory Route_Inv
  imports Route Ret_Reach
begin

text \<open>
  The routing front end against the FIB and the groups together: the well-formedness of the FIB
  and its preservation, what a trapped packet installs, what the deletion of a route withdraws
  from the hardware, and two runs on which the code goes wrong.
\<close>

section \<open>Group operations leave the FIB alone\<close>

lemma nht_fib [simp]: "fib_e (snd (nht_unref a s)) = fib_e s"
  by (auto simp: nht_unref_def nhs_push_def Let_def split: option.splits)

lemma ret_unref_fib [simp]: "fib_e (snd (ret_unref g k s)) = fib_e s"
  by (auto simp: ret_unref_def Let_def arpc_release_addr_def arpc_ip_addr_op_def emit_def split: option.splits)

lemma fold_fib: "(\<And>x s. fib_e (f x s) = fib_e s) \<Longrightarrow> fib_e (fold f xs s) = fib_e s"
  by (induction xs arbitrary: s) simp_all

lemma group_put_fib [simp]: "fib_e (group_put g s) = fib_e s"
  by (simp add: group_put_def)

lemma res_push_count_first_fib [simp]: "fib_e (snd (res_push_count_first n f s)) = fib_e s"
  by (simp add: res_push_count_first_def res_push_def)

lemma group_drop_fib [simp]: "fib_e (group_drop g s) = fib_e s"
  by (simp add: group_drop_def ret_group_del_2_def del_id_def Let_def fold_fib)

lemma ret_group_del_fib [simp]: "fib_e (ret_group_del E gid pfx alen s) = fib_e s"
  by (auto simp: ret_group_del_def split: option.splits)

lemma lpm_add_fib [simp]: "fib_e (lpm_add E a l e s) = fib_e s"
  by (simp add: lpm_add_def crp_def emit_def)

lemma route_del_fib_entry_fib [simp]: "fib_e (route_del_fib_entry E e s) = fib_e s"
  by (simp add: route_del_fib_entry_def Let_def crp_def emit_def)

lemma fib_del_entry_with_children_fib [simp]: "fib_e (fib_del_entry_with_children E e s) = fib_e s"
  by (simp add: fib_del_entry_with_children_def fold_fib)

lemma arpc_request_fib [simp]: "fib_e (ret_arpc_request_addr g s) = fib_e s"
  by (simp add: ret_arpc_request_addr_def arpc_request_addr_def arpc_ip_addr_op_def emit_def)

lemma group_request_fib [simp]: "fib_e (group_request gws s) = fib_e s"
  by (simp add: group_request_def fold_fib)

lemma vif_getn_fib: "fib_e (snd (vif_getn E i s)) = fib_e s"
  using vif_getn_frame [of E i s] by auto

lemma ret_set_re_to_idx_fib [simp]: "fib_e (ret_set_re_to_idx E re k s) = fib_e s"
proof -
  obtain v s1 where v: "vif_getn E (re_vif_id re) s = (v, s1)" by (cases "vif_getn E (re_vif_id re) s") auto
  then have s1: "fib_e s1 = fib_e s" using vif_getn_fib [of E "re_vif_id re" s] by simp
  have "fib_e (snd (fill_cpss_if r s1)) = fib_e s1" for r
    by (auto simp: fill_cpss_if_def vif_fill_cpss_if_port_def phys_dev_def crash_def split: vif_ref.splits)
  with v s1 show ?thesis by (auto simp: ret_set_re_to_idx_def split: option.splits prod.splits) (metis snd_conv)
qed

lemma ret_add_fib: "ret_add g k s = (re, s') \<Longrightarrow> fib_e s' = fib_e s"
  by (auto simp: ret_add_def Let_def split: option.splits)

lemma group_fill_fib: "group_fill E k ids gs st l s = (st', l', s') \<Longrightarrow> fib_e s' = fib_e s"
proof (induction gs arbitrary: st l s)
  case Nil
  then show ?case by simp
next
  case (Cons g gs)
  obtain re s1 where a: "ret_add g k s = (re, s1)" by (cases "ret_add g k s") auto
  from Cons.prems Cons.IH a ret_add_fib [OF a] show ?case by (auto split: if_splits)
qed

lemma group_new_fib: "group_new E gws add s = (g, t) \<Longrightarrow> fib_e t = fib_e s"
  by (auto simp: group_new_def get_new_group_id_def pop_idxs_def res_pop_def Let_def crash_def
      split: prod.splits option.splits if_splits dest!: group_fill_fib)

lemma ret_group_add_fib [simp]: "fib_e (snd (ret_group_add E gws ip alen s)) = fib_e s"
  by (auto simp: ret_group_add_def Let_def split: option.splits prod.splits dest: group_new_fib)

lemma fib_via_hw: "\<exists>h. t = s\<lparr>hw := h\<rparr> \<and> P h \<Longrightarrow> fib_e t = fib_e s"
  by auto

lemma ltt_set_fib [simp]: "fib_e (snd (ret_group_ltt_tcam_set E ix i g s)) = fib_e s"
  by (rule fib_via_hw [OF ret_group_ltt_tcam_set_eq])

lemma update_lpm_fib [simp]: "fib_e (ret_group_update_lpm_table E g s) = fib_e s"
  by (rule fib_via_hw [OF ret_group_update_lpm_table_eq])

lemma ret_group_add_pbr_fib [simp]: "fib_e (snd (ret_group_add_pbr E gws ix i s)) = fib_e s"
  by (auto simp: ret_group_add_pbr_def Let_def split: option.splits prod.splits dest: group_new_fib)

lemma ret_group_del_pbr_fib [simp]: "fib_e (ret_group_del_pbr gid ix i s) = fib_e s"
  by (auto simp: ret_group_del_pbr_def split: option.splits)

lemma set_re_gw_fib [simp]: "fib_e (ret_set_re_to_idx_gw E g i s) = fib_e s"
  by (auto simp: ret_set_re_to_idx_gw_def split: option.splits)

lemma gw_changed_fib [simp]: "fib_e (ret_group_gw_changed E gid re c s) = fib_e s"
  unfolding ret_group_gw_changed_def ret_group_gw_changed_enable_def ret_group_gw_changed_enable_changed_def
    ret_group_gw_changed_disable_def
  by (auto simp: Let_def split: option.splits)

lemma re_put_fib [simp]: "fib_e (re_put re s) = fib_e s"
  by (simp add: re_put_def)

lemma nht_add_fib: "fib_e (snd (nht_add E a s)) = fib_e s"
  by (auto simp: nht_add_def nhs_pop_def nhs_push_def Let_def crash_def split: option.splits prod.splits gt_status.splits dest!: arg_cong [where f = snd])

lemma ret_unset_fib [simp]: "fib_e (snd (ret_unset_mac_addr E g s)) = fib_e s"
  by (auto simp: ret_unset_mac_addr_def Let_def fold_fib split: option.splits)

lemma ret_set_fib [simp]: "fib_e (snd (ret_set_mac_addr E g addr v s)) = fib_e s"
proof -
  obtain w t where w: "vif_getn E v s = (w, t)" by (cases "vif_getn E v s")
  then have t: "fib_e t = fib_e s" using vif_getn_fib [of E v s] by simp
  have add: "fib_e u = fib_e q" if "nht_add E addr q = (i, u)" for i u and q :: "'a fib_st_scheme"
    using nht_add_fib [of E addr q] that by simp
  show ?thesis
    using w t by (auto simp: ret_set_mac_addr_def Let_def fold_fib split: option.splits prod.splits dest!: add)
qed

lemma ret_step_fib: "ret_step E s t \<Longrightarrow> fib_e t = fib_e s"
proof (induction rule: ret_step.induct)
  case (step_exec rq s)
  show ?case by (cases rq) (simp_all add: ret_exec_def)
qed

section \<open>Well-formedness of the FIB\<close>

text \<open>An entry of the table of length \<open>len\<close>: filed under its masked prefix, with distinct
  gateways and a VLAN for each, and with children that are host entries inside the prefix, one per address.\<close>

definition entry_wf :: "nat \<Rightarrow> fib_entry \<Rightarrow> bool" where
  "entry_wf len e \<longleftrightarrow>
     fe_len e = len \<and> fe_addr e = fe_pfx e AND mkmask len \<and> length (fe_gw e) = length (fe_vid e) \<and> distinct (fe_gw e) \<and>
     keys_distinct fe_addr (children e) \<and>
     (\<forall>c \<in> set (children e). fe_len c = 32 \<and> fe_addr c AND mkmask len = fe_addr e \<and>
        fe_gw c = [fe_addr c] \<and> length (fe_vid c) = 1)"

definition fib_wf :: "'a fib_st_scheme \<Rightarrow> bool" where
  "fib_wf s \<longleftrightarrow>
     length (fib_e s 0) \<le> 1 \<and>
     (\<forall>len \<le> 32. keys_distinct fe_addr (fib_e s len) \<and> (\<forall>e \<in> set (fib_e s len). entry_wf len e))"

lemma fib_wfD:
  assumes "fib_wf s"
  shows "len \<le> 32 \<Longrightarrow> keys_distinct fe_addr (fib_e s len)"
    and "len \<le> 32 \<Longrightarrow> e \<in> set (fib_e s len) \<Longrightarrow> entry_wf len e"
    and "length (fib_e s 0) \<le> 1"
  using assms unfolding fib_wf_def by blast+

lemma fib_wf_cong: "fib_e t = fib_e s \<Longrightarrow> fib_wf t = fib_wf s"
  by (simp add: fib_wf_def)

lemma entry_wf_new: "entry_wf len (fib_entry_new (addr AND mkmask len) addr len)"
  by (simp add: entry_wf_def fib_entry_new_def)

lemma mkmask_0 [simp]: "mkmask 0 = 0"
  by (simp add: mkmask_def)

lemma entry_wf_gw: "entry_wf len e \<Longrightarrow> entry_wf len (fib_entry_add_gw be g e)"
  by (simp add: entry_wf_def fib_entry_add_gw_def Let_def dl_append_def dl_search_uint32)

lemma entry_wf_gws: "entry_wf len e \<Longrightarrow> entry_wf len (fib_entry_add_gws be gs e)"
  unfolding fib_entry_add_gws_def by (induction gs arbitrary: e) (simp_all add: entry_wf_gw)

text \<open>Changing one table.\<close>

lemma fib_wf_set:
  assumes wf: "fib_wf s" and "keys_distinct fe_addr tbl" and "len = 0 \<Longrightarrow> length tbl \<le> 1"
    and "\<And>e. e \<in> set tbl \<Longrightarrow> entry_wf len e"
  shows "fib_wf (fib_set len tbl s)"
  using assms unfolding fib_wf_def fib_set_def by (auto simp del: One_nat_def)

lemma fib_set_pbr [simp]: "fib_e (fib_set len tbl s) = (fib_e s)(len := tbl)"
  by (simp add: fib_set_def)

lemma fib_add_wf:
  assumes wf: "fib_wf s" shows "fib_wf (fib_add E addr len gws s)"
proof -
  consider (bad) "\<not> len < 33" | (zero) "len = 0" | (old) e where "0 < len" "len < 33" "fib_find len (addr AND mkmask len) s = Some e"
    | (new) "0 < len" "len < 33" "fib_find len (addr AND mkmask len) s = None" by fastforce
  then show ?thesis
  proof cases
    case bad
    with wf show ?thesis by (simp add: fib_add_def crash_def fib_wf_def)
  next
    case zero
    define e0 where "e0 = (case fib_e s 0 of [] \<Rightarrow> fib_entry_new 0 0 0 | e # _ \<Rightarrow> e)"
    define e1 where "e1 = fib_entry_add_gws (e_big_endian E) gws (e0\<lparr>fe_addr := 0, fe_pfx := 0, fe_len := 0\<rparr>)"
    have add: "fib_add E addr len gws s = fib_set 0 [e1] s" using zero by (simp add: fib_add_def Let_def e0_def e1_def)
    have "entry_wf 0 e0"
      using fib_wfD(2) [OF wf, of 0] entry_wf_new [of 0 0] by (auto simp: e0_def split: list.splits)
    then have "entry_wf 0 (e0\<lparr>fe_addr := 0, fe_pfx := 0, fe_len := 0\<rparr>)" by (simp add: entry_wf_def)
    then have "entry_wf 0 e1" unfolding e1_def by (rule entry_wf_gws)
    then show ?thesis unfolding add by (intro fib_wf_set [OF wf]) simp_all
  next
    case old
    with wf show ?thesis by (simp add: fib_add_def Let_def)
  next
    case new
    let ?e = "fib_entry_add_gws (e_big_endian E) gws (fib_entry_new (addr AND mkmask len) addr len)"
    have add: "fib_add E addr len gws s = fib_set len (fib_e s len @ [?e]) s"
      using new by (simp add: fib_add_def Let_def hash_add_def)
    have a: "fe_addr ?e = addr AND mkmask len" by (simp add: fib_entry_new_def)
    have "addr AND mkmask len \<notin> fe_addr ` set (fib_e s len)" using new by (simp add: fib_find_def hash_find_None)
    with a have kd: "keys_distinct fe_addr (fib_e s len @ [?e])"
      using fib_wfD(1) [OF wf, of len] new by simp
    have "entry_wf len ?e" by (rule entry_wf_gws [OF entry_wf_new])
    then have "entry_wf len x" if "x \<in> set (fib_e s len @ [?e])" for x
      using that fib_wfD(2) [OF wf, of len x] new by auto
    with kd new show ?thesis unfolding add by (intro fib_wf_set [OF wf]) simp_all
  qed
qed

lemma fib_del_wf:
  assumes wf: "fib_wf s" shows "fib_wf (snd (fib_del E addr len s))"
proof -
  consider (bad) "\<not> len < 33" | (zero) "len = 0" | (none) "0 < len" "len < 33" "fib_find len (addr AND mkmask len) s = None"
    | (some) e where "0 < len" "len < 33" "fib_find len (addr AND mkmask len) s = Some e" by fastforce
  then show ?thesis
  proof cases
    case bad
    with wf show ?thesis by (simp add: fib_del_def crash_def fib_wf_def)
  next
    case zero
    have "fib_wf (fib_set 0 [] t)" if "fib_wf t" for t :: "'a fib_st_scheme"
      by (rule fib_wf_set [OF that]) simp_all
    moreover have "fib_wf (fib_del_entry_with_children E e s)" for e
      by (rule iffD2 [OF fib_wf_cong wf]) simp
    ultimately show ?thesis using zero wf by (auto simp: fib_del_def split: list.splits)
  next
    case none
    with wf show ?thesis by (simp add: fib_del_def Let_def)
  next
    case some
    let ?t = "hash_del fe_addr (addr AND mkmask len) (fib_e s len)"
    have kd: "keys_distinct fe_addr (fib_e s len)" using fib_wfD(1) [OF wf] some by simp
    have sub: "set ?t \<subseteq> set (fib_e s len)" using set_hash_del [OF kd] by blast
    have "fib_wf (fib_set len ?t s)"
      by (rule fib_wf_set [OF wf uth.wf_del [OF kd]]) (use some fib_wfD(2) [OF wf, of len] sub in auto)
    moreover have "snd (fib_del E addr len s) = fib_del_entry_with_children E e (fib_set len ?t s)"
      using some by (simp add: fib_del_def Let_def)
    ultimately show ?thesis by (simp add: fib_wf_cong [of "fib_del_entry_with_children E e (fib_set len ?t s)" "fib_set len ?t s"])
  qed
qed

text \<open>Changing one entry through a pointer.\<close>

lemma fib_wf_mod:
  assumes wf: "fib_wf s" and len: "len \<le> 32" and key: "\<And>e. fe_addr (f e) = fe_addr e"
    and ok: "\<And>e. e \<in> set (fib_e s len) \<Longrightarrow> fe_addr e = a \<Longrightarrow> entry_wf len e \<Longrightarrow> entry_wf len (f e)"
  shows "fib_wf (fib_set len (hash_mod fe_addr a f (fib_e s len)) s)"
proof (rule fib_wf_set [OF wf])
  have kd: "keys_distinct fe_addr (fib_e s len)" by (rule fib_wfD(1) [OF wf len])
  then show "keys_distinct fe_addr (hash_mod fe_addr a f (fib_e s len))" by (simp add: key)
  show "length (hash_mod fe_addr a f (fib_e s len)) \<le> 1" if "len = 0"
    using fib_wfD(3) [OF wf] that by (simp add: hash_mod_def)
  fix e assume "e \<in> set (hash_mod fe_addr a f (fib_e s len))"
  then obtain e0 where e0: "e0 \<in> set (fib_e s len)" "e = (if fe_addr e0 = a then f e0 else e0)"
    unfolding set_hash_mod [OF kd key] by blast
  then show "entry_wf len e"
    using fib_wfD(2) [OF wf len e0(1)] ok [OF e0(1)] by (cases "fe_addr e0 = a") simp_all
qed

lemma fib_set_group_id_wf:
  assumes wf: "fib_wf s" and len: "ref_len r \<le> 32" shows "fib_wf (fib_entry_set_group_id r gid s)"
proof (cases r)
  case (FR_Entry i a)
  have "fib_wf (fib_set i (hash_mod fe_addr a (\<lambda>e. e\<lparr>fe_group_id := gid\<rparr>) (fib_e s i)) s)"
    using len FR_Entry by (intro fib_wf_mod [OF wf]) (simp_all add: ref_len_def entry_wf_def)
  with FR_Entry show ?thesis by (simp add: fib_entry_set_group_id_def)
next
  case (FR_Child i a c)
  let ?f = "\<lambda>e. e\<lparr>children := hash_mod fe_addr c (\<lambda>x. x\<lparr>fe_group_id := gid\<rparr>) (children e)\<rparr>"
  have "entry_wf i (?f e)" if e: "entry_wf i e" for e
  proof -
    have kd: "keys_distinct fe_addr (children e)" using e by (simp add: entry_wf_def)
    have "set (hash_mod fe_addr c (\<lambda>x. x\<lparr>fe_group_id := gid\<rparr>) (children e)) =
        (\<lambda>x. if fe_addr x = c then x\<lparr>fe_group_id := gid\<rparr> else x) ` set (children e)"
      by (rule set_hash_mod [OF kd]) simp
    with e kd show ?thesis by (auto simp: entry_wf_def)
  qed
  then have "fib_wf (fib_set i (hash_mod fe_addr a ?f (fib_e s i)) s)"
    using len FR_Child by (intro fib_wf_mod [OF wf]) (simp_all add: ref_len_def)
  with FR_Child show ?thesis by (simp add: fib_entry_set_group_id_def)
qed

lemma fib_route_wf:
  assumes wf: "fib_wf s" shows "fib_wf (snd (fib_route addr s))"
proof (cases "fib_scan s 32 addr")
  case None
  with wf show ?thesis by (simp add: fib_route_def)
next
  case (Some p)
  then obtain i e where p: "fib_scan s 32 addr = Some (i, e)" by (cases p) auto
  have i: "i \<le> 32" and ea: "fe_addr e = addr AND mkmask i" and ein: "e \<in> set (fib_e s i)"
    using fib_scan_spec [of 32 s addr] p by (auto simp: mkmask_32)
  show ?thesis
  proof (cases "connected e \<and> hash_find fe_addr (children e) addr = None")
    case True
    let ?f = "\<lambda>e. e\<lparr>children := hash_add (fib_child_new addr e) (children e)\<rparr>"
    have kd: "keys_distinct fe_addr (fib_e s i)" by (rule fib_wfD(1) [OF wf i])
    have "entry_wf i (?f x)" if x: "x \<in> set (fib_e s i)" "fe_addr x = fe_addr e" "entry_wf i x" for x
    proof -
      have "x = e" using kd x(1,2) ein by (auto simp: distinct_map dest: inj_onD)
      with True x ea show ?thesis
        by (auto simp: entry_wf_def hash_add_def fib_child_new_def hash_find_None connected_def dl_append_def)
    qed
    then have "fib_wf (fib_set i (hash_mod fe_addr (fe_addr e) ?f (fib_e s i)) s)"
      using i by (intro fib_wf_mod [OF wf]) simp_all
    with p True show ?thesis by (simp add: fib_route_def)
  next
    case False
    with p wf show ?thesis by (auto simp: fib_route_def split: option.splits)
  qed
qed

section \<open>The FIB over all requests\<close>

lemma route_install_fib [simp]: "fib_e (route_install E base rt s) = fib_e s"
  by (simp add: route_install_def)

lemma crash_fib [simp]: "fib_e (crash s) = fib_e s"
  by (simp add: crash_def)

lemma fib_get_fib [simp]: "fib_e (snd (fib_get a len s)) = fib_e s"
  by (simp add: fib_get_def)

lemma route_add_wf: "fib_wf s \<Longrightarrow> fib_wf (snd (route_add E rt s))"
  unfolding route_add_def snd_conv by (rule iffD2 [OF fib_wf_cong [OF route_install_fib] fib_add_wf])

lemma route_add_change_wf: "fib_wf s \<Longrightarrow> fib_wf (snd (route_add_change E rt s))"
  unfolding route_add_change_def snd_conv by (rule iffD2 [OF fib_wf_cong [OF route_install_fib] fib_add_wf])

lemma route_del_wf: "fib_wf s \<Longrightarrow> fib_wf (snd (route_del E rt s))"
  unfolding route_del_def by (simp add: fib_del_wf)

lemma route_request_wf:
  assumes "fib_wf s" and "ref_len r \<le> 32" shows "fib_wf (route_request_mac_addr E r e alen s)"
proof -
  have "fib_wf (snd (ret_group_add E gws pfx n t))" if "fib_e t = fib_e s" for gws pfx n and t :: "'a fib_st_scheme"
    by (rule iffD2 [OF fib_wf_cong assms(1)]) (simp add: that)
  then show ?thesis using assms(2)
    unfolding route_request_mac_addr_def Let_def
    by (auto split: prod.splits simp: crash_def intro!: fib_set_group_id_wf dest!: arg_cong [where f = snd])
qed

lemma route_handle_wf:
  assumes wf: "fib_wf s" shows "fib_wf (route_handle_udaddr E daddr s)"
proof -
  have "fib_wf (snd (fib_route daddr s))" by (rule fib_route_wf [OF wf])
  moreover have "ref_len r \<le> 32" if "fst (fib_route daddr s) = Some r" for r
    using fib_route_spec [where addr = daddr and s = s] that by simp
  moreover have "fib_wf (crash t)" if "fib_wf t" for t :: "'a fib_st_scheme"
    using that by (simp add: fib_wf_def crash_def)
  ultimately show ?thesis
    unfolding route_handle_udaddr_def by (auto split: prod.splits option.splits simp: Let_def intro!: route_request_wf)
qed

lemma route_change_wf:
  assumes wf: "fib_wf s" shows "fib_wf (snd (route_change E rt s))"
proof -
  obtain fib t where get: "fib_get (ntohl (e_big_endian E) (rt_addr rt)) (rt_alen rt) s = (fib, t)"
    by (cases "fib_get (ntohl (e_big_endian E) (rt_addr rt)) (rt_alen rt) s")
  have "fib_e t = fib_e s" using fib_get_fib [of "ntohl (e_big_endian E) (rt_addr rt)" "rt_alen rt" s] get by simp
  then have "fib_wf (snd (route_del E rt t))" by (intro route_del_wf iffD2 [OF fib_wf_cong wf])
  then show ?thesis
    unfolding route_change_def Let_def get by (simp add: route_add_wf route_handle_wf route_add_change_wf)
qed

section \<open>The routing front end and the groups together\<close>

lemma grp_inv_default:
  fixes s :: "'a grp_st_scheme"
  assumes inv: "grp_inv E s" and h: "\<And>d i. i \<noteq> DEFAULT_UC_RE_IDX \<Longrightarrow> uc_entry_at h d i = uc_entry_at (hw s) d i"
  shows "grp_inv E (s\<lparr>hw := h\<rparr>)"
proof -
  let ?t = "s\<lparr>hw := h\<rparr>"
  note inv' = inv [unfolded grp_inv_def] and b = grp_inv_v_base [OF inv [unfolded grp_inv_def]]
  have vs: "vif_same ?t s" by (simp add: vif_same_def)
  have hwre: "re_hw E ?t re = re_hw E s re" for re using vif_same_hw [OF vs] by simp
  have "group_ok E (valid_gws s) {} ?t g" if g: "g \<in> set (re_group s)" for g
  proof (rule group_ok_transfer [OF b(7) [OF g]])
    fix x d assume x: "x \<in> set (re_idx g)" "ri_gw x \<in> valid_gws s"
    have "ri_idx x \<in> set (ret_indexes_used s)"
      using group_ok_slot [OF b(7) [OF g] x] group_okD(3) [OF b(7) [OF g]] by auto
    then have "ri_idx x \<noteq> DEFAULT_UC_RE_IDX"
      using b(6) by (auto simp: res_ok_def FIRST_REGULAR_RE_IDX_def DEFAULT_UC_RE_IDX_def MGMT_IP_RE_IDX_def)
    then show "uc_entry_at (hw ?t) d (ri_idx x) = uc_entry_at (hw s) d (ri_idx x)" by (simp add: h)
  qed (simp_all add: hwre)
  moreover have "grp_base E ?t"
    using inv' vif_same_wf [OF vs, of E] by (auto simp: grp_inv_v_def grp_base_def re_ok_def res_ok_def hwre)
  moreover have "valid_gws ?t = valid_gws s" by (simp add: valid_gws_def)
  ultimately show ?thesis by (simp add: grp_inv_def grp_inv_v_def)
qed

lemma grp_inv_crash: "grp_inv E s \<Longrightarrow> grp_inv E (crash s)"
  by (rule grp_inv_cong [of "crash s" s]) (simp_all add: crash_def vif_same_def)

lemma grp_inv_fib_e: "grp_inv E (s\<lparr>fib_e := f\<rparr>) = grp_inv E s"
proof
  show "grp_inv E s \<Longrightarrow> grp_inv E (s\<lparr>fib_e := f\<rparr>)"
    by (rule grp_inv_cong [where s = s]) (simp_all add: vif_same_def)
  show "grp_inv E (s\<lparr>fib_e := f\<rparr>) \<Longrightarrow> grp_inv E s"
    by (rule grp_inv_cong [where s = "s\<lparr>fib_e := f\<rparr>"]) (simp_all add: vif_same_def)
qed

lemma grp_inv_crp: "grp_inv E s \<Longrightarrow> (\<And>d i. uc_write d i x = None) \<Longrightarrow> grp_inv E (snd (crp E x s))"
  using grp_inv_hw [of E s "x # hw s"] by (simp add: crp_def emit_def uc_silent_Cons)

lemma grp_inv_lpm: "grp_inv E s \<Longrightarrow> grp_inv E (lpm_add E a l e s)"
  unfolding lpm_add_def by (rule grp_inv_crp) (simp_all add: uc_write_def)

lemma route_install_inv: "grp_inv E s \<Longrightarrow> grp_inv E (route_install E base rt s)"
proof -
  assume inv: "grp_inv E s"
  let ?c = "\<lambda>d. Uc (UcRouteEntriesWrite d DEFAULT_UC_RE_IDX (uc_zero\<lparr>uc_cmd := CMD_TRAP_TO_CPU, uc_cpuCodeIdx := 1\<rparr>))"
  have "uc_entry_at (rev (map ?c ds) @ h) d i = uc_entry_at h d i" if "i \<noteq> DEFAULT_UC_RE_IDX" for d i ds h
    using that by (induction ds arbitrary: h) (simp_all add: uc_write_def)
  then show ?thesis using inv by (auto simp: route_install_def dev_writes_def grp_inv_lpm intro: grp_inv_default)
qed

lemma fib_add_inv: "grp_inv E s \<Longrightarrow> grp_inv E (fib_add E' a l gws s)"
  by (auto simp: fib_add_def Let_def fib_set_def grp_inv_fib_e grp_inv_crash split: option.splits)

lemma route_del_entry_inv: "grp_inv E s \<Longrightarrow> grp_inv E (route_del_fib_entry E e s)"
  unfolding route_del_fib_entry_def Let_def
  by (auto intro!: grp_inv_lpm grp_inv_crp ret_group_del_inv simp: uc_write_def)

lemma fib_del_inv: "grp_inv E s \<Longrightarrow> grp_inv E (snd (fib_del E a l s))"
proof -
  have f: "grp_inv E (fold (route_del_fib_entry E) cs t)" if "grp_inv E t" for cs and t :: "'a fib_st_scheme"
    using that by (induction cs arbitrary: t) (simp_all add: route_del_entry_inv)
  show "grp_inv E s \<Longrightarrow> grp_inv E (snd (fib_del E a l s))"
    by (auto simp: fib_del_def Let_def fib_set_def grp_inv_fib_e grp_inv_crash fib_del_entry_with_children_def
        intro!: route_del_entry_inv f split: option.splits list.splits)
qed

lemma fib_route_inv: "grp_inv E s \<Longrightarrow> grp_inv E (snd (fib_route a s))"
  by (auto simp: fib_route_def fib_set_def grp_inv_fib_e split: option.splits prod.splits list.splits)

text \<open>What the code assumes when a packet hits a prefix that has no group yet: its gateways fit the
  array \<open>gw_arr\<close> and there is a run of free route entries.\<close>

definition udt_ready :: "u32 \<Rightarrow> 'a fib_st_scheme \<Rightarrow> bool" where
  "udt_ready daddr s \<longleftrightarrow>
     (case fib_route daddr s of
        (None, t) \<Rightarrow> True
      | (Some r, t) \<Rightarrow>
          (case fib_deref r t of
             None \<Rightarrow> False
           | Some e \<Rightarrow> fe_group_id e = 0 \<longrightarrow> length (fe_gw e) \<le> 8 \<and> res_pop (int (length (fe_gw e))) t \<noteq> None))"

lemma fib_deref_node:
  assumes wf: "fib_wf s" and r: "ref_len r \<le> 32" and e: "fib_deref r s = Some e"
  shows "distinct (fe_gw e)" and "length (fe_vid e) = length (fe_gw e)"
proof -
  have "distinct (fe_gw e) \<and> length (fe_vid e) = length (fe_gw e)"
  proof (cases r)
    case (FR_Entry i a)
    with e obtain x where x: "fib_find i a s = Some x" "e = fib_node.truncate x" by (auto simp: fib_deref_def)
    from hash_find_in [OF x(1) [unfolded fib_find_def]] have "entry_wf i x"
      using fib_wfD(2) [OF wf, of i x] r FR_Entry by (simp add: ref_len_def)
    with x(2) show ?thesis by (simp add: entry_wf_def fib_node.truncate_def)
  next
    case (FR_Child i a c)
    with e obtain x where x: "fib_find i a s = Some x" "hash_find fe_addr (children x) c = Some e"
      by (auto simp: fib_deref_def split: option.splits)
    from hash_find_in [OF x(1) [unfolded fib_find_def]] have "entry_wf i x"
      using fib_wfD(2) [OF wf, of i x] r FR_Child by (simp add: ref_len_def)
    with hash_find_in [OF x(2)] show ?thesis by (simp add: entry_wf_def)
  qed
  then show "distinct (fe_gw e)" "length (fe_vid e) = length (fe_gw e)" by simp_all
qed

lemma route_fill_gws_distinct:
  assumes "distinct as" and "length vs = length as"
  shows "distinct (map (\<lambda>(a, v). \<lparr>gw_addr = htonl be a, gw_vid = v\<rparr>) (zip as vs))"
proof -
  have "inj (\<lambda>(a, v). \<lparr>gw_addr = htonl be a, gw_vid = v\<rparr>)" by (auto intro!: injI)
  then show ?thesis using assms by (auto simp: distinct_map distinct_zipI1 intro: inj_on_subset)
qed

lemma set_group_id_inv: "grp_inv E (fib_entry_set_group_id r gid s) = grp_inv E s"
  by (simp add: fib_entry_set_group_id_def fib_set_def grp_inv_fib_e split: fib_ref.splits)

lemma route_handle_inv:
  assumes inv: "grp_inv E s" and wf: "fib_wf s" and ready: "udt_ready daddr s"
  shows "grp_inv E (route_handle_udaddr E daddr s)"
proof -
  obtain r t where rt: "fib_route daddr s = (r, t)" by (cases "fib_route daddr s")
  have t: "grp_inv E t" "fib_wf t" using fib_route_inv [OF inv, of daddr] fib_route_wf [OF wf, of daddr] rt by simp_all
  show ?thesis
  proof (cases r)
    case None
    with rt t show ?thesis by (simp add: route_handle_udaddr_def)
  next
    case (Some r')
    with rt ready obtain e where e: "fib_deref r' t = Some e" by (auto simp: udt_ready_def split: option.splits)
    have len: "ref_len r' \<le> 32" using fib_route_spec [where addr = daddr and s = s] rt Some by simp
    note d = fib_deref_node [OF t(2) len e]
    show ?thesis
    proof (cases "fe_group_id e = 0")
      case True
      let ?gws = "map (\<lambda>(a, v). \<lparr>gw_addr = htonl (e_big_endian E) a, gw_vid = v\<rparr>) (zip (fe_gw e) (fe_vid e))"
      have room: "length (fe_gw e) \<le> 8" "res_pop (int (length ?gws)) t \<noteq> None"
        using ready rt Some e True d(2) by (auto simp: udt_ready_def)
      have "grp_inv E (snd (ret_group_add E ?gws (fe_pfx e) n t))" for n
        by (rule ret_group_add_inv [OF t(1) route_fill_gws_distinct [OF d] room(2)])
      then have "grp_inv E (route_request_mac_addr E r' e n t)" for n
        using room(1) d(2) by (simp add: route_request_mac_addr_def Let_def set_group_id_inv split: prod.split) (metis snd_conv)
      then show ?thesis using rt Some e True by (simp add: route_handle_udaddr_def Let_def)
    qed (use rt Some e t in \<open>simp add: route_handle_udaddr_def\<close>)
  qed
qed

lemma route_add_inv:
  assumes "grp_inv E s"
  shows "grp_inv E (snd (route_add E rt s))" and "grp_inv E (snd (route_add_change E rt s))" and "grp_inv E (snd (route_del E rt s))"
  unfolding route_add_def route_add_change_def route_del_def snd_conv
  by (intro route_install_inv fib_add_inv fib_del_inv assms)+

section \<open>The transition system\<close>

text \<open>The requests of the routing task: routes come and go, packets are trapped, and the ARP
  client and the policy routes work on the gateways and groups.\<close>

inductive route_step :: "env \<Rightarrow> 'a fib_st_scheme \<Rightarrow> 'a fib_st_scheme \<Rightarrow> bool" for E where
  rs_add: "route_step E s (snd (route_add E rt s))"
| rs_add_change: "route_step E s (snd (route_add_change E rt s))"
| rs_del: "route_step E s (snd (route_del E rt s))"
| rs_udt: "udt_ready daddr s \<Longrightarrow> route_step E s (route_handle_udaddr E daddr s)"
| rs_groups: "ret_step E s t \<Longrightarrow> route_step E s t"

inductive route_run :: "env \<Rightarrow> 'a fib_st_scheme \<Rightarrow> 'a fib_st_scheme \<Rightarrow> bool" for E s0 where
  rr_refl: "route_run E s0 s0"
| rr_step: "route_run E s0 s \<Longrightarrow> route_step E s t \<Longrightarrow> route_run E s0 t"

lemma route_step_inv:
  "route_step E s t \<Longrightarrow> grp_inv E s \<and> fib_wf s \<Longrightarrow> grp_inv E t \<and> fib_wf t"
proof (induction rule: route_step.induct)
  case (rs_groups s t)
  then show ?case using ret_step_inv iffD2 [OF fib_wf_cong [OF ret_step_fib]] by blast
qed (simp_all add: route_add_wf route_add_change_wf route_del_wf route_handle_wf route_handle_inv route_add_inv)

lemma route_run_inv:
  "route_run E s0 s \<Longrightarrow> ret_boot E s0 \<Longrightarrow> fib_e s0 = (\<lambda>_. []) \<Longrightarrow> grp_inv E s \<and> fib_wf s"
proof (induction rule: route_run.induct)
  case rr_refl
  then show ?case by (auto simp: ret_boot_inv fib_wf_def)
next
  case (rr_step s t)
  then show ?case using route_step_inv by blast
qed

section \<open>What a trapped packet installs\<close>

lemma fib_scan_map:
  assumes find: "\<And>i k. 0 < i \<Longrightarrow> fib_find i k t' = map_option (f i) (fib_find i k t)"
  shows "fib_scan t' n p = map_option (\<lambda>(i, e). (i, f i e)) (fib_scan t n p)"
  by (induction n arbitrary: p) (auto simp: find split: option.splits)

lemma fib_scan_find: "fib_scan s n p = Some (i, e) \<Longrightarrow> fib_find i (fe_addr e) s = Some e"
proof (induction n arbitrary: p)
  case (Suc n)
  then show ?case
    by (cases "fib_find (Suc n) p s") (auto simp: fib_find_def dest: uth.lookup_key)
qed simp

text \<open>The lookup does not depend on the group ids, and finds the child it has made.\<close>

lemma fib_route_map:
  assumes find: "\<And>i k. 0 < i \<Longrightarrow> fib_find i k t' = map_option (f i) (fib_find i k t)"
    and f: "\<And>i e. fe_addr (f i e) = fe_addr e \<and> fe_gw (f i e) = fe_gw e"
    and zero: "map fe_addr (fib_e t' 0) = map fe_addr (fib_e t 0)"
    and child: "\<And>i e. fib_scan t 32 a = Some (i, e) \<Longrightarrow> connected e \<Longrightarrow> hash_find fe_addr (children (f i e)) a \<noteq> None"
  shows "fib_route a t' = (fst (fib_route a t), t')"
proof (cases "fib_scan t 32 a")
  case None
  then have "fib_scan t' 32 a = None" by (simp add: fib_scan_map [OF find])
  with None zero show ?thesis
    by (cases "fib_e t 0"; cases "fib_e t' 0") (simp_all add: fib_route_def)
next
  case (Some p)
  then obtain i e where p: "fib_scan t 32 a = Some (i, e)" by (cases p) auto
  then have p': "fib_scan t' 32 a = Some (i, f i e)" by (simp add: fib_scan_map [OF find])
  have "connected (f i e) = connected e" by (simp add: connected_def f)
  with p p' child [OF p] f [of i e] show ?thesis by (auto simp: fib_route_def)
qed

lemma fib_find_mod:
  "(\<And>e. fe_addr (g e) = fe_addr e) \<Longrightarrow>
     fib_find i k (fib_set j (hash_mod fe_addr a g (fib_e s j)) s) =
       map_option (\<lambda>e. if i = j \<and> fe_addr e = a then g e else e) (fib_find i k s)"
  by (auto simp: fib_find_def uth.lookup_modify map_option_case dest!: uth.lookup_key split: option.splits)

lemma fib_route_twice:
  assumes r: "fib_route a s = (r, t)" shows "fib_route a t = (r, t)"
proof (cases "t = s")
  case True
  with r show ?thesis by simp
next
  case False
  let ?g = "\<lambda>e. e\<lparr>children := hash_add (fib_child_new a e) (children e)\<rparr>"
  from False r obtain i e where p: "fib_scan s 32 a = Some (i, e)" "connected e" and none: "hash_find fe_addr (children e) a = None"
    and t: "t = fib_set i (hash_mod fe_addr (fe_addr e) ?g (fib_e s i)) s"
    by (auto simp: fib_route_def split: option.splits prod.splits if_splits list.splits)
  let ?f = "\<lambda>k x. if k = i \<and> fe_addr x = fe_addr e then ?g x else x"
  have "fib_route a t = (fst (fib_route a s), t)"
  proof (rule fib_route_map [where f = ?f])
    show "fib_find j k t = map_option (?f j) (fib_find j k s)" for j k
      unfolding t by (subst fib_find_mod) (simp_all add: option.map_comp)
    show "map fe_addr (fib_e t 0) = map fe_addr (fib_e s 0)"
      unfolding t by (cases "i = 0") simp_all
    show "hash_find fe_addr (children (?f j x)) a \<noteq> None" if "fib_scan s 32 a = Some (j, x)" for j x
      using that p by (auto simp: hash_find_def hash_add_def fib_child_new_def find_append split: option.splits)
  qed simp
  with r show ?thesis by simp
qed

lemma fib_route_child:
  assumes r: "fib_route a t = (r, t)" and e: "fib_scan t 32 a = Some (i, x)" "connected x"
  shows "hash_find fe_addr (children x) a \<noteq> None"
proof
  assume "hash_find fe_addr (children x) a = None"
  with r e have "fib_set i (hash_mod fe_addr (fe_addr x)
      (\<lambda>e. e\<lparr>children := hash_add (fib_child_new a e) (children e)\<rparr>) (fib_e t i)) t = t"
    by (simp add: fib_route_def)
  from arg_cong [OF this, of "fib_find i (fe_addr x)"] show False
    using fib_scan_find [OF e(1)] by (simp add: fib_find_mod hash_add_def)
      (metis append_self_conv fib_entry.select_convs(1) fib_entry.update_convs(1) fib_entry.surjective not_Cons_self2)
qed

lemma fib_route_set_group:
  assumes r: "fib_route a t = (r, t)" shows "fib_route a (fib_entry_set_group_id q gid t) = (r, fib_entry_set_group_id q gid t)"
proof -
  obtain j b g where q: "fib_entry_set_group_id q gid t = fib_set j (hash_mod fe_addr b g (fib_e t j)) t"
    and g: "\<And>e. fe_addr (g e) = fe_addr e \<and> fe_gw (g e) = fe_gw e"
      "\<And>e c. hash_find fe_addr (children e) c \<noteq> None \<Longrightarrow> hash_find fe_addr (children (g e)) c \<noteq> None"
  proof (cases q)
    case (FR_Entry i b)
    then show ?thesis by (intro that [of i b "\<lambda>e. e\<lparr>fe_group_id := gid\<rparr>"]) (simp_all add: fib_entry_set_group_id_def)
  next
    case (FR_Child i b c)
    then show ?thesis
      by (intro that [of i b "\<lambda>e. e\<lparr>children := hash_mod fe_addr c (\<lambda>x. x\<lparr>fe_group_id := gid\<rparr>) (children e)\<rparr>"])
        (auto simp: fib_entry_set_group_id_def uth.lookup_modify)
  qed
  let ?t = "fib_set j (hash_mod fe_addr b g (fib_e t j)) t"
  let ?f = "\<lambda>k x. if k = j \<and> fe_addr x = b then g x else x"
  have "fib_route a ?t = (fst (fib_route a t), ?t)"
  proof (rule fib_route_map [where f = ?f])
    show "fib_find i k ?t = map_option (?f i) (fib_find i k t)" for i k
      by (rule fib_find_mod) (simp add: g)
    show "map fe_addr (fib_e ?t 0) = map fe_addr (fib_e t 0)" by (cases "j = 0") (simp_all add: g)
    show "hash_find fe_addr (children (?f i x)) a \<noteq> None" if "fib_scan t 32 a = Some (i, x)" "connected x" for i x
      using g(2) [of x a] fib_route_child [OF r that] by simp
  qed (simp add: g)
  with r q show ?thesis by simp
qed

lemma fib_deref_set_group:
  assumes e: "fib_deref r t = Some e"
  shows "fib_deref r (fib_entry_set_group_id r gid t) = Some (e\<lparr>fe_group_id := gid\<rparr>)"
proof (cases r)
  case (FR_Entry i a)
  with e obtain x where x: "fib_find i a t = Some x" "e = fib_node.truncate x" by (auto simp: fib_deref_def)
  have "fe_addr x = a" using x(1) uth.lookup_key by (auto simp: fib_find_def)
  with FR_Entry x show ?thesis
    by (simp add: fib_deref_def fib_entry_set_group_id_def fib_find_mod fib_node.truncate_def)
next
  case (FR_Child i a c)
  with e obtain x where x: "fib_find i a t = Some x" "hash_find fe_addr (children x) c = Some e"
    by (auto simp: fib_deref_def split: option.splits)
  have "fe_addr x = a" using x(1) uth.lookup_key by (auto simp: fib_find_def)
  with FR_Child x show ?thesis
    by (simp add: fib_deref_def fib_entry_set_group_id_def fib_find_mod uth.lookup_modify)
qed

lemma fib_deref_cong: "fib_e t = fib_e s \<Longrightarrow> fib_deref r t = fib_deref r s"
  by (simp add: fib_deref_def fib_find_def split: fib_ref.splits)

lemma fib_scan_cong: "fib_e t = fib_e s \<Longrightarrow> fib_scan t n p = fib_scan s n p"
  by (induction n arbitrary: p) (simp_all add: fib_find_def split: option.splits)

lemma fib_route_cong:
  assumes e: "fib_e t = fib_e s" and r: "fib_route a s = (r, s)" shows "fib_route a t = (r, t)"
proof -
  have "fib_route a t = (fst (fib_route a s), t)"
  proof (rule fib_route_map [where f = "\<lambda>i x. x"])
    show "hash_find fe_addr (children x) a \<noteq> None" if "fib_scan s 32 a = Some (i, x)" "connected x" for i x
      using fib_route_child [OF r that] .
  qed (simp_all add: e fib_find_def option.map_ident)
  with r show ?thesis by simp
qed

lemma set_group_pbr [simp]: "pbr_st.truncate (fib_entry_set_group_id r gid s) = pbr_st.truncate s"
  by (simp add: fib_entry_set_group_id_def fib_set_def pbr_st.truncate_def split: fib_ref.splits)

lemma set_group_frame [simp]:
  "re_group (fib_entry_set_group_id r gid s) = re_group s" "hw (fib_entry_set_group_id r gid s) = hw s"
  by (simp_all add: fib_entry_set_group_id_def fib_set_def split: fib_ref.splits)

lemma route_handle_installs:
  fixes s :: "'a fib_st_scheme"
  assumes inv: "grp_inv E s" and wf: "fib_wf s" and ready: "udt_ready daddr s"
    and hit: "fib_route daddr s = (Some r, t)" and e: "fib_deref r t = Some e" and new: "fe_group_id e = 0"
    and gws: "fe_gw e \<noteq> []"
  shows "\<exists>gid g. fib_deref r (route_handle_udaddr E daddr s) = Some (e\<lparr>fe_group_id := gid\<rparr>) \<and>
      fib_route daddr (route_handle_udaddr E daddr s) = (Some r, route_handle_udaddr E daddr s) \<and>
      ret_group_get gid (route_handle_udaddr E daddr s) = Some g \<and>
      ri_gw ` set (re_idx g) = (\<lambda>(a, v). \<lparr>gw_addr = htonl (e_big_endian E) a, gw_vid = v\<rparr>) ` set (zip (fe_gw e) (fe_vid e)) \<and>
      lpm_ipv4_at (hw (route_handle_udaddr E daddr s)) (htonl (e_big_endian E) (fe_pfx e)) (fe_len e) = Some (group_ltt_entry g)"
proof -
  have t: "grp_inv E t" "fib_wf t" using fib_route_inv [OF inv, of daddr] fib_route_wf [OF wf, of daddr] hit by simp_all
  have len: "ref_len r \<le> 32" using fib_route_spec [where addr = daddr and s = s] hit by simp
  note d = fib_deref_node [OF t(2) len e]
  define gs where "gs = map (\<lambda>(a, v). \<lparr>gw_addr = htonl (e_big_endian E) a, gw_vid = v\<rparr>) (zip (fe_gw e) (fe_vid e))"
  have room: "length (fe_gw e) \<le> 8" "res_pop (int (length gs)) t \<noteq> None"
    using ready hit e new d(2) by (simp_all add: udt_ready_def gs_def)
  obtain gid u where add: "ret_group_add E gs (fe_pfx e) (fe_len e) t = (gid, u)"
    by (cases "ret_group_add E gs (fe_pfx e) (fe_len e) t") auto
  have dist: "distinct gs" unfolding gs_def by (rule route_fill_gws_distinct [OF d])
  from ret_group_add_installs [OF t(1) dist room(2) add] obtain g where g: "ret_group_get gid u = Some g"
      "ri_gw ` set (re_idx g) = set gs" "lpm_ipv4_at (hw u) (htonl (e_big_endian E) (fe_pfx e)) (fe_len e) = Some (group_ltt_entry g)"
    by blast
  have s': "route_handle_udaddr E daddr s = fib_entry_set_group_id r gid u"
    using hit e new gws room(1) d(2) add by (simp add: route_handle_udaddr_def route_request_mac_addr_def Let_def gs_def)
  have u: "fib_e u = fib_e t" using ret_group_add_fib [of E gs "fe_pfx e" "fe_len e" t] add by simp
  have "fib_route daddr u = (Some r, u)" by (rule fib_route_cong [OF u fib_route_twice [OF hit]])
  then have "fib_route daddr (fib_entry_set_group_id r gid u) = (Some r, fib_entry_set_group_id r gid u)"
    by (rule fib_route_set_group)
  moreover have "fib_deref r (fib_entry_set_group_id r gid u) = Some (e\<lparr>fe_group_id := gid\<rparr>)"
    by (rule fib_deref_set_group) (use e fib_deref_cong [OF u] in simp)
  ultimately show ?thesis using g unfolding s'
    by (intro exI [of _ gid] exI [of _ g]) (simp add: ret_group_get_def gs_def)
qed

end
