(* ===== verification/Route_Props.thy ===== *)
theory Route_Props
  imports Route_Inv
begin

text \<open>
  What the routing front end does over whole runs: the FIB and the groups stay well formed, a
  trapped packet installs exactly its prefix, deleting a route withdraws it; and the runs on
  which the code leaves a prefix unreachable or reads an uninitialised route.
\<close>

section \<open>Examples\<close>

definition rt_static :: route where
  "rt_static = rt_zero\<lparr>rt_addr := 0x0A010000, rt_alen := 16, rt_gw := [gw_a, gw_b]\<rparr>"

definition rt_conn :: route where
  "rt_conn = rt_zero\<lparr>rt_addr := 0x0A020000, rt_alen := 16, rt_gw := [\<lparr>gw_addr = 0, gw_vid = 20\<rparr>]\<rparr>"

definition rt_host :: route where
  "rt_host = rt_zero\<lparr>rt_addr := 0x0A020001, rt_alen := 32, rt_gw := [gw_a]\<rparr>"

definition fib_static :: fib_st where "fib_static = snd (route_add env0 rt_static fib0)"
definition fib_hit :: fib_st where "fib_hit = route_handle_udaddr env0 0x0A010203 fib_static"

lemma fib0_boot: "ret_boot env0 fib0" "fib_e fib0 = (\<lambda>_. [])"
proof -
  show "fib_e fib0 = (\<lambda>_. [])" by (simp add: fib0_def pbr_st.defs fib_st.defs)
  have "vif_same fib0 vif0" by (simp add: vif_same_def fib0_def pbr0_def pbr_st.defs fib_st.defs grp0_defs)
  with vif0_wf have "vif_wf env0 fib0" by (simp add: vif_same_wf [of fib0 vif0])
  then show "ret_boot env0 fib0"
    by (simp add: ret_boot_def) (simp add: fib0_def pbr0_def pbr_st.defs fib_st.defs grp0_defs)
qed

lemma fib_static_run: "route_run env0 fib0 fib_static"
  unfolding fib_static_def by (rule rr_step [OF rr_refl rs_add])

lemma fib_hit_run: "route_run env0 fib0 fib_hit"
proof -
  have "udt_ready 0x0A010203 fib_static" by code_simp
  then show ?thesis unfolding fib_hit_def by (rule rr_step [OF fib_static_run rs_udt])
qed

section \<open>Invariants\<close>

text \<open>C22. Whatever sequence of routes added and deleted, trapped packets, policy routes and ARP
  answers has led there, the FIB is well formed: at most one default route, one entry per masked
  prefix in the table of its length, gateways without duplicates and with a VLAN each, and host
  entries of connected routes inside their prefix.\<close>

theorem reachable_fib_wf:
  assumes "route_run E s0 s" and "ret_boot E s0" and "fib_e s0 = (\<lambda>_. [])"
  shows "fib_wf s"
  using route_run_inv [OF assms] by simp

theorem reachable_fib_wf_witness: "fib_wf fib_hit"
  by (rule reachable_fib_wf [OF fib_hit_run fib0_boot])

section \<open>Trapped packets\<close>

text \<open>C9. The first packet trapped for a prefix without a group installs it: the prefix table of
  the hardware then holds, for exactly the prefix of the entry \<open>fib_route\<close> finds, the entry of a
  group with exactly the gateways of that entry, the entry records the group's id, and the same
  lookup finds the same entry again.\<close>

theorem trapped_packet_installs_prefix:
  fixes s :: "'a fib_st_scheme"
  assumes inv: "grp_inv E s" and wf: "fib_wf s" and ready: "udt_ready daddr s"
    and hit: "fib_route daddr s = (Some r, t)" and e: "fib_deref r t = Some e" and new: "fe_group_id e = 0"
    and gws: "fe_gw e \<noteq> []" and s': "s' = route_handle_udaddr E daddr s"
  shows "\<exists>gid g. fib_deref r s' = Some (e\<lparr>fe_group_id := gid\<rparr>) \<and> fib_route daddr s' = (Some r, s') \<and>
      ret_group_get gid s' = Some g \<and>
      ri_gw ` set (re_idx g) = (\<lambda>(a, v). \<lparr>gw_addr = htonl (e_big_endian E) a, gw_vid = v\<rparr>) ` set (zip (fe_gw e) (fe_vid e)) \<and>
      lpm_ipv4_at (hw s') (htonl (e_big_endian E) (fe_pfx e)) (fe_len e) = Some (group_ltt_entry g)"
  unfolding s' by (rule route_handle_installs [OF inv wf ready hit e new gws])

theorem trapped_packet_installs_prefix_witness:
  "\<exists>gid g. ret_group_get gid fib_hit = Some g \<and> ri_gw ` set (re_idx g) = {gw_a, gw_b} \<and>
      lpm_ipv4_at (hw fib_hit) 0x0A010000 16 = Some (group_ltt_entry g)"
proof -
  let ?e = "\<lparr>fe_addr = 0x0A010000, fe_pfx = 0x0A010000, fe_gw = [0x0A000001, 0x0A000002], fe_vid = [10, 10],
    fe_len = 16, fe_group_id = 0, fe_ret_key = [\<lparr>gw_addr = 0, gw_vid = 0\<rparr>, \<lparr>gw_addr = 0, gw_vid = 0\<rparr>]\<rparr>"
  have "udt_ready 0x0A010203 fib_static" by code_simp
  moreover have "fst (fib_route 0x0A010203 fib_static) = Some (FR_Entry 16 0x0A010000)" by code_simp
  moreover have "fib_deref (FR_Entry 16 0x0A010000) (snd (fib_route 0x0A010203 fib_static)) = Some ?e" by code_simp
  ultimately show ?thesis
    using trapped_packet_installs_prefix [where E = env0 and s = fib_static and daddr = "0x0A010203" and r = "FR_Entry 16 0x0A010000"
        and t = "snd (fib_route 0x0A010203 fib_static)" and e = ?e, OF _ _ _ _ _ _ _ refl]
      route_run_inv [OF fib_static_run fib0_boot]
    by (force simp: prod_eq_iff fib_hit_def ntohl_def env0_def gw_a_def gw_b_def route_fill_gw_def)
qed

section \<open>Deletion\<close>

lemma lpm_quiet_fold: "(\<And>x s. lpm_ipv4_at (hw (f x s)) = lpm_ipv4_at (hw s)) \<Longrightarrow> lpm_ipv4_at (hw (fold f xs s)) = lpm_ipv4_at (hw s)"
  by (induction xs arbitrary: s) simp_all

lemma ret_unref_lpm [simp]: "lpm_ipv4_at (hw (snd (ret_unref g k s))) = lpm_ipv4_at (hw s)"
  by (auto simp: ret_unref_def nht_unref_def nhs_push_def Let_def arpc_release_addr_def arpc_ip_addr_op_def emit_def
      lpm_write_def fun_eq_iff split: option.splits)

lemma ret_group_del_lpm [simp]: "lpm_ipv4_at (hw (ret_group_del E gid pfx alen s)) = lpm_ipv4_at (hw s)"
  by (auto simp: ret_group_del_def group_drop_def ret_group_del_2_def del_id_def group_put_def Let_def
      res_push_count_first_def res_push_def lpm_quiet_fold split: option.splits)

lemma route_del_entry_lpm:
  "fe_len e \<noteq> 0 \<Longrightarrow> lpm_ipv4_at (hw (route_del_fib_entry E e s)) a l =
     (if a = htonl (e_big_endian E) (fe_pfx e) \<and> l = fe_len e then None else lpm_ipv4_at (hw s) a l)"
  by (simp add: route_del_fib_entry_def Let_def crp_def emit_def lpm_write_def)

lemma fold_del_lpm:
  "\<forall>c \<in> set cs. fe_len c = 32 \<Longrightarrow> lpm_ipv4_at (hw (fold (route_del_fib_entry E) cs s)) a l =
     (if l = 32 \<and> a \<in> (\<lambda>c. htonl (e_big_endian E) (fe_pfx c)) ` set cs then None else lpm_ipv4_at (hw s) a l)"
  by (induction cs arbitrary: s) (auto simp: route_del_entry_lpm)

lemma route_del_spec:
  assumes wf: "fib_wf s" and len: "0 < rt_alen rt" "rt_alen rt < 33"
    and e: "fib_find (rt_alen rt) (ntohl (e_big_endian E) (rt_addr rt) AND mkmask (rt_alen rt)) s = Some e"
    and s': "s' = snd (route_del E rt s)"
  shows "lpm_ipv4_at (hw s') a l =
      (if (a, l) = (htonl (e_big_endian E) (fe_pfx e), rt_alen rt) \<or>
          l = 32 \<and> a \<in> (\<lambda>c. htonl (e_big_endian E) (fe_pfx c)) ` set (children e)
       then None else lpm_ipv4_at (hw s) a l)"
    and "fib_find n k s' = (if n = rt_alen rt \<and> k = ntohl (e_big_endian E) (rt_addr rt) AND mkmask (rt_alen rt) then None
      else fib_find n k s)"
proof -
  let ?k = "ntohl (e_big_endian E) (rt_addr rt) AND mkmask (rt_alen rt)"
  let ?t = "fib_set (rt_alen rt) (hash_del fe_addr ?k (fib_e s (rt_alen rt))) s"
  have eq: "s' = fib_del_entry_with_children E e ?t"
    using len e by (simp add: s' route_del_def fib_del_def Let_def)
  have "entry_wf (rt_alen rt) e" using hash_find_in [OF e [unfolded fib_find_def]] fib_wfD(2) [OF wf] len by simp
  then have "fe_len e = rt_alen rt" and c: "\<forall>c \<in> set (children e). fe_len c = 32" by (auto simp: entry_wf_def)
  then show "lpm_ipv4_at (hw s') a l =
      (if (a, l) = (htonl (e_big_endian E) (fe_pfx e), rt_alen rt) \<or>
          l = 32 \<and> a \<in> (\<lambda>c. htonl (e_big_endian E) (fe_pfx c)) ` set (children e)
       then None else lpm_ipv4_at (hw s) a l)"
    unfolding eq fib_del_entry_with_children_def using len
    by (auto simp: route_del_entry_lpm fold_del_lpm fib_node.truncate_def fib_set_def)
  have "keys_distinct fe_addr (fib_e s (rt_alen rt))" using fib_wfD(1) [OF wf] len by simp
  then show "fib_find n k s' = (if n = rt_alen rt \<and> k = ?k then None else fib_find n k s)"
    by (simp add: eq fib_find_def uth.lookup_del)
qed

text \<open>C19. Deleting a route of length 1 to 32 takes exactly its entry out of the FIB and withdraws
  exactly its own prefix and the host prefixes learned under it from the hardware; every other
  entry and every other hardware prefix is as before.\<close>

theorem route_del_withdraws:
  assumes wf: "fib_wf s" and len: "0 < rt_alen rt" "rt_alen rt < 33"
    and e: "fib_find (rt_alen rt) (ntohl (e_big_endian E) (rt_addr rt) AND mkmask (rt_alen rt)) s = Some e"
    and s': "s' = snd (route_del E rt s)"
  shows "lpm_ipv4_at (hw s') a l =
      (if (a, l) = (htonl (e_big_endian E) (fe_pfx e), rt_alen rt) \<or>
          l = 32 \<and> a \<in> (\<lambda>c. htonl (e_big_endian E) (fe_pfx c)) ` set (children e)
       then None else lpm_ipv4_at (hw s) a l) \<and>
    fib_find n k s' = (if n = rt_alen rt \<and> k = ntohl (e_big_endian E) (rt_addr rt) AND mkmask (rt_alen rt) then None
      else fib_find n k s)"
  using route_del_spec [OF assms] by blast

theorem route_del_withdraws_witness:
  "lpm_ipv4_at (hw (snd (route_del env0 rt_static fib_hit))) 0x0A010000 16 = None \<and>
   fib_find 16 0x0A010000 (snd (route_del env0 rt_static fib_hit)) = None"
proof -
  have m: "ntohl (e_big_endian env0) (rt_addr rt_static) AND mkmask (rt_alen rt_static) = 0x0A010000" by code_simp
  have "fib_find 16 0x0A010000 fib_hit \<noteq> None" by code_simp
  then obtain e where e: "fib_find 16 0x0A010000 fib_hit = Some e" by blast
  have "map_option fe_pfx (fib_find 16 0x0A010000 fib_hit) = Some 0x0A010000" by code_simp
  moreover have "map_option fe_len (fib_find 16 0x0A010000 fib_hit) = Some 16" by code_simp
  ultimately have p: "fe_pfx e = 0x0A010000" "fe_len e = 16" using e by simp_all
  have "fib_wf fib_hit" using route_run_inv [OF fib_hit_run fib0_boot] by simp
  from route_del_withdraws [OF this, of rt_static env0 e _ "0x0A010000" 16 16 "0x0A010000", OF _ _ _ refl] m e p
  show ?thesis by (auto simp: rt_static_def ntohl_def env0_def fib_node.truncate_def)
qed

section \<open>Where the code goes wrong\<close>

text \<open>C36. Adding a prefix of non-zero length that is in the FIB already and has its group changes
  nothing in the FIB but points the hardware prefix back to the trap entry; no later packet to the
  prefix undoes that, because \<open>route_handle_udaddr\<close> does nothing for an entry that has a group.\<close>

theorem route_add_existing_stays_trapped:
  assumes len: "0 < rt_alen rt" "rt_alen rt < 33"
    and e: "fib_find (rt_alen rt) (ntohl (e_big_endian E) (rt_addr rt) AND mkmask (rt_alen rt)) s = Some e"
    and hit: "fib_route daddr s = (Some r, s)" and d: "fib_deref r s = Some n" "fe_group_id n \<noteq> 0"
    and s': "s' = snd (route_add E rt s)"
  shows "fib_e s' = fib_e s \<and>
    lpm_ipv4_at (hw s') (rt_addr rt) (rt_alen rt) = Some \<lparr>routeEntryBaseIndex = TRAP_RE_IDX, ltt_numOfPaths = 0\<rparr> \<and>
    route_handle_udaddr E daddr s' = s'"
proof -
  have add: "fib_add E (ntohl (e_big_endian E) (rt_addr rt)) (rt_alen rt) (rt_gw rt) s = s"
    using len e by (simp add: fib_add_def Let_def)
  have f: "fib_e s' = fib_e s" by (simp add: s' route_add_def add)
  moreover have "lpm_ipv4_at (hw s') (rt_addr rt) (rt_alen rt) = Some \<lparr>routeEntryBaseIndex = TRAP_RE_IDX, ltt_numOfPaths = 0\<rparr>"
    using len by (simp add: s' route_add_def add route_install_def lpm_add_def crp_def emit_def lpm_write_def)
  moreover have "route_handle_udaddr E daddr s' = s'"
    using fib_route_cong [OF f hit] fib_deref_cong [OF f, of r] d by (simp add: route_handle_udaddr_def)
  ultimately show ?thesis by blast
qed

theorem route_add_existing_stays_trapped_witness:
  "lpm_ipv4_at (hw (snd (route_add env0 rt_static fib_hit))) 0x0A010000 16 = Some \<lparr>routeEntryBaseIndex = TRAP_RE_IDX, ltt_numOfPaths = 0\<rparr> \<and>
   route_handle_udaddr env0 0x0A010203 (snd (route_add env0 rt_static fib_hit)) = snd (route_add env0 rt_static fib_hit)"
proof -
  have "fib_find 16 (ntohl (e_big_endian env0) (rt_addr rt_static) AND mkmask (rt_alen rt_static)) fib_hit \<noteq> None" by code_simp
  then obtain e where e: "fib_find 16 (ntohl (e_big_endian env0) (rt_addr rt_static) AND mkmask (rt_alen rt_static)) fib_hit = Some e" by blast
  have "\<exists>e. fib_scan fib_hit 32 0x0A010203 = Some (16, e) \<and> fe_addr e = 0x0A010000 \<and> \<not> connected e"
  proof -
    have "(case fib_scan fib_hit 32 0x0A010203 of Some (i, e) \<Rightarrow> i = 16 \<and> fe_addr e = 0x0A010000 \<and> \<not> connected e | None \<Rightarrow> False)"
      by code_simp
    then show ?thesis by (auto split: option.splits)
  qed
  then have t: "fib_route 0x0A010203 fib_hit = (Some (FR_Entry 16 0x0A010000), fib_hit)" by (auto simp: fib_route_def)
  have "map_option fe_group_id (fib_deref (FR_Entry 16 0x0A010000) fib_hit) = Some 1" by code_simp
  then obtain n where n: "fib_deref (FR_Entry 16 0x0A010000) fib_hit = Some n" "fe_group_id n \<noteq> 0" by auto
  have "rt_alen rt_static = 16" by (simp add: rt_static_def)
  with route_add_existing_stays_trapped [OF _ _ _ t n refl, of rt_static env0 e] e
  show ?thesis by (simp add: rt_static_def)
qed

definition fib_conn :: fib_st where
  "fib_conn = route_handle_udaddr env0 0x0A020001 (snd (route_add env0 rt_conn fib0))"

definition fib_clash :: fib_st where
  "fib_clash = snd (route_del env0 rt_host (snd (route_add env0 rt_host fib_conn)))"

text \<open>A host entry learned under a connected prefix and a static host route of the same address
  share one hardware prefix. After the static route has come and gone the learned entry still has
  its group, the hardware no longer has the prefix, and further packets do not reinstall it.\<close>

theorem host_route_clash:
  "lpm_ipv4_at (hw fib_conn) 0x0A020001 32 = Some \<lparr>routeEntryBaseIndex = DROP_RE_IDX, ltt_numOfPaths = 0\<rparr> \<and>
   map_option fe_group_id (fib_deref (FR_Child 16 0x0A020000 0x0A020001) fib_clash) = Some 1 \<and>
   lpm_ipv4_at (hw fib_clash) 0x0A020001 32 = None \<and>
   lpm_ipv4_at (hw (route_handle_udaddr env0 0x0A020001 fib_clash)) 0x0A020001 32 = None"
  by code_simp

definition fib_conn_set :: "status \<times> fib_st" where
  "fib_conn_set = ret_set_mac_addr env0 (route_fill_gw 0x0A020001 20) [0, 1, 2, 3, 4, 5] port_1 fib_conn"

text \<open>Clearing a device on which a gateway learned under a connected prefix sits makes
  \<open>route_reset_prefixes4gw\<close> look for the host prefix among the entries, find none, and go on with an
  uninitialised route.\<close>

theorem clear_devs_reads_uninitialised_route:
  "fst fib_conn_set = ST_OK \<and> crashed (snd fib_conn_set) = False \<and>
   crashed (ret_clear_devs_res env0 2 1 (snd fib_conn_set)) = True"
  by code_simp

end
