(* ===== verification/Fib6.thy ===== *)
theory Fib6
  imports Route
begin

text \<open>
  The IPv6 side of routing: the forwarding table (\<open>src/fib_ipv6.c\<close>), the table of IPv6 next hops
  (\<open>ret_ipv6_*\<close> of \<open>src/ret.c\<close>, whose entries have one route entry slot each instead of a
  group) and the prefixes registered per gateway (\<open>src/route.c\<close>). The tables hash a prefix of
  their keys only: four bytes of an address (\<open>HASH_FIND_INT\<close>), six bytes of a gateway
  (\<open>sizeof (struct gw)\<close>).
\<close>

section \<open>State\<close>

record fib6_node =
  f6_addr :: ipv6
  f6_pfx :: ipv6
  f6_gw :: ipv6
  f6_vid :: vid
  f6_len :: nat
  f6_ret_key :: gw_v6

record fib6_entry = fib6_node +
  children6 :: "fib6_node list"

record pfx_ipv6_by_pfx =
  pp6_pfx :: "ipv6 \<times> nat"
  pp6_udaddr :: ipv6

record pfxs_ipv6_by_gw =
  pg6_gw :: gw_v6
  pg6_pfxs :: "pfx_ipv6_by_pfx list"

record fib6_st = fib_st +
  fib6_e :: "nat \<Rightarrow> fib6_entry list"
  pfxs_by_gw6 :: "pfxs_ipv6_by_gw list"

datatype fib6_ref = F6_Entry nat ipv6 | F6_Child nat ipv6 ipv6

text \<open>The hashed part of the keys.\<close>

definition int_key :: "ipv6 \<Rightarrow> u8 list" where
  "int_key a = take 4 a"

definition gw_key :: "gw_v6 \<Rightarrow> u8 list" where
  "gw_key g = take 6 (gw6_addr g)"

definition f6_key :: "'a fib6_node_scheme \<Rightarrow> u8 list" where
  "f6_key e = int_key (f6_addr e)"

definition re6_key :: "re_ipv6 \<Rightarrow> u8 list" where
  "re6_key re = gw_key (re6_gw re)"

definition pg6_key :: "pfxs_ipv6_by_gw \<Rightarrow> u8 list" where
  "pg6_key p = gw_key (pg6_gw p)"

definition ip0 :: ipv6 where "ip0 = replicate 16 0"

section \<open>Masks\<close>

definition word_bytes :: "u32 \<Rightarrow> u8 list" where
  "word_bytes w = [ucast (drop_bit 24 w), ucast (drop_bit 16 w), ucast (drop_bit 8 w), ucast w]"

text \<open>The mask of the word that holds the bits from \<open>k = lo\<close> on, in network order.\<close>

definition mask_word :: "nat \<Rightarrow> nat \<Rightarrow> u32" where
  "mask_word lo k =
     (if lo \<le> k \<and> k < lo + 32 then push_bit (k - lo) (- 1) else if k \<le> lo then - 1 else 0)"

definition mkmask6 :: "ipv6 \<Rightarrow> nat \<Rightarrow> ipv6" where
  "mkmask6 addr n =
     (let k = 128 - n in
      map2 (AND) addr (word_bytes (mask_word 96 k) @ word_bytes (mask_word 64 k) @
                       word_bytes (mask_word 32 k) @ word_bytes (mask_word 0 k)))"

section \<open>Next hops\<close>

definition MAX_RE :: int where "MAX_RE = 4096 - FIRST_REGULAR_RE_IDX"

definition re6_default_entry :: "env \<Rightarrow> uc_route_entry \<Rightarrow> 'a sw_scheme \<Rightarrow> 'a sw_scheme" where
  "re6_default_entry E rt s = snd (for_each_dev E (\<lambda>d. Uc (UcRouteEntriesWrite d DEFAULT_UC_RE_IDX rt)) s)"

definition re6_mod :: "gw_v6 \<Rightarrow> (re_ipv6 \<Rightarrow> re_ipv6) \<Rightarrow> 'a ret_st_scheme \<Rightarrow> 'a ret_st_scheme" where
  "re6_mod g f s = s\<lparr>ret_ipv6 := hash_mod re6_key (gw_key g) f (ret_ipv6 s)\<rparr>"

definition re6_result :: "gw_v6 \<Rightarrow> 'a ret_st_scheme \<Rightarrow> int" where
  "re6_result g s =
     (case hash_find re6_key (ret_ipv6 s) (gw_key g) of
        Some re \<Rightarrow> if re6_valid re then int (re6_idx re) else -1
      | None \<Rightarrow> -1)"

text \<open>
  The result is the entry's slot, -1 while it has none, and \<open>ST_BAD_VALUE\<close>, whose number
  \<open>bad_value\<close> is a parameter, when the table is full. The new value of \<open>*ret_key\<close> is returned
  with it; a repeated call copies only \<open>sizeof (struct gw)\<close> bytes to it.
\<close>

definition ret_ipv6_add ::
  "env \<Rightarrow> int \<Rightarrow> gw_v6 \<Rightarrow> bool \<Rightarrow> gw_v6 \<Rightarrow> 'a ret_st_scheme \<Rightarrow> (int \<times> gw_v6) \<times> 'a ret_st_scheme" where
  "ret_ipv6_add E bad_value g dflt ret_key s =
     (case hash_find re6_key (ret_ipv6 s) (gw_key g) of
        Some re \<Rightarrow>
          let again = (gw6_vid ret_key = 0);
              s = (if again then re6_mod g (\<lambda>re. re\<lparr>re6_refc := re6_refc re + 1\<rparr>) s else s);
              ret_key = (if again
                         then ret_key\<lparr>gw6_addr := take 6 (gw6_addr g) @ drop 6 (gw6_addr ret_key)\<rparr>
                         else ret_key) in
          if dflt then
            let s = re6_mod g (\<lambda>re. re\<lparr>re6_def := True\<rparr>) s in
            if re6_valid re then
              (case vif_getn E (re6_vif_id re) s of
                 (None, s) \<Rightarrow> ((int (re6_idx re), ret_key), s)
               | (Some vif, s) \<Rightarrow>
                   (case fill_cpss_if vif s of (ifc, s) \<Rightarrow>
                      let s = re6_default_entry E (re_route_entry ifc (re6_nh_idx re) (gw6_vid g)) s in
                      ((re6_result g s, ret_key), s)))
            else ((re6_result g s, ret_key), s)
          else ((re6_result g s, ret_key), s)
      | None \<Rightarrow>
          if re_cnt s \<ge> MAX_RE then ((bad_value, ret_key), s)
          else
            let re = \<lparr>re6_gw = g, re6_valid = False, re6_def = dflt, re6_idx = 0, re6_addr = replicate 6 0,
                      re6_nh_idx = 0, re6_vif_id = \<lparr>vif_type = 0, vif_dev = 0, vif_num = 0\<rparr>, re6_refc = 1\<rparr>;
                s = s\<lparr>ret_ipv6 := hash_add re (ret_ipv6 s), re_cnt := re_cnt s + 1\<rparr>;
                s = ndpc_request_addr g s in
            ((-1, g), s))"

definition ret_ipv6_unref :: "env \<Rightarrow> gw_v6 \<Rightarrow> bool \<Rightarrow> 'a ret_st_scheme \<Rightarrow> status \<times> 'a ret_st_scheme" where
  "ret_ipv6_unref E g dflt s =
     (case hash_find re6_key (ret_ipv6 s) (gw_key g) of
        None \<Rightarrow> (ST_DOES_NOT_EXIST, s)
      | Some re \<Rightarrow>
          let s = (if dflt then re6_mod g (\<lambda>re. re\<lparr>re6_def := False\<rparr>) s else s);
              s = (if dflt \<and> re6_valid re then re6_default_entry E (uc_zero\<lparr>uc_cmd := CMD_DROP_HARD\<rparr>) s else s);
              s = re6_mod g (\<lambda>re. re\<lparr>re6_refc := re6_refc re - 1\<rparr>) s in
          if re6_refc re - 1 = 0 then
            let s = s\<lparr>ret_ipv6 := hash_del re6_key (gw_key g) (ret_ipv6 s)\<rparr>;
                s = (if re6_valid re then
                       snd (nht_unref (re6_addr re) (snd (res_push 1 [int (re6_idx re)] s)))
                     else s);
                s = ndpc_release_addr g s in
            (ST_OK, s\<lparr>re_cnt := re_cnt s - 1\<rparr>)
          else (ST_OK, s))"

section \<open>Prefixes by gateway\<close>

definition route_ipv6_register ::
  "ipv6 \<Rightarrow> nat \<Rightarrow> ipv6 \<Rightarrow> vid \<Rightarrow> ipv6 \<Rightarrow> 'a fib6_st_scheme \<Rightarrow> 'a fib6_st_scheme" where
  "route_ipv6_register addr alen gwaddr v udaddr s =
     (let g = \<lparr>gw6_addr = gwaddr, gw6_vid = v\<rparr>;
          tbl = (if hash_find pg6_key (pfxs_by_gw6 s) (gw_key g) = None
                 then hash_add \<lparr>pg6_gw = g, pg6_pfxs = []\<rparr> (pfxs_by_gw6 s) else pfxs_by_gw6 s);
          add = (\<lambda>b. if hash_find pp6_pfx (pg6_pfxs b) (addr, alen) = None
                     then b\<lparr>pg6_pfxs := hash_add \<lparr>pp6_pfx = (addr, alen), pp6_udaddr = udaddr\<rparr> (pg6_pfxs b)\<rparr>
                     else b) in
      s\<lparr>pfxs_by_gw6 := hash_mod pg6_key (gw_key g) add tbl\<rparr>)"

definition route_ipv6_unregister ::
  "env \<Rightarrow> ipv6 \<Rightarrow> nat \<Rightarrow> ipv6 \<Rightarrow> vid \<Rightarrow> 'a fib6_st_scheme \<Rightarrow> 'a fib6_st_scheme" where
  "route_ipv6_unregister E addr alen gwaddr v s =
     (let g = \<lparr>gw6_addr = gwaddr, gw6_vid = v\<rparr> in
      case hash_find pg6_key (pfxs_by_gw6 s) (gw_key g) of
        None \<Rightarrow> s
      | Some pbg \<Rightarrow>
          if hash_find pp6_pfx (pg6_pfxs pbg) (addr, alen) = None then s
          else
            let pfxs = hash_del pp6_pfx (addr, alen) (pg6_pfxs pbg);
                s = s\<lparr>pfxs_by_gw6 := hash_mod pg6_key (gw_key g) (\<lambda>b. b\<lparr>pg6_pfxs := pfxs\<rparr>) (pfxs_by_gw6 s)\<rparr>;
                s = snd (ret_ipv6_unref E g (alen = 0) s) in
            if pfxs = [] then s\<lparr>pfxs_by_gw6 := hash_del pg6_key (gw_key g) (pfxs_by_gw6 s)\<rparr> else s)"

definition lpm6_add :: "env \<Rightarrow> ipv6 \<Rightarrow> nat \<Rightarrow> int \<Rightarrow> 'a sw_scheme \<Rightarrow> 'a sw_scheme" where
  "lpm6_add E addr alen base s =
     snd (crp E (Uc (LpmIpv6UcPrefixAdd addr alen \<lparr>routeEntryBaseIndex = base, ltt_numOfPaths = 0\<rparr>)) s)"

definition route_ipv6_update_table :: "env \<Rightarrow> gw_v6 \<Rightarrow> int \<Rightarrow> 'a fib6_st_scheme \<Rightarrow> 'a fib6_st_scheme" where
  "route_ipv6_update_table E g idx s =
     (case hash_find pg6_key (pfxs_by_gw6 s) (gw_key g) of
        None \<Rightarrow> s
      | Some pbg \<Rightarrow>
          fold (\<lambda>p s. if snd (pp6_pfx p) \<noteq> 0 then lpm6_add E (fst (pp6_pfx p)) (snd (pp6_pfx p)) idx s else s)
            (pg6_pfxs pbg) s)"

text \<open>A changed address of a resolved entry takes a second slot and a second next hop; the old
  ones are not given back.\<close>

definition ret_ipv6_set_mac_addr ::
  "env \<Rightarrow> gw_v6 \<Rightarrow> mac \<Rightarrow> vif_id \<Rightarrow> 'a fib6_st_scheme \<Rightarrow> status \<times> 'a fib6_st_scheme" where
  "ret_ipv6_set_mac_addr E g addr vid s =
     (case vif_getn E vid s of
        (None, s) \<Rightarrow> (ST_HEX, s)
      | (Some vif, s) \<Rightarrow>
          (case hash_find re6_key (ret_ipv6 s) (gw_key g) of
             None \<Rightarrow> (ST_DOES_NOT_EXIST, s)
           | Some re \<Rightarrow>
               if re6_valid re \<and> re6_addr re = addr then
                 (case fill_cpss_if vif s of (ifc, s) \<Rightarrow>
                    let rt = re_route_entry ifc (re6_nh_idx re) (gw6_vid g) in
                    (case for_each_dev E (\<lambda>d. Uc (UcRouteEntriesWrite d (int (re6_idx re)) rt)) s of (rc, s) \<Rightarrow>
                       if rc \<noteq> GT_OK then (ST_HEX, s)
                       else
                         let s = re6_mod g (\<lambda>re. re\<lparr>re6_vif_id := vid\<rparr>) s in
                         (ST_OK, if re6_def re then re6_default_entry E rt s else s)))
               else
                 let s = re6_mod g (\<lambda>re. re\<lparr>re6_addr := addr, re6_vif_id := vid\<rparr>) s in
                 (case nht_add E addr s of (nh, s) \<Rightarrow>
                    if nh < 0 then (ST_HEX, s)
                    else (case res_pop 1 s of
                        None \<Rightarrow> (ST_BAD_VALUE, s)
                      | Some (ids, s) \<Rightarrow>
                          (case fill_cpss_if vif s of (ifc, s) \<Rightarrow>
                             let idx = hd ids;
                                 rt = re_route_entry ifc (nat nh) (gw6_vid g);
                                 s = snd (for_each_dev E (\<lambda>d. Uc (UcRouteEntriesWrite d idx rt)) s);
                                 s = (if re6_def re then re6_default_entry E rt s else s);
                                 s = re6_mod g (\<lambda>re. re\<lparr>re6_idx := nat idx, re6_addr := addr,
                                                        re6_nh_idx := nat nh, re6_valid := True\<rparr>) s in
                             (ST_OK, route_ipv6_update_table E g idx s))))))"

section \<open>The table of prefixes\<close>

definition fib6_find :: "nat \<Rightarrow> ipv6 \<Rightarrow> 'a fib6_st_scheme \<Rightarrow> fib6_entry option" where
  "fib6_find len addr s = hash_find f6_key (fib6_e s len) (int_key addr)"

definition fib6_set :: "nat \<Rightarrow> fib6_entry list \<Rightarrow> 'a fib6_st_scheme \<Rightarrow> 'a fib6_st_scheme" where
  "fib6_set len tbl s = s\<lparr>fib6_e := (fib6_e s)(len := tbl)\<rparr>"

definition fib6_new :: "ipv6 \<Rightarrow> ipv6 \<Rightarrow> ipv6 \<Rightarrow> vid \<Rightarrow> nat \<Rightarrow> fib6_entry" where
  "fib6_new addr pfx g v len =
     \<lparr>f6_addr = addr, f6_pfx = pfx, f6_gw = g, f6_vid = v, f6_len = len,
      f6_ret_key = \<lparr>gw6_addr = ip0, gw6_vid = 0\<rparr>, children6 = []\<rparr>"

definition fib_ipv6_add :: "ipv6 \<Rightarrow> nat \<Rightarrow> vid \<Rightarrow> ipv6 \<Rightarrow> 'a fib6_st_scheme \<Rightarrow> 'a fib6_st_scheme" where
  "fib_ipv6_add addr len v g s =
     (if \<not> len < 129 then crash s
      else if len = 0 then
        let e = (case fib6_e s 0 of [] \<Rightarrow> fib6_new ip0 ip0 ip0 0 0 | e # _ \<Rightarrow> e) in
        fib6_set 0 [e\<lparr>f6_addr := ip0, f6_pfx := ip0, f6_vid := v, f6_gw := g, f6_len := len\<rparr>] s
      else
        let pfx = addr; addr = mkmask6 addr len in
        (case fib6_find len addr s of
           Some e \<Rightarrow> s
         | None \<Rightarrow> fib6_set len (hash_add (fib6_new addr pfx g v len) (fib6_e s len)) s))"

definition fib_ipv6_get :: "ipv6 \<Rightarrow> nat \<Rightarrow> 'a fib6_st_scheme \<Rightarrow> fib6_entry option \<times> 'a fib6_st_scheme" where
  "fib_ipv6_get addr len s =
     (if \<not> len < 129 then (None, crash s)
      else if len = 0 then ((case fib6_e s 0 of [] \<Rightarrow> None | e # _ \<Rightarrow> Some e), s)
      else (fib6_find len (mkmask6 addr len) s, s))"

fun fib6_scan :: "'a fib6_st_scheme \<Rightarrow> nat \<Rightarrow> ipv6 \<Rightarrow> (nat \<times> fib6_entry) option" where
  "fib6_scan s 0 pfx = None"
| "fib6_scan s (Suc i) pfx =
     (case fib6_find (Suc i) pfx s of
        Some e \<Rightarrow> Some (Suc i, e)
      | None \<Rightarrow> fib6_scan s i (mkmask6 pfx i))"

text \<open>A child has length 32, as in the IPv4 table.\<close>

definition fib6_child_new :: "ipv6 \<Rightarrow> fib6_entry \<Rightarrow> fib6_node" where
  "fib6_child_new addr e =
     \<lparr>f6_addr = addr, f6_pfx = addr, f6_gw = addr, f6_vid = f6_vid e, f6_len = 32,
      f6_ret_key = \<lparr>gw6_addr = ip0, gw6_vid = 0\<rparr>\<rparr>"

definition fib_ipv6_route :: "ipv6 \<Rightarrow> 'a fib6_st_scheme \<Rightarrow> fib6_ref option \<times> 'a fib6_st_scheme" where
  "fib_ipv6_route addr s =
     (case fib6_scan s 128 addr of
        Some (i, e) \<Rightarrow>
          if f6_gw e = ip0 then
            (Some (F6_Child i (f6_addr e) addr),
             (case hash_find f6_key (children6 e) (int_key addr) of
                Some c \<Rightarrow> s
              | None \<Rightarrow>
                  fib6_set i (hash_mod f6_key (f6_key e)
                    (\<lambda>e. e\<lparr>children6 := hash_add (fib6_child_new addr e) (children6 e)\<rparr>) (fib6_e s i)) s))
          else (Some (F6_Entry i (f6_addr e)), s)
      | None \<Rightarrow>
          ((case fib6_e s 0 of [] \<Rightarrow> None | e # _ \<Rightarrow> Some (F6_Entry 0 (f6_addr e))), s))"

definition fib6_deref :: "fib6_ref \<Rightarrow> 'a fib6_st_scheme \<Rightarrow> fib6_node option" where
  "fib6_deref r s =
     (case r of
        F6_Entry i a \<Rightarrow> map_option fib6_node.truncate (fib6_find i a s)
      | F6_Child i a c \<Rightarrow>
          (case fib6_find i a s of None \<Rightarrow> None | Some e \<Rightarrow> hash_find f6_key (children6 e) (int_key c)))"

definition fib6_set_ret_key :: "fib6_ref \<Rightarrow> gw_v6 \<Rightarrow> 'a fib6_st_scheme \<Rightarrow> 'a fib6_st_scheme" where
  "fib6_set_ret_key r k s =
     (case r of
        F6_Entry i a \<Rightarrow> fib6_set i (hash_mod f6_key (int_key a) (\<lambda>e. e\<lparr>f6_ret_key := k\<rparr>) (fib6_e s i)) s
      | F6_Child i a c \<Rightarrow>
          fib6_set i (hash_mod f6_key (int_key a)
            (\<lambda>e. e\<lparr>children6 := hash_mod f6_key (int_key c) (\<lambda>x. x\<lparr>f6_ret_key := k\<rparr>) (children6 e)\<rparr>)
            (fib6_e s i)) s)"

section \<open>Deletion\<close>

definition route_del_fib_ipv6_entry :: "env \<Rightarrow> fib6_node \<Rightarrow> 'a fib6_st_scheme \<Rightarrow> 'a fib6_st_scheme" where
  "route_del_fib_ipv6_entry E e s =
     (let s = (if f6_len e \<noteq> 0 then snd (crp E (Uc (LpmIpv6UcPrefixDel (f6_pfx e) (f6_len e))) s) else s) in
      route_ipv6_unregister E (f6_pfx e) (f6_len e) (f6_gw e) (f6_vid e) s)"

definition fib_ipv6_del_entry_with_children :: "env \<Rightarrow> fib6_entry \<Rightarrow> 'a fib6_st_scheme \<Rightarrow> 'a fib6_st_scheme" where
  "fib_ipv6_del_entry_with_children E e s =
     fold (route_del_fib_ipv6_entry E) (children6 e) (route_del_fib_ipv6_entry E (fib6_node.truncate e) s)"

definition fib_ipv6_del :: "env \<Rightarrow> ipv6 \<Rightarrow> nat \<Rightarrow> 'a fib6_st_scheme \<Rightarrow> bool \<times> 'a fib6_st_scheme" where
  "fib_ipv6_del E addr len s =
     (if \<not> len < 129 then (False, crash s)
      else if len = 0 then
        (case fib6_e s 0 of
           [] \<Rightarrow> (False, s)
         | e # _ \<Rightarrow> (True, fib6_set 0 [] (fib_ipv6_del_entry_with_children E e s)))
      else
        let addr = mkmask6 addr len in
        (case fib6_find len addr s of
           None \<Rightarrow> (False, s)
         | Some e \<Rightarrow>
             (True, fib_ipv6_del_entry_with_children E e
                (fib6_set len (hash_del f6_key (int_key addr) (fib6_e s len)) s))))"

section \<open>Routes\<close>

definition route_add_v6 :: "env \<Rightarrow> route \<Rightarrow> 'a fib6_st_scheme \<Rightarrow> status \<times> 'a fib6_st_scheme" where
  "route_add_v6 E rt s =
     (let s = fib_ipv6_add (rt_addrv6 rt) (rt_alen rt) (rt_vid rt) (rt_gw_v6 rt) s in
      (ST_OK,
       if rt_alen rt = 0 then re6_default_entry E (uc_zero\<lparr>uc_cmd := CMD_TRAP_TO_CPU, uc_cpuCodeIdx := 1\<rparr>) s
       else lpm6_add E (rt_addrv6 rt) (rt_alen rt) TRAP_RE_IDX s))"

definition route_del_v6 :: "env \<Rightarrow> route \<Rightarrow> 'a fib6_st_scheme \<Rightarrow> status \<times> 'a fib6_st_scheme" where
  "route_del_v6 E rt s = (ST_OK, snd (fib_ipv6_del E (rt_addrv6 rt) (rt_alen rt) s))"

definition route_ipv6_request_mac_addr ::
  "env \<Rightarrow> int \<Rightarrow> ipv6 \<Rightarrow> vid \<Rightarrow> ipv6 \<Rightarrow> nat \<Rightarrow> gw_v6 \<Rightarrow> 'a fib6_st_scheme \<Rightarrow> gw_v6 \<times> 'a fib6_st_scheme" where
  "route_ipv6_request_mac_addr E bad_value gwip v ip alen ret_key s =
     (case ret_ipv6_add E bad_value \<lparr>gw6_addr = gwip, gw6_vid = v\<rparr> (alen = 0) ret_key s of
        ((ix, ret_key), s) \<Rightarrow>
          (ret_key, if ix \<ge> 0 \<and> alen \<noteq> 0 then lpm6_add E ip alen ix s else s))"

definition route_handle_ipv6_udaddr :: "env \<Rightarrow> int \<Rightarrow> ipv6 \<Rightarrow> 'a fib6_st_scheme \<Rightarrow> 'a fib6_st_scheme" where
  "route_handle_ipv6_udaddr E bad_value daddr s =
     (case fib_ipv6_route daddr s of
        (None, s) \<Rightarrow> s
      | (Some r, s) \<Rightarrow>
          (case fib6_deref r s of
             None \<Rightarrow> crash s
           | Some e \<Rightarrow>
               let (rt, alen) = (if f6_gw e \<noteq> ip0 then (f6_gw e, f6_len e) else (daddr, 128));
                   s = route_ipv6_register (f6_pfx e) alen rt (f6_vid e) daddr s in
               (case route_ipv6_request_mac_addr E bad_value rt (f6_vid e) (f6_pfx e) alen (f6_ret_key e) s of
                  (k, s) \<Rightarrow> fib6_set_ret_key r k s)))"

definition ndpc_set_mac_addr :: "env \<Rightarrow> ipv6 \<Rightarrow> vid \<Rightarrow> mac \<Rightarrow> vif_id \<Rightarrow> 'a fib6_st_scheme \<Rightarrow> 'a fib6_st_scheme" where
  "ndpc_set_mac_addr E ip v mac vif s =
     snd (ret_ipv6_set_mac_addr E \<lparr>gw6_addr = ip, gw6_vid = v\<rparr> mac vif s)"

text \<open>\<open>fib_ipv6_clear_routing\<close> and the listing stop at length 31, as their IPv4 namesakes.\<close>

definition fib_ipv6_clear_routing :: "env \<Rightarrow> 'a fib6_st_scheme \<Rightarrow> 'a fib6_st_scheme" where
  "fib_ipv6_clear_routing E s =
     fold (\<lambda>i s. fold (\<lambda>e s. snd (route_del_v6 E (rt_zero\<lparr>rt_addrv6 := f6_pfx e, rt_alen := f6_len e,
              rt_gw_v6 := f6_gw e, rt_vid := f6_vid e\<rparr>) s)) (fib6_e s i) s) [0 ..< 32] s"

record rtbd_route_msg6 =
  rm6_dst :: ipv6
  rm6_dst_len :: nat
  rm6_gw :: ipv6
  rm6_vid :: vid

definition fib_ipv6_get_routes :: "'a fib6_st_scheme \<Rightarrow> rtbd_route_msg6 list" where
  "fib_ipv6_get_routes s =
     map (\<lambda>e. \<lparr>rm6_dst = f6_pfx e, rm6_dst_len = f6_len e, rm6_gw = f6_gw e, rm6_vid = f6_vid e\<rparr>)
       (concat (map (fib6_e s) [0 ..< 32]))"

section \<open>Colliding prefixes\<close>

definition fib6_0 :: fib6_st where "fib6_0 = fib_st.extend fib0 (fib6_st.fields (\<lambda>_. []) [])"

definition pfx6_1 :: ipv6 where "pfx6_1 = [0x20, 0x01, 0x0d, 0xb8, 0, 1] @ replicate 10 0"
definition pfx6_2 :: ipv6 where "pfx6_2 = [0x20, 0x01, 0x0d, 0xb8, 0, 2] @ replicate 10 0"
definition gw6_1 :: ipv6 where "gw6_1 = [0xfe, 0x80] @ replicate 13 0 @ [1]"
definition gw6_2 :: ipv6 where "gw6_2 = [0xfe, 0x80] @ replicate 13 0 @ [2]"

lemma int_key_mask: "take 4 a = take 4 b \<Longrightarrow> int_key (mkmask6 a len) = int_key (mkmask6 b len)"
  by (simp add: int_key_def mkmask6_def Let_def take_map take_zip)

text \<open>Withdrawing the registrations of an entry leaves the tables of prefixes as they are.\<close>

lemma fib6_frames [simp]:
  fixes s :: "'a fib6_st_scheme"
  shows "fib6_e (re6_mod g f s) = fib6_e s" "fib6_e (re6_default_entry E rt s) = fib6_e s"
    "fib6_e (ndpc_release_addr g s) = fib6_e s" "fib6_e (snd (nht_unref a s)) = fib6_e s" "fib6_e (snd (res_push n xs s)) = fib6_e s"
    "fib6_e (s\<lparr>ret_ipv6 := r\<rparr>) = fib6_e s" "fib6_e (s\<lparr>re_cnt := k\<rparr>) = fib6_e s"
proof -
  show "fib6_e (re6_mod g f s) = fib6_e s" by (simp add: re6_mod_def)
  show "fib6_e (re6_default_entry E rt s) = fib6_e s" by (simp add: re6_default_entry_def)
  show "fib6_e (ndpc_release_addr g s) = fib6_e s" by (simp add: ndpc_release_addr_def ndpc_ip_addr_op_def emit_def)
  show "fib6_e (snd (nht_unref a s)) = fib6_e s" by (simp add: nht_unref_def nhs_push_def Let_def split: option.split)
  show "fib6_e (snd (res_push n xs s)) = fib6_e s" by (simp add: res_push_def Let_def)
qed simp_all

lemma fib6_unref_frame [simp]: "fib6_e (snd (ret_ipv6_unref E g dflt s)) = fib6_e (s :: 'a fib6_st_scheme)"
  by (simp add: ret_ipv6_unref_def Let_def split: option.split)

lemma fib6_register_frame [simp]: "fib6_e (route_del_fib_ipv6_entry E e s) = fib6_e s"
  by (simp add: route_del_fib_ipv6_entry_def route_ipv6_unregister_def Let_def crp_def emit_def split: option.split)

lemma fib6_children_frame [simp]: "fib6_e (fib_ipv6_del_entry_with_children E e s) = fib6_e (s :: 'a fib6_st_scheme)"
proof -
  have "fib6_e (fold (route_del_fib_ipv6_entry E) cs t) = fib6_e t" for cs and t :: "'a fib6_st_scheme"
    by (induction cs arbitrary: t) simp_all
  then show ?thesis by (simp add: fib_ipv6_del_entry_with_children_def)
qed

lemma del1_snoc: "\<forall>x \<in> set xs. \<not> P x \<Longrightarrow> P y \<Longrightarrow> del1 P (xs @ [y]) = xs"
  by (induction xs) auto

text \<open>C38. The tables of the IPv6 FIB hash the first four bytes of an address alone. Of two prefixes of
  one length that agree in them (any two longer than 32 bits inside one /32, for example) only the
  one added first is in the table: adding the second changes nothing, looking the second up gives
  the first one's prefix and gateway, and withdrawing the second withdraws the first.\<close>

theorem fib_ipv6_prefixes_collide:
  assumes "0 < len" "len < 129" "take 4 a = take 4 b" "fst (fib_ipv6_get a len s) = None"
    and t: "t = fib_ipv6_add a len v g s"
  shows "fib_ipv6_add b len v' g' t = t \<and>
    (\<exists>e. fst (fib_ipv6_get b len t) = Some e \<and> f6_pfx e = a \<and> f6_gw e = g \<and> f6_vid e = v) \<and>
    fst (fib_ipv6_del E b len t) \<and> fst (fib_ipv6_get a len (snd (fib_ipv6_del E b len t))) = None"
proof -
  let ?k = "int_key (mkmask6 a len)"
  have k: "int_key (mkmask6 b len) = ?k" using int_key_mask [OF assms(3)] by simp
  have none: "hash_find f6_key (fib6_e s len) ?k = None" using assms by (simp add: fib_ipv6_get_def fib6_find_def)
  let ?e = "fib6_new (mkmask6 a len) a g v len"
  have key: "f6_key ?e = ?k" by (simp add: f6_key_def fib6_new_def)
  have tt: "t = fib6_set len (hash_add ?e (fib6_e s len)) s"
    using assms none by (simp add: t fib_ipv6_add_def fib6_find_def Let_def)
  have find: "hash_find f6_key (fib6_e t len) ?k = Some ?e"
    using none key by (auto simp: tt fib6_set_def hash_add_def hash_find_def find_append)
  have gone: "hash_find f6_key (hash_del f6_key ?k (fib6_e t len)) ?k = None"
  proof -
    have "hash_del f6_key ?k (fib6_e s len @ [?e]) = fib6_e s len"
      unfolding hash_del_def using none key by (intro del1_snoc) (simp_all add: hash_find_None, metis imageI)
    then show ?thesis using none by (simp add: tt fib6_set_def hash_add_def)
  qed
  show ?thesis
    using assms find gone
    by (auto simp: fib_ipv6_add_def fib_ipv6_get_def fib_ipv6_del_def fib6_find_def k Let_def fib6_set_def fib6_new_def)
qed

text \<open>2001:db8:1::/48 and 2001:db8:2::/48, and their gateways.\<close>

theorem fib_ipv6_prefixes_collide_witness:
  "map_option f6_gw (fst (fib_ipv6_get pfx6_2 48 (fib_ipv6_add pfx6_2 48 10 gw6_2 (fib_ipv6_add pfx6_1 48 10 gw6_1 fib6_0))))
     = Some gw6_1"
proof -
  have "take 4 pfx6_1 = take 4 pfx6_2" by code_simp
  moreover have "fst (fib_ipv6_get pfx6_1 48 fib6_0) = None" by code_simp
  ultimately show ?thesis
    using fib_ipv6_prefixes_collide [of 48 pfx6_1 pfx6_2 fib6_0 _ 10 gw6_1 10 gw6_2 env0] by auto
qed

end
