(* ===== verification/Mll.thy ===== *)
theory Mll
  imports Fib6
begin

text \<open>
  The multicast linked list (\<open>src/mll.c\<close>): chains of pairs of nodes, a node being a multicast
  group and a VLAN. The software table \<open>mll_pt\<close> mirrors the pairs in hardware, which are read
  and written back by every change. Only the last pair of a chain may hold a single node
  (\<open>svid = 0\<close>); deleting a node therefore refills the hole from the tail, or moves the pair to
  the end, in thirteen cases.
\<close>

section \<open>State\<close>

record mll_pair =
  mp_pred :: int
  mp_succ :: int
  fvid :: vid
  fmcg :: mcg
  svid :: vid
  smcg :: mcg

record mll_state = fib6_st +
  mll_sp :: nat
  mll_ts :: nat
  mll_stk :: "nat \<Rightarrow> int"
  mll_pt :: "int \<Rightarrow> mll_pair"

definition nullnode :: mll_pair where
  "nullnode = \<lparr>mp_pred = -1, mp_succ = -1, fvid = 0, fmcg = 0, svid = 0, smcg = 0\<rparr>"

text \<open>Assigning \<open>mll_pt[i]\<close> or a field of it.\<close>

definition pt_upd :: "int \<Rightarrow> (mll_pair \<Rightarrow> mll_pair) \<Rightarrow> 'a mll_state_scheme \<Rightarrow> 'a mll_state_scheme" where
  "pt_upd i f s =
     (if 0 \<le> i \<and> i < int (mll_ts s) then s\<lparr>mll_pt := (mll_pt s)(i := f (mll_pt s i))\<rparr> else crash s)"

section \<open>The pool of pairs\<close>

text \<open>\<open>n\<close> is the table size the library reports.\<close>

definition mll_init :: "nat \<Rightarrow> 'a mll_state_scheme \<Rightarrow> status \<times> 'a mll_state_scheme" where
  "mll_init n s =
     (ST_OK, s\<lparr>mll_ts := n, mll_stk := int, mll_sp := 0, mll_pt := (\<lambda>_. nullnode)\<rparr>)"

text \<open>\<open>mll_ts - 1\<close> is unsigned: an empty table would give the largest value.\<close>

definition mll_get :: "'a mll_state_scheme \<Rightarrow> int \<times> 'a mll_state_scheme" where
  "mll_get s =
     (if mll_sp s \<ge> (if mll_ts s = 0 then 2 ^ 32 else mll_ts s) - 1 then (-1, s)
      else (mll_stk s (mll_sp s), s\<lparr>mll_sp := mll_sp s + 1\<rparr>))"

definition mll_put :: "int \<Rightarrow> 'a mll_state_scheme \<Rightarrow> int \<times> 'a mll_state_scheme" where
  "mll_put ix s =
     (if mll_sp s = 0 then (-1, s)
      else (0, s\<lparr>mll_sp := mll_sp s - 1, mll_stk := (mll_stk s)(mll_sp s - 1 := ix)\<rparr>))"

section \<open>Hardware pairs\<close>

definition mll_read :: "env \<Rightarrow> int \<Rightarrow> 'a sw_scheme \<Rightarrow> mll_hw_pair \<times> 'a sw_scheme" where
  "mll_read E i s = (e_mll_read E (hw s) i, snd (crp E (Mc (MllPairRead 0 i)) s))"

definition mll_write_all :: "env \<Rightarrow> int \<Rightarrow> mll_hw_pair \<Rightarrow> 'a sw_scheme \<Rightarrow> gt_status \<times> 'a sw_scheme" where
  "mll_write_all E i p s = for_each_dev E (\<lambda>d. Mc (MllPairWrite d i p)) s"

section \<open>Adding nodes\<close>

definition new_hw_pair :: "mcg \<Rightarrow> vid \<Rightarrow> mll_hw_pair" where
  "new_hw_pair g v =
     (let n = \<lparr>nd_vidx = g, nd_vlan = v, nd_last = True\<rparr> in
      \<lparr>firstMllNode = n, secondMllNode = n, nextPointer = 0\<rparr>)"

definition create_pair :: "env \<Rightarrow> int \<Rightarrow> mcg \<Rightarrow> vid \<Rightarrow> 'a mll_state_scheme \<Rightarrow> int \<times> 'a mll_state_scheme" where
  "create_pair E pred g v s =
     (case mll_get s of (idx, s) \<Rightarrow>
        if idx = -1 then (-1, s)
        else (case mll_write_all E idx (new_hw_pair g v) s of (rc, s) \<Rightarrow>
                if rc \<noteq> GT_OK then (-1, snd (mll_put idx s))
                else (idx, pt_upd idx (\<lambda>_. \<lparr>mp_pred = pred, mp_succ = -1, fvid = v, fmcg = g,
                                          svid = 0, smcg = 0\<rparr>) s)))"

text \<open>\<open>find_last_pair\<close> follows \<open>succ\<close> without a bound. A chain has at most as many pairs as the
  table, so that many steps are allowed; \<open>None\<close> is a loop that does not end.\<close>

fun find_last_pair :: "nat \<Rightarrow> 'a mll_state_scheme \<Rightarrow> int \<Rightarrow> int option" where
  "find_last_pair 0 s cur = None"
| "find_last_pair (Suc fuel) s cur =
     (if mp_succ (mll_pt s cur) = -1 then Some cur
      else find_last_pair fuel s (mp_succ (mll_pt s cur)))"

definition pair_set_next_pair :: "env \<Rightarrow> int \<Rightarrow> int \<Rightarrow> 'a mll_state_scheme \<Rightarrow> 'a mll_state_scheme" where
  "pair_set_next_pair E pred succ s =
     (case mll_read E pred s of (p, s) \<Rightarrow>
        let p = p\<lparr>secondMllNode := (secondMllNode p)\<lparr>nd_last := False\<rparr>, nextPointer := succ\<rparr>;
            s = pt_upd pred (\<lambda>e. e\<lparr>mp_succ := succ\<rparr>) s in
        snd (mll_write_all E pred p s))"

definition insert_second_node :: "env \<Rightarrow> int \<Rightarrow> mcg \<Rightarrow> vid \<Rightarrow> 'a mll_state_scheme \<Rightarrow> 'a mll_state_scheme" where
  "insert_second_node E pair g v s =
     (case mll_read E pair s of (p, s) \<Rightarrow>
        let p = p\<lparr>secondMllNode := firstMllNode p\<rparr>;
            p = p\<lparr>firstMllNode := (firstMllNode p)\<lparr>nd_last := False\<rparr>,
                  secondMllNode := (secondMllNode p)\<lparr>nd_vidx := g, nd_vlan := v, nd_last := True\<rparr>\<rparr>;
            s = snd (mll_write_all E pair p s) in
        pt_upd pair (\<lambda>e. e\<lparr>svid := v, smcg := g\<rparr>) s)"

text \<open>\<open>append_node\<close> does not look at what \<open>create_pair\<close> returns.\<close>

definition append_node :: "env \<Rightarrow> int \<Rightarrow> mcg \<Rightarrow> vid \<Rightarrow> 'a mll_state_scheme \<Rightarrow> 'a mll_state_scheme" where
  "append_node E pred g v s =
     (case find_last_pair (mll_ts s) s pred of
        None \<Rightarrow> crash s
      | Some last_pair \<Rightarrow>
          if svid (mll_pt s last_pair) = 0 then insert_second_node E last_pair g v s
          else (case create_pair E last_pair g v s of (new_pair, s) \<Rightarrow>
                  pair_set_next_pair E last_pair new_pair s))"

definition add_node :: "env \<Rightarrow> int \<Rightarrow> mcg \<Rightarrow> vid \<Rightarrow> 'a mll_state_scheme \<Rightarrow> int \<times> 'a mll_state_scheme" where
  "add_node E pred g v s =
     (if pred < 0 then create_pair E pred g v s else (pred, append_node E pred g v s))"

section \<open>Finding nodes\<close>

text \<open>\<open>Some (-1)\<close> is the source's \<open>-1\<close>, no such node; \<open>None\<close> a loop that does not end.\<close>

fun find_pair :: "nat \<Rightarrow> 'a mll_state_scheme \<Rightarrow> int \<Rightarrow> mcg \<Rightarrow> vid \<Rightarrow> int option" where
  "find_pair 0 s cur g v = None"
| "find_pair (Suc fuel) s cur g v =
     (if (fmcg (mll_pt s cur) \<noteq> g \<or> fvid (mll_pt s cur) \<noteq> v) \<and>
         (smcg (mll_pt s cur) \<noteq> g \<or> svid (mll_pt s cur) \<noteq> v)
      then (if mp_succ (mll_pt s cur) = -1 then Some (-1)
            else find_pair fuel s (mp_succ (mll_pt s cur)) g v)
      else Some cur)"

section \<open>Rewriting a pair in hardware\<close>

datatype pm_flag = FLAG_SKIP | SET_FLAG | RESET_FLAG
datatype pm_last =
  LAST_SKIP | CP_CUR_FRST_TO_LAST_SECD | CP_CUR_SECD_TO_LAST_SECD | SET_LAST_NEXT_TO_CUR

definition SKIP :: int where "SKIP = -1"

definition set_last :: "pm_flag \<Rightarrow> mll_node \<Rightarrow> mll_node" where
  "set_last flag n =
     (case flag of SET_FLAG \<Rightarrow> n\<lparr>nd_last := True\<rparr> | RESET_FLAG \<Rightarrow> n\<lparr>nd_last := False\<rparr> | FLAG_SKIP \<Rightarrow> n)"

definition pair_modify_chain ::
  "env \<Rightarrow> int \<Rightarrow> pm_flag \<Rightarrow> pm_flag \<Rightarrow> bool \<Rightarrow> int \<Rightarrow> int \<Rightarrow> pm_last \<Rightarrow> 'a sw_scheme \<Rightarrow> 'a sw_scheme" where
  "pair_modify_chain E idx flag1 flag2 cp_secd nxt last_idx last_idx_cmd s =
     (case mll_read E idx s of (p, s) \<Rightarrow>
        let p = (if cp_secd then p\<lparr>firstMllNode := secondMllNode p\<rparr> else p);
            p = p\<lparr>firstMllNode := set_last flag1 (firstMllNode p)\<rparr>;
            p = p\<lparr>secondMllNode := set_last flag2 (secondMllNode p)\<rparr>;
            p = (if nxt \<noteq> SKIP then p\<lparr>nextPointer := nxt\<rparr> else p) in
        case last_idx_cmd of
          LAST_SKIP \<Rightarrow> snd (mll_write_all E idx p s)
        | CP_CUR_FRST_TO_LAST_SECD \<Rightarrow>
            (case mll_read E last_idx s of (l, s) \<Rightarrow>
               snd (mll_write_all E last_idx
                 (l\<lparr>firstMllNode := (firstMllNode l)\<lparr>nd_last := False\<rparr>,
                    secondMllNode := (firstMllNode p)\<lparr>nd_last := True\<rparr>\<rparr>) s))
        | CP_CUR_SECD_TO_LAST_SECD \<Rightarrow>
            (case mll_read E last_idx s of (l, s) \<Rightarrow>
               snd (mll_write_all E last_idx
                 (l\<lparr>firstMllNode := (firstMllNode l)\<lparr>nd_last := False\<rparr>,
                    secondMllNode := (secondMllNode p)\<lparr>nd_last := True\<rparr>\<rparr>) s))
        | SET_LAST_NEXT_TO_CUR \<Rightarrow>
            (case mll_read E last_idx s of (l, s) \<Rightarrow>
               let l = l\<lparr>nextPointer := idx, secondMllNode := (secondMllNode l)\<lparr>nd_last := False\<rparr>\<rparr>;
                   s = snd (mll_write_all E idx p s) in
               snd (mll_write_all E last_idx l s)))"

section \<open>Deleting nodes\<close>

text \<open>Field assignments of the cases: the second node becomes the first, the second node is
  dropped, the pair is freed.\<close>

definition second_to_first :: "mll_pair \<Rightarrow> mll_pair" where
  "second_to_first e = e\<lparr>fvid := svid e, fmcg := smcg e, svid := 0, smcg := 0\<rparr>"

definition drop_second :: "mll_pair \<Rightarrow> mll_pair" where
  "drop_second e = e\<lparr>svid := 0, smcg := 0\<rparr>"

definition free_pair :: "int \<Rightarrow> 'a mll_state_scheme \<Rightarrow> 'a mll_state_scheme" where
  "free_pair idx s = snd (mll_put idx (pt_upd idx (\<lambda>_. nullnode) s))"

abbreviation set_pred :: "int \<Rightarrow> int \<Rightarrow> 'a mll_state_scheme \<Rightarrow> 'a mll_state_scheme" where
  "set_pred i v \<equiv> pt_upd i (\<lambda>e. e\<lparr>mp_pred := v\<rparr>)"

abbreviation set_succ :: "int \<Rightarrow> int \<Rightarrow> 'a mll_state_scheme \<Rightarrow> 'a mll_state_scheme" where
  "set_succ i v \<equiv> pt_upd i (\<lambda>e. e\<lparr>mp_succ := v\<rparr>)"

text \<open>The only node of the only pair.\<close>

definition del_case_1 :: "int \<Rightarrow> 'a mll_state_scheme \<Rightarrow> int \<times> 'a mll_state_scheme" where
  "del_case_1 idx s = (-2, free_pair idx s)"

text \<open>The first node of an incomplete tail.\<close>

definition del_case_2 :: "env \<Rightarrow> int \<Rightarrow> int \<Rightarrow> 'a mll_state_scheme \<Rightarrow> int \<times> 'a mll_state_scheme" where
  "del_case_2 E idx head_idx s =
     (let w_idx = mp_pred (mll_pt s idx);
          s = pair_modify_chain E w_idx FLAG_SKIP SET_FLAG False SKIP SKIP LAST_SKIP s;
          s = free_pair idx s in
      (head_idx, set_succ w_idx (-1) s))"

text \<open>The first node of a complete pair that is the tail (cases 3 and 6).\<close>

definition del_case_3_6 :: "env \<Rightarrow> int \<Rightarrow> int \<Rightarrow> 'a mll_state_scheme \<Rightarrow> int \<times> 'a mll_state_scheme" where
  "del_case_3_6 E idx head_idx s =
     (let s = pair_modify_chain E idx SET_FLAG FLAG_SKIP True SKIP SKIP LAST_SKIP s in
      (head_idx, pt_upd idx second_to_first s))"

text \<open>The first node of the head, complete tail: the head becomes the tail.\<close>

definition del_case_4 :: "env \<Rightarrow> int \<Rightarrow> int \<Rightarrow> 'a mll_state_scheme \<Rightarrow> int \<times> 'a mll_state_scheme" where
  "del_case_4 E idx last_idx s =
     (let s = pair_modify_chain E idx SET_FLAG FLAG_SKIP True SKIP last_idx SET_LAST_NEXT_TO_CUR s;
          s = pt_upd idx second_to_first s;
          succ_idx = mp_succ (mll_pt s idx);
          s = set_pred succ_idx (mp_pred (mll_pt s idx)) s;
          new_head_idx = mp_succ (mll_pt s idx);
          s = set_succ idx (-1) s;
          s = set_succ last_idx idx s;
          s = set_pred idx last_idx s in
      (new_head_idx, s))"

text \<open>The first node of the head, incomplete tail: the head's second node completes the tail.\<close>

definition del_case_5 :: "env \<Rightarrow> int \<Rightarrow> int \<Rightarrow> 'a mll_state_scheme \<Rightarrow> int \<times> 'a mll_state_scheme" where
  "del_case_5 E idx last_idx s =
     (let s = pair_modify_chain E idx FLAG_SKIP SET_FLAG False SKIP last_idx CP_CUR_SECD_TO_LAST_SECD s;
          s = pt_upd last_idx (\<lambda>e. e\<lparr>svid := svid (mll_pt s idx), smcg := smcg (mll_pt s idx)\<rparr>) s;
          succ_idx = mp_succ (mll_pt s idx);
          s = set_pred succ_idx (mp_pred (mll_pt s idx)) s;
          new_head_idx = mp_succ (mll_pt s idx) in
      (new_head_idx, free_pair idx s))"

text \<open>The first node of a middle pair, complete tail: the pair moves to the end.\<close>

definition del_case_7 :: "env \<Rightarrow> int \<Rightarrow> int \<Rightarrow> int \<Rightarrow> 'a mll_state_scheme \<Rightarrow> int \<times> 'a mll_state_scheme" where
  "del_case_7 E idx head_idx last_idx s =
     (let w_idx = mp_pred (mll_pt s idx);
          succ_idx = mp_succ (mll_pt s idx);
          s = pair_modify_chain E w_idx FLAG_SKIP FLAG_SKIP False succ_idx SKIP LAST_SKIP s;
          s = set_succ w_idx succ_idx s;
          s = set_pred succ_idx w_idx s;
          s = pair_modify_chain E idx SET_FLAG FLAG_SKIP True SKIP SKIP LAST_SKIP s;
          s = pt_upd idx second_to_first s;
          s = set_succ idx (-1) s;
          s = pair_modify_chain E last_idx FLAG_SKIP RESET_FLAG False idx SKIP LAST_SKIP s;
          s = set_succ last_idx idx s;
          s = set_pred idx last_idx s in
      (head_idx, s))"

text \<open>The first node of a middle pair, incomplete tail. Unlike case 13 the successor's \<open>pred\<close>
  is not updated.\<close>

definition del_case_8 :: "env \<Rightarrow> int \<Rightarrow> int \<Rightarrow> int \<Rightarrow> 'a mll_state_scheme \<Rightarrow> int \<times> 'a mll_state_scheme" where
  "del_case_8 E idx head_idx last_idx s =
     (let w_idx = mp_pred (mll_pt s idx);
          succ_idx = mp_succ (mll_pt s idx);
          s = pair_modify_chain E w_idx FLAG_SKIP FLAG_SKIP False succ_idx SKIP LAST_SKIP s;
          s = set_succ w_idx succ_idx s;
          s = pair_modify_chain E idx FLAG_SKIP SET_FLAG False SKIP last_idx CP_CUR_SECD_TO_LAST_SECD s;
          s = pt_upd last_idx (\<lambda>e. e\<lparr>svid := svid (mll_pt s idx), smcg := smcg (mll_pt s idx)\<rparr>) s in
      (head_idx, free_pair idx s))"

text \<open>The second node of the tail.\<close>

definition del_case_9 :: "env \<Rightarrow> int \<Rightarrow> int \<Rightarrow> 'a mll_state_scheme \<Rightarrow> int \<times> 'a mll_state_scheme" where
  "del_case_9 E idx head_idx s =
     (let s = pair_modify_chain E idx SET_FLAG FLAG_SKIP False SKIP SKIP LAST_SKIP s in
      (head_idx, pt_upd idx drop_second s))"

text \<open>The second node of the head, complete tail: the head becomes the tail. The first write
  points the new head's hardware pair at \<open>idx\<close>, whatever follows the new head.\<close>

definition del_case_10 :: "env \<Rightarrow> int \<Rightarrow> int \<Rightarrow> 'a mll_state_scheme \<Rightarrow> int \<times> 'a mll_state_scheme" where
  "del_case_10 E idx last_idx s =
     (let new_head_idx = mp_succ (mll_pt s idx);
          s = set_pred new_head_idx (mp_pred (mll_pt s idx)) s;
          s = pair_modify_chain E new_head_idx FLAG_SKIP FLAG_SKIP False idx SKIP LAST_SKIP s;
          s = pair_modify_chain E idx SET_FLAG FLAG_SKIP False SKIP SKIP LAST_SKIP s;
          s = pair_modify_chain E last_idx FLAG_SKIP RESET_FLAG False idx SKIP LAST_SKIP s;
          s = set_succ last_idx idx s;
          s = set_pred idx last_idx s;
          s = pt_upd idx drop_second s;
          s = set_succ idx (-1) s in
      (new_head_idx, s))"

text \<open>The second node of the head, incomplete tail: the head's first node completes the tail.\<close>

definition del_case_11 :: "env \<Rightarrow> int \<Rightarrow> int \<Rightarrow> 'a mll_state_scheme \<Rightarrow> int \<times> 'a mll_state_scheme" where
  "del_case_11 E idx last_idx s =
     (let s = pair_modify_chain E idx SET_FLAG FLAG_SKIP False SKIP last_idx CP_CUR_FRST_TO_LAST_SECD s;
          s = pt_upd last_idx (\<lambda>e. e\<lparr>svid := fvid (mll_pt s idx), smcg := fmcg (mll_pt s idx)\<rparr>) s;
          succ_idx = mp_succ (mll_pt s idx);
          s = set_pred succ_idx (mp_pred (mll_pt s idx)) s;
          new_head_idx = mp_succ (mll_pt s idx) in
      (new_head_idx, free_pair idx s))"

text \<open>The second node of a middle pair, complete tail: the pair moves to the end.\<close>

definition del_case_12 :: "env \<Rightarrow> int \<Rightarrow> int \<Rightarrow> int \<Rightarrow> 'a mll_state_scheme \<Rightarrow> int \<times> 'a mll_state_scheme" where
  "del_case_12 E idx head_idx last_idx s =
     (let w_idx = mp_pred (mll_pt s idx);
          succ_idx = mp_succ (mll_pt s idx);
          s = pair_modify_chain E w_idx FLAG_SKIP FLAG_SKIP False succ_idx SKIP LAST_SKIP s;
          s = set_succ w_idx succ_idx s;
          s = set_pred succ_idx w_idx s;
          s = pair_modify_chain E idx SET_FLAG FLAG_SKIP False SKIP SKIP LAST_SKIP s;
          s = pt_upd idx drop_second s;
          s = set_succ idx (-1) s;
          s = pair_modify_chain E last_idx FLAG_SKIP RESET_FLAG False idx SKIP LAST_SKIP s;
          s = set_succ last_idx idx s;
          s = set_pred idx last_idx s in
      (head_idx, s))"

text \<open>The second node of a middle pair, incomplete tail.\<close>

definition del_case_13 :: "env \<Rightarrow> int \<Rightarrow> int \<Rightarrow> int \<Rightarrow> 'a mll_state_scheme \<Rightarrow> int \<times> 'a mll_state_scheme" where
  "del_case_13 E idx head_idx last_idx s =
     (let w_idx = mp_pred (mll_pt s idx);
          succ_idx = mp_succ (mll_pt s idx);
          s = pair_modify_chain E w_idx FLAG_SKIP FLAG_SKIP False succ_idx SKIP LAST_SKIP s;
          s = set_succ w_idx succ_idx s;
          s = set_pred succ_idx w_idx s;
          s = pair_modify_chain E idx FLAG_SKIP FLAG_SKIP False SKIP last_idx CP_CUR_FRST_TO_LAST_SECD s;
          s = pt_upd last_idx (\<lambda>e. e\<lparr>svid := fvid (mll_pt s idx), smcg := fmcg (mll_pt s idx)\<rparr>) s in
      (head_idx, free_pair idx s))"

text \<open>The flags and the choice of the case.\<close>

definition do_del_node :: "env \<Rightarrow> int \<Rightarrow> mcg \<Rightarrow> vid \<Rightarrow> int \<Rightarrow> 'a mll_state_scheme \<Rightarrow> int \<times> 'a mll_state_scheme" where
  "do_del_node E idx g v head_idx s =
     (case find_last_pair (mll_ts s) s idx of
        None \<Rightarrow> (-3, crash s)
      | Some last_idx \<Rightarrow>
          let single_node = (svid (mll_pt s idx) = 0);
              firstnode = (fvid (mll_pt s idx) = v \<and> fmcg (mll_pt s idx) = g);
              head = (mp_pred (mll_pt s idx) < 0);
              tail = (mp_succ (mll_pt s idx) < 0);
              complete_tail = (svid (mll_pt s last_idx) \<noteq> 0) in
          if firstnode then
            if single_node then
              if head then del_case_1 idx s
              else del_case_2 E idx head_idx s
            else if head then
              if tail then del_case_3_6 E idx head_idx s
              else if complete_tail then del_case_4 E idx last_idx s
              else del_case_5 E idx last_idx s
            else if tail then del_case_3_6 E idx head_idx s
            else if complete_tail then del_case_7 E idx head_idx last_idx s
            else del_case_8 E idx head_idx last_idx s
          else if tail then del_case_9 E idx head_idx s
          else if head then
            if complete_tail then del_case_10 E idx last_idx s
            else del_case_11 E idx last_idx s
          else if complete_tail then del_case_12 E idx head_idx last_idx s
          else del_case_13 E idx head_idx last_idx s)"

definition del_node :: "env \<Rightarrow> int \<Rightarrow> mcg \<Rightarrow> vid \<Rightarrow> 'a mll_state_scheme \<Rightarrow> int \<times> 'a mll_state_scheme" where
  "del_node E head_idx g v s =
     (case find_pair (mll_ts s) s head_idx g v of
        None \<Rightarrow> (-3, crash s)
      | Some idx \<Rightarrow> if idx = -1 then (-3, s) else do_del_node E idx g v head_idx s)"

end
