(* ===== verification/Mll_Chain.thy ===== *)
theory Mll_Chain
  imports Mll "HOL-Library.Multiset"
begin

text \<open>
  The multicast linked list as what it stands for: a chain of pairs, linked both ways, and the
  list of its nodes. Lookups end on every chain, adding appends a node, and deleting removes one
  occurrence of the node and keeps the chain, with two defects the examples at the end show.
\<close>

section \<open>Chains\<close>

fun fwd :: "(int \<Rightarrow> int) \<Rightarrow> int list \<Rightarrow> int \<Rightarrow> bool" where
  "fwd S [] n = True"
| "fwd S (i # xs) n = (S i = (if xs = [] then n else hd xs) \<and> fwd S xs n)"

fun bwd :: "(int \<Rightarrow> int) \<Rightarrow> int \<Rightarrow> int list \<Rightarrow> bool" where
  "bwd P p [] = True"
| "bwd P p (i # xs) = (P i = p \<and> bwd P i xs)"

lemma fwd_append: "fwd S (xs @ ys) n \<longleftrightarrow> fwd S xs (if ys = [] then n else hd ys) \<and> fwd S ys n"
  by (induction xs) auto

lemma bwd_append: "bwd P p (xs @ ys) \<longleftrightarrow> bwd P p xs \<and> bwd P (if xs = [] then p else last xs) ys"
  by (induction xs arbitrary: p) auto

lemma fwd_other [simp]: "k \<notin> set xs \<Longrightarrow> fwd (S(k := v)) xs n = fwd S xs n"
  by (induction xs) auto

lemma bwd_other [simp]: "k \<notin> set xs \<Longrightarrow> bwd (P(k := v)) p xs = bwd P p xs"
  by (induction xs arbitrary: p) auto

abbreviation succs :: "'a mll_state_scheme \<Rightarrow> int \<Rightarrow> int" where
  "succs s \<equiv> \<lambda>i. mp_succ (mll_pt s i)"

abbreviation preds :: "'a mll_state_scheme \<Rightarrow> int \<Rightarrow> int" where
  "preds s \<equiv> \<lambda>i. mp_pred (mll_pt s i)"

definition pair_nodes :: "mll_pair \<Rightarrow> (mcg \<times> vid) list" where
  "pair_nodes e = (fmcg e, fvid e) # (if svid e = 0 then [] else [(smcg e, svid e)])"

definition mll_nodes :: "'a mll_state_scheme \<Rightarrow> int list \<Rightarrow> (mcg \<times> vid) list" where
  "mll_nodes s xs = concat (map (\<lambda>i. pair_nodes (mll_pt s i)) xs)"

text \<open>A chain without its back links, and with them.\<close>

definition mll_fwd :: "'a mll_state_scheme \<Rightarrow> int list \<Rightarrow> bool" where
  "mll_fwd s xs \<longleftrightarrow> xs \<noteq> [] \<and> distinct xs \<and> set xs \<subseteq> {0 ..< int (mll_ts s)} \<and> fwd (succs s) xs (-1) \<and>
     (\<forall>i \<in> set (butlast xs). svid (mll_pt s i) \<noteq> 0)"

definition mll_chain :: "'a mll_state_scheme \<Rightarrow> int list \<Rightarrow> bool" where
  "mll_chain s xs \<longleftrightarrow> mll_fwd s xs \<and> mp_pred (mll_pt s (hd xs)) < 0 \<and> bwd (preds s) (mp_pred (mll_pt s (hd xs))) xs"

lemma mll_nodes_simps [simp]:
  "mll_nodes s [] = []" "mll_nodes s (i # xs) = pair_nodes (mll_pt s i) @ mll_nodes s xs"
  "mll_nodes s (xs @ ys) = mll_nodes s xs @ mll_nodes s ys"
  by (simp_all add: mll_nodes_def)

lemma mll_nodes_cong: "(\<And>i. i \<in> set xs \<Longrightarrow> mll_pt s i = mll_pt t i) \<Longrightarrow> mll_nodes s xs = mll_nodes t xs"
  by (simp add: mll_nodes_def cong: map_cong)

lemma chain_length:
  assumes "mll_fwd s xs" shows "length xs \<le> mll_ts s"
proof -
  from assms have d: "distinct xs" and sub: "set xs \<subseteq> {0 ..< int (mll_ts s)}" by (simp_all add: mll_fwd_def)
  have "length xs = card (set xs)" using d by (simp add: distinct_card)
  also have "\<dots> \<le> card {0 ..< int (mll_ts s)}" using sub by (rule card_mono [rotated]) simp
  finally show ?thesis by simp
qed

section \<open>Lookups end\<close>

lemma find_last_pair_chain:
  "fwd (succs s) xs (-1) \<Longrightarrow> -1 \<notin> set xs \<Longrightarrow> xs \<noteq> [] \<Longrightarrow> length xs \<le> n \<Longrightarrow> find_last_pair n s (hd xs) = Some (last xs)"
proof (induction xs arbitrary: n)
  case (Cons i xs)
  then obtain m where "n = Suc m" by (cases n) auto
  with Cons show ?case by (cases xs) auto
qed simp

lemma find_pair_chain:
  "fwd (succs s) xs (-1) \<Longrightarrow> -1 \<notin> set xs \<Longrightarrow> xs \<noteq> [] \<Longrightarrow> length xs \<le> n \<Longrightarrow> v \<noteq> 0 \<Longrightarrow>
   find_pair n s (hd xs) g v =
     Some (case find (\<lambda>i. (g, v) \<in> set (pair_nodes (mll_pt s i))) xs of Some i \<Rightarrow> i | None \<Rightarrow> -1)"
proof (induction xs arbitrary: n)
  case (Cons i xs)
  then obtain m where n: "n = Suc m" by (cases n) auto
  have m: "(g, v) \<in> set (pair_nodes (mll_pt s i)) \<longleftrightarrow>
      \<not> ((fmcg (mll_pt s i) \<noteq> g \<or> fvid (mll_pt s i) \<noteq> v) \<and> (smcg (mll_pt s i) \<noteq> g \<or> svid (mll_pt s i) \<noteq> v))"
    using Cons.prems(5) by (auto simp: pair_nodes_def)
  show ?case
  proof (cases "(g, v) \<in> set (pair_nodes (mll_pt s i))")
    case True
    with m n show ?thesis by auto
  next
    case False
    then have "find_pair n s i g v = (if mp_succ (mll_pt s i) = -1 then Some (-1) else find_pair m s (mp_succ (mll_pt s i)) g v)"
      using m n by simp
    with False Cons n show ?thesis by (cases xs) auto
  qed
qed simp

section \<open>Frames\<close>

lemma hw_frames [simp]:
  fixes s :: "'a mll_state_scheme"
  shows "mll_pt (snd (mll_write_all E i p s)) = mll_pt s" "mll_ts (snd (mll_write_all E i p s)) = mll_ts s"
    "mll_pt (snd (mll_read E i s)) = mll_pt s" "mll_ts (snd (mll_read E i s)) = mll_ts s"
  by (simp_all add: mll_write_all_def mll_read_def crp_def emit_def)

lemma pair_modify_frame [simp]:
  fixes s :: "'a mll_state_scheme"
  shows "mll_pt (pair_modify_chain E idx f1 f2 c n l k s) = mll_pt s \<and> mll_ts (pair_modify_chain E idx f1 f2 c n l k s) = mll_ts s"
  unfolding pair_modify_chain_def
  by (auto simp: Let_def split: prod.splits pm_last.splits) (metis hw_frames snd_conv)+

lemma pt_upd_valid:
  "0 \<le> i \<Longrightarrow> i < int (mll_ts s) \<Longrightarrow> pt_upd i f s = s\<lparr>mll_pt := (mll_pt s)(i := f (mll_pt s i))\<rparr>"
  by (simp add: pt_upd_def)

lemma mll_put_frame [simp]:
  "mll_pt (snd (mll_put i s)) = mll_pt s" "mll_ts (snd (mll_put i s)) = mll_ts s"
  by (simp_all add: mll_put_def)

section \<open>Link surgery\<close>

text \<open>Dropping a middle element, and moving it to the end.\<close>

lemma fwd_drop_middle:
  "fwd S (ys @ w # i # zs) n \<Longrightarrow> distinct (ys @ w # i # zs) \<Longrightarrow> zs \<noteq> [] \<Longrightarrow> fwd (S(w := S i)) (ys @ w # zs) n"
  by (auto simp: fwd_append)

lemma bwd_drop_middle:
  "bwd P p (ys @ w # i # z # zs) \<Longrightarrow> distinct (ys @ w # i # z # zs) \<Longrightarrow> bwd (P(z := w)) p (ys @ w # z # zs)"
  by (auto simp: bwd_append)

lemma fwd_last: "fwd S (xs @ [l]) n \<longleftrightarrow> fwd S xs l \<and> S l = n"
  by (simp add: fwd_append)

lemma fwd_move_end:
  assumes f: "fwd S xs n" and d: "distinct xs" "i \<notin> set xs" and ne: "xs \<noteq> []"
  shows "fwd (S(i := -1, last xs := i)) (xs @ [i]) (-1)"
proof -
  obtain ys l where xs: "xs = ys @ [l]" using ne by (metis rev_exhaust)
  with f d show ?thesis by (auto simp: fwd_append)
qed

lemma bwd_move_end:
  assumes f: "bwd P p xs" and d: "i \<notin> set xs" and ne: "xs \<noteq> []"
  shows "bwd (P(i := last xs)) p (xs @ [i])"
  using assms by (simp add: bwd_append)

lemma fwd_tl: "fwd S (i # xs) n \<Longrightarrow> fwd S xs n"
  by simp

lemma bwd_head: "bwd P (P i) (i # z # zs) \<Longrightarrow> distinct (i # z # zs) \<Longrightarrow> bwd (P(z := q)) q (z # zs)"
  by simp

lemma mll_chainD:
  assumes "mll_chain s xs"
  shows "mll_fwd s xs" and "xs \<noteq> []" and "distinct xs" and "\<And>i. i \<in> set xs \<Longrightarrow> 0 \<le> i \<and> i < int (mll_ts s)"
    and "fwd (succs s) xs (-1)" and "\<And>i. i \<in> set (butlast xs) \<Longrightarrow> svid (mll_pt s i) \<noteq> 0"
    and "mp_pred (mll_pt s (hd xs)) < 0" and "bwd (preds s) (mp_pred (mll_pt s (hd xs))) xs"
  using assms by (auto simp: mll_chain_def mll_fwd_def)

lemma fwd_cong: "(\<And>i. i \<in> set xs \<Longrightarrow> S i = S' i) \<Longrightarrow> fwd S xs n = fwd S' xs n"
  by (induction xs) auto

lemma bwd_cong: "(\<And>i. i \<in> set xs \<Longrightarrow> P i = P' i) \<Longrightarrow> bwd P p xs = bwd P' p xs"
  by (induction xs arbitrary: p) auto

text \<open>The chain after a change: its links, given pointwise.\<close>

lemma mll_chainI:
  assumes "xs \<noteq> []" and "distinct xs" and "\<And>i. i \<in> set xs \<Longrightarrow> 0 \<le> i \<and> i < int (mll_ts s)"
    and f: "fwd S xs (-1)" "\<And>i. i \<in> set xs \<Longrightarrow> mp_succ (mll_pt s i) = S i"
    and "\<And>i. i \<in> set (butlast xs) \<Longrightarrow> svid (mll_pt s i) \<noteq> 0"
    and p: "p < 0" and b: "bwd P p xs" "\<And>i. i \<in> set xs \<Longrightarrow> mp_pred (mll_pt s i) = P i"
  shows "mll_chain s xs"
proof -
  have "fwd (succs s) xs (-1)" using f fwd_cong [of xs S "succs s" "-1"] by simp
  moreover have "bwd (preds s) p xs" using b bwd_cong [of xs P "preds s" p] by simp
  moreover from this assms(1) have "mp_pred (mll_pt s (hd xs)) = p" by (cases xs) auto
  ultimately show ?thesis using assms(1,2,3,6) p by (auto simp: mll_chain_def mll_fwd_def)
qed

lemma mll_chain_content:
  assumes c: "mll_chain s xs" and ts: "mll_ts t = mll_ts s"
    and links: "\<And>i. i \<in> set xs \<Longrightarrow> mp_succ (mll_pt t i) = mp_succ (mll_pt s i) \<and> mp_pred (mll_pt t i) = mp_pred (mll_pt s i)"
    and full: "\<And>i. i \<in> set (butlast xs) \<Longrightarrow> svid (mll_pt t i) \<noteq> 0"
  shows "mll_chain t xs"
  by (rule mll_chainI [OF mll_chainD(2,3) [OF c] _ mll_chainD(5) [OF c] _ full mll_chainD(7,8) [OF c]])
    (use mll_chainD(4) [OF c] links ts in auto)

section \<open>The cases of deletion\<close>

lemma nodes_links:
  "(\<And>i. i \<in> set xs \<Longrightarrow> pair_nodes (mll_pt t i) = pair_nodes (mll_pt s i)) \<Longrightarrow> mll_nodes t xs = mll_nodes s xs"
  unfolding mll_nodes_def by (auto cong: map_cong)

lemma pair_nodes_simps [simp]:
  "pair_nodes (e\<lparr>mp_succ := a\<rparr>) = pair_nodes e" "pair_nodes (e\<lparr>mp_pred := a\<rparr>) = pair_nodes e"
  "pair_nodes (drop_second e) = [(fmcg e, fvid e)]" "pair_nodes (second_to_first e) = [(smcg e, svid e)]"
  "svid e \<noteq> 0 \<Longrightarrow> pair_nodes e = [(fmcg e, fvid e), (smcg e, svid e)]"
  "svid e = 0 \<Longrightarrow> pair_nodes e = [(fmcg e, fvid e)]"
  by (simp_all add: pair_nodes_def drop_second_def second_to_first_def)

lemma link_fields [simp]:
  "mp_succ (drop_second e) = mp_succ e" "mp_pred (drop_second e) = mp_pred e" "svid (drop_second e) = 0"
  "mp_succ (second_to_first e) = mp_succ e" "mp_pred (second_to_first e) = mp_pred e" "svid (second_to_first e) = 0"
  by (simp_all add: drop_second_def second_to_first_def)

text \<open>The tail.\<close>

lemma case_2:
  assumes c: "mll_chain s (ys @ [w, i])" and s': "del_case_2 E i h s = (r, s')"
  shows "r = h \<and> mll_chain s' (ys @ [w]) \<and> mll_nodes s' (ys @ [w]) = mll_nodes s (ys @ [w])"
proof -
  note D = mll_chainD [OF c]
  have w: "mp_pred (mll_pt s i) = w" using D(8) by (simp add: bwd_append)
  have v: "0 \<le> i" "i < int (mll_ts s)" "0 \<le> w" "w < int (mll_ts s)" using D(4) by auto
  have pt: "mll_pt s' = (mll_pt s)(i := nullnode, w := (mll_pt s w)\<lparr>mp_succ := -1\<rparr>)" "mll_ts s' = mll_ts s" "r = h"
    using s' v D(3) w by (auto simp: del_case_2_def Let_def free_pair_def pt_upd_valid)
  have "mll_chain s' (ys @ [w])"
  proof (rule mll_chainI)
    show "fwd ((succs s)(w := -1)) (ys @ [w]) (-1)" using D(3,5) by (simp add: fwd_append)
    show "bwd (preds s) (mp_pred (mll_pt s (hd (ys @ [w, i])))) (ys @ [w])" using D(8) by (simp add: bwd_append)
    show "svid (mll_pt s' k) \<noteq> 0" if "k \<in> set (butlast (ys @ [w]))" for k
      using that D(3) D(6) [of k] pt(1) by (auto simp: butlast_append)
    show "mp_succ (mll_pt s' k) = ((succs s)(w := -1)) k" "mp_pred (mll_pt s' k) = mp_pred (mll_pt s k)" if "k \<in> set (ys @ [w])" for k
      using that D(3) pt(1) by auto
  qed (use D(3,4,7) pt(2) in auto)
  moreover have "mll_nodes s' (ys @ [w]) = mll_nodes s (ys @ [w])"
    by (rule nodes_links) (use D(3) pt in auto)
  ultimately show ?thesis using pt by simp
qed

lemma case_3_6:
  assumes c: "mll_chain s (ys @ [i])" and s': "del_case_3_6 E i h s = (r, s')"
  shows "r = h \<and> mll_chain s' (ys @ [i]) \<and> mll_nodes s' (ys @ [i]) = mll_nodes s ys @ [(smcg (mll_pt s i), svid (mll_pt s i))]"
proof -
  note D = mll_chainD [OF c]
  have v: "0 \<le> i" "i < int (mll_ts s)" using D(4) by auto
  have pt: "mll_pt s' = (mll_pt s)(i := second_to_first (mll_pt s i))" "mll_ts s' = mll_ts s" "r = h"
    using s' v by (auto simp: del_case_3_6_def pt_upd_valid)
  have "mll_chain s' (ys @ [i])"
    by (rule mll_chain_content [OF c]) (use D(3,6) pt in auto)
  moreover have "mll_nodes s' ys = mll_nodes s ys" by (rule nodes_links) (use D(3) pt in auto)
  ultimately show ?thesis using pt by simp
qed

lemma case_9:
  assumes c: "mll_chain s (ys @ [i])" and s': "del_case_9 E i h s = (r, s')"
  shows "r = h \<and> mll_chain s' (ys @ [i]) \<and> mll_nodes s' (ys @ [i]) = mll_nodes s ys @ [(fmcg (mll_pt s i), fvid (mll_pt s i))]"
proof -
  note D = mll_chainD [OF c]
  have v: "0 \<le> i" "i < int (mll_ts s)" using D(4) by auto
  have pt: "mll_pt s' = (mll_pt s)(i := drop_second (mll_pt s i))" "mll_ts s' = mll_ts s" "r = h"
    using s' v by (auto simp: del_case_9_def pt_upd_valid)
  have "mll_chain s' (ys @ [i])"
    by (rule mll_chain_content [OF c]) (use D(3,6) pt in auto)
  moreover have "mll_nodes s' ys = mll_nodes s ys" by (rule nodes_links) (use D(3) pt in auto)
  ultimately show ?thesis using pt by simp
qed

text \<open>The head goes to the end (4, 10).\<close>

lemma in_butlast: "k \<in> set xs \<Longrightarrow> k \<noteq> last xs \<Longrightarrow> k \<in> set (butlast xs)"
  by (cases xs rule: rev_cases) auto

lemma mll_chain_full: "mll_chain s xs \<Longrightarrow> k \<in> set xs \<Longrightarrow> k \<noteq> last xs \<Longrightarrow> svid (mll_pt s k) \<noteq> 0"
  using mll_chainD(6) [OF _ in_butlast] by blast

lemma head_to_end:
  assumes c: "mll_chain s (i # zs)" and ne: "zs \<noteq> []" and full: "svid (mll_pt s (last zs)) \<noteq> 0"
    and pt: "\<And>k. k \<in> set zs \<Longrightarrow> mp_succ (mll_pt s' k) = (if k = last zs then i else mp_succ (mll_pt s k))"
      "\<And>k. k \<in> set zs \<Longrightarrow> mp_pred (mll_pt s' k) = (if k = hd zs then mp_pred (mll_pt s i) else mp_pred (mll_pt s k))"
      "\<And>k. k \<in> set zs \<Longrightarrow> pair_nodes (mll_pt s' k) = pair_nodes (mll_pt s k) \<and> svid (mll_pt s' k) = svid (mll_pt s k)"
      "mp_succ (mll_pt s' i) = -1" "mp_pred (mll_pt s' i) = last zs" and ts: "mll_ts s' = mll_ts s"
  shows "mll_chain s' (zs @ [i]) \<and> mll_nodes s' (zs @ [i]) = mll_nodes s zs @ pair_nodes (mll_pt s' i)"
proof -
  note D = mll_chainD [OF c]
  have f: "fwd (succs s) zs (-1)" using D(5) by simp
  obtain z zs' where z: "zs = z # zs'" using ne by (cases zs) auto
  have b: "bwd ((preds s)(z := mp_pred (mll_pt s i))) (mp_pred (mll_pt s i)) zs"
    using D(8) D(3) by (simp add: z)
  have sv: "svid (mll_pt s k) \<noteq> 0" if "k \<in> set zs" for k
    using mll_chain_full [OF c, of k] full ne that D(3) by (cases "k = last zs") auto
  have "mll_chain s' (zs @ [i])"
  proof (rule mll_chainI)
    show "fwd ((succs s)(i := -1, last zs := i)) (zs @ [i]) (-1)" by (rule fwd_move_end [OF f _ _ ne]) (use D(3) in auto)
    show "bwd ((preds s)(z := mp_pred (mll_pt s i), i := last zs)) (mp_pred (mll_pt s i)) (zs @ [i])"
      by (rule bwd_move_end [OF b _ ne]) (use D(3) in auto)
    show "svid (mll_pt s' k) \<noteq> 0" if "k \<in> set (butlast (zs @ [i]))" for k using that sv [of k] pt(3) [of k] by simp
    show "mp_succ (mll_pt s' k) = ((succs s)(i := -1, last zs := i)) k" if "k \<in> set (zs @ [i])" for k
      using that D(3) pt(1) [of k] pt(4) ne by auto
    show "mp_pred (mll_pt s' k) = ((preds s)(z := mp_pred (mll_pt s i), i := last zs)) k" if "k \<in> set (zs @ [i])" for k
      using that D(3) pt(2) [of k] pt(5) by (auto simp: z)
  qed (use D(3,4,7) ts in auto)
  moreover have "mll_nodes s' zs = mll_nodes s zs" by (rule nodes_links) (use pt in auto)
  ultimately show ?thesis by simp
qed

text \<open>The head goes, its other node completes the tail (5, 11).\<close>

lemma nodes_last:
  assumes ne: "zs \<noteq> []" and d: "distinct zs" and x: "pair_nodes (mll_pt s' (last zs)) = pair_nodes (mll_pt s (last zs)) @ [x]"
    and same: "\<And>k. k \<in> set zs \<Longrightarrow> k \<noteq> last zs \<Longrightarrow> pair_nodes (mll_pt s' k) = pair_nodes (mll_pt s k)"
  shows "mll_nodes s' zs = mll_nodes s zs @ [x]"
proof -
  obtain ys l where z: "zs = ys @ [l]" using ne by (metis rev_exhaust)
  have "mll_nodes s' ys = mll_nodes s ys" by (rule nodes_links) (use same d z in auto)
  with x z show ?thesis by simp
qed

lemma drop_head:
  assumes c: "mll_chain s (i # zs)" and ne: "zs \<noteq> []"
    and pt: "\<And>k. k \<in> set zs \<Longrightarrow> mp_succ (mll_pt s' k) = mp_succ (mll_pt s k)"
      "\<And>k. k \<in> set zs \<Longrightarrow> mp_pred (mll_pt s' k) = (if k = hd zs then mp_pred (mll_pt s i) else mp_pred (mll_pt s k))"
      "\<And>k. k \<in> set zs \<Longrightarrow> k \<noteq> last zs \<Longrightarrow> pair_nodes (mll_pt s' k) = pair_nodes (mll_pt s k) \<and> svid (mll_pt s' k) = svid (mll_pt s k)"
    and x: "pair_nodes (mll_pt s' (last zs)) = pair_nodes (mll_pt s (last zs)) @ [x]" and ts: "mll_ts s' = mll_ts s"
  shows "mll_chain s' zs \<and> mll_nodes s' zs = mll_nodes s zs @ [x]"
proof -
  note D = mll_chainD [OF c]
  obtain z zs' where z: "zs = z # zs'" using ne by (cases zs) auto
  have b: "bwd ((preds s)(z := mp_pred (mll_pt s i))) (mp_pred (mll_pt s i)) zs"
    using D(8) D(3) by (simp add: z)
  have sv: "svid (mll_pt s' k) \<noteq> 0" if k: "k \<in> set (butlast zs)" for k
  proof -
    have "k \<in> set zs" "k \<noteq> last zs" using k ne D(3) by (cases zs rule: rev_cases; auto)+
    with pt(3) mll_chain_full [OF c, of k] ne show ?thesis by simp
  qed
  have "mll_chain s' zs"
    by (rule mll_chainI [where p = "mp_pred (mll_pt s i)" and S = "succs s" and P = "(preds s)(z := mp_pred (mll_pt s i))"])
      (use D pt ts sv b z in auto)
  moreover have "mll_nodes s' zs = mll_nodes s zs @ [x]" by (rule nodes_last [OF ne]) (use D(3) x pt in auto)
  ultimately show ?thesis by simp
qed

text \<open>A middle pair goes (13; 8 but for the back link).\<close>

lemma drop_middle:
  assumes c: "mll_chain s (ys @ w # i # zs)" and ne: "zs \<noteq> []"
    and pt: "\<And>k. k \<in> set (ys @ w # zs) \<Longrightarrow> mp_succ (mll_pt s' k) = (if k = w then mp_succ (mll_pt s i) else mp_succ (mll_pt s k))"
      "\<And>k. k \<in> set (ys @ w # zs) \<Longrightarrow> k \<noteq> last zs \<Longrightarrow>
         pair_nodes (mll_pt s' k) = pair_nodes (mll_pt s k) \<and> svid (mll_pt s' k) = svid (mll_pt s k)"
    and x: "pair_nodes (mll_pt s' (last zs)) = pair_nodes (mll_pt s (last zs)) @ [x]" and ts: "mll_ts s' = mll_ts s"
  shows "mll_fwd s' (ys @ w # zs)" and "mll_nodes s' (ys @ w # zs) = mll_nodes s (ys @ w # zs) @ [x]"
    and "(\<And>k. k \<in> set (ys @ w # zs) \<Longrightarrow> mp_pred (mll_pt s' k) = (if k = hd zs then w else mp_pred (mll_pt s k))) \<Longrightarrow>
           mll_chain s' (ys @ w # zs)"
proof -
  note D = mll_chainD [OF c]
  let ?xs = "ys @ w # zs"
  have f: "fwd ((succs s)(w := mp_succ (mll_pt s i))) ?xs (-1)" by (rule fwd_drop_middle [OF D(5,3) ne])
  have sv: "svid (mll_pt s' k) \<noteq> 0" if k: "k \<in> set (butlast ?xs)" for k
  proof -
    have "k \<in> set ?xs" "k \<noteq> last zs" using k ne D(3) by (cases zs rule: rev_cases; auto simp: butlast_append)+
    with pt(2) [of k] mll_chain_full [OF c, of k] ne show ?thesis by auto
  qed
  show "mll_nodes s' ?xs = mll_nodes s ?xs @ [x]" by (rule nodes_last) (use ne D(3) x pt in auto)
  have "fwd (succs s') ?xs (-1)" using f pt(1) fwd_cong [of ?xs "(succs s)(w := mp_succ (mll_pt s i))" "succs s'"] by simp
  with sv D(3,4) ts show fw: "mll_fwd s' ?xs" by (auto simp: mll_fwd_def)
  assume p: "\<And>k. k \<in> set ?xs \<Longrightarrow> mp_pred (mll_pt s' k) = (if k = hd zs then w else mp_pred (mll_pt s k))"
  obtain z zs' where z: "zs = z # zs'" using ne by (cases zs) auto
  have h: "hd (ys @ w # i # zs) = hd ?xs" by (cases ys) simp_all
  have b: "bwd ((preds s)(z := w)) (mp_pred (mll_pt s (hd ?xs))) ?xs"
    using bwd_drop_middle [of "preds s" _ ys w i z zs'] D(3,8) h by (simp add: z)
  have "bwd (preds s') (mp_pred (mll_pt s (hd ?xs))) ?xs"
    using b p z bwd_cong [of ?xs "(preds s)(z := w)" "preds s'"] by simp
  moreover from this have "mp_pred (mll_pt s' (hd ?xs)) = mp_pred (mll_pt s (hd ?xs))" by (cases ys) auto
  ultimately show "mll_chain s' ?xs" using fw D(7) h by (simp add: mll_chain_def)
qed

text \<open>A middle pair goes to the end (7, 12).\<close>

lemma middle_to_end:
  assumes c: "mll_chain s (ys @ w # i # zs)" and ne: "zs \<noteq> []" and full: "svid (mll_pt s (last zs)) \<noteq> 0"
    and pt: "\<And>k. k \<in> set (ys @ w # zs) \<Longrightarrow> mp_succ (mll_pt s' k) =
        (if k = last zs then i else if k = w then mp_succ (mll_pt s i) else mp_succ (mll_pt s k))"
      "\<And>k. k \<in> set (ys @ w # zs) \<Longrightarrow> mp_pred (mll_pt s' k) = (if k = hd zs then w else mp_pred (mll_pt s k))"
      "\<And>k. k \<in> set (ys @ w # zs) \<Longrightarrow> pair_nodes (mll_pt s' k) = pair_nodes (mll_pt s k) \<and> svid (mll_pt s' k) = svid (mll_pt s k)"
      "mp_succ (mll_pt s' i) = -1" "mp_pred (mll_pt s' i) = last zs" and ts: "mll_ts s' = mll_ts s"
  shows "mll_chain s' (ys @ w # zs @ [i]) \<and> mll_nodes s' (ys @ w # zs @ [i]) = mll_nodes s (ys @ w # zs) @ pair_nodes (mll_pt s' i)"
proof -
  note D = mll_chainD [OF c]
  let ?xs = "ys @ w # zs"
  have f: "fwd ((succs s)(w := mp_succ (mll_pt s i))) ?xs (-1)" by (rule fwd_drop_middle [OF D(5,3) ne])
  obtain z zs' where z: "zs = z # zs'" using ne by (cases zs) auto
  have h: "hd (ys @ w # i # zs) = hd ?xs" by (cases ys) simp_all
  have b: "bwd ((preds s)(z := w)) (mp_pred (mll_pt s (hd ?xs))) ?xs"
    using bwd_drop_middle [of "preds s" _ ys w i z zs'] D(3,8) h by (simp add: z)
  have sv: "svid (mll_pt s k) \<noteq> 0" if "k \<in> set ?xs" for k
    using mll_chain_full [OF c, of k] full ne that D(3) by (cases "k = last zs") auto
  have l: "last ?xs = last zs" using ne by simp
  have "mll_chain s' (?xs @ [i])"
  proof (rule mll_chainI)
    show "fwd ((succs s)(w := mp_succ (mll_pt s i), i := -1, last ?xs := i)) (?xs @ [i]) (-1)"
      by (rule fwd_move_end [OF f]) (use D(3) in auto)
    show "bwd ((preds s)(z := w, i := last ?xs)) (mp_pred (mll_pt s (hd ?xs))) (?xs @ [i])"
      by (rule bwd_move_end [OF b]) (use D(3) in auto)
    show "svid (mll_pt s' k) \<noteq> 0" if "k \<in> set (butlast (?xs @ [i]))" for k
    proof -
      have "k \<in> set ?xs" using that by (simp only: butlast_snoc)
      then show ?thesis using sv [of k] pt(3) [of k] by simp
    qed
    show "mp_succ (mll_pt s' k) = ((succs s)(w := mp_succ (mll_pt s i), i := -1, last ?xs := i)) k" if "k \<in> set (?xs @ [i])" for k
    proof (cases "k = i")
      case True
      then show ?thesis using pt(4) D(3) ne by (auto simp: l)
    next
      case False
      with that have "k \<in> set ?xs" by auto
      with False show ?thesis using pt(1) [of k] by (simp add: l)
    qed
    show "mp_pred (mll_pt s' k) = ((preds s)(z := w, i := last ?xs)) k" if "k \<in> set (?xs @ [i])" for k
    proof (cases "k = i")
      case True
      then show ?thesis using pt(5) by (simp add: l)
    next
      case False
      with that have "k \<in> set ?xs" by auto
      with False show ?thesis using pt(2) [of k] by (simp add: z)
    qed
  qed (use D(3,4,7) ts h in auto)
  moreover have "mll_nodes s' ?xs = mll_nodes s ?xs" by (rule nodes_links) (use pt in auto)
  ultimately show ?thesis by simp
qed

section \<open>Deletion\<close>

text \<open>A deletion that keeps the chain, and what is left when the back link is not maintained.\<close>

definition del_ok :: "'a mll_state_scheme \<Rightarrow> 'a mll_state_scheme \<Rightarrow> int \<Rightarrow> int list \<Rightarrow> mcg \<times> vid \<Rightarrow> bool" where
  "del_ok s s' r xs x \<longleftrightarrow>
     (\<exists>xs'. r = hd xs' \<and> mll_chain s' xs' \<and> mset (mll_nodes s' xs') = mset (mll_nodes s xs) - {#x#})"

lemma del_okI:
  "r = hd xs' \<Longrightarrow> mll_chain s' xs' \<Longrightarrow> add_mset x (mset (mll_nodes s' xs')) = mset (mll_nodes s xs) \<Longrightarrow> del_ok s s' r xs x"
  unfolding del_ok_def by (metis add_mset_remove_trivial)

lemma head_facts:
  assumes c: "mll_chain s (i # zs)" and ne: "zs \<noteq> []"
  shows "mp_succ (mll_pt s i) = hd zs" and "i \<noteq> hd zs" and "i \<noteq> last zs" and "0 \<le> i" and "i < int (mll_ts s)"
    and "0 \<le> hd zs" and "hd zs < int (mll_ts s)" and "0 \<le> last zs" and "last zs < int (mll_ts s)" and "svid (mll_pt s i) \<noteq> 0"
proof -
  note D = mll_chainD [OF c]
  show "mp_succ (mll_pt s i) = hd zs" using D(5) ne by simp
  show d: "i \<noteq> hd zs" "i \<noteq> last zs" using D(3) ne by auto
  show "0 \<le> i" "i < int (mll_ts s)" "0 \<le> hd zs" "hd zs < int (mll_ts s)" "0 \<le> last zs" "last zs < int (mll_ts s)"
    using D(4) ne by auto
  show "svid (mll_pt s i) \<noteq> 0" using mll_chain_full [OF c, of i] d ne by simp
qed

lemma middle_facts:
  assumes c: "mll_chain s (ys @ w # i # zs)" and ne: "zs \<noteq> []"
  shows "mp_succ (mll_pt s i) = hd zs" and "mp_pred (mll_pt s i) = w" and "i \<noteq> hd zs" and "i \<noteq> last zs" and "i \<noteq> w"
    and "w \<noteq> hd zs" and "w \<noteq> last zs" and "0 \<le> i" and "i < int (mll_ts s)"
    and "0 \<le> hd zs" and "hd zs < int (mll_ts s)" and "0 \<le> last zs" and "last zs < int (mll_ts s)"
    and "0 \<le> w" and "w < int (mll_ts s)" and "svid (mll_pt s i) \<noteq> 0"
proof -
  note D = mll_chainD [OF c]
  show "mp_succ (mll_pt s i) = hd zs" "mp_pred (mll_pt s i) = w" using D(5,8) ne by (simp_all add: fwd_append bwd_append)
  show d: "i \<noteq> hd zs" "i \<noteq> last zs" "i \<noteq> w" "w \<noteq> hd zs" "w \<noteq> last zs" using D(3) ne by auto
  show "0 \<le> i" "i < int (mll_ts s)" "0 \<le> hd zs" "hd zs < int (mll_ts s)" "0 \<le> last zs" "last zs < int (mll_ts s)"
    "0 \<le> w" "w < int (mll_ts s)"
    using D(4) ne by auto
  show "svid (mll_pt s i) \<noteq> 0" using mll_chain_full [OF c, of i] d ne by simp
qed

lemma del_4:
  assumes c: "mll_chain s (i # zs)" and ne: "zs \<noteq> []" and full: "svid (mll_pt s (last zs)) \<noteq> 0"
    and s': "del_case_4 E i (last zs) s = (r, s')"
  shows "del_ok s s' r (i # zs) (fmcg (mll_pt s i), fvid (mll_pt s i))"
proof -
  note D = mll_chainD [OF c] and H = head_facts [OF c ne]
  from s' H have pt: "mll_pt s' = (mll_pt s)(i := (second_to_first (mll_pt s i))\<lparr>mp_succ := -1, mp_pred := last zs\<rparr>,
      hd zs := (mll_pt s (hd zs))\<lparr>mp_pred := mp_pred (mll_pt s i)\<rparr>,
      last zs := ((mll_pt s)(hd zs := (mll_pt s (hd zs))\<lparr>mp_pred := mp_pred (mll_pt s i)\<rparr>)) (last zs)\<lparr>mp_succ := i\<rparr>)"
    "mll_ts s' = mll_ts s" "r = hd zs"
    by (auto simp: del_case_4_def Let_def pt_upd_valid fun_eq_iff)
  have m: "mll_chain s' (zs @ [i]) \<and> mll_nodes s' (zs @ [i]) = mll_nodes s zs @ pair_nodes (mll_pt s' i)"
    by (rule head_to_end [OF c ne full]) (use pt H D(3) in auto)
  show ?thesis
    by (rule del_okI [where xs' = "zs @ [i]"]) (use m pt H ne in auto)
qed

lemma del_10_chain:
  assumes c: "mll_chain s (i # zs)" and ne: "zs \<noteq> []" and full: "svid (mll_pt s (last zs)) \<noteq> 0"
    and s': "del_case_10 E i (last zs) s = (r, s')"
  shows "r = hd zs \<and> mll_chain s' (zs @ [i]) \<and> mll_nodes s' (zs @ [i]) = mll_nodes s zs @ [(fmcg (mll_pt s i), fvid (mll_pt s i))]"
proof -
  note D = mll_chainD [OF c] and H = head_facts [OF c ne]
  from s' H have pt: "mll_pt s' = (mll_pt s)(i := (drop_second (mll_pt s i))\<lparr>mp_succ := -1, mp_pred := last zs\<rparr>,
      hd zs := (mll_pt s (hd zs))\<lparr>mp_pred := mp_pred (mll_pt s i)\<rparr>,
      last zs := ((mll_pt s)(hd zs := (mll_pt s (hd zs))\<lparr>mp_pred := mp_pred (mll_pt s i)\<rparr>)) (last zs)\<lparr>mp_succ := i\<rparr>)"
    "mll_ts s' = mll_ts s" "r = hd zs"
    by (auto simp: del_case_10_def Let_def pt_upd_valid fun_eq_iff drop_second_def)
  have m: "mll_chain s' (zs @ [i]) \<and> mll_nodes s' (zs @ [i]) = mll_nodes s zs @ pair_nodes (mll_pt s' i)"
    by (rule head_to_end [OF c ne full]) (use pt H D(3) in auto)
  then show ?thesis using pt H D(3) by (auto simp: pair_nodes_def drop_second_def)
qed

lemma del_10:
  assumes c: "mll_chain s (i # zs)" and ne: "zs \<noteq> []" and full: "svid (mll_pt s (last zs)) \<noteq> 0"
    and s': "del_case_10 E i (last zs) s = (r, s')"
  shows "del_ok s s' r (i # zs) (smcg (mll_pt s i), svid (mll_pt s i))"
  using del_10_chain [OF assms] head_facts(10) [OF c ne] ne
  by (intro del_okI [where xs' = "zs @ [i]"]) (auto simp: pair_nodes_def)

text \<open>The last pair with a second node added.\<close>

lemma pair_nodes_second: "svid e = 0 \<Longrightarrow> v \<noteq> 0 \<Longrightarrow> pair_nodes (e\<lparr>svid := v, smcg := g\<rparr>) = pair_nodes e @ [(g, v)]"
  by (simp add: pair_nodes_def)

lemma del_5:
  assumes c: "mll_chain s (i # zs)" and ne: "zs \<noteq> []" and part: "svid (mll_pt s (last zs)) = 0"
    and s': "del_case_5 E i (last zs) s = (r, s')"
  shows "del_ok s s' r (i # zs) (fmcg (mll_pt s i), fvid (mll_pt s i))"
proof -
  note D = mll_chainD [OF c] and H = head_facts [OF c ne]
  let ?l = "(mll_pt s (last zs))\<lparr>svid := svid (mll_pt s i), smcg := smcg (mll_pt s i)\<rparr>"
  from s' H have pt: "mll_pt s' = (mll_pt s)(i := nullnode, last zs := ?l,
      hd zs := ((mll_pt s)(last zs := ?l)) (hd zs)\<lparr>mp_pred := mp_pred (mll_pt s i)\<rparr>)"
    "mll_ts s' = mll_ts s" "r = hd zs"
    by (auto simp: del_case_5_def Let_def free_pair_def pt_upd_valid fun_eq_iff)
  have m: "mll_chain s' zs \<and> mll_nodes s' zs = mll_nodes s zs @ [(smcg (mll_pt s i), svid (mll_pt s i))]"
    by (rule drop_head [OF c ne]) (use pt H D(3) part in \<open>auto simp: pair_nodes_second\<close>)
  show ?thesis
    by (rule del_okI [where xs' = zs]) (use m pt H in auto)
qed

lemma del_11:
  assumes c: "mll_chain s (i # zs)" and ne: "zs \<noteq> []" and part: "svid (mll_pt s (last zs)) = 0" and v: "fvid (mll_pt s i) \<noteq> 0"
    and s': "del_case_11 E i (last zs) s = (r, s')"
  shows "del_ok s s' r (i # zs) (smcg (mll_pt s i), svid (mll_pt s i))"
proof -
  note D = mll_chainD [OF c] and H = head_facts [OF c ne]
  let ?l = "(mll_pt s (last zs))\<lparr>svid := fvid (mll_pt s i), smcg := fmcg (mll_pt s i)\<rparr>"
  from s' H have pt: "mll_pt s' = (mll_pt s)(i := nullnode, last zs := ?l,
      hd zs := ((mll_pt s)(last zs := ?l)) (hd zs)\<lparr>mp_pred := mp_pred (mll_pt s i)\<rparr>)"
    "mll_ts s' = mll_ts s" "r = hd zs"
    by (auto simp: del_case_11_def Let_def free_pair_def pt_upd_valid fun_eq_iff)
  have m: "mll_chain s' zs \<and> mll_nodes s' zs = mll_nodes s zs @ [(fmcg (mll_pt s i), fvid (mll_pt s i))]"
    by (rule drop_head [OF c ne]) (use pt H D(3) part v in \<open>auto simp: pair_nodes_second\<close>)
  show ?thesis
    by (rule del_okI [where xs' = zs]) (use m pt H in auto)
qed

lemma del_7:
  assumes c: "mll_chain s (ys @ w # i # zs)" and ne: "zs \<noteq> []" and full: "svid (mll_pt s (last zs)) \<noteq> 0"
    and s': "del_case_7 E i (hd (ys @ [w])) (last zs) s = (r, s')"
  shows "del_ok s s' r (ys @ w # i # zs) (fmcg (mll_pt s i), fvid (mll_pt s i))"
proof -
  note D = mll_chainD [OF c] and H = middle_facts [OF c ne]
  let ?t = "(mll_pt s)(w := (mll_pt s w)\<lparr>mp_succ := hd zs\<rparr>, hd zs := (mll_pt s (hd zs))\<lparr>mp_pred := w\<rparr>)"
  have eq: "s' = snd (del_case_7 E i (hd (ys @ [w])) (last zs) s)" "r = hd (ys @ [w])" using s' by (auto simp: del_case_7_def Let_def)
  have pt: "mll_pt s' = ?t(last zs := (?t (last zs))\<lparr>mp_succ := i\<rparr>,
      i := (second_to_first (mll_pt s i))\<lparr>mp_succ := -1, mp_pred := last zs\<rparr>)" "mll_ts s' = mll_ts s"
    unfolding eq using H by (simp_all add: del_case_7_def Let_def pt_upd_valid second_to_first_def)
  note pt = pt eq(2)
  have ni: "k \<noteq> i" if "k \<in> set (ys @ w # zs)" for k using D(3) that by auto
  have m: "mll_chain s' (ys @ w # zs @ [i]) \<and> mll_nodes s' (ys @ w # zs @ [i]) = mll_nodes s (ys @ w # zs) @ pair_nodes (mll_pt s' i)"
    by (rule middle_to_end [OF c ne full]) (use H ni in \<open>simp_all add: pt(1,2) del: Un_iff set_append\<close>)
  show ?thesis
    by (rule del_okI [where xs' = "ys @ w # zs @ [i]"])
      (use conjunct1 [OF m] arg_cong [OF conjunct2 [OF m], of mset] pt H in \<open>auto simp: hd_append\<close>)
qed

lemma del_12:
  assumes c: "mll_chain s (ys @ w # i # zs)" and ne: "zs \<noteq> []" and full: "svid (mll_pt s (last zs)) \<noteq> 0"
    and s': "del_case_12 E i (hd (ys @ [w])) (last zs) s = (r, s')"
  shows "del_ok s s' r (ys @ w # i # zs) (smcg (mll_pt s i), svid (mll_pt s i))"
proof -
  note D = mll_chainD [OF c] and H = middle_facts [OF c ne]
  let ?t = "(mll_pt s)(w := (mll_pt s w)\<lparr>mp_succ := hd zs\<rparr>, hd zs := (mll_pt s (hd zs))\<lparr>mp_pred := w\<rparr>)"
  have eq: "s' = snd (del_case_12 E i (hd (ys @ [w])) (last zs) s)" "r = hd (ys @ [w])" using s' by (auto simp: del_case_12_def Let_def)
  have pt: "mll_pt s' = ?t(last zs := (?t (last zs))\<lparr>mp_succ := i\<rparr>,
      i := (drop_second (mll_pt s i))\<lparr>mp_succ := -1, mp_pred := last zs\<rparr>)" "mll_ts s' = mll_ts s"
    unfolding eq using H by (simp_all add: del_case_12_def Let_def pt_upd_valid drop_second_def)
  note pt = pt eq(2)
  have ni: "k \<noteq> i" if "k \<in> set (ys @ w # zs)" for k using D(3) that by auto
  have m: "mll_chain s' (ys @ w # zs @ [i]) \<and> mll_nodes s' (ys @ w # zs @ [i]) = mll_nodes s (ys @ w # zs) @ pair_nodes (mll_pt s' i)"
    by (rule middle_to_end [OF c ne full]) (use H ni in \<open>simp_all add: pt(1,2) del: Un_iff set_append\<close>)
  show ?thesis
    by (rule del_okI [where xs' = "ys @ w # zs @ [i]"])
      (use conjunct1 [OF m] arg_cong [OF conjunct2 [OF m], of mset] pt H in \<open>auto simp: hd_append\<close>)
qed

lemma del_13:
  assumes c: "mll_chain s (ys @ w # i # zs)" and ne: "zs \<noteq> []" and part: "svid (mll_pt s (last zs)) = 0" and v: "fvid (mll_pt s i) \<noteq> 0"
    and s': "del_case_13 E i (hd (ys @ [w])) (last zs) s = (r, s')"
  shows "del_ok s s' r (ys @ w # i # zs) (smcg (mll_pt s i), svid (mll_pt s i))"
proof -
  note D = mll_chainD [OF c] and H = middle_facts [OF c ne]
  let ?t = "(mll_pt s)(w := (mll_pt s w)\<lparr>mp_succ := hd zs\<rparr>, hd zs := (mll_pt s (hd zs))\<lparr>mp_pred := w\<rparr>)"
  have eq: "s' = snd (del_case_13 E i (hd (ys @ [w])) (last zs) s)" "r = hd (ys @ [w])" using s' by (auto simp: del_case_13_def Let_def)
  have pt: "mll_pt s' = ?t(last zs := (?t (last zs))\<lparr>svid := fvid (mll_pt s i), smcg := fmcg (mll_pt s i)\<rparr>, i := nullnode)"
    "mll_ts s' = mll_ts s"
    unfolding eq using H by (simp_all add: del_case_13_def Let_def free_pair_def pt_upd_valid)
  note pt = pt eq(2)
  note M = drop_middle [OF c ne, where s' = s' and x = "(fmcg (mll_pt s i), fvid (mll_pt s i))"]
  have ni: "k \<noteq> i" if "k \<in> set (ys @ w # zs)" for k using D(3) that by auto
  have "mll_nodes s' (ys @ w # zs) = mll_nodes s (ys @ w # zs) @ [(fmcg (mll_pt s i), fvid (mll_pt s i))]"
    by (rule M(2)) (use H ni part v in \<open>simp_all add: pt(1,2) pair_nodes_second del: Un_iff set_append\<close>)
  moreover have "mll_chain s' (ys @ w # zs)"
    by (rule M(3)) (use H ni part v in \<open>simp_all add: pt(1,2) pair_nodes_second del: Un_iff set_append\<close>)
  ultimately show ?thesis
    by (intro del_okI [where xs' = "ys @ w # zs"]) (use pt H in \<open>auto simp: hd_append\<close>)
qed

text \<open>Case 8: only the forward links.\<close>

lemma del_8:
  assumes c: "mll_chain s (ys @ w # i # zs)" and ne: "zs \<noteq> []" and part: "svid (mll_pt s (last zs)) = 0"
    and s': "del_case_8 E i (hd (ys @ [w])) (last zs) s = (r, s')"
  shows "r = hd (ys @ w # zs) \<and> mll_fwd s' (ys @ w # zs) \<and> mp_pred (mll_pt s' (hd zs)) = i \<and>
    add_mset (fmcg (mll_pt s i), fvid (mll_pt s i)) (mset (mll_nodes s' (ys @ w # zs))) = mset (mll_nodes s (ys @ w # i # zs))"
proof -
  note D = mll_chainD [OF c] and H = middle_facts [OF c ne]
  let ?t = "(mll_pt s)(w := (mll_pt s w)\<lparr>mp_succ := hd zs\<rparr>)"
  have eq: "s' = snd (del_case_8 E i (hd (ys @ [w])) (last zs) s)" "r = hd (ys @ [w])" using s' by (auto simp: del_case_8_def Let_def)
  have pt: "mll_pt s' = ?t(last zs := (?t (last zs))\<lparr>svid := svid (mll_pt s i), smcg := smcg (mll_pt s i)\<rparr>, i := nullnode)"
    "mll_ts s' = mll_ts s"
    unfolding eq using H by (simp_all add: del_case_8_def Let_def free_pair_def pt_upd_valid)
  note pt = pt eq(2)
  note M = drop_middle [OF c ne, where s' = s' and x = "(smcg (mll_pt s i), svid (mll_pt s i))"]
  have ni: "k \<noteq> i" if "k \<in> set (ys @ w # zs)" for k using D(3) that by auto
  have "mll_nodes s' (ys @ w # zs) = mll_nodes s (ys @ w # zs) @ [(smcg (mll_pt s i), svid (mll_pt s i))]"
    by (rule M(2)) (use pt H D(3) part in \<open>auto simp: pair_nodes_second\<close>)
  moreover have "mll_fwd s' (ys @ w # zs)"
    by (rule M(1)) (use pt H D(3) part in \<open>auto simp: pair_nodes_second\<close>)
  moreover have "mp_pred (mll_pt s (hd zs)) = i" using D(8) ne by (cases zs) (simp_all add: bwd_append)
  ultimately show ?thesis using pt H by (auto simp: hd_append)
qed

text \<open>The first pair that holds the node.\<close>

lemma find_first:
  assumes "find P xs = Some i" shows "\<exists>ys zs. xs = ys @ i # zs \<and> P i \<and> (\<forall>y \<in> set ys. \<not> P y)"
  using assms
proof (induction xs)
  case (Cons x xs)
  show ?case
  proof (cases "P x")
    case True
    with Cons.prems show ?thesis by (intro exI [of _ "[]"] exI [of _ xs]) simp
  next
    case False
    with Cons obtain ys zs where "xs = ys @ i # zs" "P i" "\<forall>y \<in> set ys. \<not> P y" by auto
    with False show ?thesis by (intro exI [of _ "x # ys"] exI [of _ zs]) simp
  qed
qed simp

text \<open>The deletions that go through case 8: the node is the first of a pair between two others and
  the tail is incomplete.\<close>

definition back_link_lost :: "'a mll_state_scheme \<Rightarrow> int list \<Rightarrow> mcg \<times> vid \<Rightarrow> bool" where
  "back_link_lost s xs x \<longleftrightarrow>
     (\<exists>ys i zs. xs = ys @ i # zs \<and> ys \<noteq> [] \<and> zs \<noteq> [] \<and> svid (mll_pt s (last zs)) = 0 \<and>
        (fmcg (mll_pt s i), fvid (mll_pt s i)) = x \<and> x \<notin> set (mll_nodes s ys))"

lemma do_del_last:
  assumes c: "mll_chain s (ys @ [i])" and x: "(g, v) \<in> set (pair_nodes (mll_pt s i))" and v: "v \<noteq> 0"
    and len: "ys \<noteq> [] \<or> svid (mll_pt s i) \<noteq> 0" and s': "do_del_node E i g v (hd (ys @ [i])) s = (r, s')"
  shows "del_ok s s' r (ys @ [i]) (g, v)"
proof -
  note D = mll_chainD [OF c]
  have fl: "find_last_pair (mll_ts s) s i = Some i"
    using find_last_pair_chain [of s "[i]" "mll_ts s"] D(4) [of i] D(5) by (simp add: fwd_append)
  have su: "mp_succ (mll_pt s i) = -1" using D(5) by (simp add: fwd_append)
  consider (first) "fvid (mll_pt s i) = v" "fmcg (mll_pt s i) = g" "svid (mll_pt s i) \<noteq> 0"
    | (only) "fvid (mll_pt s i) = v" "fmcg (mll_pt s i) = g" "svid (mll_pt s i) = 0"
    | (second) "\<not> (fvid (mll_pt s i) = v \<and> fmcg (mll_pt s i) = g)" "smcg (mll_pt s i) = g" "svid (mll_pt s i) = v"
    using x by (auto simp: pair_nodes_def split: if_splits)
  then show ?thesis
  proof cases
    case first
    then have "del_case_3_6 E i (hd (ys @ [i])) s = (r, s')"
      using s' fl su by (simp add: do_del_node_def Let_def split: if_splits)
    from case_3_6 [OF c this] first show ?thesis by (intro del_okI [where xs' = "ys @ [i]"]) auto
  next
    case only
    then obtain ys' w where ys: "ys = ys' @ [w]" using len by (metis rev_exhaust)
    have "mp_pred (mll_pt s i) = w" "0 \<le> w" using D(8,4) by (auto simp: ys bwd_append)
    then have "del_case_2 E i (hd (ys @ [i])) s = (r, s')"
      using s' fl su only by (simp add: do_del_node_def Let_def)
    from case_2 [of s ys' w i, OF _ this] c have "r = hd (ys @ [i])" "mll_chain s' ys" "mll_nodes s' ys = mll_nodes s ys"
      by (simp_all add: ys)
    then show ?thesis using only by (intro del_okI [where xs' = ys]) (auto simp: ys hd_append)
  next
    case second
    then have "del_case_9 E i (hd (ys @ [i])) s = (r, s')"
      using s' fl su by (auto simp: do_del_node_def Let_def split: if_splits)
    from case_9 [OF c this] second v show ?thesis by (intro del_okI [where xs' = "ys @ [i]"]) auto
  qed
qed

lemma do_del_inner:
  assumes c: "mll_chain s (ys @ i # zs)" and ne: "zs \<noteq> []" and x: "(g, v) \<in> set (pair_nodes (mll_pt s i))"
    and vids: "fvid (mll_pt s i) \<noteq> 0"
    and s': "do_del_node E i g v (hd (ys @ [i])) s = (r, s')"
  shows "(fvid (mll_pt s i) = v \<and> fmcg (mll_pt s i) = g \<and> ys \<noteq> [] \<and> svid (mll_pt s (last zs)) = 0 \<longrightarrow>
        del_case_8 E i (hd ys) (last zs) s = (r, s')) \<and>
    (\<not> (fvid (mll_pt s i) = v \<and> fmcg (mll_pt s i) = g \<and> ys \<noteq> [] \<and> svid (mll_pt s (last zs)) = 0) \<longrightarrow>
        del_ok s s' r (ys @ i # zs) (g, v))"
proof -
  note D = mll_chainD [OF c]
  have i: "i \<noteq> last zs" using D(3) ne by auto
  have sv: "svid (mll_pt s i) \<noteq> 0" using mll_chain_full [OF c, of i] i ne by simp
  have f: "fwd (succs s) (i # zs) (-1)" using D(5) by (simp add: fwd_append)
  have len: "length (i # zs) \<le> mll_ts s" using chain_length [OF D(1)] by simp
  have fl: "find_last_pair (mll_ts s) s i = Some (last zs)"
    using find_last_pair_chain [OF f _ _ len] D(4) ne by force
  have su: "0 \<le> mp_succ (mll_pt s i)" using f D(4) ne by (cases zs) auto
  have nd: "(fvid (mll_pt s i) = v \<and> fmcg (mll_pt s i) = g) \<or> smcg (mll_pt s i) = g \<and> svid (mll_pt s i) = v"
    using x sv by (auto simp: pair_nodes_def)
  note go = s' [unfolded do_del_node_def fl Let_def option.case]
  show ?thesis
  proof (cases ys rule: rev_cases)
    case Nil
    then have p: "mp_pred (mll_pt s i) < 0" using D(7) by simp
    note c' = c [unfolded Nil append_Nil]
    show ?thesis
    proof (cases "svid (mll_pt s (last zs)) = 0")
      case True
      with go p su sv Nil nd del_5 [OF c' ne True, of E r s'] del_11 [OF c' ne True vids, of E r s']
      show ?thesis by (auto split: if_splits)
    next
      case False
      with go p su sv Nil nd del_4 [OF c' ne False, of E r s'] del_10 [OF c' ne False, of E r s']
      show ?thesis by (auto split: if_splits)
    qed
  next
    case (snoc ys' w)
    note c' = c [unfolded snoc append_assoc append_Cons append_Nil]
    have p: "\<not> mp_pred (mll_pt s i) < 0" using middle_facts(2,14) [OF c' ne] by simp
    have h: "hd (ys @ [i]) = hd (ys' @ [w])" "hd ys = hd (ys' @ [w])" by (simp_all add: snoc hd_append)
    show ?thesis
    proof (cases "svid (mll_pt s (last zs)) = 0")
      case True
      with go p su sv snoc nd h del_13 [OF c' ne True vids, of E r s'] show ?thesis by (auto split: if_splits)
    next
      case False
      with go p su sv snoc nd h del_7 [OF c' ne False, of E r s'] del_12 [OF c' ne False, of E r s']
      show ?thesis by (auto split: if_splits)
    qed
  qed
qed

lemma del_node_spec:
  assumes c: "mll_chain s xs" and x: "(g, v) \<in> set (mll_nodes s xs)" and vids: "0 \<notin> snd ` set (mll_nodes s xs)"
    and len: "mll_nodes s xs \<noteq> [(g, v)]" and s': "del_node E (hd xs) g v s = (r, s')"
  shows "\<exists>xs'. r = hd xs' \<and> mll_fwd s' xs' \<and> mset (mll_nodes s' xs') = mset (mll_nodes s xs) - {#(g, v)#} \<and>
      (mll_chain s' xs' \<or> back_link_lost s xs (g, v))"
proof -
  note D = mll_chainD [OF c]
  have v: "v \<noteq> 0" using x vids by force
  have m1: "-1 \<notin> set xs" using D(4) by force
  obtain i where i: "find (\<lambda>i. (g, v) \<in> set (pair_nodes (mll_pt s i))) xs = Some i"
    using x by (cases "find (\<lambda>i. (g, v) \<in> set (pair_nodes (mll_pt s i))) xs") (auto simp: find_None_iff mll_nodes_def)
  obtain ys zs where xs: "xs = ys @ i # zs" and gi: "(g, v) \<in> set (pair_nodes (mll_pt s i))"
      and before: "\<forall>y \<in> set ys. (g, v) \<notin> set (pair_nodes (mll_pt s y))"
    using find_first [OF i] by blast
  have "find_pair (mll_ts s) s (hd xs) g v = Some i"
    using find_pair_chain [OF D(5) m1 D(2) chain_length [OF D(1)] v] i by simp
  moreover have "i \<noteq> -1" using m1 xs by auto
  ultimately have go: "do_del_node E i g v (hd (ys @ [i])) s = (r, s')"
    using s' by (simp add: del_node_def xs hd_append split: if_splits)
  have ok: ?thesis if "del_ok s s' r xs (g, v)" using that by (auto simp: del_ok_def mll_chain_def)
  show ?thesis
  proof (cases "zs = []")
    case True
    have "ys \<noteq> [] \<or> svid (mll_pt s i) \<noteq> 0" using len gi by (auto simp: xs True pair_nodes_def split: if_splits)
    from do_del_last [OF _ gi v this go] c ok show ?thesis by (simp add: xs True)
  next
    case False
    have fv: "fvid (mll_pt s i) \<noteq> 0" using vids by (auto simp: xs pair_nodes_def)
    note I = do_del_inner [OF c [unfolded xs] False gi fv go]
    show ?thesis
    proof (cases "fvid (mll_pt s i) = v \<and> fmcg (mll_pt s i) = g \<and> ys \<noteq> [] \<and> svid (mll_pt s (last zs)) = 0")
      case True
      then obtain ys' w where ys: "ys = ys' @ [w]" by (metis rev_exhaust)
      have lost: "back_link_lost s xs (g, v)"
        unfolding back_link_lost_def using True False before
        by (intro exI [of _ ys] exI [of _ i] exI [of _ zs]) (simp add: xs mll_nodes_def)
      have "del_case_8 E i (hd (ys' @ [w])) (last zs) s = (r, s')" using I True by (simp add: ys)
      from del_8 [of s ys' w i zs, OF _ False _ this] c True
      have D8: "r = hd (ys' @ w # zs)" "mll_fwd s' (ys' @ w # zs)"
        "add_mset (g, v) (mset (mll_nodes s' (ys' @ w # zs))) = mset (mll_nodes s xs)"
        by (auto simp: xs ys)
      have "mset (mll_nodes s' (ys' @ w # zs)) = mset (mll_nodes s xs) - {#(g, v)#}"
        unfolding D8(3) [symmetric] by simp
      with D8(1,2) lost show ?thesis by blast
    qed (use I ok in \<open>simp add: xs\<close>)
  qed
qed

end
