(* ===== verification/Mll_Props.thy ===== *)
theory Mll_Props
  imports Mll_Chain
begin

text \<open>
  The multicast linked list against the hardware: what the hardware replicates to when it walks
  the pairs, that adding a node keeps it in step with the software chain, and the properties of
  the list as a whole.
\<close>

section \<open>What the hardware sees\<close>

fun hw_walk :: "nat \<Rightarrow> (int \<Rightarrow> mll_hw_pair option) \<Rightarrow> int \<Rightarrow> (mcg \<times> vid) list option" where
  "hw_walk 0 m i = None"
| "hw_walk (Suc n) m i =
     (case m i of
        None \<Rightarrow> None
      | Some p \<Rightarrow>
          let a = (nd_vidx (firstMllNode p), nd_vlan (firstMllNode p));
              b = (nd_vidx (secondMllNode p), nd_vlan (secondMllNode p)) in
          if nd_last (firstMllNode p) then Some [a]
          else if nd_last (secondMllNode p) then Some [a, b]
          else map_option (\<lambda>r. a # b # r) (hw_walk n m (nextPointer p)))"

text \<open>A hardware pair that agrees with the entry of the software table.\<close>

definition pair_hw :: "mll_pair \<Rightarrow> mll_hw_pair \<Rightarrow> bool" where
  "pair_hw e p \<longleftrightarrow>
     nd_vidx (firstMllNode p) = fmcg e \<and> nd_vlan (firstMllNode p) = fvid e \<and> nd_last (firstMllNode p) = (svid e = 0) \<and>
     (svid e \<noteq> 0 \<longrightarrow>
        nd_vidx (secondMllNode p) = smcg e \<and> nd_vlan (secondMllNode p) = svid e \<and>
        nd_last (secondMllNode p) = (mp_succ e = -1) \<and> (mp_succ e \<noteq> -1 \<longrightarrow> nextPointer p = mp_succ e))"

definition mll_synced :: "env \<Rightarrow> 'a mll_state_scheme \<Rightarrow> int list \<Rightarrow> bool" where
  "mll_synced E s xs \<longleftrightarrow>
     (\<forall>i \<in> set xs. \<forall>d < e_ndevs E. \<exists>p. mll_pair_at (hw s) d i = Some p \<and> pair_hw (mll_pt s i) p)"

text \<open>The reads of the library return what was last written to the first device, and writes
  succeed.\<close>

definition mll_library_ok :: "env \<Rightarrow> bool" where
  "mll_library_ok E \<longleftrightarrow> 0 < e_ndevs E \<and>
     (\<forall>h i p. mll_pair_at h 0 i = Some p \<longrightarrow> e_mll_read E h i = p) \<and> (\<forall>h x. e_gt E h x = GT_OK)"

lemma hw_walk_synced:
  assumes "d < e_ndevs E" and "xs \<noteq> []" and "fwd (succs s) xs (-1)" and "-1 \<notin> set xs"
    and "\<forall>i \<in> set (butlast xs). svid (mll_pt s i) \<noteq> 0" and "mll_synced E s xs"
  shows "hw_walk (length xs) (mll_pair_at (hw s) d) (hd xs) = Some (mll_nodes s xs)"
  using assms(2-6)
proof (induction xs)
  case (Cons i xs)
  obtain p where p: "mll_pair_at (hw s) d i = Some p" "pair_hw (mll_pt s i) p"
    using Cons.prems(5) assms(1) by (auto simp: mll_synced_def)
  show ?case
  proof (cases "xs = []")
    case True
    with Cons.prems(2) p show ?thesis by (auto simp: pair_hw_def pair_nodes_def Let_def)
  next
    case False
    then have "hw_walk (length xs) (mll_pair_at (hw s) d) (hd xs) = Some (mll_nodes s xs)"
      using Cons by (intro Cons.IH) (auto simp: mll_synced_def)
    moreover have "mp_succ (mll_pt s i) = hd xs" "hd xs \<noteq> -1" "svid (mll_pt s i) \<noteq> 0"
      using Cons.prems hd_in_set [OF False] False by (auto simp del: hd_in_set dest: arg_cong [where f = "\<lambda>x. x \<in> set xs"])
    ultimately show ?thesis using p by (simp add: pair_hw_def Let_def)
  qed
qed simp

lemma mll_pair_at_writes:
  "mll_pair_at (dev_writes E (\<lambda>d. Mc (MllPairWrite d k v)) @ h) d i =
     (if d < e_ndevs E \<and> i = k then Some v else mll_pair_at h d i)"
proof -
  have "mll_pair_at (rev (map (\<lambda>d. Mc (MllPairWrite d k v)) ds) @ h) d i =
      (if d \<in> set ds \<and> i = k then Some v else mll_pair_at h d i)" for ds
    by (induction ds arbitrary: h) (auto simp: mll_write_def)
  then show ?thesis by (simp add: dev_writes_def)
qed

section \<open>Adding\<close>

definition mll_pool :: "'a mll_state_scheme \<Rightarrow> bool" where
  "mll_pool s \<longleftrightarrow> 0 < mll_ts s \<and> mll_sp s \<le> mll_ts s \<and> inj_on (mll_stk s) {mll_sp s ..< mll_ts s} \<and>
     mll_stk s ` {mll_sp s ..< mll_ts s} \<subseteq> {0 ..< int (mll_ts s)}"

definition mll_free :: "'a mll_state_scheme \<Rightarrow> int set" where
  "mll_free s = mll_stk s ` {mll_sp s ..< mll_ts s}"

lemma mll_write_all_ok:
  "mll_library_ok E \<Longrightarrow> mll_write_all E i p s = (GT_OK, s\<lparr>hw := dev_writes E (\<lambda>d. Mc (MllPairWrite d i p)) @ hw s\<rparr>)"
  unfolding mll_write_all_def using for_each_dev_eq [of E "\<lambda>d. Mc (MllPairWrite d i p)" s]
    for_each_dev_ok [of E "\<lambda>d. Mc (MllPairWrite d i p)" s] by (simp add: mll_library_ok_def)

lemma mll_read_ok:
  "mll_library_ok E \<Longrightarrow> mll_pair_at (hw s) 0 i = Some p \<Longrightarrow> mll_read E i s = (p, s\<lparr>hw := Mc (MllPairRead 0 i) # hw s\<rparr>)"
  by (simp add: mll_library_ok_def mll_read_def crp_def emit_def)

lemma pair_at_read [simp]: "mll_pair_at (Mc (MllPairRead d i) # h) = mll_pair_at h"
  by (simp add: fun_eq_iff mll_write_def)

text \<open>Taking a free pair.\<close>

lemma create_pair_ok:
  assumes E: "mll_library_ok E" and pool: "mll_pool s" and room: "mll_sp s + 1 < mll_ts s"
  shows "\<exists>i. i \<in> mll_free s \<and> 0 \<le> i \<and> i < int (mll_ts s) \<and>
    create_pair E pred g v s = (i, s\<lparr>hw := dev_writes E (\<lambda>d. Mc (MllPairWrite d i (new_hw_pair g v))) @ hw s,
      mll_sp := mll_sp s + 1,
      mll_pt := (mll_pt s)(i := \<lparr>mp_pred = pred, mp_succ = -1, fvid = v, fmcg = g, svid = 0, smcg = 0\<rparr>)\<rparr>)"
proof -
  let ?i = "mll_stk s (mll_sp s)"
  have i: "?i \<in> mll_free s" using room by (simp add: mll_free_def)
  then have r: "0 \<le> ?i" "?i < int (mll_ts s)" using pool by (auto simp: mll_pool_def mll_free_def)
  show ?thesis using i r E room
    by (intro exI [of _ ?i]) (simp add: create_pair_def mll_get_def mll_write_all_ok pt_upd_valid)
qed

lemma mll_pool_take:
  "mll_pool s \<Longrightarrow> mll_sp s < mll_ts s \<Longrightarrow> mll_sp t = mll_sp s + 1 \<Longrightarrow> mll_ts t = mll_ts s \<Longrightarrow> mll_stk t = mll_stk s \<Longrightarrow>
     mll_pool t \<and> mll_free t = mll_free s - {mll_stk s (mll_sp s)}"
proof -
  assume a: "mll_pool s" "mll_sp s < mll_ts s" "mll_sp t = mll_sp s + 1" "mll_ts t = mll_ts s" "mll_stk t = mll_stk s"
  have "{mll_sp s ..< mll_ts s} = insert (mll_sp s) {mll_sp t ..< mll_ts t}" using a by auto
  then show ?thesis using a by (auto simp: mll_pool_def mll_free_def inj_on_insert)
qed

text \<open>The second node of the last pair.\<close>

lemma insert_second_ok:
  assumes E: "mll_library_ok E" and c: "mll_chain s (ys @ [l])" and sync: "mll_synced E s (ys @ [l])"
    and part: "svid (mll_pt s l) = 0" and v: "v \<noteq> 0" and s': "s' = insert_second_node E l g v s"
  shows "mll_chain s' (ys @ [l]) \<and> mll_synced E s' (ys @ [l]) \<and> mll_nodes s' (ys @ [l]) = mll_nodes s (ys @ [l]) @ [(g, v)] \<and>
    mll_sp s' = mll_sp s \<and> mll_stk s' = mll_stk s \<and> mll_ts s' = mll_ts s \<and> (\<forall>i. i \<noteq> l \<longrightarrow> mll_pt s' i = mll_pt s i)"
proof -
  note D = mll_chainD [OF c]
  have l: "0 \<le> l" "l < int (mll_ts s)" using D(4) by auto
  have E0: "0 < e_ndevs E" using E by (simp add: mll_library_ok_def)
  obtain p where p: "mll_pair_at (hw s) 0 l = Some p" "pair_hw (mll_pt s l) p" using sync E0 by (force simp: mll_synced_def)
  let ?q = "(p\<lparr>secondMllNode := firstMllNode p\<rparr>)\<lparr>firstMllNode := (firstMllNode p)\<lparr>nd_last := False\<rparr>,
    secondMllNode := (firstMllNode p)\<lparr>nd_vidx := g, nd_vlan := v, nd_last := True\<rparr>\<rparr>"
  have s'': "s' = s\<lparr>hw := dev_writes E (\<lambda>d. Mc (MllPairWrite d l ?q)) @ Mc (MllPairRead 0 l) # hw s,
      mll_pt := (mll_pt s)(l := (mll_pt s l)\<lparr>svid := v, smcg := g\<rparr>)\<rparr>"
    unfolding s' using l p by (simp add: insert_second_node_def mll_read_ok [OF E p(1)] mll_write_all_ok [OF E] pt_upd_valid)
  have su: "mp_succ (mll_pt s l) = -1" using D(5) by (simp add: fwd_append)
  have "mll_chain s' (ys @ [l])"
    by (rule mll_chain_content [OF c]) (use D(3,6) in \<open>auto simp: s''\<close>)
  moreover have "mll_synced E s' (ys @ [l])"
    using sync p(2) part su D(3) v
    by (auto simp: s'' mll_synced_def mll_pair_at_writes pair_hw_def)
  moreover have "mll_nodes s' ys = mll_nodes s ys" by (rule nodes_links) (use D(3) in \<open>auto simp: s''\<close>)
  ultimately show ?thesis using part v by (simp add: s'' pair_nodes_second)
qed

text \<open>A new last pair.\<close>

lemma append_pair_ok:
  assumes E: "mll_library_ok E" and c: "mll_chain s (ys @ [l])" and sync: "mll_synced E s (ys @ [l])"
    and full: "svid (mll_pt s l) \<noteq> 0" and i: "0 \<le> i" "i < int (mll_ts s)" "i \<notin> set (ys @ [l])"
    and t: "t = s\<lparr>hw := dev_writes E (\<lambda>d. Mc (MllPairWrite d i (new_hw_pair g v))) @ hw s,
      mll_sp := k, mll_pt := (mll_pt s)(i := \<lparr>mp_pred = l, mp_succ = -1, fvid = v, fmcg = g, svid = 0, smcg = 0\<rparr>)\<rparr>"
    and s': "s' = pair_set_next_pair E l i t"
  shows "mll_chain s' (ys @ [l, i]) \<and> mll_synced E s' (ys @ [l, i]) \<and> mll_nodes s' (ys @ [l, i]) = mll_nodes s (ys @ [l]) @ [(g, v)] \<and>
    mll_sp s' = k \<and> mll_stk s' = mll_stk s \<and> mll_ts s' = mll_ts s \<and> (\<forall>j. j \<notin> {l, i} \<longrightarrow> mll_pt s' j = mll_pt s j)"
proof -
  note D = mll_chainD [OF c]
  have l: "0 \<le> l" "l < int (mll_ts s)" "l \<noteq> i" using D(4) i by auto
  have E0: "0 < e_ndevs E" using E by (simp add: mll_library_ok_def)
  obtain p where p: "mll_pair_at (hw s) 0 l = Some p" "pair_hw (mll_pt s l) p" using sync E0 by (force simp: mll_synced_def)
  have pt: "mll_pair_at (hw t) 0 l = Some p" using p l by (simp add: t mll_pair_at_writes)
  have tt: "mll_ts t = mll_ts s" by (simp add: t)
  let ?q = "p\<lparr>secondMllNode := (secondMllNode p)\<lparr>nd_last := False\<rparr>, nextPointer := i\<rparr>"
  have s'': "s' = t\<lparr>hw := dev_writes E (\<lambda>d. Mc (MllPairWrite d l ?q)) @ Mc (MllPairRead 0 l) # hw t,
      mll_pt := (mll_pt t)(l := (mll_pt t l)\<lparr>mp_succ := i\<rparr>)\<rparr>"
    unfolding s' using l tt by (simp add: pair_set_next_pair_def mll_read_ok [OF E pt] mll_write_all_ok [OF E] pt_upd_valid Let_def)
  have ptl: "mll_pt s' j = (if j = l then (mll_pt s l)\<lparr>mp_succ := i\<rparr>
      else if j = i then \<lparr>mp_pred = l, mp_succ = -1, fvid = v, fmcg = g, svid = 0, smcg = 0\<rparr> else mll_pt s j)" for j
    using l by (simp add: s'' t)
  have ts: "mll_ts s' = mll_ts s" by (simp add: s'' t)
  have bl: "butlast (ys @ [l, i]) = ys @ [l]" by (simp add: butlast_append)
  have "mll_chain s' (ys @ [l, i])"
  proof (rule mll_chainI)
    show "fwd ((succs s)(l := i, i := -1)) (ys @ [l, i]) (-1)" using D(3,5) i l by (auto simp: fwd_append)
    show "bwd ((preds s)(i := l)) (mp_pred (mll_pt s (hd (ys @ [l])))) (ys @ [l, i])"
      using D(8) i l by (auto simp: bwd_append)
    show "svid (mll_pt s' j) \<noteq> 0" if "j \<in> set (butlast (ys @ [l, i]))" for j
      using that full D(6) i unfolding bl by (auto simp: ptl)
    show "mp_succ (mll_pt s' j) = ((succs s)(l := i, i := -1)) j" "mp_pred (mll_pt s' j) = ((preds s)(i := l)) j"
      if "j \<in> set (ys @ [l, i])" for j
      using that l by (auto simp: ptl)
  qed (use D(3,4,7) i l ts in auto)
  moreover have "mll_synced E s' (ys @ [l, i])"
    unfolding mll_synced_def
  proof (intro ballI allI impI)
    fix j d assume j: "j \<in> set (ys @ [l, i])" and d: "d < e_ndevs E"
    have at: "mll_pair_at (hw s') d j = (if j = l then Some ?q else if j = i then Some (new_hw_pair g v) else mll_pair_at (hw s) d j)"
      using d by (simp add: s'' t mll_pair_at_writes)
    consider "j = l" | "j = i" | "j \<in> set (ys @ [l])" "j \<noteq> l" "j \<noteq> i" using j by auto
    then show "\<exists>p. mll_pair_at (hw s') d j = Some p \<and> pair_hw (mll_pt s' j) p"
    proof cases
      case 1
      with p(2) full i(1) l at show ?thesis by (auto simp: ptl pair_hw_def)
    next
      case 2
      with l at show ?thesis by (simp add: ptl pair_hw_def new_hw_pair_def Let_def)
    next
      case 3
      with sync d at show ?thesis by (auto simp: ptl mll_synced_def)
    qed
  qed
  moreover have "mll_nodes s' ys = mll_nodes s ys" by (rule nodes_links) (use D(3) i in \<open>auto simp: ptl\<close>)
  ultimately show ?thesis using l full by (simp add: ptl ts) (simp add: s'' t pair_nodes_def)
qed

lemma add_node_spec:
  assumes E: "mll_library_ok E" and pool: "mll_pool s" and room: "mll_sp s + 1 < mll_ts s" and v: "v \<noteq> 0"
    and c: "mll_chain s xs" and sync: "mll_synced E s xs" and fresh: "set xs \<inter> mll_free s = {}"
    and s': "add_node E (hd xs) g v s = (r, s')"
  shows "\<exists>xs'. r = hd xs' \<and> mll_chain s' xs' \<and> mll_synced E s' xs' \<and> mll_nodes s' xs' = mll_nodes s xs @ [(g, v)] \<and>
     mll_pool s' \<and> set xs' \<inter> mll_free s' = {} \<and> (\<forall>i. i \<notin> set xs' \<longrightarrow> mll_pt s' i = mll_pt s i)"
proof -
  note D = mll_chainD [OF c]
  obtain ys l where xs: "xs = ys @ [l]" using D(2) by (metis rev_exhaust)
  have m1: "-1 \<notin> set xs" using D(4) by force
  have fl: "find_last_pair (mll_ts s) s (hd xs) = Some l"
    using find_last_pair_chain [OF D(5) m1 D(2) chain_length [OF D(1)]] by (simp add: xs)
  have h: "\<not> hd xs < 0" using D(4) hd_in_set [OF D(2)] by force
  then have r: "r = hd xs" and go: "s' = append_node E (hd xs) g v s" using s' by (auto simp: add_node_def)
  show ?thesis
  proof (cases "svid (mll_pt s l) = 0")
    case True
    then have "s' = insert_second_node E l g v s" using go fl by (simp add: append_node_def)
    note I = insert_second_ok [OF E c [unfolded xs] sync [unfolded xs] True v this]
    have "mll_pool s' \<and> mll_free s' = mll_free s" using I pool by (simp add: mll_pool_def mll_free_def)
    with I fresh r show ?thesis by (intro exI [of _ xs]) (auto simp: xs)
  next
    case False
    obtain i where i: "i \<in> mll_free s" "0 \<le> i" "i < int (mll_ts s)"
      "create_pair E l g v s = (i, s\<lparr>hw := dev_writes E (\<lambda>d. Mc (MllPairWrite d i (new_hw_pair g v))) @ hw s,
        mll_sp := mll_sp s + 1,
        mll_pt := (mll_pt s)(i := \<lparr>mp_pred = l, mp_succ = -1, fvid = v, fmcg = g, svid = 0, smcg = 0\<rparr>)\<rparr>)"
      using create_pair_ok [OF E pool room] by blast
    have go': "s' = pair_set_next_pair E l i (s\<lparr>hw := dev_writes E (\<lambda>d. Mc (MllPairWrite d i (new_hw_pair g v))) @ hw s,
        mll_sp := mll_sp s + 1,
        mll_pt := (mll_pt s)(i := \<lparr>mp_pred = l, mp_succ = -1, fvid = v, fmcg = g, svid = 0, smcg = 0\<rparr>)\<rparr>)"
      using go fl False by (simp add: append_node_def i(4))
    have "i \<notin> set xs" using i(1) fresh by auto
    note I = append_pair_ok [OF E c [unfolded xs] sync [unfolded xs] False i(2,3) this [unfolded xs] refl go']
    have "i = mll_stk s (mll_sp s)"
      using i(4) room by (auto simp: create_pair_def mll_get_def mll_write_all_ok [OF E] split: if_splits)
    with mll_pool_take [of s s'] I pool room have "mll_pool s'" "mll_free s' = mll_free s - {i}" by auto
    with I fresh r show ?thesis by (intro exI [of _ "ys @ [l, i]"]) (auto simp: xs hd_append)
  qed
qed

lemma new_chain_spec:
  assumes E: "mll_library_ok E" and pool: "mll_pool s" and room: "mll_sp s + 1 < mll_ts s"
    and s': "add_node E (-1) g v s = (r, s')"
  shows "mll_chain s' [r] \<and> mll_synced E s' [r] \<and> mll_nodes s' [r] = [(g, v)] \<and> mll_pool s' \<and> r \<notin> mll_free s' \<and>
    mll_sp s' = mll_sp s + 1 \<and> mll_ts s' = mll_ts s"
proof -
  obtain i where i: "i \<in> mll_free s" "0 \<le> i" "i < int (mll_ts s)"
    "create_pair E (-1) g v s = (i, s\<lparr>hw := dev_writes E (\<lambda>d. Mc (MllPairWrite d i (new_hw_pair g v))) @ hw s,
      mll_sp := mll_sp s + 1,
      mll_pt := (mll_pt s)(i := \<lparr>mp_pred = -1, mp_succ = -1, fvid = v, fmcg = g, svid = 0, smcg = 0\<rparr>)\<rparr>)"
    using create_pair_ok [OF E pool room] by blast
  have r: "r = i" and s'': "s' = s\<lparr>hw := dev_writes E (\<lambda>d. Mc (MllPairWrite d i (new_hw_pair g v))) @ hw s,
      mll_sp := mll_sp s + 1,
      mll_pt := (mll_pt s)(i := \<lparr>mp_pred = -1, mp_succ = -1, fvid = v, fmcg = g, svid = 0, smcg = 0\<rparr>)\<rparr>"
    using s' i(4) by (auto simp: add_node_def)
  have "i = mll_stk s (mll_sp s)"
    using i(4) room by (auto simp: create_pair_def mll_get_def mll_write_all_ok [OF E] split: if_splits)
  with mll_pool_take [of s s'] pool room have "mll_pool s'" "i \<notin> mll_free s'" by (auto simp: s'')
  then show ?thesis using i(2,3)
    by (simp add: r mll_chain_def mll_fwd_def mll_synced_def pair_hw_def new_hw_pair_def Let_def pair_nodes_def mll_pair_at_writes)
      (simp add: s'' mll_pair_at_writes new_hw_pair_def Let_def)
qed

section \<open>Examples\<close>

text \<open>A table of eight pairs on a library that reads back what was written, and chains built in it
  by \<open>add_node\<close> alone: node \<open>n\<close> is group \<open>n\<close> in VLAN \<open>n\<close>.\<close>

definition mll_env :: env where
  "mll_env = env0\<lparr>e_mll_read := \<lambda>h i. case mll_pair_at h 0 i of Some p \<Rightarrow> p | None \<Rightarrow> e_mll_read env0 h i\<rparr>"

definition mll0 :: mll_state where
  "mll0 = snd (mll_init 8 (fib6_st.extend (fib_st.extend fib0 (fib6_st.fields (\<lambda>_. []) [])) (mll_state.fields 0 0 (\<lambda>_. 0) (\<lambda>_. nullnode))))"

definition mll_fill :: "nat \<Rightarrow> int \<times> mll_state" where
  "mll_fill n = fold (\<lambda>k (p, s). add_node mll_env p (of_nat k) (of_nat k) s) [1 ..< Suc n] (-1, mll0)"

definition mll_drop :: "nat list \<Rightarrow> int \<times> mll_state \<Rightarrow> int \<times> mll_state" where
  "mll_drop ks = fold (\<lambda>k (p, s). del_node mll_env p (of_nat k) (of_nat k) s) ks"

lemma mll_env_ok: "mll_library_ok mll_env"
  by (simp add: mll_library_ok_def mll_env_def env0_def)

lemma mll0_pool: "mll_pool mll0" "mll_sp mll0 = 0" "mll_ts mll0 = 8"
proof -
  show sp: "mll_sp mll0 = 0" and ts: "mll_ts mll0 = 8" by (simp_all add: mll0_def mll_init_def)
  have "mll_stk mll0 = int" by (simp add: mll0_def mll_init_def)
  with sp ts show "mll_pool mll0" by (auto simp: mll_pool_def)
qed

section \<open>Properties\<close>

text \<open>On every chain the two searches of the list end: \<open>find_last_pair\<close> returns the last pair and
  \<open>find_pair\<close> the first pair that holds the node, or -1, within as many steps as the table has
  pairs.\<close>

theorem mll_searches_end:
  assumes c: "mll_chain s xs" and v: "v \<noteq> 0"
  shows "find_last_pair (mll_ts s) s (hd xs) = Some (last xs) \<and>
    find_pair (mll_ts s) s (hd xs) g v =
      Some (case find (\<lambda>i. (g, v) \<in> set (pair_nodes (mll_pt s i))) xs of Some i \<Rightarrow> i | None \<Rightarrow> -1)"
proof -
  note D = mll_chainD [OF c]
  have "-1 \<notin> set xs" using D(4) by force
  then show ?thesis
    using find_last_pair_chain [OF D(5) _ D(2) chain_length [OF D(1)]] find_pair_chain [OF D(5) _ D(2) chain_length [OF D(1)] v] by blast
qed

theorem mll_searches_end_witness:
  "find_last_pair 8 (snd (mll_fill 5)) 0 = Some 2 \<and> find_pair 8 (snd (mll_fill 5)) 0 4 4 = Some 1"
proof -
  have c: "mll_chain (snd (mll_fill 5)) [0, 1, 2]" by code_simp
  have "mll_ts (snd (mll_fill 5)) = 8" by code_simp
  moreover have "find (\<lambda>i. (4, 4) \<in> set (pair_nodes (mll_pt (snd (mll_fill 5)) i))) [0, 1, 2] = Some 1" by code_simp
  ultimately show ?thesis using mll_searches_end [OF c, of 4 4] by simp
qed

text \<open>C3. \<open>add_node\<close> appends: while there is a free pair, adding to a chain that agrees with the
  hardware gives a chain with the same head whose nodes are the old ones and the new one at the
  end, touches no pair outside it and none of the free ones, and every device that walks the chain
  replicates to exactly these nodes.\<close>

theorem add_node_appends:
  assumes E: "mll_library_ok E" and pool: "mll_pool s" and room: "mll_sp s + 1 < mll_ts s" and v: "v \<noteq> 0"
    and c: "mll_chain s xs" and sync: "mll_synced E s xs" and fresh: "set xs \<inter> mll_free s = {}"
    and s': "add_node E (hd xs) g v s = (r, s')"
  shows "\<exists>xs'. r = hd xs' \<and> mll_chain s' xs' \<and> mll_synced E s' xs' \<and> mll_nodes s' xs' = mll_nodes s xs @ [(g, v)] \<and>
     mll_pool s' \<and> set xs' \<inter> mll_free s' = {} \<and> (\<forall>i. i \<notin> set xs' \<longrightarrow> mll_pt s' i = mll_pt s i) \<and>
     (\<forall>d < e_ndevs E. hw_walk (length xs') (mll_pair_at (hw s') d) r = Some (mll_nodes s xs @ [(g, v)]))"
proof -
  obtain xs' where xs': "r = hd xs'" "mll_chain s' xs'" "mll_synced E s' xs'" "mll_nodes s' xs' = mll_nodes s xs @ [(g, v)]"
    "mll_pool s'" "set xs' \<inter> mll_free s' = {}" "\<forall>i. i \<notin> set xs' \<longrightarrow> mll_pt s' i = mll_pt s i"
    using add_node_spec [OF assms] by blast
  note D = mll_chainD [OF xs'(2)]
  have m1: "-1 \<notin> set xs'" using D(4) by force
  have "hw_walk (length xs') (mll_pair_at (hw s') d) r = Some (mll_nodes s xs @ [(g, v)])" if "d < e_ndevs E" for d
    using hw_walk_synced [OF that D(2,5) m1 _ xs'(3)] D(6) xs'(1,4) by simp
  with xs' show ?thesis by blast
qed

theorem add_node_appends_witness:
  "\<exists>xs'. hd xs' = fst (mll_fill 1) \<and>
     mll_nodes (snd (add_node mll_env (fst (mll_fill 1)) 2 2 (snd (mll_fill 1)))) xs' = [(1, 1), (2, 2)]"
proof -
  let ?r = "fst (mll_fill 1)" and ?s = "snd (mll_fill 1)"
  have "add_node mll_env (-1) 1 1 mll0 = (?r, ?s)" by (simp add: mll_fill_def)
  from new_chain_spec [OF mll_env_ok mll0_pool(1) _ this] mll0_pool
  have N: "mll_chain ?s [?r]" "mll_synced mll_env ?s [?r]" "mll_nodes ?s [?r] = [(1, 1)]" "mll_pool ?s" "?r \<notin> mll_free ?s"
    "mll_sp ?s + 1 < mll_ts ?s" by simp_all
  obtain r s' where a: "add_node mll_env (hd [?r]) 2 2 ?s = (r, s')" by (cases "add_node mll_env (hd [?r]) 2 2 ?s")
  have "r = ?r" using a mll_chainD(4) [OF N(1), of ?r] by (simp add: add_node_def)
  with add_node_appends [OF mll_env_ok N(4,6) _ N(1,2) _ a] N(3,5) a show ?thesis by fastforce
qed

lemma del_only_node:
  assumes c: "mll_chain s xs" and only: "mll_nodes s xs = [(g, v)]" and v: "v \<noteq> 0"
    and s': "del_node E (hd xs) g v s = (r, s')"
  shows "r = -2 \<and> s' = free_pair (hd xs) s \<and> xs = [hd xs]"
proof -
  note D = mll_chainD [OF c]
  obtain i zs where xs: "xs = i # zs" using D(2) by (cases xs) auto
  have zs: "zs = []"
  proof (rule ccontr)
    assume "zs \<noteq> []"
    then obtain j ws where "zs = j # ws" by (cases zs) auto
    then show False using only by (auto simp: xs pair_nodes_def split: if_splits)
  qed
  with only xs have i: "svid (mll_pt s i) = 0" "fvid (mll_pt s i) = v" "fmcg (mll_pt s i) = g"
    by (auto simp: pair_nodes_def split: if_splits)
  have su: "mp_succ (mll_pt s i) = -1" "mp_pred (mll_pt s i) < 0" and r: "0 \<le> i" "i < int (mll_ts s)"
    using D(4,5,7) by (simp_all add: xs zs)
  obtain n where n: "mll_ts s = Suc n" using r by (cases "mll_ts s") auto
  have "del_node E i g v s = del_case_1 i s"
    using i su r by (simp add: del_node_def do_del_node_def n Let_def)
  with s' show ?thesis by (simp add: xs zs del_case_1_def)
qed

text \<open>C2. \<open>del_node\<close> removes one occurrence of a node from a chain whose VLAN ids are not 0,
  in each of its thirteen cases. The only node of a chain (case 1): the answer is -2, no chain is left, its
  pair is cleared and is the next to be handed out, and the hardware is not touched. Otherwise (the other twelve): the
  answer is the head of a chain with exactly the other nodes, as often as before; the back links are
  intact too, unless the node was the first of a pair between two others and the tail was
  incomplete (case 8).\<close>

theorem del_node_removes_one:
  assumes c: "mll_chain s xs" and x: "(g, v) \<in> set (mll_nodes s xs)" and vids: "0 \<notin> snd ` set (mll_nodes s xs)"
    and s': "del_node E (hd xs) g v s = (r, s')"
  shows "if mll_nodes s xs = [(g, v)]
    then r = -2 \<and> mll_pt s' = (mll_pt s)(hd xs := nullnode) \<and> hw s' = hw s \<and> mll_ts s' = mll_ts s \<and>
      (mll_sp s = 0 \<or> mll_sp s' = mll_sp s - 1 \<and> mll_stk s' = (mll_stk s)(mll_sp s - 1 := hd xs))
    else \<exists>xs'. r = hd xs' \<and> mll_fwd s' xs' \<and> mset (mll_nodes s' xs') = mset (mll_nodes s xs) - {#(g, v)#} \<and>
      (mll_chain s' xs' \<or> back_link_lost s xs (g, v))"
proof (cases "mll_nodes s xs = [(g, v)]")
  case True
  then have "v \<noteq> 0" using vids by auto
  with del_only_node [OF c True _ s'] mll_chainD(2,4) [OF c] True show ?thesis
    by (auto simp: free_pair_def mll_put_def pt_upd_valid)
next
  case False
  with del_node_spec [OF c x vids False s'] show ?thesis by simp
qed

theorem del_node_removes_one_witness:
  "\<exists>xs'. fst (mll_drop [1] (mll_fill 4)) = hd xs' \<and>
     mset (mll_nodes (snd (mll_drop [1] (mll_fill 4))) xs') = {#(3, 3), (4, 4), (2, 2)#}"
proof -
  let ?s = "snd (mll_fill 4)"
  have c: "mll_chain ?s [0, 1]" by code_simp
  have n: "mll_nodes ?s [0, 1] = [(1, 1), (2, 2), (3, 3), (4, 4)]" by code_simp
  have "fst (mll_fill 4) = 0" by code_simp
  then have d: "del_node mll_env (hd [0, 1]) 1 1 ?s = (fst (mll_drop [1] (mll_fill 4)), snd (mll_drop [1] (mll_fill 4)))"
    by (simp add: mll_drop_def split: prod.split) (metis surjective_pairing fst_conv snd_conv)
  from del_node_removes_one [OF c _ _ d] show ?thesis unfolding n by force
qed

lemma modify_chain_ok:
  assumes "mll_library_ok E" "mll_pair_at (hw s) 0 i = Some p"
    and q: "q = (let p = p\<lparr>firstMllNode := set_last f1 (firstMllNode p), secondMllNode := set_last f2 (secondMllNode p)\<rparr> in
      if n \<noteq> SKIP then p\<lparr>nextPointer := n\<rparr> else p)"
  shows "pair_modify_chain E i f1 f2 False n l LAST_SKIP s =
    s\<lparr>hw := dev_writes E (\<lambda>d. Mc (MllPairWrite d i q)) @ Mc (MllPairRead 0 i) # hw s\<rparr>"
  using assms by (simp add: pair_modify_chain_def mll_read_ok mll_write_all_ok Let_def cong: if_cong)

text \<open>C37. Deleting the second node of the head of a chain of three or more full pairs (case 10)
  makes the head the tail. The software chain is then right, but the first hardware write of the case
  points the new head at the old one: every device that walks the chain replicates to the new head's two nodes
  and the node left in the old head, and to none of the nodes of the pairs between them.\<close>

theorem del_node_case_10_skips_pairs:
  assumes E: "mll_library_ok E" and c: "mll_chain s (a # b # zs)" and sync: "mll_synced E s (a # b # zs)" and zs: "zs \<noteq> []"
    and full: "svid (mll_pt s (last zs)) \<noteq> 0"
    and node: "smcg (mll_pt s a) = g" "svid (mll_pt s a) = v" "\<not> (fmcg (mll_pt s a) = g \<and> fvid (mll_pt s a) = v)"
    and s': "del_node E a g v s = (r, s')"
  shows "r = b \<and> mll_chain s' (b # zs @ [a]) \<and>
    mll_nodes s' (b # zs @ [a]) = mll_nodes s (b # zs) @ [(fmcg (mll_pt s a), fvid (mll_pt s a))] \<and>
    (\<forall>d < e_ndevs E. hw_walk 2 (mll_pair_at (hw s') d) b =
       Some (pair_nodes (mll_pt s b) @ [(fmcg (mll_pt s a), fvid (mll_pt s a))]))"
proof -
  note D = mll_chainD [OF c]
  let ?l = "last zs"
  have l: "?l \<in> set zs" using zs by simp
  have ne: "a \<noteq> b" "?l \<noteq> a" "?l \<noteq> b" "a \<notin> set zs" "b \<notin> set zs" using D(3) l by auto
  have r: "0 \<le> a" "a < int (mll_ts s)" "0 \<le> b" "b < int (mll_ts s)" "0 \<le> ?l" "?l < int (mll_ts s)" using D(4) l by auto
  have m1: "-1 \<notin> set (a # b # zs)" using D(4) by force
  have su: "mp_succ (mll_pt s a) = b" "mp_succ (mll_pt s b) = hd zs" "hd zs \<noteq> -1" "hd zs \<in> set zs"
    using D(5) zs m1 by (cases zs; auto)+
  have sv: "svid (mll_pt s a) \<noteq> 0" "svid (mll_pt s b) \<noteq> 0" using D(6) zs by auto
  have E0: "0 < e_ndevs E" using E by (simp add: mll_library_ok_def)
  have at: "\<exists>p. mll_pair_at (hw s) 0 i = Some p \<and> pair_hw (mll_pt s i) p" if "i \<in> set (a # b # zs)" for i
    using sync that E0 by (auto simp: mll_synced_def)
  obtain p where p: "mll_pair_at (hw s) 0 b = Some p" "pair_hw (mll_pt s b) p" using at [of b] by auto
  obtain q where q: "mll_pair_at (hw s) 0 a = Some q" "pair_hw (mll_pt s a) q" using at [of a] by auto
  obtain w where w: "mll_pair_at (hw s) 0 ?l = Some w" using at [of ?l] l by auto
  have ll: "find_last_pair (mll_ts s) s a = Some ?l"
    using find_last_pair_chain [OF D(5) m1 D(2) chain_length [OF D(1)]] zs by simp
  have fp: "find_pair (mll_ts s) s a g v = Some a"
    using node r by (cases "mll_ts s") auto
  have go: "del_node E a g v s = del_case_10 E a ?l s"
    using node sv su r full D(7) by (auto simp: del_node_def do_del_node_def fp ll Let_def)
  let ?p = "p\<lparr>nextPointer := a\<rparr>" and ?q = "q\<lparr>firstMllNode := (firstMllNode q)\<lparr>nd_last := True\<rparr>\<rparr>"
    and ?w = "w\<lparr>secondMllNode := (secondMllNode w)\<lparr>nd_last := False\<rparr>, nextPointer := a\<rparr>"
  have k: "a \<noteq> SKIP" using r by (simp add: SKIP_def)
  define s1 where "s1 = pt_upd b (\<lambda>e. e\<lparr>mp_pred := mp_pred (mll_pt s a)\<rparr>) s"
  define s2 where "s2 = pair_modify_chain E b FLAG_SKIP FLAG_SKIP False a SKIP LAST_SKIP s1"
  define s3 where "s3 = pair_modify_chain E a SET_FLAG FLAG_SKIP False SKIP SKIP LAST_SKIP s2"
  define s4 where "s4 = pair_modify_chain E ?l FLAG_SKIP RESET_FLAG False a SKIP LAST_SKIP s3"
  have h1: "hw s1 = hw s" by (simp add: s1_def pt_upd_valid r)
  have e2: "s2 = s1\<lparr>hw := dev_writes E (\<lambda>d. Mc (MllPairWrite d b ?p)) @ Mc (MllPairRead 0 b) # hw s1\<rparr>"
    unfolding s2_def by (rule modify_chain_ok [OF E]) (use p k in \<open>simp_all add: h1 set_last_def\<close>)
  have e3: "s3 = s2\<lparr>hw := dev_writes E (\<lambda>d. Mc (MllPairWrite d a ?q)) @ Mc (MllPairRead 0 a) # hw s2\<rparr>"
    unfolding s3_def by (rule modify_chain_ok [OF E]) (use q ne in \<open>simp_all add: e2 h1 set_last_def SKIP_def mll_pair_at_writes\<close>)
  have e4: "s4 = s3\<lparr>hw := dev_writes E (\<lambda>d. Mc (MllPairWrite d ?l ?w)) @ Mc (MllPairRead 0 ?l) # hw s3\<rparr>"
    unfolding s4_def by (rule modify_chain_ok [OF E]) (use w ne k in \<open>simp_all add: e3 e2 h1 set_last_def mll_pair_at_writes\<close>)
  have s'': "r = b" "s' = pt_upd a (\<lambda>e. e\<lparr>mp_succ := -1\<rparr>) (pt_upd a drop_second (pt_upd a (\<lambda>e. e\<lparr>mp_pred := ?l\<rparr>)
      (pt_upd ?l (\<lambda>e. e\<lparr>mp_succ := a\<rparr>) s4)))"
    using s' go by (auto simp: del_case_10_def Let_def su(1) s1_def s2_def s3_def s4_def)
  have pt: "mll_pt s4 = (mll_pt s)(b := (mll_pt s b)\<lparr>mp_pred := mp_pred (mll_pt s a)\<rparr>)" "mll_ts s4 = mll_ts s"
    using r by (simp_all add: e4 e3 e2 s1_def pt_upd_valid)
  have hw': "hw s' = hw s4" using r pt(2) by (simp add: s'' pt_upd_valid)
  have walk: "hw_walk 2 (mll_pair_at (hw s') d) b = Some (pair_nodes (mll_pt s b) @ [(fmcg (mll_pt s a), fvid (mll_pt s a))])"
    if d: "d < e_ndevs E" for d
  proof -
    have "mll_pair_at (hw s') d b = Some ?p" "mll_pair_at (hw s') d a = Some ?q"
      using d ne by (simp_all add: hw' e4 e3 e2 mll_pair_at_writes)
    with p(2) q(2) sv su show ?thesis by (simp add: numeral_2_eq_2 pair_hw_def pair_nodes_def Let_def)
  qed
  have "r = b \<and> mll_chain s' (b # zs @ [a]) \<and>
      mll_nodes s' (b # zs @ [a]) = mll_nodes s (b # zs) @ [(fmcg (mll_pt s a), fvid (mll_pt s a))]"
    using del_10_chain [OF c _ _, of E r s'] zs full s' go by simp
  with walk show ?thesis by blast
qed

theorem del_node_case_10_skips_pairs_witness:
  "hw_walk 2 (mll_pair_at (hw (snd (mll_drop [2] (mll_fill 6)))) 0) 1 = Some [(3, 3), (4, 4), (1, 1)] \<and>
   mll_nodes (snd (mll_drop [2] (mll_fill 6))) [1, 2, 0] = [(3, 3), (4, 4), (5, 5), (6, 6), (1, 1)]"
proof -
  let ?s = "snd (mll_fill 6)"
  have c: "mll_chain ?s [0, 1, 2]" by code_simp
  have "e_ndevs mll_env = 2" by code_simp
  moreover have "\<forall>i \<in> set [0, 1, 2]. \<forall>d \<in> set [0, 1].
      case mll_pair_at (hw ?s) d i of None \<Rightarrow> False | Some p \<Rightarrow> pair_hw (mll_pt ?s i) p"
    by code_simp
  ultimately have sync: "mll_synced mll_env ?s [0, 1, 2]"
    by (auto simp: mll_synced_def numeral_2_eq_2 less_Suc_eq split: option.splits)
  have d: "del_node mll_env 0 2 2 ?s = (fst (mll_drop [2] (mll_fill 6)), snd (mll_drop [2] (mll_fill 6)))"
  proof -
    have "fst (mll_fill 6) = 0" by code_simp
    then show ?thesis by (simp add: mll_drop_def split: prod.split) (metis surjective_pairing fst_conv snd_conv)
  qed
  have n: "mll_nodes ?s [1, 2] = [(3, 3), (4, 4), (5, 5), (6, 6)]" by code_simp
  have p: "svid (mll_pt ?s 2) \<noteq> 0" "smcg (mll_pt ?s 0) = 2" "svid (mll_pt ?s 0) = 2" "fmcg (mll_pt ?s 0) = 1" "fvid (mll_pt ?s 0) = 1"
    "pair_nodes (mll_pt ?s 1) = [(3, 3), (4, 4)]"
    by code_simp+
  have "0 < e_ndevs mll_env" using mll_env_ok by (simp add: mll_library_ok_def)
  with del_node_case_10_skips_pairs [OF mll_env_ok c sync _ _ _ _ _ d] p n show ?thesis by simp
qed

text \<open>The stale back link of case 8 corrupts the list: after the nodes 3, 4 and 5 of a chain of five
  have been deleted the chain still ends in a pair that was given back, the next node is written
  into it, and the next request for a free pair hands the same pair out.\<close>

theorem del_node_case_8_corrupts:
  "find_last_pair 8 (snd (mll_drop [3, 4, 5] (mll_fill 5))) 0 = Some 2 \<and>
   fst (mll_get (snd (mll_drop [3, 4, 5] (mll_fill 5)))) = 2 \<and>
   smcg (mll_pt (snd (add_node mll_env 0 9 9 (snd (mll_drop [3, 4, 5] (mll_fill 5))))) 2) = 9 \<and>
   fst (add_node mll_env (-1) 7 7 (snd (add_node mll_env 0 9 9 (snd (mll_drop [3, 4, 5] (mll_fill 5)))))) = 2"
  by code_simp

definition mll_full :: "int \<times> mll_state" where
  "mll_full = fold (\<lambda>k (p, s). add_node mll_env p (of_nat k) (of_nat k) s) [1 ..< 5] (-1, snd (mll_init 3 mll0))"

text \<open>When no pair is left, adding to a chain whose last pair is full loses the node, and
  \<open>append_node\<close> links the pair that does not exist: the hardware then follows the chain past its
  end. (A table of three pairs gives out two.)\<close>

theorem append_past_last_pair:
  "hw_walk 4 (mll_pair_at (hw (snd mll_full)) 0) 0 = Some [(1, 1), (2, 2), (3, 3), (4, 4)] \<and>
   mll_nodes (snd (add_node mll_env 0 5 5 (snd mll_full))) [0, 1] = [(1, 1), (2, 2), (3, 3), (4, 4)] \<and>
   map_option nextPointer (mll_pair_at (hw (snd (add_node mll_env 0 5 5 (snd mll_full)))) 0 1) = Some (-1) \<and>
   hw_walk 4 (mll_pair_at (hw (snd (add_node mll_env 0 5 5 (snd mll_full)))) 0) 0 = None"
  by code_simp

end
