(* ===== verification/Mcg.thy ===== *)
theory Mcg
  imports Mll_Props
begin

text \<open>
  Layer 2 multicast groups (\<open>src/mcg.c\<close>): a table of groups, each with its member ports per
  device; the stack ports and the interconnect ports are members from the start.
\<close>

section \<open>State and operations\<close>

record mcast_group =
  mg_key :: nat
  mg_ports :: "nat \<Rightarrow> nat set"

record mcg_st = mll_state +
  groups :: "mcast_group list"

definition LAST_USER_MCG :: nat where "LAST_USER_MCG = 4091"
definition DGASP_MCG :: mcg where "DGASP_MCG = 4093"
definition STACK_MCG :: mcg where "STACK_MCG = 4094"

definition mcg_valid :: "mcg \<Rightarrow> bool" where
  "mcg_valid g \<longleftrightarrow> unat g \<le> LAST_USER_MCG"

definition stack_port_set :: "'a vif_st_scheme \<Rightarrow> nat \<Rightarrow> nat set" where
  "stack_port_set s d =
     set (map pt_lport (filter (\<lambda>p. is_stack_port p s \<and> pt_ldev p = d) (ports s)))"

definition mcg_create :: "env \<Rightarrow> mcg \<Rightarrow> 'a mcg_st_scheme \<Rightarrow> status \<times> 'a mcg_st_scheme" where
  "mcg_create E g s =
     (if \<not> mcg_valid g then (ST_BAD_VALUE, s)
      else if hash_find mg_key (groups s) (unat g) \<noteq> None then (ST_ALREADY_EXISTS, s)
      else
        let pts = (\<lambda>d. stack_port_set s d \<union> (if d < e_ndevs E then set (e_ic_ports E d) else {}));
            s = snd (for_each_dev E (\<lambda>d. Mc (McEntryWrite d g (pts d))) s) in
        (ST_OK, s\<lparr>groups := hash_add \<lparr>mg_key = unat g, mg_ports = pts\<rparr> (groups s)\<rparr>))"

definition mcg_delete :: "env \<Rightarrow> mcg \<Rightarrow> 'a mcg_st_scheme \<Rightarrow> status \<times> 'a mcg_st_scheme" where
  "mcg_delete E g s =
     (case hash_find mg_key (groups s) (unat g) of
        None \<Rightarrow> (ST_DOES_NOT_EXIST, s)
      | Some m \<Rightarrow>
          let s = snd (for_each_dev E (\<lambda>d. Mc (McGroupDelete d g)) s) in
          (ST_OK, s\<lparr>groups := hash_del mg_key (unat g) (groups s)\<rparr>))"

definition mcg_exists :: "mcg \<Rightarrow> 'a mcg_st_scheme \<Rightarrow> bool" where
  "mcg_exists g s \<longleftrightarrow> hash_find mg_key (groups s) (unat g) \<noteq> None"

definition group_port_upd :: "mcg \<Rightarrow> nat \<Rightarrow> (nat set \<Rightarrow> nat set) \<Rightarrow> 'a mcg_st_scheme \<Rightarrow> 'a mcg_st_scheme" where
  "group_port_upd g d f s =
     s\<lparr>groups := hash_mod mg_key (unat g)
         (\<lambda>m. m\<lparr>mg_ports := (mg_ports m)(d := f (mg_ports m d))\<rparr>) (groups s)\<rparr>"

text \<open>\<open>mcg_add_port\<close> returns \<open>ST_OK\<close> also when the library call fails: the translation of its
  return code stands after a \<open>return\<close>.\<close>

definition mcg_add_port :: "env \<Rightarrow> mcg \<Rightarrow> u16 \<Rightarrow> 'a mcg_st_scheme \<Rightarrow> status \<times> 'a mcg_st_scheme" where
  "mcg_add_port E g pid s =
     (case port_ptr pid s of
        None \<Rightarrow> (ST_BAD_VALUE, s)
      | Some port \<Rightarrow>
          (case hash_find mg_key (groups s) (unat g) of
             None \<Rightarrow> (ST_DOES_NOT_EXIST, s)
           | Some m \<Rightarrow>
               if pt_lport port \<in> mg_ports m (pt_ldev port) then (ST_ALREADY_EXISTS, s)
               else (case crp E (Mc (McMemberAdd (pt_ldev port) g (pt_lport port))) s of
                   (rc, s) \<Rightarrow>
                     if rc = GT_OK then
                       (ST_OK, group_port_upd g (pt_ldev port) (insert (pt_lport port)) s)
                     else (ST_OK, s))))"

definition gt_to_status :: "gt_status \<Rightarrow> status" where
  "gt_to_status rc = (case rc of GT_OK \<Rightarrow> ST_OK | GT_HW_ERROR \<Rightarrow> ST_HW_ERROR | _ \<Rightarrow> ST_HEX)"

definition mcg_del_port :: "env \<Rightarrow> mcg \<Rightarrow> u16 \<Rightarrow> 'a mcg_st_scheme \<Rightarrow> status \<times> 'a mcg_st_scheme" where
  "mcg_del_port E g pid s =
     (case port_ptr pid s of
        None \<Rightarrow> (ST_BAD_VALUE, s)
      | Some port \<Rightarrow>
          (case hash_find mg_key (groups s) (unat g) of
             None \<Rightarrow> (ST_DOES_NOT_EXIST, s)
           | Some m \<Rightarrow>
               if pt_lport port \<notin> mg_ports m (pt_ldev port) then (ST_DOES_NOT_EXIST, s)
               else (case crp E (Mc (McMemberDelete (pt_ldev port) g (pt_lport port))) s of
                   (rc, s) \<Rightarrow>
                     if rc = GT_OK then
                       (ST_OK, group_port_upd g (pt_ldev port) (\<lambda>ps. ps - {pt_lport port}) s)
                     else (gt_to_status rc, s))))"

definition mcg_dgasp_setup :: "env \<Rightarrow> 'a sw_scheme \<Rightarrow> 'a sw_scheme" where
  "mcg_dgasp_setup E s =
     snd (for_each_dev E (\<lambda>d. Mc (McEntryWrite d DGASP_MCG (set (e_ic_ports E d)))) s)"

definition mcg_dgasp_port_op :: "env \<Rightarrow> u16 \<Rightarrow> bool \<Rightarrow> 'a vif_st_scheme \<Rightarrow> status \<times> 'a vif_st_scheme" where
  "mcg_dgasp_port_op E pid add s =
     (case port_ptr pid s of
        None \<Rightarrow> (ST_BAD_VALUE, s)
      | Some port \<Rightarrow>
          (case crp E (Mc ((if add then McMemberAdd else McMemberDelete)
                             (pt_ldev port) DGASP_MCG (pt_lport port))) s of
             (rc, s) \<Rightarrow> (gt_to_status rc, s)))"

definition mcg_stack_setup :: "env \<Rightarrow> 'a vif_st_scheme \<Rightarrow> 'a vif_st_scheme" where
  "mcg_stack_setup E s =
     snd (for_each_dev E (\<lambda>d. Mc (McEntryWrite d STACK_MCG
            (stack_port_set s d \<union> set (e_ic_ports E d)))) s)"

section \<open>The table and the hardware\<close>

text \<open>The members a device has for a group, from the log of the calls.\<close>

fun mc_members :: "effect list \<Rightarrow> nat \<Rightarrow> mcg \<Rightarrow> nat set" where
  "mc_members [] d g = {}"
| "mc_members (e # es) d g =
     (case e of
        Mc (McEntryWrite d' g' m) \<Rightarrow> if d' = d \<and> g' = g then m else mc_members es d g
      | Mc (McMemberAdd d' g' p) \<Rightarrow> if d' = d \<and> g' = g then insert p (mc_members es d g) else mc_members es d g
      | Mc (McMemberDelete d' g' p) \<Rightarrow> if d' = d \<and> g' = g then mc_members es d g - {p} else mc_members es d g
      | Mc (McGroupDelete d' g') \<Rightarrow> if d' = d \<and> g' = g then {} else mc_members es d g
      | _ \<Rightarrow> mc_members es d g)"

definition mcg_synced :: "env \<Rightarrow> 'a mcg_st_scheme \<Rightarrow> bool" where
  "mcg_synced E s \<longleftrightarrow>
     keys_distinct mg_key (groups s) \<and>
     (\<forall>m \<in> set (groups s). \<forall>g d. mg_key m = unat g \<longrightarrow> d < e_ndevs E \<longrightarrow> mc_members (hw s) d g = mg_ports m d)"

inductive mcg_step :: "env \<Rightarrow> 'a mcg_st_scheme \<Rightarrow> 'a mcg_st_scheme \<Rightarrow> bool" for E where
  ms_create: "mcg_step E s (snd (mcg_create E g s))"
| ms_delete: "mcg_step E s (snd (mcg_delete E g s))"
| ms_add: "mcg_step E s (snd (mcg_add_port E g pid s))"
| ms_del: "mcg_step E s (snd (mcg_del_port E g pid s))"

inductive mcg_run :: "env \<Rightarrow> 'a mcg_st_scheme \<Rightarrow> 'a mcg_st_scheme \<Rightarrow> bool" for E s0 where
  mr_refl: "mcg_run E s0 s0"
| mr_step: "mcg_run E s0 s \<Longrightarrow> mcg_step E s t \<Longrightarrow> mcg_run E s0 t"

lemma mc_members_entries:
  "mc_members (dev_writes E (\<lambda>d. Mc (McEntryWrite d g (m d))) @ h) d k = (if d < e_ndevs E \<and> k = g then m d else mc_members h d k)"
proof -
  have "mc_members (rev (map (\<lambda>d. Mc (McEntryWrite d g (m d))) ds) @ h) d k = (if d \<in> set ds \<and> k = g then m d else mc_members h d k)" for ds
    by (induction ds arbitrary: h) auto
  then show ?thesis by (simp add: dev_writes_def)
qed

lemma mc_members_deletes:
  "mc_members (dev_writes E (\<lambda>d. Mc (McGroupDelete d g)) @ h) d k = (if d < e_ndevs E \<and> k = g then {} else mc_members h d k)"
proof -
  have "mc_members (rev (map (\<lambda>d. Mc (McGroupDelete d g)) ds) @ h) d k = (if d \<in> set ds \<and> k = g then {} else mc_members h d k)" for ds
    by (induction ds arbitrary: h) auto
  then show ?thesis by (simp add: dev_writes_def)
qed

lemma mcg_create_synced:
  assumes s: "mcg_synced E s" shows "mcg_synced E (snd (mcg_create E g s))"
proof (cases "mcg_valid g \<and> hash_find mg_key (groups s) (unat g) = None")
  case True
  have new: "mg_key m \<noteq> unat g" if "m \<in> set (groups s)" for m using True imageI [OF that, of mg_key] by (auto simp: hash_find_None)
  show ?thesis
    using s True new unfolding mcg_synced_def mcg_create_def
    by (auto simp: Let_def mc_members_entries hash_add_def hash_find_None word_unat_eq_iff)
qed (use s in \<open>auto simp: mcg_create_def\<close>)

lemma mcg_delete_synced:
  assumes s: "mcg_synced E s" shows "mcg_synced E (snd (mcg_delete E g s))"
proof (cases "hash_find mg_key (groups s) (unat g)")
  case None
  with s show ?thesis by (simp add: mcg_delete_def)
next
  case (Some m)
  have kd: "keys_distinct mg_key (groups s)" using s by (simp add: mcg_synced_def)
  from Some s show ?thesis
    unfolding mcg_synced_def using set_hash_del [OF kd] uth.wf_del [OF kd]
    by (auto simp: mcg_delete_def mc_members_deletes)
qed

lemma group_port_upd_synced:
  assumes s: "mcg_synced E s"
    and h: "\<And>d k. mc_members h d k = (if d = d0 \<and> k = g then f (mc_members (hw s) d k) else mc_members (hw s) d k)"
  shows "mcg_synced E (group_port_upd g d0 f (s\<lparr>hw := h\<rparr>))"
proof -
  have kd: "keys_distinct mg_key (groups s)" using s by (simp add: mcg_synced_def)
  let ?f = "\<lambda>m. m\<lparr>mg_ports := (mg_ports m)(d0 := f (mg_ports m d0))\<rparr>"
  have set: "set (hash_mod mg_key (unat g) ?f (groups s)) = (\<lambda>m. if mg_key m = unat g then ?f m else m) ` set (groups s)"
    by (rule set_hash_mod [OF kd]) simp
  show ?thesis
    using s unfolding mcg_synced_def group_port_upd_def by (auto simp: set h word_unat_eq_iff)
qed

lemma mcg_step_synced:
  assumes E: "\<And>h x. e_gt E h x = GT_OK" and st: "mcg_step E s t" and s: "mcg_synced E s"
  shows "mcg_synced E t"
  using st s
proof (cases rule: mcg_step.cases)
  case (ms_add g pid)
  have "mcg_synced E (group_port_upd g d (insert p) (s\<lparr>hw := Mc (McMemberAdd d g p) # hw s\<rparr>))" for d p
    by (rule group_port_upd_synced [OF s]) auto
  then show ?thesis using ms_add s E by (auto simp: mcg_add_port_def crp_def emit_def split: option.splits)
next
  case (ms_del g pid)
  have "mcg_synced E (group_port_upd g d (\<lambda>ps. ps - {p}) (s\<lparr>hw := Mc (McMemberDelete d g p) # hw s\<rparr>))" for d p
    by (rule group_port_upd_synced [OF s]) auto
  then show ?thesis using ms_del s E by (auto simp: mcg_del_port_def crp_def emit_def split: option.splits)
qed (simp_all add: mcg_create_synced mcg_delete_synced s)

text \<open>C25. As long as the library accepts the calls, in every state that creations and deletions of
  groups and of members reach from an empty table, the ports the table lists for a group on a
  device are exactly the members the device has, and no group is listed twice.\<close>

theorem mcg_table_matches_hardware:
  assumes E: "\<And>h x. e_gt E h x = GT_OK" and run: "mcg_run E s0 s" and boot: "groups s0 = []"
  shows "mcg_synced E s"
  using run
proof (induction rule: mcg_run.induct)
  case mr_refl
  then show ?case by (simp add: mcg_synced_def boot)
next
  case (mr_step s t)
  then show ?case using mcg_step_synced [OF E] by blast
qed

definition mcg_port :: port where
  "mcg_port = \<lparr>pt_ldev = 0, pt_lport = 3, stacking = False, pt_mode = PM_ACCESS, pt_access_vid = 1,
     pt_native_vid = 1, pt_customer_vid = 1, pt_voice_vid = 0, tallow = (\<lambda>_. False), refc = (\<lambda>_. 0)\<rparr>"

definition mcg0 :: mcg_st where "mcg0 = (mll_state.extend mll0 (mcg_st.fields []))\<lparr>ports := [mcg_port]\<rparr>"

theorem mcg_table_matches_hardware_witness:
  "mcg_synced env0 (snd (mcg_add_port env0 7 1 (snd (mcg_create env0 7 mcg0)))) \<and>
   map (\<lambda>m. mg_ports m 0) (groups (snd (mcg_add_port env0 7 1 (snd (mcg_create env0 7 mcg0))))) = [{3}]"
proof -
  have run: "mcg_run env0 mcg0 (snd (mcg_add_port env0 7 1 (snd (mcg_create env0 7 mcg0))))"
    by (rule mr_step [OF mr_step [OF mr_refl ms_create] ms_add])
  have b: "groups mcg0 = []" by (simp add: mcg0_def mll_state.defs mcg_st.defs)
  have "mcg_synced env0 (snd (mcg_add_port env0 7 1 (snd (mcg_create env0 7 mcg0))))"
    by (rule mcg_table_matches_hardware [OF _ run b]) (simp add: env0_def)
  moreover have "map (\<lambda>m. mg_ports m 0) (groups (snd (mcg_add_port env0 7 1 (snd (mcg_create env0 7 mcg0))))) = [{3}]"
    by code_simp
  ultimately show ?thesis by blast
qed

text \<open>When the library refuses a new member, \<open>mcg_add_port\<close> leaves the table as it is but still
  reports success: the translation of the return code stands behind a \<open>return\<close>.\<close>

theorem mcg_add_port_hides_failure:
  assumes p: "port_ptr pid s = Some port" and g: "hash_find mg_key (groups s) (unat g) = Some m"
    and new: "pt_lport port \<notin> mg_ports m (pt_ldev port)"
    and fail: "e_gt E (hw s) (Mc (McMemberAdd (pt_ldev port) g (pt_lport port))) = rc" "rc \<noteq> GT_OK"
  shows "fst (mcg_add_port E g pid s) = ST_OK \<and> groups (snd (mcg_add_port E g pid s)) = groups s"
  using assms by (simp add: mcg_add_port_def crp_def emit_def)

definition env_no_member :: env where
  "env_no_member = env0\<lparr>e_gt := \<lambda>h x. case x of Mc (McMemberAdd d g p) \<Rightarrow> GT_HW_ERROR | _ \<Rightarrow> GT_OK\<rparr>"

theorem mcg_add_port_hides_failure_witness:
  "fst (mcg_add_port env_no_member 7 1 (snd (mcg_create env0 7 mcg0))) = ST_OK \<and>
   groups (snd (mcg_add_port env_no_member 7 1 (snd (mcg_create env0 7 mcg0)))) = groups (snd (mcg_create env0 7 mcg0))"
proof -
  let ?s = "snd (mcg_create env0 7 mcg0)"
  have "(case port_ptr 1 ?s of None \<Rightarrow> False | Some p \<Rightarrow> (case hash_find mg_key (groups ?s) (unat (7 :: mcg)) of None \<Rightarrow> False
      | Some m \<Rightarrow> pt_lport p \<notin> mg_ports m (pt_ldev p)))" by code_simp
  then obtain p m where pm: "port_ptr 1 ?s = Some p" "hash_find mg_key (groups ?s) (unat (7 :: mcg)) = Some m"
    "pt_lport p \<notin> mg_ports m (pt_ldev p)" by (auto split: option.splits)
  show ?thesis by (rule mcg_add_port_hides_failure [OF pm refl]) (simp add: env_no_member_def)
qed

end
