(* ===== verification/Mcre.thy ===== *)
theory Mcre
  imports Mcg
begin

text \<open>
  Multicast route entries (\<open>mcre_*\<close> of \<open>src/ret.c\<close>) and multicast routes
  (\<open>route_mc_add\<close>, \<open>route_mc_del\<close> of \<open>src/route.c\<close>): one entry per destination, source and
  source VLAN, with the head of its chain of nodes and their count, and a back pointer from
  the entry's slot to its key.
\<close>

section \<open>State\<close>

record mcre_key =
  mk_dst :: "u8 list"
  mk_src :: "u8 list"
  mk_src_vid :: vid

record mcre =
  mr_key :: mcre_key
  mr_refc :: int
  mr_idx :: int
  mr_mll_idx :: int

record mcre_st = mcg_st +
  mcret :: "mcre list"
  mcre_key_bp :: "int \<Rightarrow> mcre_key"

definition mk_key :: "u8 list \<Rightarrow> u8 list \<Rightarrow> vid \<Rightarrow> mcre_key" where
  "mk_key dst src src_vid = \<lparr>mk_dst = dst, mk_src = src, mk_src_vid = src_vid\<rparr>"

section \<open>Route entries\<close>

text \<open>The fields of the hardware entry that are not constant.\<close>

definition mcre_entry :: "vid \<Rightarrow> int \<Rightarrow> mc_route_entry" where
  "mcre_entry src_vid mll_idx =
     \<lparr>mc_cmd = CMD_ROUTE, mc_RPFVlan = src_vid, mc_RPFFailCommand = CMD_DROP_SOFT,
      mc_RPFCheckEnable = True, mc_internalMLLPointer = mll_idx\<rparr>"

definition mcre_new ::
  "env \<Rightarrow> u8 list \<Rightarrow> u8 list \<Rightarrow> mcg \<Rightarrow> vid \<Rightarrow> vid \<Rightarrow> 'a mcre_st_scheme \<Rightarrow>
     (int \<times> int) option \<times> 'a mcre_st_scheme" where
  "mcre_new E dst src g v src_vid s =
     (case res_pop 1 s of
        None \<Rightarrow> (None, s)
      | Some (ids, s) \<Rightarrow>
          let idx = hd ids in
          (case add_node E (- idx) g v s of (mll_idx, s) \<Rightarrow>
             if mll_idx = -1 then (None, snd (res_push 1 [idx] s))
             else (case for_each_dev E (\<lambda>d. Mc (McRouteEntriesWrite d idx (mcre_entry src_vid mll_idx))) s of
                 (rc, s) \<Rightarrow>
                   if rc \<noteq> GT_OK then
                     (None, snd (res_push 1 [idx] (snd (mll_put mll_idx s))))
                   else
                     (Some (idx, mll_idx),
                      s\<lparr>mcre_key_bp := (mcre_key_bp s)(idx := mk_key dst src src_vid)\<rparr>))))"

definition mcre_del :: "mcre \<Rightarrow> 'a mcre_st_scheme \<Rightarrow> 'a mcre_st_scheme" where
  "mcre_del re s =
     (let s = s\<lparr>mcret := hash_del mr_key (mr_key re) (mcret s)\<rparr>;
          s = snd (mll_put (mr_mll_idx re) s) in
      snd (res_push 1 [mr_idx re] s))"

definition mcre_find :: "u8 list \<Rightarrow> u8 list \<Rightarrow> vid \<Rightarrow> 'a mcre_st_scheme \<Rightarrow> int" where
  "mcre_find dst src src_vid s =
     (case hash_find mr_key (mcret s) (mk_key dst src src_vid) of None \<Rightarrow> -1 | Some re \<Rightarrow> mr_idx re)"

definition mcre_create ::
  "env \<Rightarrow> u8 list \<Rightarrow> u8 list \<Rightarrow> mcg \<Rightarrow> vid \<Rightarrow> vid \<Rightarrow> 'a mcre_st_scheme \<Rightarrow> int \<times> 'a mcre_st_scheme" where
  "mcre_create E dst src g v src_vid s =
     (case mcre_new E dst src g v src_vid s of
        (None, s) \<Rightarrow> (-1, s)
      | (Some (idx, mll_idx), s) \<Rightarrow>
          (idx, s\<lparr>mcret := hash_add \<lparr>mr_key = mk_key dst src src_vid, mr_refc = 1, mr_idx = idx,
                                     mr_mll_idx = mll_idx\<rparr> (mcret s)\<rparr>))"

text \<open>Replacing an element by a changed copy, \<open>HASH_DEL\<close> and \<open>HASH_ADD\<close>.\<close>

definition mcre_replace :: "mcre \<Rightarrow> 'a mcre_st_scheme \<Rightarrow> 'a mcre_st_scheme" where
  "mcre_replace re s = s\<lparr>mcret := hash_add re (hash_del mr_key (mr_key re) (mcret s))\<rparr>"

text \<open>\<open>mcre_add_node\<close> copies \<open>*re\<close> without a null check, and counts the node whether or not
  \<open>add_node\<close> has made it.\<close>

definition mcre_add_node :: "env \<Rightarrow> int \<Rightarrow> mcg \<Rightarrow> vid \<Rightarrow> 'a mcre_st_scheme \<Rightarrow> int \<times> 'a mcre_st_scheme" where
  "mcre_add_node E idx g v s =
     (case hash_find mr_key (mcret s) (mcre_key_bp s idx) of
        None \<Rightarrow> (0, crash s)
      | Some re \<Rightarrow>
          (case add_node E (mr_mll_idx re) g v s of (res, s) \<Rightarrow>
             (0, mcre_replace (re\<lparr>mr_refc := mr_refc re + 1\<rparr>) s)))"

definition mcre_put :: "u8 list \<Rightarrow> u8 list \<Rightarrow> vid \<Rightarrow> 'a mcre_st_scheme \<Rightarrow> int \<times> 'a mcre_st_scheme" where
  "mcre_put dst src src_vid s =
     (case hash_find mr_key (mcret s) (mk_key dst src src_vid) of
        None \<Rightarrow> (-1, s)
      | Some re \<Rightarrow>
          let re = re\<lparr>mr_refc := mr_refc re - 1\<rparr>;
              s = s\<lparr>mcret := hash_mod mr_key (mr_key re) (\<lambda>_. re) (mcret s)\<rparr> in
          if mr_refc re = 0 then (0, mcre_del re s) else (mr_refc re, s))"

definition mcre_del_node :: "env \<Rightarrow> int \<Rightarrow> mcg \<Rightarrow> vid \<Rightarrow> vid \<Rightarrow> 'a mcre_st_scheme \<Rightarrow> int \<times> 'a mcre_st_scheme" where
  "mcre_del_node E idx via v src_vid s =
     (case hash_find mr_key (mcret s) (mcre_key_bp s idx) of
        None \<Rightarrow> (-1, s)
      | Some re \<Rightarrow>
          let hd_idx = mr_mll_idx re in
          (case del_node E hd_idx via v s of (new_head, s) \<Rightarrow>
             if new_head = -2 then
               (0, snd (res_push 1 [mr_idx re] (s\<lparr>mcret := hash_del mr_key (mr_key re) (mcret s)\<rparr>)))
             else if new_head = -3 then (mr_refc re, s)
             else if new_head \<noteq> hd_idx then
               let c = (e_mc_read E (hw s) idx)\<lparr>mc_internalMLLPointer := new_head\<rparr>;
                   s = snd (crp E (Mc (McRouteEntriesRead 0 idx)) s);
                   s = snd (for_each_dev E (\<lambda>d. Mc (McRouteEntriesWrite d idx c)) s);
                   upd_re = re\<lparr>mr_refc := mr_refc re - 1, mr_mll_idx := new_head\<rparr> in
               (mr_refc upd_re, mcre_replace upd_re s)
             else
               let upd_re = re\<lparr>mr_refc := mr_refc re - 1\<rparr> in
               (mr_refc upd_re, mcre_replace upd_re s)))"

section \<open>Multicast routes\<close>

definition DROP_MC_RE_IDX :: int where "DROP_MC_RE_IDX = DEFAULT_MC_RE_IDX"

definition mc_splen :: "u8 list \<Rightarrow> nat" where
  "mc_splen src = (if src = [0, 0, 0, 0] then 0 else 32)"

text \<open>For \<open>via\<close> \<open>0xFFFF\<close> the drop entry is chosen and then nothing is done with it.\<close>

definition route_mc_add ::
  "env \<Rightarrow> vid \<Rightarrow> u8 list \<Rightarrow> u8 list \<Rightarrow> mcg \<Rightarrow> vid \<Rightarrow> 'a mcre_st_scheme \<Rightarrow>
     status \<times> 'a mcre_st_scheme" where
  "route_mc_add E v dst src via src_vid s =
     (if via = 0xFFFF then (ST_BAD_VALUE, s)
      else if mcg_valid via then
        (let idx = mcre_find dst src src_vid s in
         if idx = -1 then
           (case mcre_create E dst src via v src_vid s of (idx, s) \<Rightarrow>
              if idx = -1 then (ST_BAD_STATE, s)
              else (case crp E (Mc (LpmIpv4McEntryAdd dst src (mc_splen src)
                                  \<lparr>routeEntryBaseIndex = idx, ltt_numOfPaths = 0\<rparr>)) s of
                  (rc, s) \<Rightarrow>
                    if rc = GT_OK then (ST_OK, s)
                    else (ST_HEX, snd (mcre_put dst src src_vid s))))
         else
           (case mcre_add_node E idx via v s of (res, s) \<Rightarrow>
              if res = 0 then (ST_OK, s) else (ST_BAD_VALUE, s)))
      else (ST_BAD_VALUE, s))"

definition route_mc_del ::
  "env \<Rightarrow> vid \<Rightarrow> u8 list \<Rightarrow> u8 list \<Rightarrow> mcg \<Rightarrow> vid \<Rightarrow> 'a mcre_st_scheme \<Rightarrow> status \<times> 'a mcre_st_scheme" where
  "route_mc_del E v dst src via src_vid s =
     (let le = e_mc_search E (hw s) dst src (mc_splen src) in
      case crp E (Mc (LpmIpv4McEntrySearch dst src (mc_splen src))) s of (rc, s) \<Rightarrow>
        if rc \<noteq> GT_OK then (ST_HEX, s)
        else if routeEntryBaseIndex le \<noteq> DROP_MC_RE_IDX then
          (case mcre_del_node E (routeEntryBaseIndex le) via v src_vid s of (res, s) \<Rightarrow>
             if res = 0 then
               (case crp E (Mc (LpmIpv4McEntryDel dst src (mc_splen src))) s of (rc, s) \<Rightarrow>
                  if rc \<noteq> GT_OK then (ST_HEX, s) else (ST_OK, s))
             else (ST_OK, s))
        else (ST_HEX, s))"

section \<open>Failure\<close>

lemma res_pop_push_1:
  assumes "res_pop 1 s = Some (ids, t)"
  shows "\<exists>i. ids = [i] \<and> i \<notin> set (ret_indexes_used s) \<and> FIRST_REGULAR_RE_IDX \<le> i \<and>
    t = s\<lparr>ret_indexes_used := ret_indexes_used s @ [i]\<rparr>"
proof -
  from res_pop_SomeD [OF assms] obtain a where a: "ids = [a .. a + 1 - 1]"
    "t = s\<lparr>ret_indexes_used := ret_indexes_used s @ ids\<rparr>" "free_run (ret_indexes_used s) 1 a" by blast
  then show ?thesis by (intro exI [of _ a]) (auto simp: free_run_def)
qed

lemma push_last: "i \<notin> set u \<Longrightarrow> ret_indexes_used s = u @ [i] \<Longrightarrow> snd (res_push 1 [i] s) = s\<lparr>ret_indexes_used := u\<rparr>"
  using fold_dl_delete [of "[i]" "u @ [i]"] by (simp add: res_push_def remove1_append)

text \<open>A pair taken and given back.\<close>

lemma create_pair_fails:
  assumes "create_pair E p g v s = (-1, t)" and pool: "mll_pool s"
  shows "mll_sp t = mll_sp s \<and> mll_stk t = mll_stk s \<and> mll_ts t = mll_ts s \<and> ret_indexes_used t = ret_indexes_used s"
proof (cases "mll_sp s \<ge> (if mll_ts s = 0 then 2 ^ 32 else mll_ts s) - 1")
  case True
  with assms(1) show ?thesis by (simp add: create_pair_def mll_get_def)
next
  case False
  then have "mll_sp s < mll_ts s" using pool by (auto simp: mll_pool_def split: if_splits)
  then have "mll_stk s (mll_sp s) \<in> {0 ..< int (mll_ts s)}" using pool by (force simp: mll_pool_def)
  then show ?thesis using assms(1) False
    by (auto simp: create_pair_def mll_get_def mll_put_def mll_write_all_def Let_def split: if_splits prod.splits
        dest!: arg_cong [where f = snd, of _ "(_, _)"])
qed

lemma create_pair_takes:
  assumes c: "create_pair E p g v s = (i, t)" and i: "i \<noteq> -1" and pool: "mll_pool s"
  shows "mll_sp t = mll_sp s + 1 \<and> mll_stk t = mll_stk s \<and> mll_stk s (mll_sp s) = i \<and> mll_ts t = mll_ts s \<and>
    ret_indexes_used t = ret_indexes_used s"
proof -
  have "\<not> mll_sp s \<ge> (if mll_ts s = 0 then 2 ^ 32 else mll_ts s) - 1" using c i by (auto simp: create_pair_def mll_get_def)
  moreover from this have "mll_sp s < mll_ts s" using pool by (auto simp: mll_pool_def split: if_splits)
  then have "mll_stk s (mll_sp s) \<in> {0 ..< int (mll_ts s)}" using pool by (force simp: mll_pool_def)
  ultimately show ?thesis using c i
    by (auto simp: create_pair_def mll_get_def mll_put_def mll_write_all_def Let_def pt_upd_def split: if_splits prod.splits
        dest!: arg_cong [where f = snd, of _ "(_, _)"])
qed

text \<open>C26. When the library refuses the pair or the route entry, \<open>mcre_create\<close> reports failure and
  has given back what it took: no entry is added, the route entry slots and the free pairs are as
  before.\<close>

theorem mcre_create_failure_restores:
  fixes s :: "'a mcre_st_scheme"
  assumes fail: "fst (mcre_create E dst src g v src_vid s) = -1" and pool: "mll_pool s"
    and s': "s' = snd (mcre_create E dst src g v src_vid s)"
  shows "mcret s' = mcret s \<and> ret_indexes_used s' = ret_indexes_used s \<and> mll_sp s' = mll_sp s \<and>
    mll_free s' = mll_free s"
proof (cases "res_pop 1 s")
  case None
  then show ?thesis by (simp add: s' mcre_create_def mcre_new_def)
next
  case (Some q)
  then obtain ids t where pop: "res_pop 1 s = Some (ids, t)" by (cases q) auto
  from res_pop_push_1 [OF pop] obtain i where i: "ids = [i]" "i \<notin> set (ret_indexes_used s)" "FIRST_REGULAR_RE_IDX \<le> i"
    "t = s\<lparr>ret_indexes_used := ret_indexes_used s @ [i]\<rparr>" by blast
  have neg: "- i < 0" "i \<noteq> -1" using i(3) by (simp_all add: FIRST_REGULAR_RE_IDX_def MGMT_IP_RE_IDX_def)
  obtain m u where c: "create_pair E (- i) g v t = (m, u)" by (cases "create_pair E (- i) g v t")
  have a: "add_node E (- i) g v t = (m, u)" using neg c by (simp add: add_node_def)
  have pt: "mll_pool t" "mll_sp t = mll_sp s" "mll_stk t = mll_stk s" "mll_ts t = mll_ts s"
    using pool by (simp_all add: i mll_pool_def)
  have mc: "mcret u = mcret t" using c
    by (auto simp: create_pair_def mll_get_def mll_put_def mll_write_all_def pt_upd_def crash_def split: if_splits prod.splits
        dest!: arg_cong [where f = snd, of _ "(_, _)"])
  show ?thesis
  proof (cases "m = -1")
    case True
    note F = create_pair_fails [OF c [unfolded True] pt(1)]
    have "s' = snd (res_push 1 [i] u)"
      using a pop i(1) True by (simp add: s' mcre_create_def mcre_new_def)
    then have "s' = u\<lparr>ret_indexes_used := ret_indexes_used s\<rparr>"
      using push_last [OF i(2), of u] F i(4) by simp
    then show ?thesis using F pt mc i(4) by (simp add: mll_free_def)
  next
    case False
    note T = create_pair_takes [OF c False pt(1)]
    let ?c = "\<lambda>d. Mc (McRouteEntriesWrite d i (mcre_entry src_vid m))"
    obtain rc w where w: "for_each_dev E ?c u = (rc, w)" by (cases "for_each_dev E ?c u")
    have wu: "w = u\<lparr>hw := dev_writes E ?c @ hw u\<rparr>" using for_each_dev_state [of E ?c u] w by simp
    have "s' = snd (res_push 1 [i] (snd (mll_put m w)))"
      using a pop i(1) False fail neg w by (auto simp: s' mcre_create_def mcre_new_def split: if_splits)
    moreover have "snd (mll_put m w) = w\<lparr>mll_sp := mll_sp s, mll_stk := mll_stk s\<rparr>"
      using T pt by (simp add: mll_put_def fun_upd_idem wu)
    ultimately have "s' = w\<lparr>mll_sp := mll_sp s, mll_stk := mll_stk s, ret_indexes_used := ret_indexes_used s\<rparr>"
      using push_last [OF i(2), of "snd (mll_put m w)"] T i(4) by (simp add: wu)
    then show ?thesis using T pt mc i(4) by (simp add: mll_free_def wu)
  qed
qed

definition mcre0 :: mcre_st where "mcre0 = mcg_st.extend (mll_state.extend mll0 (mcg_st.fields [])) (mcre_st.fields [] (\<lambda>_. mk_key [] [] 0))"

definition env_no_mc :: env where
  "env_no_mc = env0\<lparr>e_gt := \<lambda>h x. case x of Mc (McRouteEntriesWrite d i e) \<Rightarrow> GT_HW_ERROR | _ \<Rightarrow> GT_OK\<rparr>"

theorem mcre_create_failure_restores_witness:
  "ret_indexes_used (snd (mcre_create env_no_mc [225, 0, 0, 1] [0, 0, 0, 0] 7 10 20 mcre0)) = ret_indexes_used mcre0 \<and>
   mll_free (snd (mcre_create env_no_mc [225, 0, 0, 1] [0, 0, 0, 0] 7 10 20 mcre0)) = mll_free mcre0"
proof -
  have f: "fst (mcre_create env_no_mc [225, 0, 0, 1] [0, 0, 0, 0] 7 10 20 mcre0) = -1" by code_simp
  have "mll_pool mcre0 = mll_pool mll0" by (simp add: mcre0_def mll_pool_def mll_state.defs mcg_st.defs mcre_st.defs)
  then have p: "mll_pool mcre0" using mll0_pool by simp
  show ?thesis using mcre_create_failure_restores [OF f p refl] by blast
qed

end
