(* ===== verification/Vlan.thy ===== *)
theory Vlan
  imports Mcre
begin

text \<open>
  The VLAN table (\<open>src/vlan.c\<close>): creation and deletion of VLANs with their hardware entry and
  port membership, the spanning tree groups in use, the VLAN's own MAC and management
  addresses, and the operations on ranges. The array \<open>vlans\<close> has \<open>NVLANS\<close> elements, for VLANs
  1 to 4094; the service VLAN 4095 has none.
\<close>

section \<open>State\<close>

datatype vlan_state = VS_DELETED | VS_SHUTDOWN | VS_ACTIVE

datatype stp_state =
    STP_STATE_DISABLED | STP_STATE_DISCARDING | STP_STATE_LEARNING | STP_STATE_FORWARDING

text \<open>The management address is its four bytes in memory order, read as \<open>GT_IPADDR.u32Ip\<close>.\<close>

record vlan =
  vl_vid :: vid
  vl_stp_id :: nat
  vl_c_cpu :: bool
  vl_mac_addr_set :: bool
  vl_c_mac_addr :: mac
  vl_ip_addr_set :: bool
  vl_c_ip_addr :: u32
  vl_vt_refc :: int
  vl_state :: vlan_state

record vlan_st = mcre_st +
  vlans :: "nat \<Rightarrow> vlan"
  stgs :: "nat \<Rightarrow> u32"
  stg_state :: "nat \<Rightarrow> nat \<Rightarrow> stp_state"
  vlan_dot1q_tag_native :: bool
  vlan_xlate_tunnel :: bool
  route_mac_lsb :: u8

definition NVLANS :: nat where "NVLANS = 4094"
definition SVC_VID :: vid where "SVC_VID = 4095"

text \<open>Access to \<open>vlans[v - 1]\<close>: the element, and an update of it.\<close>

definition vlan_at :: "vid \<Rightarrow> 'a vlan_st_scheme \<Rightarrow> vlan" where
  "vlan_at v s = vlans s (unat v - 1)"

definition vlan_in_array :: "vid \<Rightarrow> bool" where
  "vlan_in_array v \<longleftrightarrow> 1 \<le> unat v \<and> unat v \<le> NVLANS"

definition vlan_upd :: "vid \<Rightarrow> (vlan \<Rightarrow> vlan) \<Rightarrow> 'a vlan_st_scheme \<Rightarrow> 'a vlan_st_scheme" where
  "vlan_upd v f s =
     (if vlan_in_array v then s\<lparr>vlans := (vlans s)(unat v - 1 := f (vlan_at v s))\<rparr> else crash s)"

section \<open>Spanning tree groups in use\<close>

text \<open>A bitmap of 256 bits in 64 words, of which four bits each are used.\<close>

definition STG_IDX :: "nat \<Rightarrow> nat" where "STG_IDX stg = stg div 4"
definition STG_BIT :: "nat \<Rightarrow> u32" where "STG_BIT stg = push_bit (stg mod 4) 1"

definition stgs_clear :: "'a vlan_st_scheme \<Rightarrow> 'a vlan_st_scheme" where
  "stgs_clear s = s\<lparr>stgs := (\<lambda>_. 0)\<rparr>"

definition stg_is_active :: "nat \<Rightarrow> 'a vlan_st_scheme \<Rightarrow> bool" where
  "stg_is_active stg s \<longleftrightarrow> stgs s (STG_IDX stg) AND STG_BIT stg \<noteq> 0"

definition stg_set_active :: "nat \<Rightarrow> 'a vlan_st_scheme \<Rightarrow> 'a vlan_st_scheme" where
  "stg_set_active stg s =
     s\<lparr>stgs := (stgs s)(STG_IDX stg := stgs s (STG_IDX stg) OR STG_BIT stg)\<rparr>"

definition stg_set_inactive :: "nat \<Rightarrow> 'a vlan_st_scheme \<Rightarrow> 'a vlan_st_scheme" where
  "stg_set_inactive stg s =
     s\<lparr>stgs := (stgs s)(STG_IDX stg := stgs s (STG_IDX stg) AND NOT (STG_BIT stg))\<rparr>"

section \<open>Port membership\<close>

text \<open>What \<open>setup_tagging\<close> computes for one device: members, tagged members, commands.\<close>

type_synonym tagging = "nat set \<times> nat set \<times> (nat \<Rightarrow> tag_cmd)"

definition tag_member :: "nat \<Rightarrow> tag_cmd \<Rightarrow> tagging \<Rightarrow> tagging" where
  "tag_member p c t = (case t of (m, g, cmd) \<Rightarrow> (insert p m, g, cmd(p := c)))"

definition tag_tagged :: "nat \<Rightarrow> tagging \<Rightarrow> tagging" where
  "tag_tagged p t = (case t of (m, g, cmd) \<Rightarrow> (m, insert p g, cmd))"

definition tag_ic_ports :: "env \<Rightarrow> nat \<Rightarrow> tagging" where
  "tag_ic_ports E d =
     fold (\<lambda>p t. tag_tagged p (tag_member p OUTER_TAG0_INNER_TAG1_CMD t)) (e_ic_ports E d)
       ({}, {}, \<lambda>_. UNTAGGED_CMD)"

text \<open>
  The switch over a port's mode. A stack port is entered in the first device's tables (the
  source writes \<open>members\<close>, not \<open>members[d]\<close>), on whatever device it sits.
\<close>

definition tag_port :: "vid \<Rightarrow> port \<Rightarrow> 'a vlan_st_scheme \<Rightarrow> (nat \<Rightarrow> tagging) \<Rightarrow> (nat \<Rightarrow> tagging)" where
  "tag_port v port s t =
     (let d = pt_ldev port; p = pt_lport port; i = unat v - 1 in
      if is_stack_port port s then t(0 := tag_member p OUTER_TAG0_INNER_TAG1_CMD (t 0))
      else case pt_mode port of
        PM_ACCESS \<Rightarrow>
          if pt_access_vid port = v then t(d := tag_member p UNTAGGED_CMD (t d))
          else if pt_voice_vid port = v then t(d := tag_member p OUTER_TAG0_INNER_TAG1_CMD (t d))
          else t
      | PM_TRUNK \<Rightarrow>
          if pt_native_vid port = v \<or> tallow port i \<or> refc port i \<noteq> 0 then
            if refc port i \<noteq> 0 then
              t(d := tag_tagged p (tag_member p
                (if vlan_xlate_tunnel s then POP_OUTER_TAG_CMD else TAG0_CMD) (t d)))
            else if pt_native_vid port = v then
              t(d := tag_tagged p (tag_member p
                (if vlan_dot1q_tag_native s then OUTER_TAG0_INNER_TAG1_CMD else UNTAGGED_CMD) (t d)))
            else if vl_vt_refc (vlan_at v s) \<noteq> 0 \<and> vlan_xlate_tunnel s then
              t(d := tag_tagged p (tag_member p TAG0_CMD (t d)))
            else t(d := tag_member p OUTER_TAG0_INNER_TAG1_CMD (t d))
          else t
      | PM_CUSTOMER \<Rightarrow>
          if pt_customer_vid port = v then t(d := tag_member p POP_OUTER_TAG_CMD (t d)) else t)"

definition setup_tagging :: "env \<Rightarrow> vid \<Rightarrow> 'a vlan_st_scheme \<Rightarrow> nat \<Rightarrow> tagging" where
  "setup_tagging E v s = fold (\<lambda>port. tag_port v port s) (ports s) (tag_ic_ports E)"

section \<open>Creation and deletion\<close>

text \<open>\<open>for_each_dev\<close> with a \<open>break\<close> at the first error.\<close>

fun for_devs_break :: "env \<Rightarrow> (nat \<Rightarrow> effect) \<Rightarrow> nat list \<Rightarrow> 'a sw_scheme \<Rightarrow> gt_status \<times> 'a sw_scheme" where
  "for_devs_break E call [] s = (GT_OK, s)"
| "for_devs_break E call (d # ds) s =
     (case crp E (call d) s of (rc, s) \<Rightarrow>
        if rc \<noteq> GT_OK then (rc, s) else for_devs_break E call ds s)"

definition vlan_hw_entry :: "tagging \<Rightarrow> nat \<Rightarrow> vlan_entry" where
  "vlan_hw_entry t stp_id =
     (case t of (m, g, cmd) \<Rightarrow>
        \<lparr>ve_members = m, ve_tagging = g, ve_cmd = cmd, ve_stgId = stp_id, ve_ipCtrlToCpu = False,
         ve_unregIpv4BcastCmd = CMD_FORWARD\<rparr>)"

text \<open>\<open>__vlan_add\<close>; for the service VLAN it reads and writes past the end of \<open>vlans\<close>.\<close>

definition vlan_add_unchecked :: "env \<Rightarrow> vid \<Rightarrow> 'a vlan_st_scheme \<Rightarrow> status \<times> 'a vlan_st_scheme" where
  "vlan_add_unchecked E v s =
     (let stp_id = vl_stp_id (vlan_at v s); t = setup_tagging E v s in
      case for_devs_break E (\<lambda>d. Vl (VlanEntryWrite d v (vlan_hw_entry (t d) stp_id))) [0 ..< e_ndevs E] s of
        (GT_OK, s) \<Rightarrow>
          let s = snd (for_each_dev E (\<lambda>d. Vl (RouterVlanMacSaLsbSet d v (route_mac_lsb s))) s) in
          (ST_OK, vlan_upd v (\<lambda>x. x\<lparr>vl_state := VS_ACTIVE\<rparr>) s)
      | (GT_HW_ERROR, s) \<Rightarrow> (ST_HW_ERROR, s)
      | (_, s) \<Rightarrow> (ST_HEX, s))"

definition vlan_add :: "env \<Rightarrow> vid \<Rightarrow> 'a vlan_st_scheme \<Rightarrow> status \<times> 'a vlan_st_scheme" where
  "vlan_add E v s = (if \<not> vlan_valid v then (ST_BAD_VALUE, s) else vlan_add_unchecked E v s)"

definition mac_op_own :: "vid \<Rightarrow> mac \<Rightarrow> bool \<Rightarrow> 'a sw_scheme \<Rightarrow> 'a sw_scheme" where
  "mac_op_own v addr add s = emit (Msg (MacOpOwn v addr add)) s"

definition vlan_clear_mac_addr :: "vid \<Rightarrow> 'a vlan_st_scheme \<Rightarrow> 'a vlan_st_scheme" where
  "vlan_clear_mac_addr v s =
     (let vlan = vlan_at v s in
      if vl_mac_addr_set vlan then
        vlan_upd v (\<lambda>x. x\<lparr>vl_mac_addr_set := False\<rparr>)
          (mac_op_own (vl_vid vlan) (vl_c_mac_addr vlan) False s)
      else s)"

definition vlan_reconf_cpu :: "env \<Rightarrow> vid \<Rightarrow> bool \<Rightarrow> 'a sw_scheme \<Rightarrow> 'a sw_scheme" where
  "vlan_reconf_cpu E v cpu s =
     fold (\<lambda>d s.
       let r = e_vlan_read E (hw s) d v;
           s = snd (crp E (Vl (VlanEntryRead d v)) s);
           e = (fst r)\<lparr>ve_ipCtrlToCpu := cpu,
                      ve_unregIpv4BcastCmd := (if cpu then CMD_MIRROR_TO_CPU else CMD_FORWARD)\<rparr>;
           s = snd (crp E (Vl (VlanEntryWrite d v e)) s) in
       if \<not> snd r then snd (crp E (Vl (VlanEntryInvalidate d v)) s) else s) [0 ..< e_ndevs E] s"

definition pdsa_vlan_if_op :: "vid \<Rightarrow> bool \<Rightarrow> 'a sw_scheme \<Rightarrow> status \<times> 'a sw_scheme" where
  "pdsa_vlan_if_op v add s = (ST_OK, emit (Msg (PdsaVlanIfOp v add)) s)"

definition vlan_set_cpu :: "env \<Rightarrow> vid \<Rightarrow> bool \<Rightarrow> 'a vlan_st_scheme \<Rightarrow> status \<times> 'a vlan_st_scheme" where
  "vlan_set_cpu E v cpu s =
     (if \<not> vlan_valid v then (ST_BAD_VALUE, s)
      else
        let s = vlan_reconf_cpu E v cpu s in
        if vl_c_cpu (vlan_at v s) = cpu then (ST_OK, s)
        else
          let s = vlan_upd v (\<lambda>x. x\<lparr>vl_c_cpu := cpu\<rparr>) s;
              s = (if \<not> cpu then vlan_clear_mac_addr v s else s) in
          pdsa_vlan_if_op v cpu s)"

definition vlan_delete :: "env \<Rightarrow> vid \<Rightarrow> 'a vlan_st_scheme \<Rightarrow> status \<times> 'a vlan_st_scheme" where
  "vlan_delete E v s =
     (if \<not> vlan_valid v then (ST_BAD_VALUE, s)
      else
        (case for_devs_break E (\<lambda>d. Vl (VlanEntryInvalidate d v)) [0 ..< e_ndevs E] s of (rc, s) \<Rightarrow>
           let s = emit (Msg (MacFlushVif v)) s in
           if rc = GT_OK then vlan_set_cpu E v False (vlan_upd v (\<lambda>x. x\<lparr>vl_state := VS_DELETED\<rparr>) s)
           else (ST_HEX, s)))"

section \<open>Ranges\<close>

text \<open>The three range operations are one loop with three bodies. An array element above 10000
  marks the start of a range whose end is in the next element.\<close>

definition IS_IN_RANGE :: "u16 \<Rightarrow> bool" where
  "IS_IN_RANGE v \<longleftrightarrow> v > 10000"

fun vlan_try :: "(vid \<Rightarrow> 's \<Rightarrow> status \<times> 's) \<Rightarrow> vid list \<Rightarrow> 's \<Rightarrow> status \<times> 's" where
  "vlan_try op [] s = (ST_OK, s)"
| "vlan_try op (v # vs) s =
     (case op v s of (result, s) \<Rightarrow> if result \<noteq> ST_OK then (result, s) else vlan_try op vs s)"

definition vlan_interval :: "u16 \<Rightarrow> u16 \<Rightarrow> vid list" where
  "vlan_interval a b = map of_nat [unat a - 10000 ..< Suc (unat b) - 10000]"

text \<open>A marker in the last element makes the loop read past the array, and its size wrap.\<close>

fun vlan_range :: "(vid \<Rightarrow> 's \<Rightarrow> status \<times> 's) \<Rightarrow> ('s \<Rightarrow> 's) \<Rightarrow> u16 list \<Rightarrow> 's \<Rightarrow> status \<times> 's" where
  "vlan_range op bad [] s = (ST_OK, s)"
| "vlan_range op bad [a] s =
     (if IS_IN_RANGE a then (ST_OK, bad s)
      else (case op a s of (result, s) \<Rightarrow> if result \<noteq> ST_OK then (result, s) else (ST_OK, s)))"
| "vlan_range op bad (a # b # arr) s =
     (if IS_IN_RANGE a then
        (case vlan_try op (vlan_interval a b) s of (result, s) \<Rightarrow>
           if result \<noteq> ST_OK then (result, s) else vlan_range op bad arr s)
      else
        (case op a s of (result, s) \<Rightarrow>
           if result \<noteq> ST_OK then (result, s) else vlan_range op bad (b # arr) s))"

definition vlan_add_range :: "env \<Rightarrow> u16 list \<Rightarrow> 'a vlan_st_scheme \<Rightarrow> status \<times> 'a vlan_st_scheme" where
  "vlan_add_range E arr s = vlan_range (vlan_add E) crash arr s"

definition vlan_delete_range :: "env \<Rightarrow> u16 list \<Rightarrow> 'a vlan_st_scheme \<Rightarrow> status \<times> 'a vlan_st_scheme" where
  "vlan_delete_range E arr s = vlan_range (vlan_delete E) crash arr s"

definition vlan_set_cpu_range :: "env \<Rightarrow> u16 list \<Rightarrow> bool \<Rightarrow> 'a vlan_st_scheme \<Rightarrow> status \<times> 'a vlan_st_scheme" where
  "vlan_set_cpu_range E arr cpu s = vlan_range (\<lambda>v. vlan_set_cpu E v cpu) crash arr s"

section \<open>Spanning tree groups of VLANs\<close>

text \<open>The stp id is unsigned. No check of \<open>v\<close>.\<close>

definition vlan_set_stp_id :: "env \<Rightarrow> vid \<Rightarrow> nat \<Rightarrow> 'a vlan_st_scheme \<Rightarrow> status \<times> 'a vlan_st_scheme" where
  "vlan_set_stp_id E v stp s =
     (if stp > 255 then (ST_BAD_VALUE, s)
      else
        let old = vl_stp_id (vlan_at v s);
            shared = list_ex (\<lambda>i. i \<noteq> unat v - 1 \<and> vl_stp_id (vlans s i) = old \<and>
                                  stg_is_active (vl_stp_id (vlans s i)) s) [0 ..< NVLANS];
            s = (if \<not> shared then stg_set_inactive old s else s);
            s = vlan_upd v (\<lambda>x. x\<lparr>vl_stp_id := stp\<rparr>) s;
            s = stg_set_active stp s in
        (ST_OK, fold (\<lambda>d s.
            fold (\<lambda>p s. snd (crp E (Vl (StpStateSetForward d p stp)) s)) (e_ic_ports E d)
              (snd (crp E (Vl (VlanToStpIdBind d v stp)) s))) [0 ..< e_ndevs E] s))"

definition vlan_set_fdb_map :: "env \<Rightarrow> (nat \<Rightarrow> nat) \<Rightarrow> 'a vlan_st_scheme \<Rightarrow> status \<times> 'a vlan_st_scheme" where
  "vlan_set_fdb_map E ids s =
     (if list_ex (\<lambda>i. ids i > 255) [0 ..< NVLANS] then (ST_BAD_VALUE, s)
      else (ST_OK, fold (\<lambda>i s. snd (vlan_set_stp_id E (of_nat (i + 1)) (ids i) s)) [0 ..< NVLANS] (stgs_clear s)))"

definition vlan_get_stp_id :: "vid \<Rightarrow> 'a vlan_st_scheme \<Rightarrow> status \<times> nat option" where
  "vlan_get_stp_id v s =
     (if \<not> vlan_valid v then (ST_BAD_VALUE, None) else (ST_OK, Some (vl_stp_id (vlan_at v s))))"

definition vlan_port_is_forwarding_on_vlan :: "nat \<Rightarrow> vid \<Rightarrow> 'a vlan_st_scheme \<Rightarrow> bool" where
  "vlan_port_is_forwarding_on_vlan pid v s =
     (case stg_state s (pid - 1) (vl_stp_id (vlan_at v s)) of
        STP_STATE_FORWARDING \<Rightarrow> True | STP_STATE_DISABLED \<Rightarrow> True | _ \<Rightarrow> False)"

section \<open>Addresses of VLANs\<close>

definition vlan_set_mac_addr :: "vid \<Rightarrow> mac \<Rightarrow> 'a vlan_st_scheme \<Rightarrow> 'a vlan_st_scheme" where
  "vlan_set_mac_addr v addr s =
     (let s = vlan_clear_mac_addr v s;
          s = vlan_upd v (\<lambda>x. x\<lparr>vl_c_mac_addr := addr\<rparr>) s;
          s = mac_op_own (vl_vid (vlan_at v s)) addr True s in
      vlan_upd v (\<lambda>x. x\<lparr>vl_mac_addr_set := True\<rparr>) s)"

definition vlan_set_mac_lsb :: "env \<Rightarrow> 'a vlan_st_scheme \<Rightarrow> 'a vlan_st_scheme" where
  "vlan_set_mac_lsb E s =
     fold (\<lambda>i s. if vl_state (vlans s i) \<noteq> VS_DELETED
                 then snd (for_each_dev E (\<lambda>d. Vl (RouterVlanMacSaLsbSet d (vl_vid (vlans s i)) (route_mac_lsb s))) s)
                 else s) [0 ..< NVLANS] s"

text \<open>\<open>route_set_router_mac_addr\<close> of \<open>src/route.c\<close>.\<close>

definition route_set_router_mac_addr :: "env \<Rightarrow> mac \<Rightarrow> 'a vlan_st_scheme \<Rightarrow> status \<times> 'a vlan_st_scheme" where
  "route_set_router_mac_addr E addr s =
     (let s = s\<lparr>route_mac_lsb := frame_byte addr 5\<rparr> in
      (ST_OK, fold (\<lambda>d s. vlan_set_mac_lsb E (snd (crp E (Uc (RouterMacSaBaseSet d addr)) s)))
                [0 ..< e_ndevs E] s))"

definition vlan_get_mac_addr :: "vid \<Rightarrow> 'a vlan_st_scheme \<Rightarrow> status \<times> mac option" where
  "vlan_get_mac_addr v s =
     (if \<not> vlan_valid v then (ST_BAD_VALUE, None) else (ST_OK, Some (vl_c_mac_addr (vlan_at v s))))"

definition vlan_get_ip_addr :: "vid \<Rightarrow> 'a vlan_st_scheme \<Rightarrow> status \<times> u32 option" where
  "vlan_get_ip_addr v s =
     (if \<not> vlan_valid v then (ST_BAD_VALUE, None) else (ST_OK, Some (vl_c_ip_addr (vlan_at v s))))"

text \<open>\<open>memcpy\<close> copies \<open>sizeof (addr)\<close> bytes, which is the size of a pointer: the four bytes of
  the address on a 32-bit host, as modelled here.\<close>

definition vlan_set_ip_addr :: "env \<Rightarrow> vid \<Rightarrow> u32 \<Rightarrow> 'a vlan_st_scheme \<Rightarrow> status \<times> 'a vlan_st_scheme" where
  "vlan_set_ip_addr E v addr s =
     (if \<not> vlan_valid v then (ST_BAD_VALUE, s)
      else
        let s = (if vl_ip_addr_set (vlan_at v s) then snd (route_del_mgmt_ip E (vl_c_ip_addr (vlan_at v s)) s)
                 else s);
            s = snd (route_add_mgmt_ip E addr s) in
        (ST_OK, vlan_upd v (\<lambda>x. x\<lparr>vl_c_ip_addr := addr, vl_ip_addr_set := True\<rparr>) s))"

definition vlan_del_ip_addr :: "env \<Rightarrow> vid \<Rightarrow> 'a vlan_st_scheme \<Rightarrow> status \<times> 'a vlan_st_scheme" where
  "vlan_del_ip_addr E v s =
     (if \<not> vlan_valid v then (ST_BAD_VALUE, s)
      else if \<not> vl_ip_addr_set (vlan_at v s) then (ST_DOES_NOT_EXIST, s)
      else
        let s = snd (route_del_mgmt_ip E (vl_c_ip_addr (vlan_at v s)) s) in
        (ST_OK, vlan_upd v (\<lambda>x. x\<lparr>vl_ip_addr_set := False\<rparr>) s))"

section \<open>Other settings\<close>

definition vlan_member_set :: "env \<Rightarrow> port \<Rightarrow> vid \<Rightarrow> bool \<Rightarrow> bool \<Rightarrow> tag_cmd \<Rightarrow> 'a sw_scheme \<Rightarrow> gt_status \<times> 'a sw_scheme" where
  "vlan_member_set E port v member tag cmd s =
     crp E (Vl (VlanMemberSet (pt_ldev port) v (pt_lport port) member tag cmd)) s"

fun tag_native_loop :: "env \<Rightarrow> bool \<Rightarrow> tag_cmd \<Rightarrow> port list \<Rightarrow> 'a sw_scheme \<Rightarrow> gt_status \<times> 'a sw_scheme" where
  "tag_native_loop E tag cmd [] s = (GT_OK, s)"
| "tag_native_loop E tag cmd (p # ps) s =
     (if pt_mode p = PM_TRUNK \<and> refc p (unat (pt_native_vid p) - 1) = 0 then
        (case vlan_member_set E p (pt_native_vid p) True tag cmd s of (rc, s) \<Rightarrow>
           if rc \<noteq> GT_OK then (rc, s) else tag_native_loop E tag cmd ps s)
      else tag_native_loop E tag cmd ps s)"

definition vlan_set_dot1q_tag_native :: "env \<Rightarrow> bool \<Rightarrow> 'a vlan_st_scheme \<Rightarrow> status \<times> 'a vlan_st_scheme" where
  "vlan_set_dot1q_tag_native E value s =
     (case (if value \<noteq> vlan_dot1q_tag_native s
            then tag_native_loop E value (if value then TAG0_CMD else UNTAGGED_CMD) (ports s) s
            else (GT_OK, s)) of
        (rc, s) \<Rightarrow>
          if rc = GT_OK then (ST_OK, s\<lparr>vlan_dot1q_tag_native := value\<rparr>) else (gt_to_status rc, s))"

definition vlan_svc_enable_port :: "env \<Rightarrow> u16 \<Rightarrow> bool \<Rightarrow> 'a vlan_st_scheme \<Rightarrow> 'a vlan_st_scheme" where
  "vlan_svc_enable_port E pid en s =
     (case port_ptr pid s of
        None \<Rightarrow> s
      | Some port \<Rightarrow>
          if is_stack_port port s then s
          else snd (vlan_member_set E port SVC_VID en False UNTAGGED_CMD s))"

definition vlan_set_remote_span :: "env \<Rightarrow> vid \<Rightarrow> bool \<Rightarrow> 'a vlan_st_scheme \<Rightarrow> status \<times> 'a vlan_st_scheme" where
  "vlan_set_remote_span E v enable s =
     (if \<not> vlan_valid v then (ST_BAD_VALUE, s)
      else (case for_each_dev E (\<lambda>d. Vl (VlanNaToCpuEnable d v (\<not> enable))) s of
              (rc, s) \<Rightarrow> (gt_to_status rc, s)))"

definition vlan_stack_setup :: "env \<Rightarrow> 'a vlan_st_scheme \<Rightarrow> 'a vlan_st_scheme" where
  "vlan_stack_setup E s = snd (vlan_add_unchecked E 4095 s)"

definition vlan_mc_route :: "env \<Rightarrow> vid \<Rightarrow> bool \<Rightarrow> 'a vlan_st_scheme \<Rightarrow> status \<times> 'a vlan_st_scheme" where
  "vlan_mc_route E v enable s =
     (if \<not> vlan_valid v then (ST_BAD_VALUE, s)
      else (ST_OK, fold (\<lambda>d s.
        snd (crp E (Vl (VlanFloodVidxModeSet d v (if enable then 4092 else 4095)))
          (snd (crp E (Vl (VlanIpMcRouteEnable d v enable)) s)))) [0 ..< e_ndevs E] s))"

text \<open>\<open>vlan_init\<close>. Of the device settings with constant arguments only the first, which empties
  the table, is kept.\<close>

definition vlan_init :: "env \<Rightarrow> 'a vlan_st_scheme \<Rightarrow> 'a vlan_st_scheme" where
  "vlan_init E s =
     (let s = fold (\<lambda>i s. vlan_upd (of_nat (i + 1))
                (\<lambda>x. x\<lparr>vl_vid := of_nat (i + 1), vl_stp_id := 0, vl_c_cpu := False, vl_mac_addr_set := False,
                      vl_state := VS_DELETED, vl_vt_refc := 0\<rparr>) s) [0 ..< NVLANS] s;
          s = fold (\<lambda>d s. snd (crp E (Mc (McEntryWrite d 4092 {})) (snd (crp E (Vl (VlanTableInvalidate d)) s))))
                [0 ..< e_ndevs E] s;
          s = snd (vlan_set_fdb_map E (\<lambda>_. 0) s);
          s = s\<lparr>stg_state := (\<lambda>_ _. STP_STATE_DISABLED)\<rparr>;
          s = snd (vlan_add E 1 s) in
      snd (vlan_add_unchecked E SVC_VID s))"

section \<open>A table of VLANs\<close>

definition vlan0 :: vlan_st where
  "vlan0 = mcre_st.extend (mcg_st.extend (mll_state.extend mll0 (mcg_st.fields [])) (mcre_st.fields [] (\<lambda>_. mk_key [] [] 0)))
     (vlan_st.fields (\<lambda>i. \<lparr>vl_vid = of_nat (i + 1), vl_stp_id = 0, vl_c_cpu = False, vl_mac_addr_set = False,
        vl_c_mac_addr = replicate 6 0, vl_ip_addr_set = False, vl_c_ip_addr = 0, vl_vt_refc = 0, vl_state = VS_DELETED\<rparr>)
       ((\<lambda>_. 0)(0 := 1)) (\<lambda>_ _. STP_STATE_DISABLED) False False 0)"

section \<open>Expanding ranges\<close>

text \<open>The list of VLANs a range array stands for; an array whose last element is a marker stands
  for none.\<close>

fun range_vlans :: "u16 list \<Rightarrow> vid list option" where
  "range_vlans [] = Some []"
| "range_vlans [a] = (if IS_IN_RANGE a then None else Some [a])"
| "range_vlans (a # b # arr) =
     (if IS_IN_RANGE a then map_option (\<lambda>r. vlan_interval a b @ r) (range_vlans arr)
      else map_option (\<lambda>r. a # r) (range_vlans (b # arr)))"

lemma vlan_try_append:
  "vlan_try op (xs @ ys) s =
     (case vlan_try op xs s of (r, t) \<Rightarrow> if r \<noteq> ST_OK then (r, t) else vlan_try op ys t)"
  by (induction xs arbitrary: s) (auto split: prod.splits)

lemma vlan_range_eq:
  "range_vlans arr = Some vs \<Longrightarrow> vlan_range op bad arr s = vlan_try op vs s"
proof (induction op bad arr s arbitrary: vs rule: vlan_range.induct)
  case (3 op bad a b arr s)
  show ?case
  proof (cases "IS_IN_RANGE a")
    case True
    with "3.prems" obtain r where r: "range_vlans arr = Some r" "vs = vlan_interval a b @ r" by auto
    from "3.IH"(1) [OF True] r True show ?thesis by (auto simp: vlan_try_append split: prod.splits)
  next
    case False
    with "3.prems" obtain r where r: "range_vlans (b # arr) = Some r" "vs = a # r" by auto
    from "3.IH"(2) [OF False] r False show ?thesis by (auto split: prod.splits)
  qed
qed (auto split: if_splits prod.splits)

text \<open>Adding a range is adding each VLAN it stands for, in order, up to the first that fails:
  for every array that does not end in a range marker the loop does exactly what the list of its
  VLANs does.\<close>

theorem vlan_add_range_expands:
  assumes "range_vlans arr = Some vs"
  shows "vlan_add_range E arr s = vlan_try (vlan_add E) vs s \<and>
    vlan_delete_range E arr s = vlan_try (vlan_delete E) vs s \<and>
    vlan_set_cpu_range E arr cpu s = vlan_try (\<lambda>v. vlan_set_cpu E v cpu) vs s"
  unfolding vlan_add_range_def vlan_delete_range_def vlan_set_cpu_range_def
  by (intro conjI vlan_range_eq [OF assms])

theorem vlan_add_range_expands_witness:
  "vlan_add_range env0 [5, 10010, 10012, 7] vlan0 = vlan_try (vlan_add env0) [5, 10, 11, 12, 7] vlan0"
proof -
  have r: "range_vlans [5, 10010, 10012, 7] = Some [5, 10, 11, 12, 7]" by (simp add: vlan_interval_def IS_IN_RANGE_def upt_rec)
  show ?thesis by (rule conjunct1 [OF vlan_add_range_expands [OF r]])
qed

section \<open>Spanning tree groups\<close>

text \<open>The active groups are those of the VLANs in \<open>A\<close>.\<close>

definition stgs_of :: "nat set \<Rightarrow> 'a vlan_st_scheme \<Rightarrow> bool" where
  "stgs_of A s \<longleftrightarrow> (\<forall>stg \<le> 255. stg_is_active stg s \<longleftrightarrow> (\<exists>i \<in> A. vl_stp_id (vlans s i) = stg))"

lemma stg_bit_iff: "bit (STG_BIT stg) k \<longleftrightarrow> k = stg mod 4"
proof -
  have "stg mod 4 < 32" by (rule less_trans [of _ 4]) simp_all
  then show ?thesis by (auto simp: STG_BIT_def bit_exp_iff)
qed

lemma stg_active_bit: "stg_is_active stg s \<longleftrightarrow> bit (stgs s (stg div 4)) (stg mod 4)"
proof -
  have "stgs s (stg div 4) AND STG_BIT stg \<noteq> 0 \<longleftrightarrow> (\<exists>k. bit (stgs s (stg div 4) AND STG_BIT stg) k)"
    by (metis bit_eqI bit_0_eq bot_apply bot_bool_def)
  then show ?thesis by (auto simp: stg_is_active_def STG_IDX_def bit_and_iff stg_bit_iff)
qed

lemma stg_same: "stg div 4 = stg' div 4 \<Longrightarrow> stg mod 4 = stg' mod 4 \<Longrightarrow> stg = (stg' :: nat)"
  by (metis div_mult_mod_eq)

lemma stg_set_active_iff [simp]:
  "stg_is_active stg (stg_set_active stg' s) \<longleftrightarrow> stg = stg' \<or> stg_is_active stg s"
  using stg_same [of stg stg']
  by (auto simp: stg_active_bit stg_set_active_def STG_IDX_def bit_or_iff stg_bit_iff)

lemma stg_set_inactive_iff [simp]:
  "stg_is_active stg (stg_set_inactive stg' s) \<longleftrightarrow> stg \<noteq> stg' \<and> stg_is_active stg s"
  using stg_same [of stg stg']
  by (auto simp: stg_active_bit stg_set_inactive_def STG_IDX_def bit_and_iff bit_not_iff stg_bit_iff)

lemma stg_frames [simp]:
  "vlans (stg_set_active k s) = vlans s" "vlans (stg_set_inactive k s) = vlans s"
  "stgs (snd (crp E x s)) = stgs s" "vlans (snd (crp E x s)) = vlans s"
  by (simp_all add: stg_set_active_def stg_set_inactive_def crp_def emit_def)

lemma stg_hw_fold:
  assumes "\<And>x (s :: 'a vlan_st_scheme). stgs (f x s) = stgs s \<and> vlans (f x s) = vlans s"
  shows "stgs (fold f xs s) = stgs s \<and> vlans (fold f xs s) = vlans s"
  using assms by (induction xs arbitrary: s) simp_all

lemma stgs_of_cong: "stgs t = stgs s \<Longrightarrow> vlans t = vlans s \<Longrightarrow> stgs_of A t = stgs_of A s"
  by (simp add: stgs_of_def stg_active_bit)

lemma stg_active_upd [simp]: "stg_is_active k (vlan_upd v f s) = stg_is_active k s"
  by (simp add: stg_active_bit vlan_upd_def crash_def)

lemma vlan_set_stp_id_stgs:
  fixes s :: "'a vlan_st_scheme"
  assumes stp: "stp \<le> 255" and v: "vlan_in_array v" and A: "A \<subseteq> {..<NVLANS}"
    and J: "stgs_of A s" and full: "A = {..<NVLANS} \<or> unat v - 1 \<notin> A"
  shows "stgs_of (insert (unat v - 1) A) (snd (vlan_set_stp_id E v stp s)) \<and>
    vlans (snd (vlan_set_stp_id E v stp s)) = (vlans s)(unat v - 1 := (vlan_at v s)\<lparr>vl_stp_id := stp\<rparr>)"
proof -
  let ?i = "unat v - 1" and ?old = "vl_stp_id (vlan_at v s)"
  define shared where "shared = list_ex (\<lambda>i. i \<noteq> ?i \<and> vl_stp_id (vlans s i) = ?old \<and> stg_is_active (vl_stp_id (vlans s i)) s) [0 ..< NVLANS]"
  let ?t = "stg_set_active stp (vlan_upd v (\<lambda>x. x\<lparr>vl_stp_id := stp\<rparr>) (if \<not> shared then stg_set_inactive ?old s else s))"
  have t: "vlans ?t = (vlans s)(?i := (vlan_at v s)\<lparr>vl_stp_id := stp\<rparr>)"
    using v by (simp add: vlan_upd_def vlan_at_def)
  have act: "stg_is_active k ?t \<longleftrightarrow> k = stp \<or> (stg_is_active k s \<and> (shared \<or> k \<noteq> ?old))" for k
    by auto
  have sh: "shared \<longleftrightarrow> (\<exists>i < NVLANS. i \<noteq> ?i \<and> vl_stp_id (vlans s i) = ?old \<and> stg_is_active ?old s)"
    by (auto simp: list_ex_iff shared_def)
  have "stgs_of (insert ?i A) ?t"
    unfolding stgs_of_def
  proof (intro allI impI)
    fix k :: nat assume k: "k \<le> 255"
    have Jk: "stg_is_active k s \<longleftrightarrow> (\<exists>i \<in> A. vl_stp_id (vlans s i) = k)" using J k by (simp add: stgs_of_def)
    have new: "(\<exists>i \<in> insert ?i A. vl_stp_id (vlans ?t i) = k) \<longleftrightarrow> k = stp \<or> (\<exists>i \<in> A. i \<noteq> ?i \<and> vl_stp_id (vlans s i) = k)"
      unfolding t by auto
    show "stg_is_active k ?t \<longleftrightarrow> (\<exists>i \<in> insert ?i A. vl_stp_id (vlans ?t i) = k)"
    proof (cases "k = ?old")
      case False
      then show ?thesis unfolding act new Jk by (auto simp: vlan_at_def)
    next
      case True
      have "stg_is_active k s \<and> shared \<longleftrightarrow> (\<exists>i \<in> A. i \<noteq> ?i \<and> vl_stp_id (vlans s i) = k)"
        unfolding sh True [symmetric] Jk using A full by (metis lessThan_iff subsetD)
      then show ?thesis unfolding act new using True by blast
    qed
  qed
  moreover have "snd (vlan_set_stp_id E v stp s) = fold (\<lambda>d s.
            fold (\<lambda>p s. snd (crp E (Vl (StpStateSetForward d p stp)) s)) (e_ic_ports E d)
              (snd (crp E (Vl (VlanToStpIdBind d v stp)) s))) [0 ..< e_ndevs E] ?t"
    using stp by (simp add: vlan_set_stp_id_def Let_def shared_def)
  moreover have "stgs (snd (vlan_set_stp_id E v stp s)) = stgs ?t \<and> vlans (snd (vlan_set_stp_id E v stp s)) = vlans ?t"
    unfolding calculation(2) by (intro stg_hw_fold) (simp add: stg_hw_fold)
  ultimately show ?thesis using t stgs_of_cong [of "snd (vlan_set_stp_id E v stp s)" ?t "insert ?i A"] by simp
qed

text \<open>C23. The bitmap of spanning tree groups is exactly the set of groups of the VLANs:
  \<open>vlan_set_stp_id\<close> keeps it so, for every VLAN of the table and every group up to 255, whether or
  not another VLAN shares the old or the new group.\<close>

theorem stp_groups_exact:
  fixes s :: "'a vlan_st_scheme"
  assumes "stp \<le> 255" and "vlan_in_array v" and "stgs_of {..<NVLANS} s"
  shows "stgs_of {..<NVLANS} (snd (vlan_set_stp_id E v stp s)) \<and>
    vl_stp_id (vlan_at v (snd (vlan_set_stp_id E v stp s))) = stp"
proof -
  note I = vlan_set_stp_id_stgs [OF assms(1,2) order.refl assms(3), of E]
  have "insert (unat v - 1) {..<NVLANS} = {..<NVLANS}" using assms(2) by (auto simp: vlan_in_array_def)
  with I show ?thesis by (simp add: vlan_at_def)
qed

text \<open>\<open>vlan_set_fdb_map\<close> rebuilds the bitmap from nothing.\<close>

lemma unat_u16: "m < 65536 \<Longrightarrow> unat (of_nat m :: u16) = m"
  by (simp add: unat_of_nat take_bit_nat_eq_self)

lemma fdb_map_stgs:
  assumes ids: "\<And>i. i < NVLANS \<Longrightarrow> ids i \<le> 255" and n: "n \<le> NVLANS"
  shows "stgs_of {..<n} (fold (\<lambda>i s. snd (vlan_set_stp_id E (of_nat (i + 1)) (ids i) s)) [0 ..< n] (stgs_clear s)) \<and>
    (\<forall>i < n. vl_stp_id (vlans (fold (\<lambda>i s. snd (vlan_set_stp_id E (of_nat (i + 1)) (ids i) s)) [0 ..< n] (stgs_clear s)) i) = ids i)"
  using n
proof (induction n)
  case 0
  then show ?case by (simp add: stgs_of_def stg_active_bit stgs_clear_def)
next
  case (Suc n)
  let ?s = "fold (\<lambda>i s. snd (vlan_set_stp_id E (of_nat (i + 1)) (ids i) s)) [0 ..< n] (stgs_clear s)"
  let ?v = "of_nat (n + 1) :: vid"
  have u: "unat ?v = n + 1" by (rule unat_u16) (use Suc.prems in \<open>simp add: NVLANS_def\<close>)
  have v: "vlan_in_array ?v" unfolding vlan_in_array_def u using Suc.prems by simp
  have n: "n < NVLANS" using Suc.prems by simp
  have I: "stgs_of {..<n} ?s \<and> (\<forall>i < n. vl_stp_id (vlans ?s i) = ids i)" using Suc.IH Suc.prems by simp
  have A: "{..<n} \<subseteq> {..<NVLANS}" "insert (unat ?v - 1) {..<n} = {..<Suc n}" unfolding u using n by auto
  note S = vlan_set_stp_id_stgs [OF ids [OF n] v A(1) conjunct1 [OF I], of E]
  have "{..<n} = {..<NVLANS} \<or> unat ?v - 1 \<notin> {..<n}" unfolding u by simp
  note S' = S [OF this, unfolded A(2)]
  have "vl_stp_id (vlans (snd (vlan_set_stp_id E ?v (ids n) ?s)) i) = ids i" if "i < Suc n" for i
    using that I conjunct2 [OF S'] unfolding u by (cases "i = n") simp_all
  with S' show ?case by simp
qed

lemma vlan0_stgs: "stgs_of {..<NVLANS} vlan0"
proof -
  have v: "vl_stp_id (vlans vlan0 i) = 0" for i by (simp add: vlan0_def mcre_st.defs vlan_st.defs)
  have "stgs vlan0 = (\<lambda>_. 0)(0 := 1)" by (simp add: vlan0_def mcre_st.defs vlan_st.defs)
  then have "stg_is_active k vlan0 \<longleftrightarrow> k div 4 = 0 \<and> k mod 4 = 0" for k by (auto simp: stg_active_bit bit_1_iff)
  moreover have "k div 4 = 0 \<and> k mod 4 = 0 \<longleftrightarrow> k = 0" for k :: nat by (metis div_mult_mod_eq div_0 mod_0 add_0 mult_0)
  ultimately show ?thesis unfolding stgs_of_def v by (auto simp: NVLANS_def intro: exI [of _ 0])
qed

theorem stp_groups_exact_witness:
  "stgs_of {..<NVLANS} (snd (vlan_set_stp_id env0 7 5 vlan0)) \<and>
   vl_stp_id (vlan_at 7 (snd (vlan_set_stp_id env0 7 5 vlan0))) = 5"
proof -
  have "vlan_in_array 7" by (simp add: vlan_in_array_def NVLANS_def)
  from stp_groups_exact [OF _ this vlan0_stgs, of 5] show ?thesis by simp
qed

section \<open>Port membership\<close>

text \<open>Which ports the configuration puts into a VLAN.\<close>

definition port_in_vlan :: "vid \<Rightarrow> port \<Rightarrow> bool" where
  "port_in_vlan v port \<longleftrightarrow>
     (case pt_mode port of
        PM_ACCESS \<Rightarrow> pt_access_vid port = v \<or> pt_voice_vid port = v
      | PM_TRUNK \<Rightarrow> pt_native_vid port = v \<or> tallow port (unat v - 1) \<or> refc port (unat v - 1) \<noteq> 0
      | PM_CUSTOMER \<Rightarrow> pt_customer_vid port = v)"

lemma tag_member_set: "fst (tag_member p c t) = insert p (fst t)" "fst (tag_tagged p t) = fst t"
  by (simp_all add: tag_member_def tag_tagged_def split: prod.splits)

lemma tag_port_members:
  "fst (tag_port v port s t d) =
     fst (t d) \<union> (if (if is_stack_port port s then d = 0 else d = pt_ldev port \<and> port_in_vlan v port)
                  then {pt_lport port} else {})"
  by (cases "d = pt_ldev port"; cases "d = 0"; cases "is_stack_port port s"; cases "pt_mode port")
    (simp_all add: tag_port_def Let_def port_in_vlan_def tag_member_set)

lemma tag_ports_members:
  "fst (fold (\<lambda>port. tag_port v port s) ps t d) =
     fst (t d) \<union> pt_lport ` {p \<in> set ps. if is_stack_port p s then d = 0 else d = pt_ldev p \<and> port_in_vlan v p}"
  by (induction ps arbitrary: t) (auto simp: tag_port_members)

lemma tag_ic_members: "fst (tag_ic_ports E d) = set (e_ic_ports E d)"
proof -
  have "fst (fold (\<lambda>p t. tag_tagged p (tag_member p OUTER_TAG0_INNER_TAG1_CMD t)) ps t) = fst t \<union> set ps" for ps t
    by (induction ps arbitrary: t) (auto simp: tag_member_set)
  then show ?thesis by (simp add: tag_ic_ports_def)
qed

text \<open>C24. The members \<open>setup_tagging\<close> computes for a device are its interconnect ports and the ports
  on it whose mode puts them into the VLAN: by access or voice VLAN, by native VLAN, allowed list
  or translation, or by customer VLAN. Stack ports are entered for device 0 alone, whatever device
  they are on.\<close>

theorem setup_tagging_members:
  "fst (setup_tagging E v s d) =
     set (e_ic_ports E d) \<union>
     pt_lport ` {p \<in> set (ports s). if is_stack_port p s then d = 0 else d = pt_ldev p \<and> port_in_vlan v p}"
  by (simp add: setup_tagging_def tag_ports_members tag_ic_members)

text \<open>The service VLAN has no element in \<open>vlans\<close>, but \<open>vlan_init\<close> and \<open>vlan_stack_setup\<close> create
  it with \<open>__vlan_add\<close>, which writes its state past the end of the array.\<close>

theorem service_vlan_overruns:
  assumes "\<And>h x. e_gt E h x = GT_OK"
  shows "crashed (vlan_stack_setup E s) \<and> \<not> vlan_in_array SVC_VID"
proof -
  have ok: "fst (for_devs_break E call ds t) = GT_OK" for call ds and t :: "'a vlan_st_scheme"
    by (induction ds arbitrary: t) (simp_all add: crp_def assms)
  let ?c = "\<lambda>d. Vl (VlanEntryWrite d 4095 (vlan_hw_entry (setup_tagging E 4095 s d) (vl_stp_id (vlan_at 4095 s))))"
  obtain t where "for_devs_break E ?c [0 ..< e_ndevs E] s = (GT_OK, t)"
    using ok [of ?c "[0 ..< e_ndevs E]" s] by (cases "for_devs_break E ?c [0 ..< e_ndevs E] s") simp
  moreover have "\<not> vlan_in_array 4095" by (simp add: vlan_in_array_def NVLANS_def)
  ultimately show ?thesis
    by (simp add: vlan_stack_setup_def vlan_add_unchecked_def Let_def vlan_upd_def SVC_VID_def crash_def)
qed

theorem service_vlan_overruns_witness: "crashed (vlan_stack_setup env0 vlan0) = True"
proof -
  have "e_gt env0 h x = GT_OK" for h x by (simp add: env0_def)
  then show ?thesis using service_vlan_overruns [of env0 vlan0] by blast
qed

end
