(* ===== verification/Qos.thy ===== *)
theory Qos
  imports Containers Platform
begin

text \<open>
  QoS profiles (\<open>src/qos.c\<close>): a pool of hardware profiles 8 to 127, handed out and taken back
  by \<open>qos_profile_manage\<close>, and the queue settings that validate their arguments before they
  write.
\<close>

section \<open>State\<close>

definition QSP_FIRST_REGULAR_IDX :: nat where "QSP_FIRST_REGULAR_IDX = 8"
definition QSP_MAX :: nat where "QSP_MAX = 128 - QSP_FIRST_REGULAR_IDX"

record qpentry =
  qp_id :: nat
  qp_refc :: int

record qos_st = sw +
  qres_sp :: nat
  qres_data :: "nat \<Rightarrow> nat"
  qpdb :: "qpentry list"

section \<open>The pool of profiles\<close>

text \<open>\<open>res_pop\<close>, \<open>res_push\<close> and \<open>res_chk_avail\<close> of this file.\<close>

definition qres_pop :: "'a qos_st_scheme \<Rightarrow> int \<times> 'a qos_st_scheme" where
  "qres_pop s =
     (if qres_sp s \<ge> QSP_MAX then (-1, s)
      else (int (qres_data s (qres_sp s)), s\<lparr>qres_sp := qres_sp s + 1\<rparr>))"

definition qres_push :: "nat \<Rightarrow> 'a qos_st_scheme \<Rightarrow> int \<times> 'a qos_st_scheme" where
  "qres_push re s =
     (if qres_sp s = 0 then (-1, s)
      else (0, s\<lparr>qres_sp := qres_sp s - 1, qres_data := (qres_data s)(qres_sp s - 1 := re)\<rparr>))"

definition qres_chk_avail :: "int \<Rightarrow> 'a qos_st_scheme \<Rightarrow> bool" where
  "qres_chk_avail n s \<longleftrightarrow> int QSP_MAX - int (qres_sp s) \<ge> n"

datatype qp_cmd = QOS_PROFILE_ADD | QOS_PROFILE_DEL | QOS_PROFILE_SET | QOS_PROFILE_CHK_AVAIL

record qos_profile_mgmt =
  qpm_cmd :: qp_cmd
  qpm_id :: nat
  qpm_num :: int
  qpm_tc :: nat
  qpm_dscp :: nat
  qpm_cos :: nat
  qpm_exp :: nat

definition qpm_profile :: "qos_profile_mgmt \<Rightarrow> cos_profile" where
  "qpm_profile q = \<lparr>cp_up = qpm_cos q, cp_tc = qpm_tc q, cp_dscp = qpm_dscp q, cp_exp = qpm_exp q\<rparr>"

text \<open>The status, and the value of \<open>*id\<close> where the call sets it.\<close>

definition qos_profile_manage ::
  "env \<Rightarrow> qos_profile_mgmt \<Rightarrow> 'a qos_st_scheme \<Rightarrow> (status \<times> nat option) \<times> 'a qos_st_scheme" where
  "qos_profile_manage E qpm s =
     (case qpm_cmd qpm of
        QOS_PROFILE_ADD \<Rightarrow>
          (case qres_pop s of (rep, s) \<Rightarrow>
             if rep < 0 then ((ST_BUSY, None), s)
             else
               let s = s\<lparr>qpdb := hash_add \<lparr>qp_id = nat rep, qp_refc = 1\<rparr> (qpdb s)\<rparr>;
                   s = snd (for_each_dev E (\<lambda>d. Pl (CosProfileEntrySet d (nat rep) (qpm_profile qpm))) s) in
               ((ST_OK, Some (nat rep)), s))
      | QOS_PROFILE_DEL \<Rightarrow>
          (case hash_find qp_id (qpdb s) (qpm_id qpm) of
             None \<Rightarrow> ((ST_DOES_NOT_EXIST, None), s)
           | Some qpe \<Rightarrow>
               let s = s\<lparr>qpdb := hash_del qp_id (qpm_id qpm) (qpdb s)\<rparr> in
               (case qres_push (qp_id qpe) s of (rc, s) \<Rightarrow>
                  if rc < 0 then ((ST_HEX, None), s) else ((ST_OK, None), s)))
      | QOS_PROFILE_SET \<Rightarrow>
          (case hash_find qp_id (qpdb s) (qpm_id qpm) of
             None \<Rightarrow> ((ST_DOES_NOT_EXIST, None), s)
           | Some qpe \<Rightarrow>
               ((ST_OK, None),
                snd (for_each_dev E (\<lambda>d. Pl (CosProfileEntrySet d (qpm_id qpm) (qpm_profile qpm))) s)))
      | QOS_PROFILE_CHK_AVAIL \<Rightarrow>
          (if qres_chk_avail (qpm_num qpm) s then ((ST_OK, None), s) else ((ST_BUSY, None), s)))"

text \<open>The part of \<open>qos_start\<close> that fills the pool.\<close>

definition qos_pool_init :: "'a qos_st_scheme \<Rightarrow> 'a qos_st_scheme" where
  "qos_pool_init s = s\<lparr>qres_data := (\<lambda>i. i + QSP_FIRST_REGULAR_IDX), qres_sp := 0\<rparr>"

section \<open>Queues\<close>

definition qos_set_prioq_num_prof :: "env \<Rightarrow> int \<Rightarrow> nat \<Rightarrow> 'a sw_scheme \<Rightarrow> status \<times> 'a sw_scheme" where
  "qos_set_prioq_num_prof E num prof s =
     (if num < 0 \<or> num > 8 then (ST_BAD_VALUE, s)
      else (ST_OK, fold (\<lambda>i s. snd (for_each_dev E (\<lambda>d. Pl (PortTxQArbGroupSet d i (8 - num \<le> int i) prof)) s))
                     [0 ..< 8] s))"

definition qos_set_prioq_num :: "env \<Rightarrow> int \<Rightarrow> 'a sw_scheme \<Rightarrow> status \<times> 'a sw_scheme" where
  "qos_set_prioq_num E num s = qos_set_prioq_num_prof E num 2 s"

definition qos_set_dscp_prio :: "env \<Rightarrow> (nat \<times> nat) list \<Rightarrow> 'a sw_scheme \<Rightarrow> status \<times> 'a sw_scheme" where
  "qos_set_dscp_prio E mp s =
     (if list_ex (\<lambda>(dscp, queue). dscp > 63 \<or> queue > 7) mp then (ST_BAD_VALUE, s)
      else (ST_OK, fold (\<lambda>(dscp, queue) s.
              snd (for_each_dev E (\<lambda>d. Pl (CosDscpToProfileMapSet d dscp queue)) s)) mp s))"

definition qos_set_cos_prio :: "env \<Rightarrow> (nat \<Rightarrow> nat) \<Rightarrow> 'a sw_scheme \<Rightarrow> status \<times> 'a sw_scheme" where
  "qos_set_cos_prio E mp s =
     (if list_ex (\<lambda>i. mp i > 7) [0 ..< 8] then (ST_BAD_VALUE, s)
      else (ST_OK, fold (\<lambda>i s. fold (\<lambda>d s.
              snd (crp E (Pl (CosUpCfiDeiToProfileMapSet d i 1 (mp i)))
                (snd (crp E (Pl (CosUpCfiDeiToProfileMapSet d i 0 (mp i))) s)))) [0 ..< e_ndevs E] s)
              [0 ..< 8] s))"

definition qos_set_wrr_queue_weights :: "env \<Rightarrow> (nat \<Rightarrow> u8) \<Rightarrow> 'a sw_scheme \<Rightarrow> status \<times> 'a sw_scheme" where
  "qos_set_wrr_queue_weights E weights s =
     (ST_OK, fold (\<lambda>i s. snd (for_each_dev E (\<lambda>d. Pl (PortTxQWrrProfileSet d i (weights i) 2)) s)) [0 ..< 8] s)"

end
