(* ===== verification/Policer.thy ===== *)
theory Policer
  imports Qos
begin

text \<open>
  Policers (\<open>src/policer.c\<close>): two tables of 255 indexes, for ingress and egress, from which
  policers take their hardware index (counted from 2), the metering entry that a policer's
  parameters stand for, and the QoS profile of an ingress policer that remarks.
\<close>

section \<open>State and parameters\<close>

datatype policer_status =
    POLICER_OK | POLICER_NO_MORE_IX | POLICER_NOT_IN_USE | POLICER_CREATE_ERR
  | POLICER_NOT_IN_RANGE | POLICER_QOS_ERR | POLICER_BAD_PARAM | POLICER_BILLING_ERR

datatype policer_dest = POLICER_DEST_INGRESS | POLICER_DEST_EGRESS

datatype policer_action_type =
    POLICER_ACTION_UNDEF | POLICER_ACTION_TRANSMIT | POLICER_ACTION_SET_DSCP
  | POLICER_ACTION_SET_COS | POLICER_ACTION_DROP

record policer_params =
  pp_dest :: policer_dest
  pp_cir :: u32
  pp_cbs :: u32
  pp_ebs :: u32
  pp_pir :: u32
  pp_pbs :: u32
  pp_exceed :: policer_action_type
  pp_exceed_value :: nat
  pp_violate :: policer_action_type

record pol_st = qos_st +
  ixs_ingress :: "bool list"
  ixs_egress :: "bool list"
  ixs_qos :: "nat list"

text \<open>\<open>True\<close> is \<open>USED\<close>. All arrays have 255 elements.\<close>

definition ixs_sz :: nat where "ixs_sz = 255"
definition ixs_start_pos :: u32 where "ixs_start_pos = 2"

definition ixs :: "policer_dest \<Rightarrow> 'a pol_st_scheme \<Rightarrow> bool list" where
  "ixs dest s = (case dest of POLICER_DEST_INGRESS \<Rightarrow> ixs_ingress s | POLICER_DEST_EGRESS \<Rightarrow> ixs_egress s)"

definition ixs_upd :: "policer_dest \<Rightarrow> bool list \<Rightarrow> 'a pol_st_scheme \<Rightarrow> 'a pol_st_scheme" where
  "ixs_upd dest l s =
     (case dest of POLICER_DEST_INGRESS \<Rightarrow> s\<lparr>ixs_ingress := l\<rparr> | POLICER_DEST_EGRESS \<Rightarrow> s\<lparr>ixs_egress := l\<rparr>)"

section \<open>Indexes\<close>

text \<open>The first free element.\<close>

fun first_free :: "bool list \<Rightarrow> nat option" where
  "first_free [] = None"
| "first_free (u # us) = (if \<not> u then Some 0 else map_option Suc (first_free us))"

definition policer_ix_pull :: "policer_dest \<Rightarrow> 'a pol_st_scheme \<Rightarrow> (policer_status \<times> u32) \<times> 'a pol_st_scheme" where
  "policer_ix_pull dest s =
     (case first_free (ixs dest s) of
        Some i \<Rightarrow> ((POLICER_OK, of_nat i + ixs_start_pos), ixs_upd dest ((ixs dest s)[i := True]) s)
      | None \<Rightarrow> ((POLICER_NO_MORE_IX, 0), s))"

definition policer_ix_push :: "u32 \<Rightarrow> policer_dest \<Rightarrow> 'a pol_st_scheme \<Rightarrow> policer_status \<times> 'a pol_st_scheme" where
  "policer_ix_push ix dest s =
     (let arr_ix = ix - ixs_start_pos in
      if unat arr_ix > ixs_sz - 1 then (POLICER_NOT_IN_RANGE, s)
      else if \<not> ixs dest s ! unat arr_ix then (POLICER_NOT_IN_USE, s)
      else (POLICER_OK, ixs_upd dest ((ixs dest s)[unat arr_ix := False]) s))"

definition policer_available :: "policer_dest \<Rightarrow> 'a pol_st_scheme \<Rightarrow> nat" where
  "policer_available dest s = length (filter Not (ixs dest s))"

text \<open>\<open>is_policer_exist\<close> has no range check.\<close>

definition is_policer_exist :: "u32 \<Rightarrow> policer_dest \<Rightarrow> 'a pol_st_scheme \<Rightarrow> bool \<times> 'a pol_st_scheme" where
  "is_policer_exist policer_ix dest s =
     (let arr_ix = policer_ix - ixs_start_pos in
      if unat arr_ix < ixs_sz then (ixs dest s ! unat arr_ix, s) else (False, crash s))"

section \<open>The metering entry\<close>

definition or_default :: "u32 \<Rightarrow> u32 \<Rightarrow> u32" where
  "or_default v dflt = (if v \<noteq> 0 then v else dflt)"

text \<open>\<open>set_meter_mode\<close> and \<open>set_tocken_bucket\<close>.\<close>

definition set_tocken_bucket :: "policer_params \<Rightarrow> token_bucket" where
  "set_tocken_bucket p =
     (if pp_pir p \<noteq> 0 then
        TR_TCM (pp_cir p) (or_default (pp_cbs p) 0xFFFFFFFF) (pp_pir p) (or_default (pp_pbs p) 0xFFFFFFFF)
      else
        let def_ebs = (if pp_violate p = POLICER_ACTION_UNDEF then pp_cbs p else 0xFFFFFFFF) in
        SR_TCM (pp_cir p) (or_default (pp_cbs p) 0xFFFFFFFF) (or_default (pp_ebs p) def_ebs))"

definition exceed_cmd :: "policer_params \<Rightarrow> pol_cmd option" where
  "exceed_cmd p =
     (case pp_exceed p of
        POLICER_ACTION_TRANSMIT \<Rightarrow> Some NO_CHANGE
      | POLICER_ACTION_SET_DSCP \<Rightarrow> if pp_dest p = POLICER_DEST_EGRESS then None else Some REMARK_BY_ENTRY
      | POLICER_ACTION_SET_COS \<Rightarrow> if pp_dest p = POLICER_DEST_EGRESS then None else Some REMARK_BY_ENTRY
      | POLICER_ACTION_DROP \<Rightarrow> Some POL_DROP
      | POLICER_ACTION_UNDEF \<Rightarrow> None)"

text \<open>\<open>set_action\<close>: the commands for yellow and red packets, none for a bad parameter.\<close>

definition set_action :: "policer_params \<Rightarrow> (pol_cmd \<times> pol_cmd) option" where
  "set_action p =
     (case exceed_cmd p of
        None \<Rightarrow> None
      | Some yellow \<Rightarrow>
          (case pp_violate p of
             POLICER_ACTION_UNDEF \<Rightarrow> Some (yellow, yellow)
           | POLICER_ACTION_DROP \<Rightarrow> Some (yellow, POL_DROP)
           | _ \<Rightarrow> None))"

section \<open>QoS profiles\<close>

definition add_qos_profile :: "env \<Rightarrow> policer_params \<Rightarrow> u32 \<Rightarrow> 'a pol_st_scheme \<Rightarrow> (policer_status \<times> nat) \<times> 'a pol_st_scheme" where
  "add_qos_profile E p policer_ix s =
     (let qpm = \<lparr>qpm_cmd = QOS_PROFILE_ADD, qpm_id = 0, qpm_num = 1, qpm_tc = 0,
                 qpm_dscp = (if pp_exceed p = POLICER_ACTION_SET_DSCP then pp_exceed_value p else 0),
                 qpm_cos = (if pp_exceed p = POLICER_ACTION_SET_COS then pp_exceed_value p else 0),
                 qpm_exp = 0\<rparr> in
      case qos_profile_manage E qpm s of
        ((ST_OK, Some profile_id), s) \<Rightarrow>
          ((POLICER_OK, profile_id),
           s\<lparr>ixs_qos := (ixs_qos s)[unat (policer_ix - ixs_start_pos) := profile_id]\<rparr>)
      | (_, s) \<Rightarrow> ((POLICER_QOS_ERR, 0), s))"

text \<open>\<open>del_qos_profile\<close> leaves the deleted profile's number in \<open>ixs_qos\<close>.\<close>

definition del_qos_profile :: "env \<Rightarrow> u32 \<Rightarrow> 'a pol_st_scheme \<Rightarrow> policer_status \<times> 'a pol_st_scheme" where
  "del_qos_profile E policer_ix s =
     (let qos_profile_id = ixs_qos s ! unat (policer_ix - ixs_start_pos) in
      if qos_profile_id = 0 then (POLICER_OK, s)
      else
        let qpm = \<lparr>qpm_cmd = QOS_PROFILE_DEL, qpm_id = qos_profile_id, qpm_num = 0, qpm_tc = 0,
                   qpm_dscp = 0, qpm_cos = 0, qpm_exp = 0\<rparr> in
        (case qos_profile_manage E qpm s of
           ((ST_OK, _), s) \<Rightarrow> (POLICER_OK, s)
         | (_, s) \<Rightarrow> (POLICER_QOS_ERR, s)))"

definition remarks :: "policer_params \<Rightarrow> bool" where
  "remarks p \<longleftrightarrow> pp_exceed p = POLICER_ACTION_SET_DSCP \<or> pp_exceed p = POLICER_ACTION_SET_COS"

fun l2_remark_loop :: "env \<Rightarrow> nat list \<Rightarrow> 'a sw_scheme \<Rightarrow> policer_status \<times> 'a sw_scheme" where
  "l2_remark_loop E [] s = (POLICER_OK, s)"
| "l2_remark_loop E (d # ds) s =
     (case crp E (Pl (PolicerEgressL2RemarkModelSet d)) s of (rc, s) \<Rightarrow>
        if rc \<noteq> GT_OK then (POLICER_CREATE_ERR, s) else l2_remark_loop E ds s)"

definition set_qos ::
  "env \<Rightarrow> policer_params \<Rightarrow> u32 \<Rightarrow> metering_entry \<Rightarrow> 'a pol_st_scheme \<Rightarrow>
     (policer_status \<times> metering_entry) \<times> 'a pol_st_scheme" where
  "set_qos E p policer_ix entry s =
     (case (if remarks p then add_qos_profile E p policer_ix s else ((POLICER_OK, 0), s)) of
        ((rc, profile_id), s) \<Rightarrow>
          if rc \<noteq> POLICER_OK then ((POLICER_CREATE_ERR, entry), s)
          else
            let entry =
              (case pp_exceed p of
                 POLICER_ACTION_SET_DSCP \<Rightarrow>
                   entry\<lparr>mt_modifyDscp := True, mt_qosProfile := profile_id, mt_remark := REMARK_L3\<rparr>
               | POLICER_ACTION_SET_COS \<Rightarrow>
                   entry\<lparr>mt_modifyUp := True, mt_qosProfile := profile_id, mt_remark := REMARK_L2\<rparr>
               | _ \<Rightarrow> entry) in
            if pp_dest p = POLICER_DEST_EGRESS \<and> pp_exceed p = POLICER_ACTION_SET_COS then
              (case l2_remark_loop E [0 ..< e_ndevs E] s of (rc, s) \<Rightarrow> ((rc, entry), s))
            else ((POLICER_OK, entry), s))"

section \<open>Creation and deletion\<close>

definition stage :: "policer_dest \<Rightarrow> pol_stage" where
  "stage dest = (if dest = POLICER_DEST_INGRESS then STAGE_INGRESS else STAGE_EGRESS)"

definition add_metering_entry :: "env \<Rightarrow> u32 \<Rightarrow> policer_params \<Rightarrow> nat \<Rightarrow> 'a pol_st_scheme \<Rightarrow> policer_status \<times> 'a pol_st_scheme" where
  "add_metering_entry E policer_ix p dev_num s =
     (case set_action p of
        None \<Rightarrow> (POLICER_BAD_PARAM, s)
      | Some (yellow, red) \<Rightarrow>
          (let entry = \<lparr>mt_countingEntryIndex = uint policer_ix, mt_bucket = set_tocken_bucket p,
                        mt_yellow = yellow, mt_red = red, mt_modifyDscp = False, mt_modifyUp = False,
                        mt_qosProfile = 0, mt_remark = REMARK_NONE\<rparr> in
           case set_qos E p policer_ix entry s of
             ((rc, entry), s) \<Rightarrow>
               if rc \<noteq> POLICER_OK then (POLICER_CREATE_ERR, s)
               else (case crp E (Pl (PolicerMeteringEntrySet dev_num (stage (pp_dest p)) (uint policer_ix) entry)) s of
                   (rc, s) \<Rightarrow> if rc \<noteq> GT_OK then (POLICER_CREATE_ERR, s) else (POLICER_OK, s))))"

definition add_billing_entry :: "env \<Rightarrow> u32 \<Rightarrow> policer_params \<Rightarrow> nat \<Rightarrow> 'a sw_scheme \<Rightarrow> policer_status \<times> 'a sw_scheme" where
  "add_billing_entry E policer_ix p dev_num s =
     (case crp E (Pl (PolicerBillingEntrySet dev_num (stage (pp_dest p)) (uint policer_ix))) s of (rc, s) \<Rightarrow>
        if rc \<noteq> GT_OK then (POLICER_CREATE_ERR, s)
        else (case crp E (Pl (PolicerBillingEntryGet dev_num (stage (pp_dest p)) (uint policer_ix) True)) s of
            (rc, s) \<Rightarrow> if rc \<noteq> GT_OK then (POLICER_BILLING_ERR, s) else (POLICER_OK, s)))"

fun policer_create_devs :: "env \<Rightarrow> u32 \<Rightarrow> policer_params \<Rightarrow> nat list \<Rightarrow> 'a pol_st_scheme \<Rightarrow> policer_status \<times> 'a pol_st_scheme" where
  "policer_create_devs E ix p [] s = (POLICER_OK, s)"
| "policer_create_devs E ix p (d # ds) s =
     (case add_metering_entry E ix p d s of (rc, s) \<Rightarrow>
        if rc \<noteq> POLICER_OK then (POLICER_CREATE_ERR, s)
        else (case add_billing_entry E ix p d s of (rc, s) \<Rightarrow>
                if rc \<noteq> POLICER_OK then (POLICER_CREATE_ERR, s)
                else policer_create_devs E ix p ds s))"

text \<open>A failed creation keeps the index it has pulled.\<close>

definition policer_create :: "env \<Rightarrow> policer_params \<Rightarrow> 'a pol_st_scheme \<Rightarrow> (policer_status \<times> u32) \<times> 'a pol_st_scheme" where
  "policer_create E p s =
     (case policer_ix_pull (pp_dest p) s of ((rv, ix), s) \<Rightarrow>
        if rv \<noteq> POLICER_OK then ((rv, ix), s)
        else (case policer_create_devs E ix p [0 ..< e_ndevs E] s of (rv, s) \<Rightarrow> ((rv, ix), s)))"

definition policer_delete :: "env \<Rightarrow> u32 \<Rightarrow> policer_dest \<Rightarrow> 'a pol_st_scheme \<Rightarrow> policer_status \<times> 'a pol_st_scheme" where
  "policer_delete E policer_ix dest s =
     (case policer_ix_push policer_ix dest s of (rv, s) \<Rightarrow>
        if rv \<noteq> POLICER_OK then (rv, s)
        else if dest = POLICER_DEST_INGRESS then del_qos_profile E policer_ix s
        else (POLICER_OK, s))"

section \<open>Statistics\<close>

text \<open>Two words to one of 64 bits.\<close>

definition counter64 :: "u32 \<times> u32 \<Rightarrow> u64" where
  "counter64 c = push_bit 32 (ucast (snd c)) + ucast (fst c)"

record policer_stat =
  st_green :: u64
  st_yellow :: u64
  st_red :: u64
  st_bucket :: token_bucket

definition policer_get_params ::
  "env \<Rightarrow> u32 \<Rightarrow> policer_dest \<Rightarrow> 'a pol_st_scheme \<Rightarrow> (policer_status \<times> policer_stat option) \<times> 'a pol_st_scheme" where
  "policer_get_params E policer_ix dest s =
     (case is_policer_exist policer_ix dest s of
        (False, s) \<Rightarrow> ((POLICER_BAD_PARAM, None), s)
      | (True, s) \<Rightarrow>
          let b = e_bill_read E (hw s) (stage dest) (uint policer_ix) in
          (case crp E (Pl (PolicerBillingEntryGet 0 (stage dest) (uint policer_ix) False)) s of (rc, s) \<Rightarrow>
             if rc \<noteq> GT_OK then ((POLICER_BILLING_ERR, None), s)
             else
               let m = e_meter_read E (hw s) (stage dest) (uint policer_ix) in
               (case crp E (Pl (PolicerMeteringEntryGet 0 (stage dest) (uint policer_ix))) s of (rc, s) \<Rightarrow>
                  if rc \<noteq> GT_OK then ((POLICER_BILLING_ERR, None), s)
                  else ((POLICER_OK, Some \<lparr>st_green = counter64 (greenCntr b), st_yellow = counter64 (yellowCntr b),
                                           st_red = counter64 (redCntr b), st_bucket = m\<rparr>), s))))"

section \<open>Properties\<close>

lemma first_free_Some: "first_free us = Some i \<Longrightarrow> i < length us \<and> \<not> us ! i \<and> (\<forall>j < i. us ! j)"
proof (induction us arbitrary: i)
  case (Cons u us)
  show ?case
  proof (cases u)
    case True
    with Cons obtain k where "i = Suc k" "first_free us = Some k" by auto
    with Cons.IH [of k] True show ?thesis by (auto simp: less_Suc_eq_0_disj)
  qed (use Cons.prems in auto)
qed simp

lemma first_free_None: "first_free us = None \<longleftrightarrow> (\<forall>j < length us. us ! j)"
  by (induction us) (auto simp: less_Suc_eq_0_disj)

definition ixs_ok :: "policer_dest \<Rightarrow> 'a pol_st_scheme \<Rightarrow> bool" where
  "ixs_ok dest s \<longleftrightarrow> length (ixs dest s) = ixs_sz"

definition ix_used :: "policer_dest \<Rightarrow> 'a pol_st_scheme \<Rightarrow> u32 set" where
  "ix_used dest s = (\<lambda>i. of_nat i + ixs_start_pos) ` {i. i < ixs_sz \<and> ixs dest s ! i}"

definition ix_take :: "policer_dest \<Rightarrow> 'a pol_st_scheme \<Rightarrow> (u32 \<times> 'a pol_st_scheme) option" where
  "ix_take dest s = (case policer_ix_pull dest s of ((rv, ix), s') \<Rightarrow> if rv = POLICER_OK then Some (ix, s') else None)"

definition ix_give :: "policer_dest \<Rightarrow> u32 \<Rightarrow> 'a pol_st_scheme \<Rightarrow> 'a pol_st_scheme" where
  "ix_give dest ix s = snd (policer_ix_push ix dest s)"

lemma ixs_ixs_upd [simp]: "ixs dest (ixs_upd dest l s) = l"
  by (simp add: ixs_def ixs_upd_def split: policer_dest.splits)

lemma ix_arr: "i < ixs_sz \<Longrightarrow> unat (of_nat i + ixs_start_pos - ixs_start_pos :: u32) = i"
  by (simp add: unat_of_nat take_bit_nat_eq_self ixs_sz_def)

lemma ix_inj: "i < ixs_sz \<Longrightarrow> j < ixs_sz \<Longrightarrow> of_nat i = (of_nat j :: u32) \<longleftrightarrow> i = j"
  by (metis ix_arr)

lemma ix_take_Some:
  assumes "ixs_ok dest s" and "ix_take dest s = Some (ix, s')"
  shows "\<exists>i < ixs_sz. ix = of_nat i + ixs_start_pos \<and> \<not> ixs dest s ! i \<and> (\<forall>j < i. ixs dest s ! j) \<and>
    s' = ixs_upd dest ((ixs dest s)[i := True]) s"
proof (cases "first_free (ixs dest s)")
  case None
  with assms show ?thesis by (simp add: ix_take_def policer_ix_pull_def)
next
  case (Some i)
  from first_free_Some [OF this] Some assms show ?thesis
    by (intro exI [of _ i]) (simp add: ix_take_def policer_ix_pull_def ixs_ok_def)
qed

lemma ix_give_used:
  assumes "ixs_ok dest s" and "ix \<in> ix_used dest s"
  shows "\<exists>i < ixs_sz. ix = of_nat i + ixs_start_pos \<and> ix_give dest ix s = ixs_upd dest ((ixs dest s)[i := False]) s"
proof -
  from assms(2) obtain i where i: "i < ixs_sz" "ixs dest s ! i" "ix = of_nat i + ixs_start_pos" by (auto simp: ix_used_def)
  then have "\<not> unat (ix - ixs_start_pos) > ixs_sz - 1" "unat (ix - ixs_start_pos) = i" using ix_arr [OF i(1)] by auto
  with i show ?thesis by (auto simp: ix_give_def policer_ix_push_def Let_def)
qed

interpretation policer_pool: id_pool "ix_take dest" "ix_give dest" "ix_used dest" "ixs_ok dest"
  for dest :: policer_dest
proof (unfold_locales, goal_cases)
  case (1 s i s')
  from ix_take_Some [OF 1] show ?case by (auto simp: ix_used_def ix_inj)
next
  case (2 s i s')
  from ix_take_Some [OF 2] obtain k where "k < ixs_sz" "i = of_nat k + ixs_start_pos" "s' = ixs_upd dest ((ixs dest s)[k := True]) s" by blast
  with 2(1) show ?case by (auto simp: ix_used_def ixs_ok_def nth_list_update)
next
  case (3 s i s')
  from ix_take_Some [OF 3] 3(1) show ?case by (auto simp: ixs_ok_def)
next
  case (4 s i)
  from ix_give_used [OF 4] obtain k where "k < ixs_sz" "i = of_nat k + ixs_start_pos" "ix_give dest i s = ixs_upd dest ((ixs dest s)[k := False]) s" by blast
  with 4(1) show ?case by (auto simp: ix_used_def ixs_ok_def nth_list_update ix_inj)
next
  case (5 s i)
  from ix_give_used [OF 5] 5(1) show ?case by (auto simp: ixs_ok_def)
qed

text \<open>Policer indexes are exclusive: over any sequence of requests and returns on the ingress or
  the egress table, the indexes a client holds are pairwise different and are marked used, and the
  marks of the others do not change.\<close>

theorem policer_indexes_exclusive:
  assumes "ixs_ok dest s" and "pool_run (ix_take dest) (ix_give dest) ops ([], s) = (held, s')"
  shows "distinct held \<and> ix_used dest s' = ix_used dest s \<union> set held \<and> set held \<inter> ix_used dest s = {}"
proof -
  note R = policer_pool.run_exclusive [OF assms(1) _ _ assms(2)]
  have "ix_used dest s \<subseteq> ix_used dest s' - set held" using R by simp
  with R show ?thesis by auto
qed

definition pol0 :: pol_st where
  "pol0 = qos_st.extend (qos_pool_init (sw.extend sw0 (qos_st.fields 0 (\<lambda>_. 0) [])))
     (pol_st.fields (replicate 255 False) (replicate 255 False) (replicate 255 0))"

theorem policer_indexes_exclusive_witness:
  "ix_used POLICER_DEST_EGRESS (snd (pool_run (ix_take POLICER_DEST_EGRESS) (ix_give POLICER_DEST_EGRESS)
      [Take, Take, Give 2, Take, Take] ([], pol0))) = {2, 3, 4}"
proof -
  let ?d = POLICER_DEST_EGRESS
  let ?r = "pool_run (ix_take ?d) (ix_give ?d) [Take, Take, Give 2, Take, Take] ([], pol0)"
  have h: "fst ?r = [4, 2, 3]" by code_simp
  have l: "ixs ?d pol0 = replicate 255 False" by (simp add: ixs_def pol0_def qos_pool_init_def qos_st.defs pol_st.defs)
  then have "ixs_ok ?d pol0" "ix_used ?d pol0 = {}" by (simp_all add: ixs_ok_def ixs_sz_def ix_used_def)
  with policer_indexes_exclusive [of ?d pol0 "[Take, Take, Give 2, Take, Take]" "[4, 2, 3]" "snd ?r"] h
  show ?thesis by (simp add: prod_eq_iff) auto
qed

text \<open>The two 32-bit words of a hardware counter make one 64-bit value without overflow.\<close>

theorem counter64_value: "unat (counter64 (lo, hi)) = unat hi * 2 ^ 32 + unat lo"
proof -
  have w: "unat x < 2 ^ 32" for x :: u32 using unsigned_less [where 'b = 32 and 'a = nat, of x] by simp
  have lt: "unat hi * 2 ^ 32 + unat lo < 2 ^ 64" using w [of hi] w [of lo] by simp
  have "counter64 (lo, hi) = of_nat (unat hi * 2 ^ 32 + unat lo)"
    by (simp add: counter64_def push_bit_eq_mult mult.commute)
  moreover have "unat (of_nat n :: u64) = n" if "n < 2 ^ 64" for n using that by (simp add: unat_of_nat take_bit_nat_eq_self)
  ultimately show ?thesis using lt by metis
qed

text \<open>A creation the library refuses keeps its index: nothing is programmed, but one policer
  fewer is available.\<close>

theorem policer_create_failure_leaks:
  assumes ok: "ixs_ok (pp_dest p) s" and n: "0 < e_ndevs E" and act: "set_action p \<noteq> None" and plain: "\<not> remarks p"
    and free: "0 < policer_available (pp_dest p) s"
    and fail: "\<And>h d i m. e_gt E h (Pl (PolicerMeteringEntrySet d (stage (pp_dest p)) i m)) \<noteq> GT_OK"
  shows "fst (fst (policer_create E p s)) = POLICER_CREATE_ERR \<and>
    policer_available (pp_dest p) (snd (policer_create E p s)) + 1 = policer_available (pp_dest p) s"
proof -
  let ?d = "pp_dest p"
  have "\<exists>j < length (ixs ?d s). \<not> ixs ?d s ! j"
    using free by (auto simp: policer_available_def filter_empty_conv in_set_conv_nth)
  then obtain i where i: "first_free (ixs ?d s) = Some i" using first_free_None by (cases "first_free (ixs ?d s)") auto
  note F = first_free_Some [OF i]
  let ?s = "ixs_upd ?d ((ixs ?d s)[i := True]) s" and ?ix = "of_nat i + ixs_start_pos"
  obtain y r where yr: "set_action p = Some (y, r)" using act by auto
  have noq: "pp_exceed p \<noteq> POLICER_ACTION_SET_DSCP" "pp_exceed p \<noteq> POLICER_ACTION_SET_COS" using plain by (auto simp: remarks_def)
  obtain rc t where m: "add_metering_entry E ?ix p 0 ?s = (rc, t)" by (cases "add_metering_entry E ?ix p 0 ?s")
  then have rc: "rc \<noteq> POLICER_OK" and t: "ixs ?d t = (ixs ?d s)[i := True]"
    using noq fail by (auto simp: add_metering_entry_def yr set_qos_def plain Let_def crp_def emit_def ixs_def ixs_upd_def
        split: policer_action_type.splits if_splits policer_dest.splits)
  have "[0 ..< e_ndevs E] = 0 # [1 ..< e_ndevs E]" using n by (simp add: upt_conv_Cons)
  then have "policer_create E p s = ((POLICER_CREATE_ERR, ?ix), t)"
    using i m rc by (simp add: policer_create_def policer_ix_pull_def)
  moreover have "length (filter Not ((ixs ?d s)[i := True])) + 1 = length (filter Not (ixs ?d s))"
  proof -
    from F have sp: "ixs ?d s = take i (ixs ?d s) @ False # drop (Suc i) (ixs ?d s)" by (metis id_take_nth_drop)
    from F have "(ixs ?d s)[i := True] = take i (ixs ?d s) @ True # drop (Suc i) (ixs ?d s)" by (simp add: upd_conv_take_nth_drop)
    then show ?thesis by (subst (2) sp) simp
  qed
  ultimately show ?thesis by (simp add: policer_available_def t)
qed

definition pol_plain :: policer_params where
  "pol_plain = \<lparr>pp_dest = POLICER_DEST_EGRESS, pp_cir = 1000, pp_cbs = 2000, pp_ebs = 0, pp_pir = 0, pp_pbs = 0,
     pp_exceed = POLICER_ACTION_DROP, pp_exceed_value = 0, pp_violate = POLICER_ACTION_UNDEF\<rparr>"

definition env_no_meter :: env where
  "env_no_meter = env0\<lparr>e_gt := \<lambda>h x. case x of Pl (PolicerMeteringEntrySet d st i m) \<Rightarrow> GT_HW_ERROR | _ \<Rightarrow> GT_OK\<rparr>"

theorem policer_create_failure_leaks_witness:
  "fst (fst (policer_create env_no_meter pol_plain pol0)) = POLICER_CREATE_ERR \<and>
   policer_available POLICER_DEST_EGRESS (snd (policer_create env_no_meter pol_plain pol0)) = 254"
proof -
  have l: "ixs POLICER_DEST_EGRESS pol0 = replicate 255 False"
    by (simp add: ixs_def pol0_def qos_pool_init_def qos_st.defs pol_st.defs)
  have d: "pp_dest pol_plain = POLICER_DEST_EGRESS" by (simp add: pol_plain_def)
  have "ixs_ok POLICER_DEST_EGRESS pol0" "policer_available POLICER_DEST_EGRESS pol0 = 255"
    by (simp_all add: ixs_ok_def ixs_sz_def l policer_available_def filter_replicate)
  moreover have "0 < e_ndevs env_no_meter" by (simp add: env_no_meter_def env0_def)
  moreover have "set_action pol_plain \<noteq> None" by (simp add: set_action_def exceed_cmd_def pol_plain_def)
  moreover have "\<not> remarks pol_plain" by (simp add: remarks_def pol_plain_def)
  moreover have "e_gt env_no_meter h (Pl (PolicerMeteringEntrySet k st i m)) \<noteq> GT_OK" for h k st i m by (simp add: env_no_meter_def)
  ultimately show ?thesis using policer_create_failure_leaks [of pol_plain pol0 env_no_meter] unfolding d by simp
qed

definition pol_remark :: policer_params where
  "pol_remark = \<lparr>pp_dest = POLICER_DEST_INGRESS, pp_cir = 1000, pp_cbs = 2000, pp_ebs = 0, pp_pir = 0, pp_pbs = 0,
     pp_exceed = POLICER_ACTION_SET_DSCP, pp_exceed_value = 10, pp_violate = POLICER_ACTION_DROP\<rparr>"

definition pol_created :: "(policer_status \<times> u32) \<times> pol_st" where
  "pol_created = policer_create env0 pol_remark pol0"

text \<open>\<open>add_metering_entry\<close> runs once per device and takes a QoS profile each time, while the table
  remembers one profile per policer: after an ingress policer that remarks has been created and
  deleted on a board with two devices, one profile is lost.\<close>

theorem policer_remark_leaks_profile:
  "fst pol_created = (POLICER_OK, 2) \<and>
   fst (policer_delete env0 2 POLICER_DEST_INGRESS (snd pol_created)) = POLICER_OK \<and>
   qres_sp (snd (policer_delete env0 2 POLICER_DEST_INGRESS (snd pol_created))) = 1 \<and>
   map qp_id (qpdb (snd (policer_delete env0 2 POLICER_DEST_INGRESS (snd pol_created)))) = [8]"
  by code_simp

end
