(* ===== verification/Psec.thy ===== *)
theory Psec
  imports Vif
begin

text \<open>
  Port security (the end of \<open>src/port.c\<close>) and the settings of \<open>src/sec.c\<close> it drives: each
  port counts the MAC addresses of the FDB that point to it; when security is enabled the
  count is limited, and the port stops learning in hardware while the limit is reached. The
  mutexes are not modelled: every operation is one step.
\<close>

section \<open>State\<close>

text \<open>Of \<open>psec_action\<close> and \<open>psec_mode\<close> every value outside the range that the code checks is \<open>OTHER\<close>.\<close>

datatype psec_action = PSECA_FORWARD | PSECA_RESTRICT | PSECA_OTHER
datatype psec_mode = PSECM_MAX_ADDRS | PSECM_LOCK | PSECM_OTHER
datatype psec_addr_status = PAS_OK | PAS_LIMIT

text \<open>The port security fields of \<open>struct port\<close> and its flags for the FDB.\<close>

record port_sec =
  psec_enabled :: bool
  psec_action :: psec_action
  psec_trap_interval :: u32
  psec_mode :: psec_mode
  psec_max_addrs :: int
  psec_naddrs :: int
  fdb_new_addr_notify_enabled :: bool
  fdb_addr_op_notify_enabled :: bool
  fdb_insertion_enabled :: bool

record sb_delay =
  port_enabled :: bool
  port_na_enabled :: bool
  port_na_blocked :: bool
  tdelay_sb_port_na :: u32
  tdelay_sb_moved_static :: u32
  tst_port_na :: u64
  tst_moved_static :: u64

text \<open>\<open>psec\<close> is indexed like the array \<open>ports\<close>, \<open>sb_delays\<close> (the array \<open>sb_delay\<close>) by port id.\<close>

record psec_st = vif_st +
  dev_ports :: "nat \<Rightarrow> nat \<Rightarrow> u16"
  psec :: "nat \<Rightarrow> port_sec"
  sb_delays :: "nat \<Rightarrow> sb_delay"

definition psec_upd :: "nat \<Rightarrow> (port_sec \<Rightarrow> port_sec) \<Rightarrow> 'a psec_st_scheme \<Rightarrow> 'a psec_st_scheme" where
  "psec_upd i f s = s\<lparr>psec := (psec s)(i := f (psec s i))\<rparr>"

definition sb_upd :: "nat \<Rightarrow> (sb_delay \<Rightarrow> sb_delay) \<Rightarrow> 'a psec_st_scheme \<Rightarrow> 'a psec_st_scheme" where
  "sb_upd pid f s = s\<lparr>sb_delays := (sb_delays s)(pid := f (sb_delays s pid))\<rparr>"

text \<open>\<open>port_id\<close>; the hardware device 0 stands for the unit itself. \<open>CPSS_MAX_PORTS_NUM_CNS\<close> is 64.\<close>

definition port_id :: "u8 \<Rightarrow> u8 \<Rightarrow> 'a psec_st_scheme \<Rightarrow> u16" where
  "port_id hdev hport s =
     (let hdev = (if hdev = 0 then of_nat (stack_id s) else hdev) in
      if hdev > 31 \<or> hport \<ge> 64 then 0 else dev_ports s (unat hdev) (unat hport))"

text \<open>\<open>port_ptr\<close>, as an index into \<open>ports\<close>.\<close>

definition port_ix :: "u16 \<Rightarrow> 'a vif_st_scheme \<Rightarrow> nat option" where
  "port_ix n s = (if port_valid n s then Some (unat n - 1) else None)"

section \<open>Security breach events (src/sec.c)\<close>

text \<open>Port ids go up to \<open>NPORTS\<close>, the number of ports.\<close>

definition sec_port_na_delay_set :: "nat \<Rightarrow> u32 \<Rightarrow> 'a psec_st_scheme \<Rightarrow> 'a psec_st_scheme" where
  "sec_port_na_delay_set pid delay_secs s =
     (if pid \<le> length (ports s) then sb_upd pid (\<lambda>d. d\<lparr>tdelay_sb_port_na := delay_secs * 1000\<rparr>) s
      else crash s)"

definition sec_moved_static_delay_set :: "nat \<Rightarrow> u32 \<Rightarrow> 'a psec_st_scheme \<Rightarrow> 'a psec_st_scheme" where
  "sec_moved_static_delay_set pid delay_secs s =
     (if pid \<le> length (ports s) then sb_upd pid (\<lambda>d. d\<lparr>tdelay_sb_moved_static := delay_secs * 1000\<rparr>) s
      else crash s)"

definition sec_gt_status :: "gt_status \<Rightarrow> status" where
  "sec_gt_status rc =
     (case rc of GT_OK \<Rightarrow> ST_OK | GT_BAD_PARAM \<Rightarrow> ST_BAD_VALUE | GT_HW_ERROR \<Rightarrow> ST_HW_ERROR
      | GT_NOT_APPLICABLE_DEVICE \<Rightarrow> ST_NOT_SUPPORTED | _ \<Rightarrow> ST_HEX)"

definition sec_moved_static_enable :: "env \<Rightarrow> nat \<Rightarrow> bool \<Rightarrow> 'a sw_scheme \<Rightarrow> status \<times> 'a sw_scheme" where
  "sec_moved_static_enable E d enable s =
     (case crp E (Fd (SecurBreachMovedStaticAddrSet d enable)) s of (rc, s) \<Rightarrow> (sec_gt_status rc, s))"

definition sec_port_enable :: "nat \<Rightarrow> bool \<Rightarrow> 'a psec_st_scheme \<Rightarrow> 'a psec_st_scheme" where
  "sec_port_enable pid enable s = sb_upd pid (\<lambda>d. d\<lparr>port_enabled := enable\<rparr>) s"

definition sec_port_na_enable :: "env \<Rightarrow> nat \<Rightarrow> bool \<Rightarrow> 'a psec_st_scheme \<Rightarrow> status \<times> 'a psec_st_scheme" where
  "sec_port_na_enable E i enable s =
     (let s = sb_upd (i + 1) (\<lambda>d. d\<lparr>port_na_enabled := enable\<rparr>) s; p = ports s ! i in
      case crp E (Fd (SecurBreachNaPerPortSet (pt_ldev p) (pt_lport p) enable)) s of
        (rc, s) \<Rightarrow> (sec_gt_status rc, s))"

section \<open>Learning\<close>

definition psec_disable_learning :: "env \<Rightarrow> nat \<Rightarrow> 'a psec_st_scheme \<Rightarrow> 'a psec_st_scheme" where
  "psec_disable_learning E i s =
     (let p = ports s ! i;
          learn = (\<lambda>cmd s. snd (crp E (Fd (FdbPortLearnStatusSet (pt_ldev p) (pt_lport p) cmd)) s));
          s = (case psec_action (psec s i) of
                 PSECA_FORWARD \<Rightarrow> learn LOCK_FRWRD s
               | PSECA_RESTRICT \<Rightarrow> snd (sec_port_na_enable E i True (learn LOCK_DROP s))
               | PSECA_OTHER \<Rightarrow> s) in
      snd (crp E (Fd (FdbNaToCpuPerPortSet (pt_ldev p) (pt_lport p) False)) s))"

definition psec_enable_learning :: "env \<Rightarrow> nat \<Rightarrow> 'a psec_st_scheme \<Rightarrow> 'a psec_st_scheme" where
  "psec_enable_learning E i s =
     (let p = ports s ! i;
          s = snd (sec_port_na_enable E i False s);
          s = snd (crp E (Fd (FdbNaToCpuPerPortSet (pt_ldev p) (pt_lport p) True)) s) in
      snd (crp E (Fd (FdbPortLearnStatusSet (pt_ldev p) (pt_lport p) LOCK_FRWRD)) s))"

definition psec_limit_reached :: "env \<Rightarrow> nat \<Rightarrow> 'a psec_st_scheme \<Rightarrow> 'a psec_st_scheme" where
  "psec_limit_reached E i s = (if psec_enabled (psec s i) then psec_disable_learning E i s else s)"

definition psec_limit_left :: "env \<Rightarrow> nat \<Rightarrow> 'a psec_st_scheme \<Rightarrow> 'a psec_st_scheme" where
  "psec_limit_left E i s =
     (if psec_enabled (psec s i) \<and> psec_mode (psec s i) = PSECM_MAX_ADDRS then psec_enable_learning E i s else s)"

section \<open>Counting addresses\<close>

definition psec_addr_del_port :: "env \<Rightarrow> nat \<Rightarrow> 'a psec_st_scheme \<Rightarrow> 'a psec_st_scheme" where
  "psec_addr_del_port E i s =
     (let n = psec_naddrs (psec s i);
          s = psec_upd i (\<lambda>p. p\<lparr>psec_naddrs := n - 1\<rparr>) s;
          s = (if n = psec_max_addrs (psec s i) then psec_limit_left E i s else s) in
      if psec_naddrs (psec s i) < 0 then psec_upd i (\<lambda>p. p\<lparr>psec_naddrs := 0\<rparr>) s else s)"

text \<open>The port an address points to, if the port is one of this unit.\<close>

definition entry_port :: "mac_entry \<Rightarrow> 'a psec_st_scheme \<Rightarrow> nat option" where
  "entry_port me s =
     (case me_key me of
        MAC_ADDR v a \<Rightarrow>
          if ci_type (me_dst me) = CPSS_IF_PORT then
            port_ix (port_id (ci_devNum (me_dst me)) (ci_portNum (me_dst me)) s) s
          else None
      | _ \<Rightarrow> None)"

text \<open>\<open>psec_addr_check\<close>: \<open>old\<close> is the entry to be replaced, if the slot is in use. When the new entry
  is on no local port but the old one is, the C function takes the old entry out of its port's count and
  returns \<open>st\<close>, which nothing has assigned: undefined behaviour, which the model marks with \<open>crash\<close>
  (the status it goes on with is one of those the C code may return).\<close>

definition psec_addr_check ::
  "env \<Rightarrow> mac_entry option \<Rightarrow> mac_entry \<Rightarrow> bool \<Rightarrow> 'a psec_st_scheme \<Rightarrow> psec_addr_status \<times> 'a psec_st_scheme" where
  "psec_addr_check E old new fake s =
     (let op = (case old of None \<Rightarrow> None | Some me \<Rightarrow> entry_port me s);
          np = entry_port new s;
          upd_old = (\<lambda>s. case op of
              Some j \<Rightarrow> if \<not> fake then psec_addr_del_port E j s else s | None \<Rightarrow> s) in
      if np = op then (PAS_OK, s)
      else case np of
        None \<Rightarrow> (PAS_OK, crash (upd_old s))
      | Some i \<Rightarrow>
          let inc = psec_upd i (\<lambda>p. p\<lparr>psec_naddrs := psec_naddrs p + 1\<rparr>) in
          if \<not> psec_enabled (psec s i) then (PAS_OK, upd_old (if \<not> fake then inc s else s))
          else if psec_naddrs (psec s i) \<ge> psec_max_addrs (psec s i) then (PAS_LIMIT, s)
          else if \<not> fake then
            let s = inc s;
                s = (if psec_naddrs (psec s i) = psec_max_addrs (psec s i) then psec_limit_reached E i s else s) in
            (PAS_OK, upd_old s)
          else (PAS_OK, upd_old s))"

definition psec_addr_del :: "env \<Rightarrow> mac_entry \<Rightarrow> 'a psec_st_scheme \<Rightarrow> 'a psec_st_scheme" where
  "psec_addr_del E me s = (case entry_port me s of Some i \<Rightarrow> psec_addr_del_port E i s | None \<Rightarrow> s)"

definition psec_after_flush :: "env \<Rightarrow> 'a psec_st_scheme \<Rightarrow> 'a psec_st_scheme" where
  "psec_after_flush E s =
     fold (\<lambda>i s.
        let s = (if psec_naddrs (psec s i) < 0 then psec_upd i (\<lambda>p. p\<lparr>psec_naddrs := 0\<rparr>) s else s) in
        if psec_enabled (psec s i) \<and> psec_naddrs (psec s i) < psec_max_addrs (psec s i)
        then psec_limit_left E i s else s) [0 ..< length (ports s)] s"

section \<open>Configuration\<close>

definition psec_set_mode :: "u16 \<Rightarrow> psec_mode \<Rightarrow> 'a psec_st_scheme \<Rightarrow> status \<times> 'a psec_st_scheme" where
  "psec_set_mode pid mode s =
     (case port_ix pid s of
        None \<Rightarrow> (ST_BAD_VALUE, s)
      | Some i \<Rightarrow>
          if mode = PSECM_OTHER then (ST_BAD_VALUE, s)
          else if psec_enabled (psec s i) then (ST_BAD_STATE, s)
          else (ST_OK, psec_upd i (\<lambda>p. p\<lparr>psec_mode := mode\<rparr>) s))"

definition psec_set_max_addrs :: "fdb_env \<Rightarrow> u16 \<Rightarrow> int \<Rightarrow> 'a psec_st_scheme \<Rightarrow> status \<times> 'a psec_st_scheme" where
  "psec_set_max_addrs F pid n s =
     (case port_ix pid s of
        None \<Rightarrow> (ST_BAD_VALUE, s)
      | Some i \<Rightarrow>
          if \<not> (v_psec_addrs_min F \<le> n \<and> n \<le> v_psec_addrs_max F) then (ST_BAD_VALUE, s)
          else if psec_enabled (psec s i) then (ST_BAD_STATE, s)
          else (ST_OK, psec_upd i (\<lambda>p. p\<lparr>psec_max_addrs := n\<rparr>) s))"

text \<open>\<open>__psec_enable\<close>: puts the setting into the hardware.\<close>

definition psec_program :: "env \<Rightarrow> nat \<Rightarrow> 'a psec_st_scheme \<Rightarrow> 'a psec_st_scheme" where
  "psec_program E i s =
     (let p = ports s ! i; ps = psec s i;
          storm = (\<lambda>on s. snd (crp E (Fd (FdbNaStormPreventSet (pt_ldev p) (pt_lport p) on)) s)) in
      if psec_enabled ps then
        let s = storm False s in
        (case psec_mode ps of
           PSECM_LOCK \<Rightarrow> psec_disable_learning E i s
         | PSECM_MAX_ADDRS \<Rightarrow>
             if psec_naddrs ps \<ge> psec_max_addrs ps then psec_disable_learning E i s
             else psec_enable_learning E i s
         | PSECM_OTHER \<Rightarrow> s)
      else storm True (psec_enable_learning E i s))"

definition psec_enable :: "env \<Rightarrow> u16 \<Rightarrow> bool \<Rightarrow> psec_action \<Rightarrow> u32 \<Rightarrow> 'a psec_st_scheme \<Rightarrow> status \<times> 'a psec_st_scheme" where
  "psec_enable E pid enable act trap_interval s =
     (case port_ix pid s of
        None \<Rightarrow> (ST_BAD_VALUE, s)
      | Some i \<Rightarrow>
          if act = PSECA_OTHER then (ST_BAD_VALUE, s)
          else
            let trap_interval = (if trap_interval = 0 then 30 else trap_interval) in
            if \<not> (1 \<le> trap_interval \<and> trap_interval \<le> 1000000) then (ST_BAD_VALUE, s)
            else
              let do_enable = psec_enabled (psec s i) \<noteq> enable;
                  s = psec_upd i (\<lambda>p. p\<lparr>psec_enabled := enable, psec_action := act,
                                        psec_trap_interval := trap_interval\<rparr>) s;
                  s = sec_port_na_delay_set (unat pid) trap_interval s;
                  s = sec_moved_static_delay_set (unat pid) trap_interval s;
                  s = sec_port_enable (unat pid) enable s in
              (ST_OK, if do_enable then psec_program E i s else s))"

text \<open>The breach events of a port are wanted when its frames are dropped for lack of an entry.\<close>

definition psec_wants_breach :: "port_sec \<Rightarrow> bool" where
  "psec_wants_breach p \<longleftrightarrow>
     psec_action p = PSECA_RESTRICT \<and>
     (psec_mode p = PSECM_LOCK \<or> psec_mode p = PSECM_MAX_ADDRS \<and> psec_naddrs p \<ge> psec_max_addrs p)"

definition psec_enable_na_sb :: "env \<Rightarrow> u16 \<Rightarrow> bool \<Rightarrow> 'a psec_st_scheme \<Rightarrow> status \<times> 'a psec_st_scheme" where
  "psec_enable_na_sb E pid enable s =
     (case port_ix pid s of
        None \<Rightarrow> (ST_BAD_VALUE, s)
      | Some i \<Rightarrow>
          (ST_OK,
           if enable then
             if psec_wants_breach (psec s i) then snd (sec_port_na_enable E i True s) else s
           else snd (sec_port_na_enable E i False s)))"

definition psec_enable_na_sb_all :: "env \<Rightarrow> bool \<Rightarrow> 'a psec_st_scheme \<Rightarrow> 'a psec_st_scheme" where
  "psec_enable_na_sb_all E enable s =
     fold (\<lambda>i s.
        if \<not> psec_enabled (psec s i) then s
        else if enable then
          if psec_wants_breach (psec s i) then snd (sec_port_na_enable E i True s) else s
        else snd (sec_port_na_enable E i False s)) [0 ..< length (ports s)] s"

definition port_fdb_new_addr_notify :: "u16 \<Rightarrow> bool \<Rightarrow> 'a psec_st_scheme \<Rightarrow> status \<times> 'a psec_st_scheme" where
  "port_fdb_new_addr_notify pid enable s =
     (case port_ix pid s of
        None \<Rightarrow> (ST_BAD_VALUE, s)
      | Some i \<Rightarrow> (ST_OK, psec_upd i (\<lambda>p. p\<lparr>fdb_new_addr_notify_enabled := enable\<rparr>) s))"

definition port_fdb_addr_op_notify :: "u16 \<Rightarrow> bool \<Rightarrow> 'a psec_st_scheme \<Rightarrow> status \<times> 'a psec_st_scheme" where
  "port_fdb_addr_op_notify pid enable s =
     (case port_ix pid s of
        None \<Rightarrow> (ST_BAD_VALUE, s)
      | Some i \<Rightarrow> (ST_OK, psec_upd i (\<lambda>p. p\<lparr>fdb_addr_op_notify_enabled := enable\<rparr>) s))"

text \<open>\<open>sect_delay_timer\<close>: once a second, the ports whose quiet period is over are told to report again.\<close>

definition sect_delay_timer :: "env \<Rightarrow> u64 \<Rightarrow> 'a psec_st_scheme \<Rightarrow> 'a psec_st_scheme" where
  "sect_delay_timer E ts s =
     fold (\<lambda>pid s.
        let d = sb_delays s pid in
        if port_enabled d \<and> port_na_blocked d \<and> ts > tst_port_na d + ucast (tdelay_sb_port_na d) then
          snd (psec_enable_na_sb E (of_nat pid) True (sb_upd pid (\<lambda>d. d\<lparr>port_na_blocked := False\<rparr>) s))
        else s) [1 ..< Suc (length (ports s))] s"

text \<open>The loop of \<open>sec_start\<close>.\<close>

definition sec_start :: "u64 \<Rightarrow> 'a psec_st_scheme \<Rightarrow> 'a psec_st_scheme" where
  "sec_start ts s =
     fold (\<lambda>i s.
        sb_upd i (\<lambda>d. d\<lparr>tst_port_na := ts, tst_moved_static := ts, port_enabled := False,
                        port_na_enabled := False, port_na_blocked := False\<rparr>)
          (sec_moved_static_delay_set i 30 (sec_port_na_delay_set i 30 s)))
       [1 ..< Suc (length (ports s))] s"

section \<open>What the operations touch\<close>

text \<open>Port security changes its own fields, the effects and nothing else of the state.\<close>

definition psec_frame :: "'a psec_st_scheme \<Rightarrow> 'a psec_st_scheme \<Rightarrow> bool" where
  "psec_frame s t \<longleftrightarrow> t\<lparr>hw := hw s, crashed := crashed s, psec := psec s, sb_delays := sb_delays s\<rparr> = s"

lemma psec_frame_refl [intro!, simp]: "psec_frame s s"
  by (simp add: psec_frame_def)

lemma psec_frame_trans:
  assumes "psec_frame s t" "psec_frame t u"
  shows "psec_frame s u"
proof -
  let ?reset = "\<lambda>r. r\<lparr>hw := hw s, crashed := crashed s, psec := psec s, sb_delays := sb_delays s\<rparr>"
  have "?reset u = ?reset (u\<lparr>hw := hw t, crashed := crashed t, psec := psec t, sb_delays := sb_delays t\<rparr>)"
    by simp
  also have "\<dots> = ?reset t" using assms(2) unfolding psec_frame_def by simp
  also have "\<dots> = s" using assms(1) unfolding psec_frame_def by simp
  finally show ?thesis unfolding psec_frame_def .
qed

lemma psec_frame_steps [intro]:
  assumes "psec_frame s t"
  shows "psec_frame s (emit e t)" "psec_frame s (crash t)" "psec_frame s (psec_upd i f t)" "psec_frame s (sb_upd i g t)"
  using assms unfolding psec_frame_def emit_def crash_def psec_upd_def sb_upd_def by simp_all

lemma psec_frameD:
  assumes "psec_frame s t"
  shows "ports t = ports s" "stack_id t = stack_id s" "dev_ports t = dev_ports s" "port_ix n t = port_ix n s"
    "entry_port me t = entry_port me s" "dev_map t = dev_map s"
proof -
  have *: "s = t\<lparr>hw := hw s, crashed := crashed s, psec := psec s, sb_delays := sb_delays s\<rparr>"
    using assms by (simp add: psec_frame_def)
  show ports: "ports t = ports s" using arg_cong [OF *, of ports] by simp
  show sid: "stack_id t = stack_id s" using arg_cong [OF *, of stack_id] by simp
  show dev: "dev_ports t = dev_ports s" using arg_cong [OF *, of dev_ports] by simp
  show "dev_map t = dev_map s" using arg_cong [OF *, of dev_map] by simp
  show "port_ix n t = port_ix n s" "entry_port me t = entry_port me s"
    by (simp_all add: ports sid dev port_ix_def port_valid_def entry_port_def port_id_def Let_def split: fdb_key.splits)
qed

lemma snd_crp [simp]: "snd (crp E e s) = emit e s"
  by (simp add: crp_def)

lemma psec_frame_fold:
  "(\<And>x t. psec_frame s t \<Longrightarrow> psec_frame s (f x t)) \<Longrightarrow> psec_frame s t \<Longrightarrow> psec_frame s (fold f xs t)"
  by (induction xs arbitrary: t) auto

lemma snd_sec_port_na_enable:
  "snd (sec_port_na_enable E i enable s) =
     emit (Fd (SecurBreachNaPerPortSet (pt_ldev (ports s ! i)) (pt_lport (ports s ! i)) enable))
       (sb_upd (i + 1) (\<lambda>d. d\<lparr>port_na_enabled := enable\<rparr>) s)"
  by (simp add: sec_port_na_enable_def Let_def crp_def sb_upd_def)

lemma psec_frame_na_enable [intro]:
  "psec_frame s t \<Longrightarrow> psec_frame s (snd (sec_port_na_enable E i enable t))"
  by (auto simp: snd_sec_port_na_enable)

lemma psec_frame_learning [intro]:
  "psec_frame s t \<Longrightarrow> psec_frame s (psec_disable_learning E i t)"
  "psec_frame s t \<Longrightarrow> psec_frame s (psec_enable_learning E i t)"
  by (auto simp: psec_disable_learning_def psec_enable_learning_def Let_def split: psec_action.splits)

lemma psec_frame_limit [intro]:
  "psec_frame s t \<Longrightarrow> psec_frame s (psec_limit_reached E i t)"
  "psec_frame s t \<Longrightarrow> psec_frame s (psec_limit_left E i t)"
  by (auto simp: psec_limit_reached_def psec_limit_left_def)

lemma psec_frame_addr_del_port [intro]: "psec_frame s t \<Longrightarrow> psec_frame s (psec_addr_del_port E i t)"
  by (auto simp: psec_addr_del_port_def Let_def)

lemma psec_frame_addr_del [intro]: "psec_frame s t \<Longrightarrow> psec_frame s (psec_addr_del E me t)"
  by (auto simp: psec_addr_del_def split: option.splits)

lemma psec_frame_addr_check [intro]:
  "psec_frame s t \<Longrightarrow> psec_frame s (snd (psec_addr_check E old new fake t))"
  unfolding psec_addr_check_def Let_def
  by (auto split: option.splits)

lemma psec_frame_after_flush [intro]: "psec_frame s t \<Longrightarrow> psec_frame s (psec_after_flush E t)"
  unfolding psec_after_flush_def Let_def by (rule psec_frame_fold) auto

lemma psec_frame_na_sb_all [intro]: "psec_frame s t \<Longrightarrow> psec_frame s (psec_enable_na_sb_all E enable t)"
  unfolding psec_enable_na_sb_all_def by (rule psec_frame_fold) auto

lemma psec_frame_na_sb [intro]: "psec_frame s t \<Longrightarrow> psec_frame s (snd (psec_enable_na_sb E pid enable t))"
  by (auto simp: psec_enable_na_sb_def split: option.splits)

section \<open>The settings and counts after an operation\<close>

lemma psec_emit [simp]: "psec (emit e s) = psec s"
  by (simp add: emit_def)

lemma psec_sb_upd [simp]: "psec (sb_upd i f s) = psec s" "ports (sb_upd i f s) = ports s" "hw (sb_upd i f s) = hw s"
  by (simp_all add: sb_upd_def)

lemma psec_crash [simp]: "psec (crash s) = psec s" "ports (crash s) = ports s" "hw (crash s) = hw s" "sb_delays (crash s) = sb_delays s"
  by (simp_all add: crash_def)

lemma psec_psec_upd [simp]:
  "psec (psec_upd i f s) = (psec s)(i := f (psec s i))" "ports (psec_upd i f s) = ports s" "hw (psec_upd i f s) = hw s"
  by (simp_all add: psec_upd_def)

lemma ports_emit [simp]: "ports (emit e s) = ports s"
  by (simp add: emit_def)

lemma psec_na_enable [simp]: "psec (snd (sec_port_na_enable E i enable s)) = psec s"
  by (simp add: snd_sec_port_na_enable)

lemma psec_learning [simp]:
  "psec (psec_disable_learning E i s) = psec s" "psec (psec_enable_learning E i s) = psec s"
  by (simp_all add: psec_disable_learning_def psec_enable_learning_def Let_def split: psec_action.splits)

lemma psec_limit [simp]:
  "psec (psec_limit_reached E i s) = psec s" "psec (psec_limit_left E i s) = psec s"
  by (simp_all add: psec_limit_reached_def psec_limit_left_def)

lemma psec_addr_del_port_psec:
  "0 < psec_naddrs (psec s i) \<Longrightarrow>
     psec (psec_addr_del_port E i s) = (psec s)(i := (psec s i)\<lparr>psec_naddrs := psec_naddrs (psec s i) - 1\<rparr>)"
  by (simp add: psec_addr_del_port_def Let_def)

definition port_count_upd :: "nat option \<Rightarrow> int \<Rightarrow> (nat \<Rightarrow> port_sec) \<Rightarrow> nat \<Rightarrow> port_sec" where
  "port_count_upd p k ps =
     (case p of None \<Rightarrow> ps | Some i \<Rightarrow> ps(i := (ps i)\<lparr>psec_naddrs := psec_naddrs (ps i) + k\<rparr>))"

lemma psec_addr_check_psec:
  fixes s :: "'a psec_st_scheme"
  defines "op old \<equiv> (case old of None \<Rightarrow> None | Some me \<Rightarrow> entry_port me s)"
  assumes "\<And>j. op old = Some j \<Longrightarrow> 0 < psec_naddrs (psec s j)"
  shows "psec (snd (psec_addr_check E old new fake s)) =
    (if entry_port new s = op old \<or> fake \<or> fst (psec_addr_check E old new fake s) \<noteq> PAS_OK then psec s
     else port_count_upd (op old) (-1) (port_count_upd (entry_port new s) 1 (psec s)))"
proof (cases "entry_port new s = op old")
  case True
  then show ?thesis by (simp add: psec_addr_check_def op_def)
next
  case neq: False
  show ?thesis
  proof (cases "entry_port new s")
    case None
    with neq assms(2) show ?thesis
      by (auto simp: psec_addr_check_def port_count_upd_def psec_addr_del_port_psec split: option.splits simp flip: op_def)
  next
    case (Some i)
    show ?thesis
    proof (cases "op old")
      case None
      with Some show ?thesis
        by (auto simp: psec_addr_check_def Let_def port_count_upd_def simp flip: op_def)
    next
      case op: (Some j)
      with neq Some have "i \<noteq> j" by auto
      with Some op assms(2) show ?thesis
        by (auto simp: psec_addr_check_def Let_def port_count_upd_def psec_addr_del_port_psec simp flip: op_def)
    qed
  qed
qed

lemma psec_addr_check_status:
  "fst (psec_addr_check E old new fake s) = PAS_LIMIT \<longleftrightarrow>
     (\<exists>i. entry_port new s = Some i \<and> (case old of None \<Rightarrow> None | Some me \<Rightarrow> entry_port me s) \<noteq> Some i \<and>
       psec_enabled (psec s i) \<and> psec_naddrs (psec s i) \<ge> psec_max_addrs (psec s i))"
  unfolding psec_addr_check_def Let_def by (auto split: option.splits)

lemma psec_addr_check_refused:
  "fst (psec_addr_check E old new fake s) \<noteq> PAS_OK \<Longrightarrow> snd (psec_addr_check E old new fake s) = s"
  unfolding psec_addr_check_def Let_def by (auto split: option.splits if_splits)

lemma psec_after_flush_psec:
  assumes "\<And>i. i < length (ports s) \<Longrightarrow> 0 \<le> psec_naddrs (psec s i)"
  shows "psec (psec_after_flush E s) = psec s"
proof -
  have "psec (fold (\<lambda>i s.
        let s = (if psec_naddrs (psec s i) < 0 then psec_upd i (\<lambda>p. p\<lparr>psec_naddrs := 0\<rparr>) s else s) in
        if psec_enabled (psec s i) \<and> psec_naddrs (psec s i) < psec_max_addrs (psec s i)
        then psec_limit_left E i s else s) xs t) = psec t"
    if "\<forall>i \<in> set xs. 0 \<le> psec_naddrs (psec t i)" for xs and t :: "'a psec_st_scheme"
    using that by (induction xs arbitrary: t) (simp_all add: Let_def)
  then show ?thesis unfolding psec_after_flush_def using assms by simp
qed

lemma psec_na_sb_all [simp]: "psec (psec_enable_na_sb_all E enable s) = psec s"
proof -
  have "psec (fold (\<lambda>i s.
        if \<not> psec_enabled (psec s i) then s
        else if enable then
          if psec_wants_breach (psec s i) then snd (sec_port_na_enable E i True s) else s
        else snd (sec_port_na_enable E i False s)) xs t) = psec t" for xs and t :: "'a psec_st_scheme"
    by (induction xs arbitrary: t) simp_all
  then show ?thesis by (simp add: psec_enable_na_sb_all_def)
qed

lemma psec_na_sb [simp]: "psec (snd (psec_enable_na_sb E pid enable s)) = psec s"
  by (simp add: psec_enable_na_sb_def split: option.splits)

section \<open>Learning in hardware\<close>

text \<open>Whether new addresses of a port go to the CPU to be learned: the newest write.\<close>

definition na_write :: "nat \<Rightarrow> nat \<Rightarrow> effect \<Rightarrow> bool option" where
  "na_write d p e =
     (case e of Fd f \<Rightarrow> (case f of FdbNaToCpuPerPortSet d' p' b \<Rightarrow> if d' = d \<and> p' = p then Some b else None | _ \<Rightarrow> None)
      | _ \<Rightarrow> None)"

fun na_to_cpu_at :: "effect list \<Rightarrow> nat \<Rightarrow> nat \<Rightarrow> bool option" where
  "na_to_cpu_at [] d p = None"
| "na_to_cpu_at (e # es) d p = (case na_write d p e of Some b \<Rightarrow> Some b | None \<Rightarrow> na_to_cpu_at es d p)"

definition port_na :: "'a psec_st_scheme \<Rightarrow> nat \<Rightarrow> bool option" where
  "port_na s i = na_to_cpu_at (hw s) (pt_ldev (ports s ! i)) (pt_lport (ports s ! i))"

definition learns :: "port_sec \<Rightarrow> bool" where
  "learns p \<longleftrightarrow> psec_mode p = PSECM_MAX_ADDRS \<and> psec_naddrs p < psec_max_addrs p"

text \<open>A secured port learns in hardware exactly while its mode and its count allow.\<close>

definition port_synced :: "'a psec_st_scheme \<Rightarrow> nat \<Rightarrow> bool" where
  "port_synced s i \<longleftrightarrow>
     psec_mode (psec s i) \<noteq> PSECM_OTHER \<and>
     (psec_enabled (psec s i) \<longrightarrow> port_na s i = Some (learns (psec s i)))"

definition learn_synced :: "'a psec_st_scheme \<Rightarrow> bool" where
  "learn_synced s \<longleftrightarrow> (\<forall>i < length (ports s). port_synced s i)"

definition ports_distinct :: "'a psec_st_scheme \<Rightarrow> bool" where
  "ports_distinct s \<longleftrightarrow> distinct (map (\<lambda>p. (pt_ldev p, pt_lport p)) (ports s))"

lemma ports_distinctD:
  "ports_distinct s \<Longrightarrow> i < length (ports s) \<Longrightarrow> j < length (ports s) \<Longrightarrow>
     pt_ldev (ports s ! i) = pt_ldev (ports s ! j) \<and> pt_lport (ports s ! i) = pt_lport (ports s ! j) \<longleftrightarrow> i = j"
  unfolding ports_distinct_def by (auto simp: distinct_conv_nth)

lemma port_na_upd [simp]: "port_na (psec_upd k f s) i = port_na s i" "port_na (sb_upd k g s) i = port_na s i"
  by (simp_all add: port_na_def)

lemma port_na_breach [simp]: "port_na (snd (sec_port_na_enable E k b s)) i = port_na s i"
  by (simp add: port_na_def snd_sec_port_na_enable na_write_def)

lemma port_na_learning:
  assumes "ports_distinct s" "i < length (ports s)" "j < length (ports s)"
  shows "port_na (psec_disable_learning E i s) j = (if j = i then Some False else port_na s j)"
    and "port_na (psec_enable_learning E i s) j = (if j = i then Some True else port_na s j)"
  using ports_distinctD [OF assms]
  by (auto simp: psec_disable_learning_def psec_enable_learning_def Let_def port_na_def na_write_def
      snd_sec_port_na_enable split: psec_action.splits)

lemma port_na_limit:
  assumes "ports_distinct s" "i < length (ports s)" "j < length (ports s)"
  shows "port_na (psec_limit_reached E i s) j = (if j = i \<and> psec_enabled (psec s i) then Some False else port_na s j)"
    and "port_na (psec_limit_left E i s) j =
      (if j = i \<and> psec_enabled (psec s i) \<and> psec_mode (psec s i) = PSECM_MAX_ADDRS then Some True else port_na s j)"
  using port_na_learning [OF assms] by (auto simp: psec_limit_reached_def psec_limit_left_def)

lemma ports_distinct_upd [simp]: "ports_distinct (psec_upd i f s) = ports_distinct s"
  by (simp add: ports_distinct_def)

lemma port_synced_addr_del_port:
  assumes "ports_distinct s" "i < length (ports s)" "j < length (ports s)" "0 < psec_naddrs (psec s i)" "port_synced s j"
  shows "port_synced (psec_addr_del_port E i s) j"
  using assms port_na_limit (2) [of "psec_upd i (\<lambda>p. p\<lparr>psec_naddrs := psec_naddrs (psec s i) - 1\<rparr>) s" i j E]
  by (auto simp: port_synced_def psec_addr_del_port_def Let_def learns_def)

lemma ports_frame: "psec_frame s t \<Longrightarrow> ports_distinct t = ports_distinct s" "psec_frame s t \<Longrightarrow> length (ports t) = length (ports s)"
  by (simp_all add: ports_distinct_def psec_frameD)

lemma port_synced_count_up:
  assumes "ports_distinct s" "i < length (ports s)" "j < length (ports s)" "port_synced s j"
    and "psec_naddrs (psec s i) < psec_max_addrs (psec s i) \<or> \<not> psec_enabled (psec s i)"
    and "t = psec_upd i (\<lambda>p. p\<lparr>psec_naddrs := psec_naddrs p + 1\<rparr>) s"
  shows "port_synced (if psec_enabled (psec t i) \<and> psec_naddrs (psec t i) = psec_max_addrs (psec t i)
           then psec_limit_reached E i t else t) j"
  using assms port_na_limit (1) [of t i j E]
  by (auto simp: port_synced_def learns_def)

lemma port_ix_less: "port_ix n s = Some i \<Longrightarrow> i < length (ports s)"
  by (auto simp: port_ix_def port_valid_def split: if_splits)

lemma entry_port_less: "entry_port me s = Some i \<Longrightarrow> i < length (ports s)"
  by (auto simp: entry_port_def port_ix_less split: fdb_key.splits if_splits)

lemma port_synced_crash [simp]: "port_synced (crash s) j = port_synced s j"
  by (simp add: port_synced_def port_na_def)

lemma port_synced_addr_check:
  fixes s :: "'a psec_st_scheme"
  defines "op old \<equiv> (case old of None \<Rightarrow> None | Some me \<Rightarrow> entry_port me s)"
  assumes dist: "ports_distinct s" and j: "j < length (ports s)" and synced: "port_synced s j"
    and pos: "\<And>k. op old = Some k \<Longrightarrow> 0 < psec_naddrs (psec s k)"
  shows "port_synced (snd (psec_addr_check E old new fake s)) j"
proof -
  have op_less: "k < length (ports s)" if "op old = Some k" for k
    using that by (auto simp: op_def entry_port_less split: option.splits)
  have del: "port_synced (psec_addr_del_port E k t) j"
    if "op old = Some k" "psec_frame s t" "port_synced t j" "psec_naddrs (psec t k) = psec_naddrs (psec s k)" for k t
    by (rule port_synced_addr_del_port) (use that op_less pos j dist ports_frame [OF that(2)] in auto)
  show ?thesis
  proof (cases "entry_port new s = op old \<or> fake")
    case True
    then show ?thesis using synced
      by (auto simp: psec_addr_check_def Let_def simp flip: op_def split: option.splits)
  next
    case False
    show ?thesis
    proof (cases "entry_port new s")
      case None
      with False synced del show ?thesis
        by (auto simp: psec_addr_check_def Let_def simp flip: op_def split: option.splits)
    next
      case (Some i)
      define t where "t = psec_upd i (\<lambda>p. p\<lparr>psec_naddrs := psec_naddrs p + 1\<rparr>) s"
      define u where "u = (if psec_enabled (psec t i) \<and> psec_naddrs (psec t i) = psec_max_addrs (psec t i)
           then psec_limit_reached E i t else t)"
      have up: "port_synced u j" if "psec_naddrs (psec s i) < psec_max_addrs (psec s i) \<or> \<not> psec_enabled (psec s i)"
        unfolding u_def by (rule port_synced_count_up [OF dist entry_port_less [OF Some] j synced that t_def])
      have frame: "psec_frame s u" by (auto simp: u_def t_def)
      have cnt: "psec_naddrs (psec u k) = psec_naddrs (psec s k)" if "k \<noteq> i" for k
        using that by (simp add: u_def t_def)
      have eq: "snd (psec_addr_check E old new fake s) =
        (if psec_enabled (psec s i) \<and> psec_naddrs (psec s i) \<ge> psec_max_addrs (psec s i) then s
         else case op old of Some k \<Rightarrow> psec_addr_del_port E k u | None \<Rightarrow> u)"
        using False Some unfolding psec_addr_check_def op_def [symmetric]
        by (auto simp: Let_def u_def t_def split: option.splits)
      show ?thesis
        unfolding eq using synced up del [OF _ frame] cnt False Some by (auto split: option.splits)
    qed
  qed
qed

end
