(* ===== verification/Fdb.thy ===== *)
theory Fdb
  imports Psec
begin

text \<open>
  The MAC address table (\<open>src/mac.c\<close>): the shadow \<open>fdb\<close> of the hardware's table. A key hashes
  to a bucket of four slots; an insertion takes the slot of the key, else a free slot, else
  the slot with the lowest priority below its own. Each change of an entry updates the
  address count of the ports concerned (\<open>Psec\<close>) and the slot in every device.
\<close>

section \<open>State\<close>

text \<open>The priorities of \<open>enum fdb_entry_prio\<close>, held in \<open>userDefined\<close>.\<close>

definition FEP_UNUSED :: nat where "FEP_UNUSED = 0"
definition FEP_FOREIGN :: nat where "FEP_FOREIGN = 1"
definition FEP_DYN :: nat where "FEP_DYN = 2"
definition FEP_STATIC :: nat where "FEP_STATIC = 3"
definition FEP_OWN :: nat where "FEP_OWN = 4"

lemmas fep_defs = FEP_UNUSED_def FEP_FOREIGN_def FEP_DYN_def FEP_STATIC_def FEP_OWN_def

record fdb_entry =
  fe_valid :: bool
  fe_secure :: bool
  pc_aging_status :: u16
  ts_addr_change :: u64
  addr_flaps :: u16
  fe_me :: mac_entry

datatype fdbman_state = FST_MASTER | FST_PRE_MEMBER | FST_MEMBER

text \<open>\<open>vifp_by_hw\<close> gives the id of the interface at a hardware port and whether it is in a trunk.\<close>

record fdb_st = psec_st +
  fdb :: "nat \<Rightarrow> fdb_entry"
  fdbman_state :: fdbman_state
  fdbman_master :: u8
  fdbman_newmaster :: u8
  fdbman_serial :: u64
  fdbman_newserial :: u64
  fdbman_devsbmp :: u16
  vifp_by_hw :: "u8 \<Rightarrow> u8 \<Rightarrow> (vif_id \<times> bool) option"

definition FDB_MAX_ADDRS :: nat where "FDB_MAX_ADDRS = 16384"
definition ANTIFLAPING_INTERVAL :: u64 where "ANTIFLAPING_INTERVAL = 100"
definition FLAP_BLOCKING_TIMEOUT :: u64 where "FLAP_BLOCKING_TIMEOUT = 10000"
definition MAX_FLAPS :: u16 where "MAX_FLAPS = 5"

text \<open>\<open>memset (&me, 0, sizeof (me))\<close>: a zero entry is a MAC address entry for a port.\<close>

definition key_zero :: fdb_key where "key_zero = MAC_ADDR 0 [0, 0, 0, 0, 0, 0]"

definition iface_zero :: cpss_iface where
  "iface_zero = \<lparr>ci_type = CPSS_IF_PORT, ci_devNum = 0, ci_portNum = 0, ci_trunkId = 0, ci_vidx = 0, ci_vlanId = 0\<rparr>"

definition me_zero :: mac_entry where
  "me_zero = \<lparr>me_key = key_zero, me_dst = iface_zero, me_isStatic = False, me_userDefined = 0,
     me_daCommand = MAC_TABLE_FRWRD, me_saCommand = MAC_TABLE_FRWRD, me_daRoute = False,
     me_appSpecificCpuCode = False, me_spUnknown = False, me_sourceID = 0\<rparr>"

definition fdb_upd :: "nat \<Rightarrow> (fdb_entry \<Rightarrow> fdb_entry) \<Rightarrow> 'a fdb_st_scheme \<Rightarrow> 'a fdb_st_scheme" where
  "fdb_upd i f s = s\<lparr>fdb := (fdb s)(i := f (fdb s i))\<rparr>"

section \<open>Insertion\<close>

definition same_port :: "cpss_iface \<Rightarrow> cpss_iface \<Rightarrow> bool" where
  "same_port a b \<longleftrightarrow> ci_type a = CPSS_IF_PORT \<and> ci_type b = CPSS_IF_PORT \<and>
     ci_devNum a = ci_devNum b \<and> ci_portNum a = ci_portNum b"

text \<open>The body of the loop for the slot that holds the key and is in use.\<close>

definition fdb_found ::
  "u64 \<Rightarrow> mac_entry \<Rightarrow> nat \<Rightarrow> 'a fdb_st_scheme \<Rightarrow> (status + nat option \<times> bool) \<times> 'a fdb_st_scheme" where
  "fdb_found ts e idx s =
     (let me_exists = same_port (me_dst e) (me_dst (fe_me (fdb s idx)));
          s = (if addr_flaps (fdb s idx) \<noteq> 0 \<and> ts_addr_change (fdb s idx) + FLAP_BLOCKING_TIMEOUT < ts
               then fdb_upd idx (\<lambda>f. f\<lparr>addr_flaps := 0\<rparr>) s else s) in
      if me_userDefined (fe_me (fdb s idx)) \<le> me_userDefined e then
        let s = (if me_userDefined e = FEP_DYN \<and> ts_addr_change (fdb s idx) + ANTIFLAPING_INTERVAL \<ge> ts
                 then fdb_upd idx (\<lambda>f. f\<lparr>addr_flaps := addr_flaps f + 1\<rparr>) s else s) in
        if me_userDefined e \<le> FEP_DYN \<and> addr_flaps (fdb s idx) \<ge> MAX_FLAPS then (Inl ST_NOT_READY, s)
        else (Inr (Some idx, me_exists), s)
      else (Inl ST_ALREADY_EXISTS, s))"

text \<open>The loop over the slots of the bucket: the slot to use so far and its priority.\<close>

fun fdb_scan ::
  "u64 \<Rightarrow> mac_entry \<Rightarrow> nat list \<Rightarrow> nat option \<Rightarrow> nat \<Rightarrow> 'a fdb_st_scheme \<Rightarrow>
     (status + nat option \<times> bool) \<times> 'a fdb_st_scheme" where
  "fdb_scan ts e [] best pri s = (Inr (best, False), s)"
| "fdb_scan ts e (idx # idxs) best pri s =
     (if \<not> idx < FDB_MAX_ADDRS then (Inl ST_HEX, crash s)
      else let f = fdb s idx in
        if me_key e = me_key (fe_me f) then
          if \<not> fe_valid f then (Inr (Some idx, False), s) else fdb_found ts e idx s
        else if pri = FEP_UNUSED then fdb_scan ts e idxs best pri s
        else if \<not> fe_valid f then fdb_scan ts e idxs (Some idx) FEP_UNUSED s
        else if pri > me_userDefined (fe_me f) then fdb_scan ts e idxs (Some idx) (me_userDefined (fe_me f)) s
        else fdb_scan ts e idxs best pri s)"

definition bucket :: "fdb_env \<Rightarrow> fdb_key \<Rightarrow> nat list" where
  "bucket F k = [v_hash F k ..< v_hash F k + 4]"

definition old_entry :: "fdb_entry \<Rightarrow> mac_entry option" where
  "old_entry f = (if fe_valid f then Some (fe_me f) else None)"

text \<open>The end of \<open>fdb_insert\<close>: the entry goes into the slot and into every device, where an own
  address points to the device itself.\<close>

definition fdb_store :: "env \<Rightarrow> mac_entry \<Rightarrow> bool \<Rightarrow> bool \<Rightarrow> u64 \<Rightarrow> nat \<Rightarrow> 'a fdb_st_scheme \<Rightarrow> 'a fdb_st_scheme" where
  "fdb_store E e own secure ts idx s =
     snd (for_each_dev E (\<lambda>d. Fd (FdbMacEntryWrite d idx
            (if own then e\<lparr>me_dst := (me_dst e)\<lparr>ci_devNum := fst (phys_dev d s)\<rparr>\<rparr> else e)))
       (fdb_upd idx (\<lambda>f. \<lparr>fe_valid = True, fe_secure = secure, pc_aging_status = fdbman_devsbmp s, ts_addr_change = ts,
           addr_flaps = (if fe_valid f then addr_flaps f else 0), fe_me = e\<rparr>) s))"

definition fdb_insert ::
  "env \<Rightarrow> fdb_env \<Rightarrow> mac_entry \<Rightarrow> bool \<Rightarrow> bool \<Rightarrow> bool \<Rightarrow> u64 \<Rightarrow> 'a fdb_st_scheme \<Rightarrow> status \<times> 'a fdb_st_scheme" where
  "fdb_insert E F e own secure fake ts s =
     (case crp E (Fd (FdbHashCalc (me_key e))) s of (rc, s) \<Rightarrow>
        if rc \<noteq> GT_OK then (ST_HEX, s)
        else case fdb_scan ts e (bucket F (me_key e)) None (me_userDefined e) s of
          (Inl st, s) \<Rightarrow> (st, s)
        | (Inr (None, _), s) \<Rightarrow> (ST_DOES_NOT_EXIST, s)
        | (Inr (Some idx, me_exists), s) \<Rightarrow>
            (case psec_addr_check E (old_entry (fdb s idx)) e (fake \<or> me_exists) s of
               (PAS_LIMIT, s) \<Rightarrow> (ST_BAD_STATE, s)
             | (PAS_OK, s) \<Rightarrow> (ST_OK, if fake then s else fdb_store E e own secure ts idx s)))"

section \<open>Removal and lookup\<close>

fun slot_of :: "(nat \<Rightarrow> fdb_entry) \<Rightarrow> fdb_key \<Rightarrow> nat list \<Rightarrow> nat option" where
  "slot_of t k [] = None"
| "slot_of t k (idx # idxs) = (if fe_valid (t idx) \<and> me_key (fe_me (t idx)) = k then Some idx else slot_of t k idxs)"

text \<open>Slots past the end of the table are not read.\<close>

definition fdb_slot :: "fdb_env \<Rightarrow> fdb_key \<Rightarrow> 'a fdb_st_scheme \<Rightarrow> nat option \<times> 'a fdb_st_scheme" where
  "fdb_slot F k s =
     (let idxs = bucket F k in
      case slot_of (fdb s) k (filter (\<lambda>i. i < FDB_MAX_ADDRS) idxs) of
        Some idx \<Rightarrow> (Some idx, s)
      | None \<Rightarrow> (None, if list_all (\<lambda>i. i < FDB_MAX_ADDRS) idxs then s else crash s))"

definition fdb_clear :: "nat \<Rightarrow> 'a fdb_st_scheme \<Rightarrow> 'a fdb_st_scheme" where
  "fdb_clear idx s =
     fdb_upd idx (\<lambda>f. f\<lparr>fe_valid := False, fe_secure := False, ts_addr_change := 0, addr_flaps := 0\<rparr>) s"

definition fdb_remove :: "env \<Rightarrow> fdb_env \<Rightarrow> fdb_key \<Rightarrow> nat \<Rightarrow> 'a fdb_st_scheme \<Rightarrow> status \<times> 'a fdb_st_scheme" where
  "fdb_remove E F k sid s =
     (case crp E (Fd (FdbHashCalc k)) s of (rc, s) \<Rightarrow>
        if rc \<noteq> GT_OK then (ST_HEX, s)
        else case fdb_slot F k s of
          (None, s) \<Rightarrow> (ST_DOES_NOT_EXIST, s)
        | (Some idx, s) \<Rightarrow>
            let f = fdb s idx;
                asks = (unat (fdbman_master s) = stack_id s \<and> ci_type (me_dst (fe_me f)) = CPSS_IF_TRUNK \<and> sid \<noteq> 16);
                aging = pc_aging_status f AND NOT (push_bit sid 1);
                s = (if asks then fdb_upd idx (\<lambda>f. f\<lparr>pc_aging_status := aging\<rparr>) s else s) in
            if asks \<and> aging \<noteq> 0 then (ST_NOT_READY, s)
            else
              let s = psec_addr_del E (fe_me f) s;
                  s = snd (for_each_dev E (\<lambda>d. Fd (FdbMacEntryInvalidate d idx)) s) in
              (ST_OK, fdb_clear idx s))"

definition fdb_query :: "env \<Rightarrow> fdb_env \<Rightarrow> fdb_key \<Rightarrow> 'a fdb_st_scheme \<Rightarrow> (status \<times> fdb_entry option) \<times> 'a fdb_st_scheme" where
  "fdb_query E F k s =
     (case crp E (Fd (FdbHashCalc k)) s of (rc, s) \<Rightarrow>
        if rc \<noteq> GT_OK then ((ST_HEX, None), s)
        else case fdb_slot F k s of
          (Some idx, s) \<Rightarrow> ((ST_OK, Some (fdb s idx)), s)
        | (None, s) \<Rightarrow> ((ST_DOES_NOT_EXIST, None), s))"

section \<open>Requests about addresses\<close>

text \<open>Clients give a MAC address request an entry; the destinations of the interfaces come from
  \<open>Vif\<close>. \<open>CPSS_CPU_PORT_NUM_CNS\<close> is 63.\<close>

definition cpss_of :: "iface \<Rightarrow> cpss_iface \<Rightarrow> cpss_iface" where
  "cpss_of i c =
     (case i of
        IF_Port d p \<Rightarrow> c\<lparr>ci_type := CPSS_IF_PORT, ci_devNum := d, ci_portNum := p\<rparr>
      | IF_Trunk t \<Rightarrow> c\<lparr>ci_type := CPSS_IF_TRUNK, ci_trunkId := t\<rparr>
      | IF_Vidx v \<Rightarrow> c\<lparr>ci_type := CPSS_IF_VIDX, ci_vidx := v\<rparr>
      | IF_None \<Rightarrow> c)"

definition me_own :: "mac \<Rightarrow> vid \<Rightarrow> mac_entry" where
  "me_own addr v =
     me_zero\<lparr>me_key := MAC_ADDR v addr, me_isStatic := True, me_userDefined := FEP_OWN,
       me_dst := iface_zero\<lparr>ci_portNum := 63\<rparr>, me_appSpecificCpuCode := True, me_daRoute := True\<rparr>"

definition me_user :: "mac \<Rightarrow> vid \<Rightarrow> mac_entry_type \<Rightarrow> mac_entry" where
  "me_user addr v type =
     me_zero\<lparr>me_key := MAC_ADDR v addr, me_isStatic := (type \<noteq> MET_DYNAMIC),
       me_userDefined := (if type \<noteq> MET_DYNAMIC then FEP_STATIC else FEP_DYN)\<rparr>"

definition me_drop :: "vid \<Rightarrow> mac_entry \<Rightarrow> mac_entry" where
  "me_drop v me =
     me\<lparr>me_dst := iface_zero\<lparr>ci_type := CPSS_IF_VID, ci_vlanId := v\<rparr>,
        me_daCommand := MAC_TABLE_DROP, me_saCommand := MAC_TABLE_DROP\<rparr>"

definition fdb_mac_add ::
  "env \<Rightarrow> fdb_env \<Rightarrow> mac_op_arg \<Rightarrow> bool \<Rightarrow> u64 \<Rightarrow> 'a fdb_st_scheme \<Rightarrow> status \<times> 'a fdb_st_scheme" where
  "fdb_mac_add E F arg own ts s =
     (let ins = (\<lambda>me. fdb_insert E F me own (ma_type arg = MET_SECURE) False ts);
          me = me_user (ma_mac arg) (ma_vid arg) (ma_type arg) in
      if own then ins (me_own (ma_mac arg) (ma_vid arg)) s
      else if ma_drop arg then ins (me_drop (ma_vid arg) me) s
      else case port_ix (ma_port arg) s of
        None \<Rightarrow> (ST_BAD_VALUE, s)
      | Some i \<Rightarrow>
          let port = ports s ! i;
              (dev, s) = phys_dev (pt_ldev port) s;
              me = me\<lparr>me_dst := iface_zero\<lparr>ci_devNum := dev, ci_portNum := of_nat (pt_lport port)\<rparr>\<rparr>;
              s = (if fdb_addr_op_notify_enabled (psec s i)
                   then emit (Nt (CN_MAC_OP_LEARN (of_nat (i + 1)) (ma_mac arg) (ma_vid arg))) s else s) in
          ins me s)"

definition fdb_mac_add_vif ::
  "env \<Rightarrow> fdb_env \<Rightarrow> mac_op_arg_vif \<Rightarrow> bool \<Rightarrow> u64 \<Rightarrow> 'a fdb_st_scheme \<Rightarrow> status \<times> 'a fdb_st_scheme" where
  "fdb_mac_add_vif E F arg own ts s =
     (let ins = (\<lambda>me. fdb_insert E F me own (mv_type arg = MET_SECURE) False ts);
          me = me_user (mv_mac arg) (mv_vid arg) (mv_type arg) in
      if own then ins (me_own (mv_mac arg) (mv_vid arg)) s
      else if mv_drop arg then ins (me_drop (mv_vid arg) me) s
      else case vif_getn E (mv_vifid arg) s of
        (None, s) \<Rightarrow> (ST_BAD_VALUE, s)
      | (Some v, s) \<Rightarrow>
          (case fill_cpss_if v s of (i, s) \<Rightarrow> ins (me\<lparr>me_dst := cpss_of i iface_zero\<rparr>) s))"

text \<open>\<open>fdb_mac_op\<close> with \<open>fdb_mac_delete\<close>, and their \<open>_vif\<close> versions.\<close>

definition fdb_mac_op ::
  "env \<Rightarrow> fdb_env \<Rightarrow> mac_op_arg \<Rightarrow> bool \<Rightarrow> u64 \<Rightarrow> 'a fdb_st_scheme \<Rightarrow> status \<times> 'a fdb_st_scheme" where
  "fdb_mac_op E F arg own ts s =
     (if ma_delete arg then fdb_remove E F (MAC_ADDR (ma_vid arg) (ma_mac arg)) 16 s
      else fdb_mac_add E F arg own ts s)"

definition fdb_mac_op_vif ::
  "env \<Rightarrow> fdb_env \<Rightarrow> mac_op_arg_vif \<Rightarrow> bool \<Rightarrow> u64 \<Rightarrow> 'a fdb_st_scheme \<Rightarrow> status \<times> 'a fdb_st_scheme" where
  "fdb_mac_op_vif E F arg own ts s =
     (if mv_delete arg then fdb_remove E F (MAC_ADDR (mv_vid arg) (mv_mac arg)) 16 s
      else fdb_mac_add_vif E F arg own ts s)"

definition fdb_mac_mc_ip_add ::
  "env \<Rightarrow> fdb_env \<Rightarrow> mc_ip_op_arg \<Rightarrow> u64 \<Rightarrow> 'a fdb_st_scheme \<Rightarrow> status \<times> 'a fdb_st_scheme" where
  "fdb_mac_mc_ip_add E F arg ts s =
     fdb_insert E F
       (me_zero\<lparr>me_key := IPV4_MCAST (mi_vid arg) (mi_src arg) (mi_dst arg), me_isStatic := True,
          me_userDefined := FEP_STATIC, me_dst := iface_zero\<lparr>ci_type := CPSS_IF_VIDX, ci_vidx := mi_mcg arg\<rparr>\<rparr>)
       False False False ts s"

definition fdb_mac_mc_ip_op ::
  "env \<Rightarrow> fdb_env \<Rightarrow> mc_ip_op_arg \<Rightarrow> u64 \<Rightarrow> 'a fdb_st_scheme \<Rightarrow> status \<times> 'a fdb_st_scheme" where
  "fdb_mac_mc_ip_op E F arg ts s =
     (if mi_delete arg then fdb_remove E F (IPV4_MCAST (mi_vid arg) (mi_src arg) (mi_dst arg)) 16 s
      else fdb_mac_mc_ip_add E F arg ts s)"

text \<open>\<open>TRUNK_MAX\<close>, like \<open>CPSS_MAX_PORTS_NUM_CNS\<close>, comes from a header: here \<open>e_trunk_id_max\<close>.\<close>

definition fdb_mac_foreign_add ::
  "env \<Rightarrow> fdb_env \<Rightarrow> pti_fdbr \<Rightarrow> u64 \<Rightarrow> 'a fdb_st_scheme \<Rightarrow> status \<times> 'a fdb_st_scheme" where
  "fdb_mac_foreign_add E F fr ts s =
     (if \<not> (pf_vid fr > 0 \<and> pf_vid fr < 0xFFF \<and>
            (pf_type fr = IFTYPE_PORT \<and> pf_byte0 fr \<le> 0x1F \<and> pf_byte1 fr < 64 \<or>
             pf_type fr = IFTYPE_TRUNK \<and> unat (pf_byte0 fr) \<le> e_trunk_id_max E \<and> pf_byte0 fr > 0))
      then (ST_HEX, crash s)
      else
        let me = me_zero\<lparr>me_key := MAC_ADDR (pf_vid fr) (pf_mac fr), me_userDefined := FEP_DYN,
                         me_sourceID := stack_id s,
                         me_dst := (case pf_type fr of
                             IFTYPE_PORT \<Rightarrow> iface_zero\<lparr>ci_devNum := pf_byte0 fr, ci_portNum := pf_byte1 fr\<rparr>
                           | _ \<Rightarrow> iface_zero\<lparr>ci_type := CPSS_IF_TRUNK, ci_trunkId := unat (pf_byte0 fr)\<rparr>)\<rparr> in
        fdb_insert E F me False False False ts s)"

text \<open>The check of \<open>port.hwdev\<close> also sees the number of a trunk.\<close>

definition fdb_mac_foreign_del ::
  "env \<Rightarrow> fdb_env \<Rightarrow> pti_fdbr \<Rightarrow> nat \<Rightarrow> 'a fdb_st_scheme \<Rightarrow> status \<times> 'a fdb_st_scheme" where
  "fdb_mac_foreign_del E F fr sid s =
     (if pf_vid fr = 0 \<or> pf_vid fr \<ge> 0xFFF \<or> pf_byte0 fr > 0x1F then (ST_BAD_VALUE, s)
      else fdb_remove E F (MAC_ADDR (pf_vid fr) (pf_mac fr)) sid s)"

end
