(* ===== verification/Fdb_Ops.thy ===== *)
theory Fdb_Ops
  imports Fdb
begin

text \<open>
  The rest of the FDB management of \<open>src/mac.c\<close>: flushing, aging times, the addresses the
  hardware learns and forgets, and the breach events of \<open>src/sec.c\<close> that look addresses up.
\<close>

section \<open>Flushing\<close>

text \<open>\<open>fdb_flush_entry\<close>.\<close>

definition fdb_flush_entry :: "env \<Rightarrow> nat \<Rightarrow> 'a fdb_st_scheme \<Rightarrow> 'a fdb_st_scheme" where
  "fdb_flush_entry E i s = fdb_clear i (psec_addr_del E (fe_me (fdb s i)) s)"

definition flush_slots :: "env \<Rightarrow> (mac_entry \<Rightarrow> bool) \<Rightarrow> nat list \<Rightarrow> 'a fdb_st_scheme \<Rightarrow> 'a fdb_st_scheme" where
  "flush_slots E P idxs s =
     fold (\<lambda>i s. if fe_valid (fdb s i) \<and> P (fe_me (fdb s i)) then fdb_flush_entry E i s else s) idxs s"

text \<open>Before the flush of a device: its registers are read, then set for the deletion.\<close>

definition flush_calls :: "nat \<Rightarrow> u32 \<times> u32 \<Rightarrow> u16 \<times> u16 \<Rightarrow> u32 \<times> u32 \<Rightarrow> u32 \<times> u32 \<Rightarrow> bool \<Rightarrow> fdb_effect list" where
  "flush_calls d dev vid trunk port ds =
     [FdbAAandTAToCpuSet d False,
      FdbActionModeGet d, FdbMacTriggerModeGet d, FdbActionActiveDevGet d, FdbActionActiveVlanGet d,
      FdbActionActiveInterfaceGet d, FdbActionsEnableSet d False,
      FdbActionActiveDevSet d dev, FdbActionActiveVlanSet d vid, FdbActionActiveInterfaceSet d trunk port,
      FdbStaticDelEnable d ds, FdbTrigActionStart d]"

text \<open>After it every device gets the values read from the last one.\<close>

definition restore_calls :: "nat \<Rightarrow> fdb_regs \<Rightarrow> fdb_effect list" where
  "restore_calls d r =
     [FdbActionActiveInterfaceSet d (fr_is_trunk r) (fr_port r), FdbActionActiveDevSet d (fr_act_dev r),
      FdbActionModeSet d (fr_act_mode r), FdbActionActiveVlanSet d (fr_act_vid r),
      FdbMacTriggerModeSet d (fr_mac_mode r), FdbActionsEnableSet d True, FdbAAandTAToCpuSet d True]"

definition fd_calls :: "fdb_effect list \<Rightarrow> 'a sw_scheme \<Rightarrow> 'a sw_scheme" where
  "fd_calls es s = fold (\<lambda>e s. emit (Fd e) s) es s"

definition flush_start ::
  "env \<Rightarrow> fdb_env \<Rightarrow> u32 \<times> u32 \<Rightarrow> u16 \<times> u16 \<Rightarrow> u32 \<times> u32 \<Rightarrow> u32 \<times> u32 \<Rightarrow> bool \<Rightarrow> 'a sw_scheme \<Rightarrow>
     fdb_regs \<times> 'a sw_scheme" where
  "flush_start E F dev vid trunk port ds s =
     (let regs = v_regs F (hw s) (e_ndevs E - 1) in
      (regs, fold (\<lambda>d s. fd_calls (flush_calls d dev vid trunk port ds) s) [0 ..< e_ndevs E] s))"

text \<open>The wait for the devices, at most \<open>n\<close> rounds of polls: \<open>pending\<close> are the devices not yet
  seen done. A wait that takes longer does not return.\<close>

fun flush_poll :: "env \<Rightarrow> fdb_env \<Rightarrow> nat list \<Rightarrow> 'a sw_scheme \<Rightarrow> nat list \<times> 'a sw_scheme" where
  "flush_poll E F [] s = ([], s)"
| "flush_poll E F (d # ds) s =
     (let fin = v_trig_done F (hw s) d in
      case flush_poll E F ds (emit (Fd (FdbTrigActionStatusGet d)) s) of (rest, s) \<Rightarrow>
        (if fin then rest else d # rest, s))"

fun flush_wait :: "env \<Rightarrow> fdb_env \<Rightarrow> nat \<Rightarrow> nat list \<Rightarrow> 'a sw_scheme \<Rightarrow> 'a sw_scheme option" where
  "flush_wait E F 0 pending s = None"
| "flush_wait E F (Suc n) pending s =
     (case flush_poll E F pending s of (pending, s) \<Rightarrow>
        if pending = [] then Some s else flush_wait E F n pending s)"

definition flush_wait_all :: "env \<Rightarrow> fdb_env \<Rightarrow> 'a sw_scheme \<Rightarrow> 'a sw_scheme" where
  "flush_wait_all E F s =
     (case flush_wait E F (v_flush_polls F) [0 ..< e_ndevs E] s of Some s \<Rightarrow> s | None \<Rightarrow> crash s)"

definition flush_end :: "env \<Rightarrow> fdb_regs \<Rightarrow> 'a sw_scheme \<Rightarrow> 'a sw_scheme" where
  "flush_end E r s = fold (\<lambda>d s. fd_calls (restore_calls d r) s) [0 ..< e_ndevs E] s"

definition flush_vid :: "vid option \<Rightarrow> (u16 \<times> u16) option" where
  "flush_vid v = (case v of None \<Rightarrow> Some (0, 0) | Some v \<Rightarrow> if vlan_valid v then Some (v, 0x0FFF) else None)"

text \<open>\<open>key.key.macVlan\<close>, the VLAN and the address, is read whatever the type of the entry is; of an IP
  multicast key these are bytes of another member of the union.\<close>

definition key_macvlan :: "fdb_env \<Rightarrow> fdb_key \<Rightarrow> vid \<times> u8 list" where
  "key_macvlan F k = (case k of MAC_ADDR v a \<Rightarrow> (v, a) | _ \<Rightarrow> v_macvlan F k)"

text \<open>The four loops of \<open>fdb_flush\<close> over the shadow are one loop with a filter: a mask of zero
  matches every value.\<close>

definition flush_matches_port ::
  "fdb_env \<Rightarrow> u16 \<times> u16 \<Rightarrow> (u32 \<times> u32) \<times> (u32 \<times> u32) \<Rightarrow> bool \<Rightarrow> mac_entry \<Rightarrow> bool" where
  "flush_matches_port F av ap ds me \<longleftrightarrow>
     (snd av \<noteq> 0 \<longrightarrow> fst (key_macvlan F (me_key me)) = fst av) \<and>
     (snd (snd ap) \<noteq> 0 \<longrightarrow>
        (ucast (ci_devNum (me_dst me)) :: u32) = fst (fst ap) \<and> (ucast (ci_portNum (me_dst me)) :: u32) = fst (snd ap)) \<and>
     (ds \<or> \<not> me_isStatic me)"

definition fdb_flush :: "env \<Rightarrow> fdb_env \<Rightarrow> fdb_flush_arg \<Rightarrow> 'a fdb_st_scheme \<Rightarrow> status \<times> 'a fdb_st_scheme" where
  "fdb_flush E F arg s =
     (case flush_vid (aa_vid arg) of
        None \<Rightarrow> (ST_BAD_VALUE, s)
      | Some av \<Rightarrow>
          (case (case aa_port arg of
                   None \<Rightarrow> Some (((0, 0), (0, 0)), s)
                 | Some pid \<Rightarrow>
                     (case port_ix pid s of
                        None \<Rightarrow> None
                      | Some i \<Rightarrow>
                          (case phys_dev (pt_ldev (ports s ! i)) s of (dev, s) \<Rightarrow>
                             Some (((ucast dev, 31), (of_nat (pt_lport (ports s ! i)), 0x7F)), s)))) of
             None \<Rightarrow> (ST_BAD_VALUE, s)
           | Some (ap, s) \<Rightarrow>
               let s = psec_enable_na_sb_all E False s;
                   (regs, s) = flush_start E F (fst ap) av (0, 0) (snd ap) (aa_ds arg) s;
                   s = flush_slots E (flush_matches_port F av ap (aa_ds arg)) [0 ..< FDB_MAX_ADDRS] s;
                   s = psec_after_flush E s;
                   s = flush_wait_all E F s;
                   s = psec_enable_na_sb_all E True s in
               (ST_OK, flush_end E regs s)))"

text \<open>\<open>fdb_flush_vif\<close>. The interface is a port or a trunk; anything but a port counts as a trunk.\<close>

datatype flush_target = FL_All | FL_Port u8 u8 | FL_Trunk nat

definition flush_target_of :: "iface \<Rightarrow> flush_target" where
  "flush_target_of i = (case i of IF_Port d p \<Rightarrow> FL_Port d p | IF_Trunk t \<Rightarrow> FL_Trunk t | _ \<Rightarrow> FL_Trunk 0)"

definition flush_matches_vif :: "fdb_env \<Rightarrow> u16 \<times> u16 \<Rightarrow> flush_target \<Rightarrow> bool \<Rightarrow> mac_entry \<Rightarrow> bool" where
  "flush_matches_vif F av target ds me \<longleftrightarrow>
     (snd av \<noteq> 0 \<longrightarrow> fst (key_macvlan F (me_key me)) = fst av) \<and>
     (case target of
        FL_All \<Rightarrow> True
      | FL_Port d p \<Rightarrow> ci_type (me_dst me) = CPSS_IF_PORT \<and> ci_devNum (me_dst me) = d \<and> ci_portNum (me_dst me) = p
      | FL_Trunk t \<Rightarrow> ci_type (me_dst me) = CPSS_IF_TRUNK \<and> ci_trunkId (me_dst me) = t) \<and>
     (ds \<or> \<not> me_isStatic me)"

definition flush_target_regs :: "flush_target \<Rightarrow> (u32 \<times> u32) \<times> (u32 \<times> u32) \<times> (u32 \<times> u32)" where
  "flush_target_regs t =
     (case t of
        FL_All \<Rightarrow> ((0, 0), (0, 0), (0, 0))
      | FL_Port d p \<Rightarrow> ((ucast d, 31), (0, 0), (ucast p, 0x7F))
      | FL_Trunk t \<Rightarrow> ((0, 0), (1, 1), (of_nat t, 0x7F)))"

definition fdb_flush_vif :: "env \<Rightarrow> fdb_env \<Rightarrow> fdb_flush_arg_vif \<Rightarrow> 'a fdb_st_scheme \<Rightarrow> status \<times> 'a fdb_st_scheme" where
  "fdb_flush_vif E F arg s =
     (case flush_vid (av_vid arg) of
        None \<Rightarrow> (ST_BAD_VALUE, s)
      | Some av \<Rightarrow>
          (case (case av_vifid arg of
                   None \<Rightarrow> (Some FL_All, s)
                 | Some v \<Rightarrow>
                     (case vif_getn E v s of
                        (None, s) \<Rightarrow> (None, s)
                      | (Some v, s) \<Rightarrow> (case fill_cpss_if v s of (i, s) \<Rightarrow> (Some (flush_target_of i), s)))) of
             (None, s) \<Rightarrow> (ST_BAD_VALUE, s)
           | (Some target, s) \<Rightarrow>
               let (dev, trunk, port) = flush_target_regs target;
                   (regs, s) = flush_start E F dev av trunk port (av_ds arg) s;
                   s = flush_slots E (flush_matches_vif F av target (av_ds arg)) [0 ..< FDB_MAX_ADDRS] s;
                   s = psec_after_flush E s;
                   s = flush_wait_all E F s in
               (ST_OK, flush_end E regs s)))"

section \<open>Aging\<close>

definition aging_status :: "gt_status \<Rightarrow> status" where
  "aging_status rc =
     (case rc of GT_OK \<Rightarrow> ST_OK | GT_BAD_PARAM \<Rightarrow> ST_BAD_VALUE | GT_HW_ERROR \<Rightarrow> ST_HW_ERROR | _ \<Rightarrow> ST_HEX)"

fun aging_set_loop :: "env \<Rightarrow> nat \<Rightarrow> nat list \<Rightarrow> 'a sw_scheme \<Rightarrow> gt_status \<times> 'a sw_scheme" where
  "aging_set_loop E time [] s = (GT_OK, s)"
| "aging_set_loop E time (d # ds) s =
     (case crp E (Fd (FdbAgingTimeoutSet d time)) s of (rc, s) \<Rightarrow>
        if rc \<noteq> GT_OK then (rc, s)
        else aging_set_loop E time ds (emit (Fd (FdbActionModeSet d AGE_WITH_REMOVAL)) s))"

definition mac_set_aging_time :: "env \<Rightarrow> nat \<Rightarrow> 'a sw_scheme \<Rightarrow> status \<times> 'a sw_scheme" where
  "mac_set_aging_time E time s =
     (if time = 0 then
        (ST_OK, fold (\<lambda>d s. emit (Fd (FdbActionModeSet d AGE_WITHOUT_REMOVAL)) s) [0 ..< e_ndevs E] s)
      else case aging_set_loop E time [0 ..< e_ndevs E] s of (rc, s) \<Rightarrow> (aging_status rc, s))"

text \<open>\<open>get_max_aging_time\<close> tries the times from 300 to 3825 until one is refused, and then answers
  the one before; the last time it can answer is 3824.\<close>

fun aging_probe :: "env \<Rightarrow> nat \<Rightarrow> nat list \<Rightarrow> nat \<Rightarrow> 'a sw_scheme \<Rightarrow> nat \<times> 'a sw_scheme" where
  "aging_probe E d [] m s = (m, s)"
| "aging_probe E d (t # ts) m s =
     (case crp E (Fd (FdbAgingTimeoutSet d t)) s of (rc, s) \<Rightarrow>
        if rc \<noteq> GT_OK then (t - 1, s) else aging_probe E d ts (t - 1) s)"

definition get_max_aging_time :: "env \<Rightarrow> nat \<Rightarrow> 'a sw_scheme \<Rightarrow> nat \<times> 'a sw_scheme" where
  "get_max_aging_time E d s = aging_probe E d [300 ..< 3826] 0 s"

text \<open>The loop of \<open>mac_check_aging_time\<close>: the time to test, the greatest time found too long.\<close>

fun aging_check_loop ::
  "env \<Rightarrow> fdb_env \<Rightarrow> nat list \<Rightarrow> nat \<Rightarrow> nat option \<Rightarrow> bool \<Rightarrow> gt_status \<Rightarrow> 'a sw_scheme \<Rightarrow>
     (gt_status \<times> nat option) \<times> 'a sw_scheme" where
  "aging_check_loop E F [] time m bad rc s = ((rc, m), s)"
| "aging_check_loop E F (d # ds) time m bad rc0 s =
     (let old = v_aging_get F (hw s) d;
          s = emit (Fd (FdbAgingTimeoutGet d)) s in
      case crp E (Fd (FdbAgingTimeoutSet d time)) s of (rc, s) \<Rightarrow>
        if rc \<noteq> GT_OK \<and> rc \<noteq> GT_BAD_PARAM then ((rc, m), s)
        else
          let ((time, m, bad), s) =
                (if rc = GT_BAD_PARAM then
                   (case get_max_aging_time E d s of (t, s) \<Rightarrow> ((t, Some t, True), s))
                 else ((time, m, bad), s));
              s = emit (Fd (FdbAgingTimeoutSet d old)) s in
          aging_check_loop E F ds time m bad (if bad then GT_BAD_PARAM else rc) s)"

definition mac_check_aging_time :: "env \<Rightarrow> fdb_env \<Rightarrow> nat \<Rightarrow> 'a sw_scheme \<Rightarrow> (status \<times> nat option) \<times> 'a sw_scheme" where
  "mac_check_aging_time E F time s =
     (if time = 0 then ((ST_OK, None), s)
      else case aging_check_loop E F [0 ..< e_ndevs E] time None False GT_OK s of
        ((rc, m), s) \<Rightarrow> ((aging_status rc, m), s))"

section \<open>Addresses the hardware reports\<close>

text \<open>An update message; \<open>CPSS_NA_E\<close> and \<open>CPSS_SA_E\<close> have one branch.\<close>

datatype fdb_upd_type = CPSS_NA | CPSS_SA | CPSS_AA | CPSS_UPD_OTHER

record fdb_update =
  fu_type :: fdb_upd_type
  fu_entry :: mac_entry

definition fdb_new_addr ::
  "env \<Rightarrow> fdb_env \<Rightarrow> mac_entry \<Rightarrow> bool \<Rightarrow> u64 \<Rightarrow> 'a fdb_st_scheme \<Rightarrow> status \<times> 'a fdb_st_scheme" where
  "fdb_new_addr E F me fake ts s =
     (let me' = me\<lparr>me_appSpecificCpuCode := False, me_isStatic := False, me_daCommand := MAC_TABLE_FRWRD,
                   me_saCommand := MAC_TABLE_FRWRD, me_daRoute := False, me_userDefined := FEP_DYN,
                   me_spUnknown := False\<rparr>;
          ins = fdb_insert E F me' False False fake ts;
          dev = ci_devNum (me_dst me); hport = ci_portNum (me_dst me);
          v = fst (key_macvlan F (me_key me)); addr = snd (key_macvlan F (me_key me)) in
      if ci_type (me_dst me) = CPSS_IF_PORT then
        (case vifp_by_hw s dev hport of
           None \<Rightarrow> (ST_BAD_STATE, crash s)
         | Some (vifid, in_trunk) \<Rightarrow>
             if in_trunk then (ST_BAD_STATE, s)
             else case port_ix (port_id dev hport s) s of
               None \<Rightarrow> (ST_BAD_STATE, s)
             | Some i \<Rightarrow>
                 let ps = psec s i; pid = of_nat (i + 1);
                     s = (if fdb_new_addr_notify_enabled ps then emit (Nt (CN_NEW_ADDR pid addr v)) s else s) in
                 if \<not> fdb_insertion_enabled ps then (ST_BAD_STATE, s)
                 else
                   let s = emit (Nt (CN_FDB_EVENT addr v vifid)) s;
                       s = (if fdb_addr_op_notify_enabled ps then emit (Nt (CN_MAC_OP_LEARN pid addr v)) s else s) in
                   ins s)
      else ins s)"

definition fdb_old_addr :: "env \<Rightarrow> fdb_env \<Rightarrow> mac_entry \<Rightarrow> 'a fdb_st_scheme \<Rightarrow> status \<times> 'a fdb_st_scheme" where
  "fdb_old_addr E F me s = fdb_remove E F (me_key me) (stack_id s) s"

text \<open>\<open>mac_form_fdbr\<close>: the record another unit gets of an entry. For an interface that is neither a
  port nor a trunk the type stays what the static buffer held; the model says \<open>IFTYPE_OTHER\<close>.\<close>

definition mac_form_fdbr :: "fdb_env \<Rightarrow> mac_entry \<Rightarrow> pti_fdb_op \<Rightarrow> pti_fdbr" where
  "mac_form_fdbr F me op =
     \<lparr>pf_operation = op,
      pf_type = (case ci_type (me_dst me) of CPSS_IF_PORT \<Rightarrow> IFTYPE_PORT | CPSS_IF_TRUNK \<Rightarrow> IFTYPE_TRUNK | _ \<Rightarrow> IFTYPE_OTHER),
      pf_byte0 = (case ci_type (me_dst me) of CPSS_IF_PORT \<Rightarrow> ci_devNum (me_dst me) | _ \<Rightarrow> of_nat (ci_trunkId (me_dst me))),
      pf_byte1 = (case ci_type (me_dst me) of CPSS_IF_PORT \<Rightarrow> ci_portNum (me_dst me) | _ \<Rightarrow> 0),
      pf_vid = fst (key_macvlan F (me_key me)),
      pf_mac = snd (key_macvlan F (me_key me))\<rparr>"

text \<open>The entry a new address leaves in the message buffer, from which its record is formed, has
  the same key and interface as the one reported.\<close>

fun fdb_upd_msgs ::
  "env \<Rightarrow> fdb_env \<Rightarrow> nat \<Rightarrow> fdb_update list \<Rightarrow> u64 \<Rightarrow> 'a fdb_st_scheme \<Rightarrow> pti_fdbr list \<times> 'a fdb_st_scheme" where
  "fdb_upd_msgs E F d [] ts s = ([], s)"
| "fdb_upd_msgs E F d (u # us) ts s =
     (let member = (fdbman_state s = FST_MEMBER);
          (recs, s) =
            (case fu_type u of
               CPSS_UPD_OTHER \<Rightarrow> ([], s)
             | CPSS_AA \<Rightarrow>
                 if member then ([mac_form_fdbr F (fu_entry u) PTI_FDB_OP_DEL], s)
                 else
                   let mode = v_act_mode F (hw s) d;
                       s = emit (Fd (FdbActionModeGet d)) s in
                   if mode = AGE_WITH_REMOVAL then
                     (case fdb_old_addr E F (fu_entry u) s of (st, s) \<Rightarrow>
                        (if st = ST_OK then [mac_form_fdbr F (fu_entry u) PTI_FDB_OP_DEL] else [], s))
                   else ([], s)
             | _ \<Rightarrow>
                 (case fdb_new_addr E F (fu_entry u) member ts s of (st, s) \<Rightarrow>
                    (if st = ST_OK then [mac_form_fdbr F (fu_entry u) PTI_FDB_OP_ADD] else [], s)));
          (rest, s) = fdb_upd_msgs E F d us ts s in
      (recs @ rest, s))"

section \<open>Breach events\<close>

text \<open>\<open>sect_event_handler\<close> of \<open>src/sec.c\<close>: a breach is reported once per quiet period; then
  further events of the port are switched off until \<open>sect_delay_timer\<close> switches them on.\<close>

definition sect_event_handler :: "env \<Rightarrow> fdb_env \<Rightarrow> nat \<Rightarrow> u64 \<Rightarrow> 'a fdb_st_scheme \<Rightarrow> 'a fdb_st_scheme" where
  "sect_event_handler E F dev ts s =
     (let m = v_breach F (hw s) dev;
          s = emit (Fd (SecurBreachMsgGet dev)) s;
          (pdev, s) = phys_dev dev s;
          pid = port_id pdev (sb_port m) s;
          d = sb_delays s (unat pid);
          (sb_type, s) =
            (case sb_code m of
               BREACH_PORT_NA \<Rightarrow>
                 if sb_vlan m = 0xFFF then (None, s)
                 else if ts > tst_port_na d + ucast (tdelay_sb_port_na d) then
                   let s = sb_upd (unat pid) (\<lambda>d. d\<lparr>tst_port_na := ts, port_na_blocked := True\<rparr>) s;
                       s = snd (psec_enable_na_sb E pid False s) in
                   (case fdb_query E F (MAC_ADDR (sb_vlan m) (sb_mac m)) s of ((st, _), s) \<Rightarrow>
                      (if st = ST_OK then None else Some SB_PORT_NA, s))
                 else (None, s)
             | BREACH_MOVED_STATIC \<Rightarrow>
                 if ts > tst_moved_static d + ucast (tdelay_sb_moved_static d) then
                   (Some SB_MOVED_STATIC, sb_upd (unat pid) (\<lambda>d. d\<lparr>tst_moved_static := ts\<rparr>) s)
                 else (None, s)
             | _ \<Rightarrow> (None, s)) in
      case sb_type of
        None \<Rightarrow> s
      | Some t \<Rightarrow> emit (Nt (CN_SECURITY_BREACH t pid (sb_vlan m) (sb_mac m))) s)"

end
