(* ===== verification/Fdbman.thy ===== *)
theory Fdbman
  imports Fdb_Ops
begin

text \<open>
  The FDB manager (\<open>fdbman_*\<close> of \<open>src/mac.c\<close>): the units of a stack keep one MAC table. A
  member sends what it learns to the master; the master enters it and tells the members. The
  messages go over TIPC; a unit ignores those whose serial is older than its own. Also the
  requests of the control task (\<open>mac_op\<close>, \<open>mac_flush\<close> and so on) and their dispatch.
\<close>

section \<open>Messages to the other units\<close>

text \<open>\<open>ALL_DEVS\<close> is the bitmap of all units. Messages whose sender does not set \<open>devsbmp\<close> carry the
  zeroes of its static buffer.\<close>

definition ALL_DEVS :: u16 where "ALL_DEVS = 0xFFFF"

definition fdbman_send :: "u16 \<Rightarrow> fdbman_cmd \<Rightarrow> 'a fdb_st_scheme \<Rightarrow> 'a fdb_st_scheme" where
  "fdbman_send bmp cmd s =
     emit (Nt (FdbmanSend \<lparr>fm_stack_id = of_nat (stack_id s), fm_serial = fdbman_serial s,
                           fm_devsbmp = bmp, fm_cmd = cmd\<rparr>)) s"

definition fdbman_send_rtbd :: "u8 list \<Rightarrow> u16 \<Rightarrow> 'a fdb_st_scheme \<Rightarrow> 'a fdb_st_scheme" where
  "fdbman_send_rtbd arg bmp s = fdbman_send bmp (FMC_MASTER_RT arg) s"

definition fdbman_send_na :: "u8 list \<Rightarrow> 'a fdb_st_scheme \<Rightarrow> 'a fdb_st_scheme" where
  "fdbman_send_na arg s = fdbman_send ALL_DEVS (FMC_MASTER_NA arg) s"

definition fdbman_send_na_ipv6 :: "u8 list \<Rightarrow> 'a fdb_st_scheme \<Rightarrow> 'a fdb_st_scheme" where
  "fdbman_send_na_ipv6 arg s = fdbman_send ALL_DEVS (FMC_MASTER_NA_IPV6 arg) s"

definition fdbman_send_opna :: "u8 list \<Rightarrow> 'a fdb_st_scheme \<Rightarrow> 'a fdb_st_scheme" where
  "fdbman_send_opna arg s = fdbman_send ALL_DEVS (FMC_OPNA arg) s"

definition fdbman_send_opna_ipv6 :: "u8 list \<Rightarrow> 'a fdb_st_scheme \<Rightarrow> 'a fdb_st_scheme" where
  "fdbman_send_opna_ipv6 arg s = fdbman_send ALL_DEVS (FMC_OPNA_IPV6 arg) s"

definition fdbman_send_udt :: "u32 \<Rightarrow> u16 \<Rightarrow> 'a fdb_st_scheme \<Rightarrow> 'a fdb_st_scheme" where
  "fdbman_send_udt daddr bmp s = fdbman_send bmp (FMC_MASTER_UDT daddr) s"

definition fdbman_send_udt_ipv6 :: "ipv6 \<Rightarrow> u16 \<Rightarrow> 'a fdb_st_scheme \<Rightarrow> 'a fdb_st_scheme" where
  "fdbman_send_udt_ipv6 daddr bmp s = fdbman_send bmp (FMC_MASTER_UDT_IPV6 daddr) s"

definition fdbman_send_clear_routing :: "u16 \<Rightarrow> 'a fdb_st_scheme \<Rightarrow> 'a fdb_st_scheme" where
  "fdbman_send_clear_routing bmp s = fdbman_send bmp FMC_MASTER_CLEAR_ROUTING s"

definition fdbman_send_vifls_get :: "u16 \<Rightarrow> 'a fdb_st_scheme \<Rightarrow> 'a fdb_st_scheme" where
  "fdbman_send_vifls_get bmp s = fdbman_send bmp FMC_VIFLS_GET s"

definition fdbman_send_vif_ls :: "u8 list \<Rightarrow> 'a fdb_st_scheme \<Rightarrow> 'a fdb_st_scheme" where
  "fdbman_send_vif_ls arg s = fdbman_send ALL_DEVS (FMC_VIF_LS arg) s"

definition fdbman_send_master_announce_pkt :: "u64 \<Rightarrow> u16 \<Rightarrow> 'a fdb_st_scheme \<Rightarrow> 'a fdb_st_scheme" where
  "fdbman_send_master_announce_pkt serial bmp s =
     emit (Nt (FdbmanSend \<lparr>fm_stack_id = of_nat (stack_id s), fm_serial = serial, fm_devsbmp = bmp,
                           fm_cmd = FMC_MASTER_READY\<rparr>)) s"

definition fdbman_send_msg_uni_macop :: "mac_op_arg_vif \<Rightarrow> bool \<Rightarrow> 'a fdb_st_scheme \<Rightarrow> 'a fdb_st_scheme" where
  "fdbman_send_msg_uni_macop arg master s = fdbman_send 0 (if master then FMC_MASTER_MACOP arg else FMC_MACOP arg) s"

definition fdbman_send_msg_uni_flush :: "fdb_flush_arg \<Rightarrow> bool \<Rightarrow> 'a fdb_st_scheme \<Rightarrow> 'a fdb_st_scheme" where
  "fdbman_send_msg_uni_flush arg master s = fdbman_send 0 (if master then FMC_MASTER_FLUSH arg else FMC_FLUSH arg) s"

definition fdbman_send_msg_uni_flush_vif :: "fdb_flush_arg_vif \<Rightarrow> bool \<Rightarrow> 'a fdb_st_scheme \<Rightarrow> 'a fdb_st_scheme" where
  "fdbman_send_msg_uni_flush_vif arg master s =
     fdbman_send 0 (if master then FMC_MASTER_FLUSH_VIF arg else FMC_FLUSH_VIF arg) s"

text \<open>Updates are split into messages of at most \<open>TIPC_FDB_NREC\<close> records. The VLANs travel in
  network byte order.\<close>

definition htons :: "bool \<Rightarrow> u16 \<Rightarrow> u16" where
  "htons big_endian x = (if big_endian then x else push_bit 8 x OR drop_bit 8 x)"

definition swap_vid :: "bool \<Rightarrow> pti_fdbr \<Rightarrow> pti_fdbr" where
  "swap_vid be r = r\<lparr>pf_vid := htons be (pf_vid r)\<rparr>"

function fdbr_chunks :: "nat \<Rightarrow> pti_fdbr list \<Rightarrow> pti_fdbr list list" where
  "fdbr_chunks n pf = (if length pf \<le> n \<or> n = 0 then [pf] else take n pf # fdbr_chunks n (drop n pf))"
  by auto
termination by (relation "measure (\<lambda>(n, pf). length pf)") auto

declare fdbr_chunks.simps [simp del]

definition fdbman_send_msg_uni_update ::
  "env \<Rightarrow> fdb_env \<Rightarrow> pti_fdbr list \<Rightarrow> bool \<Rightarrow> 'a fdb_st_scheme \<Rightarrow> 'a fdb_st_scheme" where
  "fdbman_send_msg_uni_update E F pf master s =
     fold (\<lambda>recs s.
        let recs = map (swap_vid (e_big_endian E)) recs in
        fdbman_send 0 (if master then FMC_MASTER_UPDATE recs else FMC_UPDATE recs) s)
       (fdbr_chunks (v_fdb_nrec F) pf) s"

definition fdbman_vif_set_stp_state :: "env \<Rightarrow> vif_id \<Rightarrow> u8 list \<Rightarrow> 'a fdb_st_scheme \<Rightarrow> 'a fdb_st_scheme" where
  "fdbman_vif_set_stp_state E v arg s =
     fdbman_send (if vif_type v = e_vift_pc E then ALL_DEVS else push_bit (vif_dev v) 1)
       (FMC_VIF_SET_STP_STATE v arg) s"

definition fdbman_send_control_cmd :: "control_cmd \<Rightarrow> 'a sw_scheme \<Rightarrow> 'a sw_scheme" where
  "fdbman_send_control_cmd cmd s = emit (Nt (ControlCmd cmd)) s"

section \<open>Updates from the other units\<close>

text \<open>\<open>fdb_mac_foreign_blck\<close>: the records that could not be entered for the limit of their port are
  answered with deletions. \<open>fdbman_handle_msg_master_update\<close> calls it.\<close>

fun foreign_blck_loop ::
  "env \<Rightarrow> fdb_env \<Rightarrow> pti_fdbr list \<Rightarrow> nat \<Rightarrow> status \<Rightarrow> u64 \<Rightarrow> 'a fdb_st_scheme \<Rightarrow>
     (status \<times> pti_fdbr list) \<times> 'a fdb_st_scheme" where
  "foreign_blck_loop E F [] sid status ts s = ((status, []), s)"
| "foreign_blck_loop E F (fr # frs) sid status ts s =
     (let ((st, back), s) =
            (case pf_operation fr of
               PTI_FDB_OP_ADD \<Rightarrow>
                 (case fdb_mac_foreign_add E F fr ts s of (st, s) \<Rightarrow>
                    ((st, if st = ST_BAD_STATE then [fr\<lparr>pf_operation := PTI_FDB_OP_DEL\<rparr>] else []), s))
             | PTI_FDB_OP_DEL \<Rightarrow>
                 (case fdb_mac_foreign_del E F fr sid s of (st, s) \<Rightarrow> ((st, []), s)));
          status = (if st \<noteq> ST_OK then st else status);
          ((status, backs), s) = foreign_blck_loop E F frs sid status ts s in
      ((status, back @ backs), s))"

definition fdb_mac_foreign_blck ::
  "env \<Rightarrow> fdb_env \<Rightarrow> pti_fdbr list \<Rightarrow> nat \<Rightarrow> u64 \<Rightarrow> 'a fdb_st_scheme \<Rightarrow> status \<times> 'a fdb_st_scheme" where
  "fdb_mac_foreign_blck E F fa sid ts s =
     (case foreign_blck_loop E F fa sid ST_OK ts s of ((status, backs), s) \<Rightarrow>
        (status, if backs \<noteq> [] then fdbman_send_msg_uni_update E F backs False s else s))"

text \<open>\<open>fdbman_handle_msg_update\<close>: the master enters the records of a member and passes on those that
  were entered or removed.\<close>

fun msg_update_loop ::
  "env \<Rightarrow> fdb_env \<Rightarrow> pti_fdbr list \<Rightarrow> nat \<Rightarrow> u64 \<Rightarrow> 'a fdb_st_scheme \<Rightarrow> pti_fdbr list \<times> 'a fdb_st_scheme" where
  "msg_update_loop E F [] sid ts s = ([], s)"
| "msg_update_loop E F (fr # frs) sid ts s =
     (let (st, s) =
            (case pf_operation fr of
               PTI_FDB_OP_ADD \<Rightarrow> fdb_mac_foreign_add E F fr ts s
             | PTI_FDB_OP_DEL \<Rightarrow> fdb_mac_foreign_del E F fr sid s);
          (rest, s) = msg_update_loop E F frs sid ts s in
      (if st = ST_OK then fr # rest else rest, s))"

definition fdbman_handle_msg_update ::
  "env \<Rightarrow> fdb_env \<Rightarrow> pti_fdbr list \<Rightarrow> nat \<Rightarrow> u64 \<Rightarrow> 'a fdb_st_scheme \<Rightarrow> 'a fdb_st_scheme" where
  "fdbman_handle_msg_update E F fa sid ts s =
     (case msg_update_loop E F fa sid ts s of (recs, s) \<Rightarrow>
        if recs \<noteq> [] then fdbman_send_msg_uni_update E F recs True s else s)"

text \<open>\<open>fdb_upd_for_dev\<close>: what a device learned and forgot is told to the master, or by the master to
  the members.\<close>

definition fdb_upd_for_dev ::
  "env \<Rightarrow> fdb_env \<Rightarrow> nat \<Rightarrow> fdb_update list \<Rightarrow> u64 \<Rightarrow> 'a fdb_st_scheme \<Rightarrow> 'a fdb_st_scheme" where
  "fdb_upd_for_dev E F d us ts s =
     (case fdb_upd_msgs E F d us ts s of (recs, s) \<Rightarrow>
        if recs \<noteq> [] then fdbman_send_msg_uni_update E F recs (fdbman_state s \<noteq> FST_MEMBER) s else s)"

section \<open>Changes of the master\<close>

definition fdbman_sync_routing :: "fdb_env \<Rightarrow> u16 \<Rightarrow> 'a fdb_st_scheme \<Rightarrow> 'a fdb_st_scheme" where
  "fdbman_sync_routing F nbmp s =
     (if nbmp = 0 then s
      else
        let s = fdbman_send_clear_routing nbmp s;
            routes = v_routes F (hw s);
            s = fdbman_send_control_cmd CC_INT_GET_RT_CMD s in
        case routes of
          None \<Rightarrow> s
        | Some rts \<Rightarrow>
            let s = fold (\<lambda>rt s. fdbman_send_rtbd rt nbmp s) rts s;
                udaddrs = v_udaddrs F (hw s);
                s = fdbman_send_control_cmd CC_INT_GET_UDADDRS_CMD s in
            (case udaddrs of None \<Rightarrow> s | Some ds \<Rightarrow> fold (\<lambda>a s. fdbman_send_udt a nbmp s) ds s))"

definition fdbman_sync_ls :: "u16 \<Rightarrow> 'a fdb_st_scheme \<Rightarrow> 'a fdb_st_scheme" where
  "fdbman_sync_ls nbmp s = (if nbmp = 0 then s else fdbman_send_vifls_get nbmp s)"

text \<open>The branch of \<open>fdbman_set_master\<close> for a unit that becomes the master.\<close>

definition fdbman_become_master :: "u8 \<Rightarrow> u64 \<Rightarrow> u16 \<Rightarrow> 'a fdb_st_scheme \<Rightarrow> 'a fdb_st_scheme" where
  "fdbman_become_master newmaster serial dbmp s =
     (let s = s\<lparr>fdbman_master := newmaster, fdbman_serial := serial\<rparr>;
          s = fdbman_send_master_announce_pkt serial dbmp s;
          s = fdbman_sync_ls dbmp s;
          s = fdbman_send_control_cmd SC_INT_CLEAR_RT_CMD s;
          s = fdbman_send_clear_routing dbmp s in
      s\<lparr>fdbman_state := FST_MASTER\<rparr>)"

definition fdbman_set_master :: "fdb_env \<Rightarrow> u8 \<Rightarrow> u64 \<Rightarrow> u16 \<Rightarrow> 'a fdb_st_scheme \<Rightarrow> status \<times> 'a fdb_st_scheme" where
  "fdbman_set_master F newmaster serial dbmp s =
     (let newdevs_bmp = NOT (fdbman_devsbmp s OR NOT dbmp);
          deldevs_bmp = NOT (NOT (fdbman_devsbmp s) OR dbmp);
          s = emit (Nt (ClearLsSerial newdevs_bmp)) s in
      if serial < fdbman_serial s then (ST_OK, s)
      else if serial \<le> fdbman_newserial s \<and> fdbman_devsbmp s = dbmp then (ST_OK, s)
      else
        let s = (case fdbman_state s of
               FST_MASTER \<Rightarrow>
                 if stack_id s \<noteq> unat newmaster then
                   s\<lparr>fdbman_newmaster := newmaster, fdbman_newserial := serial, fdbman_state := FST_PRE_MEMBER\<rparr>
                 else
                   let s = s\<lparr>fdbman_serial := serial, fdbman_newserial := serial,
                             fdbman_master := newmaster, fdbman_newmaster := newmaster\<rparr>;
                       s = fdbman_send_master_announce_pkt serial dbmp s in
                   fdbman_sync_routing F newdevs_bmp (fdbman_sync_ls newdevs_bmp s)
             | _ \<Rightarrow>
                 let s = s\<lparr>fdbman_newmaster := newmaster, fdbman_newserial := serial\<rparr> in
                 if stack_id s = unat newmaster then fdbman_become_master newmaster serial dbmp s else s);
            s = fdbman_send_control_cmd (SC_INT_CLEAR_RE_CMD deldevs_bmp) s in
        (ST_OK, s\<lparr>fdbman_devsbmp := dbmp\<rparr>))"

section \<open>Reception\<close>

text \<open>A \<open>FMC_MASTER_READY\<close> with a current serial: its sender is the master, this unit a member.\<close>

definition fdbman_master_ready :: "fdbman_msg \<Rightarrow> 'a fdb_st_scheme \<Rightarrow> 'a fdb_st_scheme" where
  "fdbman_master_ready m s =
     (if \<not> bit (fm_devsbmp m) (stack_id s) then s
      else if fm_serial m < fdbman_serial s then s
      else if fm_serial m < fdbman_newserial s then
        s\<lparr>fdbman_master := fm_stack_id m, fdbman_serial := fm_serial m, fdbman_devsbmp := fm_devsbmp m\<rparr>
      else
        s\<lparr>fdbman_newmaster := fm_stack_id m, fdbman_master := fm_stack_id m,
          fdbman_newserial := fm_serial m, fdbman_serial := fm_serial m,
          fdbman_devsbmp := fm_devsbmp m, fdbman_state := FST_MEMBER\<rparr>)"

text \<open>Messages for some of the units.\<close>

definition for_us :: "fdbman_msg \<Rightarrow> control_cmd \<Rightarrow> 'a fdb_st_scheme \<Rightarrow> 'a fdb_st_scheme" where
  "for_us m cmd s = (if bit (fm_devsbmp m) (stack_id s) then fdbman_send_control_cmd cmd s else s)"

definition fdbman_handle_pkt :: "env \<Rightarrow> fdb_env \<Rightarrow> fdbman_msg \<Rightarrow> u64 \<Rightarrow> 'a fdb_st_scheme \<Rightarrow> status \<times> 'a fdb_st_scheme" where
  "fdbman_handle_pkt E F m ts s =
     (let sid = unat (fm_stack_id m);
          leads = (fdbman_state s \<noteq> FST_MEMBER);
          member = (fdbman_state s = FST_MEMBER);
          from_master = (fm_stack_id m = fdbman_master s) in
      if fm_cmd m \<noteq> FMC_MASTER_READY \<and> fm_serial m < fdbman_serial s then (ST_OK, s)
      else (ST_OK,
        (case fm_cmd m of
           FMC_MASTER_READY \<Rightarrow> fdbman_master_ready m s
         | FMC_UPDATE fa \<Rightarrow>
             if leads then fdbman_handle_msg_update E F (map (swap_vid (e_big_endian E)) fa) sid ts s else s
         | FMC_MASTER_UPDATE fa \<Rightarrow>
             let fa = map (swap_vid (e_big_endian E)) fa in
             if \<not> from_master then s
             else (case fdbman_state s of
                 FST_MASTER \<Rightarrow> s
               | FST_PRE_MEMBER \<Rightarrow>
                   if fm_stack_id m = fdbman_newmaster s then snd (fdb_mac_foreign_blck E F fa sid ts s) else s
               | FST_MEMBER \<Rightarrow> snd (fdb_mac_foreign_blck E F fa sid ts s))
         | FMC_FLUSH arg \<Rightarrow>
             if leads then snd (fdb_flush E F arg (fdbman_send_msg_uni_flush arg True s)) else s
         | FMC_MASTER_FLUSH arg \<Rightarrow>
             if from_master \<and> member then snd (fdb_flush E F arg s) else s
         | FMC_FLUSH_VIF arg \<Rightarrow>
             if leads then snd (fdb_flush_vif E F arg (fdbman_send_msg_uni_flush_vif arg True s)) else s
         | FMC_MASTER_FLUSH_VIF arg \<Rightarrow>
             if from_master \<and> member then snd (fdb_flush_vif E F arg s) else s
         | FMC_MACOP arg \<Rightarrow>
             if leads then snd (fdb_mac_op_vif E F arg False ts (fdbman_send_msg_uni_macop arg True s)) else s
         | FMC_MASTER_MACOP arg \<Rightarrow>
             if from_master \<and> member then snd (fdb_mac_op_vif E F arg False ts s) else s
         | FMC_MASTER_RT d \<Rightarrow> for_us m (SC_INT_RTBD_CMD d) s
         | FMC_MASTER_NA d \<Rightarrow> if from_master then for_us m (SC_INT_NA_CMD d) s else s
         | FMC_MASTER_NA_IPV6 d \<Rightarrow> if from_master then for_us m (SC_INT_NA_IPV6_CMD d) s else s
         | FMC_OPNA d \<Rightarrow> fdbman_send_control_cmd (SC_INT_OPNA_CMD d) s
         | FMC_OPNA_IPV6 d \<Rightarrow> fdbman_send_control_cmd (SC_INT_OPNA_IPV6_CMD d) s
         | FMC_MASTER_UDT a \<Rightarrow> if from_master then fdbman_send_control_cmd (SC_INT_UDT_CMD a) s else s
         | FMC_MASTER_UDT_IPV6 a \<Rightarrow> if from_master then fdbman_send_control_cmd (SC_INT_UDT_IPV6_CMD a) s else s
         | FMC_MASTER_CLEAR_ROUTING \<Rightarrow> for_us m SC_INT_CLEAR_RT_CMD s
         | FMC_VIF_LS d \<Rightarrow> if bit (fm_devsbmp m) (stack_id s) then emit (Nt (ProcessLs d)) s else s
         | FMC_VIFLS_GET \<Rightarrow> if bit (fm_devsbmp m) (stack_id s) then emit (Nt SendAllLs) s else s
         | FMC_VIF_SET_STP_STATE v d \<Rightarrow> if member then for_us m (SC_INT_VIF_SET_STP_STATE v d) s else s)))"

section \<open>Requests of the control task\<close>

datatype fdb_ctl_cmd =
    FCC_MAC_OP mac_op_arg
  | FCC_MAC_OP_VIF mac_op_arg_vif
  | FCC_OWN_MAC_OP mac_op_arg
  | FCC_OWN_MAC_OP_VIF mac_op_arg_vif
  | FCC_MC_IP_OP mc_ip_op_arg
  | FCC_FLUSH fdb_flush_arg
  | FCC_FLUSH_VIF fdb_flush_arg_vif
  | FCC_QUERY fdb_key
  | FCC_SET_MASTER u8 u64 u16
  | FCC_FDBMAN_HANDLE_PKT fdbman_msg
  | FCC_FDBMAN_SEND_RT "u8 list"
  | FCC_FDBMAN_SEND_NA "u8 list"
  | FCC_FDBMAN_SEND_NA_IPV6 "u8 list"
  | FCC_FDBMAN_SEND_OPNA "u8 list"
  | FCC_FDBMAN_SEND_OPNA_IPV6 "u8 list"
  | FCC_FDBMAN_SEND_UDT u32
  | FCC_FDBMAN_SEND_UDT_IPV6 ipv6
  | FCC_FDBMAN_SEND_VIF_LS "u8 list"
  | FCC_VIF_SET_STP_STATE vif_id "u8 list"

text \<open>The functions of the control task check the request and queue it.\<close>

definition mac_op :: "mac_op_arg \<Rightarrow> status \<times> fdb_ctl_cmd option" where
  "mac_op arg = (if \<not> vlan_valid (ma_vid arg) then (ST_BAD_VALUE, None) else (ST_OK, Some (FCC_MAC_OP arg)))"

definition mac_op_vif :: "mac_op_arg_vif \<Rightarrow> status \<times> fdb_ctl_cmd option" where
  "mac_op_vif arg = (if \<not> vlan_valid (mv_vid arg) then (ST_BAD_VALUE, None) else (ST_OK, Some (FCC_MAC_OP_VIF arg)))"

text \<open>Of a request about an own address only address, VLAN and \<open>delete\<close> are set. The uninitialised
  \<open>type\<close> is still read: it decides the entry's flag \<open>fe_secure\<close>; the model takes \<open>MET_STATIC\<close>.\<close>

definition mac_op_own_req :: "vid \<Rightarrow> mac \<Rightarrow> bool \<Rightarrow> status \<times> fdb_ctl_cmd option" where
  "mac_op_own_req v addr add =
     (if \<not> vlan_valid v then (ST_BAD_VALUE, None)
      else (ST_OK, Some (FCC_OWN_MAC_OP \<lparr>ma_mac = addr, ma_vid = v, ma_port = 0, ma_drop = False,
                                         ma_type = MET_STATIC, ma_delete = \<not> add\<rparr>)))"

definition mac_mc_ip_op :: "(mcg \<Rightarrow> bool) \<Rightarrow> mc_ip_op_arg \<Rightarrow> status \<times> fdb_ctl_cmd option" where
  "mac_mc_ip_op mcg_exists arg =
     (if \<not> vlan_valid (mi_vid arg) then (ST_BAD_VALUE, None)
      else if \<not> mi_delete arg \<and> \<not> mcg_exists (mi_mcg arg) then (ST_DOES_NOT_EXIST, None)
      else (ST_OK, Some (FCC_MC_IP_OP arg)))"

definition fdb_ctl_handler :: "env \<Rightarrow> fdb_env \<Rightarrow> fdb_ctl_cmd \<Rightarrow> u64 \<Rightarrow> 'a fdb_st_scheme \<Rightarrow> status \<times> 'a fdb_st_scheme" where
  "fdb_ctl_handler E F cmd ts s =
     (let leads = (fdbman_state s \<noteq> FST_MEMBER) in
      case cmd of
        FCC_MAC_OP arg \<Rightarrow> fdb_mac_op E F arg False ts s
      | FCC_MAC_OP_VIF arg \<Rightarrow>
          if leads then fdb_mac_op_vif E F arg False ts (fdbman_send_msg_uni_macop arg True s)
          else (ST_OK, fdbman_send_msg_uni_macop arg False s)
      | FCC_OWN_MAC_OP arg \<Rightarrow> fdb_mac_op E F arg True ts s
      | FCC_OWN_MAC_OP_VIF arg \<Rightarrow> fdb_mac_op_vif E F arg True ts s
      | FCC_MC_IP_OP arg \<Rightarrow> fdb_mac_mc_ip_op E F arg ts s
      | FCC_FLUSH arg \<Rightarrow>
          if leads then fdb_flush E F arg (fdbman_send_msg_uni_flush arg True s)
          else (ST_OK, fdbman_send_msg_uni_flush arg False s)
      | FCC_FLUSH_VIF arg \<Rightarrow>
          if leads then fdb_flush_vif E F arg (fdbman_send_msg_uni_flush_vif arg True s)
          else (ST_OK, fdbman_send_msg_uni_flush_vif arg False s)
      | FCC_QUERY k \<Rightarrow> (case fdb_query E F k s of ((st, _), s) \<Rightarrow> (st, s))
      | FCC_SET_MASTER master serial dbmp \<Rightarrow> fdbman_set_master F master serial dbmp s
      | FCC_FDBMAN_HANDLE_PKT m \<Rightarrow> fdbman_handle_pkt E F m ts s
      | FCC_FDBMAN_SEND_RT d \<Rightarrow> (ST_BAD_REQUEST, fdbman_send_rtbd d ALL_DEVS s)
      | FCC_FDBMAN_SEND_NA d \<Rightarrow> (ST_BAD_REQUEST, fdbman_send_na d s)
      | FCC_FDBMAN_SEND_NA_IPV6 d \<Rightarrow> (ST_BAD_REQUEST, fdbman_send_na_ipv6 d s)
      | FCC_FDBMAN_SEND_OPNA d \<Rightarrow> (ST_BAD_REQUEST, fdbman_send_opna d s)
      | FCC_FDBMAN_SEND_OPNA_IPV6 d \<Rightarrow> (ST_BAD_REQUEST, fdbman_send_opna_ipv6 d s)
      | FCC_FDBMAN_SEND_UDT a \<Rightarrow> (ST_BAD_REQUEST, fdbman_send_udt a ALL_DEVS s)
      | FCC_FDBMAN_SEND_UDT_IPV6 a \<Rightarrow> (ST_BAD_REQUEST, fdbman_send_udt_ipv6 a ALL_DEVS s)
      | FCC_FDBMAN_SEND_VIF_LS d \<Rightarrow> (ST_BAD_REQUEST, fdbman_send_vif_ls d s)
      | FCC_VIF_SET_STP_STATE v d \<Rightarrow> (ST_BAD_REQUEST, fdbman_vif_set_stp_state E v d s))"

end
