(* ===== verification/Fdb_Inv.thy ===== *)
theory Fdb_Inv
  imports Fdbman
begin

text \<open>
  What the operations of the MAC task keep: the address count of every port is the number of
  entries that point to it, and the ports with security learn in hardware exactly while they may.
\<close>

section \<open>The scan of a bucket\<close>

text \<open>A scan changes flap counters only.\<close>

definition flaps_only :: "(nat \<Rightarrow> fdb_entry) \<Rightarrow> (nat \<Rightarrow> fdb_entry) \<Rightarrow> bool" where
  "flaps_only t t' \<longleftrightarrow> (\<forall>i. (t' i)\<lparr>addr_flaps := addr_flaps (t i)\<rparr> = t i)"

lemma flaps_only_refl [simp]: "flaps_only t t"
  by (simp add: flaps_only_def)

lemma flaps_only_upd [simp]: "flaps_only t (t'(i := (t' i)\<lparr>addr_flaps := n\<rparr>)) \<longleftrightarrow> flaps_only t t'"
proof -
  have "((t' i)\<lparr>addr_flaps := n\<rparr>)\<lparr>addr_flaps := m\<rparr> = (t' i)\<lparr>addr_flaps := m\<rparr>" for m by simp
  then show ?thesis unfolding flaps_only_def by (metis fun_upd_apply)
qed

lemma flaps_onlyD:
  assumes "flaps_only t t'"
  shows "fe_valid (t' i) = fe_valid (t i)" "fe_me (t' i) = fe_me (t i)" "pc_aging_status (t' i) = pc_aging_status (t i)"
    "ts_addr_change (t' i) = ts_addr_change (t i)" "old_entry (t' i) = old_entry (t i)"
proof -
  have *: "t i = (t' i)\<lparr>addr_flaps := addr_flaps (t i)\<rparr>" using assms by (simp add: flaps_only_def)
  show v: "fe_valid (t' i) = fe_valid (t i)" and m: "fe_me (t' i) = fe_me (t i)"
    and "pc_aging_status (t' i) = pc_aging_status (t i)" and "ts_addr_change (t' i) = ts_addr_change (t i)"
    by (subst *, simp)+
  show "old_entry (t' i) = old_entry (t i)" by (simp add: old_entry_def v m)
qed

lemma fdb_upd_simps [simp]:
  "fdb (fdb_upd i f s) = (fdb s)(i := f (fdb s i))" "psec (fdb_upd i f s) = psec s" "ports (fdb_upd i f s) = ports s"
  "stack_id (fdb_upd i f s) = stack_id s" "dev_ports (fdb_upd i f s) = dev_ports s" "hw (fdb_upd i f s) = hw s"
  "fdbman_devsbmp (fdb_upd i f s) = fdbman_devsbmp s" "dev_map (fdb_upd i f s) = dev_map s"
  by (simp_all add: fdb_upd_def)

text \<open>A state that differs from another by its table only, up to the crash flag.\<close>

definition table_only :: "'a fdb_st_scheme \<Rightarrow> 'a fdb_st_scheme \<Rightarrow> bool" where
  "table_only s t \<longleftrightarrow> t = s\<lparr>crashed := crashed t, fdb := fdb t\<rparr>"

lemma table_only_refl [simp]: "table_only s s"
  by (simp add: table_only_def)

lemma table_only_upd: "table_only s t \<Longrightarrow> table_only s (fdb_upd i f t)"
proof -
  assume "table_only s t"
  then have t: "t = s\<lparr>crashed := crashed t, fdb := fdb t\<rparr>" by (simp add: table_only_def)
  show "table_only s (fdb_upd i f t)" by (subst t, simp add: table_only_def fdb_upd_def)
qed

lemma table_onlyD:
  assumes "table_only s t"
  shows "psec t = psec s" "ports t = ports s" "stack_id t = stack_id s" "dev_ports t = dev_ports s" "hw t = hw s"
    "fdbman_devsbmp t = fdbman_devsbmp s" "fdbman_master t = fdbman_master s" "dev_map t = dev_map s"
proof -
  have t: "t = s\<lparr>crashed := crashed t, fdb := fdb t\<rparr>" using assms by (simp add: table_only_def)
  show "psec t = psec s" "ports t = ports s" "stack_id t = stack_id s" "dev_ports t = dev_ports s" "hw t = hw s"
    "fdbman_devsbmp t = fdbman_devsbmp s" "fdbman_master t = fdbman_master s" "dev_map t = dev_map s"
    by (subst t, simp)+
qed

lemma fdb_found_state:
  assumes "fdb_found ts e i s = (r, t)"
  shows "table_only s t \<and> flaps_only (fdb s) (fdb t)"
  using assms unfolding fdb_found_def Let_def
  by (auto split: if_splits intro!: table_only_upd)

lemma fdb_found_result:
  assumes "fdb_found ts e i s = (Inr (b, ex), t)"
  shows "b = Some i \<and> me_userDefined (fe_me (fdb s i)) \<le> me_userDefined e \<and> ex = same_port (me_dst e) (me_dst (fe_me (fdb s i)))"
  using assms unfolding fdb_found_def Let_def by (auto split: if_splits)

text \<open>The slot chosen holds the key, or no slot of the bucket holds it and it is free or has a
  lower priority.\<close>

definition slot_free :: "(nat \<Rightarrow> fdb_entry) \<Rightarrow> mac_entry \<Rightarrow> nat \<Rightarrow> bool" where
  "slot_free t e i \<longleftrightarrow> \<not> fe_valid (t i) \<or> me_userDefined (fe_me (t i)) < me_userDefined e"

definition scan_choice :: "(nat \<Rightarrow> fdb_entry) \<Rightarrow> mac_entry \<Rightarrow> nat list \<Rightarrow> nat \<Rightarrow> bool \<Rightarrow> bool" where
  "scan_choice t e idxs i ex \<longleftrightarrow>
     i \<in> set idxs \<and> i < FDB_MAX_ADDRS \<and>
     (ex \<longrightarrow> fe_valid (t i) \<and> me_key (fe_me (t i)) = me_key e \<and> same_port (me_dst e) (me_dst (fe_me (t i)))) \<and>
     (if me_key (fe_me (t i)) = me_key e then
        (fe_valid (t i) \<longrightarrow> me_userDefined (fe_me (t i)) \<le> me_userDefined e) \<and>
        (\<exists>pre post. idxs = pre @ i # post \<and> (\<forall>j \<in> set pre. me_key (fe_me (t j)) \<noteq> me_key e))
      else (\<forall>j \<in> set idxs. me_key (fe_me (t j)) \<noteq> me_key e) \<and> slot_free t e i)"

lemma fdb_scan_state:
  "fdb_scan ts e idxs best pri s = (r, t) \<Longrightarrow> table_only s t \<and> flaps_only (fdb s) (fdb t)"
proof (induction ts e idxs best pri s rule: fdb_scan.induct)
  case (1 ts e best pri s)
  then show ?case by simp
next
  case (2 ts e idx idxs best pri s)
  have *: "table_only s (crash s) \<and> fdb (crash s) = fdb s" by (simp add: table_only_def crash_def)
  from 2 show ?case
    by (auto simp: Let_def * split: if_splits dest: fdb_found_state)
qed

lemma fdb_scan_choice:
  assumes "fdb_scan ts e idxs best pri s = (Inr (Some i, ex), t)"
    and "\<And>b. best = Some b \<Longrightarrow> b \<in> set pre \<and> b < FDB_MAX_ADDRS \<and> slot_free (fdb s) e b"
    and "\<And>j. j \<in> set pre \<Longrightarrow> me_key (fe_me (fdb s j)) \<noteq> me_key e" and "pri \<le> me_userDefined e"
  shows "scan_choice (fdb s) e (pre @ idxs) i ex"
  using assms
proof (induction ts e idxs best pri s arbitrary: pre rule: fdb_scan.induct)
  case (1 ts e best pri s)
  then show ?case by (auto simp: scan_choice_def)
next
  case (2 ts e idx idxs best pri s)
  have less: "idx < FDB_MAX_ADDRS" using "2.prems"(1) by (auto split: if_splits)
  have first: "\<exists>pre' post. pre @ idx # idxs = pre' @ idx # post \<and> (\<forall>j \<in> set pre'. me_key (fe_me (fdb s j)) \<noteq> me_key e)"
    using "2.prems"(3) by blast
  show ?case
  proof (cases "me_key e = me_key (fe_me (fdb s idx))")
    case True
    show ?thesis
    proof (cases "fe_valid (fdb s idx)")
      case False
      with True less "2.prems"(1) first show ?thesis by (auto simp: scan_choice_def Let_def)
    next
      case valid: True
      with True less "2.prems"(1) have "fdb_found ts e idx s = (Inr (Some i, ex), t)" by (simp add: Let_def)
      from fdb_found_result [OF this] True less valid first show ?thesis
        by (auto simp: scan_choice_def)
    qed
  next
    case False
    then have pre: "\<And>j. j \<in> set (pre @ [idx]) \<Longrightarrow> me_key (fe_me (fdb s j)) \<noteq> me_key e"
      using "2.prems"(3) by auto
    let ?f = "fdb s idx"
    consider "pri = FEP_UNUSED" | "pri \<noteq> FEP_UNUSED" "\<not> fe_valid ?f"
      | "pri \<noteq> FEP_UNUSED" "fe_valid ?f" "pri > me_userDefined (fe_me ?f)"
      | "pri \<noteq> FEP_UNUSED" "fe_valid ?f" "\<not> pri > me_userDefined (fe_me ?f)" by blast
    then have "scan_choice (fdb s) e ((pre @ [idx]) @ idxs) i ex"
    proof cases
      case 1
      show ?thesis
        by (rule "2.IH"(1) [OF _ refl]) (use 1 less False pre "2.prems" in \<open>auto simp: Let_def\<close>)
    next
      case 2
      show ?thesis
        by (rule "2.IH"(2) [OF _ refl]) (use 2 less False pre "2.prems" in \<open>auto simp: Let_def slot_free_def FEP_UNUSED_def\<close>)
    next
      case 3
      show ?thesis
        by (rule "2.IH"(3) [OF _ refl]) (use 3 less False pre "2.prems" in \<open>auto simp: Let_def slot_free_def\<close>)
    next
      case 4
      show ?thesis
        by (rule "2.IH"(4) [OF _ refl]) (use 4 less False pre "2.prems" in \<open>auto simp: Let_def\<close>)
    qed
    then show ?thesis by simp
  qed
qed

lemma fdb_scan_bucket:
  "fdb_scan ts e idxs None (me_userDefined e) s = (Inr (Some i, ex), t) \<Longrightarrow> scan_choice (fdb s) e idxs i ex"
  using fdb_scan_choice [of ts e idxs None "me_userDefined e" s i ex t "[]"] by simp

section \<open>Counting\<close>

definition slot_port :: "fdb_entry \<Rightarrow> 'a psec_st_scheme \<Rightarrow> nat option" where
  "slot_port f s = (if fe_valid f then entry_port (fe_me f) s else None)"

definition port_addrs :: "'a fdb_st_scheme \<Rightarrow> nat \<Rightarrow> nat set" where
  "port_addrs s i = {idx. idx < FDB_MAX_ADDRS \<and> slot_port (fdb s idx) s = Some i}"

definition psec_counted :: "'a fdb_st_scheme \<Rightarrow> bool" where
  "psec_counted s \<longleftrightarrow> (\<forall>i < length (ports s). psec_naddrs (psec s i) = int (card (port_addrs s i)))"

definition fdb_inv :: "'a fdb_st_scheme \<Rightarrow> bool" where
  "fdb_inv s \<longleftrightarrow> ports_distinct s \<and> psec_counted s \<and> learn_synced s"

lemma finite_port_addrs [simp]: "finite (port_addrs s i)"
  by (rule finite_subset [of _ "{..< FDB_MAX_ADDRS}"]) (auto simp: port_addrs_def)

lemma slot_port_old_entry: "(case old_entry f of None \<Rightarrow> None | Some me \<Rightarrow> entry_port me s) = slot_port f s"
  by (simp add: old_entry_def slot_port_def)

text \<open>The part of the state that says which port an entry points to.\<close>

definition same_ports :: "'a psec_st_scheme \<Rightarrow> 'a psec_st_scheme \<Rightarrow> bool" where
  "same_ports s t \<longleftrightarrow>
     ports t = ports s \<and> stack_id t = stack_id s \<and> dev_ports t = dev_ports s \<and> dev_map t = dev_map s"

lemma same_ports_refl [simp]: "same_ports s s"
  by (simp add: same_ports_def)

lemma same_ports_trans: "same_ports s t \<Longrightarrow> same_ports t u \<Longrightarrow> same_ports s u"
  by (simp add: same_ports_def)

lemma same_ports_entry: "same_ports s t \<Longrightarrow> entry_port me t = entry_port me s"
  by (simp add: same_ports_def entry_port_def port_ix_def port_valid_def port_id_def Let_def split: fdb_key.split)

lemma same_ports_slot: "same_ports s t \<Longrightarrow> slot_port f t = slot_port f s"
  by (simp add: slot_port_def same_ports_entry)

lemma psec_frame_same_ports: "psec_frame s t \<Longrightarrow> same_ports s t"
  by (simp add: same_ports_def psec_frameD)

lemma slot_port_less: "slot_port f s = Some i \<Longrightarrow> i < length (ports s)"
  by (auto simp: slot_port_def entry_port_less split: if_splits)

lemma psec_counted_pos:
  assumes "psec_counted s" "idx < FDB_MAX_ADDRS" "slot_port (fdb s idx) s = Some i"
  shows "0 < psec_naddrs (psec s i)"
proof -
  have "idx \<in> port_addrs s i" using assms by (simp add: port_addrs_def)
  then have "card (port_addrs s i) > 0" by (auto simp: card_gt_0_iff)
  moreover have "i < length (ports s)" using assms(3) by (rule slot_port_less)
  ultimately show ?thesis using assms(1) by (simp add: psec_counted_def)
qed

lemma psec_counted_slot:
  assumes cnt: "psec_counted s" and idx: "idx < FDB_MAX_ADDRS" and same: "same_ports s t"
    and fdb: "fdb t = (fdb s)(idx := f)"
    and psec: "psec t = (if slot_port f s = slot_port (fdb s idx) s then psec s
      else port_count_upd (slot_port (fdb s idx) s) (-1) (port_count_upd (slot_port f s) 1 (psec s)))"
  shows "psec_counted t"
  unfolding psec_counted_def
proof (intro allI impI)
  fix i assume "i < length (ports t)"
  then have i: "psec_naddrs (psec s i) = int (card (port_addrs s i))"
    using cnt same by (simp add: psec_counted_def same_ports_def)
  let ?old = "slot_port (fdb s idx) s" and ?new = "slot_port f s"
  have addrs: "port_addrs t i =
    (if ?new = Some i then insert idx (port_addrs s i) else port_addrs s i - {idx})"
    using idx unfolding port_addrs_def fdb same_ports_slot [OF same] by auto
  have mem: "idx \<in> port_addrs s i \<longleftrightarrow> ?old = Some i"
    using idx by (simp add: port_addrs_def)
  have card: "card (port_addrs s i) > 0" if "?old = Some i"
    using that mem by (auto simp: card_gt_0_iff)
  show "psec_naddrs (psec t i) = int (card (port_addrs t i))"
    unfolding psec addrs using i mem card
    by (auto simp: port_count_upd_def card_insert_if card_Diff_singleton_if split: option.split)
qed

lemma learn_synced_table:
  "psec t = psec s \<Longrightarrow> ports t = ports s \<Longrightarrow> (\<And>d p. na_to_cpu_at (hw t) d p = na_to_cpu_at (hw s) d p) \<Longrightarrow>
     learn_synced t = learn_synced s"
  by (simp add: learn_synced_def port_synced_def port_na_def)

section \<open>Steps that port security does not see\<close>

definition unseen :: "'a fdb_st_scheme \<Rightarrow> 'a fdb_st_scheme \<Rightarrow> bool" where
  "unseen s t \<longleftrightarrow> same_ports s t \<and> psec t = psec s \<and> (\<forall>i. slot_port (fdb t i) s = slot_port (fdb s i) s) \<and>
     (\<forall>d p. na_to_cpu_at (hw t) d p = na_to_cpu_at (hw s) d p)"

lemma unseen_refl [simp, intro!]: "unseen s s"
  by (simp add: unseen_def)

lemma unseen_trans: "unseen s t \<Longrightarrow> unseen t u \<Longrightarrow> unseen s u"
  unfolding unseen_def by (metis same_ports_trans same_ports_slot)

lemma unseen_inv: "unseen s t \<Longrightarrow> fdb_inv s \<Longrightarrow> fdb_inv t"
proof -
  assume u: "unseen s t" and "fdb_inv s"
  have "port_addrs t i = port_addrs s i" for i
    using u same_ports_slot [of s t] by (simp add: port_addrs_def unseen_def)
  moreover have "ports t = ports s" "psec t = psec s" using u by (simp_all add: unseen_def same_ports_def)
  ultimately show "fdb_inv t" using \<open>fdb_inv s\<close> u learn_synced_table [of t s]
    by (simp add: fdb_inv_def psec_counted_def ports_distinct_def unseen_def)
qed

definition silent :: "effect \<Rightarrow> bool" where
  "silent e \<longleftrightarrow> (\<forall>d p. na_write d p e = None)"

lemma silent_simps [simp]:
  "silent (Nt n)" "silent (Fd (FdbHashCalc k))" "silent (Fd (FdbMacEntryWrite d i e))" "silent (Fd (FdbMacEntryInvalidate d i))"
  "silent (Fd (FdbTrigActionStatusGet d))" "silent (Fd (FdbActionModeGet d))" "silent (Fd (SecurBreachMsgGet d))"
  "silent (Fd (SecurBreachNaPerPortSet d p b))"
  by (simp_all add: silent_def na_write_def)

lemma unseen_emit [simp]: "silent e \<Longrightarrow> unseen s (emit e s)"
  by (simp add: unseen_def silent_def same_ports_def emit_def)

lemma unseen_crash [simp]: "unseen s (crash s)"
  by (simp add: unseen_def same_ports_def crash_def)

lemma silent_devs:
  "(\<And>d. silent (call d)) \<Longrightarrow> na_to_cpu_at (dev_writes E call @ h) d p = na_to_cpu_at h d p"
proof -
  assume s: "\<And>d. silent (call d)"
  have "na_to_cpu_at (map call xs @ h) d p = na_to_cpu_at h d p" for xs
    using s by (induction xs) (simp_all add: silent_def)
  then show ?thesis unfolding dev_writes_def rev_map by simp
qed

lemma unseen_devs: "(\<And>d. silent (call d)) \<Longrightarrow> unseen s (snd (for_each_dev E call s))"
  by (simp add: unseen_def same_ports_def silent_devs)

lemma unseen_fold: "(\<And>x t. unseen s t \<Longrightarrow> unseen s (f x t)) \<Longrightarrow> unseen s t \<Longrightarrow> unseen s (fold f xs t)"
  by (induction xs arbitrary: t) auto

lemma unseen_table:
  assumes "table_only s t" "flaps_only (fdb s) (fdb t)"
  shows "unseen s t"
  using table_onlyD [OF assms(1)] flaps_onlyD [OF assms(2)]
  by (simp add: unseen_def same_ports_def slot_port_def)

lemma unseen_phys_dev: "unseen s (snd (phys_dev d s))"
  by (simp add: phys_dev_def)

section \<open>Insertion and removal\<close>

lemma na_to_cpu_store [simp]:
  "na_to_cpu_at (hw (fdb_store E e own secure ts i s)) d p = na_to_cpu_at (hw s) d p"
  by (simp add: fdb_store_def silent_devs)

lemma fdb_store_simps [simp]:
  "psec (fdb_store E e own secure ts i s) = psec s" "ports (fdb_store E e own secure ts i s) = ports s"
  "same_ports s (fdb_store E e own secure ts i s)"
  "fdb (fdb_store E e own secure ts i s) =
     (fdb s)(i := \<lparr>fe_valid = True, fe_secure = secure, pc_aging_status = fdbman_devsbmp s, ts_addr_change = ts,
           addr_flaps = (if fe_valid (fdb s i) then addr_flaps (fdb s i) else 0), fe_me = e\<rparr>)"
  by (simp_all add: fdb_store_def same_ports_def)

lemma psec_frame_fdb: "psec_frame s t \<Longrightarrow> fdb t = fdb s \<and> fdbman_devsbmp t = fdbman_devsbmp s"
proof -
  assume "psec_frame s t"
  then have *: "s = t\<lparr>hw := hw s, crashed := crashed s, psec := psec s, sb_delays := sb_delays s\<rparr>"
    by (simp add: psec_frame_def)
  show ?thesis using arg_cong [OF *, of fdb] arg_cong [OF *, of fdbman_devsbmp] by simp
qed

lemma same_port_key:
  assumes "same_port (me_dst a) (me_dst b)" "me_key a = me_key b"
  shows "entry_port a s = entry_port b s"
  using assms by (simp add: same_port_def entry_port_def split: fdb_key.splits)

text \<open>The end of a successful insertion: the check of port security and the store.\<close>

lemma fdb_inv_replace:
  fixes s :: "'a fdb_st_scheme"
  assumes inv: "fdb_inv s" and idx: "idx < FDB_MAX_ADDRS"
    and chk: "psec_addr_check E (old_entry (fdb s idx)) e (fake \<or> ex) s = (PAS_OK, t)"
    and ex: "ex \<Longrightarrow> fe_valid (fdb s idx) \<and> me_key (fe_me (fdb s idx)) = me_key e \<and> same_port (me_dst e) (me_dst (fe_me (fdb s idx)))"
  shows "fdb_inv (if fake then t else fdb_store E e own secure ts idx t)"
proof -
  let ?op = "slot_port (fdb s idx) s" and ?np = "entry_port e s"
  have pos: "0 < psec_naddrs (psec s j)" if "?op = Some j" for j
    using inv idx that by (auto simp: fdb_inv_def intro: psec_counted_pos)
  have t: "t = snd (psec_addr_check E (old_entry (fdb s idx)) e (fake \<or> ex) s)" using chk by simp
  have frame: "psec_frame s t" unfolding t by auto
  have psec: "psec t = (if ?np = ?op \<or> fake \<or> ex then psec s else port_count_upd ?op (-1) (port_count_upd ?np 1 (psec s)))"
    using psec_addr_check_psec [where old = "old_entry (fdb s idx)" and s = s and E = E and new = e and fake = "fake \<or> ex"] pos chk
    by (simp add: slot_port_old_entry)
  have ex_eq: "?np = ?op" if ex
    using same_port_key [of e "fe_me (fdb s idx)" s] ex [OF that] by (simp add: slot_port_def)
  have synced: "learn_synced t"
    using inv pos unfolding t learn_synced_def fdb_inv_def psec_frameD [OF frame, folded t]
    by (auto intro!: port_synced_addr_check simp: slot_port_old_entry psec_frameD [OF frame [unfolded t]])
  have same: "same_ports s t" using frame by (rule psec_frame_same_ports)
  have dist: "ports_distinct t" using inv ports_frame [OF frame] by (simp add: fdb_inv_def)
  show ?thesis
  proof (cases fake)
    case True
    then have "psec_counted t" using inv same psec psec_frame_fdb [OF frame]
      by (simp add: fdb_inv_def psec_counted_def port_addrs_def same_ports_slot [OF same]) (simp add: same_ports_def)
    with True synced dist show ?thesis by (simp add: fdb_inv_def)
  next
    case False
    have fdb: "fdb t = fdb s" using psec_frame_fdb [OF frame] by simp
    let ?t = "fdb_store E e own secure ts idx t"
    have same': "same_ports s ?t" by (rule same_ports_trans [OF same]) simp
    have "psec_counted ?t"
    proof (rule psec_counted_slot [OF _ idx same'])
      show "psec_counted s" using inv by (simp add: fdb_inv_def)
      show "fdb ?t = (fdb s)(idx := fdb ?t idx)" by (simp add: fdb)
      show "psec ?t = (if slot_port (fdb ?t idx) s = ?op then psec s
        else port_count_upd ?op (-1) (port_count_upd (slot_port (fdb ?t idx) s) 1 (psec s)))"
        using psec ex_eq False by (auto simp: slot_port_def)
    qed
    moreover have "learn_synced ?t" using synced learn_synced_table [of ?t t] by simp
    moreover have "ports_distinct ?t" using dist by (simp add: ports_distinct_def)
    ultimately show ?thesis using False by (simp add: fdb_inv_def)
  qed
qed

lemma scan_choice_flaps: "flaps_only t t' \<Longrightarrow> scan_choice t e idxs i ex = scan_choice t' e idxs i ex"
  by (simp add: scan_choice_def slot_free_def flaps_onlyD)

lemma fdb_insert_inv:
  assumes inv: "fdb_inv s"
  shows "fdb_inv (snd (fdb_insert E F e own secure fake ts s))"
proof -
  let ?s = "emit (Fd (FdbHashCalc (me_key e))) s"
  obtain r t where scan: "fdb_scan ts e (bucket F (me_key e)) None (me_userDefined e) ?s = (r, t)" by fastforce
  have st: "table_only ?s t" "flaps_only (fdb ?s) (fdb t)" using fdb_scan_state [OF scan] by simp_all
  have t: "fdb_inv t"
    using unseen_inv [OF unseen_trans [OF unseen_emit unseen_table [OF st]] inv] by simp
  have ok: "fdb_inv (if fake then u else fdb_store E e own secure ts i u)"
    if "r = Inr (Some i, ex)" "psec_addr_check E (old_entry (fdb t i)) e (fake \<or> ex) t = (PAS_OK, u)" for i ex u
  proof (rule fdb_inv_replace [OF t _ that(2)])
    have "scan_choice (fdb t) e (bucket F (me_key e)) i ex"
      using fdb_scan_bucket [OF scan [unfolded that(1)]] scan_choice_flaps [OF st(2)] by simp
    then show "i < FDB_MAX_ADDRS"
      and "ex \<Longrightarrow> fe_valid (fdb t i) \<and> me_key (fe_me (fdb t i)) = me_key e \<and> same_port (me_dst e) (me_dst (fe_me (fdb t i)))"
      by (simp_all add: scan_choice_def)
  qed
  have refused: "fdb_inv u"
    if "psec_addr_check E (old_entry (fdb t i)) e (fake \<or> ex) t = (PAS_LIMIT, u)" for i ex u
    using psec_addr_check_refused [of E "old_entry (fdb t i)" e "fake \<or> ex" t] that t by simp
  have hash: "fdb_inv ?s" using unseen_inv [OF unseen_emit inv] by simp
  show ?thesis
    unfolding fdb_insert_def crp_def using scan t ok refused hash
    by (auto split: sum.split option.split prod.split psec_addr_status.split)
qed

lemma psec_addr_del_psec:
  "(\<And>i. entry_port me s = Some i \<Longrightarrow> 0 < psec_naddrs (psec s i)) \<Longrightarrow>
     psec (psec_addr_del E me s) = port_count_upd (entry_port me s) (-1) (psec s)"
  by (auto simp: psec_addr_del_def port_count_upd_def psec_addr_del_port_psec split: option.split)

lemma fdb_inv_clear:
  assumes inv: "fdb_inv s" and idx: "idx < FDB_MAX_ADDRS" and valid: "fe_valid (fdb s idx)"
    and frame: "unseen (psec_addr_del E (fe_me (fdb s idx)) s) t" "fdb t = fdb s"
  shows "fdb_inv (fdb_clear idx t)"
proof -
  let ?me = "fe_me (fdb s idx)"
  let ?d = "psec_addr_del E ?me s"
  have op: "slot_port (fdb s idx) s = entry_port ?me s" using valid by (simp add: slot_port_def)
  have pos: "0 < psec_naddrs (psec s i)" if "entry_port ?me s = Some i" for i
    using inv that op idx by (auto simp: fdb_inv_def intro: psec_counted_pos)
  have pf: "psec_frame s ?d" by auto
  have same: "same_ports s (fdb_clear idx t)"
    using psec_frame_same_ports [OF pf] frame(1) by (simp add: same_ports_def unseen_def fdb_clear_def)
  have psec: "psec t = port_count_upd (entry_port ?me s) (-1) (psec s)"
    using frame(1) psec_addr_del_psec [OF pos] by (simp add: unseen_def)
  have "psec_counted (fdb_clear idx t)"
  proof (rule psec_counted_slot [OF _ idx same])
    show "psec_counted s" using inv by (simp add: fdb_inv_def)
    show "fdb (fdb_clear idx t) = (fdb s)(idx := fdb (fdb_clear idx t) idx)" by (simp add: fdb_clear_def frame(2))
    show "psec (fdb_clear idx t) = (if slot_port (fdb (fdb_clear idx t) idx) s = slot_port (fdb s idx) s then psec s
      else port_count_upd (slot_port (fdb s idx) s) (-1) (port_count_upd (slot_port (fdb (fdb_clear idx t) idx) s) 1 (psec s)))"
      by (auto simp: fdb_clear_def psec op) (auto simp: slot_port_def port_count_upd_def)
  qed
  moreover have "learn_synced ?d"
    using inv pos unfolding psec_addr_del_def learn_synced_def fdb_inv_def
    by (auto split: option.split intro!: port_synced_addr_del_port dest: entry_port_less
        simp: psec_frameD [OF psec_frame_addr_del_port [OF psec_frame_refl]])
  then have "learn_synced (fdb_clear idx t)"
    using frame learn_synced_table [of "fdb_clear idx t" ?d] by (simp add: fdb_clear_def unseen_def same_ports_def)
  moreover have "ports_distinct (fdb_clear idx t)"
    using inv same by (simp add: fdb_inv_def ports_distinct_def same_ports_def)
  ultimately show ?thesis by (simp add: fdb_inv_def)
qed

lemma slot_of_Some: "slot_of t k idxs = Some i \<Longrightarrow> i \<in> set idxs \<and> fe_valid (t i) \<and> me_key (fe_me (t i)) = k"
  by (induction idxs) (auto split: if_splits)

lemma fdb_slot_state: "fdb_slot F k s = (r, t) \<Longrightarrow> table_only s t \<and> fdb t = fdb s"
  by (auto simp: fdb_slot_def Let_def table_only_def crash_def split: option.splits if_splits)

lemma fdb_slot_Some:
  "fdb_slot F k s = (Some i, t) \<Longrightarrow> t = s \<and> i \<in> set (bucket F k) \<and> i < FDB_MAX_ADDRS \<and> fe_valid (fdb s i) \<and> me_key (fe_me (fdb s i)) = k"
  by (auto simp: fdb_slot_def Let_def split: option.splits if_splits dest: slot_of_Some)

lemma unseen_slot: "fdb_slot F k s = (r, t) \<Longrightarrow> unseen s t"
  by (rule unseen_table) (auto dest: fdb_slot_state)

lemma unseen_upd:
  "(\<And>f. fe_valid (g f) = fe_valid f) \<Longrightarrow> (\<And>f. fe_me (g f) = fe_me f) \<Longrightarrow> unseen s (fdb_upd i g s)"
  by (simp add: unseen_def same_ports_def slot_port_def)

lemma unseen_inv': "fdb_inv s \<Longrightarrow> unseen s t \<Longrightarrow> fdb_inv t"
  by (rule unseen_inv)

lemma fdb_remove_inv:
  assumes inv: "fdb_inv s"
  shows "fdb_inv (snd (fdb_remove E F k sid s))"
proof -
  let ?s = "emit (Fd (FdbHashCalc k)) s"
  obtain r t where slot: "fdb_slot F k ?s = (r, t)" by fastforce
  have hash: "fdb_inv ?s" using unseen_inv [OF unseen_emit inv] by simp
  have t: "fdb_inv t" using unseen_inv [OF unseen_slot [OF slot] hash] .
  show ?thesis
  proof (cases r)
    case None
    with slot t hash show ?thesis by (simp add: fdb_remove_def crp_def)
  next
    case (Some i)
    from fdb_slot_Some [OF slot [unfolded Some]]
    have i: "t = ?s" "i < FDB_MAX_ADDRS" "fe_valid (fdb t i)" by simp_all
    define asks where "asks = (unat (fdbman_master t) = stack_id t \<and> ci_type (me_dst (fe_me (fdb t i))) = CPSS_IF_TRUNK \<and> sid \<noteq> 16)"
    define aging where "aging = pc_aging_status (fdb t i) AND NOT (push_bit sid 1)"
    define u where "u = (if asks then fdb_upd i (\<lambda>f. f\<lparr>pc_aging_status := aging\<rparr>) t else t)"
    have u: "fdb_inv u" unfolding u_def using t unseen_inv [OF unseen_upd t] by simp
    have ui: "fe_valid (fdb u i)" "fe_me (fdb u i) = fe_me (fdb t i)" using i by (simp_all add: u_def)
    let ?d = "psec_addr_del E (fe_me (fdb u i)) u"
    let ?v = "snd (for_each_dev E (\<lambda>d. Fd (FdbMacEntryInvalidate d i)) ?d)"
    have "fdb_inv (fdb_clear i ?v)"
      by (rule fdb_inv_clear [OF u i(2) ui(1) unseen_devs])
        (use psec_frame_fdb [OF psec_frame_addr_del [OF psec_frame_refl]] in auto)
    then show ?thesis
      using Some slot u hash unfolding fdb_remove_def crp_def
      by (auto simp: Let_def u_def asks_def aging_def ui simp del: for_each_dev_state)
  qed
qed

section \<open>Flushing\<close>

lemma fdb_flush_entry_inv:
  assumes "fdb_inv s" "i < FDB_MAX_ADDRS" "fe_valid (fdb s i)"
  shows "fdb_inv (fdb_flush_entry E i s)"
  unfolding fdb_flush_entry_def
  by (rule fdb_inv_clear [OF assms unseen_refl])
    (use psec_frame_fdb [OF psec_frame_addr_del [OF psec_frame_refl]] in auto)

lemma psec_after_flush_inv:
  assumes inv: "fdb_inv s"
  shows "fdb_inv (psec_after_flush E s)"
proof -
  define f where "f = (\<lambda>i (s :: 'a fdb_st_scheme).
        let s = (if psec_naddrs (psec s i) < 0 then psec_upd i (\<lambda>p. p\<lparr>psec_naddrs := 0\<rparr>) s else s) in
        if psec_enabled (psec s i) \<and> psec_naddrs (psec s i) < psec_max_addrs (psec s i)
        then psec_limit_left E i s else s)"
  have step: "fdb_inv (f i t) \<and> length (ports (f i t)) = length (ports t)"
    if t: "fdb_inv t" and i: "i < length (ports t)" for i t
  proof (cases "psec_enabled (psec t i) \<and> psec_naddrs (psec t i) < psec_max_addrs (psec t i)")
    case False
    then show ?thesis using t i by (auto simp: f_def fdb_inv_def psec_counted_def)
  next
    case True
    have eq: "f i t = psec_limit_left E i t"
      using True t i by (auto simp: f_def fdb_inv_def psec_counted_def)
    have frame: "psec_frame t (f i t)" unfolding eq by auto
    have same: "same_ports t (f i t)" using frame by (rule psec_frame_same_ports)
    have psec: "psec (f i t) = psec t" by (simp add: eq)
    have "port_addrs (f i t) j = port_addrs t j" for j
      using psec_frame_fdb [OF frame] by (simp add: port_addrs_def same_ports_slot [OF same])
    then have "psec_counted (f i t)" using t same psec by (simp add: fdb_inv_def psec_counted_def same_ports_def)
    moreover have "ports_distinct (f i t)" using t ports_frame [OF frame] by (simp add: fdb_inv_def)
    moreover have "learn_synced (f i t)"
      unfolding learn_synced_def
    proof (intro allI impI)
      fix j assume "j < length (ports (f i t))"
      then have j: "j < length (ports t)" using same by (simp add: same_ports_def)
      have "port_na (f i t) j = (if j = i \<and> psec_mode (psec t i) = PSECM_MAX_ADDRS then Some True else port_na t j)"
        unfolding eq using port_na_limit(2) [of t i j E] t i j True by (simp add: fdb_inv_def)
      then show "port_synced (f i t) j"
        using t j True by (auto simp: fdb_inv_def learn_synced_def port_synced_def psec learns_def)
    qed
    ultimately show ?thesis using same by (simp add: fdb_inv_def same_ports_def)
  qed
  have "fdb_inv (fold f xs t)" if "fdb_inv t" "\<forall>i \<in> set xs. i < length (ports t)" for xs t
    using that step by (induction xs arbitrary: t) auto
  from this [of s "[0 ..< length (ports s)]"] show ?thesis
    using inv by (simp add: psec_after_flush_def f_def)
qed

end
