(* ===== verification/Fdb_Kept.thy ===== *)
theory Fdb_Kept
  imports Fdb_Inv
begin

text \<open>
  The contract between the table and the rest of the MAC task: what the insertion, the removal
  and the flush of an entry keep, every request, message and hardware update keeps, since all
  they do besides is send messages and set registers. The locale \<open>fdb_kept\<close> proves this once for
  any invariant.
\<close>

section \<open>Steps beside the table\<close>

definition aside_effect :: "effect \<Rightarrow> bool" where
  "aside_effect e \<longleftrightarrow>
     (case e of
        Fd f \<Rightarrow> (case f of FdbNaToCpuPerPortSet d p b \<Rightarrow> False | FdbMacEntryWrite d i me \<Rightarrow> False
                | FdbMacEntryInvalidate d i \<Rightarrow> False | _ \<Rightarrow> True)
      | _ \<Rightarrow> True)"

definition aside :: "'a fdb_st_scheme \<Rightarrow> 'a fdb_st_scheme \<Rightarrow> bool" where
  "aside s t \<longleftrightarrow> same_ports s t \<and> psec t = psec s \<and> fdb t = fdb s \<and>
     (\<exists>es. hw t = es @ hw s \<and> list_all aside_effect es)"

lemma aside_refl [simp, intro!]: "aside s s"
  by (simp add: aside_def)

lemma aside_trans: "aside s t \<Longrightarrow> aside t u \<Longrightarrow> aside s u"
  unfolding aside_def by (auto intro: same_ports_trans)

lemma aside_emit [simp]: "aside_effect e \<Longrightarrow> aside s (emit e s)"
  unfolding aside_def by (auto simp: same_ports_def emit_def)

lemma aside_nt [simp]: "aside_effect (Nt n)"
  by (simp add: aside_effect_def)

lemma aside_crash [simp]: "aside s (crash s)"
  by (simp add: aside_def same_ports_def crash_def)

lemma aside_fold: "(\<And>x t. aside s t \<Longrightarrow> aside s (f x t)) \<Longrightarrow> aside s t \<Longrightarrow> aside s (fold f xs t)"
  by (induction xs arbitrary: t) auto

lemma aside_phys_dev: "aside s (snd (phys_dev d s))"
  by (simp add: phys_dev_def)

lemma aside_silent: "aside_effect e \<Longrightarrow> silent e"
  by (auto simp: aside_effect_def silent_def na_write_def split: effect.splits fdb_effect.splits)

lemma aside_unseen: "aside s t \<Longrightarrow> unseen s t"
proof -
  have "na_to_cpu_at (es @ h) d p = na_to_cpu_at h d p" if "list_all aside_effect es" for es h d p
    using that by (induction es) (auto dest: aside_silent simp: silent_def)
  then show "aside s t \<Longrightarrow> unseen s t" by (auto simp: aside_def unseen_def)
qed

lemma aside_na_enable: "aside s (snd (sec_port_na_enable E i b s))"
proof -
  have sb: "aside s (sb_upd k g s)" for k g
    by (simp add: aside_def same_ports_def sb_upd_def)
  show ?thesis unfolding snd_sec_port_na_enable
    by (rule aside_trans [OF sb aside_emit]) (simp add: aside_effect_def)
qed

lemma aside_na_sb_all: "aside s (psec_enable_na_sb_all E b s)"
  unfolding psec_enable_na_sb_all_def
  by (rule aside_fold) (auto intro: aside_trans [OF _ aside_na_enable])

lemma aside_na_sb: "aside s (snd (psec_enable_na_sb E pid b s))"
  by (auto simp: psec_enable_na_sb_def aside_na_enable split: option.split)

lemma aside_fd_calls: "(\<And>e. e \<in> set es \<Longrightarrow> aside_effect (Fd e)) \<Longrightarrow> aside s (fd_calls es s)"
  unfolding fd_calls_def by (induction es arbitrary: s) (auto intro: aside_trans [OF aside_emit])

lemma aside_flush_calls:
  "e \<in> set (flush_calls d dev vid trunk port ds) \<Longrightarrow> aside_effect (Fd e)" "e \<in> set (restore_calls d r) \<Longrightarrow> aside_effect (Fd e)"
  by (auto simp: flush_calls_def restore_calls_def aside_effect_def)

lemma aside_flush_start: "aside s (snd (flush_start E F dev vid trunk port ds s))"
  unfolding flush_start_def Let_def snd_conv
  by (rule aside_fold) (auto intro: aside_trans aside_fd_calls aside_flush_calls)

lemma aside_flush_end: "aside s (flush_end E r s)"
  unfolding flush_end_def
  by (rule aside_fold) (auto intro: aside_trans aside_fd_calls aside_flush_calls)

lemma aside_flush_poll: "flush_poll E F ds s = (rest, t) \<Longrightarrow> aside s t"
proof (induction ds arbitrary: s rest)
  case Nil
  then show ?case by simp
next
  case (Cons d ds)
  obtain r where "flush_poll E F ds (emit (Fd (FdbTrigActionStatusGet d)) s) = (r, t)"
    using Cons.prems by (auto simp: Let_def split: prod.splits)
  from Cons.IH [OF this] show ?case by (rule aside_trans [rotated]) (simp add: aside_effect_def)
qed

lemma aside_flush_wait: "flush_wait E F n pending s = Some t \<Longrightarrow> aside s t"
proof (induction n arbitrary: pending s)
  case 0
  then show ?case by simp
next
  case (Suc n)
  obtain p u where poll: "flush_poll E F pending s = (p, u)" by fastforce
  with Suc.prems have "t = u \<or> flush_wait E F n p u = Some t" by (auto split: if_splits)
  with Suc.IH aside_flush_poll [OF poll] show ?case by (auto intro: aside_trans)
qed

lemma aside_flush_wait_all: "aside s (flush_wait_all E F s)"
  by (auto simp: flush_wait_all_def split: option.split intro: aside_flush_wait)

lemma vif_getn_aside: "aside s (snd (vif_getn E v s))"
  using vif_getn_frame [of E v s] by (auto simp: aside_def same_ports_def)

lemma fill_cpss_aside: "aside s (snd (fill_cpss_if v s))"
  by (auto simp: fill_cpss_if_def vif_fill_cpss_if_port_def phys_dev_def split: vif_ref.splits)

lemma fdbman_send_aside: "aside s (fdbman_send bmp cmd s)"
  by (simp add: fdbman_send_def)

lemma update_aside: "aside s (fdbman_send_msg_uni_update E F pf master s)"
  unfolding fdbman_send_msg_uni_update_def Let_def
  by (rule aside_fold) (auto intro: aside_trans fdbman_send_aside)

text \<open>The manager's own state is not seen by port security.\<close>

lemma aside_fdbman [simp]:
  "aside s (s\<lparr>fdbman_state := a\<rparr>)" "aside s (s\<lparr>fdbman_master := b\<rparr>)" "aside s (s\<lparr>fdbman_newmaster := b\<rparr>)"
  "aside s (s\<lparr>fdbman_serial := c\<rparr>)" "aside s (s\<lparr>fdbman_newserial := c\<rparr>)" "aside s (s\<lparr>fdbman_devsbmp := e\<rparr>)"
  by (simp_all add: aside_def same_ports_def)

lemma aside_fdbmanI:
  assumes "aside s t"
  shows "aside s (t\<lparr>fdbman_state := a\<rparr>)" "aside s (t\<lparr>fdbman_master := b\<rparr>)" "aside s (t\<lparr>fdbman_newmaster := b\<rparr>)"
    "aside s (t\<lparr>fdbman_serial := c\<rparr>)" "aside s (t\<lparr>fdbman_newserial := c\<rparr>)" "aside s (t\<lparr>fdbman_devsbmp := e\<rparr>)"
    "aside s (emit (Nt n) t)" "aside s (fdbman_send bmp cmd t)"
  by (rule aside_trans [OF assms], simp add: fdbman_send_def)+

lemma sync_aside:
  assumes "aside s t"
  shows "aside s (fdbman_sync_routing F bmp t)" "aside s (fdbman_sync_ls bmp t)"
proof -
  have rt: "aside s (fold (\<lambda>rt s. fdbman_send_rtbd rt bmp s) rts u)" if "aside s u" for rts u
    by (rule aside_fold) (simp_all add: fdbman_send_rtbd_def that aside_fdbmanI)
  have ud: "aside s (fold (\<lambda>a s. fdbman_send_udt a bmp s) ds u)" if "aside s u" for ds u
    by (rule aside_fold) (simp_all add: fdbman_send_udt_def that aside_fdbmanI)
  show "aside s (fdbman_sync_routing F bmp t)" "aside s (fdbman_sync_ls bmp t)"
    using assms
    by (auto simp: fdbman_sync_routing_def fdbman_sync_ls_def Let_def fdbman_send_clear_routing_def
        fdbman_send_control_cmd_def fdbman_send_vifls_get_def split: option.split intro!: rt ud aside_fdbmanI)
qed

lemma fdbman_set_master_aside: "aside s (snd (fdbman_set_master F m n b s))"
  unfolding fdbman_set_master_def fdbman_become_master_def Let_def fdbman_send_master_announce_pkt_def
    fdbman_send_control_cmd_def fdbman_send_clear_routing_def
  by (auto split: fdbman_state.split intro!: aside_fdbmanI sync_aside)

lemma aside_slot: "fdb_slot F k s = (r, t) \<Longrightarrow> aside s t"
  using table_onlyD [of s t] by (auto dest!: fdb_slot_state simp: aside_def same_ports_def)

lemma fdb_query_aside: "aside s (snd (fdb_query E F k s))"
proof -
  obtain r t where slot: "fdb_slot F k (emit (Fd (FdbHashCalc k)) s) = (r, t)" by fastforce
  have "aside s t" by (rule aside_trans [OF aside_emit aside_slot [OF slot]]) (simp add: aside_effect_def)
  with slot show ?thesis by (auto simp: fdb_query_def crp_def aside_effect_def split: option.split)
qed

lemma aside_sb_upd: "aside s (sb_upd i f s)"
  by (simp add: aside_def same_ports_def sb_upd_def)

lemma sect_delay_timer_aside: "aside s (sect_delay_timer E ts s)"
  unfolding sect_delay_timer_def Let_def
  by (rule aside_fold) (auto intro: aside_trans [OF _ aside_trans [OF aside_sb_upd aside_na_sb]])

lemma sect_event_handler_aside: "aside s (sect_event_handler E F dev ts s)"
proof -
  define t where "t = snd (phys_dev dev (emit (Fd (SecurBreachMsgGet dev)) s))"
  have t: "aside s t" unfolding t_def by (rule aside_trans [OF aside_emit aside_phys_dev]) (simp add: aside_effect_def)
  have q: "aside s (snd (fdb_query E F k (snd (psec_enable_na_sb E pid False (sb_upd i f t)))))" for k pid i f
    by (intro aside_trans [OF _ fdb_query_aside] aside_trans [OF _ aside_na_sb] aside_trans [OF t aside_sb_upd])
  have e: "aside s (emit (Nt n) u)" if "aside s u" for n u
    by (rule aside_trans [OF that aside_emit]) simp
  show ?thesis
    unfolding sect_event_handler_def Let_def case_prod_beta t_def [symmetric]
    using q t aside_trans [OF t aside_sb_upd]
    by (auto split: breach_code.split option.split intro!: e)
qed

section \<open>Requests\<close>

text \<open>What reaches the MAC task and the breach task: requests of the control task, updates of the
  hardware, breach events and the timer.\<close>

datatype mac_req =
    CtlRequest fdb_ctl_cmd u64
  | HwUpdates nat "fdb_update list" u64
  | BreachEvent nat u64
  | BreachTimer u64

definition mac_step :: "env \<Rightarrow> fdb_env \<Rightarrow> mac_req \<Rightarrow> 'a fdb_st_scheme \<Rightarrow> 'a fdb_st_scheme" where
  "mac_step E F r s =
     (case r of
        CtlRequest cmd ts \<Rightarrow> snd (fdb_ctl_handler E F cmd ts s)
      | HwUpdates d us ts \<Rightarrow> fdb_upd_for_dev E F d us ts s
      | BreachEvent d ts \<Rightarrow> sect_event_handler E F d ts s
      | BreachTimer ts \<Rightarrow> sect_delay_timer E ts s)"

definition mac_run :: "env \<Rightarrow> fdb_env \<Rightarrow> mac_req list \<Rightarrow> 'a fdb_st_scheme \<Rightarrow> 'a fdb_st_scheme" where
  "mac_run E F rs s = fold (mac_step E F) rs s"

lemmas me_defs = me_own_def me_user_def me_drop_def me_zero_def fep_defs

section \<open>The contract\<close>

text \<open>An insertion comes with what its callers guarantee: own addresses have the highest priority.\<close>

locale fdb_kept =
  fixes P :: "'a fdb_st_scheme \<Rightarrow> bool" and E :: env and F :: fdb_env
  assumes keep: "aside s t \<Longrightarrow> P s \<Longrightarrow> P t"
    and insert: "P s \<Longrightarrow> own = (me_userDefined e = FEP_OWN) \<Longrightarrow> P (snd (fdb_insert E F e own secure fake ts s))"
    and remove: "P s \<Longrightarrow> P (snd (fdb_remove E F k sid s))"
    and flush_entry: "P s \<Longrightarrow> i < FDB_MAX_ADDRS \<Longrightarrow> fe_valid (fdb s i) \<Longrightarrow> P (fdb_flush_entry E i s)"
    and after_flush: "P s \<Longrightarrow> P (psec_after_flush E s)"
begin

lemma fold_kept:
  "(\<And>x t. x \<in> set xs \<Longrightarrow> P t \<Longrightarrow> P (f x t)) \<Longrightarrow> P s \<Longrightarrow> P (fold f xs s)"
  by (induction xs arbitrary: s) auto

lemma flush_slots:
  "P s \<Longrightarrow> (\<And>i. i \<in> set idxs \<Longrightarrow> i < FDB_MAX_ADDRS) \<Longrightarrow> P (flush_slots E Q idxs s)"
  unfolding flush_slots_def by (rule fold_kept) (auto intro: flush_entry)

lemma flush_run:
  assumes "P s"
  shows "P (flush_wait_all E F (psec_after_flush E (flush_slots E Q [0 ..< FDB_MAX_ADDRS] s)))"
  by (rule keep [OF aside_flush_wait_all after_flush [OF flush_slots [OF assms]]]) simp

lemma fdb_flush:
  assumes "P s"
  shows "P (snd (fdb_flush E F arg s))"
proof -
  have go: "P (flush_end E r (psec_enable_na_sb_all E True (flush_wait_all E F (psec_after_flush E
      (flush_slots E Q [0 ..< FDB_MAX_ADDRS] (snd (flush_start E F dev av (0, 0) port ds (psec_enable_na_sb_all E False t))))))))"
    if "P t" for Q t r dev av port ds
    by (intro keep [OF aside_flush_end] keep [OF aside_na_sb_all] flush_run
        keep [OF aside_flush_start] that)
  have "P (snd (phys_dev d s))" for d using keep [OF aside_phys_dev assms] .
  note go = go [OF assms] go [OF this]
  show ?thesis unfolding fdb_flush_def Let_def case_prod_beta
    by (auto split: option.split simp: assms go)
qed

lemma fdb_flush_vif:
  assumes "P s"
  shows "P (snd (fdb_flush_vif E F arg s))"
proof -
  have go: "P (flush_end E r (flush_wait_all E F (psec_after_flush E
      (flush_slots E Q [0 ..< FDB_MAX_ADDRS] (snd (flush_start E F dev av trunk port ds t))))))"
    if "P t" for Q t r dev av trunk port ds
    by (intro keep [OF aside_flush_end] flush_run keep [OF aside_flush_start] that)
  have vif: "P (snd (vif_getn E v s))" for v using keep [OF vif_getn_aside assms] .
  have "P (snd (fill_cpss_if v (snd (vif_getn E w s))))" for v w
    using keep [OF fill_cpss_aside vif] .
  note go = go [OF assms] go [OF this]
  show ?thesis unfolding fdb_flush_vif_def Let_def case_prod_beta
    by (auto split: option.split simp: assms vif go)
qed

lemma fdb_mac_add:
  assumes "P s"
  shows "P (snd (fdb_mac_add E F arg own ts s))"
proof -
  have "P (snd (phys_dev d s))" for d using keep [OF aside_phys_dev assms] .
  moreover have "P (emit (Nt n) t)" if "P t" for n t using keep [OF aside_emit that] by simp
  ultimately show ?thesis unfolding fdb_mac_add_def Let_def case_prod_beta
    by (auto split: option.split intro!: insert simp: assms me_defs)
qed

lemma fdb_mac_add_vif:
  assumes "P s"
  shows "P (snd (fdb_mac_add_vif E F arg own ts s))"
proof -
  have vif: "P (snd (vif_getn E v s))" for v using keep [OF vif_getn_aside assms] .
  have "P (snd (fill_cpss_if v (snd (vif_getn E w s))))" for v w
    using keep [OF fill_cpss_aside vif] .
  then show ?thesis unfolding fdb_mac_add_vif_def Let_def case_prod_beta
    by (auto split: option.split simp: assms vif insert me_defs)
qed

lemma fdb_mac_op: "P s \<Longrightarrow> P (snd (fdb_mac_op E F arg own ts s))"
  by (simp add: fdb_mac_op_def remove fdb_mac_add)

lemma fdb_mac_op_vif: "P s \<Longrightarrow> P (snd (fdb_mac_op_vif E F arg own ts s))"
  by (simp add: fdb_mac_op_vif_def remove fdb_mac_add_vif)

lemma fdb_mac_mc_ip_op: "P s \<Longrightarrow> P (snd (fdb_mac_mc_ip_op E F arg ts s))"
  by (simp add: fdb_mac_mc_ip_op_def fdb_mac_mc_ip_add_def remove insert me_defs)

lemma fdb_mac_foreign:
  assumes "P s"
  shows "P (snd (fdb_mac_foreign_add E F fr ts s))" "P (snd (fdb_mac_foreign_del E F fr sid s))"
  using assms keep [OF aside_crash assms]
  by (simp_all add: fdb_mac_foreign_add_def fdb_mac_foreign_del_def Let_def insert remove me_defs)

lemma fdb_new_addr:
  assumes "P s"
  shows "P (snd (fdb_new_addr E F me fake ts s))"
proof -
  have e: "P (emit (Nt n) t)" if "P t" for n t using keep [OF aside_emit that] by simp
  show ?thesis unfolding fdb_new_addr_def Let_def
    using assms keep [OF aside_crash assms]
    by (auto split: option.split intro!: insert e simp: fep_defs)
qed

lemma fdb_upd_msgs: "P s \<Longrightarrow> P (snd (fdb_upd_msgs E F d us ts s))"
proof (induction us arbitrary: s)
  case Nil
  then show ?case by simp
next
  case (Cons u us)
  have mode: "P (emit (Fd (FdbActionModeGet d)) s)"
    using keep [OF aside_emit Cons.prems] by (simp add: aside_effect_def)
  have old: "P (snd (fdb_old_addr E F me (emit (Fd (FdbActionModeGet d)) s)))" for me
    by (simp add: fdb_old_addr_def remove mode)
  have new: "P (snd (fdb_new_addr E F me fake ts s))" for me fake
    by (rule fdb_new_addr [OF Cons.prems])
  show ?case
    by (cases "fu_type u") (simp_all add: Let_def case_prod_beta Cons mode old new)
qed

lemma fdb_upd_for_dev: "P s \<Longrightarrow> P (fdb_upd_for_dev E F d us ts s)"
  using fdb_upd_msgs [of s d us ts]
  by (auto simp: fdb_upd_for_dev_def case_prod_beta intro: keep [OF update_aside])

lemma foreign_blck: "P s \<Longrightarrow> P (snd (foreign_blck_loop E F fa sid st ts s))"
proof (induction fa arbitrary: st s)
  case Nil
  then show ?case by simp
next
  case (Cons fr frs)
  show ?case
    by (cases "pf_operation fr")
      (simp_all add: Let_def case_prod_beta Cons.IH fdb_mac_foreign [OF Cons.prems])
qed

lemma fdb_mac_foreign_blck: "P s \<Longrightarrow> P (snd (fdb_mac_foreign_blck E F fa sid ts s))"
  using foreign_blck [of s fa sid ST_OK ts]
  by (auto simp: fdb_mac_foreign_blck_def case_prod_beta intro: keep [OF update_aside])

lemma msg_update: "P s \<Longrightarrow> P (snd (msg_update_loop E F fa sid ts s))"
proof (induction fa arbitrary: s)
  case Nil
  then show ?case by simp
next
  case (Cons fr frs)
  show ?case
    by (cases "pf_operation fr")
      (simp_all add: Let_def case_prod_beta Cons.IH fdb_mac_foreign [OF Cons.prems])
qed

lemma fdbman_handle_msg_update: "P s \<Longrightarrow> P (fdbman_handle_msg_update E F fa sid ts s)"
  using msg_update [of s fa sid ts]
  by (auto simp: fdbman_handle_msg_update_def case_prod_beta intro: keep [OF update_aside])

lemma fdbman_handle_pkt:
  assumes "P s"
  shows "P (snd (fdbman_handle_pkt E F m ts s))"
proof -
  have e: "P (emit (Nt n) t)" if "P t" for n t using keep [OF aside_emit that] by simp
  have send: "P (fdbman_send b c s)" for b c using keep [OF fdbman_send_aside assms] .
  have ready: "P (fdbman_master_ready m s)"
    by (rule keep [OF _ assms]) (auto simp: fdbman_master_ready_def intro!: aside_fdbmanI)
  show ?thesis
    unfolding fdbman_handle_pkt_def Let_def
    by (auto split: fdbman_cmd.split fdbman_state.split
        simp: assms ready send e for_us_def fdbman_send_control_cmd_def fdbman_handle_msg_update
          fdb_mac_foreign_blck fdb_flush fdb_flush_vif fdb_mac_op_vif
          fdbman_send_msg_uni_flush_def fdbman_send_msg_uni_flush_vif_def fdbman_send_msg_uni_macop_def)
qed

lemma fdb_ctl_handler:
  assumes "P s"
  shows "P (snd (fdb_ctl_handler E F cmd ts s))"
proof -
  have send: "P (fdbman_send b c s)" for b c using keep [OF fdbman_send_aside assms] .
  have query: "P (snd (fdb_query E F k s))" for k using keep [OF fdb_query_aside assms] .
  show ?thesis
    unfolding fdb_ctl_handler_def Let_def case_prod_beta
    by (cases cmd) (auto simp: assms send query fdb_flush fdb_flush_vif fdb_mac_op_vif fdb_mac_op
        fdb_mac_mc_ip_op fdbman_handle_pkt keep [OF fdbman_set_master_aside]
        fdbman_send_msg_uni_flush_def fdbman_send_msg_uni_flush_vif_def fdbman_send_msg_uni_macop_def
        fdbman_send_rtbd_def fdbman_send_na_def fdbman_send_na_ipv6_def fdbman_send_opna_def fdbman_send_opna_ipv6_def
        fdbman_send_udt_def fdbman_send_udt_ipv6_def fdbman_send_vif_ls_def fdbman_vif_set_stp_state_def)
qed

lemma mac_step: "P s \<Longrightarrow> P (mac_step E F r s)"
  unfolding mac_step_def
  by (cases r) (simp_all add: fdb_ctl_handler fdb_upd_for_dev keep [OF sect_event_handler_aside] keep [OF sect_delay_timer_aside])

lemma mac_run: "P s \<Longrightarrow> P (mac_run E F rs s)"
  unfolding mac_run_def by (induction rs arbitrary: s) (simp_all add: mac_step)

end

text \<open>The counts and the learning of the ports are such an invariant.\<close>

interpretation psec_kept: fdb_kept fdb_inv E F for E F
  by unfold_locales (auto intro: unseen_inv aside_unseen fdb_insert_inv fdb_remove_inv fdb_flush_entry_inv psec_after_flush_inv)

end
