(* ===== verification/Fdb_Map.thy ===== *)
theory Fdb_Map
  imports Fdb_Kept
begin

text \<open>
  The MAC table as a map from keys to entries. An invariant of the hash table (every key lies in
  its bucket, and only once) makes a lookup a map; insertion, removal and flush are updates of it.
  Also what the hardware holds: the slot of every entry in use.
\<close>

section \<open>The abstract table\<close>

definition slot_key :: "(nat \<Rightarrow> fdb_entry) \<Rightarrow> nat \<Rightarrow> fdb_key" where
  "slot_key t i = me_key (fe_me (t i))"

definition keys_ok :: "fdb_env \<Rightarrow> (nat \<Rightarrow> fdb_entry) \<Rightarrow> bool" where
  "keys_ok F t \<longleftrightarrow>
     (\<forall>j < FDB_MAX_ADDRS. fe_valid (t j) \<longrightarrow>
        j \<in> set (bucket F (slot_key t j)) \<and>
        (\<forall>i \<in> set (bucket F (slot_key t j)). i < j \<longrightarrow> slot_key t i \<noteq> slot_key t j))"

definition fdb_lookup :: "fdb_env \<Rightarrow> (nat \<Rightarrow> fdb_entry) \<Rightarrow> fdb_key \<Rightarrow> mac_entry option" where
  "fdb_lookup F t k =
     map_option (\<lambda>i. fe_me (t i)) (slot_of t k (filter (\<lambda>i. i < FDB_MAX_ADDRS) (bucket F k)))"

lemma keys_ok_unique:
  assumes "keys_ok F t" "i < FDB_MAX_ADDRS" "j < FDB_MAX_ADDRS" "fe_valid (t i)" "fe_valid (t j)"
    and "slot_key t i = slot_key t j"
  shows "i = j"
  using assms unfolding keys_ok_def by (metis linorder_neqE_nat)

lemma slot_of_None: "slot_of t k idxs = None \<longleftrightarrow> (\<forall>i \<in> set idxs. \<not> (fe_valid (t i) \<and> me_key (fe_me (t i)) = k))"
  by (induction idxs) auto

lemma fdb_lookup_Some:
  assumes "keys_ok F t"
  shows "fdb_lookup F t k = Some m \<longleftrightarrow>
    (\<exists>j < FDB_MAX_ADDRS. fe_valid (t j) \<and> slot_key t j = k \<and> fe_me (t j) = m)"
proof
  assume "fdb_lookup F t k = Some m"
  then show "\<exists>j < FDB_MAX_ADDRS. fe_valid (t j) \<and> slot_key t j = k \<and> fe_me (t j) = m"
    by (auto simp: fdb_lookup_def slot_key_def dest!: slot_of_Some)
next
  assume "\<exists>j < FDB_MAX_ADDRS. fe_valid (t j) \<and> slot_key t j = k \<and> fe_me (t j) = m"
  then obtain j where j: "j < FDB_MAX_ADDRS" "fe_valid (t j)" "slot_key t j = k" "fe_me (t j) = m" by blast
  then have "j \<in> set (bucket F k)" using assms by (auto simp: keys_ok_def)
  then obtain i where i: "slot_of t k (filter (\<lambda>i. i < FDB_MAX_ADDRS) (bucket F k)) = Some i"
    using j slot_of_None [of t k "filter (\<lambda>i. i < FDB_MAX_ADDRS) (bucket F k)"]
    by (cases "slot_of t k (filter (\<lambda>i. i < FDB_MAX_ADDRS) (bucket F k))") (auto simp: slot_key_def)
  from slot_of_Some [OF this] have "i = j"
    using keys_ok_unique [OF assms _ j(1) _ j(2)] j(3) by (auto simp: slot_key_def)
  with i j show "fdb_lookup F t k = Some m" by (simp add: fdb_lookup_def)
qed

lemma fdb_lookup_None:
  assumes "keys_ok F t"
  shows "fdb_lookup F t k = None \<longleftrightarrow> (\<forall>j < FDB_MAX_ADDRS. \<not> (fe_valid (t j) \<and> slot_key t j = k))"
  using fdb_lookup_Some [OF assms, of k] by (cases "fdb_lookup F t k") auto

lemma fdb_lookup_eqI:
  assumes "keys_ok F t" "\<And>m. f = Some m \<longleftrightarrow> (\<exists>j < FDB_MAX_ADDRS. fe_valid (t j) \<and> slot_key t j = k \<and> fe_me (t j) = m)"
  shows "fdb_lookup F t k = f"
proof -
  have "fdb_lookup F t k = Some m \<longleftrightarrow> f = Some m" for m
    unfolding fdb_lookup_Some [OF assms(1)] assms(2) ..
  then show ?thesis by (metis not_Some_eq)
qed

lemma slot_of_flaps: "flaps_only t t' \<Longrightarrow> slot_of t' k idxs = slot_of t k idxs"
  by (induction idxs) (simp_all add: flaps_onlyD)

lemma keys_ok_flaps: "flaps_only t t' \<Longrightarrow> keys_ok F t' = keys_ok F t"
  by (simp add: keys_ok_def slot_key_def flaps_onlyD)

lemma fdb_lookup_flaps: "flaps_only t t' \<Longrightarrow> fdb_lookup F t' k = fdb_lookup F t k"
  by (simp add: fdb_lookup_def slot_of_flaps flaps_onlyD)

section \<open>What the operations do to the slots\<close>

lemma fdb_scan_status: "fdb_scan ts e idxs best pri s = (Inl st, t) \<Longrightarrow> st \<noteq> ST_OK"
proof (induction ts e idxs best pri s rule: fdb_scan.induct)
  case (1 ts e best pri s)
  then show ?case by simp
next
  case (2 ts e idx idxs best pri s)
  have "fdb_found ts e idx s = (Inl st, t) \<Longrightarrow> st \<noteq> ST_OK"
    by (auto simp: fdb_found_def Let_def split: if_splits)
  with 2 show ?case by (auto simp: Let_def split: if_splits)
qed

lemma fdb_insert_cases:
  assumes "fdb_insert E F e own secure fake ts s = (st, t)"
  obtains "flaps_only (fdb s) (fdb t)" "st \<noteq> ST_OK \<or> fake"
  | i ex u where "st = ST_OK" "\<not> fake" "scan_choice (fdb s) e (bucket F (me_key e)) i ex" "flaps_only (fdb s) u"
      "fdb t = u(i := \<lparr>fe_valid = True, fe_secure = secure, pc_aging_status = fdbman_devsbmp s, ts_addr_change = ts,
           addr_flaps = (if fe_valid (u i) then addr_flaps (u i) else 0), fe_me = e\<rparr>)"
proof -
  let ?s = "emit (Fd (FdbHashCalc (me_key e))) s"
  have emit: "fdb ?s = fdb s" "fdbman_devsbmp ?s = fdbman_devsbmp s" by (simp_all add: emit_def)
  obtain r v where scan: "fdb_scan ts e (bucket F (me_key e)) None (me_userDefined e) ?s = (r, v)" by fastforce
  have v: "flaps_only (fdb s) (fdb v)" "fdbman_devsbmp v = fdbman_devsbmp s"
    using fdb_scan_state [OF scan] table_onlyD(6) [of ?s v] emit by auto
  have chk: "fdb w = fdb v \<and> fdbman_devsbmp w = fdbman_devsbmp v" if "psec_addr_check E old e b v = (p, w)" for old b p w
    using psec_frame_fdb [OF psec_frame_addr_check [OF psec_frame_refl], of E old e b v] that by simp
  consider "st \<noteq> ST_OK \<or> fake" | "st = ST_OK" "\<not> fake" by blast
  then show thesis
  proof cases
    case 1
    have "flaps_only (fdb s) (fdb t)"
      using assms 1 scan v emit unfolding fdb_insert_def crp_def
      by (auto split: if_splits sum.splits option.splits prod.splits psec_addr_status.splits dest!: chk)
    with 1 that(1) show thesis by blast
  next
    case 2
    from assms 2 scan obtain i ex w where r: "r = Inr (Some i, ex)"
      and w: "psec_addr_check E (old_entry (fdb v i)) e ex v = (PAS_OK, w)" and t: "t = fdb_store E e own secure ts i w"
      unfolding fdb_insert_def crp_def
      by (auto split: if_splits sum.splits option.splits prod.splits psec_addr_status.splits dest: fdb_scan_status)
    have "scan_choice (fdb s) e (bucket F (me_key e)) i ex"
      using fdb_scan_bucket [OF scan [unfolded r]] emit by simp
    then show thesis using that(2) 2 v chk [OF w] t by auto
  qed
qed

lemma bucket_split: "bucket F k = pre @ i # post \<Longrightarrow> set pre = {j \<in> set (bucket F k). j < i}"
proof -
  assume b: "bucket F k = pre @ i # post"
  have "sorted_wrt (<) (bucket F k)" by (simp add: bucket_def)
  then have "\<forall>j \<in> set pre. j < i" "\<forall>j \<in> set post. i < j" by (auto simp: b sorted_wrt_append)
  then show ?thesis by (auto simp: b)
qed

lemma keys_ok_store:
  assumes keys: "keys_ok F t" and choice: "scan_choice t e (bucket F (me_key e)) i ex"
    and f: "fe_me f = e"
  shows "keys_ok F (t(i := f))"
proof -
  let ?B = "bucket F (me_key e)"
  have i: "i \<in> set ?B" "i < FDB_MAX_ADDRS" using choice by (simp_all add: scan_choice_def)
  have first: "slot_key t j \<noteq> me_key e" if "j \<in> set ?B" "j < i" for j
  proof (cases "slot_key t i = me_key e")
    case True
    then obtain pre post where "bucket F (me_key e) = pre @ i # post" "\<forall>j \<in> set pre. slot_key t j \<noteq> me_key e"
      using choice by (auto simp: scan_choice_def slot_key_def)
    with bucket_split [OF this(1)] that show ?thesis by blast
  next
    case False
    with choice that show ?thesis by (auto simp: scan_choice_def slot_key_def)
  qed
  have later: "slot_key t j \<noteq> me_key e" if "fe_valid (t j)" "j < FDB_MAX_ADDRS" "i < j" for j
  proof
    assume k: "slot_key t j = me_key e"
    with keys that have "j \<in> set ?B" and "slot_key t i \<noteq> me_key e" using i by (auto simp: keys_ok_def)
    with choice k show False by (auto simp: scan_choice_def slot_key_def split: if_splits)
  qed
  show ?thesis
    unfolding keys_ok_def
  proof (intro allI impI)
    fix j assume j: "j < FDB_MAX_ADDRS" "fe_valid ((t(i := f)) j)"
    show "j \<in> set (bucket F (slot_key (t(i := f)) j)) \<and>
        (\<forall>i' \<in> set (bucket F (slot_key (t(i := f)) j)). i' < j \<longrightarrow> slot_key (t(i := f)) i' \<noteq> slot_key (t(i := f)) j)"
    proof (cases "j = i")
      case True
      then show ?thesis using i first f by (auto simp: slot_key_def)
    next
      case False
      have key: "slot_key (t(i := f)) i' = (if i' = i then me_key e else slot_key t i')" for i'
        by (simp add: slot_key_def f)
      have "fe_valid (t j)" using j False by simp
      then show ?thesis using keys j later [of j] False unfolding key keys_ok_def by auto
    qed
  qed
qed

lemma keys_ok_insert:
  assumes keys: "keys_ok F (fdb s)"
  shows "keys_ok F (fdb (snd (fdb_insert E F e own secure fake ts s)))"
proof -
  obtain st t where Pair: "fdb_insert E F e own secure fake ts s = (st, t)" by fastforce
  then show ?thesis
  proof (cases rule: fdb_insert_cases)
    case 1
    with keys Pair show ?thesis by (simp add: keys_ok_flaps)
  next
    case (2 i ex u)
    have "scan_choice u e (bucket F (me_key e)) i ex" using 2 scan_choice_flaps by blast
    then show ?thesis using 2 keys Pair by (auto simp: keys_ok_flaps intro: keys_ok_store)
  qed
qed

definition clear_entry :: "fdb_entry \<Rightarrow> fdb_entry" where
  "clear_entry f = f\<lparr>fe_valid := False, fe_secure := False, ts_addr_change := 0, addr_flaps := 0\<rparr>"

lemma keys_ok_clear:
  assumes "keys_ok F t" "\<And>i. fe_me (t' i) = fe_me (t i)"
    "\<And>i. i < FDB_MAX_ADDRS \<Longrightarrow> fe_valid (t' i) \<Longrightarrow> fe_valid (t i)"
  shows "keys_ok F t'"
  using assms by (simp add: keys_ok_def slot_key_def)

lemma fdb_lookup_clear:
  assumes keys: "keys_ok F t" and me: "\<And>i. fe_me (t' i) = fe_me (t i)"
    and valid: "\<And>i. i < FDB_MAX_ADDRS \<Longrightarrow> fe_valid (t' i) = (fe_valid (t i) \<and> \<not> Q (fe_me (t i)))"
  shows "fdb_lookup F t' k = (case fdb_lookup F t k of None \<Rightarrow> None | Some m \<Rightarrow> if Q m then None else Some m)"
proof (rule fdb_lookup_eqI)
  show "keys_ok F t'" using keys me by (rule keys_ok_clear) (simp add: valid)
  fix m
  have "(case fdb_lookup F t k of None \<Rightarrow> None | Some m \<Rightarrow> if Q m then None else Some m) = Some m \<longleftrightarrow>
      fdb_lookup F t k = Some m \<and> \<not> Q m"
    by (auto split: option.splits)
  also have "\<dots> \<longleftrightarrow> (\<exists>j < FDB_MAX_ADDRS. fe_valid (t' j) \<and> slot_key t' j = k \<and> fe_me (t' j) = m)"
    using valid by (auto simp: fdb_lookup_Some [OF keys] slot_key_def me)
  finally show "(case fdb_lookup F t k of None \<Rightarrow> None | Some m \<Rightarrow> if Q m then None else Some m) = Some m \<longleftrightarrow>
      (\<exists>j < FDB_MAX_ADDRS. fe_valid (t' j) \<and> slot_key t' j = k \<and> fe_me (t' j) = m)" .
qed

lemma fdb_remove_cases:
  assumes "fdb_remove E F k sid s = (st, t)"
  obtains "st = ST_DOES_NOT_EXIST \<or> st = ST_HEX" "fdb t = fdb s"
      "st = ST_DOES_NOT_EXIST \<Longrightarrow> slot_of (fdb s) k (filter (\<lambda>i. i < FDB_MAX_ADDRS) (bucket F k)) = None"
  | i a where "slot_of (fdb s) k (filter (\<lambda>i. i < FDB_MAX_ADDRS) (bucket F k)) = Some i" "i < FDB_MAX_ADDRS"
      "st = ST_NOT_READY" "fdb t = (fdb s)(i := (fdb s i)\<lparr>pc_aging_status := a\<rparr>)"
  | i a where "slot_of (fdb s) k (filter (\<lambda>i. i < FDB_MAX_ADDRS) (bucket F k)) = Some i" "i < FDB_MAX_ADDRS"
      "st = ST_OK" "fdb t = (fdb s)(i := clear_entry ((fdb s i)\<lparr>pc_aging_status := a\<rparr>))"
proof -
  let ?s = "emit (Fd (FdbHashCalc k)) s"
  have emit: "fdb ?s = fdb s" by (simp add: emit_def)
  have del: "fdb (psec_addr_del E me u) = fdb u" for me u
    using psec_frame_fdb [OF psec_frame_addr_del [OF psec_frame_refl]] by blast
  show thesis
  proof (cases "slot_of (fdb s) k (filter (\<lambda>i. i < FDB_MAX_ADDRS) (bucket F k))")
    case None
    with assms that(1) show thesis
      unfolding fdb_remove_def crp_def fdb_slot_def Let_def emit
      by (auto split: if_splits simp: emit crash_def)
  next
    case (Some i)
    with slot_of_Some [OF Some] have i: "i < FDB_MAX_ADDRS" by simp
    let ?a = "pc_aging_status (fdb s i) AND NOT (push_bit sid 1)"
    from assms Some have
      "st = ST_HEX \<and> fdb t = fdb s \<or> st = ST_NOT_READY \<and> fdb t = (fdb s)(i := (fdb s i)\<lparr>pc_aging_status := ?a\<rparr>) \<or>
       st = ST_OK \<and> (fdb t = (fdb s)(i := clear_entry ((fdb s i)\<lparr>pc_aging_status := ?a\<rparr>)) \<or>
                     fdb t = (fdb s)(i := clear_entry ((fdb s i)\<lparr>pc_aging_status := pc_aging_status (fdb s i)\<rparr>)))"
      unfolding fdb_remove_def crp_def fdb_slot_def Let_def emit
      by (auto split: if_splits simp: emit del fdb_clear_def clear_entry_def)
    then show thesis using that Some i by blast
  qed
qed

lemma keys_ok_remove:
  assumes keys: "keys_ok F (fdb s)"
  shows "keys_ok F (fdb (snd (fdb_remove E F k sid s)))"
proof -
  obtain st t where Pair: "fdb_remove E F k sid s = (st, t)" by fastforce
  then show ?thesis
    by (cases rule: fdb_remove_cases)
      (use keys Pair in \<open>auto simp: clear_entry_def intro!: keys_ok_clear [OF keys] split: if_splits\<close>)
qed

lemma fdb_flush_entry_fdb: "fdb (fdb_flush_entry E i s) = (fdb s)(i := clear_entry (fdb s i))"
  using psec_frame_fdb [OF psec_frame_addr_del [OF psec_frame_refl], of E "fe_me (fdb s i)" s]
  by (simp add: fdb_flush_entry_def fdb_clear_def clear_entry_def)

lemma psec_after_flush_fdb: "fdb (psec_after_flush E s) = fdb s"
  using psec_frame_fdb [OF psec_frame_after_flush [OF psec_frame_refl]] by blast

interpretation keys_kept: fdb_kept "\<lambda>s. keys_ok F (fdb s)" E F for E F
  by unfold_locales
    (auto simp: aside_def keys_ok_insert keys_ok_remove fdb_flush_entry_fdb psec_after_flush_fdb clear_entry_def
      intro: keys_ok_clear split: if_splits)

section \<open>The operations as updates of the map\<close>

text \<open>An insertion enters its key and drops at most one other, of a lower priority, whose place it takes.\<close>

lemma fdb_insert_map:
  assumes keys: "keys_ok F (fdb s)" and ins: "fdb_insert E F e own secure False ts s = (ST_OK, t)"
  shows "\<exists>victim. fdb_lookup F (fdb t) =
      (\<lambda>k. if k = me_key e then Some e else if victim = Some k then None else fdb_lookup F (fdb s) k) \<and>
    (\<forall>k. victim = Some k \<longrightarrow> (\<exists>m. fdb_lookup F (fdb s) k = Some m \<and> me_userDefined m < me_userDefined e))"
  using ins
proof (cases rule: fdb_insert_cases)
  case 1
  then show ?thesis by simp
next
  case (2 i ex u)
  obtain f where t: "fdb t = u(i := f)" "fe_valid f" "fe_me f = e" using 2(5) by simp
  have choice: "scan_choice u e (bucket F (me_key e)) i ex" using 2 scan_choice_flaps by blast
  have u: "keys_ok F u" using keys 2(4) by (simp add: keys_ok_flaps)
  have i: "i < FDB_MAX_ADDRS" "i \<in> set (bucket F (me_key e))" using choice by (simp_all add: scan_choice_def)
  have keys': "keys_ok F (fdb t)" unfolding t(1) by (rule keys_ok_store [OF u choice t(3)])
  define victim where "victim = (if fe_valid (u i) \<and> slot_key u i \<noteq> me_key e then Some (slot_key u i) else None)"
  have only: "j = i" if "fe_valid (u j)" "j < FDB_MAX_ADDRS" "slot_key u j = me_key e" for j
  proof (cases "slot_key u i = me_key e")
    case True
    show ?thesis
    proof (rule ccontr)
      assume "j \<noteq> i"
      then consider "j < i" | "i < j" by linarith
      then show False
      proof cases
        case 1
        obtain pre post where pre: "bucket F (me_key e) = pre @ i # post" "\<forall>j \<in> set pre. slot_key u j \<noteq> me_key e"
          using choice True by (auto simp: scan_choice_def slot_key_def)
        have "j \<in> set (bucket F (me_key e))" using u that by (auto simp: keys_ok_def)
        with bucket_split [OF pre(1)] 1 have "j \<in> set pre" by simp
        with pre(2) that(3) show False by simp
      next
        case 2
        with u that True i show False unfolding keys_ok_def by metis
      qed
    qed
  next
    case False
    with choice u that show ?thesis by (auto simp: scan_choice_def slot_key_def keys_ok_def)
  qed
  have "fdb_lookup F (fdb t) k = (if k = me_key e then Some e else if victim = Some k then None else fdb_lookup F u k)" for k
  proof (rule fdb_lookup_eqI [OF keys'])
    fix m
    consider "k = me_key e" | "k \<noteq> me_key e" "victim = Some k" | "k \<noteq> me_key e" "victim \<noteq> Some k" by blast
    then show "(if k = me_key e then Some e else if victim = Some k then None else fdb_lookup F u k) = Some m \<longleftrightarrow>
      (\<exists>j < FDB_MAX_ADDRS. fe_valid (fdb t j) \<and> slot_key (fdb t) j = k \<and> fe_me (fdb t j) = m)"
    proof cases
      case 1
      have "j = i \<and> e = m" if "j < FDB_MAX_ADDRS" "fe_valid (fdb t j)" "slot_key (fdb t) j = k" "fe_me (fdb t j) = m" for j
        using that only [of j] 1 t(3) by (cases "j = i") (simp_all add: slot_key_def t(1))
      moreover have "fe_valid (fdb t i)" "slot_key (fdb t) i = k" "fe_me (fdb t i) = e"
        using 1 t(2,3) by (simp_all add: slot_key_def t(1))
      ultimately have "(\<exists>j < FDB_MAX_ADDRS. fe_valid (fdb t j) \<and> slot_key (fdb t) j = k \<and> fe_me (fdb t j) = m) \<longleftrightarrow> e = m"
        using i(1) by blast
      with 1 show ?thesis by simp
    next
      case 2
      then have "fe_valid (u i)" "slot_key u i = k" by (simp_all add: victim_def split: if_splits)
      then have "j = i" if "fe_valid (u j)" "j < FDB_MAX_ADDRS" "slot_key u j = k" for j
        using keys_ok_unique [OF u that(2) i(1) that(1)] that(3) by simp
      then have "\<not> (fe_valid (fdb t j) \<and> slot_key (fdb t) j = k)" if "j < FDB_MAX_ADDRS" for j
        using that 2 by (cases "j = i") (auto simp: slot_key_def t)
      with 2 show ?thesis by auto
    next
      case 3
      have "(fe_valid (fdb t j) \<and> slot_key (fdb t) j = k \<and> fe_me (fdb t j) = m) =
          (fe_valid (u j) \<and> slot_key u j = k \<and> fe_me (u j) = m)" for j
        using 3 by (cases "j = i") (auto simp: slot_key_def t victim_def)
      then show ?thesis using 3 fdb_lookup_Some [OF u, of k m] by simp
    qed
  qed
  moreover have "\<exists>m. fdb_lookup F u k = Some m \<and> me_userDefined m < me_userDefined e" if "victim = Some k" for k
  proof -
    from that have v: "fe_valid (u i)" "slot_key u i = k" "slot_key u i \<noteq> me_key e"
      by (simp_all add: victim_def split: if_splits)
    with choice have "me_userDefined (fe_me (u i)) < me_userDefined e"
      by (auto simp: scan_choice_def slot_key_def slot_free_def)
    then show ?thesis using v i fdb_lookup_Some [OF u] by blast
  qed
  ultimately show ?thesis using 2(4) by (auto simp: fdb_lookup_flaps intro!: exI [of _ victim])
qed

lemma fdb_insert_refused:
  assumes "fdb_insert E F e own secure fake ts s = (st, t)" "st \<noteq> ST_OK \<or> fake"
  shows "fdb_lookup F (fdb t) = fdb_lookup F (fdb s)"
  using assms(1)
proof (cases rule: fdb_insert_cases)
  case 1
  then show ?thesis by (auto simp: fdb_lookup_flaps)
next
  case 2
  with assms(2) show ?thesis by simp
qed

lemma fdb_remove_map:
  assumes keys: "keys_ok F (fdb s)" and rem: "fdb_remove E F k sid s = (st, t)"
  shows "fdb_lookup F (fdb t) = (if st = ST_OK then (fdb_lookup F (fdb s))(k := None) else fdb_lookup F (fdb s)) \<and>
    (st = ST_DOES_NOT_EXIST \<longrightarrow> fdb_lookup F (fdb s) k = None) \<and> (st = ST_OK \<longrightarrow> fdb_lookup F (fdb s) k \<noteq> None)"
  using rem
proof (cases rule: fdb_remove_cases)
  case 1
  then show ?thesis by (auto simp: fdb_lookup_def)
next
  case (2 i a)
  have "fdb_lookup F (fdb t) k' = fdb_lookup F (fdb s) k'" for k'
    using fdb_lookup_clear [OF keys, of "fdb t" "\<lambda>m. False" k'] 2(4) by (simp split: option.splits)
  with 2 show ?thesis by auto
next
  case (3 i a)
  from slot_of_Some [OF 3(1)] have i: "fe_valid (fdb s i)" "slot_key (fdb s) i = k" by (simp_all add: slot_key_def)
  have t: "fe_valid (fdb t j) = (j \<noteq> i \<and> fe_valid (fdb s j))" "fe_me (fdb t j) = fe_me (fdb s j)" for j
    unfolding 3(4) by (simp_all add: clear_entry_def)
  have "fe_valid (fdb t j) = (fe_valid (fdb s j) \<and> \<not> me_key (fe_me (fdb s j)) = k)" if "j < FDB_MAX_ADDRS" for j
    using keys_ok_unique [OF keys that 3(2) _ i(1)] i(2) t by (auto simp: slot_key_def)
  from fdb_lookup_clear [where Q = "\<lambda>m. me_key m = k", OF keys t(2) this]
  have "fdb_lookup F (fdb t) k' = (case fdb_lookup F (fdb s) k' of None \<Rightarrow> None | Some m \<Rightarrow> if me_key m = k then None else Some m)" for k'
    by blast
  moreover have "me_key m = k'" if "fdb_lookup F (fdb s) k' = Some m" for k' m
    using that fdb_lookup_Some [OF keys] by (auto simp: slot_key_def)
  ultimately have "fdb_lookup F (fdb t) k' = ((fdb_lookup F (fdb s))(k := None)) k'" for k'
    by (auto split: option.splits)
  moreover have "fdb_lookup F (fdb s) k \<noteq> None" using 3(1) by (simp add: fdb_lookup_def)
  ultimately show ?thesis using 3(3) by auto
qed

lemma flush_slots_fdb:
  "fdb (flush_slots E Q idxs s) =
    (\<lambda>j. if j \<in> set idxs \<and> fe_valid (fdb s j) \<and> Q (fe_me (fdb s j)) then clear_entry (fdb s j) else fdb s j)"
proof (induction idxs arbitrary: s)
  case Nil
  then show ?case by (simp add: flush_slots_def)
next
  case (Cons i idxs)
  have "flush_slots E Q (i # idxs) s =
      flush_slots E Q idxs (if fe_valid (fdb s i) \<and> Q (fe_me (fdb s i)) then fdb_flush_entry E i s else s)"
    by (simp add: flush_slots_def)
  then show ?case by (auto simp: Cons.IH fdb_flush_entry_fdb clear_entry_def fun_eq_iff)
qed

lemma flush_slots_map:
  assumes "keys_ok F (fdb s)"
  shows "fdb_lookup F (fdb (flush_slots E Q [0 ..< FDB_MAX_ADDRS] s)) k =
    (case fdb_lookup F (fdb s) k of None \<Rightarrow> None | Some m \<Rightarrow> if Q m then None else Some m)"
  by (rule fdb_lookup_clear [OF assms]) (auto simp: flush_slots_fdb clear_entry_def)

text \<open>Whatever a flush does around the loop leaves the table as it is.\<close>

lemma aside_fdb: "aside s t \<Longrightarrow> fdb t = fdb s"
  by (simp add: aside_def)

end
