(* ===== verification/Fdb_Reach.thy ===== *)
theory Fdb_Reach
  imports Fdb_Map
begin

text \<open>
  Invariants of the MAC task and of port security over all sequences of requests, messages of
  other units, hardware updates and configuration changes.
\<close>

section \<open>Configuration of port security\<close>

lemma fdb_inv_settings:
  assumes inv: "fdb_inv s" and f: "\<And>p. psec_naddrs (f p) = psec_naddrs p"
    and i: "\<And>p. port_synced s i \<Longrightarrow> port_synced (psec_upd i f s) i"
  shows "fdb_inv (psec_upd i f s)"
proof -
  have frame: "psec_frame s (psec_upd i f s)" by auto
  have same: "same_ports s (psec_upd i f s)" using frame by (rule psec_frame_same_ports)
  have "port_addrs (psec_upd i f s) j = port_addrs s j" for j
    using psec_frame_fdb [OF frame] by (simp add: port_addrs_def same_ports_slot [OF same])
  then have "psec_counted (psec_upd i f s)" using inv f by (simp add: fdb_inv_def psec_counted_def)
  moreover have "port_synced (psec_upd i f s) j" if "j < length (ports s)" for j
    using that inv i by (cases "j = i") (auto simp: fdb_inv_def learn_synced_def port_synced_def)
  then have "learn_synced (psec_upd i f s)" by (simp add: learn_synced_def)
  moreover have "ports_distinct (psec_upd i f s)" using inv by (simp add: fdb_inv_def)
  ultimately show ?thesis by (simp add: fdb_inv_def)
qed

lemma psec_set_mode_inv: "fdb_inv s \<Longrightarrow> fdb_inv (snd (psec_set_mode pid mode s))"
  by (auto simp: psec_set_mode_def port_synced_def split: option.split intro!: fdb_inv_settings)

lemma psec_set_max_addrs_inv: "fdb_inv s \<Longrightarrow> fdb_inv (snd (psec_set_max_addrs F pid n s))"
  by (auto simp: psec_set_max_addrs_def port_synced_def split: option.split intro!: fdb_inv_settings)

lemma port_notify_inv:
  "fdb_inv s \<Longrightarrow> fdb_inv (snd (port_fdb_new_addr_notify pid b s))"
  "fdb_inv s \<Longrightarrow> fdb_inv (snd (port_fdb_addr_op_notify pid b s))"
  by (auto simp: port_fdb_new_addr_notify_def port_fdb_addr_op_notify_def port_synced_def learns_def
      split: option.split intro!: fdb_inv_settings)

lemma port_na_storm: "port_na (emit (Fd (FdbNaStormPreventSet d p b)) s) i = port_na s i"
  by (simp add: port_na_def na_write_def)

lemma ports_distinct_emit [simp]: "ports_distinct (emit e s) = ports_distinct s"
  by (simp add: ports_distinct_def)

lemma psec_frame_program: "psec_frame s (psec_program E i s)"
  by (auto simp: psec_program_def Let_def split: psec_mode.split)

lemma psec_program_psec [simp]: "psec (psec_program E i s) = psec s"
  by (auto simp: psec_program_def Let_def split: psec_mode.split)

lemma psec_program_na:
  assumes "ports_distinct s" "i < length (ports s)" "j < length (ports s)" "psec_mode (psec s i) \<noteq> PSECM_OTHER"
  shows "port_na (psec_program E i s) j =
    (if j = i then Some (\<not> psec_enabled (psec s i) \<or> learns (psec s i)) else port_na s j)"
  using assms port_na_learning [of "emit e s" i j E for e] port_na_learning [of s i j E]
  by (auto simp: psec_program_def Let_def learns_def port_na_storm split: psec_mode.split)

text \<open>The settings \<open>psec_enable\<close> makes before it programs the hardware.\<close>

lemma psec_enable_inv:
  assumes inv: "fdb_inv s"
  shows "fdb_inv (snd (psec_enable E pid enable act intv s))"
proof (cases "port_ix pid s")
  case None
  with inv show ?thesis by (simp add: psec_enable_def)
next
  case (Some i)
  have pid: "unat pid = i + 1" and i: "i < length (ports s)"
    using Some by (auto simp: port_ix_def port_valid_def split: if_splits)
  let ?intv = "if intv = 0 then 30 else intv"
  define f :: "port_sec \<Rightarrow> port_sec" where "f = (\<lambda>p. p\<lparr>psec_enabled := enable, psec_action := act, psec_trap_interval := ?intv\<rparr>)"
  define t where "t = sec_port_enable (unat pid) enable (sec_moved_static_delay_set (unat pid) ?intv
    (sec_port_na_delay_set (unat pid) ?intv (psec_upd i f s)))"
  define u where "u = (if psec_enabled (psec s i) \<noteq> enable then psec_program E i t else t)"
  have t: "psec t = psec (psec_upd i f s)" "ports t = ports s" "hw t = hw s"
    using i pid by (simp_all add: t_def sec_port_enable_def sec_moved_static_delay_set_def sec_port_na_delay_set_def)
  have ft: "psec_frame s t"
    using i pid by (auto simp: t_def sec_port_enable_def sec_moved_static_delay_set_def sec_port_na_delay_set_def)
  have frame: "psec_frame s u"
    using ft psec_frame_trans [OF ft psec_frame_program] by (simp add: u_def)
  have psec: "psec u = psec (psec_upd i f s)" by (simp add: u_def t)
  have same: "same_ports s u" using frame by (rule psec_frame_same_ports)
  have "port_addrs u j = port_addrs s j" for j
    using psec_frame_fdb [OF frame] by (simp add: port_addrs_def same_ports_slot [OF same])
  then have "psec_counted u" using inv same psec by (simp add: fdb_inv_def psec_counted_def f_def same_ports_def)
  moreover have "ports_distinct u" using inv ports_frame [OF frame] by (simp add: fdb_inv_def)
  moreover have "port_synced u j" if j: "j < length (ports s)" for j
  proof -
    have s: "port_synced s j" "port_synced s i" using inv i j by (simp_all add: fdb_inv_def learn_synced_def)
    have "port_na u j = (if j = i \<and> psec_enabled (psec s i) \<noteq> enable then Some (\<not> enable \<or> learns (psec t i)) else port_na s j)"
      using psec_program_na [of t i j E] i j t s inv ports_frame [OF ft]
      by (auto simp: u_def port_synced_def f_def fdb_inv_def port_na_def)
    then show ?thesis using s t by (auto simp: port_synced_def psec f_def learns_def)
  qed
  then have "learn_synced u" using same by (simp add: learn_synced_def same_ports_def)
  ultimately have "fdb_inv u" by (simp add: fdb_inv_def)
  then show ?thesis using inv Some
    by (auto simp: psec_enable_def Let_def u_def t_def f_def)
qed

section \<open>Runs\<close>

datatype fdb_req =
    MacRequest mac_req
  | PsecEnable u16 bool psec_action u32
  | PsecSetMode u16 psec_mode
  | PsecSetMaxAddrs u16 int
  | NewAddrNotify u16 bool
  | AddrOpNotify u16 bool

definition fdb_step :: "env \<Rightarrow> fdb_env \<Rightarrow> fdb_req \<Rightarrow> 'a fdb_st_scheme \<Rightarrow> 'a fdb_st_scheme" where
  "fdb_step E F r s =
     (case r of
        MacRequest m \<Rightarrow> mac_step E F m s
      | PsecEnable pid enable act intv \<Rightarrow> snd (psec_enable E pid enable act intv s)
      | PsecSetMode pid mode \<Rightarrow> snd (psec_set_mode pid mode s)
      | PsecSetMaxAddrs pid n \<Rightarrow> snd (psec_set_max_addrs F pid n s)
      | NewAddrNotify pid b \<Rightarrow> snd (port_fdb_new_addr_notify pid b s)
      | AddrOpNotify pid b \<Rightarrow> snd (port_fdb_addr_op_notify pid b s))"

definition fdb_run :: "env \<Rightarrow> fdb_env \<Rightarrow> fdb_req list \<Rightarrow> 'a fdb_st_scheme \<Rightarrow> 'a fdb_st_scheme" where
  "fdb_run E F rs s = fold (fdb_step E F) rs s"

lemma fdb_step_inv: "fdb_inv s \<Longrightarrow> fdb_inv (fdb_step E F r s)"
  unfolding fdb_step_def
  by (cases r) (simp_all add: psec_kept.mac_step psec_enable_inv psec_set_mode_inv psec_set_max_addrs_inv port_notify_inv)

lemma fdb_run_inv: "fdb_inv s \<Longrightarrow> fdb_inv (fdb_run E F rs s)"
  unfolding fdb_run_def by (induction rs arbitrary: s) (simp_all add: fdb_step_inv)

text \<open>After \<open>port_init\<close> and \<open>sec_start\<close>: an empty table, no port with security.\<close>

definition fdb_boot :: "'a fdb_st_scheme \<Rightarrow> bool" where
  "fdb_boot s \<longleftrightarrow> ports_distinct s \<and> (\<forall>i. \<not> fe_valid (fdb s i)) \<and>
     (\<forall>i < length (ports s). \<not> psec_enabled (psec s i) \<and> psec_mode (psec s i) = PSECM_LOCK \<and> psec_naddrs (psec s i) = 0)"

lemma fdb_boot_inv: "fdb_boot s \<Longrightarrow> fdb_inv s"
  by (simp add: fdb_boot_def fdb_inv_def psec_counted_def port_addrs_def slot_port_def learn_synced_def port_synced_def)

section \<open>The limit\<close>

text \<open>With security on, the count of a port stays under a bound that is at least its limit.\<close>

definition limited :: "nat \<Rightarrow> int \<Rightarrow> int \<Rightarrow> 'a psec_st_scheme \<Rightarrow> bool" where
  "limited i m b s \<longleftrightarrow> psec_enabled (psec s i) \<and> psec_max_addrs (psec s i) = m \<and> psec_naddrs (psec s i) \<le> b \<and> m \<le> b \<and> 0 \<le> b"

lemma limited_psec: "psec t = psec s \<Longrightarrow> limited i m b t = limited i m b s"
  by (simp add: limited_def)

lemma limited_simps [simp]:
  "limited i m b (emit e s) = limited i m b s" "limited i m b (crash s) = limited i m b s"
  "limited i m b (s\<lparr>hw := h\<rparr>) = limited i m b s" "limited i m b (psec_limit_left E j s) = limited i m b s"
  "limited i m b (psec_limit_reached E j s) = limited i m b s"
  by (simp_all add: limited_def crash_def)

lemma limited_fdb_simps [simp]:
  "limited i m b (fdb_upd j f s) = limited i m b s" "limited i m b (fdb_clear j s) = limited i m b s"
  "limited i m b (fdb_store E e own secure ts j s) = limited i m b s"
  by (simp_all add: limited_def fdb_clear_def)

lemma limited_del_port: "limited i m b s \<Longrightarrow> limited i m b (psec_addr_del_port E j s)"
  by (cases "j = i") (auto simp: limited_def psec_addr_del_port_def Let_def)

lemma limited_addr_check: "limited i m b s \<Longrightarrow> limited i m b (snd (psec_addr_check E old new fake s))"
proof -
  assume l: "limited i m b s"
  have inc: "limited i m b (psec_upd j (\<lambda>p. p\<lparr>psec_naddrs := psec_naddrs p + 1\<rparr>) s)"
    if "psec_enabled (psec s j) \<Longrightarrow> psec_naddrs (psec s j) < psec_max_addrs (psec s j)" for j
    using l that by (cases "j = i") (auto simp: limited_def)
  show ?thesis
    unfolding psec_addr_check_def Let_def
    using l by (auto split: option.split intro!: limited_del_port inc simp: limited_psec [OF psec_limit(1)])
qed

lemma limited_insert:
  assumes l: "limited i m b s"
  shows "limited i m b (snd (fdb_insert E F e own secure fake ts s))"
proof -
  obtain r t where scan: "fdb_scan ts e (bucket F (me_key e)) None (me_userDefined e) (emit (Fd (FdbHashCalc (me_key e))) s) = (r, t)"
    by fastforce
  have "psec t = psec s" using table_onlyD(1) [of _ t] fdb_scan_state [OF scan] by auto
  then have t: "limited i m b t" using l by (simp add: limited_def)
  have put: "limited i m b (snd (case psec_addr_check E old e fk t of (PAS_LIMIT, s) \<Rightarrow> (ST_BAD_STATE, s)
      | (PAS_OK, s) \<Rightarrow> (ST_OK, if fake then s else fdb_store E e own secure ts k s)))" for old fk k
    using limited_addr_check [OF t, of E old e fk]
    by (cases "psec_addr_check E old e fk t") (auto split: psec_addr_status.split)
  show ?thesis
    unfolding fdb_insert_def crp_def case_prod_conv scan
    by (cases r) (auto simp: l t put split: option.split prod.split)
qed

lemma limited_addr_del: "limited i m b s \<Longrightarrow> limited i m b (psec_addr_del E me s)"
  by (auto simp: psec_addr_del_def split: option.split intro: limited_del_port)

lemma limited_remove:
  assumes l: "limited i m b s"
  shows "limited i m b (snd (fdb_remove E F k sid s))"
proof -
  obtain r t where slot: "fdb_slot F k (emit (Fd (FdbHashCalc k)) s) = (r, t)" by fastforce
  have "psec t = psec s" using table_onlyD(1) [of _ t] fdb_slot_state [OF slot] by auto
  then have t: "limited i m b t" using l by (simp add: limited_def)
  show ?thesis
    unfolding fdb_remove_def crp_def case_prod_conv slot
    by (cases r) (simp_all add: Let_def l t limited_addr_del)
qed

lemma limited_after_flush: "limited i m b s \<Longrightarrow> limited i m b (psec_after_flush E s)"
proof -
  have step: "limited i m b (let s = (if psec_naddrs (psec s j) < 0 then psec_upd j (\<lambda>p. p\<lparr>psec_naddrs := 0\<rparr>) s else s) in
        if psec_enabled (psec s j) \<and> psec_naddrs (psec s j) < psec_max_addrs (psec s j) then psec_limit_left E j s else s)"
    if "limited i m b s" for j and s :: "'b psec_st_scheme"
  proof -
    have "limited i m b (psec_upd j (\<lambda>p. p\<lparr>psec_naddrs := 0\<rparr>) s)" using that by (cases "j = i") (simp_all add: limited_def)
    with that show ?thesis by (simp add: Let_def)
  qed
  have "limited i m b (fold (\<lambda>j s. let s = (if psec_naddrs (psec s j) < 0 then psec_upd j (\<lambda>p. p\<lparr>psec_naddrs := 0\<rparr>) s else s) in
        if psec_enabled (psec s j) \<and> psec_naddrs (psec s j) < psec_max_addrs (psec s j) then psec_limit_left E j s else s) js s)"
    if "limited i m b s" for js s
    using that by (induction js arbitrary: s) (simp_all add: step)
  then show "limited i m b s \<Longrightarrow> limited i m b (psec_after_flush E s)" by (simp add: psec_after_flush_def)
qed

interpretation limit_kept: fdb_kept "limited i m b" E F for i m b E F
proof
  show "limited i m b (fdb_flush_entry E j s)" if "limited i m b s" for s :: "'a fdb_st_scheme" and j
    using that by (simp add: fdb_flush_entry_def limited_addr_del)
  show "limited i m b t" if "aside s t" "limited i m b s" for s t :: "'a fdb_st_scheme"
    using that by (simp add: aside_def limited_def)
qed (simp_all add: limited_insert limited_remove limited_after_flush)

section \<open>The slots of the hardware\<close>

definition slot_write :: "nat \<Rightarrow> nat \<Rightarrow> effect \<Rightarrow> mac_entry option option" where
  "slot_write d i e =
     (case e of
        Fd f \<Rightarrow> (case f of
            FdbMacEntryWrite d' i' me \<Rightarrow> if d' = d \<and> i' = i then Some (Some me) else None
          | FdbMacEntryInvalidate d' i' \<Rightarrow> if d' = d \<and> i' = i then Some None else None
          | _ \<Rightarrow> None)
      | _ \<Rightarrow> None)"

fun hw_slot :: "effect list \<Rightarrow> nat \<Rightarrow> nat \<Rightarrow> mac_entry option" where
  "hw_slot [] d i = None"
| "hw_slot (e # h) d i = (case slot_write d i e of Some r \<Rightarrow> r | None \<Rightarrow> hw_slot h d i)"

text \<open>What a device must hold of an entry: an own address points to the device itself.\<close>

definition hw_image :: "'a fdb_st_scheme \<Rightarrow> nat \<Rightarrow> mac_entry \<Rightarrow> mac_entry" where
  "hw_image s d me =
     (if me_userDefined me = FEP_OWN then me\<lparr>me_dst := (me_dst me)\<lparr>ci_devNum := fst (phys_dev d s)\<rparr>\<rparr> else me)"

definition fdb_mirrored :: "env \<Rightarrow> 'a fdb_st_scheme \<Rightarrow> bool" where
  "fdb_mirrored E s \<longleftrightarrow>
     (\<forall>d < e_ndevs E. \<forall>i < FDB_MAX_ADDRS. fe_valid (fdb s i) \<longrightarrow> hw_slot (hw s) d i = Some (hw_image s d (fe_me (fdb s i))))"

lemma hw_slot_other: "list_all (\<lambda>e. slot_write d i e = None) es \<Longrightarrow> hw_slot (es @ h) d i = hw_slot h d i"
  by (induction es) simp_all

lemma hw_slot_devs_other:
  "(\<And>d'. slot_write d i (call d') = None) \<Longrightarrow> hw_slot (dev_writes E call @ h) d i = hw_slot h d i"
  by (rule hw_slot_other) (simp add: dev_writes_def list_all_iff)

lemma hw_slot_rev_writes:
  "distinct ds \<Longrightarrow> d \<in> set ds \<Longrightarrow> (\<And>d'. slot_write d i (call d') = (if d' = d then Some r else None)) \<Longrightarrow>
     hw_slot (map call ds @ h) d i = r"
  by (induction ds) auto

lemma hw_slot_devs:
  "d < e_ndevs E \<Longrightarrow> (\<And>d'. slot_write d i (call d') = (if d' = d then Some r else None)) \<Longrightarrow>
     hw_slot (dev_writes E call @ h) d i = r"
  unfolding dev_writes_def rev_map by (rule hw_slot_rev_writes) auto

text \<open>Writes of other kinds.\<close>

lemma slot_write_aside: "aside_effect e \<Longrightarrow> slot_write d i e = None"
  by (auto simp: aside_effect_def slot_write_def split: effect.splits fdb_effect.splits)

lemma hw_image_same: "dev_map t = dev_map s \<Longrightarrow> hw_image t = hw_image s"
  by (simp add: hw_image_def phys_dev_def fun_eq_iff)

lemma fdb_mirrored_step:
  assumes m: "fdb_mirrored E s" and map: "dev_map t = dev_map s"
    and step: "\<And>i d. i < FDB_MAX_ADDRS \<Longrightarrow> fe_valid (fdb t i) \<Longrightarrow> d < e_ndevs E \<Longrightarrow>
      hw_slot (hw t) d i = Some (hw_image s d (fe_me (fdb t i))) \<or>
      fe_valid (fdb s i) \<and> fe_me (fdb t i) = fe_me (fdb s i) \<and> hw_slot (hw t) d i = hw_slot (hw s) d i"
  shows "fdb_mirrored E t"
  unfolding fdb_mirrored_def hw_image_same [OF map]
proof (intro allI impI)
  fix d i assume "d < e_ndevs E" "i < FDB_MAX_ADDRS" "fe_valid (fdb t i)"
  with step m show "hw_slot (hw t) d i = Some (hw_image s d (fe_me (fdb t i)))"
    unfolding fdb_mirrored_def by metis
qed

lemma mirrored_aside:
  assumes a: "aside s t" and m: "fdb_mirrored E s"
  shows "fdb_mirrored E t"
proof (rule fdb_mirrored_step [OF m])
  show "dev_map t = dev_map s" using a by (simp add: aside_def same_ports_def)
  from a obtain es where es: "hw t = es @ hw s" "list_all aside_effect es" "fdb t = fdb s" by (auto simp: aside_def)
  have "list_all (\<lambda>e. slot_write d i e = None) es" for d i
    using es(2) by (rule list.pred_mono_strong) (simp add: slot_write_aside)
  then show "hw_slot (hw t) d i = Some (hw_image s d (fe_me (fdb t i))) \<or>
      fe_valid (fdb s i) \<and> fe_me (fdb t i) = fe_me (fdb s i) \<and> hw_slot (hw t) d i = hw_slot (hw s) d i"
    if "fe_valid (fdb t i)" for i d
    using es that by (simp add: hw_slot_other)
qed

text \<open>Port security writes no slot.\<close>

lemma hw_slot_emit [simp]: "slot_write d i e = None \<Longrightarrow> hw_slot (hw (emit e s)) d i = hw_slot (hw s) d i"
  by (simp add: emit_def)

lemma slot_write_psec [simp]:
  "slot_write d i (Fd (FdbPortLearnStatusSet d' p' c)) = None" "slot_write d i (Fd (FdbNaToCpuPerPortSet d' p' b)) = None"
  "slot_write d i (Fd (SecurBreachNaPerPortSet d' p' b)) = None" "slot_write d i (Fd (FdbHashCalc k)) = None"
  by (simp_all add: slot_write_def)

lemma hw_slot_na_enable [simp]: "hw_slot (hw (snd (sec_port_na_enable E j b s))) d i = hw_slot (hw s) d i"
  by (simp add: snd_sec_port_na_enable)

lemma hw_slot_learning [simp]:
  "hw_slot (hw (psec_disable_learning E j s)) d i = hw_slot (hw s) d i"
  "hw_slot (hw (psec_enable_learning E j s)) d i = hw_slot (hw s) d i"
  by (simp_all add: psec_disable_learning_def psec_enable_learning_def Let_def split: psec_action.split)

lemma hw_slot_limit [simp]:
  "hw_slot (hw (psec_limit_reached E j s)) d i = hw_slot (hw s) d i"
  "hw_slot (hw (psec_limit_left E j s)) d i = hw_slot (hw s) d i"
  by (simp_all add: psec_limit_reached_def psec_limit_left_def)

lemma hw_slot_addr_del_port [simp]: "hw_slot (hw (psec_addr_del_port E j s)) d i = hw_slot (hw s) d i"
  by (simp add: psec_addr_del_port_def Let_def)

lemma hw_slot_addr_del [simp]: "hw_slot (hw (psec_addr_del E me s)) d i = hw_slot (hw s) d i"
  by (simp add: psec_addr_del_def split: option.split)

lemma hw_slot_addr_check [simp]: "hw_slot (hw (snd (psec_addr_check E old new fake s))) d i = hw_slot (hw s) d i"
  by (simp add: psec_addr_check_def Let_def split: option.split)

lemma hw_slot_after_flush [simp]: "hw_slot (hw (psec_after_flush E s)) d i = hw_slot (hw s) d i"
proof -
  have "hw_slot (hw (fold (\<lambda>j s. let s = (if psec_naddrs (psec s j) < 0 then psec_upd j (\<lambda>p. p\<lparr>psec_naddrs := 0\<rparr>) s else s) in
        if psec_enabled (psec s j) \<and> psec_naddrs (psec s j) < psec_max_addrs (psec s j) then psec_limit_left E j s else s) js s)) d i
      = hw_slot (hw s) d i" for js
    by (induction js arbitrary: s) (simp_all add: Let_def)
  then show ?thesis by (simp add: psec_after_flush_def)
qed

text \<open>Each operation on the table writes what it changes.\<close>

lemma mirrored_flaps:
  assumes "fdb_mirrored E s" "flaps_only (fdb s) (fdb t)" "dev_map t = dev_map s"
    and "\<And>d i. hw_slot (hw t) d i = hw_slot (hw s) d i"
  shows "fdb_mirrored E t"
  by (rule fdb_mirrored_step [OF assms(1,3)]) (use assms(4) flaps_onlyD [OF assms(2)] in simp)

lemma mirrored_store:
  assumes m: "fdb_mirrored E s" and own: "own = (me_userDefined e = FEP_OWN)"
  shows "fdb_mirrored E (fdb_store E e own secure ts k s)"
proof (rule fdb_mirrored_step [OF m])
  let ?t = "fdb_store E e own secure ts k s"
  let ?call = "\<lambda>d. Fd (FdbMacEntryWrite d k (hw_image s d e))"
  have hw: "hw ?t = dev_writes E ?call @ hw s"
    using own by (simp add: fdb_store_def hw_image_def phys_dev_def fdb_upd_def)
  show "dev_map ?t = dev_map s" by (simp add: fdb_store_def)
  fix i d assume d: "d < e_ndevs E"
  have "hw_slot (hw ?t) d i = (if i = k then Some (hw_image s d e) else hw_slot (hw s) d i)"
    unfolding hw by (cases "i = k") (simp_all add: hw_slot_devs [OF d] hw_slot_devs_other slot_write_def)
  then show "hw_slot (hw ?t) d i = Some (hw_image s d (fe_me (fdb ?t i))) \<or>
      fe_valid (fdb s i) \<and> fe_me (fdb ?t i) = fe_me (fdb s i) \<and> hw_slot (hw ?t) d i = hw_slot (hw s) d i"
    if "fe_valid (fdb ?t i)"
    using that by (cases "i = k") simp_all
qed

lemma mirrored_insert:
  assumes m: "fdb_mirrored E s" and own: "own = (me_userDefined e = FEP_OWN)"
  shows "fdb_mirrored E (snd (fdb_insert E F e own secure fake ts s))"
proof -
  let ?s = "emit (Fd (FdbHashCalc (me_key e))) s"
  obtain r t where scan: "fdb_scan ts e (bucket F (me_key e)) None (me_userDefined e) ?s = (r, t)" by fastforce
  have same: "flaps_only (fdb s) (fdb t)" "dev_map t = dev_map s" "\<And>d i. hw_slot (hw t) d i = hw_slot (hw s) d i"
    using fdb_scan_state [OF scan] table_onlyD [of ?s t] by (auto simp: emit_def)
  have t: "fdb_mirrored E t" by (rule mirrored_flaps [OF m same])
  have e: "fdb_mirrored E ?s" by (rule mirrored_flaps [OF m]) (simp_all add: emit_def)
  have put: "fdb_mirrored E (snd (case psec_addr_check E old e fk t of (PAS_LIMIT, s) \<Rightarrow> (ST_BAD_STATE, s)
      | (PAS_OK, s) \<Rightarrow> (ST_OK, if fake then s else fdb_store E e own secure ts k s)))" for old fk k
  proof -
    obtain p v where v: "psec_addr_check E old e fk t = (p, v)" by fastforce
    have "fdb_mirrored E v"
      using psec_frame_fdb [OF psec_frame_addr_check [OF psec_frame_refl], of E old e fk t]
        psec_frameD(6) [OF psec_frame_addr_check [OF psec_frame_refl], of E old e fk t]
        hw_slot_addr_check [of E old e fk t]
      by (intro mirrored_flaps [OF t]) (simp_all add: v)
    then show ?thesis using own by (simp add: v mirrored_store split: psec_addr_status.split)
  qed
  show ?thesis
    unfolding fdb_insert_def crp_def case_prod_conv scan
    by (cases r) (auto simp: e t put split: option.split prod.split)
qed

lemma mirrored_clear:
  assumes m: "fdb_mirrored E s" and t: "fdb t = (fdb s)(k := f)" "\<not> fe_valid f" and map: "dev_map t = dev_map s"
    and hw: "\<And>d i. i \<noteq> k \<Longrightarrow> hw_slot (hw t) d i = hw_slot (hw s) d i"
  shows "fdb_mirrored E t"
  by (rule fdb_mirrored_step [OF m map]) (use t hw in \<open>auto split: if_splits\<close>)

lemma mirrored_remove:
  assumes m: "fdb_mirrored E s"
  shows "fdb_mirrored E (snd (fdb_remove E F k sid s))"
proof -
  let ?s = "emit (Fd (FdbHashCalc k)) s"
  obtain r t where slot: "fdb_slot F k ?s = (r, t)" by fastforce
  have e: "fdb_mirrored E ?s" by (rule mirrored_flaps [OF m]) (simp_all add: emit_def)
  have t: "fdb_mirrored E t"
    using fdb_slot_state [OF slot] table_onlyD [of ?s t] by (intro mirrored_flaps [OF m]) (auto simp: emit_def)
  have upd: "fdb_mirrored E (fdb_upd j (\<lambda>f. f\<lparr>pc_aging_status := a\<rparr>) u)" if "fdb_mirrored E u" for j a u
    by (rule fdb_mirrored_step [OF that]) (auto split: if_splits)
  have del: "fdb_mirrored E (fdb_clear j (snd (for_each_dev E (\<lambda>d. Fd (FdbMacEntryInvalidate d j)) (psec_addr_del E me u))))"
    if u: "fdb_mirrored E u" for j me u
  proof (rule mirrored_clear [OF u])
    have fr: "psec_frame u (psec_addr_del E me u)" by (rule psec_frame_addr_del [OF psec_frame_refl])
    show "fdb (fdb_clear j (snd (for_each_dev E (\<lambda>d. Fd (FdbMacEntryInvalidate d j)) (psec_addr_del E me u)))) =
        (fdb u)(j := clear_entry (fdb u j))"
      using psec_frame_fdb [OF fr] by (simp add: fdb_clear_def clear_entry_def)
    show "dev_map (fdb_clear j (snd (for_each_dev E (\<lambda>d. Fd (FdbMacEntryInvalidate d j)) (psec_addr_del E me u)))) = dev_map u"
      using psec_frameD(6) [OF fr] by (simp add: fdb_clear_def)
    show "hw_slot (hw (fdb_clear j (snd (for_each_dev E (\<lambda>d. Fd (FdbMacEntryInvalidate d j)) (psec_addr_del E me u))))) d i =
        hw_slot (hw u) d i" if "i \<noteq> j" for d i
      using that by (simp add: fdb_clear_def hw_slot_devs_other slot_write_def)
  qed (simp add: clear_entry_def)
  show ?thesis
    unfolding fdb_remove_def crp_def case_prod_conv slot
    by (cases r) (simp_all add: Let_def e t upd del [simplified])
qed

interpretation mirror_kept: fdb_kept "fdb_mirrored E" E F for E F
proof
  show "fdb_mirrored E (fdb_flush_entry E j s)" if m: "fdb_mirrored E s" for s :: "'a fdb_st_scheme" and j
  proof (rule mirrored_clear [OF m fdb_flush_entry_fdb])
    show "dev_map (fdb_flush_entry E j s) = dev_map s"
      using psec_frameD(6) [OF psec_frame_addr_del [OF psec_frame_refl]] by (simp add: fdb_flush_entry_def fdb_clear_def)
  qed (simp_all add: clear_entry_def fdb_flush_entry_def fdb_clear_def)
  show "fdb_mirrored E (psec_after_flush E s)" if m: "fdb_mirrored E s" for s :: "'a fdb_st_scheme"
    using psec_frameD(6) [OF psec_frame_after_flush [OF psec_frame_refl]]
    by (intro mirrored_flaps [OF m]) (simp_all add: psec_after_flush_fdb)
qed (auto intro: mirrored_aside mirrored_insert mirrored_remove)

section \<open>Reachable states\<close>

text \<open>The configuration of port security leaves the table alone: what does not depend on the
  settings is kept by every step.\<close>

lemma psec_frame_sec:
  assumes "psec_frame s t"
  shows "psec_frame s (sec_port_na_delay_set k n t)" "psec_frame s (sec_moved_static_delay_set k n t)"
    "psec_frame s (sec_port_enable k b t)" "psec_frame s (psec_program E i t)"
  using assms psec_frame_trans [OF assms psec_frame_program]
  by (auto simp: sec_port_na_delay_set_def sec_moved_static_delay_set_def sec_port_enable_def)

lemma psec_config_frame:
  "psec_frame s (snd (psec_enable E pid enable act intv s))" "psec_frame s (snd (psec_set_mode pid mode s))"
  "psec_frame s (snd (psec_set_max_addrs F pid n s))" "psec_frame s (snd (port_fdb_new_addr_notify pid b s))"
  "psec_frame s (snd (port_fdb_addr_op_notify pid b s))"
proof -
  have "psec_frame s (sec_port_enable k b (sec_moved_static_delay_set k n (sec_port_na_delay_set k n (psec_upd i f s))))" for k b n i f
    by (intro psec_frame_sec) auto
  then show "psec_frame s (snd (psec_enable E pid enable act intv s))"
    by (simp add: psec_enable_def Let_def psec_frame_sec split: option.split)
qed (auto simp: psec_set_mode_def psec_set_max_addrs_def port_fdb_new_addr_notify_def
    port_fdb_addr_op_notify_def split: option.split)

lemma hw_slot_config [simp]:
  "hw_slot (hw (snd (psec_enable E pid enable act intv s))) d i = hw_slot (hw s) d i"
  "hw_slot (hw (snd (psec_set_mode pid mode s))) d i = hw_slot (hw s) d i"
  "hw_slot (hw (snd (psec_set_max_addrs F pid n s))) d i = hw_slot (hw s) d i"
  "hw_slot (hw (snd (port_fdb_new_addr_notify pid b s))) d i = hw_slot (hw s) d i"
  "hw_slot (hw (snd (port_fdb_addr_op_notify pid b s))) d i = hw_slot (hw s) d i"
proof -
  have storm: "slot_write d i (Fd (FdbNaStormPreventSet d' p b)) = None" for d' p b by (simp add: slot_write_def)
  have program: "hw_slot (hw (psec_program E k u)) d i = hw_slot (hw u) d i" for k u
    by (simp add: psec_program_def Let_def storm split: psec_mode.split)
  have sec: "hw (sec_port_na_delay_set k n u) = hw u" "hw (sec_moved_static_delay_set k n u) = hw u"
    "hw (sec_port_enable k b u) = hw u" for k n b u
    by (simp_all add: sec_port_na_delay_set_def sec_moved_static_delay_set_def sec_port_enable_def crash_def)
  show "hw_slot (hw (snd (psec_enable E pid enable act intv s))) d i = hw_slot (hw s) d i"
    by (simp add: psec_enable_def Let_def program sec split: option.split)
qed (simp_all add: psec_set_mode_def psec_set_max_addrs_def port_fdb_new_addr_notify_def port_fdb_addr_op_notify_def
    split: option.split)

locale fdb_table_kept = fdb_kept +
  assumes config: "psec_frame s t \<Longrightarrow> (\<And>d i. hw_slot (hw t) d i = hw_slot (hw s) d i) \<Longrightarrow> P s \<Longrightarrow> P t"
begin

lemma fdb_step: "P s \<Longrightarrow> P (fdb_step E F r s)"
  unfolding fdb_step_def
  by (cases r) (auto intro: config [OF psec_config_frame(1)] config [OF psec_config_frame(2)] config [OF psec_config_frame(3)]
      config [OF psec_config_frame(4)] config [OF psec_config_frame(5)] mac_step)

lemma fdb_run: "P s \<Longrightarrow> P (fdb_run E F rs s)"
  unfolding fdb_run_def by (induction rs arbitrary: s) (simp_all add: fdb_step)

end

interpretation keys_table: fdb_table_kept "\<lambda>s. keys_ok F (fdb s)" E F for E F
  by unfold_locales (simp add: psec_frame_fdb)

interpretation mirror_table: fdb_table_kept "fdb_mirrored E" E F for E F
proof unfold_locales
  fix s t :: "'a fdb_st_scheme"
  assume f: "psec_frame s t" and hw: "\<And>d i. hw_slot (hw t) d i = hw_slot (hw s) d i" and m: "fdb_mirrored E s"
  show "fdb_mirrored E t"
    using psec_frame_fdb [OF f] psec_frameD(6) [OF f] by (intro mirrored_flaps [OF m _ _ hw]) simp_all
qed

text \<open>The ports of the unit never change.\<close>

lemma same_ports_insert: "same_ports s (snd (fdb_insert E F e own secure fake ts s))"
proof -
  let ?s = "emit (Fd (FdbHashCalc (me_key e))) s"
  obtain r t where scan: "fdb_scan ts e (bucket F (me_key e)) None (me_userDefined e) ?s = (r, t)" by fastforce
  have e: "same_ports s ?s" by (simp add: same_ports_def emit_def)
  have t: "same_ports s t"
    using fdb_scan_state [OF scan] table_onlyD [of ?s t] by (auto simp: same_ports_def emit_def)
  have put: "same_ports s (snd (case psec_addr_check E old e fk t of (PAS_LIMIT, s) \<Rightarrow> (ST_BAD_STATE, s)
      | (PAS_OK, s) \<Rightarrow> (ST_OK, if fake then s else fdb_store E e own secure ts k s)))" for old fk k
  proof -
    obtain p v where v: "psec_addr_check E old e fk t = (p, v)" by fastforce
    have "same_ports s v"
      using same_ports_trans [OF t psec_frame_same_ports [OF psec_frame_addr_check [OF psec_frame_refl]], of E old e fk]
      by (simp add: v)
    then show ?thesis
      by (auto simp: v intro: same_ports_trans fdb_store_simps(3) split: psec_addr_status.split)
  qed
  show ?thesis
    unfolding fdb_insert_def crp_def case_prod_conv scan
    by (cases r) (auto simp: e t put split: option.split prod.split)
qed

lemma same_ports_del: "same_ports s t \<Longrightarrow> same_ports s (fdb_clear j (psec_addr_del E me t)) \<and>
    same_ports s (fdb_clear j (psec_addr_del E me t\<lparr>hw := h\<rparr>))"
  using psec_frame_same_ports [OF psec_frame_addr_del [OF psec_frame_refl], of t E me]
  by (auto simp: same_ports_def fdb_clear_def)

lemma same_ports_remove: "same_ports s (snd (fdb_remove E F k sid s))"
proof -
  let ?s = "emit (Fd (FdbHashCalc k)) s"
  obtain r t where slot: "fdb_slot F k ?s = (r, t)" by fastforce
  have e: "same_ports s ?s" by (simp add: same_ports_def emit_def)
  have t: "same_ports s t"
    using fdb_slot_state [OF slot] table_onlyD [of ?s t] by (auto simp: same_ports_def emit_def)
  have upd: "same_ports s (fdb_upd j f u)" if "same_ports s u" for j f u using that by (simp add: same_ports_def)
  show ?thesis
    unfolding fdb_remove_def crp_def case_prod_conv slot
    by (cases r) (simp_all add: Let_def e t upd same_ports_del)
qed

interpretation ports_table: fdb_table_kept "same_ports s0" E F for s0 E F
  by unfold_locales
    (auto simp: aside_def fdb_flush_entry_def same_ports_del
      intro: same_ports_trans same_ports_insert same_ports_remove psec_frame_same_ports psec_frame_after_flush)

lemma boot_keys: "fdb_boot s \<Longrightarrow> keys_ok F (fdb (fdb_run E F rs s))"
  by (rule keys_table.fdb_run) (simp add: fdb_boot_def keys_ok_def)

lemma boot_mirrored: "fdb_boot s \<Longrightarrow> fdb_mirrored E (fdb_run E F rs s)"
  by (rule mirror_table.fdb_run) (simp add: fdb_boot_def fdb_mirrored_def)

lemma boot_run_inv: "fdb_boot s \<Longrightarrow> fdb_inv (fdb_run E F rs s)"
  by (rule fdb_run_inv [OF fdb_boot_inv])

lemma run_ports [simp]: "ports (fdb_run E F rs s) = ports s"
  using ports_table.fdb_run [of s s E F rs] by (simp add: same_ports_def)

end
