(* ===== verification/Fdb_Props.thy ===== *)
theory Fdb_Props
  imports Fdb_Reach
begin

text \<open>
  Properties of the MAC table and of port security in every state that requests, messages of
  other units, hardware updates and configuration changes can reach from the start.
\<close>

section \<open>A unit with two ports\<close>

lemma fdb_max_code [code_unfold]: "i < FDB_MAX_ADDRS \<longleftrightarrow> int i < 16384"
  by (simp add: FDB_MAX_ADDRS_def)

definition fdb_port :: "nat \<Rightarrow> port" where
  "fdb_port n = \<lparr>pt_ldev = 0, pt_lport = n, stacking = False, pt_mode = PM_ACCESS, pt_access_vid = 1,
     pt_native_vid = 1, pt_customer_vid = 1, pt_voice_vid = 0, tallow = (\<lambda>_. False), refc = (\<lambda>_. 0)\<rparr>"

definition sec0 :: port_sec where
  "sec0 = \<lparr>psec_enabled = False, psec_action = PSECA_FORWARD, psec_trap_interval = 30, psec_mode = PSECM_LOCK,
     psec_max_addrs = 1, psec_naddrs = 0, fdb_new_addr_notify_enabled = False, fdb_addr_op_notify_enabled = False,
     fdb_insertion_enabled = True\<rparr>"

definition delay0 :: sb_delay where
  "delay0 = \<lparr>port_enabled = False, port_na_enabled = False, port_na_blocked = False, tdelay_sb_port_na = 30000,
     tdelay_sb_moved_static = 30000, tst_port_na = 0, tst_moved_static = 0\<rparr>"

definition entry0 :: fdb_entry where
  "entry0 = \<lparr>fe_valid = False, fe_secure = False, pc_aging_status = 0, ts_addr_change = 0, addr_flaps = 0, fe_me = me_zero\<rparr>"

definition fdb0 :: fdb_st where
  "fdb0 = psec_st.extend (vif_st.extend (vif_st.truncate (vif0\<lparr>ports := [fdb_port 0, fdb_port 1]\<rparr>))
       (psec_st.fields (\<lambda>d p. if p < 2 then of_nat p + 1 else 0) (\<lambda>_. sec0) (\<lambda>_. delay0)))
     (fdb_st.fields (\<lambda>_. entry0) FST_MASTER 0 0 0 0 0 (\<lambda>d p. Some (\<lparr>vif_type = 0, vif_dev = 0, vif_num = 0\<rparr>, False)))"

text \<open>A library where every key hashes to the first bucket and a flush is done when polled.\<close>

definition fenv0 :: fdb_env where
  "fenv0 = \<lparr>v_hash = (\<lambda>_. 0), v_macvlan = (\<lambda>_. (0, [])),
     v_regs = (\<lambda>_ _. \<lparr>fr_act_mode = AGE_WITH_REMOVAL, fr_mac_mode = 0, fr_act_dev = (0, 0), fr_act_vid = (0, 0),
        fr_is_trunk = (0, 0), fr_port = (0, 0)\<rparr>),
     v_act_mode = (\<lambda>_ _. AGE_WITH_REMOVAL), v_trig_done = (\<lambda>_ _. True), v_flush_polls = 1, v_aging_get = (\<lambda>_ _. 300),
     v_breach = (\<lambda>_ _. \<lparr>sb_code = BREACH_PORT_NA, sb_port = 0, sb_vlan = 1, sb_mac = []\<rparr>),
     v_psec_addrs_min = 1, v_psec_addrs_max = 8192, v_fdb_nrec = 2, v_routes = (\<lambda>_. None), v_udaddrs = (\<lambda>_. None)\<rparr>"

lemma fdb0_boot: "fdb_boot fdb0"
  by (simp add: fdb_boot_def ports_distinct_def fdb0_def vif0_def sw0_def sw.defs vif_st.defs psec_st.defs fdb_st.defs
      fdb_port_def entry0_def sec0_def)

definition mac_request :: "nat \<Rightarrow> u16 \<Rightarrow> mac_entry_type \<Rightarrow> fdb_req" where
  "mac_request n port type = MacRequest (CtlRequest (FCC_MAC_OP
     \<lparr>ma_mac = [0, 0, 0, 0, 0, of_nat n], ma_vid = 1, ma_port = port, ma_drop = False, ma_type = type, ma_delete = False\<rparr>) 0)"

definition secure_reqs :: "fdb_req list" where
  "secure_reqs = [PsecSetMode 1 PSECM_MAX_ADDRS, PsecSetMaxAddrs 1 2, PsecEnable 1 True PSECA_RESTRICT 0]"

definition add_req :: "nat \<Rightarrow> mac_req" where
  "add_req n = CtlRequest (FCC_MAC_OP
     \<lparr>ma_mac = [0, 0, 0, 0, 0, of_nat n], ma_vid = 1, ma_port = 1, ma_drop = False, ma_type = MET_DYNAMIC, ma_delete = False\<rparr>) 0"

definition full_bucket :: "fdb_req list" where
  "full_bucket = [mac_request 1 1 MET_DYNAMIC, mac_request 2 1 MET_STATIC, mac_request 3 2 MET_DYNAMIC, mac_request 4 2 MET_STATIC]"

section \<open>Port security\<close>

lemma port_addrs_slots: "port_addrs t i = {j. j < FDB_MAX_ADDRS \<and> fe_valid (fdb t j) \<and> entry_port (fe_me (fdb t j)) t = Some i}"
  by (auto simp: port_addrs_def slot_port_def split: if_splits)

text \<open>C6. In every state reached without undefined behaviour (a run whose flag \<open>crashed\<close> is not set: no
  entry of a local port is replaced by one that is on no local port, where \<open>psec_addr_check\<close> returns an
  uninitialised status) the address count of a port is the number of entries of the MAC table that
  point to it.\<close>

theorem psec_counts_exact:
  assumes "fdb_boot s" "i < length (ports s)" "\<not> crashed (fdb_run E F rs s)"
  shows "psec_naddrs (psec (fdb_run E F rs s) i) =
    int (card {j. j < FDB_MAX_ADDRS \<and> fe_valid (fdb (fdb_run E F rs s) j) \<and>
                  entry_port (fe_me (fdb (fdb_run E F rs s) j)) (fdb_run E F rs s) = Some i})"
proof -
  have "psec_counted (fdb_run E F rs s)" using boot_run_inv [OF assms(1)] by (simp add: fdb_inv_def)
  then show ?thesis using assms(2) by (simp add: psec_counted_def port_addrs_slots)
qed

theorem psec_counts_exact_witness:
  "card {j. j < FDB_MAX_ADDRS \<and> fe_valid (fdb (fdb_run env0 fenv0 [mac_request 1 1 MET_DYNAMIC] fdb0) j) \<and>
      entry_port (fe_me (fdb (fdb_run env0 fenv0 [mac_request 1 1 MET_DYNAMIC] fdb0) j))
        (fdb_run env0 fenv0 [mac_request 1 1 MET_DYNAMIC] fdb0) = Some 0} = 1"
proof -
  have "psec_naddrs (psec (fdb_run env0 fenv0 [mac_request 1 1 MET_DYNAMIC] fdb0) 0) = 1" by code_simp
  moreover have "0 < length (ports fdb0)" by code_simp
  moreover have "\<not> crashed (fdb_run env0 fenv0 [mac_request 1 1 MET_DYNAMIC] fdb0)" by code_simp
  ultimately show ?thesis using psec_counts_exact [OF fdb0_boot, of 0 env0 fenv0 "[mac_request 1 1 MET_DYNAMIC]"] by simp
qed

text \<open>C8. In every reachable state a port with security on has the CPU told of new addresses
  exactly while it may learn: in the mode that counts addresses, below its limit.\<close>

theorem psec_learning_programmed:
  assumes "fdb_boot s" "i < length (ports s)" "psec_enabled (psec (fdb_run E F rs s) i)"
  shows "port_na (fdb_run E F rs s) i =
    Some (psec_mode (psec (fdb_run E F rs s) i) = PSECM_MAX_ADDRS \<and>
      psec_naddrs (psec (fdb_run E F rs s) i) < psec_max_addrs (psec (fdb_run E F rs s) i))"
  using boot_run_inv [OF assms(1), of E F rs] assms(2,3)
  by (simp add: fdb_inv_def learn_synced_def port_synced_def learns_def)

theorem psec_learning_programmed_witness:
  "port_na (fdb_run env0 fenv0 secure_reqs fdb0) 0 = Some True \<and>
   port_na (fdb_run env0 fenv0 [PsecEnable 2 True PSECA_FORWARD 0] fdb0) 1 = Some False"
proof -
  have l: "0 < length (ports fdb0)" "1 < length (ports fdb0)" by code_simp+
  have "psec_enabled (psec (fdb_run env0 fenv0 secure_reqs fdb0) 0)"
    "psec_mode (psec (fdb_run env0 fenv0 secure_reqs fdb0) 0) = PSECM_MAX_ADDRS"
    "psec_naddrs (psec (fdb_run env0 fenv0 secure_reqs fdb0) 0) < psec_max_addrs (psec (fdb_run env0 fenv0 secure_reqs fdb0) 0)"
    by code_simp+
  moreover have "psec_enabled (psec (fdb_run env0 fenv0 [PsecEnable 2 True PSECA_FORWARD 0] fdb0) 1)"
    "psec_mode (psec (fdb_run env0 fenv0 [PsecEnable 2 True PSECA_FORWARD 0] fdb0) 1) = PSECM_LOCK"
    by code_simp+
  ultimately show ?thesis
    using psec_learning_programmed [OF fdb0_boot l(1), of env0 fenv0 secure_reqs]
      psec_learning_programmed [OF fdb0_boot l(2), of env0 fenv0 "[PsecEnable 2 True PSECA_FORWARD 0]"] by simp
qed

text \<open>C16. While the security of a port is on, no sequence of requests, messages of other units and
  hardware updates that runs without undefined behaviour (see C6) raises the number of addresses the
  MAC table has on it above its limit (or above the number it had when that was larger), nor the
  port's count of them.\<close>

theorem psec_limit_respected:
  assumes "fdb_boot s" "i < length (ports s)" "psec_enabled (psec (fdb_run E F cfg s) i)"
    and t: "t = mac_run E F rs (fdb_run E F cfg s)" "\<not> crashed t"
  shows "psec_enabled (psec t i) \<and>
    psec_naddrs (psec t i) \<le> max (psec_max_addrs (psec (fdb_run E F cfg s) i)) (psec_naddrs (psec (fdb_run E F cfg s) i)) \<and>
    psec_naddrs (psec t i) =
      int (card {j. j < FDB_MAX_ADDRS \<and> fe_valid (fdb t j) \<and> entry_port (fe_me (fdb t j)) t = Some i})"
proof -
  let ?s = "fdb_run E F cfg s"
  let ?m = "psec_max_addrs (psec ?s i)" and ?n = "psec_naddrs (psec ?s i)"
  have inv: "fdb_inv ?s" by (rule boot_run_inv [OF assms(1)])
  then have "0 \<le> ?n" using assms(2) by (simp add: fdb_inv_def psec_counted_def)
  then have "limited i ?m (max ?m ?n) ?s" using assms(3) by (auto simp: limited_def)
  from limit_kept.mac_run [OF this] have "limited i ?m (max ?m ?n) t" by (simp only: t)
  moreover have "psec_counted t" using psec_kept.mac_run [OF inv] by (simp add: t fdb_inv_def)
  moreover have "same_ports ?s t"
    using ports_table.mac_run [of ?s ?s] by (simp add: t same_ports_def)
  ultimately show ?thesis using assms(2) by (simp add: limited_def psec_counted_def port_addrs_slots same_ports_def)
qed

theorem psec_limit_respected_witness:
  "card {j. j < FDB_MAX_ADDRS \<and>
      fe_valid (fdb (mac_run env0 fenv0 [add_req 1, add_req 2, add_req 3] (fdb_run env0 fenv0 secure_reqs fdb0)) j) \<and>
      entry_port (fe_me (fdb (mac_run env0 fenv0 [add_req 1, add_req 2, add_req 3] (fdb_run env0 fenv0 secure_reqs fdb0)) j))
        (mac_run env0 fenv0 [add_req 1, add_req 2, add_req 3] (fdb_run env0 fenv0 secure_reqs fdb0)) = Some 0} \<le> 2"
proof -
  have l: "0 < length (ports fdb0)" by code_simp
  have "\<not> crashed (mac_run env0 fenv0 [add_req 1, add_req 2, add_req 3] (fdb_run env0 fenv0 secure_reqs fdb0))"
    by code_simp
  moreover have "psec_enabled (psec (fdb_run env0 fenv0 secure_reqs fdb0) 0)"
    "psec_naddrs (psec (fdb_run env0 fenv0 secure_reqs fdb0) 0) = 0"
    "psec_max_addrs (psec (fdb_run env0 fenv0 secure_reqs fdb0) 0) = 2"
    by code_simp+
  ultimately show ?thesis
    using psec_limit_respected [OF fdb0_boot l _ refl, of env0 fenv0 secure_reqs "[add_req 1, add_req 2, add_req 3]"] by simp
qed

section \<open>The table as a map\<close>

text \<open>C15. In every reachable state an insertion that succeeds enters exactly its key and displaces at
  most one other entry, of a lower priority; a refused one changes no lookup.\<close>

theorem fdb_insert_updates_map:
  assumes "fdb_boot s" "t = fdb_run E F rs s" "fdb_insert E F e own secure False ts t = (st, u)"
  shows "if st = ST_OK then
      \<exists>victim. fdb_lookup F (fdb u) =
          (\<lambda>k. if k = me_key e then Some e else if victim = Some k then None else fdb_lookup F (fdb t) k) \<and>
        (\<forall>k m. victim = Some k \<and> fdb_lookup F (fdb t) k = Some m \<longrightarrow> me_userDefined m < me_userDefined e)
    else fdb_lookup F (fdb u) = fdb_lookup F (fdb t)"
proof (cases "st = ST_OK")
  case True
  have "keys_ok F (fdb t)" using boot_keys [OF assms(1)] assms(2) by simp
  from fdb_insert_map [OF this assms(3) [unfolded True]] True show ?thesis by fastforce
next
  case False
  with fdb_insert_refused [OF assms(3)] show ?thesis by simp
qed

theorem fdb_insert_updates_map_witness:
  "fdb_lookup fenv0 (fdb (snd (fdb_insert env0 fenv0 (me_own [0, 0, 0, 0, 0, 9] 1) True False False 0
     (fdb_run env0 fenv0 full_bucket fdb0)))) (MAC_ADDR 1 [0, 0, 0, 0, 0, 9]) = Some (me_own [0, 0, 0, 0, 0, 9] 1)"
proof -
  let ?t = "fdb_run env0 fenv0 full_bucket fdb0"
  let ?r = "fdb_insert env0 fenv0 (me_own [0, 0, 0, 0, 0, 9] 1) True False False 0 ?t"
  have "fst ?r = ST_OK" by code_simp
  then have "?r = (ST_OK, snd ?r)" by (simp add: prod_eq_iff)
  from fdb_insert_updates_map [OF fdb0_boot refl this] show ?thesis by (auto simp: me_own_def)
qed

text \<open>In every reachable state a removal that succeeds removes its key and nothing else; it
  answers that the key does not exist only when it does not, and a removal put off changes no lookup.\<close>

theorem fdb_remove_updates_map:
  assumes "fdb_boot s" "t = fdb_run E F rs s" "fdb_remove E F k sid t = (st, u)"
  shows "fdb_lookup F (fdb u) = (if st = ST_OK then (fdb_lookup F (fdb t))(k := None) else fdb_lookup F (fdb t)) \<and>
    (st = ST_DOES_NOT_EXIST \<longrightarrow> fdb_lookup F (fdb t) k = None) \<and> (st = ST_OK \<longrightarrow> fdb_lookup F (fdb t) k \<noteq> None)"
  using fdb_remove_map [OF boot_keys [OF assms(1), of F E rs] assms(3) [unfolded assms(2)]] assms(2) by simp

theorem fdb_remove_updates_map_witness:
  "fdb_lookup fenv0 (fdb (snd (fdb_remove env0 fenv0 (MAC_ADDR 1 [0, 0, 0, 0, 0, 1]) 16 (fdb_run env0 fenv0 full_bucket fdb0))))
     (MAC_ADDR 1 [0, 0, 0, 0, 0, 1]) = None"
proof -
  let ?r = "fdb_remove env0 fenv0 (MAC_ADDR 1 [0, 0, 0, 0, 0, 1]) 16 (fdb_run env0 fenv0 full_bucket fdb0)"
  have "fst ?r = ST_OK" by code_simp
  then have "?r = (ST_OK, snd ?r)" by (simp add: prod_eq_iff)
  from fdb_remove_updates_map [OF fdb0_boot refl this] show ?thesis by simp
qed

text \<open>What a flush request asks for: entries of the VLAN, if one is given; entries of the port, if one
  is given; static entries only on demand.\<close>

definition key_vid :: "fdb_key \<Rightarrow> vid" where
  "key_vid k = (case k of MAC_ADDR v a \<Rightarrow> v | IPV4_MCAST v a b \<Rightarrow> v | IPV6_MCAST v a b \<Rightarrow> v)"

definition on_port :: "nat \<Rightarrow> 'a vif_st_scheme \<Rightarrow> mac_entry \<Rightarrow> bool" where
  "on_port i s me \<longleftrightarrow> ci_devNum (me_dst me) = fst (phys_dev (pt_ldev (ports s ! i)) s) \<and>
     (ucast (ci_portNum (me_dst me)) :: u32) = of_nat (pt_lport (ports s ! i))"

definition flush_wanted :: "fdb_flush_arg \<Rightarrow> 'a fdb_st_scheme \<Rightarrow> mac_entry \<Rightarrow> bool" where
  "flush_wanted arg s me \<longleftrightarrow>
     (case aa_vid arg of None \<Rightarrow> True | Some v \<Rightarrow> key_vid (me_key me) = v) \<and>
     (case aa_port arg of
        None \<Rightarrow> True
      | Some pid \<Rightarrow> ci_type (me_dst me) = CPSS_IF_PORT \<and>
          (case port_ix pid s of None \<Rightarrow> False | Some i \<Rightarrow> on_port i s me)) \<and>
     (aa_ds arg \<or> \<not> me_isStatic me)"

text \<open>What the loop over the table takes: it reads the VLAN of any key as that of an address, and the port
  of any interface.\<close>

definition flush_takes :: "fdb_env \<Rightarrow> fdb_flush_arg \<Rightarrow> 'a fdb_st_scheme \<Rightarrow> mac_entry \<Rightarrow> bool" where
  "flush_takes F arg s me \<longleftrightarrow>
     (case aa_vid arg of None \<Rightarrow> True | Some v \<Rightarrow> fst (key_macvlan F (me_key me)) = v) \<and>
     (case aa_port arg of
        None \<Rightarrow> True
      | Some pid \<Rightarrow> (case port_ix pid s of None \<Rightarrow> False | Some i \<Rightarrow> on_port i s me)) \<and>
     (aa_ds arg \<or> \<not> me_isStatic me)"

text \<open>The entries for which the two are the same: a flush by VLAN is about addresses, a flush by port
  about entries whose interface is a port.\<close>

definition flush_applies :: "fdb_flush_arg \<Rightarrow> mac_entry \<Rightarrow> bool" where
  "flush_applies arg me \<longleftrightarrow>
     (aa_vid arg \<noteq> None \<longrightarrow> (case me_key me of MAC_ADDR v a \<Rightarrow> True | _ \<Rightarrow> False)) \<and>
     (aa_port arg \<noteq> None \<longrightarrow> ci_type (me_dst me) = CPSS_IF_PORT)"

lemma flush_takes_wanted: "flush_applies arg me \<Longrightarrow> flush_takes F arg s me = flush_wanted arg s me"
  by (auto simp: flush_takes_def flush_wanted_def flush_applies_def key_macvlan_def key_vid_def
      split: option.splits fdb_key.splits)

lemma ucast_dev: "(ucast (a :: u8) :: u32) = ucast b \<longleftrightarrow> a = b"
proof
  assume eq: "(ucast a :: u32) = ucast b"
  have "bit a n = bit b n" if "n < LENGTH(8)" for n
    using that bit_ucast_iff [where 'a = 32, of a n] bit_ucast_iff [where 'a = 32, of b n] by (simp add: eq)
  then show "a = b" by (intro bit_word_eqI) simp
qed simp

text \<open>Around its loop a flush leaves the table as it is.\<close>

lemma flush_around [simp]:
  "fdb (flush_end E r s) = fdb s" "fdb (psec_enable_na_sb_all E b s) = fdb s" "fdb (flush_wait_all E F s) = fdb s"
  "fdb (snd (flush_start E F dev vid trunk port ds s)) = fdb s" "fdb (snd (phys_dev d s)) = fdb s"
  "fdb (snd (vif_getn E v s)) = fdb s" "fdb (snd (fill_cpss_if w s)) = fdb s"
  by (simp_all add: aside_fdb [OF aside_flush_end] aside_fdb [OF aside_na_sb_all] aside_fdb [OF aside_flush_wait_all]
      aside_fdb [OF aside_flush_start] aside_fdb [OF aside_phys_dev] aside_fdb [OF vif_getn_aside] aside_fdb [OF fill_cpss_aside])

lemma flush_slots_cong: "fdb s = fdb t \<Longrightarrow> fdb (flush_slots E Q idxs s) = fdb (flush_slots E Q idxs t)"
  unfolding flush_slots_fdb by (simp only:)

lemma fdb_flush_table:
  assumes "fdb_flush E F arg t = (ST_OK, u)"
  shows "fdb u = fdb (flush_slots E (flush_takes F arg t) [0 ..< FDB_MAX_ADDRS] t)"
proof -
  obtain av where av: "flush_vid (aa_vid arg) = Some av"
    using assms by (cases "flush_vid (aa_vid arg)") (simp_all add: fdb_flush_def)
  then have vid: "(snd av \<noteq> 0 \<longrightarrow> x = fst av) \<longleftrightarrow> (case aa_vid arg of None \<Rightarrow> True | Some v \<Rightarrow> x = v)" for x
    by (auto simp: flush_vid_def split: option.splits if_splits)
  have go: "fdb (flush_slots E Q idxs (snd (flush_start E F dev av trunk port ds (psec_enable_na_sb_all E False x))))
      = fdb (flush_slots E Q idxs t)" if "fdb x = fdb t" for Q idxs dev trunk port ds x
    by (rule flush_slots_cong) (simp add: that)
  show ?thesis
  proof (cases "aa_port arg")
    case None
    have "flush_matches_port F av ((0, 0), (0, 0)) (aa_ds arg) = flush_takes F arg t"
      by (simp add: fun_eq_iff flush_matches_port_def flush_takes_def vid None)
    with assms None show ?thesis by (auto simp: fdb_flush_def av Let_def case_prod_beta psec_after_flush_fdb go)
  next
    case (Some pid)
    then obtain i where i: "port_ix pid t = Some i"
      using assms by (cases "port_ix pid t") (simp_all add: fdb_flush_def av)
    have "flush_matches_port F av ((ucast (fst (phys_dev (pt_ldev (ports t ! i)) t)), 31), (of_nat (pt_lport (ports t ! i)), 0x7F))
        (aa_ds arg) = flush_takes F arg t"
      by (simp add: fun_eq_iff flush_matches_port_def flush_takes_def on_port_def vid Some i ucast_dev)
    moreover have "ports (snd (phys_dev d t)) = ports t" for d by (simp add: phys_dev_def crash_def)
    ultimately show ?thesis using assms Some i by (auto simp: fdb_flush_def av Let_def case_prod_beta psec_after_flush_fdb go)
  qed
qed

lemma fdb_flush_ok:
  "flush_vid (aa_vid arg) \<noteq> None \<Longrightarrow> (\<And>pid. aa_port arg = Some pid \<Longrightarrow> port_ix pid t \<noteq> None) \<Longrightarrow> fst (fdb_flush E F arg t) = ST_OK"
  by (auto simp: fdb_flush_def Let_def case_prod_beta split: option.splits)

text \<open>C17. In every reachable state a flush by VLAN, port or both removes an entry exactly if the request
  asks for it, for every entry such a request is about: an address, if it names a VLAN, and on a
  port, if it names a port. Of no entry does it take more than the entry itself away, it enters none, and static
  entries stay unless asked for, whatever their key and interface.\<close>

theorem fdb_flush_removes_wanted:
  assumes "fdb_boot s" "t = fdb_run E F rs s" "fdb_flush E F arg t = (ST_OK, u)"
  shows "case fdb_lookup F (fdb t) k of
      None \<Rightarrow> fdb_lookup F (fdb u) k = None
    | Some m \<Rightarrow> fdb_lookup F (fdb u) k \<in> {None, Some m} \<and>
        (flush_applies arg m \<longrightarrow> (fdb_lookup F (fdb u) k = None \<longleftrightarrow> flush_wanted arg t m)) \<and>
        (me_isStatic m \<and> \<not> aa_ds arg \<longrightarrow> fdb_lookup F (fdb u) k = Some m)"
  using flush_slots_map [OF boot_keys [OF assms(1), of F E rs], of E "flush_takes F arg t" k]
    fdb_flush_table [OF assms(3)] flush_takes_wanted [of arg _ F t]
  unfolding assms(2) by (auto simp: flush_takes_def split: option.split)

theorem fdb_flush_removes_wanted_witness:
  "fdb_lookup fenv0 (fdb (snd (fdb_flush env0 fenv0 \<lparr>aa_vid = Some 1, aa_port = Some 1, aa_ds = False\<rparr>
      (fdb_run env0 fenv0 full_bucket fdb0)))) (MAC_ADDR 1 [0, 0, 0, 0, 0, 1]) = None"
proof -
  let ?arg = "\<lparr>aa_vid = Some 1, aa_port = Some 1, aa_ds = False\<rparr>" and ?t = "fdb_run env0 fenv0 full_bucket fdb0"
  have "port_ix 1 ?t \<noteq> None" by code_simp
  then have "fst (fdb_flush env0 fenv0 ?arg ?t) = ST_OK"
    by (intro fdb_flush_ok) (auto simp: flush_vid_def vlan_valid_def)
  then have r: "fdb_flush env0 fenv0 ?arg ?t = (ST_OK, snd (fdb_flush env0 fenv0 ?arg ?t))" by (simp add: prod_eq_iff)
  have "case fdb_lookup fenv0 (fdb ?t) (MAC_ADDR 1 [0, 0, 0, 0, 0, 1]) of None \<Rightarrow> False
      | Some m \<Rightarrow> flush_applies ?arg m \<and> flush_takes fenv0 ?arg ?t m"
    by code_simp
  with fdb_flush_removes_wanted [OF fdb0_boot refl r, of "MAC_ADDR 1 [0, 0, 0, 0, 0, 1]"] show ?thesis
    by (auto simp: flush_takes_wanted split: option.splits)
qed

text \<open>The port of an entry is compared whatever its interface is: multicast entries, which point to no
  port, go with the static entries of port 1 (device 0, port 0).\<close>

definition mc_arg :: mc_ip_op_arg where
  "mc_arg = \<lparr>mi_src = [10, 0, 0, 1], mi_dst = [239, 0, 0, 1], mi_vid = 5, mi_mcg = 7, mi_delete = False\<rparr>"

theorem fdb_flush_port_takes_multicast:
  fixes t u :: fdb_st
  defines "t \<equiv> fdb_run env0 fenv0 [MacRequest (CtlRequest (FCC_MC_IP_OP mc_arg) 0)] fdb0"
    and "u \<equiv> snd (fdb_flush env0 fenv0 \<lparr>aa_vid = None, aa_port = Some 1, aa_ds = True\<rparr> t)"
    and "k \<equiv> IPV4_MCAST 5 [10, 0, 0, 1] [239, 0, 0, 1]"
  shows "map_option (\<lambda>m. ci_type (me_dst m)) (fdb_lookup fenv0 (fdb t) k) = Some CPSS_IF_VIDX \<and> fdb_lookup fenv0 (fdb u) k = None"
proof -
  let ?arg = "\<lparr>aa_vid = None, aa_port = Some 1, aa_ds = True\<rparr>"
  have keys: "keys_ok fenv0 (fdb t)" unfolding t_def by (rule boot_keys [OF fdb0_boot])
  have "port_ix 1 t \<noteq> None" unfolding t_def by code_simp
  then have "fst (fdb_flush env0 fenv0 ?arg t) = ST_OK" by (intro fdb_flush_ok) (auto simp: flush_vid_def)
  then have "fdb_flush env0 fenv0 ?arg t = (ST_OK, u)" unfolding u_def by (simp add: prod_eq_iff)
  note flush = flush_slots_map [OF keys, of env0 "flush_takes fenv0 ?arg t" k] fdb_flush_table [OF this]
  have m: "map_option (\<lambda>m. (ci_type (me_dst m), flush_takes fenv0 ?arg t m)) (fdb_lookup fenv0 (fdb t) k) = Some (CPSS_IF_VIDX, True)"
    unfolding t_def k_def by code_simp
  with flush show ?thesis by auto
qed

section \<open>The hardware\<close>

text \<open>C7. In every reachable state the slot of each entry of the table holds, in every device, that
  entry (an own address pointing to the device itself).\<close>

theorem fdb_slots_in_hardware:
  assumes "fdb_boot s" "t = fdb_run E F rs s" "d < e_ndevs E" "j < FDB_MAX_ADDRS" "fe_valid (fdb t j)"
  shows "hw_slot (hw t) d j = Some (hw_image t d (fe_me (fdb t j)))"
  using boot_mirrored [OF assms(1), of E F rs] assms(2-) by (simp add: fdb_mirrored_def)

theorem fdb_slots_in_hardware_witness:
  "hw_slot (hw (fdb_run env0 fenv0 full_bucket fdb0)) 1 2 =
     Some (hw_image (fdb_run env0 fenv0 full_bucket fdb0) 1 (fe_me (fdb (fdb_run env0 fenv0 full_bucket fdb0) 2)))"
proof -
  have "fe_valid (fdb (fdb_run env0 fenv0 full_bucket fdb0) 2)" "1 < e_ndevs env0" "2 < FDB_MAX_ADDRS" by code_simp+
  from fdb_slots_in_hardware [OF fdb0_boot refl this(2,3,1)] show ?thesis .
qed

section \<open>The wait of a flush\<close>

lemma flush_poll_log:
  "flush_poll E F ds s = (rest, t) \<Longrightarrow> length (hw t) = length (hw s) + length ds \<and> set rest \<subseteq> set ds \<and>
     (\<forall>d \<in> set rest. \<exists>h. length (hw s) \<le> length h \<and> \<not> v_trig_done F h d)"
proof (induction ds arbitrary: s rest t)
  case Nil
  then show ?case by simp
next
  case (Cons d ds)
  obtain r u where u: "flush_poll E F ds (emit (Fd (FdbTrigActionStatusGet d)) s) = (r, u)" by fastforce
  have rest: "rest = (if v_trig_done F (hw s) d then r else d # r)" "t = u" using Cons.prems u by (auto simp: Let_def)
  have ih: "length (hw u) = Suc (length (hw s)) + length ds" "set r \<subseteq> set ds"
    "\<And>x. x \<in> set r \<Longrightarrow> \<exists>h. length (hw s) \<le> length h \<and> \<not> v_trig_done F h x"
    using Cons.IH [OF u] by (simp_all add: emit_def) (meson Suc_leD)
  have "\<exists>h. length (hw s) \<le> length h \<and> \<not> v_trig_done F h x" if "x \<in> set rest" for x
    using that ih(3) rest(1) by (cases "v_trig_done F (hw s) d") (auto intro: exI [of _ "hw s"])
  with ih(1,2) rest show ?case by auto
qed

text \<open>C32. If every device reports, from some length of the log on, that its action is done, the wait
  ends: enough rounds of polls return.\<close>

theorem flush_wait_ends:
  assumes "\<And>h d. n \<le> length h \<Longrightarrow> d < e_ndevs E \<Longrightarrow> v_trig_done F h d" "n < m"
  shows "flush_wait E F m [0 ..< e_ndevs E] s \<noteq> None"
proof -
  have "flush_wait E F m ds s \<noteq> None" if "set ds \<subseteq> {0 ..< e_ndevs E}" "n - length (hw s) < m" for ds m and s :: "'a sw_scheme"
    using that
  proof (induction m arbitrary: ds s)
    case 0
    then show ?case by simp
  next
    case (Suc m)
    obtain r t where poll: "flush_poll E F ds s = (r, t)" by fastforce
    note log = flush_poll_log [OF poll]
    show ?case
    proof (cases "r = []")
      case True
      then show ?thesis by (simp add: poll)
    next
      case False
      then obtain d where "d \<in> set r" by (cases r) auto
      with log Suc.prems(1) have "d < e_ndevs E" "\<exists>h. length (hw s) \<le> length h \<and> \<not> v_trig_done F h d" by auto
      then obtain h where "d < e_ndevs E" "length (hw s) \<le> length h" "\<not> v_trig_done F h d" by blast
      with assms(1) [of h d] have "length (hw s) < n" by fastforce
      moreover have "0 < length ds" using log \<open>d \<in> set r\<close> by (cases ds) auto
      ultimately have "n - length (hw t) < m" using log Suc.prems(2) by linarith
      with Suc.IH [of r t] log Suc.prems(1) show ?thesis by (auto simp: poll)
    qed
  qed
  from this [of "[0 ..< e_ndevs E]" s m] assms(2) show ?thesis by simp
qed

theorem flush_wait_ends_witness: "flush_wait env0 (fenv0\<lparr>v_trig_done := \<lambda>h d. 5 \<le> length h\<rparr>) 6 [0 ..< e_ndevs env0] fdb0 \<noteq> None"
  by (rule flush_wait_ends [where n = 5]) simp_all

section \<open>Messages\<close>

definition fdbr_of :: "u8 \<Rightarrow> pti_fdbr" where
  "fdbr_of k = mac_form_fdbr fenv0 (me_user [0, 0, 0, 0, 0, k] 1 MET_DYNAMIC) PTI_FDB_OP_ADD"

lemma swap_vid_twice [simp]: "swap_vid be (swap_vid be r) = r"
proof -
  have "htons be (htons be x) = x" for x :: u16
  proof -
    have "push_bit 8 (drop_bit 8 x) OR drop_bit 8 (push_bit 8 x) = x"
      by (rule bit_word_eqI) (auto simp: bit_simps)
    then show ?thesis by (simp add: htons_def push_bit_or drop_bit_or)
  qed
  then show ?thesis by (simp add: swap_vid_def)
qed

lemma fdbr_chunks_all: "0 < n \<Longrightarrow> concat (fdbr_chunks n pf) = pf \<and> (\<forall>recs \<in> set (fdbr_chunks n pf). length recs \<le> n)"
proof (induction n pf rule: fdbr_chunks.induct)
  case (1 n pf)
  then show ?case by (cases "length pf \<le> n") (simp_all add: fdbr_chunks.simps [of n pf])
qed

text \<open>The message one chunk becomes.\<close>

definition update_msg :: "env \<Rightarrow> bool \<Rightarrow> 'a fdb_st_scheme \<Rightarrow> pti_fdbr list \<Rightarrow> fdbman_msg" where
  "update_msg E master s recs =
     (let recs = map (swap_vid (e_big_endian E)) recs in
      \<lparr>fm_stack_id = of_nat (stack_id s), fm_serial = fdbman_serial s, fm_devsbmp = 0,
       fm_cmd = (if master then FMC_MASTER_UPDATE recs else FMC_UPDATE recs)\<rparr>)"

lemma update_hw:
  "hw (fdbman_send_msg_uni_update E F pf master s) =
     rev (map (\<lambda>recs. Nt (FdbmanSend (update_msg E master s recs))) (fdbr_chunks (v_fdb_nrec F) pf)) @ hw s"
proof -
  let ?f = "\<lambda>recs s. fdbman_send 0 (if master then FMC_MASTER_UPDATE (map (swap_vid (e_big_endian E)) recs)
      else FMC_UPDATE (map (swap_vid (e_big_endian E)) recs)) s"
  have "hw (fold ?f cs t) = rev (map (\<lambda>recs. Nt (FdbmanSend (update_msg E master s recs))) cs) @ hw t"
    if "stack_id t = stack_id s" "fdbman_serial t = fdbman_serial s" for cs and t :: "'a fdb_st_scheme"
    using that by (induction cs arbitrary: t) (simp_all add: fdbman_send_def emit_def update_msg_def)
  then show ?thesis by (simp add: fdbman_send_msg_uni_update_def Let_def)
qed

text \<open>C33. \<open>fdbman_send_msg_uni_update\<close> sends the records of an update as messages of at most as many
  records as fit, in their order and without loss: each message is some part of the records, the
  parts together are all of them, and a unit that takes the message (\<open>fdbman_handle_pkt\<close>; the master those of
  the members, a member those of its master) handles just the records of that part as they were
  before they were sent.\<close>

theorem fdbr_chunks_complete:
  fixes s :: "'a fdb_st_scheme"
  assumes "0 < v_fdb_nrec F"
  shows "\<exists>ms chunks. hw (fdbman_send_msg_uni_update E F pf master s) = rev (map (\<lambda>m. Nt (FdbmanSend m)) ms) @ hw s \<and>
    concat chunks = pf \<and> (\<forall>c \<in> set chunks. length c \<le> v_fdb_nrec F) \<and>
    list_all2 (\<lambda>m c. \<forall>r :: 'b fdb_st_scheme. \<forall>ts. fdbman_serial r \<le> fdbman_serial s \<longrightarrow>
      (if master
       then fdbman_state r = FST_MEMBER \<and> fdbman_master r = of_nat (stack_id s) \<longrightarrow>
         fdbman_handle_pkt E F m ts r = (ST_OK, snd (fdb_mac_foreign_blck E F c (unat (fm_stack_id m)) ts r))
       else fdbman_state r \<noteq> FST_MEMBER \<longrightarrow>
         fdbman_handle_pkt E F m ts r = (ST_OK, fdbman_handle_msg_update E F c (unat (fm_stack_id m)) ts r))) ms chunks"
proof -
  let ?cs = "fdbr_chunks (v_fdb_nrec F) pf"
  have "fdbman_handle_pkt E F (update_msg E master s c) ts r =
      (ST_OK, if master then snd (fdb_mac_foreign_blck E F c (unat (fm_stack_id (update_msg E master s c))) ts r)
       else fdbman_handle_msg_update E F c (unat (fm_stack_id (update_msg E master s c))) ts r)"
    if "fdbman_serial r \<le> fdbman_serial s"
      "if master then fdbman_state r = FST_MEMBER \<and> fdbman_master r = of_nat (stack_id s) else fdbman_state r \<noteq> FST_MEMBER"
    for c ts and r :: "'b fdb_st_scheme"
    using that by (simp add: fdbman_handle_pkt_def update_msg_def Let_def comp_def not_less split: if_splits)
  then have "list_all2 (\<lambda>m c. \<forall>r :: 'b fdb_st_scheme. \<forall>ts. fdbman_serial r \<le> fdbman_serial s \<longrightarrow>
      (if master
       then fdbman_state r = FST_MEMBER \<and> fdbman_master r = of_nat (stack_id s) \<longrightarrow>
         fdbman_handle_pkt E F m ts r = (ST_OK, snd (fdb_mac_foreign_blck E F c (unat (fm_stack_id m)) ts r))
       else fdbman_state r \<noteq> FST_MEMBER \<longrightarrow>
         fdbman_handle_pkt E F m ts r = (ST_OK, fdbman_handle_msg_update E F c (unat (fm_stack_id m)) ts r)))
      (map (update_msg E master s) ?cs) ?cs"
    by (cases master) (simp_all add: list_all2_map1 list_all2_same)
  then show ?thesis
    using fdbr_chunks_all [OF assms, of pf]
    by (intro exI [of _ "map (update_msg E master s) ?cs"] exI [of _ ?cs]) (simp add: update_hw comp_def)
qed

theorem fdbr_chunks_complete_witness:
  "0 < v_fdb_nrec fenv0 \<and>
   (\<exists>ms chunks. hw (fdbman_send_msg_uni_update env0 fenv0 (map fdbr_of [1, 2, 3, 4, 5]) False fdb0) =
      rev (map (\<lambda>m. Nt (FdbmanSend m)) ms) @ hw fdb0 \<and> concat chunks = map fdbr_of [1, 2, 3, 4, 5] \<and>
      (\<forall>c \<in> set chunks. length c \<le> 2) \<and> length ms = length chunks)"
proof -
  have n: "0 < v_fdb_nrec fenv0" "v_fdb_nrec fenv0 = 2" by (simp_all add: fenv0_def)
  show ?thesis
    using fdbr_chunks_complete [OF n(1), of env0 "map fdbr_of [1, 2, 3, 4, 5]" False fdb0, where 'b = unit] n
    by (auto dest: list_all2_lengthD)
qed

end
