(* ===== verification/Dstack.thy ===== *)
theory Dstack
  imports Containers
begin

text \<open>
  Stacks with two ends (\<open>src/dstack.c\<close>): a doubly linked list and the stack pointer \<open>sp\<close>. Every
  operation leaves \<open>sp\<close> at the last item of the list (NULL or freed memory when there is none), so a
  stack is the list of its items, first to last. The size of an item is fixed by its type.
\<close>

type_synonym 'a dstack = "'a list"

definition dstack_init :: "'a dstack" where "dstack_init = []"

definition dstack_push :: "'a \<Rightarrow> 'a dstack \<Rightarrow> 'a dstack" where
  "dstack_push x s = dl_append s x"

definition dstack_push_back :: "'a \<Rightarrow> 'a dstack \<Rightarrow> 'a dstack" where
  "dstack_push_back x s = x # s"

definition dstack_pop :: "'a dstack \<Rightarrow> ('a \<times> 'a dstack) option" where
  "dstack_pop s = (if length s = 0 then None else Some (last s, butlast s))"

text \<open>\<open>dstack_rev_sort2\<close> sorts the list in descending order, so the least item is on top.\<close>

definition dstack_rev_sort2 :: "'a::linorder dstack \<Rightarrow> 'a dstack" where
  "dstack_rev_sort2 s = rev (sort s)"

definition dstack_copy :: "'a dstack \<Rightarrow> 'a dstack" where
  "dstack_copy src = fold dstack_push src dstack_init"

section \<open>Properties\<close>

lemma set_dstack_push [simp]: "set (dstack_push x s) = insert x (set s)"
  by (simp add: dstack_push_def)

lemma distinct_dstack_push [simp]: "distinct (dstack_push x s) \<longleftrightarrow> distinct s \<and> x \<notin> set s"
  by (simp add: dstack_push_def)

lemma dstack_pop_None [simp]: "dstack_pop s = None \<longleftrightarrow> s = []"
  by (simp add: dstack_pop_def)

lemma dstack_pop_Some: "dstack_pop s = Some (x, t) \<longleftrightarrow> s = t @ [x]"
  by (auto simp: dstack_pop_def)

lemma dstack_pop_push [simp]: "dstack_pop (dstack_push x s) = Some (x, s)"
  by (simp add: dstack_pop_def dstack_push_def dl_append_def)

lemma dstack_fill: "fold dstack_push_back xs s = rev xs @ s"
  by (induction xs arbitrary: s) (simp_all add: dstack_push_back_def)

lemma dstack_copy_id [simp]: "dstack_copy s = s"
proof -
  have "fold dstack_push s t = t @ s" for t
    by (induction s arbitrary: t) (simp_all add: dstack_push_def dl_append_def)
  then show ?thesis by (simp add: dstack_copy_def dstack_init_def)
qed

lemma rev_sort2_props [simp]:
  "set (dstack_rev_sort2 s) = set s" "distinct (dstack_rev_sort2 s) = distinct s" "length (dstack_rev_sort2 s) = length s"
  by (simp_all add: dstack_rev_sort2_def)

text \<open>A sorted stack hands out its least item.\<close>

lemma dstack_pop_sorted:
  assumes "dstack_pop (dstack_rev_sort2 s) = Some (x, t)"
  shows "x = Min (set s)"
proof -
  have s: "rev (sort s) = t @ [x]" using assms by (simp add: dstack_pop_Some dstack_rev_sort2_def)
  then have srt: "sort s = x # rev t" by (metis rev_rev_ident rev_append rev_singleton_conv append_Cons append_Nil)
  have "sorted (x # rev t)" using sorted_sort [of s] srt by simp
  moreover have "set s = set (x # rev t)" using srt by (metis set_sort)
  ultimately show ?thesis by (auto intro!: Min_eqI [symmetric])
qed

text \<open>The free items of a pool with the items \<open>U\<close>, kept on a stack.\<close>

interpretation dstack_pool: id_pool dstack_pop dstack_push "\<lambda>s. U - set s" "\<lambda>s. distinct s \<and> set s \<subseteq> U" for U
  by unfold_locales (auto simp: dstack_pop_Some)

end
