(* ===== verification/Pcl.thy ===== *)
theory Pcl
  imports Vlan Dstack
begin

text \<open>
  The rule table of the switch (\<open>src/pcl.c\<close>) apart from the user's access lists: how the indexes of
  the table are divided among the uses, VLAN translation, IP source guard, and the rules that trap or
  mirror control packets to the CPU. Ports are named by their id, from 1. Calls whose return code
  the code does not look at are only recorded.
\<close>

unbundle bit_operations_syntax

section \<open>State\<close>

text \<open>The static tables \<open>port_<use>_rule_ix\<close> are one table by use. Each use has one rule per port, the
  source guard ten.\<close>

datatype rule_use =
    RU_LBD | RU_LLDP | RU_LACP | RU_CFM | RU_CFM2 | RU_CFM6 | RU_ERPS | RU_VRRP
  | RU_DHCP67 | RU_DHCP68 | RU_DHCP546 | RU_DHCP547 | RU_ARP | RU_SOLICITED
  | RU_SG_START | RU_SG_DROP | RU_OSPF | RU_RIP | RU_RIPNG | RU_PPPOE | RU_PIM | RU_UDP_MC
  | RU_VT_IPCL_DEF | RU_VT_EPCL_DEF

record vt_ix =
  vx_key :: nat
  vx_tunnel :: bool
  vx_to :: vid
  vx_ix0 :: nat
  vx_ix1 :: nat

record pcl_st = vlan_st +
  port_ipcl_id :: "nat \<Rightarrow> nat"
  port_epcl_id :: "nat \<Rightarrow> nat"
  vlan_pcl_id_first :: nat
  rule_ix :: "rule_use \<Rightarrow> nat \<Rightarrow> nat"
  stackmail_pri_ix :: nat
  stackmail_sec_ix :: nat
  vt_stack_first_entry :: "nat \<Rightarrow> nat"
  vt_stack_max :: "nat \<Rightarrow> nat"
  user_acl_start_ix :: "nat \<Rightarrow> nat"
  user_acl_max :: "nat \<Rightarrow> nat"
  stack_pri_port :: "nat option"
  stack_sec_port :: "nat option"
  vt_rules :: "nat \<Rightarrow> nat dstack"
  vt_table :: "vt_ix list"
  sg_trap_enabled :: "nat \<Rightarrow> bool"
  sg_rule_ixs :: "nat \<Rightarrow> nat dstack"

definition per_port_ip_source_guard_rules_count :: nat where "per_port_ip_source_guard_rules_count = 10"
definition vt_stack_entries :: nat where "vt_stack_entries = 300"
definition user_acl_stack_entries :: nat where "user_acl_stack_entries = 500"

text \<open>\<open>for_each_port\<close>, and the port of an id that is known to be valid.\<close>

definition port_ids :: "'a vif_st_scheme \<Rightarrow> nat list" where
  "port_ids s = [1 ..< Suc (length (ports s))]"

definition port_at :: "nat \<Rightarrow> 'a vif_st_scheme \<Rightarrow> port" where
  "port_at pid s = ports s ! (pid - 1)"

section \<open>The layout of the table\<close>

text \<open>The uses of the per-port part in the order of \<open>initialize_vars\<close>, with the rules they take; \<open>idx\<close>
  is the next free index of each device.\<close>

definition port_uses :: "(rule_use \<times> nat) list" where
  "port_uses =
     [(RU_LBD, 1), (RU_LLDP, 1), (RU_LACP, 1), (RU_CFM, 1), (RU_CFM2, 1), (RU_CFM6, 1), (RU_ERPS, 1), (RU_VRRP, 1),
      (RU_DHCP67, 1), (RU_DHCP68, 1), (RU_DHCP546, 1), (RU_DHCP547, 1), (RU_ARP, 1), (RU_SOLICITED, 1),
      (RU_SG_START, per_port_ip_source_guard_rules_count), (RU_SG_DROP, 1), (RU_OSPF, 1), (RU_RIP, 1), (RU_RIPNG, 1),
      (RU_PPPOE, 1), (RU_PIM, 1), (RU_UDP_MC, 1)]"

definition vt_def_uses :: "(rule_use \<times> nat) list" where
  "vt_def_uses = [(RU_VT_IPCL_DEF, 1), (RU_VT_EPCL_DEF, 1)]"

type_synonym 'a layout = "(nat \<Rightarrow> nat) \<times> 'a pcl_st_scheme"

definition assign_use :: "nat \<Rightarrow> rule_use \<times> nat \<Rightarrow> 'a layout \<Rightarrow> 'a layout" where
  "assign_use pid use l =
     (case (use, l) of ((u, n), (idx, s)) \<Rightarrow>
        let d = pt_ldev (port_at pid s) in
        (idx(d := idx d + n), s\<lparr>rule_ix := (rule_ix s)(u := (rule_ix s u)(pid := idx d))\<rparr>))"

definition assign_ports :: "(rule_use \<times> nat) list \<Rightarrow> 'a layout \<Rightarrow> 'a layout" where
  "assign_ports uses l = fold (\<lambda>pid l. fold (assign_use pid) uses l) (port_ids (snd l)) l"

definition assign_pcl_id :: "nat \<Rightarrow> nat \<times> 'a pcl_st_scheme \<Rightarrow> nat \<times> 'a pcl_st_scheme" where
  "assign_pcl_id pid ks =
     (case ks of (k, s) \<Rightarrow>
        (k + 2, s\<lparr>port_ipcl_id := (port_ipcl_id s)(pid := k), port_epcl_id := (port_epcl_id s)(pid := k + 1)\<rparr>))"

definition assign_pcl_ids :: "'a pcl_st_scheme \<Rightarrow> 'a pcl_st_scheme" where
  "assign_pcl_ids s = (case fold assign_pcl_id (port_ids s) (0, s) of (k, s) \<Rightarrow> s\<lparr>vlan_pcl_id_first := k\<rparr>)"

definition assign_stackmail :: "'a layout \<Rightarrow> 'a layout" where
  "assign_stackmail l =
     (case l of (idx, s) \<Rightarrow>
        if stack_active s then
          (case (stack_pri_port s, stack_sec_port s) of
             (Some p, Some q) \<Rightarrow>
               let d = pt_ldev (ports s ! p);
                   s = s\<lparr>stackmail_pri_ix := idx d\<rparr>; idx = idx(d := Suc (idx d));
                   d = pt_ldev (ports s ! q) in
               (idx(d := Suc (idx d)), s\<lparr>stackmail_sec_ix := idx d\<rparr>)
           | _ \<Rightarrow> (idx, crash s))
        else (idx, s\<lparr>stackmail_pri_ix := 0, stackmail_sec_ix := 0\<rparr>))"

text \<open>A range of the table on every device.\<close>

definition assign_range ::
  "env \<Rightarrow> nat \<Rightarrow> ((nat \<Rightarrow> nat) \<Rightarrow> (nat \<Rightarrow> nat) \<Rightarrow> 'a pcl_st_scheme \<Rightarrow> 'a pcl_st_scheme) \<Rightarrow> 'a layout \<Rightarrow> 'a layout" where
  "assign_range E n store l =
     (case l of (idx, s) \<Rightarrow>
        let idx' = (\<lambda>d. if d < e_ndevs E then idx d + n else idx d) in (idx', store idx idx' s))"

definition initialize_vars :: "env \<Rightarrow> 'a pcl_st_scheme \<Rightarrow> 'a pcl_st_scheme" where
  "initialize_vars E s =
     (let l = (\<lambda>d. 0, assign_pcl_ids s);
          l = assign_ports port_uses (assign_stackmail l);
          l = assign_range E vt_stack_entries
                (\<lambda>lo hi s. s\<lparr>vt_stack_first_entry := lo, vt_stack_max := hi\<rparr>) l;
          l = assign_ports vt_def_uses l;
          l = assign_range E user_acl_stack_entries
                (\<lambda>lo hi s. s\<lparr>user_acl_start_ix := lo, user_acl_max := hi\<rparr>) l in
      snd l)"

section \<open>Rules of VLAN translation\<close>

definition pcl_init_rules :: "env \<Rightarrow> 'a pcl_st_scheme \<Rightarrow> 'a pcl_st_scheme" where
  "pcl_init_rules E s =
     s\<lparr>vt_rules := (\<lambda>d. if d < e_ndevs E
         then fold (\<lambda>i st. dstack_push_back (i + vt_stack_first_entry s d) st) [0 ..< vt_stack_entries] dstack_init
         else vt_rules s d)\<rparr>"

text \<open>\<open>pcl_alloc_rules\<close> and \<open>pcl_free_rules\<close> of two rules, the only number in use.\<close>

definition pcl_alloc_rules :: "nat \<Rightarrow> 'a pcl_st_scheme \<Rightarrow> ((nat \<times> nat) option) \<times> 'a pcl_st_scheme" where
  "pcl_alloc_rules d s =
     (if length (vt_rules s d) < 2 then (None, s)
      else case dstack_pop (vt_rules s d) of
        Some (a, t) \<Rightarrow> (case dstack_pop t of
            Some (b, u) \<Rightarrow> (Some (a, b), s\<lparr>vt_rules := (vt_rules s)(d := u)\<rparr>)
          | None \<Rightarrow> (None, s))
      | None \<Rightarrow> (None, s))"

definition pcl_free_rules :: "nat \<Rightarrow> nat \<times> nat \<Rightarrow> 'a pcl_st_scheme \<Rightarrow> 'a pcl_st_scheme" where
  "pcl_free_rules d nums s =
     s\<lparr>vt_rules := (vt_rules s)(d := dstack_push (snd nums) (dstack_push (fst nums) (vt_rules s d)))\<rparr>"

definition vt_key :: "u16 \<Rightarrow> vid \<Rightarrow> nat" where
  "vt_key pid from = push_bit 12 (unat pid) OR unat from"

definition vt_key_vid :: "nat \<Rightarrow> vid" where "vt_key_vid key = of_nat (key AND 0xFFF)"
definition vt_key_pid :: "nat \<Rightarrow> u16" where "vt_key_pid key = of_nat (drop_bit 12 key AND 0xFFFF)"

text \<open>An entry of the table is reached by pointer in the source; here it is the entry of its key.\<close>

definition vt_store :: "vt_ix \<Rightarrow> 'a pcl_st_scheme \<Rightarrow> 'a pcl_st_scheme" where
  "vt_store ix s = s\<lparr>vt_table := hash_mod vx_key (vx_key ix) (\<lambda>_. ix) (vt_table s)\<rparr>"

definition get_vt_ix :: "u16 \<Rightarrow> vid \<Rightarrow> vid \<Rightarrow> bool \<Rightarrow> bool \<Rightarrow> 'a pcl_st_scheme \<Rightarrow> vt_ix option \<times> 'a pcl_st_scheme" where
  "get_vt_ix pid from to tunnel alloc s =
     (let key = vt_key pid from;
          final = (\<lambda>ix s. let ix = ix\<lparr>vx_tunnel := tunnel, vx_to := to\<rparr> in (Some ix, vt_store ix s)) in
      case hash_find vx_key (vt_table s) key of
        Some ix \<Rightarrow> final ix s
      | None \<Rightarrow>
          if \<not> alloc then (None, s)
          else let ix = \<lparr>vx_key = key, vx_tunnel = False, vx_to = 0, vx_ix0 = 0, vx_ix1 = 0\<rparr> in
            if from \<noteq> 0 then
              (case port_ptr pid s of
                 None \<Rightarrow> (None, crash s)
               | Some port \<Rightarrow>
                   (case pcl_alloc_rules (pt_ldev port) s of
                      (None, s) \<Rightarrow> (None, s)
                    | (Some (a, b), s) \<Rightarrow>
                        let ix = ix\<lparr>vx_ix0 := a, vx_ix1 := b\<rparr> in
                        final ix (s\<lparr>vt_table := hash_add ix (vt_table s)\<rparr>)))
            else
              let ix = ix\<lparr>vx_ix0 := rule_ix s RU_VT_IPCL_DEF (unat pid)\<rparr> in
              final ix (s\<lparr>vt_table := hash_add ix (vt_table s)\<rparr>))"

definition invalidate_vt_ix :: "env \<Rightarrow> vt_ix \<Rightarrow> 'a pcl_st_scheme \<Rightarrow> 'a pcl_st_scheme" where
  "invalidate_vt_ix E ix s =
     (let s = snd (for_each_dev E (\<lambda>d. Pc (PclRuleInvalidate d (vx_ix0 ix))) s) in
      if vt_key_vid (vx_key ix) \<noteq> 0 then snd (for_each_dev E (\<lambda>d. Pc (PclRuleInvalidate d (vx_ix1 ix))) s) else s)"

definition free_vt_ix :: "env \<Rightarrow> nat \<Rightarrow> vt_ix \<Rightarrow> 'a pcl_st_scheme \<Rightarrow> 'a pcl_st_scheme" where
  "free_vt_ix E d ix s =
     (let s = pcl_free_rules d (vx_ix0 ix, vx_ix1 ix) (invalidate_vt_ix E ix s) in
      s\<lparr>vt_table := hash_del vx_key (vx_key ix) (vt_table s)\<rparr>)"

definition pcl_remove_vt :: "env \<Rightarrow> u16 \<Rightarrow> vid \<Rightarrow> bool \<Rightarrow> 'a pcl_st_scheme \<Rightarrow> status \<times> 'a pcl_st_scheme" where
  "pcl_remove_vt E pid from tunnel s =
     (case get_vt_ix pid from 0 tunnel False s of
        (None, s) \<Rightarrow> (ST_DOES_NOT_EXIST, s)
      | (Some ix, s) \<Rightarrow>
          (case port_ptr pid s of None \<Rightarrow> (ST_OK, crash s) | Some port \<Rightarrow> (ST_OK, free_vt_ix E (pt_ldev port) ix s)))"

text \<open>A field of a rule with a number, or with bytes: the field, its value, its mask.\<close>

definition pf :: "pcl_field \<Rightarrow> nat \<Rightarrow> nat \<Rightarrow> pcl_field \<times> pcl_value \<times> pcl_value" where
  "pf f v m = (f, PV_num v, PV_num m)"

definition pfb :: "pcl_field \<Rightarrow> u8 list \<Rightarrow> u8 list \<Rightarrow> pcl_field \<times> pcl_value \<times> pcl_value" where
  "pfb f v m = (f, PV_bytes v, PV_bytes m)"

definition act_zero :: pcl_action where
  "act_zero = \<lparr>ac_pktCmd = PCL_FORWARD, ac_actionStop = False, ac_egressPolicy = False, ac_vlan = None, ac_qos = None,
     ac_policer = None, ac_ltt = None, ac_counter = None, ac_cpuCode = None, ac_bypass = False\<rparr>"

definition rule_set :: "nat \<Rightarrow> pcl_format \<Rightarrow> nat \<Rightarrow> pcl_match \<Rightarrow> pcl_action \<Rightarrow> 'a sw_scheme \<Rightarrow> 'a sw_scheme" where
  "rule_set d fmt ix match act s = emit (Pc (PclRuleSet d fmt ix match act)) s"

definition rule_invalidate :: "nat \<Rightarrow> nat \<Rightarrow> 'a sw_scheme \<Rightarrow> 'a sw_scheme" where
  "rule_invalidate d ix s = emit (Pc (PclRuleInvalidate d ix)) s"

definition vt_ingress_action :: "vid \<Rightarrow> bool \<Rightarrow> pcl_action" where
  "vt_ingress_action to tunnel =
     (if to \<noteq> 0 then act_zero\<lparr>ac_actionStop := True, ac_vlan := Some (False, tunnel, True, to)\<rparr>
      else act_zero\<lparr>ac_actionStop := True, ac_pktCmd := PCL_DROP_HARD\<rparr>)"

definition vt_egress_action :: "vid \<Rightarrow> pcl_action" where
  "vt_egress_action from = act_zero\<lparr>ac_egressPolicy := True, ac_vlan := Some (True, False, True, from)\<rparr>"

definition vt_ingress_match :: "nat \<Rightarrow> vid \<Rightarrow> nat \<Rightarrow> pcl_match" where
  "vt_ingress_match pcl_id from lport =
     [pf PF_pclId pcl_id 0xFFFF, pf PF_vid (unat from) (if from \<noteq> 0 then 0xFFFF else 0), pf PF_sourcePort lport 0xFF]"

definition pcl_enable_vt :: "env \<Rightarrow> vt_ix \<Rightarrow> bool \<Rightarrow> 'a pcl_st_scheme \<Rightarrow> 'a pcl_st_scheme" where
  "pcl_enable_vt E ix enable s =
     (let s = invalidate_vt_ix E ix s in
      if \<not> enable then s
      else let from = vt_key_vid (vx_key ix); to = vx_to ix; pid = vt_key_pid (vx_key ix); tunnel = vx_tunnel ix in
        case port_ptr pid s of
          None \<Rightarrow> crash s
        | Some port \<Rightarrow>
            let s = rule_set (pt_ldev port) INGRESS_EXT_NOT_IPV6 (vx_ix0 ix)
                      (vt_ingress_match (port_ipcl_id s (unat pid)) from (pt_lport port)) (vt_ingress_action to tunnel) s in
            if from \<noteq> 0 \<and> to \<noteq> 0 \<and> \<not> tunnel then
              rule_set (pt_ldev port) EGRESS_EXT_NOT_IPV6 (vx_ix1 ix)
                [pf PF_pclId (port_epcl_id s (unat pid)) 0xFFFF, pf PF_vid (unat to) 0xFFFF] (vt_egress_action from) s
            else s)"

definition pcl_port_enable_vt :: "env \<Rightarrow> u16 \<Rightarrow> bool \<Rightarrow> 'a pcl_st_scheme \<Rightarrow> 'a pcl_st_scheme" where
  "pcl_port_enable_vt E pid enable s =
     fold (\<lambda>ix s. if vt_key_pid (vx_key ix) = pid then pcl_enable_vt E ix enable s else s) (vt_table s) s"

text \<open>\<open>ALL_PORTS\<close> is no port: \<open>port->ldev\<close> is then read through a null pointer.\<close>

definition pcl_port_clear_vt :: "env \<Rightarrow> u16 \<Rightarrow> u16 \<Rightarrow> 'a pcl_st_scheme \<Rightarrow> 'a pcl_st_scheme" where
  "pcl_port_clear_vt E all_ports pid s =
     fold (\<lambda>ix s. if pid = all_ports \<or> vt_key_pid (vx_key ix) = pid then
                    (case port_ptr pid s of None \<Rightarrow> crash s | Some port \<Rightarrow> free_vt_ix E (pt_ldev port) ix s)
                  else s) (vt_table s) s"

definition pcl_setup_vt :: "env \<Rightarrow> u16 \<Rightarrow> vid \<Rightarrow> vid \<Rightarrow> bool \<Rightarrow> bool \<Rightarrow> 'a pcl_st_scheme \<Rightarrow> status \<times> 'a pcl_st_scheme" where
  "pcl_setup_vt E pid from to tunnel enable s =
     (case get_vt_ix pid from to tunnel enable s of
        (None, s) \<Rightarrow> (ST_BAD_STATE, s)
      | (Some ix, s) \<Rightarrow> (ST_OK, if enable then pcl_enable_vt E ix True s else s))"

end
