(* ===== verification/Pcl_Trap.thy ===== *)
theory Pcl_Trap
  imports Pcl
begin

text \<open>
  Rules that send control packets to the CPU and the source guard (\<open>src/pcl.c\<close>). Every rule sits at
  the index of its use and port.
\<close>

definition port_rule_set :: "rule_use \<Rightarrow> pcl_format \<Rightarrow> pcl_match \<Rightarrow> pcl_action \<Rightarrow> nat \<Rightarrow> 'a pcl_st_scheme \<Rightarrow> 'a pcl_st_scheme" where
  "port_rule_set u fmt match act pid s = rule_set (pt_ldev (port_at pid s)) fmt (rule_ix s u pid) match act s"

definition port_rule_invalidate :: "rule_use \<Rightarrow> nat \<Rightarrow> 'a pcl_st_scheme \<Rightarrow> 'a pcl_st_scheme" where
  "port_rule_invalidate u pid s = rule_invalidate (pt_ldev (port_at pid s)) (rule_ix s u pid) s"

text \<open>The field \<open>pclId\<close> of a port, and the flag \<open>isL2Valid\<close>.\<close>

definition pf_port :: "nat \<Rightarrow> 'a pcl_st_scheme \<Rightarrow> pcl_field \<times> pcl_value \<times> pcl_value" where
  "pf_port pid s = pf PF_pclId (port_ipcl_id s pid) 0xFFFF"

definition pf_flag :: "pcl_field \<Rightarrow> pcl_field \<times> pcl_value \<times> pcl_value" where
  "pf_flag f = pf f 1 0xFF"

definition cpu_action :: "pcl_cmd \<Rightarrow> cpu_code \<Rightarrow> pcl_action" where
  "cpu_action cmd code = act_zero\<lparr>ac_pktCmd := cmd, ac_actionStop := True, ac_cpuCode := Some code\<rparr>"

definition bypass_action :: "nat \<Rightarrow> pcl_action" where
  "bypass_action n =
     (cpu_action PCL_TRAP_TO_CPU (FIRST_USER_DEFINED n))\<lparr>ac_bypass := True, ac_vlan := Some (False, False, False, 4095)\<rparr>"

section \<open>Rules for routing protocols\<close>

text \<open>The loops of \<open>pcl_setup_ospf\<close> and its like pass over the ports of other devices and return at
  the first stack port of the device.\<close>

definition setup_ports :: "nat \<Rightarrow> 'a vif_st_scheme \<Rightarrow> nat list" where
  "setup_ports d s =
     takeWhile (\<lambda>pid. \<not> is_stack_port (port_at pid s) s) (filter (\<lambda>pid. pt_ldev (port_at pid s) = d) (port_ids s))"

definition setup_mirror ::
  "rule_use \<Rightarrow> pcl_format \<Rightarrow> (nat \<Rightarrow> 'a pcl_st_scheme \<Rightarrow> pcl_match) \<Rightarrow> cpu_code \<Rightarrow> nat \<Rightarrow> 'a pcl_st_scheme \<Rightarrow> 'a pcl_st_scheme" where
  "setup_mirror u fmt match code d s =
     fold (\<lambda>pid s. port_rule_set u fmt (match pid s) (cpu_action PCL_MIRROR_TO_CPU code) pid s) (setup_ports d s) s"

definition match_ip :: "pcl_match \<Rightarrow> nat \<Rightarrow> 'a pcl_st_scheme \<Rightarrow> pcl_match" where
  "match_ip extra pid s = [pf_port pid s, pf_flag PF_isL2Valid, pf_flag PF_isIp] @ extra"

definition pcl_setup_ospf :: "nat \<Rightarrow> 'a pcl_st_scheme \<Rightarrow> 'a pcl_st_scheme" where
  "pcl_setup_ospf =
     setup_mirror RU_OSPF INGRESS_EXT_NOT_IPV6 (match_ip [pf PF_ipProtocol 0x59 0xFF]) (FIRST_USER_DEFINED 5)"

definition pcl_setup_pim :: "nat \<Rightarrow> 'a pcl_st_scheme \<Rightarrow> 'a pcl_st_scheme" where
  "pcl_setup_pim =
     setup_mirror RU_PIM INGRESS_EXT_NOT_IPV6 (match_ip [pf PF_ipProtocol 0x67 0xFF]) (FIRST_USER_DEFINED 14)"

definition pcl_setup_udp_mc :: "nat \<Rightarrow> 'a pcl_st_scheme \<Rightarrow> 'a pcl_st_scheme" where
  "pcl_setup_udp_mc =
     setup_mirror RU_UDP_MC INGRESS_EXT_NOT_IPV6
       (match_ip [pf PF_ipProtocol 17 0xFF, pfb PF_dip [224, 0, 0, 0] [240, 0, 0, 0]]) (FIRST_USER_DEFINED 15)"

definition pcl_setup_rip :: "nat \<Rightarrow> 'a pcl_st_scheme \<Rightarrow> 'a pcl_st_scheme" where
  "pcl_setup_rip =
     setup_mirror RU_RIP INGRESS_EXT_NOT_IPV6
       (match_ip [pfb PF_dip [224, 0, 0, 9] [255, 255, 255, 255]]) (FIRST_USER_DEFINED 6)"

definition pcl_setup_ripng :: "nat \<Rightarrow> 'a pcl_st_scheme \<Rightarrow> 'a pcl_st_scheme" where
  "pcl_setup_ripng =
     setup_mirror RU_RIPNG INGRESS_EXT_IPV6_L4
       (\<lambda>pid s. [pf_port pid s, pf_flag PF_isL4Valid, pf_flag PF_isIpv6,
                 pfb PF_dip ([0xFF, 0x02] @ replicate 13 0 @ [0x09]) (replicate 16 0xFF)]) (FIRST_USER_DEFINED 12)"

definition pcl_setup_vrrp :: "nat \<Rightarrow> 'a pcl_st_scheme \<Rightarrow> 'a pcl_st_scheme" where
  "pcl_setup_vrrp =
     setup_mirror RU_VRRP INGRESS_EXT_NOT_IPV6
       (match_ip [pfb PF_dip [224, 0, 0, 18] [255, 255, 255, 255]]) LINK_LOCAL_MC_DIP_TRP_MRR"

section \<open>IP source guard\<close>

definition pcl_init_source_guard_rule_ixs :: "'a pcl_st_scheme \<Rightarrow> 'a pcl_st_scheme" where
  "pcl_init_source_guard_rule_ixs s =
     fold (\<lambda>p s. s\<lparr>sg_rule_ixs := (sg_rule_ixs s)(p :=
          fold (\<lambda>i st. dstack_push_back (i + rule_ix s RU_SG_START p) st)
            [0 ..< per_port_ip_source_guard_rules_count] dstack_init)\<rparr>) (port_ids s) s"

text \<open>The functions of the source guard do not check the port id; an id that is no port leads to a
  null pointer.\<close>

definition guarded_port :: "u16 \<Rightarrow> (nat \<Rightarrow> 'a pcl_st_scheme \<Rightarrow> 'a pcl_st_scheme) \<Rightarrow> 'a pcl_st_scheme \<Rightarrow> 'a pcl_st_scheme" where
  "guarded_port pi act s =
     (case port_ptr pi s of
        None \<Rightarrow> crash s
      | Some port \<Rightarrow> if is_stack_port port s then s else act (unat pi) s)"

definition set_sg_trap :: "nat \<Rightarrow> bool \<Rightarrow> 'a pcl_st_scheme \<Rightarrow> 'a pcl_st_scheme" where
  "set_sg_trap pid on s = s\<lparr>sg_trap_enabled := (sg_trap_enabled s)(pid := on)\<rparr>"

definition pcl_source_guard_trap_enable :: "u16 \<Rightarrow> 'a pcl_st_scheme \<Rightarrow> 'a pcl_st_scheme" where
  "pcl_source_guard_trap_enable pi =
     guarded_port pi (\<lambda>pid s. set_sg_trap pid True
       (port_rule_set RU_SG_DROP INGRESS_EXT_NOT_IPV6 (match_ip [] pid s)
          (cpu_action PCL_TRAP_TO_CPU (FIRST_USER_DEFINED 2)) pid s))"

definition pcl_source_guard_trap_disable :: "u16 \<Rightarrow> 'a pcl_st_scheme \<Rightarrow> 'a pcl_st_scheme" where
  "pcl_source_guard_trap_disable pi =
     guarded_port pi (\<lambda>pid s. set_sg_trap pid False (port_rule_invalidate RU_SG_DROP pid s))"

definition pcl_source_guard_drop_enable :: "u16 \<Rightarrow> 'a pcl_st_scheme \<Rightarrow> 'a pcl_st_scheme" where
  "pcl_source_guard_drop_enable pi =
     guarded_port pi (\<lambda>pid s. set_sg_trap pid False
       (port_rule_set RU_SG_DROP INGRESS_EXT_NOT_IPV6 (match_ip [] pid s)
          (act_zero\<lparr>ac_pktCmd := PCL_DROP_HARD, ac_actionStop := True\<rparr>) pid s))"

definition pcl_source_guard_drop_disable :: "u16 \<Rightarrow> 'a pcl_st_scheme \<Rightarrow> 'a pcl_st_scheme" where
  "pcl_source_guard_drop_disable pi =
     guarded_port pi (\<lambda>pid s. set_sg_trap pid False (port_rule_invalidate RU_SG_DROP pid s))"

definition sg_match :: "nat \<Rightarrow> mac \<Rightarrow> vid \<Rightarrow> u8 list \<Rightarrow> bool \<Rightarrow> 'a pcl_st_scheme \<Rightarrow> pcl_match" where
  "sg_match pid addr v ip verify_mac s =
     match_ip ((if verify_mac then [pfb PF_macSa addr (replicate 6 0xFF)] else []) @
       [pf PF_vid (unat v) 0xFFFF, pfb PF_sip ip (replicate 4 0xFF)]) pid s"

text \<open>\<open>*rule_ix\<close> is left alone at a stack port, and 0 when the rules of the port are used up.\<close>

definition pcl_source_guard_rule_set ::
  "u16 \<Rightarrow> mac \<Rightarrow> vid \<Rightarrow> u8 list \<Rightarrow> bool \<Rightarrow> nat \<Rightarrow> 'a pcl_st_scheme \<Rightarrow> nat \<times> 'a pcl_st_scheme" where
  "pcl_source_guard_rule_set pi addr v ip verify_mac rule_ix0 s =
     (case port_ptr pi s of
        None \<Rightarrow> (rule_ix0, crash s)
      | Some port \<Rightarrow>
          if is_stack_port port s then (rule_ix0, s)
          else (case dstack_pop (sg_rule_ixs s (unat pi)) of
             Some (ix, rest) \<Rightarrow>
               (ix, rule_set (pt_ldev port) INGRESS_EXT_NOT_IPV6 ix (sg_match (unat pi) addr v ip verify_mac s)
                      (act_zero\<lparr>ac_actionStop := True\<rparr>)
                      (s\<lparr>sg_rule_ixs := (sg_rule_ixs s)(unat pi := rest)\<rparr>))
           | None \<Rightarrow> (0, s)))"

definition pcl_source_guard_rule_unset :: "u16 \<Rightarrow> nat \<Rightarrow> 'a pcl_st_scheme \<Rightarrow> 'a pcl_st_scheme" where
  "pcl_source_guard_rule_unset pi ix =
     guarded_port pi (\<lambda>pid s.
       rule_invalidate (pt_ldev (port_at pid s)) ix
         (s\<lparr>sg_rule_ixs := (sg_rule_ixs s)(pid := dstack_push ix (sg_rule_ixs s pid))\<rparr>))"

text \<open>The port is read before the range of the id is checked.\<close>

definition pcl_source_guard_trap_enabled :: "u16 \<Rightarrow> 'a pcl_st_scheme \<Rightarrow> bool \<times> 'a pcl_st_scheme" where
  "pcl_source_guard_trap_enabled pi s =
     (case port_ptr pi s of
        None \<Rightarrow> (False, if stack_active s then crash s else s)
      | Some port \<Rightarrow> if is_stack_port port s \<or> unat pi < 1 \<or> unat pi > 65 then (False, s)
                     else (sg_trap_enabled s (unat pi), s))"

section \<open>Traps\<close>

definition trap_ports :: "'a vif_st_scheme \<Rightarrow> nat list" where
  "trap_ports s = filter (\<lambda>pid. \<not> is_stack_port (port_at pid s) s) (port_ids s)"

text \<open>Frames of an Ethernet type; \<open>tagged\<close> adds that the frame is to be untagged.\<close>

definition match_etype :: "nat \<Rightarrow> pcl_match \<Rightarrow> nat \<Rightarrow> 'a pcl_st_scheme \<Rightarrow> pcl_match" where
  "match_etype etype extra pid s =
     [pf_port pid s, pf_flag PF_isL2Valid, pf PF_etherType etype 0xFFFF, pf_flag PF_l2Encap] @ extra"

definition untagged :: "pcl_field \<times> pcl_value \<times> pcl_value" where
  "untagged = pf PF_isTagged 0 0xFF"

definition pcl_setup_stackmail_trap :: "nat \<Rightarrow> nat \<Rightarrow> 'a pcl_st_scheme \<Rightarrow> 'a pcl_st_scheme" where
  "pcl_setup_stackmail_trap eth_type_stack pid s =
     (let port = port_at pid s; primary = stack_pri_port s = Some (pid - 1) in
      if \<not> stacking port then crash s
      else rule_set (pt_ldev port) INGRESS_EXT_NOT_IPV6 (if primary then stackmail_pri_ix s else stackmail_sec_ix s)
        (match_etype eth_type_stack
           [pf PF_isIp 0 0xFF, pfb PF_macDa [0, 0x1B, 0x28, 0xFF, 0xFF, 0xFE] [0xFF, 0xFF, 0xFF, 0xFF, 0xFF, 0xFE]] pid s)
        (cpu_action PCL_TRAP_TO_CPU (FIRST_USER_DEFINED (if primary then 7 else 8))) s)"

definition pcl_enable_arp_trap :: "bool \<Rightarrow> 'a pcl_st_scheme \<Rightarrow> status \<times> 'a pcl_st_scheme" where
  "pcl_enable_arp_trap enable s =
     (ST_OK, fold (\<lambda>pid s.
        if enable then
          port_rule_set RU_ARP INGRESS_EXT_NOT_IPV6 (match_etype 0x0806 [pf PF_isIp 0 0xFF] pid s)
            (cpu_action PCL_TRAP_TO_CPU (FIRST_USER_DEFINED 3)) pid s
        else port_rule_invalidate RU_ARP pid s) (trap_ports s) s)"

definition pcl_enable_solicited :: "u16 \<Rightarrow> bool \<Rightarrow> pcl_cmd \<Rightarrow> 'a pcl_st_scheme \<Rightarrow> status \<times> 'a pcl_st_scheme" where
  "pcl_enable_solicited pi enable cmd s =
     (ST_OK, guarded_port pi (\<lambda>pid s.
        if enable then
          port_rule_set RU_SOLICITED INGRESS_EXT_IPV6_L4
            [pf_port pid s, pf_flag PF_isIpv6, pf PF_ipProtocol 0x3A 0xFF,
             pfb PF_dip ([0xFF, 0x02] @ replicate 9 0 @ [1, 0xFF, 0, 0, 0]) (replicate 13 0xFF @ [0, 0, 0])]
            (cpu_action cmd NEIGHBOR_SOLICITATION) pid s
        else port_rule_invalidate RU_SOLICITED pid s) s)"

definition port_trap :: "rule_use \<Rightarrow> (nat \<Rightarrow> 'a pcl_st_scheme \<Rightarrow> pcl_match) \<Rightarrow> pcl_action \<Rightarrow> u16 \<Rightarrow> bool \<Rightarrow> 'a pcl_st_scheme \<Rightarrow> status \<times> 'a pcl_st_scheme" where
  "port_trap u match act pid enable s =
     (if \<not> port_valid pid s then (ST_BAD_VALUE, s)
      else (ST_OK, if enable then port_rule_set u INGRESS_EXT_NOT_IPV6 (match (unat pid) s) act (unat pid) s
                   else port_rule_invalidate u (unat pid) s))"

definition pcl_enable_lbd_trap :: "u16 \<Rightarrow> bool \<Rightarrow> 'a pcl_st_scheme \<Rightarrow> status \<times> 'a pcl_st_scheme" where
  "pcl_enable_lbd_trap =
     port_trap RU_LBD (match_etype 0x88B7 [untagged]) (cpu_action PCL_TRAP_TO_CPU (FIRST_USER_DEFINED 0))"

definition pcl_enable_lldp_trap :: "u16 \<Rightarrow> bool \<Rightarrow> 'a pcl_st_scheme \<Rightarrow> status \<times> 'a pcl_st_scheme" where
  "pcl_enable_lldp_trap =
     port_trap RU_LLDP
       (match_etype 0x88CC [untagged, pfb PF_macDa [0x01, 0x80, 0xC2, 0x00, 0x00, 0x0E] (replicate 6 0xFF)]) (bypass_action 4)"

text \<open>From here on the source clears \<open>isTagged\<close> in the mask, not in the rule, so tagged frames match.\<close>

definition pcl_enable_lacp_trap :: "u16 \<Rightarrow> bool \<Rightarrow> 'a pcl_st_scheme \<Rightarrow> status \<times> 'a pcl_st_scheme" where
  "pcl_enable_lacp_trap =
     port_trap RU_LACP
       (match_etype 0x8809 [pfb PF_macDa [0x01, 0x80, 0xC2, 0x00, 0x00, 0x02] (replicate 6 0xFF)]) (bypass_action 9)"

definition pcl_enable_erps_trap :: "u16 \<Rightarrow> bool \<Rightarrow> 'a pcl_st_scheme \<Rightarrow> status \<times> 'a pcl_st_scheme" where
  "pcl_enable_erps_trap =
     port_trap RU_ERPS
       (match_etype 0x8902 [pfb PF_macDa [0x01, 0x19, 0xA7, 0x00, 0x00, 0x00] [0xFF, 0xFF, 0xFF, 0xFF, 0xFF, 0xF0]])
       (bypass_action 11)"

text \<open>The rules for a maintenance level: the use, and the last byte of the address and of its mask.\<close>

definition cfm_rules :: "nat \<Rightarrow> (rule_use \<times> u8 \<times> u8) list" where
  "cfm_rules level =
     (if level = 0 then [(RU_CFM, 0, 0xF)]
      else if level = 1 then [(RU_CFM, 1, 0xE)]
      else if level = 2 then [(RU_CFM, 2, 0xF), (RU_CFM2, 1, 0xE)]
      else if level = 3 then [(RU_CFM, 3, 0xC)]
      else if level = 4 then [(RU_CFM, 4, 0xF), (RU_CFM2, 3, 0xC)]
      else if level = 5 then [(RU_CFM, 5, 0xE), (RU_CFM2, 3, 0xC)]
      else if level = 6 then [(RU_CFM, 6, 0xF), (RU_CFM2, 5, 0xE), (RU_CFM6, 3, 0xC)]
      else if level = 7 then [(RU_CFM, 7, 0x8)]
      else [])"

definition cfm_match :: "u8 \<Rightarrow> u8 \<Rightarrow> nat \<Rightarrow> 'a pcl_st_scheme \<Rightarrow> pcl_match" where
  "cfm_match v m =
     match_etype 0x8902 [pfb PF_macDa [0x01, 0x80, 0xC2, 0x00, 0x00, v] [0xFF, 0xFF, 0xFF, 0xFF, 0xFF, m]]"

definition pcl_enable_cfm_trap :: "nat \<Rightarrow> bool \<Rightarrow> 'a pcl_st_scheme \<Rightarrow> status \<times> 'a pcl_st_scheme" where
  "pcl_enable_cfm_trap level enable s =
     (ST_OK,
      if enable then
        fold (\<lambda>pid s. fold (\<lambda>(u, v, m) s.
            port_rule_set u INGRESS_EXT_NOT_IPV6 (cfm_match v m pid s) (bypass_action 11) pid s) (cfm_rules level) s)
          (trap_ports s) s
      else
        fold (\<lambda>pid s. fold (\<lambda>u s. port_rule_invalidate u pid s) [RU_CFM, RU_CFM2, RU_CFM6] s) (trap_ports s) s)"

text \<open>A pair of rules on every port that is no stack port.\<close>

definition trap_pair ::
  "rule_use \<Rightarrow> (nat \<Rightarrow> 'a pcl_st_scheme \<Rightarrow> pcl_match) \<Rightarrow> rule_use \<Rightarrow> (nat \<Rightarrow> 'a pcl_st_scheme \<Rightarrow> pcl_match) \<Rightarrow> nat \<Rightarrow> bool \<Rightarrow> 'a pcl_st_scheme \<Rightarrow> 'a pcl_st_scheme" where
  "trap_pair u1 m1 u2 m2 code enable s =
     fold (\<lambda>pid s.
        if enable then
          let act = cpu_action PCL_TRAP_TO_CPU (FIRST_USER_DEFINED code);
              s = port_rule_set u1 INGRESS_EXT_NOT_IPV6 (m1 pid s) act pid s in
          port_rule_set u2 INGRESS_EXT_NOT_IPV6 (m2 pid s) act pid s
        else port_rule_invalidate u2 pid (port_rule_invalidate u1 pid s)) (trap_ports s) s"

definition match_dhcp :: "nat \<Rightarrow> nat \<Rightarrow> 'a pcl_st_scheme \<Rightarrow> pcl_match" where
  "match_dhcp port =
     match_ip [pf_flag PF_l2Encap, pf PF_isIpv6 0 0xFF, pf PF_ipProtocol 17 0xFF,
               pf (PF_l4Byte 2) 0 0xFF, pf (PF_l4Byte 3) port 0xFF]"

definition pcl_enable_dhcp_trap :: "bool \<Rightarrow> 'a pcl_st_scheme \<Rightarrow> status \<times> 'a pcl_st_scheme" where
  "pcl_enable_dhcp_trap enable s =
     (ST_OK, trap_pair RU_DHCP67 (match_dhcp 67) RU_DHCP68 (match_dhcp 68) 1 enable s)"

text \<open>The IPv6 traps do not set \<open>pclId\<close>, and have the format of rules for other packets than IPv6.\<close>

definition match_dhcpv6 :: "nat \<Rightarrow> nat \<Rightarrow> 'a pcl_st_scheme \<Rightarrow> pcl_match" where
  "match_dhcpv6 port pid s =
     [pf_flag PF_isL2Valid, pf_flag PF_isIp, pf_flag PF_isIpv6, pf PF_ipProtocol 17 0xFF,
      pf (PF_l4Byte 2) 2 0xFF, pf (PF_l4Byte 3) port 0xFF]"

definition pcl_enable_dhcpv6_trap :: "bool \<Rightarrow> 'a pcl_st_scheme \<Rightarrow> status \<times> 'a pcl_st_scheme" where
  "pcl_enable_dhcpv6_trap enable s =
     (ST_OK, trap_pair RU_DHCP546 (match_dhcpv6 0x22) RU_DHCP547 (match_dhcpv6 0x23) 10 enable s)"

definition pcl_enable_pppoe_trap :: "bool \<Rightarrow> 'a pcl_st_scheme \<Rightarrow> status \<times> 'a pcl_st_scheme" where
  "pcl_enable_pppoe_trap enable s =
     (ST_OK, fold (\<lambda>pid s.
        if enable then port_rule_set RU_PPPOE INGRESS_EXT_NOT_IPV6 (match_etype 0x8863 [] pid s)
                         (cpu_action PCL_TRAP_TO_CPU (FIRST_USER_DEFINED 13)) pid s
        else port_rule_invalidate RU_PPPOE pid s) (trap_ports s) s)"

section \<open>Ports and VLANs\<close>

definition pcl_calls :: "pcl_effect list \<Rightarrow> 'a sw_scheme \<Rightarrow> 'a sw_scheme" where
  "pcl_calls es s = fold (\<lambda>e s. emit (Pc e) s) es s"

definition pcl_port_setup :: "u16 \<Rightarrow> 'a pcl_st_scheme \<Rightarrow> status \<times> 'a pcl_st_scheme" where
  "pcl_port_setup pid s =
     (case port_ptr pid s of
        None \<Rightarrow> (ST_BAD_VALUE, s)
      | Some port \<Rightarrow>
          let d = pt_ldev port; p = pt_lport port in
          (ST_OK, pcl_calls
             [PclPortIngressPolicyEnable d p True,
              PclPortLookupModeSet d p PCL_DEST_INGRESS 0 False, PclPortLookupModeSet d p PCL_DEST_INGRESS 1 True,
              EgressPclPacketTypesSet d p True, PclPortLookupModeSet d p PCL_DEST_EGRESS 0 False] s))"

definition pcl_enable_port :: "u16 \<Rightarrow> bool \<Rightarrow> 'a pcl_st_scheme \<Rightarrow> status \<times> 'a pcl_st_scheme" where
  "pcl_enable_port pid enable s =
     (case port_ptr pid s of
        None \<Rightarrow> (ST_OK, crash s)
      | Some port \<Rightarrow>
          (case phys_dev (pt_ldev port) s of (dev, s) \<Rightarrow>
             let i = \<lparr>ci_type = CPSS_IF_PORT, ci_devNum = dev, ci_portNum = of_nat (pt_lport port), ci_trunkId = 0,
                      ci_vidx = 0, ci_vlanId = 0\<rparr> in
             (ST_OK, pcl_calls
                [PclCfgTblSet (pt_ldev port) i PCL_DEST_INGRESS 0 enable (port_ipcl_id s (unat pid)),
                 PclCfgTblSet (pt_ldev port) i PCL_DEST_EGRESS 0 enable (port_epcl_id s (unat pid))] s)))"

definition pcl_enable_vlan :: "env \<Rightarrow> vid \<Rightarrow> nat \<Rightarrow> 'a sw_scheme \<Rightarrow> 'a sw_scheme" where
  "pcl_enable_vlan E v pcl_id s =
     snd (for_each_dev E (\<lambda>d. Pc (PclCfgTblSet d
        \<lparr>ci_type = CPSS_IF_VID, ci_devNum = 0, ci_portNum = 0, ci_trunkId = 0, ci_vidx = 0, ci_vlanId = v\<rparr>
        PCL_DEST_INGRESS 1 True pcl_id)) s)"

definition pcl_init_cnc_counters :: "nat \<Rightarrow> 'a sw_scheme \<Rightarrow> 'a sw_scheme" where
  "pcl_init_cnc_counters d s =
     pcl_calls [CncBlockClientEnableSet d 0 True, CncBlockClientEnableSet d 1 True,
        CncBlockClientRangesSet d 0, CncBlockClientRangesSet d 1, CncCounterClearByReadEnableSet d False] s"

text \<open>\<open>IP_PROTO_TCP\<close> is 6, \<open>IP_PROTO_UDP\<close> 17; the packet types of the calls are those of TCP and UDP.\<close>

definition pcl_init_port_comparators :: "nat \<Rightarrow> 'a sw_scheme \<Rightarrow> 'a sw_scheme" where
  "pcl_init_port_comparators d s = pcl_calls [PclUserDefinedByteSet d 6 2, PclUserDefinedByteSet d 17 2] s"

definition pcl_cpss_lib_init :: "nat \<Rightarrow> nat \<Rightarrow> 'a pcl_st_scheme \<Rightarrow> status \<times> 'a pcl_st_scheme" where
  "pcl_cpss_lib_init eth_type_stack d s =
     (let s = pcl_calls [PclInit d, PclIngressPolicyEnable d True, PclEgressPolicyEnable d True, PclCfgTblAccessModeSet d] s;
          s = pcl_init_port_comparators d (pcl_init_cnc_counters d s);
          mail = (\<lambda>q s. if stack_active s then
                   (case q of None \<Rightarrow> crash s
                    | Some i \<Rightarrow> if d = pt_ldev (ports s ! i) then pcl_setup_stackmail_trap eth_type_stack (Suc i) s else s)
                 else s);
          s = mail (stack_sec_port s) (mail (stack_pri_port s) s);
          s = pcl_setup_vrrp d (pcl_setup_rip d (pcl_setup_pim d (pcl_setup_ospf d s))) in
      (ST_OK, pcl_setup_udp_mc d (pcl_setup_ripng d s)))"

end
