(* ===== verification/Pcl_Acl.thy ===== *)
theory Pcl_Acl
  imports Pcl_Trap
begin

text \<open>
  The user's access lists (\<open>src/pcl.c\<close>): the index book that keeps the rules of access lists, QoS
  policies and routing policies in this order, the bindings from the name of a rule to its index, the
  comparators of port ranges, the translation of rules, and the trial mode in which the requests run on
  a copy of the book-keeping and leave the hardware alone.
\<close>

section \<open>State\<close>

text \<open>Of the enumerations of the control protocol every other value is \<open>OTHER\<close>.\<close>

datatype pcl_action_type = ACTION_TYPE_ACL | ACTION_TYPE_POLICY | ACTION_TYPE_POLICY_ROUTE | ACTION_TYPE_OTHER

datatype pcl_rule_action =
    RULE_PERMIT | RULE_DENY | RULE_PERMIT_POLICY | RULE_DENY_POLICY | RULE_PERMIT_PBR | RULE_DENY_PBR | RULE_OTHER

datatype pcl_act_mark = MARK_COS | MARK_DSCP | MARK_BOTH | MARK_OTHER
datatype pcl_trap_action = TRAP_LOG_INPUT | TRAP_NONE | TRAP_OTHER
datatype pcl_default_action = DEFAULT_PERMIT | DEFAULT_DENY | DEFAULT_OTHER

text \<open>What \<open>rule_action_params\<close> points to: QoS profile, policer and mark, or an LTT position.\<close>

datatype pcl_action_params = AP_NULL | AP_POLICY nat nat pcl_act_mark | AP_PBR row_colum

datatype ix_book_status = IX_BOOK_OK | IX_BOOK_BAD_ARG | IX_BOOK_NO_INDEXES

record index_book =
  ib_start :: nat
  ib_end :: nat
  acl_end :: nat
  qos_end :: nat
  pbr_end :: nat

record rule_binding_key =
  bk_name :: "u8 list"
  bk_acttype :: pcl_action_type
  bk_num :: u64
  bk_interface :: pcl_interface
  bk_destination :: pcl_dest

record rule_binding =
  rb_key :: rule_binding_key
  rb_ix :: nat

record port_cmp_key =
  ck_destination :: pcl_dest
  ck_ip_proto :: u8
  ck_port_type :: pcl_port_type
  ck_op :: pcl_port_op
  ck_port_num :: u16

record port_cmp =
  pc_key :: port_cmp_key
  pc_cmp_ix :: nat
  pc_rule_idxs :: "nat list"

record user_acl =
  pcl_ids :: "nat dstack"
  vlan_ipcl_id :: "nat \<Rightarrow> nat"
  book :: "nat \<Rightarrow> index_book"
  bindings :: "nat \<Rightarrow> rule_binding list"
  port_cmp_idxs :: "nat \<Rightarrow> nat dstack"
  port_cmps :: "nat \<Rightarrow> port_cmp list"

record acl_st = pcl_st +
  user_acl :: user_acl
  user_acl_fake :: user_acl
  user_acl_fake_mode :: bool

text \<open>Values of the control protocol, and what counters read.\<close>

record pcl_env =
  p_tcp :: u8
  p_udp :: u8
  p_is_tcp_or_udp :: "u8 \<Rightarrow> bool"
  p_counter :: "effect list \<Rightarrow> nat \<Rightarrow> nat \<Rightarrow> nat \<Rightarrow> u64"

text \<open>\<open>curr_acl\<close> points to the copy in trial mode, else to the real one.\<close>

definition curr_acl :: "'a acl_st_scheme \<Rightarrow> user_acl" where
  "curr_acl s = (if user_acl_fake_mode s then user_acl_fake s else user_acl s)"

definition acl_upd :: "(user_acl \<Rightarrow> user_acl) \<Rightarrow> 'a acl_st_scheme \<Rightarrow> 'a acl_st_scheme" where
  "acl_upd f s = (if user_acl_fake_mode s then s\<lparr>user_acl_fake := f (user_acl_fake s)\<rparr> else s\<lparr>user_acl := f (user_acl s)\<rparr>)"

definition max_pcl_id :: nat where "max_pcl_id = 1023"
definition NAME_SZ :: nat where "NAME_SZ = 32"
definition PCL_CMP_IDX_COUNT :: nat where "PCL_CMP_IDX_COUNT = 8"
definition VLAN_IPCL_IDS :: nat where "VLAN_IPCL_IDS = 4095"

section \<open>The index book\<close>

definition ix_book_init :: "nat \<Rightarrow> nat \<Rightarrow> index_book" where
  "ix_book_init start sz =
     (let start = (if start = 0 then 2000 else start) in
      \<lparr>ib_start = start, ib_end = start + sz, acl_end = start, qos_end = start, pbr_end = start\<rparr>)"

definition book_upd :: "nat \<Rightarrow> (index_book \<Rightarrow> index_book) \<Rightarrow> 'a acl_st_scheme \<Rightarrow> 'a acl_st_scheme" where
  "book_upd d f s = acl_upd (\<lambda>a. a\<lparr>book := (book a)(d := f (book a d))\<rparr>) s"

definition bindings_upd :: "nat \<Rightarrow> (rule_binding list \<Rightarrow> rule_binding list) \<Rightarrow> 'a acl_st_scheme \<Rightarrow> 'a acl_st_scheme" where
  "bindings_upd d f s = acl_upd (\<lambda>a. a\<lparr>bindings := (bindings a)(d := f (bindings a d))\<rparr>) s"

definition ix_book_edit_ix_in_binding :: "nat \<Rightarrow> nat \<Rightarrow> nat \<Rightarrow> 'a acl_st_scheme \<Rightarrow> 'a acl_st_scheme" where
  "ix_book_edit_ix_in_binding d old_ix new_ix s =
     bindings_upd d (map (\<lambda>b. if rb_ix b = old_ix then b\<lparr>rb_ix := new_ix\<rparr> else b)) s"

definition ix_book_move_rule :: "nat \<Rightarrow> nat \<Rightarrow> nat \<Rightarrow> 'a acl_st_scheme \<Rightarrow> 'a acl_st_scheme" where
  "ix_book_move_rule d old_ix new_ix s =
     (let s = (if user_acl_fake_mode s then s
               else rule_invalidate d old_ix (emit (Pc (PclRuleCopy d old_ix new_ix)) s)) in
      ix_book_edit_ix_in_binding d old_ix new_ix s)"

text \<open>The loops over the rules: from the last one down, one place on; from the first one up, one back.\<close>

definition move_up :: "nat \<Rightarrow> nat \<Rightarrow> nat \<Rightarrow> 'a acl_st_scheme \<Rightarrow> 'a acl_st_scheme" where
  "move_up d lo hi s = fold (\<lambda>i s. ix_book_move_rule d i (i + 1) s) (rev [lo ..< hi]) s"

definition move_down :: "nat \<Rightarrow> nat \<Rightarrow> nat \<Rightarrow> 'a acl_st_scheme \<Rightarrow> 'a acl_st_scheme" where
  "move_down d lo hi s = fold (\<lambda>i s. ix_book_move_rule d (i + 1) i s) [lo ..< hi] s"

definition ix_book_action_acl_take :: "nat \<Rightarrow> 'a acl_st_scheme \<Rightarrow> (ix_book_status \<times> nat) \<times> 'a acl_st_scheme" where
  "ix_book_action_acl_take d s =
     (let b = book (curr_acl s) d in
      if pbr_end b = ib_end b then ((IX_BOOK_NO_INDEXES, 0), s)
      else ((IX_BOOK_OK, acl_end b),
        book_upd d (\<lambda>b. b\<lparr>acl_end := acl_end b + 1, qos_end := qos_end b + 1, pbr_end := pbr_end b + 1\<rparr>)
          (move_up d (acl_end b) (pbr_end b) s)))"

definition ix_book_action_qos_take :: "nat \<Rightarrow> 'a acl_st_scheme \<Rightarrow> (ix_book_status \<times> nat) \<times> 'a acl_st_scheme" where
  "ix_book_action_qos_take d s =
     (let b = book (curr_acl s) d in
      if pbr_end b = ib_end b then ((IX_BOOK_NO_INDEXES, 0), s)
      else ((IX_BOOK_OK, qos_end b),
        book_upd d (\<lambda>b. b\<lparr>qos_end := qos_end b + 1, pbr_end := pbr_end b + 1\<rparr>)
          (move_up d (qos_end b) (pbr_end b) s)))"

definition ix_book_action_pbr_take :: "nat \<Rightarrow> 'a acl_st_scheme \<Rightarrow> (ix_book_status \<times> nat) \<times> 'a acl_st_scheme" where
  "ix_book_action_pbr_take d s =
     (let b = book (curr_acl s) d in
      if pbr_end b = ib_end b then ((IX_BOOK_NO_INDEXES, 0), s)
      else ((IX_BOOK_OK, pbr_end b), book_upd d (\<lambda>b. b\<lparr>pbr_end := pbr_end b + 1\<rparr>) s))"

definition ix_book_take :: "nat \<Rightarrow> pcl_action_type \<Rightarrow> 'a acl_st_scheme \<Rightarrow> (ix_book_status \<times> nat) \<times> 'a acl_st_scheme" where
  "ix_book_take d ty s =
     (case ty of
        ACTION_TYPE_ACL \<Rightarrow> ix_book_action_acl_take d s
      | ACTION_TYPE_POLICY \<Rightarrow> ix_book_action_qos_take d s
      | ACTION_TYPE_POLICY_ROUTE \<Rightarrow> ix_book_action_pbr_take d s
      | ACTION_TYPE_OTHER \<Rightarrow> ((IX_BOOK_BAD_ARG, 0), s))"

definition ix_book_action_acl_return :: "nat \<Rightarrow> nat \<Rightarrow> 'a acl_st_scheme \<Rightarrow> ix_book_status \<times> 'a acl_st_scheme" where
  "ix_book_action_acl_return d index s =
     (let b = book (curr_acl s) d in
      if index < ib_start b \<or> index \<ge> acl_end b then (IX_BOOK_BAD_ARG, s)
      else (IX_BOOK_OK,
        book_upd d (\<lambda>b. b\<lparr>acl_end := acl_end b - 1, qos_end := qos_end b - 1, pbr_end := pbr_end b - 1\<rparr>)
          (move_down d index (pbr_end b - 1) s)))"

definition ix_book_action_qos_return :: "nat \<Rightarrow> nat \<Rightarrow> 'a acl_st_scheme \<Rightarrow> ix_book_status \<times> 'a acl_st_scheme" where
  "ix_book_action_qos_return d index s =
     (let b = book (curr_acl s) d in
      if index < acl_end b \<or> index \<ge> qos_end b then (IX_BOOK_BAD_ARG, s)
      else (IX_BOOK_OK,
        book_upd d (\<lambda>b. b\<lparr>qos_end := qos_end b - 1, pbr_end := pbr_end b - 1\<rparr>)
          (move_down d index (pbr_end b - 1) s)))"

definition ix_book_action_pbr_return :: "nat \<Rightarrow> nat \<Rightarrow> 'a acl_st_scheme \<Rightarrow> ix_book_status \<times> 'a acl_st_scheme" where
  "ix_book_action_pbr_return d index s =
     (let b = book (curr_acl s) d in
      if index < qos_end b \<or> index \<ge> pbr_end b then (IX_BOOK_BAD_ARG, s)
      else (IX_BOOK_OK,
        book_upd d (\<lambda>b. b\<lparr>pbr_end := pbr_end b - 1\<rparr>) (move_down d index (pbr_end b - 1) s)))"

definition ix_book_return :: "nat \<Rightarrow> nat \<Rightarrow> 'a acl_st_scheme \<Rightarrow> ix_book_status \<times> 'a acl_st_scheme" where
  "ix_book_return d index s =
     (let b = book (curr_acl s) d in
      if index < acl_end b then ix_book_action_acl_return d index s
      else if index < qos_end b then ix_book_action_qos_return d index s
      else if index < pbr_end b then ix_book_action_pbr_return d index s
      else (IX_BOOK_BAD_ARG, s))"

section \<open>Set-up\<close>

definition user_acl_init :: "env \<Rightarrow> 'a pcl_st_scheme \<Rightarrow> user_acl" where
  "user_acl_init E s =
     \<lparr>pcl_ids = fold (\<lambda>i st. dstack_push_back (i + vlan_pcl_id_first s) st)
                  [0 ..< max_pcl_id - vlan_pcl_id_first s + 1] dstack_init,
      vlan_ipcl_id = (\<lambda>_. 0),
      book = (\<lambda>d. if d < e_ndevs E then ix_book_init (user_acl_start_ix s d) user_acl_stack_entries
                  else \<lparr>ib_start = 0, ib_end = 0, acl_end = 0, qos_end = 0, pbr_end = 0\<rparr>),
      bindings = (\<lambda>_. []),
      port_cmp_idxs = (\<lambda>d. if d < e_ndevs E
         then fold dstack_push_back [0 ..< PCL_CMP_IDX_COUNT] dstack_init else dstack_init),
      port_cmps = (\<lambda>_. [])\<rparr>"

definition pcl_init_user_acl :: "env \<Rightarrow> 'a acl_st_scheme \<Rightarrow> 'a acl_st_scheme" where
  "pcl_init_user_acl E s =
     s\<lparr>user_acl := user_acl_init E s, user_acl_fake := user_acl_init E s, user_acl_fake_mode := False\<rparr>"

definition pcl_cpss_lib_pre_init :: "env \<Rightarrow> 'a acl_st_scheme \<Rightarrow> status \<times> 'a acl_st_scheme" where
  "pcl_cpss_lib_pre_init E s =
     (ST_OK, pcl_init_source_guard_rule_ixs (pcl_init_user_acl E (pcl_init_rules E (initialize_vars E s))))"

section \<open>Identifiers and indexes of rules\<close>

definition pcl_add_vlan_pcl_id :: "env \<Rightarrow> u16 \<Rightarrow> 'a acl_st_scheme \<Rightarrow> status \<times> 'a acl_st_scheme" where
  "pcl_add_vlan_pcl_id E v s =
     (if unat v \<ge> VLAN_IPCL_IDS then (ST_OK, crash s)
      else if vlan_ipcl_id (curr_acl s) (unat v) \<noteq> 0 then (ST_OK, s)
      else case dstack_pop (pcl_ids (curr_acl s)) of
        None \<Rightarrow> (ST_BAD_VALUE, s)
      | Some (i, rest) \<Rightarrow>
          let s = acl_upd (\<lambda>a. a\<lparr>pcl_ids := rest, vlan_ipcl_id := (vlan_ipcl_id a)(unat v := i)\<rparr>) s in
          (ST_OK, if user_acl_fake_mode s then s else pcl_enable_vlan E v i s))"

definition pcl_add_rule_ix :: "nat \<Rightarrow> rule_binding_key \<Rightarrow> 'a acl_st_scheme \<Rightarrow> (status \<times> nat) \<times> 'a acl_st_scheme" where
  "pcl_add_rule_ix d key s =
     (case hash_find rb_key (bindings (curr_acl s) d) key of
        Some b \<Rightarrow> ((ST_BAD_VALUE, 0), s)
      | None \<Rightarrow>
          (case ix_book_take d (bk_acttype key) s of
             ((IX_BOOK_OK, ix), s) \<Rightarrow> ((ST_OK, ix), bindings_upd d (hash_add \<lparr>rb_key = key, rb_ix = ix\<rparr>) s)
           | (_, s) \<Rightarrow> ((ST_BAD_VALUE, 0), s)))"

definition pcl_find_rule_ix :: "nat \<Rightarrow> rule_binding_key \<Rightarrow> 'a acl_st_scheme \<Rightarrow> nat option" where
  "pcl_find_rule_ix d key s = map_option rb_ix (hash_find rb_key (bindings (curr_acl s) d) key)"

section \<open>Comparators of port ranges\<close>

definition pcl_tcp_udp_port_cmp_set :: "pcl_env \<Rightarrow> nat \<Rightarrow> port_cmp \<Rightarrow> 'a sw_scheme \<Rightarrow> status \<times> 'a sw_scheme" where
  "pcl_tcp_udp_port_cmp_set P d pc s =
     (let k = pc_key pc in
      if ck_destination k = PCL_DEST_OTHER \<or> (ck_ip_proto k \<noteq> p_tcp P \<and> ck_ip_proto k \<noteq> p_udp P) then (ST_BAD_VALUE, s)
      else (ST_OK, emit (Pc (PclPortComparatorSet d (ck_destination k) (ck_ip_proto k) (pc_cmp_ix pc)
             (ck_port_type k) (ck_op k) (ck_port_num k))) s))"

definition cmps_upd :: "nat \<Rightarrow> nat dstack \<Rightarrow> port_cmp list \<Rightarrow> 'a acl_st_scheme \<Rightarrow> 'a acl_st_scheme" where
  "cmps_upd d idxs cmps s =
     acl_upd (\<lambda>a. a\<lparr>port_cmp_idxs := (port_cmp_idxs a)(d := idxs), port_cmps := (port_cmps a)(d := cmps)\<rparr>) s"

text \<open>\<open>*cmp_ix\<close> is written only when a new comparator is taken.\<close>

definition pcl_add_port_cmp_ix :: "pcl_env \<Rightarrow> nat \<Rightarrow> port_cmp_key \<Rightarrow> nat \<Rightarrow> nat \<Rightarrow> 'a acl_st_scheme \<Rightarrow> (status \<times> nat) \<times> 'a acl_st_scheme" where
  "pcl_add_port_cmp_ix P d key ix cmp_ix0 s =
     (let idxs = port_cmp_idxs (curr_acl s) d; cmps = port_cmps (curr_acl s) d in
      case hash_find pc_key cmps key of
        Some pc \<Rightarrow>
          ((ST_OK, cmp_ix0), cmps_upd d idxs (hash_mod pc_key key (\<lambda>pc. pc\<lparr>pc_rule_idxs := ix # pc_rule_idxs pc\<rparr>) cmps) s)
      | None \<Rightarrow>
          (case dstack_pop idxs of
             None \<Rightarrow> ((ST_BAD_VALUE, cmp_ix0), s)
           | Some (c, rest) \<Rightarrow>
               let pc = \<lparr>pc_key = key, pc_cmp_ix = c, pc_rule_idxs = [ix]\<rparr>;
                   s = cmps_upd d rest (hash_add pc cmps) s in
               ((ST_OK, c), if user_acl_fake_mode s then s else snd (pcl_tcp_udp_port_cmp_set P d pc s))))"

end
