(* ===== verification/Pcl_Rule.thy ===== *)
theory Pcl_Rule
  imports Pcl_Acl
begin

text \<open>
  Requests on the user's access lists (\<open>src/pcl.c\<close>): rules for IP, IPv6 and Ethernet, default rules,
  the reset of an interface, counters, and the trial mode.
\<close>

section \<open>Actions\<close>

text \<open>\<open>set_pcl_action\<close>: the action, or \<open>None\<close> for \<open>ST_BAD_VALUE\<close>. The parameters are read before they are
  compared with NULL, so a missing or a wrong kind of parameter is undefined.\<close>

definition set_pcl_action ::
  "nat \<Rightarrow> pcl_dest \<Rightarrow> pcl_rule_action \<Rightarrow> pcl_action_params \<Rightarrow> pcl_trap_action \<Rightarrow> 'a sw_scheme \<Rightarrow> pcl_action option \<times> 'a sw_scheme" where
  "set_pcl_action ix dest action params trap s =
     (let pbr = (case params of
            AP_PBR rc \<Rightarrow> (Some (act_zero\<lparr>ac_ltt := Some (uint (row rc * 4 + ucast (colum rc)))\<rparr>), s)
          | _ \<Rightarrow> (None, crash s));
          stop = act_zero\<lparr>ac_actionStop := True\<rparr> in
      case (case action of
              RULE_PERMIT \<Rightarrow> (Some stop, s)
            | RULE_DENY \<Rightarrow> (Some (stop\<lparr>ac_pktCmd := PCL_DROP_HARD\<rparr>), s)
            | RULE_PERMIT_POLICY \<Rightarrow>
                (case params of
                   AP_POLICY profile policer mark \<Rightarrow>
                     if profile \<noteq> 0 \<and> mark = MARK_OTHER then (None, s)
                     else
                       let act = (if profile \<noteq> 0 then stop\<lparr>ac_qos := Some (mark \<noteq> MARK_COS, mark \<noteq> MARK_DSCP, profile)\<rparr> else stop) in
                       (Some (if policer \<noteq> 0
                              then act\<lparr>ac_policer := Some policer, ac_egressPolicy := dest \<noteq> PCL_DEST_INGRESS\<rparr> else act), s)
                 | _ \<Rightarrow> (None, crash s))
            | RULE_DENY_POLICY \<Rightarrow> (Some stop, s)
            | RULE_DENY_PBR \<Rightarrow> pbr
            | RULE_PERMIT_PBR \<Rightarrow> pbr
            | RULE_OTHER \<Rightarrow> (None, s)) of
        (None, s) \<Rightarrow> (None, s)
      | (Some act, s) \<Rightarrow>
          (case trap of
             TRAP_LOG_INPUT \<Rightarrow> (Some (act\<lparr>ac_counter := Some ix\<rparr>), s)
           | TRAP_NONE \<Rightarrow> (Some act, s)
           | TRAP_OTHER \<Rightarrow> (None, s)))"

section \<open>Rules\<close>

text \<open>\<open>struct ip_pcl_rule\<close> and \<open>struct ipv6_pcl_rule\<close>; the IGMP fields are those of IPv4 only.\<close>

record ip_pcl_rule =
  ir_proto :: u8
  ir_src_ip :: "u8 list"
  ir_src_ip_mask :: "u8 list"
  ir_dst_ip :: "u8 list"
  ir_dst_ip_mask :: "u8 list"
  ir_dscp :: nat
  ir_dscp_mask :: nat
  ir_src_ip_port_single :: bool
  ir_src_ip_port :: u16
  ir_src_ip_port_mask :: u16
  ir_src_ip_port_max :: u16
  ir_dst_ip_port_single :: bool
  ir_dst_ip_port :: u16
  ir_dst_ip_port_mask :: u16
  ir_dst_ip_port_max :: u16
  ir_icmp_type :: nat
  ir_icmp_type_mask :: nat
  ir_icmp_code :: nat
  ir_icmp_code_mask :: nat
  ir_igmp_type :: nat
  ir_igmp_type_mask :: nat
  ir_tcp_flags :: nat
  ir_tcp_flags_mask :: nat
  ir_trap_action :: pcl_trap_action

record mac_pcl_rule =
  mr_src_mac :: mac
  mr_src_mac_mask :: mac
  mr_dst_mac :: mac
  mr_dst_mac_mask :: mac
  mr_eth_type :: nat
  mr_eth_type_mask :: nat
  mr_vid :: vid
  mr_vid_mask :: vid
  mr_cos :: nat
  mr_cos_mask :: nat
  mr_trap_action :: pcl_trap_action

definition nth_byte :: "nat \<Rightarrow> u16 \<Rightarrow> nat" where
  "nth_byte n v = unat (drop_bit (n * 8) v AND 0xFF)"

text \<open>The bytes \<open>l4Byte<i>\<close> and \<open>l4Byte<i+1>\<close> hold a port in network order.\<close>

definition set_ip_port :: "nat \<Rightarrow> u16 \<Rightarrow> u16 \<Rightarrow> pcl_match" where
  "set_ip_port i v m =
     [pf (PF_l4Byte i) (nth_byte 1 v) (nth_byte 1 m), pf (PF_l4Byte (i + 1)) (nth_byte 0 v) (nth_byte 0 m)]"

definition range_bitmap :: "nat \<times> nat \<Rightarrow> u8" where
  "range_bitmap c = push_bit (fst c) 1 OR push_bit (snd c) 1"

text \<open>Comparators of source and destination, the part of the rule that depends on the protocol.\<close>

type_synonym cmp_ixs = "(nat \<times> nat) \<times> (nat \<times> nat)"

definition set_l4 :: "pcl_env \<Rightarrow> ip_pcl_rule \<Rightarrow> cmp_ixs \<Rightarrow> bool \<Rightarrow> pcl_match" where
  "set_l4 P r c v6 =
     (let bitmap = (if ir_src_ip_port_single r then 0 else range_bitmap (fst c)) OR
                   (if ir_dst_ip_port_single r then 0 else range_bitmap (snd c)) in
      (if p_is_tcp_or_udp P (ir_proto r) then
         (if ir_src_ip_port_single r then set_ip_port 0 (ir_src_ip_port r) (ir_src_ip_port_mask r) else []) @
         (if ir_dst_ip_port_single r then set_ip_port 2 (ir_dst_ip_port r) (ir_dst_ip_port_mask r) else []) @
         (if ir_src_ip_port_single r \<and> ir_dst_ip_port_single r then [] else [pf PF_cmpBitmap (unat bitmap) (unat bitmap)])
       else []) @
      (if ir_proto r = 0x01 then
         [pf (PF_l4Byte 0) (ir_icmp_type r) (ir_icmp_type_mask r), pf (PF_l4Byte 1) (ir_icmp_code r) (ir_icmp_code_mask r)]
       else if ir_proto r = 0x02 \<and> \<not> v6 then [pf (PF_l4Byte 0) (ir_igmp_type r) (ir_igmp_type_mask r)]
       else if ir_proto r = 0x06 then [pf (PF_l4Byte 13) (ir_tcp_flags r) (ir_tcp_flags_mask r)]
       else []))"

definition set_vid :: "u16 option \<Rightarrow> pcl_match" where
  "set_vid v = (case v of Some v \<Rightarrow> [pf PF_vid (unat v) 0xFFF] | None \<Rightarrow> [])"

definition set_ip_rule :: "pcl_env \<Rightarrow> ip_pcl_rule \<Rightarrow> nat \<Rightarrow> u16 option \<Rightarrow> cmp_ixs \<Rightarrow> pcl_match" where
  "set_ip_rule P r pcl_id v c =
     [pf PF_pclId pcl_id 0xFFFF, pf PF_isL2Valid 1 0xFF, pf PF_isIp 1 0xFF] @
     (if ir_proto r \<noteq> 0xFF then [pf PF_ipProtocol (unat (ir_proto r)) 0xFF] else []) @
     [pfb PF_sip (ir_src_ip r) (ir_src_ip_mask r), pfb PF_dip (ir_dst_ip r) (ir_dst_ip_mask r),
      pf PF_dscp (ir_dscp r) (ir_dscp_mask r)] @ set_l4 P r c False @ set_vid v"

text \<open>For IPv6 the protocol is not compared.\<close>

definition set_ipv6_rule :: "pcl_env \<Rightarrow> ip_pcl_rule \<Rightarrow> nat \<Rightarrow> u16 option \<Rightarrow> cmp_ixs \<Rightarrow> pcl_match" where
  "set_ipv6_rule P r pcl_id v c =
     [pf PF_pclId pcl_id 0xFFFF, pf PF_isL2Valid 1 0xFF, pf PF_isIp 1 0xFF, pf PF_isIpv6 1 0xFF,
      pfb PF_sip (ir_src_ip r) (ir_src_ip_mask r), pfb PF_dip (ir_dst_ip r) (ir_dst_ip_mask r),
      pf PF_dscp (ir_dscp r) (ir_dscp_mask r)] @ set_l4 P r c True @ set_vid v"

definition set_mac_rule :: "mac_pcl_rule \<Rightarrow> nat \<Rightarrow> u16 option \<Rightarrow> pcl_match" where
  "set_mac_rule r pcl_id v =
     [pf PF_pclId pcl_id 0xFFFF, pf PF_isL2Valid 1 0xFF, pf PF_l2Encap 1 0xFF,
      pfb PF_macSa (mr_src_mac r) (mr_src_mac_mask r), pfb PF_macDa (mr_dst_mac r) (mr_dst_mac_mask r),
      pf PF_etherType (mr_eth_type r) (mr_eth_type_mask r)] @
     (case v of None \<Rightarrow> [pf PF_vid (unat (mr_vid r)) (unat (mr_vid_mask r))] | Some v \<Rightarrow> set_vid (Some v)) @
     [pf PF_up (mr_cos r) (mr_cos_mask r)]"

section \<open>Setting rules\<close>

text \<open>The name of a rule is padded to \<open>NAME_SZ\<close> bytes.\<close>

definition bind_key :: "u8 list \<Rightarrow> pcl_action_type \<Rightarrow> u64 \<Rightarrow> pcl_interface \<Rightarrow> pcl_dest \<Rightarrow> rule_binding_key" where
  "bind_key name ty num i dest =
     \<lparr>bk_name = name @ replicate (NAME_SZ - length name) 0, bk_acttype = ty, bk_num = num, bk_interface = i,
      bk_destination = dest\<rparr>"

text \<open>The first \<open>switch\<close> of the functions: the identifier the rule is bound to, and the devices.\<close>

definition rule_devs :: "env \<Rightarrow> pcl_interface \<Rightarrow> pcl_dest \<Rightarrow> 'a acl_st_scheme \<Rightarrow> (status \<times> nat \<times> nat list) \<times> 'a acl_st_scheme" where
  "rule_devs E i dest s =
     (case pif_type i of
        PCL_INTERFACE_TYPE_VLAN \<Rightarrow>
          (case pcl_add_vlan_pcl_id E (pif_num i) s of
             (ST_OK, s) \<Rightarrow> ((ST_OK, vlan_ipcl_id (curr_acl s) (unat (pif_num i)), [0 ..< e_ndevs E]), s)
           | (st, s) \<Rightarrow> ((st, 0, []), s))
      | PCL_INTERFACE_TYPE_PORT \<Rightarrow>
          (case get_port_ptr (pif_num i) s of
             (ST_OK, Some port) \<Rightarrow>
               (case dest of
                  PCL_DEST_INGRESS \<Rightarrow> ((ST_OK, port_ipcl_id s (unat (pif_num i)), [pt_ldev port]), s)
                | PCL_DEST_EGRESS \<Rightarrow> ((ST_OK, port_epcl_id s (unat (pif_num i)), [pt_ldev port]), s)
                | PCL_DEST_OTHER \<Rightarrow> ((ST_BAD_VALUE, 0, []), s))
           | _ \<Rightarrow> ((ST_BAD_VALUE, 0, []), s))
      | PCL_INTERFACE_TYPE_OTHER \<Rightarrow> ((ST_BAD_VALUE, 0, []), s))"

text \<open>The comparators a rule needs: whether for the source or the destination, lower or upper bound.\<close>

definition range_cmps :: "pcl_env \<Rightarrow> pcl_dest \<Rightarrow> ip_pcl_rule \<Rightarrow> port_cmp_key list" where
  "range_cmps P dest r =
     (let key = (\<lambda>ty op n. \<lparr>ck_destination = dest, ck_ip_proto = ir_proto r, ck_port_type = ty, ck_op = op, ck_port_num = n\<rparr>) in
      if \<not> p_is_tcp_or_udp P (ir_proto r) then []
      else (if ir_src_ip_port_single r then []
            else [key PCL_PORT_SRC PCL_GTE (ir_src_ip_port r), key PCL_PORT_SRC PCL_LTE (ir_src_ip_port_max r)]) @
           (if ir_dst_ip_port_single r then []
            else [key PCL_PORT_DST PCL_GTE (ir_dst_ip_port r), key PCL_PORT_DST PCL_LTE (ir_dst_ip_port_max r)]))"

fun add_cmps ::
  "pcl_env \<Rightarrow> nat \<Rightarrow> nat \<Rightarrow> port_cmp_key list \<Rightarrow> cmp_ixs \<Rightarrow> 'a acl_st_scheme \<Rightarrow> (status \<times> cmp_ixs) \<times> 'a acl_st_scheme" where
  "add_cmps P d ix [] c s = ((ST_OK, c), s)"
| "add_cmps P d ix (k # ks) ((s0, s1), (d0, d1)) s =
     (let old = (case (ck_port_type k, ck_op k) of
            (PCL_PORT_SRC, PCL_GTE) \<Rightarrow> s0 | (PCL_PORT_SRC, PCL_LTE) \<Rightarrow> s1
          | (PCL_PORT_DST, PCL_GTE) \<Rightarrow> d0 | (PCL_PORT_DST, PCL_LTE) \<Rightarrow> d1) in
      case pcl_add_port_cmp_ix P d k ix old s of
        ((ST_OK, n), s) \<Rightarrow>
          add_cmps P d ix ks (case (ck_port_type k, ck_op k) of
            (PCL_PORT_SRC, PCL_GTE) \<Rightarrow> ((n, s1), (d0, d1)) | (PCL_PORT_SRC, PCL_LTE) \<Rightarrow> ((s0, n), (d0, d1))
          | (PCL_PORT_DST, PCL_GTE) \<Rightarrow> ((s0, s1), (n, d1)) | (PCL_PORT_DST, PCL_LTE) \<Rightarrow> ((s0, s1), (d0, n))) s
      | ((st, n), s) \<Rightarrow> ((st, ((s0, s1), (d0, d1))), s))"

text \<open>The body of the loop over the devices.\<close>

definition rule_write :: "nat \<Rightarrow> pcl_dest \<Rightarrow> nat \<Rightarrow> pcl_format \<times> pcl_format \<Rightarrow> pcl_match \<Rightarrow> pcl_action \<Rightarrow> 'a sw_scheme \<Rightarrow> status \<times> 'a sw_scheme" where
  "rule_write d dest ix fmts match act s =
     (case dest of
        PCL_DEST_INGRESS \<Rightarrow> (ST_OK, rule_set d (fst fmts) ix match act s)
      | PCL_DEST_EGRESS \<Rightarrow> (ST_OK, rule_set d (snd fmts) ix match act s)
      | PCL_DEST_OTHER \<Rightarrow> (ST_BAD_VALUE, s))"

definition rule_step ::
  "pcl_env \<Rightarrow> rule_binding_key \<Rightarrow> port_cmp_key list \<Rightarrow>
     (nat \<Rightarrow> 'a acl_st_scheme \<Rightarrow> pcl_action option \<times> 'a acl_st_scheme) \<Rightarrow> pcl_format \<times> pcl_format \<Rightarrow> (cmp_ixs \<Rightarrow> pcl_match) \<Rightarrow>
     nat \<Rightarrow> 'a acl_st_scheme \<Rightarrow> status \<times> 'a acl_st_scheme" where
  "rule_step P key cmps action fmts match d s =
     (case pcl_add_rule_ix d key s of
        ((ST_OK, ix), s) \<Rightarrow>
          (case add_cmps P d ix cmps ((0, 0), (0, 0)) s of
             ((ST_OK, c), s) \<Rightarrow>
               if user_acl_fake_mode s then (ST_OK, s)
               else (case action ix s of
                  (None, s) \<Rightarrow> (ST_BAD_VALUE, s)
                | (Some act, s) \<Rightarrow> rule_write d (bk_destination key) ix fmts (match c) act s)
           | ((st, c), s) \<Rightarrow> (st, s))
      | ((st, ix), s) \<Rightarrow> (st, s))"

fun rule_loop :: "(nat \<Rightarrow> 's \<Rightarrow> status \<times> 's) \<Rightarrow> nat list \<Rightarrow> 's \<Rightarrow> status \<times> 's" where
  "rule_loop step [] s = (ST_OK, s)"
| "rule_loop step (d # ds) s = (case step d s of (ST_OK, s) \<Rightarrow> rule_loop step ds s | (st, s) \<Rightarrow> (st, s))"

definition override_vid :: "pcl_interface \<Rightarrow> u16 option" where
  "override_vid i = (if pif_type i = PCL_INTERFACE_TYPE_VLAN then Some (pif_num i) else None)"

definition NOT_IPV6_FORMATS :: "pcl_format \<times> pcl_format" where
  "NOT_IPV6_FORMATS = (INGRESS_EXT_NOT_IPV6, EGRESS_EXT_NOT_IPV6)"

definition IPV6_FORMATS :: "pcl_format \<times> pcl_format" where
  "IPV6_FORMATS = (INGRESS_EXT_IPV6_L4, EGRESS_EXT_IPV6_L4)"

definition pcl_ip_rule_set ::
  "env \<Rightarrow> pcl_env \<Rightarrow> u8 list \<Rightarrow> pcl_action_type \<Rightarrow> u64 \<Rightarrow> pcl_interface \<Rightarrow> pcl_dest \<Rightarrow> pcl_rule_action \<Rightarrow> pcl_action_params \<Rightarrow>
     ip_pcl_rule \<Rightarrow> 'a acl_st_scheme \<Rightarrow> status \<times> 'a acl_st_scheme" where
  "pcl_ip_rule_set E P name ty num i dest action params r s =
     (if length name > NAME_SZ then (ST_BAD_VALUE, s)
      else case rule_devs E i dest s of
        ((ST_OK, pcl_id, devs), s) \<Rightarrow>
          rule_loop (rule_step P (bind_key name ty num i dest) (range_cmps P dest r)
            (\<lambda>ix. set_pcl_action ix dest action params (ir_trap_action r)) NOT_IPV6_FORMATS
            (set_ip_rule P r pcl_id (override_vid i))) devs s
      | ((st, _), s) \<Rightarrow> (st, s))"

definition pcl_ipv6_rule_set ::
  "env \<Rightarrow> pcl_env \<Rightarrow> u8 list \<Rightarrow> pcl_action_type \<Rightarrow> u64 \<Rightarrow> pcl_interface \<Rightarrow> pcl_dest \<Rightarrow> pcl_rule_action \<Rightarrow> pcl_action_params \<Rightarrow>
     ip_pcl_rule \<Rightarrow> 'a acl_st_scheme \<Rightarrow> status \<times> 'a acl_st_scheme" where
  "pcl_ipv6_rule_set E P name ty num i dest action params r s =
     (if length name > NAME_SZ then (ST_BAD_VALUE, s)
      else case rule_devs E i dest s of
        ((ST_OK, pcl_id, devs), s) \<Rightarrow>
          rule_loop (rule_step P (bind_key name ty num i dest) (range_cmps P dest r)
            (\<lambda>ix. set_pcl_action ix dest action params (ir_trap_action r)) IPV6_FORMATS
            (set_ipv6_rule P r pcl_id (override_vid i))) devs s
      | ((st, _), s) \<Rightarrow> (st, s))"

definition pcl_mac_rule_set ::
  "env \<Rightarrow> pcl_env \<Rightarrow> u8 list \<Rightarrow> pcl_action_type \<Rightarrow> u64 \<Rightarrow> pcl_interface \<Rightarrow> pcl_dest \<Rightarrow> pcl_rule_action \<Rightarrow> pcl_action_params \<Rightarrow>
     mac_pcl_rule \<Rightarrow> 'a acl_st_scheme \<Rightarrow> status \<times> 'a acl_st_scheme" where
  "pcl_mac_rule_set E P name ty num i dest action params r s =
     (if length name > NAME_SZ then (ST_BAD_VALUE, s)
      else case rule_devs E i dest s of
        ((ST_OK, pcl_id, devs), s) \<Rightarrow>
          rule_loop (rule_step P (bind_key name ty num i dest) []
            (\<lambda>ix. set_pcl_action ix dest action params (mr_trap_action r)) NOT_IPV6_FORMATS
            (\<lambda>_. set_mac_rule r pcl_id (override_vid i))) devs s
      | ((st, _), s) \<Rightarrow> (st, s))"

text \<open>The default rule has number 0 and no name; no field of its mask is set.\<close>

definition default_action :: "pcl_dest \<Rightarrow> pcl_default_action \<Rightarrow> nat \<Rightarrow> 'a sw_scheme \<Rightarrow> pcl_action option \<times> 'a sw_scheme" where
  "default_action dest dflt ix s =
     (case dflt of
        DEFAULT_DENY \<Rightarrow> set_pcl_action ix dest RULE_DENY AP_NULL TRAP_NONE s
      | DEFAULT_PERMIT \<Rightarrow> set_pcl_action ix dest RULE_PERMIT AP_NULL TRAP_NONE s
      | DEFAULT_OTHER \<Rightarrow> (None, s))"

definition pcl_default_rule_set ::
  "env \<Rightarrow> pcl_env \<Rightarrow> pcl_interface \<Rightarrow> pcl_dest \<Rightarrow> pcl_default_action \<Rightarrow> 'a acl_st_scheme \<Rightarrow> status \<times> 'a acl_st_scheme" where
  "pcl_default_rule_set E P i dest dflt s =
     (case rule_devs E i dest s of
        ((ST_OK, pcl_id, devs), s) \<Rightarrow>
          rule_loop (rule_step P (bind_key [] ACTION_TYPE_ACL 0 i dest) [] (default_action dest dflt) NOT_IPV6_FORMATS
            (\<lambda>_. [])) devs s
      | ((st, _), s) \<Rightarrow> (st, s))"

section \<open>Resetting an interface\<close>

text \<open>One rule index leaves the lists of the comparators; a comparator no rule uses is given back.\<close>

definition release_cmp :: "nat \<Rightarrow> nat \<Rightarrow> port_cmp_key \<Rightarrow> 'a acl_st_scheme \<Rightarrow> 'a acl_st_scheme" where
  "release_cmp d ix key s =
     (let idxs = port_cmp_idxs (curr_acl s) d; cmps = port_cmps (curr_acl s) d in
      case hash_find pc_key cmps key of
        None \<Rightarrow> s
      | Some pc \<Rightarrow>
          if ix \<notin> set (pc_rule_idxs pc) then s
          else if remove1 ix (pc_rule_idxs pc) = [] then
            cmps_upd d (dstack_rev_sort2 (dstack_push (pc_cmp_ix pc) idxs)) (hash_del pc_key key cmps) s
          else cmps_upd d idxs (hash_mod pc_key key (\<lambda>pc. pc\<lparr>pc_rule_idxs := remove1 ix (pc_rule_idxs pc)\<rparr>) cmps) s)"

definition reset_matches :: "pcl_interface \<Rightarrow> pcl_dest \<Rightarrow> pcl_action_type \<Rightarrow> rule_binding_key \<Rightarrow> bool" where
  "reset_matches i dest ty k \<longleftrightarrow> bk_interface k = i \<and> bk_destination k = dest \<and> bk_acttype k = ty"

definition remove_rule :: "nat \<Rightarrow> nat \<Rightarrow> rule_binding_key \<Rightarrow> 'a acl_st_scheme \<Rightarrow> 'a acl_st_scheme" where
  "remove_rule block d key s =
     (case hash_find rb_key (bindings (curr_acl s) d) key of
        None \<Rightarrow> s
      | Some b \<Rightarrow>
          let ix = rb_ix b;
              s = fold (release_cmp d ix) (map pc_key (port_cmps (curr_acl s) d)) s;
              s = (if user_acl_fake_mode s then s else rule_invalidate d ix s);
              s = snd (ix_book_return d ix s);
              s = emit (Pc (CncCounterSet d block ix)) s in
          bindings_upd d (hash_del rb_key key) s)"

definition reset_dev :: "pcl_interface \<Rightarrow> pcl_dest \<Rightarrow> pcl_action_type \<Rightarrow> nat \<Rightarrow> nat \<Rightarrow> 'a acl_st_scheme \<Rightarrow> 'a acl_st_scheme" where
  "reset_dev i dest ty block d s =
     fold (remove_rule block d) (filter (reset_matches i dest ty) (map rb_key (bindings (curr_acl s) d))) s"

definition pcl_reset_rules :: "env \<Rightarrow> pcl_interface \<Rightarrow> pcl_dest \<Rightarrow> pcl_action_type \<Rightarrow> 'a acl_st_scheme \<Rightarrow> 'a acl_st_scheme" where
  "pcl_reset_rules E i dest ty s =
     (let devs = (\<lambda>block s. fold (reset_dev i dest ty block) [0 ..< e_ndevs E] s); v = unat (pif_num i) in
      case pif_type i of
        PCL_INTERFACE_TYPE_VLAN \<Rightarrow>
          if v \<ge> VLAN_IPCL_IDS then crash s
          else devs 1 (acl_upd (\<lambda>a. a\<lparr>pcl_ids := dstack_push (vlan_ipcl_id a v) (pcl_ids a),
                                     vlan_ipcl_id := (vlan_ipcl_id a)(v := 0)\<rparr>) s)
      | PCL_INTERFACE_TYPE_PORT \<Rightarrow> devs 0 s
      | PCL_INTERFACE_TYPE_OTHER \<Rightarrow> s)"

section \<open>Counters\<close>

text \<open>Block and devices. The counter is read from and cleared on the device whose number is the
  position in the list of devices.\<close>

definition counter_devs :: "env \<Rightarrow> pcl_interface \<Rightarrow> 'a acl_st_scheme \<Rightarrow> (nat \<times> nat list) option" where
  "counter_devs E i s =
     (case pif_type i of
        PCL_INTERFACE_TYPE_VLAN \<Rightarrow> Some (1, [0 ..< e_ndevs E])
      | PCL_INTERFACE_TYPE_PORT \<Rightarrow>
          (case get_port_ptr (pif_num i) s of (ST_OK, Some port) \<Rightarrow> Some (0, [pt_ldev port]) | _ \<Rightarrow> None)
      | PCL_INTERFACE_TYPE_OTHER \<Rightarrow> None)"

fun counter_loop ::
  "pcl_env \<Rightarrow> nat \<Rightarrow> rule_binding_key \<Rightarrow> (nat \<times> nat) list \<Rightarrow> u64 \<Rightarrow> 'a acl_st_scheme \<Rightarrow> (status \<times> u64) \<times> 'a acl_st_scheme" where
  "counter_loop P block key [] n s = ((ST_OK, n), s)"
| "counter_loop P block key ((i, d) # ds) n s =
     (case pcl_find_rule_ix d key s of
        None \<Rightarrow> ((ST_BAD_VALUE, n), s)
      | Some ix \<Rightarrow>
          let c = p_counter P (hw s) i block ix in
          counter_loop P block key ds (n + c) (emit (Pc (CncCounterGet i block ix)) s))"

definition pcl_get_counter ::
  "env \<Rightarrow> pcl_env \<Rightarrow> pcl_interface \<Rightarrow> pcl_dest \<Rightarrow> u8 list \<Rightarrow> u64 \<Rightarrow> 'a acl_st_scheme \<Rightarrow> (status \<times> u64) \<times> 'a acl_st_scheme" where
  "pcl_get_counter E P i dest name num s =
     (if length name > NAME_SZ then ((ST_BAD_VALUE, 0), s)
      else case counter_devs E i s of
        None \<Rightarrow> ((ST_BAD_VALUE, 0), s)
      | Some (block, devs) \<Rightarrow>
          counter_loop P block (bind_key name ACTION_TYPE_ACL num i dest) (enumerate 0 devs) 0 s)"

fun clear_loop :: "nat \<Rightarrow> rule_binding_key \<Rightarrow> (nat \<times> nat) list \<Rightarrow> 'a acl_st_scheme \<Rightarrow> status \<times> 'a acl_st_scheme" where
  "clear_loop block key [] s = (ST_OK, s)"
| "clear_loop block key ((i, d) # ds) s =
     (case pcl_find_rule_ix d key s of
        None \<Rightarrow> (ST_BAD_VALUE, s)
      | Some ix \<Rightarrow> clear_loop block key ds (emit (Pc (CncCounterSet i block ix)) s))"

definition pcl_clear_counter ::
  "env \<Rightarrow> pcl_interface \<Rightarrow> pcl_dest \<Rightarrow> u8 list \<Rightarrow> u64 \<Rightarrow> 'a acl_st_scheme \<Rightarrow> status \<times> 'a acl_st_scheme" where
  "pcl_clear_counter E i dest name num s =
     (if length name > NAME_SZ then (ST_BAD_VALUE, s)
      else case counter_devs E i s of
        None \<Rightarrow> (ST_BAD_VALUE, s)
      | Some (block, devs) \<Rightarrow> clear_loop block (bind_key name ACTION_TYPE_ACL num i dest) (enumerate 0 devs) s)"

section \<open>Trial mode\<close>

text \<open>\<open>memcpy\<close> of 4095 bytes into an array of 16-bit numbers: elements 0 to 2046, and the first byte of
  the next.\<close>

definition copy_4095_bytes :: "bool \<Rightarrow> (nat \<Rightarrow> nat) \<Rightarrow> (nat \<Rightarrow> nat) \<Rightarrow> nat \<Rightarrow> nat" where
  "copy_4095_bytes big_endian src dst =
     (\<lambda>v. if v < 2047 then src v
          else if v = 2047 then
            (if big_endian then src v div 256 * 256 + dst v mod 256 else dst v div 256 * 256 + src v mod 256)
          else dst v)"

definition copy_cmp :: "port_cmp \<Rightarrow> port_cmp" where
  "copy_cmp pc = pc\<lparr>pc_rule_idxs := rev (pc_rule_idxs pc)\<rparr>"

definition fake_copy :: "env \<Rightarrow> user_acl \<Rightarrow> user_acl \<Rightarrow> user_acl" where
  "fake_copy E a fake =
     \<lparr>pcl_ids = dstack_copy (pcl_ids a),
      vlan_ipcl_id = copy_4095_bytes (e_big_endian E) (vlan_ipcl_id a) (vlan_ipcl_id fake),
      book = book a,
      bindings = (\<lambda>d. if d < e_ndevs E then bindings a d else bindings fake d),
      port_cmp_idxs = (\<lambda>d. if d < e_ndevs E then dstack_copy (port_cmp_idxs a d) else port_cmp_idxs fake d),
      port_cmps = (\<lambda>d. if d < e_ndevs E then map copy_cmp (port_cmps a d) else port_cmps fake d)\<rparr>"

definition pcl_set_fake_mode_enabled :: "env \<Rightarrow> bool \<Rightarrow> 'a acl_st_scheme \<Rightarrow> 'a acl_st_scheme" where
  "pcl_set_fake_mode_enabled E enable s =
     (if enable then s\<lparr>user_acl_fake_mode := True, user_acl_fake := fake_copy E (user_acl s) (user_acl_fake s)\<rparr>
      else s\<lparr>user_acl_fake_mode := False\<rparr>)"

end
