(* ===== verification/Pcl_Book.thy ===== *)
theory Pcl_Book
  imports Pcl_Rule
begin

text \<open>
  The index book as a list of rules: what the devices hold (\<open>pcl_rule_at\<close>), what moving rules does to
  it, and the invariant of the book: the rules of access lists, QoS policies and routing policies lie
  one behind the other without gaps, in the order in which they were set, and the rest of the space
  is empty.
\<close>

section \<open>The rule table of a device\<close>

type_synonym pcl_slot = "(pcl_format \<times> pcl_match \<times> pcl_action) option"

definition pcl_slot_step :: "pcl_effect \<Rightarrow> (nat \<Rightarrow> nat \<Rightarrow> pcl_slot) \<Rightarrow> nat \<Rightarrow> nat \<Rightarrow> pcl_slot" where
  "pcl_slot_step e tab d ix =
     (case e of
        PclRuleSet d' fmt ix' m a \<Rightarrow> if d' = d \<and> ix' = ix then Some (fmt, m, a) else tab d ix
      | PclRuleInvalidate d' ix' \<Rightarrow> if d' = d \<and> ix' = ix then None else tab d ix
      | PclRuleCopy d' old_ix new_ix \<Rightarrow> if d' = d \<and> new_ix = ix then tab d old_ix else tab d ix
      | _ \<Rightarrow> tab d ix)"

fun pcl_rule_at :: "effect list \<Rightarrow> nat \<Rightarrow> nat \<Rightarrow> pcl_slot" where
  "pcl_rule_at [] = (\<lambda>d ix. None)"
| "pcl_rule_at (e # es) = (case e of Pc e \<Rightarrow> pcl_slot_step e (pcl_rule_at es) | _ \<Rightarrow> pcl_rule_at es)"

text \<open>Calls that do not touch the rules.\<close>

definition pcl_no_rule :: "effect \<Rightarrow> bool" where
  "pcl_no_rule e \<longleftrightarrow> (\<forall>tab. (case e of Pc e \<Rightarrow> pcl_slot_step e tab | _ \<Rightarrow> tab) = tab)"

lemma pcl_rule_at_append: "\<forall>e \<in> set es. pcl_no_rule e \<Longrightarrow> pcl_rule_at (es @ h) = pcl_rule_at h"
  by (induction es) (simp_all add: pcl_no_rule_def)

section \<open>Updates of the book-keeping\<close>

named_theorems acl_simps

lemma curr_acl_upd [acl_simps]: "curr_acl (acl_upd f s) = f (curr_acl s)"
  by (simp add: curr_acl_def acl_upd_def)

lemma acl_upd_frame [acl_simps]:
  "hw (acl_upd f s) = hw s" "user_acl_fake_mode (acl_upd f s) = user_acl_fake_mode s" "ports (acl_upd f s) = ports s" "stack_id (acl_upd f s) = stack_id s"
  by (simp_all add: acl_upd_def)

lemma acl_upd_hw [acl_simps]: "acl_upd f (s\<lparr>hw := h\<rparr>) = (acl_upd f s)\<lparr>hw := h\<rparr>"
  by (simp add: acl_upd_def)

lemma acl_upd_upd: "acl_upd g (acl_upd f s) = acl_upd (g \<circ> f) s"
  by (simp add: acl_upd_def)

lemma acl_upd_cong: "f (curr_acl s) = g (curr_acl s) \<Longrightarrow> acl_upd f s = acl_upd g s"
  by (simp add: acl_upd_def curr_acl_def split: if_splits)

lemma curr_acl_hw [acl_simps]: "curr_acl (s\<lparr>hw := h\<rparr>) = curr_acl s"
  by (simp add: curr_acl_def)

lemma acl_ports_emit [acl_simps]: "ports (emit e s) = ports s" "stack_id (emit e s) = stack_id s"
  by (simp_all add: emit_def)

lemma curr_acl_emit [acl_simps]:
  "curr_acl (emit e s) = curr_acl s" "user_acl_fake_mode (emit e s) = user_acl_fake_mode s"
  by (simp_all add: emit_def curr_acl_def)

lemma curr_acl_crash [acl_simps]:
  "curr_acl (crash s) = curr_acl s" "user_acl_fake_mode (crash s) = user_acl_fake_mode s"
  by (simp_all add: crash_def curr_acl_def)

lemma bindings_upd_upd: "bindings_upd d g (bindings_upd d f s) = bindings_upd d (g \<circ> f) s"
  by (auto simp: bindings_upd_def acl_upd_upd intro!: arg_cong2 [where f = acl_upd])

definition rb_map :: "(nat \<Rightarrow> nat) \<Rightarrow> rule_binding \<Rightarrow> rule_binding" where
  "rb_map g b = b\<lparr>rb_ix := g (rb_ix b)\<rparr>"

lemma rb_map_sel [simp]: "rb_key (rb_map g b) = rb_key b" "rb_ix (rb_map g b) = g (rb_ix b)"
  by (simp_all add: rb_map_def)

lemma rb_map_comp: "map (rb_map g) (map (rb_map f) bs) = map (rb_map (g \<circ> f)) bs"
  by (simp add: rb_map_def)

lemma rb_map_id: "(\<And>j. g j = j) \<Longrightarrow> map (rb_map g) = id"
  by (rule ext) (simp add: rb_map_def map_idI)

section \<open>Moving rules\<close>

lemma ix_book_move_rule_eq:
  "ix_book_move_rule d i n s =
     bindings_upd d (map (rb_map (\<lambda>j. if j = i then n else j)))
       (s\<lparr>hw := (if user_acl_fake_mode s then [] else [Pc (PclRuleInvalidate d i), Pc (PclRuleCopy d i n)]) @ hw s\<rparr>)"
proof -
  have e: "(\<lambda>b. if rb_ix b = i then b\<lparr>rb_ix := n\<rparr> else b) = rb_map (\<lambda>j. if j = i then n else j)"
    by (rule ext) (simp add: rb_map_def)
  show ?thesis
    by (simp add: ix_book_move_rule_def ix_book_edit_ix_in_binding_def e rule_invalidate_def emit_def Let_def)
qed

text \<open>The table after rules from \<open>lo\<close> to \<open>hi - 1\<close> went one place on, or from \<open>lo + 1\<close> to \<open>hi\<close> one back.\<close>

definition up_ix :: "nat \<Rightarrow> nat \<Rightarrow> nat \<Rightarrow> nat" where
  "up_ix lo hi j = (if lo \<le> j \<and> j < hi then Suc j else j)"

definition down_ix :: "nat \<Rightarrow> nat \<Rightarrow> nat \<Rightarrow> nat" where
  "down_ix lo hi j = (if lo < j \<and> j \<le> hi then j - 1 else j)"

lemma move_up_eq:
  assumes "lo \<le> hi"
  shows "\<exists>h. move_up d lo hi s = bindings_upd d (map (rb_map (up_ix lo hi))) (s\<lparr>hw := h\<rparr>) \<and>
    (if user_acl_fake_mode s then h = hw s
     else \<forall>d' j. pcl_rule_at h d' j =
       (if d' = d \<and> lo < j \<and> j \<le> hi then pcl_rule_at (hw s) d (j - 1)
        else if d' = d \<and> j = lo \<and> lo < hi then None else pcl_rule_at (hw s) d' j))"
  using assms
proof (induction hi arbitrary: s rule: dec_induct)
  case base
  have "move_up d lo lo s = s" by (simp add: move_up_def)
  moreover have "map (rb_map (up_ix lo lo)) = id" by (rule rb_map_id) (simp add: up_ix_def)
  ultimately show ?case by (intro exI [of _ "hw s"]) (auto simp: bindings_upd_def acl_upd_def)
next
  case (step hi)
  let ?s = "ix_book_move_rule d hi (Suc hi) s"
  have unfold: "move_up d lo (Suc hi) s = move_up d lo hi ?s"
    using step.hyps by (simp add: move_up_def)
  from step.IH [of ?s] obtain h where
    h: "move_up d lo hi ?s = bindings_upd d (map (rb_map (up_ix lo hi))) (?s\<lparr>hw := h\<rparr>)"
    and spec: "if user_acl_fake_mode ?s then h = hw ?s
     else \<forall>d' j. pcl_rule_at h d' j =
       (if d' = d \<and> lo < j \<and> j \<le> hi then pcl_rule_at (hw ?s) d (j - 1)
        else if d' = d \<and> j = lo \<and> lo < hi then None else pcl_rule_at (hw ?s) d' j)" by blast
  have g: "map (rb_map (up_ix lo hi)) \<circ> map (rb_map (\<lambda>j. if j = hi then Suc hi else j)) = map (rb_map (up_ix lo (Suc hi)))"
    using step.hyps by (auto simp: fun_eq_iff rb_map_def up_ix_def)
  have fake: "user_acl_fake_mode ?s = user_acl_fake_mode s"
    by (simp add: ix_book_move_rule_eq bindings_upd_def acl_simps)
  have hw: "hw ?s = (if user_acl_fake_mode s then [] else [Pc (PclRuleInvalidate d hi), Pc (PclRuleCopy d hi (Suc hi))]) @ hw s"
    by (simp add: ix_book_move_rule_eq bindings_upd_def acl_simps)
  have "move_up d lo (Suc hi) s = bindings_upd d (map (rb_map (up_ix lo (Suc hi)))) (s\<lparr>hw := h\<rparr>)"
    unfolding unfold h g [symmetric] bindings_upd_upd [symmetric]
    by (simp add: ix_book_move_rule_eq bindings_upd_def acl_simps)
  moreover have "if user_acl_fake_mode s then h = hw s
     else \<forall>d' j. pcl_rule_at h d' j =
       (if d' = d \<and> lo < j \<and> j \<le> Suc hi then pcl_rule_at (hw s) d (j - 1)
        else if d' = d \<and> j = lo \<and> lo < Suc hi then None else pcl_rule_at (hw s) d' j)"
  proof (cases "user_acl_fake_mode s")
    case True
    with spec fake hw show ?thesis by simp
  next
    case False
    have old: "pcl_rule_at (hw ?s) d' j = (if d' = d \<and> j = hi then None else if d' = d \<and> j = Suc hi then pcl_rule_at (hw s) d hi
        else pcl_rule_at (hw s) d' j)" for d' j
      using False by (simp add: hw pcl_slot_step_def)
    have "pcl_rule_at h d' j = (if d' = d \<and> lo < j \<and> j \<le> Suc hi then pcl_rule_at (hw s) d (j - 1)
        else if d' = d \<and> j = lo then None else pcl_rule_at (hw s) d' j)" for d' j
    proof -
      have spec: "pcl_rule_at h d' j = (if d' = d \<and> lo < j \<and> j \<le> hi then pcl_rule_at (hw ?s) d (j - 1)
        else if d' = d \<and> j = lo \<and> lo < hi then None else pcl_rule_at (hw ?s) d' j)"
        using spec fake False by simp
      consider "d' \<noteq> d" | "d' = d" "j = Suc hi" | "d' = d" "j = hi" | "d' = d" "j \<noteq> hi" "j \<noteq> Suc hi" by blast
      then show ?thesis using step.hyps unfolding spec old by cases auto
    qed
    with False step.hyps show ?thesis by simp
  qed
  ultimately show ?case by blast
qed

lemma move_down_eq:
  assumes "lo \<le> hi"
  shows "\<exists>h. move_down d lo hi s = bindings_upd d (map (rb_map (down_ix lo hi))) (s\<lparr>hw := h\<rparr>) \<and>
    (if user_acl_fake_mode s then h = hw s
     else \<forall>d' j. pcl_rule_at h d' j =
       (if d' = d \<and> lo \<le> j \<and> j < hi then pcl_rule_at (hw s) d (Suc j)
        else if d' = d \<and> j = hi \<and> lo < hi then None else pcl_rule_at (hw s) d' j))"
  using assms
proof (induction hi rule: dec_induct)
  case base
  have "move_down d lo lo s = s" by (simp add: move_down_def)
  moreover have "map (rb_map (down_ix lo lo)) = id" by (rule rb_map_id) (simp add: down_ix_def)
  ultimately show ?case by (intro exI [of _ "hw s"]) (auto simp: bindings_upd_def acl_upd_def)
next
  case (step hi)
  from step.IH obtain h where
    h: "move_down d lo hi s = bindings_upd d (map (rb_map (down_ix lo hi))) (s\<lparr>hw := h\<rparr>)"
    and spec: "if user_acl_fake_mode s then h = hw s
     else \<forall>d' j. pcl_rule_at h d' j =
       (if d' = d \<and> lo \<le> j \<and> j < hi then pcl_rule_at (hw s) d (Suc j)
        else if d' = d \<and> j = hi \<and> lo < hi then None else pcl_rule_at (hw s) d' j)" by blast
  let ?h = "(if user_acl_fake_mode s then [] else [Pc (PclRuleInvalidate d (Suc hi)), Pc (PclRuleCopy d (Suc hi) hi)]) @ h"
  have g: "map (rb_map (\<lambda>j. if j = Suc hi then hi else j)) \<circ> map (rb_map (down_ix lo hi)) = map (rb_map (down_ix lo (Suc hi)))"
    using step.hyps by (auto simp: fun_eq_iff rb_map_def down_ix_def)
  have "move_down d lo (Suc hi) s = ix_book_move_rule d (Suc hi) hi (move_down d lo hi s)"
    using step.hyps by (simp add: move_down_def)
  also have "\<dots> = bindings_upd d (map (rb_map (down_ix lo (Suc hi)))) (s\<lparr>hw := ?h\<rparr>)"
    unfolding h g [symmetric] bindings_upd_upd [symmetric]
    by (simp add: ix_book_move_rule_eq bindings_upd_def acl_simps)
  finally have "move_down d lo (Suc hi) s = \<dots>" .
  moreover have "if user_acl_fake_mode s then ?h = hw s
     else \<forall>d' j. pcl_rule_at ?h d' j =
       (if d' = d \<and> lo \<le> j \<and> j < Suc hi then pcl_rule_at (hw s) d (Suc j)
        else if d' = d \<and> j = Suc hi \<and> lo < Suc hi then None else pcl_rule_at (hw s) d' j)"
  proof (cases "user_acl_fake_mode s")
    case True
    with spec show ?thesis by simp
  next
    case False
    have new: "pcl_rule_at ?h d' j = (if d' = d \<and> j = Suc hi then None else if d' = d \<and> j = hi then pcl_rule_at h d (Suc hi)
        else pcl_rule_at h d' j)" for d' j
      using False by (simp add: pcl_slot_step_def)
    have "pcl_rule_at ?h d' j = (if d' = d \<and> lo \<le> j \<and> j < Suc hi then pcl_rule_at (hw s) d (Suc j)
        else if d' = d \<and> j = Suc hi then None else pcl_rule_at (hw s) d' j)" for d' j
    proof -
      have spec: "pcl_rule_at h d' j = (if d' = d \<and> lo \<le> j \<and> j < hi then pcl_rule_at (hw s) d (Suc j)
        else if d' = d \<and> j = hi \<and> lo < hi then None else pcl_rule_at (hw s) d' j)" for d' j
        using spec False by simp
      consider "d' \<noteq> d" | "d' = d" "j = Suc hi" | "d' = d" "j = hi" | "d' = d" "j \<noteq> hi" "j \<noteq> Suc hi" by blast
      then show ?thesis using step.hyps unfolding new spec by cases auto
    qed
    with False step.hyps show ?thesis by simp
  qed
  ultimately show ?case by blast
qed

section \<open>The order of the rules\<close>

definition of_type :: "pcl_action_type \<Rightarrow> rule_binding list \<Rightarrow> rule_binding list" where
  "of_type ty = filter (\<lambda>b. bk_acttype (rb_key b) = ty)"

definition type_region :: "index_book \<Rightarrow> pcl_action_type \<Rightarrow> nat list" where
  "type_region b ty =
     (case ty of
        ACTION_TYPE_ACL \<Rightarrow> [ib_start b ..< acl_end b]
      | ACTION_TYPE_POLICY \<Rightarrow> [acl_end b ..< qos_end b]
      | ACTION_TYPE_POLICY_ROUTE \<Rightarrow> [qos_end b ..< pbr_end b]
      | ACTION_TYPE_OTHER \<Rightarrow> [])"

definition book_ok :: "index_book \<Rightarrow> rule_binding list \<Rightarrow> bool" where
  "book_ok b bs \<longleftrightarrow>
     ib_start b \<le> acl_end b \<and> acl_end b \<le> qos_end b \<and> qos_end b \<le> pbr_end b \<and> pbr_end b \<le> ib_end b \<and>
     (\<forall>ty. map rb_ix (of_type ty bs) = type_region b ty) \<and> keys_distinct rb_key bs"

text \<open>The rules of a class on a device: their names and what the device has for them.\<close>

definition acl_rules :: "'a acl_st_scheme \<Rightarrow> nat \<Rightarrow> pcl_action_type \<Rightarrow> (rule_binding_key \<times> pcl_slot) list" where
  "acl_rules s d ty = map (\<lambda>b. (rb_key b, pcl_rule_at (hw s) d (rb_ix b))) (of_type ty (bindings (curr_acl s) d))"

definition acl_space_empty :: "'a acl_st_scheme \<Rightarrow> nat \<Rightarrow> bool" where
  "acl_space_empty s d \<longleftrightarrow>
     (\<forall>ix. pbr_end (book (curr_acl s) d) \<le> ix \<and> ix < ib_end (book (curr_acl s) d) \<longrightarrow> pcl_rule_at (hw s) d ix = None)"


lemma type_region_unique: "j \<in> set (type_region b ty) \<Longrightarrow> j \<in> set (type_region b ty') \<Longrightarrow>
    acl_end b \<le> qos_end b \<Longrightarrow> ib_start b \<le> acl_end b \<Longrightarrow> qos_end b \<le> pbr_end b \<Longrightarrow> ty = ty'"
  by (cases ty; cases ty') (auto simp: type_region_def)

lemma type_region_bounds:
  assumes "book_ok b bs" "j \<in> set (type_region b ty)"
  shows "ib_start b \<le> j \<and> j < pbr_end b"
  using assms by (cases ty) (auto simp: type_region_def book_ok_def)

lemma binding_region: "book_ok b bs \<Longrightarrow> e \<in> set bs \<Longrightarrow> rb_ix e \<in> set (type_region b (bk_acttype (rb_key e)))"
  by (force simp: book_ok_def of_type_def dest: spec [of _ "bk_acttype (rb_key e)"] arg_cong [where f = set])

lemma binding_bounds: "book_ok b bs \<Longrightarrow> e \<in> set bs \<Longrightarrow> ib_start b \<le> rb_ix e \<and> rb_ix e < pbr_end b"
  using binding_region type_region_bounds by blast

lemma of_type_simps [simp]:
  "of_type ty [] = []" "set (of_type ty bs) = {e \<in> set bs. bk_acttype (rb_key e) = ty}"
  "of_type ty (bs @ cs) = of_type ty bs @ of_type ty cs"
  "of_type ty (map (rb_map g) bs) = map (rb_map g) (of_type ty bs)"
  by (auto simp: of_type_def filter_map o_def rb_map_def)

lemma book_ok_ix_unique:
  assumes ok: "book_ok b bs" and x: "x \<in> set bs" and e: "e \<in> set bs" and eq: "rb_ix x = rb_ix e"
  shows "x = e"
proof -
  note ords = ok [unfolded book_ok_def]
  let ?ty = "bk_acttype (rb_key e)"
  have "bk_acttype (rb_key x) = ?ty"
    using binding_region [OF ok x] binding_region [OF ok e] eq ords by (auto dest: type_region_unique)
  then have "x \<in> set (of_type ?ty bs)" "e \<in> set (of_type ?ty bs)" using x e by auto
  moreover have "distinct (map rb_ix (of_type ?ty bs))" using ords by (cases ?ty) (auto simp: type_region_def)
  ultimately show ?thesis using eq by (auto simp: distinct_map inj_on_def)
qed

lemma map_up_region: "m \<le> lo \<Longrightarrow> map (up_ix lo hi) [k ..< m] = [k ..< m]"
  by (rule map_idI) (simp add: up_ix_def)

lemma map_up_shift:
  assumes "lo \<le> k" "m \<le> hi"
  shows "map (up_ix lo hi) [k ..< m] = [Suc k ..< Suc m]"
proof -
  have "map (up_ix lo hi) [k ..< m] = map Suc [k ..< m]" using assms by (intro map_cong) (simp_all add: up_ix_def)
  then show ?thesis by (simp only: map_Suc_upt)
qed

section \<open>Taking an index\<close>

definition book_grown :: "pcl_action_type \<Rightarrow> index_book \<Rightarrow> index_book" where
  "book_grown ty b =
     (case ty of
        ACTION_TYPE_ACL \<Rightarrow> b\<lparr>acl_end := acl_end b + 1, qos_end := qos_end b + 1, pbr_end := pbr_end b + 1\<rparr>
      | ACTION_TYPE_POLICY \<Rightarrow> b\<lparr>qos_end := qos_end b + 1, pbr_end := pbr_end b + 1\<rparr>
      | ACTION_TYPE_POLICY_ROUTE \<Rightarrow> b\<lparr>pbr_end := pbr_end b + 1\<rparr>
      | ACTION_TYPE_OTHER \<Rightarrow> b)"

definition type_end :: "pcl_action_type \<Rightarrow> index_book \<Rightarrow> nat" where
  "type_end ty b =
     (case ty of ACTION_TYPE_ACL \<Rightarrow> acl_end b | ACTION_TYPE_POLICY \<Rightarrow> qos_end b | ACTION_TYPE_POLICY_ROUTE \<Rightarrow> pbr_end b
      | ACTION_TYPE_OTHER \<Rightarrow> 0)"

lemma move_up_none: "move_up d hi hi s = s"
  by (simp add: move_up_def)

lemma book_grown_simps:
  "book_grown ACTION_TYPE_ACL = (\<lambda>b. b\<lparr>acl_end := acl_end b + 1, qos_end := qos_end b + 1, pbr_end := pbr_end b + 1\<rparr>)"
  "book_grown ACTION_TYPE_POLICY = (\<lambda>b. b\<lparr>qos_end := qos_end b + 1, pbr_end := pbr_end b + 1\<rparr>)"
  "book_grown ACTION_TYPE_POLICY_ROUTE = (\<lambda>b. b\<lparr>pbr_end := pbr_end b + 1\<rparr>)"
  by (simp_all add: book_grown_def fun_eq_iff)

lemma ix_book_take_cases:
  "ix_book_take d ty s =
     (let b = book (curr_acl s) d in
      if ty = ACTION_TYPE_OTHER then ((IX_BOOK_BAD_ARG, 0), s)
      else if pbr_end b = ib_end b then ((IX_BOOK_NO_INDEXES, 0), s)
      else ((IX_BOOK_OK, type_end ty b), book_upd d (book_grown ty) (move_up d (type_end ty b) (pbr_end b) s)))"
  by (cases ty) (simp_all add: ix_book_take_def ix_book_action_acl_take_def ix_book_action_qos_take_def
      ix_book_action_pbr_take_def book_grown_simps type_end_def Let_def move_up_none)

lemma book_grown_ok:
  assumes ok: "book_ok b bs" and free: "pbr_end b \<noteq> ib_end b" and key: "key \<notin> rb_key ` set bs" "bk_acttype key = ty"
    and ty: "ty \<noteq> ACTION_TYPE_OTHER"
  shows "book_ok (book_grown ty b) (map (rb_map (up_ix (type_end ty b) (pbr_end b))) bs @ [\<lparr>rb_key = key, rb_ix = type_end ty b\<rparr>])"
    (is "book_ok ?b (map ?m bs @ [?e])")
proof -
  note ords = ok [unfolded book_ok_def]
  have reg: "map rb_ix (of_type ty' (map ?m bs @ [?e])) =
      map (up_ix (type_end ty b) (pbr_end b)) (type_region b ty') @ (if ty' = ty then [type_end ty b] else [])" for ty'
  proof -
    have "map rb_ix (of_type ty' bs) = type_region b ty'" using ords by blast
    then have "map (up_ix (type_end ty b) (pbr_end b)) (type_region b ty') = map (up_ix (type_end ty b) (pbr_end b)) (map rb_ix (of_type ty' bs))"
      by simp
    then show ?thesis using key(2) by (auto simp: of_type_def filter_map o_def)
  qed
  have "map (up_ix (type_end ty b) (pbr_end b)) (type_region b ty') @ (if ty' = ty then [type_end ty b] else []) = type_region ?b ty'" for ty'
    using ords ty
    by (cases ty; cases ty') (simp_all add: type_region_def book_grown_def type_end_def map_up_region map_up_shift)
  moreover have "keys_distinct rb_key (map ?m bs @ [?e])"
    using ords key(1) by (auto simp: o_def)
  moreover have "ib_start ?b \<le> acl_end ?b \<and> acl_end ?b \<le> qos_end ?b \<and> qos_end ?b \<le> pbr_end ?b \<and> pbr_end ?b \<le> ib_end ?b"
    using ords free by (cases ty) (simp_all add: book_grown_def)
  ultimately show ?thesis unfolding book_ok_def reg by blast
qed

lemma pcl_add_rule_ix_eq:
  assumes "pcl_add_rule_ix d key s = ((ST_OK, ix), t)" "book_ok (book (curr_acl s) d) (bindings (curr_acl s) d)"
  defines "b \<equiv> book (curr_acl s) d" and "ty \<equiv> bk_acttype key"
  shows "\<exists>h. t = acl_upd (\<lambda>a. a\<lparr>book := (book a)(d := book_grown ty b),
        bindings := (bindings a)(d := map (rb_map (up_ix ix (pbr_end b))) (bindings a d) @ [\<lparr>rb_key = key, rb_ix = ix\<rparr>])\<rparr>) (s\<lparr>hw := h\<rparr>) \<and>
    (if user_acl_fake_mode s then h = hw s
     else \<forall>d' j. pcl_rule_at h d' j =
       (if d' = d \<and> ix < j \<and> j \<le> pbr_end b then pcl_rule_at (hw s) d (j - 1)
        else if d' = d \<and> j = ix \<and> ix < pbr_end b then None else pcl_rule_at (hw s) d' j)) \<and>
    ix = type_end ty b \<and> ty \<noteq> ACTION_TYPE_OTHER \<and> pbr_end b < ib_end b \<and> ix \<le> pbr_end b \<and> ib_start b \<le> ix \<and>
    key \<notin> rb_key ` set (bindings (curr_acl s) d)"
proof -
  from assms(1) have free: "hash_find rb_key (bindings (curr_acl s) d) key = None"
    by (auto simp: pcl_add_rule_ix_def split: option.splits prod.splits ix_book_status.splits)
  with assms(1) have ty: "ty \<noteq> ACTION_TYPE_OTHER" and sp: "pbr_end b \<noteq> ib_end b" and ix: "ix = type_end ty b"
    and t: "t = bindings_upd d (hash_add \<lparr>rb_key = key, rb_ix = ix\<rparr>) (book_upd d (book_grown ty) (move_up d ix (pbr_end b) s))"
    by (auto simp: pcl_add_rule_ix_def ix_book_take_cases Let_def ty_def b_def split: if_splits)
  have le: "ix \<le> pbr_end b" "ib_start b \<le> ix" "pbr_end b < ib_end b"
    using assms(2) sp ty by (cases ty; simp add: book_ok_def ix type_end_def b_def [symmetric])+
  from move_up_eq [OF le(1), of d s] obtain h where
    h: "move_up d ix (pbr_end b) s = bindings_upd d (map (rb_map (up_ix ix (pbr_end b)))) (s\<lparr>hw := h\<rparr>)"
    and spec: "if user_acl_fake_mode s then h = hw s
     else \<forall>d' j. pcl_rule_at h d' j =
       (if d' = d \<and> ix < j \<and> j \<le> pbr_end b then pcl_rule_at (hw s) d (j - 1)
        else if d' = d \<and> j = ix \<and> ix < pbr_end b then None else pcl_rule_at (hw s) d' j)" by blast
  have "t = acl_upd (\<lambda>a. a\<lparr>book := (book a)(d := book_grown ty b),
        bindings := (bindings a)(d := map (rb_map (up_ix ix (pbr_end b))) (bindings a d) @ [\<lparr>rb_key = key, rb_ix = ix\<rparr>])\<rparr>) (s\<lparr>hw := h\<rparr>)"
    unfolding t h bindings_upd_def book_upd_def acl_upd_upd
    by (rule acl_upd_cong) (simp add: hash_add_def b_def acl_simps)
  then show ?thesis using spec ix ty le free hash_find_None [of rb_key "bindings (curr_acl s) d" key]
    by (intro exI [of _ h] conjI) (assumption | simp)+
qed


lemma curr_acl_after [simp]: "curr_acl (acl_upd f (s\<lparr>hw := h\<rparr>)) = f (curr_acl s)"
  by (simp add: acl_simps)

text \<open>A new rule comes last of its class, with an empty slot; no other rule changes.\<close>

lemma pcl_add_rule_ix_rules:
  assumes "pcl_add_rule_ix d key s = ((ST_OK, ix), t)" "book_ok (book (curr_acl s) d) (bindings (curr_acl s) d)"
  shows "book_ok (book (curr_acl t) d) (bindings (curr_acl t) d) \<and>
    ib_start (book (curr_acl t) d) = ib_start (book (curr_acl s) d) \<and> ib_end (book (curr_acl t) d) = ib_end (book (curr_acl s) d) \<and>
    ib_start (book (curr_acl s) d) \<le> ix \<and> ix < ib_end (book (curr_acl s) d) \<and>
    hash_find rb_key (bindings (curr_acl t) d) key = Some \<lparr>rb_key = key, rb_ix = ix\<rparr> \<and>
    (\<forall>d'. d' \<noteq> d \<longrightarrow> book (curr_acl t) d' = book (curr_acl s) d' \<and> bindings (curr_acl t) d' = bindings (curr_acl s) d') \<and>
    pcl_ids (curr_acl t) = pcl_ids (curr_acl s) \<and> vlan_ipcl_id (curr_acl t) = vlan_ipcl_id (curr_acl s) \<and>
    port_cmp_idxs (curr_acl t) = port_cmp_idxs (curr_acl s) \<and> port_cmps (curr_acl t) = port_cmps (curr_acl s) \<and>
    user_acl_fake_mode t = user_acl_fake_mode s \<and> ports t = ports s \<and> stack_id t = stack_id s"
    (is ?book)
  and "\<lbrakk>\<not> user_acl_fake_mode s; acl_space_empty s d\<rbrakk> \<Longrightarrow>
    (\<forall>ty. acl_rules t d ty = acl_rules s d ty @ (if ty = bk_acttype key then [(key, None)] else [])) \<and>
    acl_space_empty t d \<and> (\<forall>d'. d' \<noteq> d \<longrightarrow> pcl_rule_at (hw t) d' = pcl_rule_at (hw s) d') \<and>
    (\<forall>j. j < ib_start (book (curr_acl s) d) \<or> j \<ge> ib_end (book (curr_acl s) d) \<longrightarrow> pcl_rule_at (hw t) d j = pcl_rule_at (hw s) d j)"
    (is "_ \<Longrightarrow> _ \<Longrightarrow> ?rules")
  and "user_acl_fake_mode s \<Longrightarrow> hw t = hw s \<and> user_acl t = user_acl s"
  and "\<not> user_acl_fake_mode s \<Longrightarrow> user_acl_fake t = user_acl_fake s"
proof -
  define b where "b = book (curr_acl s) d"
  define ty where "ty = bk_acttype key"
  let ?bs = "bindings (curr_acl s) d"
  from pcl_add_rule_ix_eq [OF assms, folded b_def ty_def] obtain h where
    t: "t = acl_upd (\<lambda>a. a\<lparr>book := (book a)(d := book_grown ty b),
        bindings := (bindings a)(d := map (rb_map (up_ix ix (pbr_end b))) (bindings a d) @ [\<lparr>rb_key = key, rb_ix = ix\<rparr>])\<rparr>) (s\<lparr>hw := h\<rparr>)"
    and hs: "if user_acl_fake_mode s then h = hw s
     else \<forall>d' j. pcl_rule_at h d' j =
       (if d' = d \<and> ix < j \<and> j \<le> pbr_end b then pcl_rule_at (hw s) d (j - 1)
        else if d' = d \<and> j = ix \<and> ix < pbr_end b then None else pcl_rule_at (hw s) d' j)"
    and ix: "ix = type_end ty b" and ty: "ty \<noteq> ACTION_TYPE_OTHER" and le: "pbr_end b < ib_end b" "ix \<le> pbr_end b" "ib_start b \<le> ix"
    and key: "key \<notin> rb_key ` set ?bs"
    by blast
  have ok': "book_ok (book_grown ty b) (map (rb_map (up_ix ix (pbr_end b))) ?bs @ [\<lparr>rb_key = key, rb_ix = ix\<rparr>])"
    unfolding ix by (rule book_grown_ok) (use assms(2) le key ty in \<open>auto simp: b_def [symmetric] ty_def [symmetric]\<close>)
  have grown: "ib_start (book_grown ty b) = ib_start b" "ib_end (book_grown ty b) = ib_end b"
    "pbr_end (book_grown ty b) = Suc (pbr_end b)"
    using ty by (cases ty; simp add: book_grown_def)+
  have "hash_find rb_key (map (rb_map (up_ix ix (pbr_end b))) ?bs @ [\<lparr>rb_key = key, rb_ix = ix\<rparr>]) key = Some \<lparr>rb_key = key, rb_ix = ix\<rparr>"
    using ok' by (subst hash_find_iff) (auto simp: book_ok_def)
  with ok' le show ?book by (simp add: t grown b_def [symmetric] acl_simps)
  show "user_acl_fake_mode s \<Longrightarrow> hw t = hw s \<and> user_acl t = user_acl s"
    using hs by (simp add: t acl_upd_def)
  show "\<not> user_acl_fake_mode s \<Longrightarrow> user_acl_fake t = user_acl_fake s" by (simp add: t acl_upd_def)
  show ?rules if real: "\<not> user_acl_fake_mode s" and sp: "acl_space_empty s d"
  proof -
    have slot: "pcl_rule_at (hw t) d' j =
       (if d' = d \<and> ix < j \<and> j \<le> pbr_end b then pcl_rule_at (hw s) d (j - 1)
        else if d' = d \<and> j = ix \<and> ix < pbr_end b then None else pcl_rule_at (hw s) d' j)" for d' j
      using hs real by (simp add: t acl_simps)
    have bt: "book (curr_acl t) d = book_grown ty b" by (simp add: t)
    have new: "pcl_rule_at (hw t) d ix = None"
      using sp le by (simp add: slot acl_space_empty_def b_def [symmetric])
    have old: "pcl_rule_at (hw t) d (up_ix ix (pbr_end b) j) = pcl_rule_at (hw s) d j" if "j < pbr_end b" for j
      using that by (auto simp: slot up_ix_def)
    have bound: "rb_ix e < pbr_end b" if "e \<in> set ?bs" for e
      using binding_bounds [OF assms(2) that] by (simp add: b_def)
    have "acl_rules t d ty' = acl_rules s d ty' @ (if ty' = bk_acttype key then [(key, None)] else [])" for ty'
      using bound old new by (auto simp: acl_rules_def t of_type_def filter_map o_def acl_simps)
    moreover have "acl_space_empty t d"
      using sp le bt grown by (auto simp: acl_space_empty_def slot b_def [symmetric])
    moreover have "pcl_rule_at (hw t) d' = pcl_rule_at (hw s) d'" if "d' \<noteq> d" for d'
      using that by (intro ext) (simp add: slot)
    moreover have "pcl_rule_at (hw t) d j = pcl_rule_at (hw s) d j" if "j < ib_start b \<or> j \<ge> ib_end b" for j
      using that le by (auto simp: slot)
    ultimately show ?rules by (simp add: b_def [symmetric])
  qed
qed

section \<open>Giving an index back\<close>

definition book_shrunk :: "pcl_action_type \<Rightarrow> index_book \<Rightarrow> index_book" where
  "book_shrunk ty b =
     (case ty of
        ACTION_TYPE_ACL \<Rightarrow> b\<lparr>acl_end := acl_end b - 1, qos_end := qos_end b - 1, pbr_end := pbr_end b - 1\<rparr>
      | ACTION_TYPE_POLICY \<Rightarrow> b\<lparr>qos_end := qos_end b - 1, pbr_end := pbr_end b - 1\<rparr>
      | ACTION_TYPE_POLICY_ROUTE \<Rightarrow> b\<lparr>pbr_end := pbr_end b - 1\<rparr>
      | ACTION_TYPE_OTHER \<Rightarrow> b)"

lemma book_shrunk_simps:
  "book_shrunk ACTION_TYPE_ACL = (\<lambda>b. b\<lparr>acl_end := acl_end b - 1, qos_end := qos_end b - 1, pbr_end := pbr_end b - 1\<rparr>)"
  "book_shrunk ACTION_TYPE_POLICY = (\<lambda>b. b\<lparr>qos_end := qos_end b - 1, pbr_end := pbr_end b - 1\<rparr>)"
  "book_shrunk ACTION_TYPE_POLICY_ROUTE = (\<lambda>b. b\<lparr>pbr_end := pbr_end b - 1\<rparr>)"
  by (simp_all add: book_shrunk_def fun_eq_iff)

lemma ix_book_return_eq:
  assumes "book_ok b bs" "ix \<in> set (type_region b ty)" "b = book (curr_acl s) d"
  shows "ix_book_return d ix s = (IX_BOOK_OK, book_upd d (book_shrunk ty) (move_down d ix (pbr_end b - 1) s))"
  using assms
  by (cases ty) (auto simp: ix_book_return_def ix_book_action_acl_return_def ix_book_action_qos_return_def
      ix_book_action_pbr_return_def book_shrunk_simps type_region_def book_ok_def Let_def)

lemma map_down_region: "m \<le> lo \<Longrightarrow> map (down_ix lo hi) [k ..< m] = [k ..< m]"
  by (rule map_idI) (simp add: down_ix_def)

lemma map_down_shift:
  assumes "lo < k" "m \<le> Suc hi"
  shows "map (down_ix lo hi) [k ..< m] = [k - 1 ..< m - 1]"
proof (cases "k \<le> m")
  case True
  have "map (down_ix lo hi) [k ..< m] = map (\<lambda>j. j - 1) [k ..< m]" using assms by (intro map_cong) (simp_all add: down_ix_def)
  also have "\<dots> = [k - 1 ..< m - 1]" using assms True by (intro nth_equalityI) auto
  finally show ?thesis .
qed (use assms in simp)

lemma map_down_without:
  assumes "lo \<in> set [k ..< m]" "m \<le> Suc hi"
  shows "map (down_ix lo hi) (filter (\<lambda>j. j \<noteq> lo) [k ..< m]) = [k ..< m - 1]"
proof -
  have split: "[k ..< m] = [k ..< lo] @ lo # [Suc lo ..< m]"
    using assms upt_add_eq_append [of k lo "m - lo"] upt_conv_Cons [of lo m] by simp
  have "filter (\<lambda>j. j \<noteq> lo) [k ..< m] = [k ..< lo] @ [Suc lo ..< m]" unfolding split by simp
  moreover have "map (down_ix lo hi) ([k ..< lo] @ [Suc lo ..< m]) = [k ..< lo] @ [lo ..< m - 1]"
    using assms map_down_shift [of lo "Suc lo" m hi] by (simp add: map_down_region del: upt_Suc)
  moreover have "[k ..< lo] @ [lo ..< m - 1] = [k ..< m - 1]"
    using assms upt_add_eq_append [of k lo "m - 1 - lo"] by simp
  ultimately show ?thesis by simp
qed


lemma map_down_filter:
  assumes "m \<le> Suc hi"
  shows "map (down_ix lo hi) (filter (\<lambda>j. j \<noteq> lo) [k ..< m]) =
    (if lo < k then [k - 1 ..< m - 1] else if lo < m then [k ..< m - 1] else [k ..< m])"
proof -
  consider "lo < k" | "lo \<in> set [k ..< m]" | "\<not> lo < k" "\<not> lo < m" by fastforce
  then show ?thesis
  proof cases
    case 1
    then have "filter (\<lambda>j. j \<noteq> lo) [k ..< m] = [k ..< m]" by (intro filter_True) auto
    with 1 assms map_down_shift [of lo k m hi] show ?thesis by simp
  next
    case 2
    with assms map_down_without [of lo k m hi] show ?thesis by simp
  next
    case 3
    then have "filter (\<lambda>j. j \<noteq> lo) [k ..< m] = [k ..< m]" by (intro filter_True) auto
    with 3 map_down_region [of m lo hi k] show ?thesis by simp
  qed
qed

lemma region_shrunk:
  assumes "lo \<in> set (type_region b ty)" "ib_start b \<le> acl_end b" "acl_end b \<le> qos_end b" "qos_end b \<le> pbr_end b"
  shows "map (down_ix lo (pbr_end b - 1)) (filter (\<lambda>j. j \<noteq> lo) (type_region b ty')) = type_region (book_shrunk ty b) ty'"
proof (cases ty')
  case ACTION_TYPE_ACL
  have "acl_end b \<le> Suc (pbr_end b - 1)" using assms by simp
  from map_down_filter [OF this, of lo "ib_start b"] assms ACTION_TYPE_ACL show ?thesis
    by (cases ty) (auto simp: type_region_def book_shrunk_def)
next
  case ACTION_TYPE_POLICY
  have "qos_end b \<le> Suc (pbr_end b - 1)" using assms by simp
  from map_down_filter [OF this, of lo "acl_end b"] assms ACTION_TYPE_POLICY show ?thesis
    by (cases ty) (auto simp: type_region_def book_shrunk_def)
next
  case ACTION_TYPE_POLICY_ROUTE
  have "pbr_end b \<le> Suc (pbr_end b - 1)" by simp
  from map_down_filter [OF this, of lo "qos_end b"] assms ACTION_TYPE_POLICY_ROUTE show ?thesis
    by (cases ty) (auto simp: type_region_def book_shrunk_def)
next
  case ACTION_TYPE_OTHER
  then show ?thesis by (simp add: type_region_def)
qed

lemma hash_del_filter: "keys_distinct key t \<Longrightarrow> hash_del key k t = filter (\<lambda>e. key e \<noteq> k) t"
proof (induction t)
  case (Cons a t)
  have "filter (\<lambda>e. key e \<noteq> key a) t = t" using Cons.prems by (intro filter_True) (force simp: image_iff)
  with Cons show ?case by (auto simp: hash_del_def)
qed (simp add: hash_del_def)

lemma book_shrunk_ok:
  assumes ok: "book_ok b bs" and e: "e \<in> set bs" and k: "rb_key e = k" "bk_acttype k = ty"
  shows "book_ok (book_shrunk ty b) (hash_del rb_key k (map (rb_map (down_ix (rb_ix e) (pbr_end b - 1))) bs))"
    (is "book_ok ?b (hash_del _ _ (map (rb_map ?g) bs))")
proof -
  note ords = ok [unfolded book_ok_def]
  have in_reg: "rb_ix e \<in> set (type_region b ty)" using binding_region [OF ok e] k by simp
  have del: "hash_del rb_key k (map (rb_map ?g) bs) = map (rb_map ?g) (filter (\<lambda>x. rb_key x \<noteq> k) bs)"
    using ords by (simp add: hash_del_filter filter_map o_def)
  have ixs: "map rb_ix (of_type ty' (filter (\<lambda>x. rb_key x \<noteq> k) bs)) = filter (\<lambda>j. j \<noteq> rb_ix e) (type_region b ty')" for ty'
  proof -
    have r: "map rb_ix (of_type ty' bs) = type_region b ty'" using ords by blast
    have "rb_key x \<noteq> k \<longleftrightarrow> rb_ix x \<noteq> rb_ix e" if x: "x \<in> set (of_type ty' bs)" for x
      using ords e k x book_ok_ix_unique [OF ok _ e] by (auto simp: distinct_map inj_on_def)
    then have "of_type ty' (filter (\<lambda>x. rb_key x \<noteq> k) bs) = filter (\<lambda>x. rb_ix x \<noteq> rb_ix e) (of_type ty' bs)"
      by (auto simp: of_type_def intro: filter_cong)
    then have "map rb_ix (of_type ty' (filter (\<lambda>x. rb_key x \<noteq> k) bs)) = filter (\<lambda>j. j \<noteq> rb_ix e) (map rb_ix (of_type ty' bs))"
      by (simp add: filter_map o_def)
    with r show ?thesis by simp
  qed
  have "map ?g (filter (\<lambda>j. j \<noteq> rb_ix e) (type_region b ty')) = type_region ?b ty'" for ty'
    using in_reg ords by (intro region_shrunk) auto
  then have "map rb_ix (of_type ty' (map (rb_map ?g) (filter (\<lambda>x. rb_key x \<noteq> k) bs))) = type_region ?b ty'" for ty'
    by (simp add: ixs [symmetric] o_def)
  moreover have "ib_start ?b \<le> acl_end ?b \<and> acl_end ?b \<le> qos_end ?b \<and> qos_end ?b \<le> pbr_end ?b \<and> pbr_end ?b \<le> ib_end ?b"
    using ords in_reg by (cases ty) (auto simp: book_shrunk_def type_region_def)
  moreover have "keys_distinct rb_key (map (rb_map ?g) (filter (\<lambda>x. rb_key x \<noteq> k) bs))"
    using ords by (simp add: o_def distinct_map_filter)
  ultimately show ?thesis unfolding book_ok_def del by blast
qed


section \<open>What a request may change\<close>

definition dev_book_ok :: "'a acl_st_scheme \<Rightarrow> nat \<Rightarrow> bool" where
  "dev_book_ok s d \<longleftrightarrow> book_ok (book (curr_acl s) d) (bindings (curr_acl s) d)"

text \<open>Nothing of the rules, only comparators and identifiers.\<close>

definition rules_same :: "'a acl_st_scheme \<Rightarrow> 'a acl_st_scheme \<Rightarrow> bool" where
  "rules_same s t \<longleftrightarrow>
     book (curr_acl t) = book (curr_acl s) \<and> bindings (curr_acl t) = bindings (curr_acl s) \<and>
     pcl_rule_at (hw t) = pcl_rule_at (hw s) \<and> user_acl_fake_mode t = user_acl_fake_mode s \<and> ports t = ports s \<and> stack_id t = stack_id s \<and>
     (user_acl_fake_mode s \<longrightarrow> user_acl t = user_acl s) \<and> (\<not> user_acl_fake_mode s \<longrightarrow> user_acl_fake t = user_acl_fake s)"

text \<open>The rules of one device: in trial mode only those of the copy, else the space of the access lists.\<close>

definition acl_change :: "nat \<Rightarrow> 'a acl_st_scheme \<Rightarrow> 'a acl_st_scheme \<Rightarrow> bool" where
  "acl_change d s t \<longleftrightarrow>
     (dev_book_ok s d \<longrightarrow> dev_book_ok t d \<and>
        ib_start (book (curr_acl t) d) = ib_start (book (curr_acl s) d) \<and> ib_end (book (curr_acl t) d) = ib_end (book (curr_acl s) d)) \<and>
     (\<forall>d'. d' \<noteq> d \<longrightarrow> book (curr_acl t) d' = book (curr_acl s) d' \<and> bindings (curr_acl t) d' = bindings (curr_acl s) d') \<and>
     user_acl_fake_mode t = user_acl_fake_mode s \<and> ports t = ports s \<and> stack_id t = stack_id s \<and>
     (user_acl_fake_mode s \<and> dev_book_ok s d \<longrightarrow> user_acl t = user_acl s \<and> pcl_rule_at (hw t) = pcl_rule_at (hw s)) \<and>
     (\<not> user_acl_fake_mode s \<and> dev_book_ok s d \<longrightarrow> user_acl_fake t = user_acl_fake s) \<and>
     (\<not> user_acl_fake_mode s \<and> dev_book_ok s d \<and> acl_space_empty s d \<longrightarrow>
        acl_space_empty t d \<and> (\<forall>d'. d' \<noteq> d \<longrightarrow> pcl_rule_at (hw t) d' = pcl_rule_at (hw s) d') \<and>
        (\<forall>j. j < ib_start (book (curr_acl s) d) \<or> j \<ge> ib_end (book (curr_acl s) d) \<longrightarrow> pcl_rule_at (hw t) d j = pcl_rule_at (hw s) d j))"

lemma rules_same_refl [simp]: "rules_same s s"
  by (simp add: rules_same_def)

lemma rules_same_trans: "rules_same s t \<Longrightarrow> rules_same t u \<Longrightarrow> rules_same s u"
  by (simp add: rules_same_def)

lemma rules_same_change: "rules_same s t \<Longrightarrow> acl_change d s t"
  by (simp add: rules_same_def acl_change_def acl_space_empty_def dev_book_ok_def)

lemma rules_same_rules: "rules_same s t \<Longrightarrow> acl_rules t d ty = acl_rules s d ty"
  by (simp add: rules_same_def acl_rules_def)

lemma acl_change_refl [simp]: "acl_change d s s"
  by (simp add: acl_change_def)

lemma acl_change_trans: "acl_change d s t \<Longrightarrow> acl_change d t u \<Longrightarrow> acl_change d s u"
  unfolding acl_change_def by (intro conjI impI allI) auto

lemma rules_same_hw: "\<forall>e \<in> set es. pcl_no_rule e \<Longrightarrow> rules_same s (s\<lparr>hw := es @ hw s\<rparr>)"
  by (simp add: rules_same_def pcl_rule_at_append acl_simps)

lemma rules_same_emit: "pcl_no_rule e \<Longrightarrow> rules_same s (emit e s)"
  using rules_same_hw [of "[e]" s] by (simp add: emit_def)

lemma rules_same_crash: "rules_same s (crash s)"
  by (simp add: rules_same_def acl_simps) (simp add: crash_def)

lemma rules_same_acl_upd:
  "book (f (curr_acl s)) = book (curr_acl s) \<Longrightarrow> bindings (f (curr_acl s)) = bindings (curr_acl s) \<Longrightarrow> rules_same s (acl_upd f s)"
  by (simp add: rules_same_def acl_simps) (simp add: acl_upd_def)

lemma rules_same_cmps: "rules_same s (cmps_upd d a b s)"
  unfolding cmps_upd_def by (rule rules_same_acl_upd) simp_all

lemma no_rule_simps [simp]:
  "pcl_no_rule (Pc (PclPortComparatorSet d a b c e f g))" "pcl_no_rule (Pc (PclCfgTblSet d i de n en x))"
  "pcl_no_rule (Pc (CncCounterSet d m j))" "pcl_no_rule (Pc (CncCounterGet d m j))"
  by (simp_all add: pcl_no_rule_def pcl_slot_step_def fun_eq_iff)

lemma rules_same_add_cmp: "rules_same s (snd (pcl_add_port_cmp_ix P d key ix c s))"
proof -
  have "rules_same t (snd (pcl_tcp_udp_port_cmp_set P d pc t))" for pc and t :: "'a acl_st_scheme"
    by (auto simp: pcl_tcp_udp_port_cmp_set_def Let_def intro: rules_same_emit)
  then show ?thesis
    by (auto simp: pcl_add_port_cmp_ix_def Let_def split: option.split prod.split
        intro: rules_same_cmps rules_same_trans [OF rules_same_cmps])
qed

lemma rules_same_add_cmps: "rules_same s (snd (add_cmps P d ix ks c s))"
proof (induction P d ix ks c s rule: add_cmps.induct)
  case (2 P d ix k ks s0 s1 d0 d1 s)
  define old where "old = (case ck_port_type k of PCL_PORT_SRC \<Rightarrow> (case ck_op k of PCL_GTE \<Rightarrow> s0 | PCL_LTE \<Rightarrow> s1)
      | PCL_PORT_DST \<Rightarrow> (case ck_op k of PCL_GTE \<Rightarrow> d0 | PCL_LTE \<Rightarrow> d1))"
  obtain st n t where a: "pcl_add_port_cmp_ix P d k ix old s = ((st, n), t)" by (metis surj_pair)
  have one: "rules_same s t" using rules_same_add_cmp [of s P d k ix old] a by simp
  show ?case
  proof (cases st)
    case ST_OK
    from "2.IH" [OF old_def a [symmetric] refl, unfolded ST_OK] one show ?thesis
      using a ST_OK by (simp add: old_def [symmetric] Let_def) (rule rules_same_trans, assumption+)
  qed (use a one in \<open>simp_all add: old_def [symmetric] Let_def\<close>)
qed simp

lemma rules_same_vlan_id: "rules_same s (snd (pcl_add_vlan_pcl_id E v s))"
proof -
  have en: "rules_same t (pcl_enable_vlan E v i t)" for i and t :: "'a acl_st_scheme"
    unfolding pcl_enable_vlan_def for_each_dev_state by (rule rules_same_hw) (auto simp: dev_writes_def)
  have id: "rules_same s (acl_upd (\<lambda>a. a\<lparr>pcl_ids := r, vlan_ipcl_id := q a\<rparr>) s)" for r q
    by (rule rules_same_acl_upd) simp_all
  show ?thesis
    by (auto simp: pcl_add_vlan_pcl_id_def Let_def intro: rules_same_crash id rules_same_trans [OF id en] split: option.split)
qed

lemma rules_same_release: "rules_same s (release_cmp d ix key s)"
  by (auto simp: release_cmp_def Let_def intro: rules_same_cmps split: option.split)

lemma rules_same_release_all: "rules_same s (fold (release_cmp d ix) keys s)"
  by (induction keys arbitrary: s) (auto intro: rules_same_trans rules_same_release)

lemma add_rule_change:
  "acl_change d s (snd (pcl_add_rule_ix d key s))"
proof (cases "dev_book_ok s d")
  case True
  obtain st ix t where a: "pcl_add_rule_ix d key s = ((st, ix), t)" by (metis surj_pair)
  show ?thesis
  proof (cases "st = ST_OK")
    case ok: True
    note spec = pcl_add_rule_ix_rules [OF a [unfolded ok] True [unfolded dev_book_ok_def]]
    show ?thesis using spec by (auto simp: a acl_change_def dev_book_ok_def)
  next
    case False
    then have "t = s" using a by (auto simp: pcl_add_rule_ix_def ix_book_take_cases Let_def split: option.splits if_splits)
    with a show ?thesis by simp
  qed
next
  case False
  have frame: "\<exists>f h. move_up d lo hi t = bindings_upd d f (t\<lparr>hw := h\<rparr>)" for lo hi and t :: "'a acl_st_scheme"
  proof (cases "lo \<le> hi")
    case True
    from move_up_eq [OF this, of d t] show ?thesis by blast
  next
    case False
    then have "move_up d lo hi t = bindings_upd d (\<lambda>bs. bs) (t\<lparr>hw := hw t\<rparr>)"
      by (simp add: move_up_def bindings_upd_def acl_upd_def)
    then show ?thesis by blast
  qed
  have *: "acl_change d s (bindings_upd d g (book_upd d f (move_up d lo hi s)))" for f g lo hi
  proof -
    obtain f' h where "move_up d lo hi s = bindings_upd d f' (s\<lparr>hw := h\<rparr>)" using frame by blast
    with False show ?thesis by (auto simp: acl_change_def bindings_upd_def book_upd_def acl_simps)
  qed
  show ?thesis
    using * by (auto simp: pcl_add_rule_ix_def ix_book_take_cases Let_def split: option.split)
qed

text \<open>Removing a rule closes the gap.\<close>

lemma remove_rule_rules:
  assumes "dev_book_ok s d"
  shows "acl_change d s (remove_rule block d key s)"
  and "\<not> user_acl_fake_mode s \<Longrightarrow> acl_rules (remove_rule block d key s) d ty = filter (\<lambda>r. fst r \<noteq> key) (acl_rules s d ty)"
  and "bindings (curr_acl (remove_rule block d key s)) d =
    (case hash_find rb_key (bindings (curr_acl s) d) key of None \<Rightarrow> bindings (curr_acl s) d
     | Some e \<Rightarrow> map (rb_map (down_ix (rb_ix e) (pbr_end (book (curr_acl s) d) - 1)))
         (filter (\<lambda>x. rb_key x \<noteq> key) (bindings (curr_acl s) d)))"
  and "hash_find rb_key (bindings (curr_acl s) d) key = Some e \<Longrightarrow>
    book (curr_acl (remove_rule block d key s)) d = book_shrunk (bk_acttype key) (book (curr_acl s) d) \<and>
    port_cmps (curr_acl (remove_rule block d key s)) =
      port_cmps (curr_acl (fold (release_cmp d (rb_ix e)) (map pc_key (port_cmps (curr_acl s) d)) s)) \<and>
    port_cmp_idxs (curr_acl (remove_rule block d key s)) =
      port_cmp_idxs (curr_acl (fold (release_cmp d (rb_ix e)) (map pc_key (port_cmps (curr_acl s) d)) s))"
proof -
  let ?t = "remove_rule block d key s"
  let ?bs = "bindings (curr_acl s) d"
  define b where "b = book (curr_acl s) d"
  note ok = assms [unfolded dev_book_ok_def, folded b_def]
  have "acl_change d s ?t \<and> (\<not> user_acl_fake_mode s \<longrightarrow> acl_rules ?t d ty = filter (\<lambda>r. fst r \<noteq> key) (acl_rules s d ty)) \<and>
    bindings (curr_acl ?t) d = (case hash_find rb_key ?bs key of None \<Rightarrow> ?bs
     | Some e \<Rightarrow> map (rb_map (down_ix (rb_ix e) (pbr_end b - 1))) (filter (\<lambda>x. rb_key x \<noteq> key) ?bs)) \<and>
    (\<forall>e. hash_find rb_key ?bs key = Some e \<longrightarrow> book (curr_acl ?t) d = book_shrunk (bk_acttype key) b \<and>
      port_cmps (curr_acl ?t) = port_cmps (curr_acl (fold (release_cmp d (rb_ix e)) (map pc_key (port_cmps (curr_acl s) d)) s)) \<and>
      port_cmp_idxs (curr_acl ?t) = port_cmp_idxs (curr_acl (fold (release_cmp d (rb_ix e)) (map pc_key (port_cmps (curr_acl s) d)) s)))"
  proof (cases "hash_find rb_key ?bs key")
    case None
    then have "?t = s" by (simp add: remove_rule_def)
    moreover have "filter (\<lambda>r. fst r \<noteq> key) (acl_rules s d ty) = acl_rules s d ty"
      using None by (intro filter_True) (auto simp: acl_rules_def hash_find_None)
    ultimately show ?thesis using None by simp
  next
    case (Some e)
    from hash_find_in [OF Some] have e: "e \<in> set ?bs" "rb_key e = key" by auto
    define ty0 where "ty0 = bk_acttype key"
    define u where "u = fold (release_cmp d (rb_ix e)) (map pc_key (port_cmps (curr_acl s) d)) s"
    define v where "v = (if user_acl_fake_mode u then u else rule_invalidate d (rb_ix e) u)"
    have u: "rules_same s u" unfolding u_def by (rule rules_same_release_all)
    then have uv: "curr_acl v = curr_acl u" "user_acl_fake_mode v = user_acl_fake_mode s" "ports v = ports s" "stack_id v = stack_id s"
      "user_acl_fake_mode s \<Longrightarrow> user_acl v = user_acl s" "\<not> user_acl_fake_mode s \<Longrightarrow> user_acl_fake v = user_acl_fake s"
      "book (curr_acl u) = book (curr_acl s)" "bindings (curr_acl u) = bindings (curr_acl s)"
      by (auto simp: v_def rules_same_def rule_invalidate_def acl_simps) (auto simp: emit_def)
    have vslot: "pcl_rule_at (hw v) d' j = (if \<not> user_acl_fake_mode s \<and> d' = d \<and> j = rb_ix e then None else pcl_rule_at (hw s) d' j)"
      for d' j using u by (auto simp: v_def rules_same_def rule_invalidate_def pcl_slot_step_def)
    have reg: "rb_ix e \<in> set (type_region b ty0)" using binding_region [OF ok] e by (auto simp: ty0_def)
    with type_region_bounds [OF ok] have bounds: "ib_start b \<le> rb_ix e" "rb_ix e < pbr_end b" by auto
    then have le: "rb_ix e \<le> pbr_end b - 1" by simp
    have ret: "ix_book_return d (rb_ix e) v = (IX_BOOK_OK, book_upd d (book_shrunk ty0) (move_down d (rb_ix e) (pbr_end b - 1) v))"
      by (rule ix_book_return_eq [OF ok reg]) (simp add: uv b_def)
    from move_down_eq [OF le, of d v] obtain h where
      h: "move_down d (rb_ix e) (pbr_end b - 1) v = bindings_upd d (map (rb_map (down_ix (rb_ix e) (pbr_end b - 1)))) (v\<lparr>hw := h\<rparr>)"
      and hs: "if user_acl_fake_mode v then h = hw v
        else \<forall>d' j. pcl_rule_at h d' j =
          (if d' = d \<and> rb_ix e \<le> j \<and> j < pbr_end b - 1 then pcl_rule_at (hw v) d (Suc j)
           else if d' = d \<and> j = pbr_end b - 1 \<and> rb_ix e < pbr_end b - 1 then None else pcl_rule_at (hw v) d' j)" by blast
    have t: "?t = bindings_upd d (hash_del rb_key key) (emit (Pc (CncCounterSet d block (rb_ix e)))
        (book_upd d (book_shrunk ty0) (bindings_upd d (map (rb_map (down_ix (rb_ix e) (pbr_end b - 1)))) (v\<lparr>hw := h\<rparr>))))"
      unfolding remove_rule_def Some option.case Let_def u_def [symmetric]
      unfolding v_def [symmetric] ret h snd_conv by (rule refl)
    have tb: "book (curr_acl ?t) = (book (curr_acl s))(d := book_shrunk ty0 b)"
      "bindings (curr_acl ?t) = (bindings (curr_acl s))(d :=
         map (rb_map (down_ix (rb_ix e) (pbr_end b - 1))) (filter (\<lambda>x. rb_key x \<noteq> key) ?bs))"
      using ok [unfolded book_ok_def]
      by (simp_all add: t bindings_upd_def book_upd_def acl_simps uv b_def hash_del_filter filter_map o_def)
    have tf: "user_acl_fake_mode ?t = user_acl_fake_mode s" "ports ?t = ports s" "stack_id ?t = stack_id s"
      by (simp_all add: t bindings_upd_def book_upd_def acl_simps uv)
    have tr: "user_acl_fake_mode s \<Longrightarrow> user_acl ?t = user_acl s" "\<not> user_acl_fake_mode s \<Longrightarrow> user_acl_fake ?t = user_acl_fake s"
      by (simp_all add: t bindings_upd_def book_upd_def acl_upd_def uv emit_def)
    have th: "pcl_rule_at (hw ?t) = pcl_rule_at h"
      by (simp add: t bindings_upd_def book_upd_def acl_simps pcl_slot_step_def fun_eq_iff)
    have "book_ok (book_shrunk ty0 b) (hash_del rb_key key (map (rb_map (down_ix (rb_ix e) (pbr_end b - 1))) ?bs))"
      by (rule book_shrunk_ok [OF ok]) (use e in \<open>simp_all add: ty0_def\<close>)
    then have tok: "dev_book_ok ?t d"
      using ok [unfolded book_ok_def] by (simp add: dev_book_ok_def tb hash_del_filter filter_map o_def)
    have same: "ib_start (book_shrunk ty0 b) = ib_start b" "ib_end (book_shrunk ty0 b) = ib_end b"
      "pbr_end (book_shrunk ty0 b) = pbr_end b - 1"
      using reg by (cases ty0; simp add: book_shrunk_def type_region_def)+
    have fake: "pcl_rule_at (hw ?t) = pcl_rule_at (hw s)" if "user_acl_fake_mode s"
      using hs that by (simp add: th uv) (simp add: vslot fun_eq_iff)
    have slot: "pcl_rule_at (hw ?t) d' j = (if d' = d \<and> rb_ix e \<le> j \<and> j < pbr_end b - 1 then pcl_rule_at (hw s) d (Suc j)
        else if d' = d \<and> j = pbr_end b - 1 then None else pcl_rule_at (hw s) d' j)" if "\<not> user_acl_fake_mode s" for d' j
      using hs that le by (auto simp: th uv vslot)
    have tsp: "acl_space_empty ?t d" if "\<not> user_acl_fake_mode s" "acl_space_empty s d"
      using that by (auto simp: acl_space_empty_def tb same slot b_def [symmetric])
    have others: "pcl_rule_at (hw ?t) d' = pcl_rule_at (hw s) d'" if "\<not> user_acl_fake_mode s" "d' \<noteq> d" for d'
      using that by (auto simp: slot)
    have outside: "pcl_rule_at (hw ?t) d j = pcl_rule_at (hw s) d j"
      if "\<not> user_acl_fake_mode s" "j < ib_start b \<or> j \<ge> ib_end b" for j
      using that bounds ok [unfolded book_ok_def] by (auto simp: slot)
    have "acl_change d s ?t"
      unfolding acl_change_def b_def [symmetric]
      using tok tf tr fake tsp others outside by (simp add: tb same b_def [symmetric])
    moreover have "acl_rules ?t d ty = filter (\<lambda>r. fst r \<noteq> key) (acl_rules s d ty)" if real: "\<not> user_acl_fake_mode s"
    proof -
      have "pcl_rule_at (hw ?t) d (down_ix (rb_ix e) (pbr_end b - 1) (rb_ix x)) = pcl_rule_at (hw s) d (rb_ix x)"
        if x: "x \<in> set ?bs" "rb_key x \<noteq> key" for x
      proof -
        have "rb_ix x \<noteq> rb_ix e" using book_ok_ix_unique [OF ok x(1) e(1)] x e by auto
        then show ?thesis using binding_bounds [OF ok x(1)] real le by (auto simp: slot down_ix_def)
      qed
      then show ?thesis by (auto simp: acl_rules_def tb of_type_def filter_map o_def intro!: map_cong filter_cong)
    qed
    moreover have "port_cmps (curr_acl ?t) = port_cmps (curr_acl u)" "port_cmp_idxs (curr_acl ?t) = port_cmp_idxs (curr_acl u)"
      by (simp_all add: t bindings_upd_def book_upd_def acl_simps uv)
    ultimately show ?thesis using Some by (simp add: tb u_def ty0_def)
  qed
  then show "acl_change d s ?t"
    "\<not> user_acl_fake_mode s \<Longrightarrow> acl_rules ?t d ty = filter (\<lambda>r. fst r \<noteq> key) (acl_rules s d ty)"
    "bindings (curr_acl ?t) d = (case hash_find rb_key ?bs key of None \<Rightarrow> ?bs
     | Some e \<Rightarrow> map (rb_map (down_ix (rb_ix e) (pbr_end (book (curr_acl s) d) - 1))) (filter (\<lambda>x. rb_key x \<noteq> key) ?bs))"
    "hash_find rb_key ?bs key = Some e \<Longrightarrow> book (curr_acl ?t) d = book_shrunk (bk_acttype key) (book (curr_acl s) d) \<and>
      port_cmps (curr_acl ?t) = port_cmps (curr_acl (fold (release_cmp d (rb_ix e)) (map pc_key (port_cmps (curr_acl s) d)) s)) \<and>
      port_cmp_idxs (curr_acl ?t) = port_cmp_idxs (curr_acl (fold (release_cmp d (rb_ix e)) (map pc_key (port_cmps (curr_acl s) d)) s))"
    unfolding b_def by blast+
qed

end
