(* ===== verification/Pcl_Kept.thy ===== *)
theory Pcl_Kept
  imports Pcl_Book
begin

text \<open>
  Requests on the user's access lists as steps: what one rule adds (\<open>rule_step_rules\<close>), what all
  requests keep (locale \<open>acl_kept\<close>), and its two instances, the order of the rules and the pool of
  comparators.
\<close>

section \<open>Setting one rule on one device\<close>

text \<open>An action is computed from the index alone; a missing parameter is undefined behaviour.\<close>

definition act_plain :: "(nat \<Rightarrow> 'a acl_st_scheme \<Rightarrow> pcl_action option \<times> 'a acl_st_scheme) \<Rightarrow> bool" where
  "act_plain action \<longleftrightarrow> (\<forall>ix s. snd (action ix s) = s \<or> snd (action ix s) = crash s)"

lemma set_pcl_action_plain: "act_plain (\<lambda>ix. set_pcl_action ix dest action params trap)"
  by (auto simp: act_plain_def set_pcl_action_def Let_def
      split: option.split prod.split pcl_rule_action.split pcl_action_params.split pcl_trap_action.split)

lemma default_action_plain: "act_plain (default_action dest dflt)"
  using set_pcl_action_plain unfolding act_plain_def default_action_def by (simp split: pcl_default_action.split) blast

lemma plain_rules_same: "act_plain action \<Longrightarrow> rules_same s (snd (action ix s))"
  unfolding act_plain_def by (metis rules_same_crash rules_same_refl)

lemma rule_set_rules:
  assumes "dev_book_ok s d" "hash_find rb_key (bindings (curr_acl s) d) key = Some \<lparr>rb_key = key, rb_ix = ix\<rparr>" "\<not> user_acl_fake_mode s"
  shows "acl_change d s (rule_set d fmt ix m a s) \<and>
    acl_rules (rule_set d fmt ix m a s) d ty = map (\<lambda>(k, r). (k, if k = key then Some (fmt, m, a) else r)) (acl_rules s d ty)"
proof -
  let ?t = "rule_set d fmt ix m a s"
  let ?bs = "bindings (curr_acl s) d"
  have e: "\<lparr>rb_key = key, rb_ix = ix\<rparr> \<in> set ?bs" using hash_find_in [OF assms(2)] by simp
  note ok = assms(1) [unfolded dev_book_ok_def]
  from binding_bounds [OF ok e] have ix: "ib_start (book (curr_acl s) d) \<le> ix" "ix < pbr_end (book (curr_acl s) d)" by auto
  have t: "curr_acl ?t = curr_acl s" "user_acl_fake_mode ?t = user_acl_fake_mode s" "ports ?t = ports s" "stack_id ?t = stack_id s"
    "user_acl_fake ?t = user_acl_fake s"
    by (simp_all add: rule_set_def acl_simps) (simp_all add: emit_def)
  have slot: "pcl_rule_at (hw ?t) d' j = (if d' = d \<and> j = ix then Some (fmt, m, a) else pcl_rule_at (hw s) d' j)" for d' j
    by (simp add: rule_set_def pcl_slot_step_def)
  have "pbr_end (book (curr_acl s) d) \<le> ib_end (book (curr_acl s) d)" using ok by (simp add: book_ok_def)
  then have "acl_change d s ?t"
    using ix assms(3) unfolding acl_change_def by (auto simp: t slot dev_book_ok_def acl_space_empty_def fun_eq_iff)
  moreover have "rb_ix x = ix \<longleftrightarrow> rb_key x = key" if x: "x \<in> set ?bs" for x
  proof
    assume "rb_ix x = ix"
    then have "x = \<lparr>rb_key = key, rb_ix = ix\<rparr>" by (intro book_ok_ix_unique [OF ok x e]) simp
    then show "rb_key x = key" by simp
  next
    assume "rb_key x = key"
    moreover have "keys_distinct rb_key ?bs" using ok by (simp add: book_ok_def)
    ultimately have "x = \<lparr>rb_key = key, rb_ix = ix\<rparr>" using x e by (auto simp: distinct_map inj_on_def)
    then show "rb_ix x = ix" by simp
  qed
  then have "acl_rules ?t d ty = map (\<lambda>(k, r). (k, if k = key then Some (fmt, m, a) else r)) (acl_rules s d ty)"
    by (auto simp: acl_rules_def t slot)
  ultimately show ?thesis by blast
qed

definition dest_format :: "pcl_dest \<Rightarrow> pcl_format \<times> pcl_format \<Rightarrow> pcl_format" where
  "dest_format dest fmts = (if dest = PCL_DEST_INGRESS then fst fmts else snd fmts)"

lemma rule_step_rules:
  assumes "act_plain action"
  shows "acl_change d s (snd (rule_step P key cmps action fmts match d s))"
  and "\<lbrakk>rule_step P key cmps action fmts match d s = (ST_OK, t); \<not> user_acl_fake_mode s; dev_book_ok s d; acl_space_empty s d\<rbrakk> \<Longrightarrow>
    \<exists>c act ix. (\<exists>u. fst (action ix u) = Some act) \<and>
      (\<forall>ty. acl_rules t d ty = acl_rules s d ty @
         (if ty = bk_acttype key then [(key, Some (dest_format (bk_destination key) fmts, match c, act))] else []))"
  and "\<lbrakk>\<not> user_acl_fake_mode s; dev_book_ok s d; acl_space_empty s d\<rbrakk> \<Longrightarrow>
    (\<forall>ty. acl_rules (snd (rule_step P key cmps action fmts match d s)) d ty = acl_rules s d ty) \<or>
    (\<exists>r. \<forall>ty. acl_rules (snd (rule_step P key cmps action fmts match d s)) d ty =
       acl_rules s d ty @ (if ty = bk_acttype key then [(key, r)] else []))"
proof -
  obtain st ix t1 where a: "pcl_add_rule_ix d key s = ((st, ix), t1)" by (metis surj_pair)
  obtain st' c t2 where b: "add_cmps P d ix cmps ((0, 0), (0, 0)) t1 = ((st', c), t2)" by (metis surj_pair)
  obtain act t3 where x: "action ix t2 = (act, t3)" by (metis surj_pair)
  have change1: "acl_change d s t1" using add_rule_change [of d s key] a by simp
  have same2: "rules_same t1 t2" using rules_same_add_cmps [of t1 P d ix cmps "((0, 0), (0, 0))"] b by simp
  have same3: "rules_same t2 t3" using plain_rules_same [OF assms, of t2 ix] x by simp
  note same13 = rules_same_trans [OF same2 same3]
  have change2: "acl_change d s t2" by (rule acl_change_trans [OF change1 rules_same_change [OF same2]])
  have change3: "acl_change d s t3" by (rule acl_change_trans [OF change2 rules_same_change [OF same3]])
  have written: "acl_change d t3 (snd (rule_write d dest ix fmts m y t3)) \<and>
      (acl_space_empty s d \<and> dest \<noteq> PCL_DEST_OTHER \<longrightarrow> (\<forall>ty. acl_rules (snd (rule_write d dest ix fmts m y t3)) d ty =
         acl_rules s d ty @ (if ty = bk_acttype key then [(key, Some (dest_format dest fmts, m, y))] else [])))"
    if st: "st = ST_OK" and real: "\<not> user_acl_fake_mode t2" and True: "dev_book_ok s d" for dest m y
  proof -
    note spec = pcl_add_rule_ix_rules [OF a [unfolded st] True [unfolded dev_book_ok_def]]
    have real0: "\<not> user_acl_fake_mode s" "\<not> user_acl_fake_mode t3"
      using real same2 same3 spec by (auto simp: rules_same_def)
    have ok3: "dev_book_ok t3 d" using True change3 by (simp add: acl_change_def)
    have find: "hash_find rb_key (bindings (curr_acl t3) d) key = Some \<lparr>rb_key = key, rb_ix = ix\<rparr>"
      using spec same13 by (simp add: rules_same_def)
    note set = rule_set_rules [OF ok3 find real0(2)]
    have "acl_change d t3 (snd (rule_write d dest ix fmts m y t3))"
      using set by (cases dest) (simp_all add: rule_write_def)
    moreover have "acl_rules (snd (rule_write d dest ix fmts m y t3)) d ty =
         acl_rules s d ty @ (if ty = bk_acttype key then [(key, Some (dest_format dest fmts, m, y))] else [])"
      if sp: "acl_space_empty s d" and dest: "dest \<noteq> PCL_DEST_OTHER" for ty
    proof -
      have "acl_rules t3 d ty = acl_rules s d ty @ (if ty = bk_acttype key then [(key, None)] else [])"
        using spec real0(1) sp rules_same_rules [OF same13] by simp
      moreover have "key \<notin> fst ` set (acl_rules s d ty)"
        using pcl_add_rule_ix_eq [OF a [unfolded st] True [unfolded dev_book_ok_def]] by (auto simp: acl_rules_def)
      then have "map (\<lambda>(k, r). (k, if k = key then Some z else r)) (acl_rules s d ty) = acl_rules s d ty" for z
        by (intro map_idI) force
      ultimately show ?thesis
        using set [of _ m y ty] dest by (cases dest) (auto simp: rule_write_def dest_format_def)
    qed
    ultimately show ?thesis by blast
  qed
  show "acl_change d s (snd (rule_step P key cmps action fmts match d s))"
  proof (cases "dev_book_ok s d")
    case True
    have "acl_change d s (snd (rule_write d dest ix fmts m y t3))" if "st = ST_OK" "\<not> user_acl_fake_mode t2" for dest m y
      using acl_change_trans [OF change3] written [OF that True] by blast
    then show ?thesis
      using change1 change2 change3 by (auto simp: rule_step_def a b x split: status.split option.split)
  next
    case False
    have *: "acl_change d s u" if "curr_acl u = curr_acl t3" "user_acl_fake_mode u = user_acl_fake_mode t3" "ports u = ports t3" "stack_id u = stack_id t3"
      for u :: "'a acl_st_scheme"
      using change3 False that by (simp add: acl_change_def dev_book_ok_def)
    have "acl_change d s (snd (rule_write d dest ix fmts m y t3))" for dest m y
      by (cases dest) (auto intro!: * simp: rule_write_def rule_set_def acl_simps) 
    then show ?thesis
      using change1 change2 change3 by (auto simp: rule_step_def a b x split: status.split option.split)
  qed
  show "(\<forall>ty. acl_rules (snd (rule_step P key cmps action fmts match d s)) d ty = acl_rules s d ty) \<or>
    (\<exists>r. \<forall>ty. acl_rules (snd (rule_step P key cmps action fmts match d s)) d ty =
       acl_rules s d ty @ (if ty = bk_acttype key then [(key, r)] else []))" (is "?same (snd ?res) \<or> ?grown (snd ?res)")
    if real: "\<not> user_acl_fake_mode s" and book: "dev_book_ok s d" "acl_space_empty s d"
  proof (cases "st = ST_OK")
    case False
    then have "t1 = s" using a by (auto simp: pcl_add_rule_ix_def ix_book_take_cases Let_def split: option.splits if_splits)
    with False a show ?thesis by (simp add: rule_step_def split: status.split)
  next
    case True
    note spec = pcl_add_rule_ix_rules [OF a [unfolded True] book(1) [unfolded dev_book_ok_def]]
    have g1: "\<forall>ty. acl_rules t1 d ty = acl_rules s d ty @ (if ty = bk_acttype key then [(key, None)] else [])"
      using spec real book(2) by blast
    then have g2: "?grown t2" and g3: "?grown t3"
      using rules_same_rules [OF same2] rules_same_rules [OF same13] by auto
    have real2: "\<not> user_acl_fake_mode t2" using change2 real by (simp add: acl_change_def)
    have "?grown (snd (rule_write d dest ix fmts m y t3))" for dest m y
    proof (cases "dest = PCL_DEST_OTHER")
      case True
      then show ?thesis using g3 by (simp add: rule_write_def)
    next
      case False
      with written [OF \<open>st = ST_OK\<close> real2 book(1), of dest m y] book(2) show ?thesis by blast
    qed
    moreover have "snd ?res = t2 \<or> snd ?res = t3 \<or> (\<exists>dest m y. snd ?res = snd (rule_write d dest ix fmts m y t3))"
      by (auto simp: rule_step_def a b x True real2 split: status.split option.split)
    ultimately show ?thesis using g2 g3 by metis
  qed
  assume ok: "rule_step P key cmps action fmts match d s = (ST_OK, t)" and real: "\<not> user_acl_fake_mode s"
    and book: "dev_book_ok s d" "acl_space_empty s d"
  from ok have st: "st = ST_OK" "st' = ST_OK"
    by (auto simp: rule_step_def a b split: status.splits)
  have real2: "\<not> user_acl_fake_mode t2" using change2 real by (simp add: acl_change_def)
  from ok st real2 obtain y where y: "act = Some y" and t: "rule_write d (bk_destination key) ix fmts (match c) y t3 = (ST_OK, t)"
    by (auto simp: rule_step_def a b x split: option.splits)
  from t have "bk_destination key \<noteq> PCL_DEST_OTHER" by (auto simp: rule_write_def)
  with written [OF st(1) real2 book(1), of "bk_destination key" "match c" y] book(2) t
  have "acl_rules t d ty = acl_rules s d ty @
     (if ty = bk_acttype key then [(key, Some (dest_format (bk_destination key) fmts, match c, y))] else [])" for ty
    by simp
  moreover have "fst (action ix t2) = Some y" using x y by simp
  ultimately show "\<exists>c act ix. (\<exists>u. fst (action ix u) = Some act) \<and>
      (\<forall>ty. acl_rules t d ty = acl_rules s d ty @
         (if ty = bk_acttype key then [(key, Some (dest_format (bk_destination key) fmts, match c, act))] else []))"
    by blast
qed


section \<open>Requests\<close>

datatype acl_request =
    ReqIp "u8 list" pcl_action_type u64 pcl_interface pcl_dest pcl_rule_action pcl_action_params ip_pcl_rule
  | ReqIpv6 "u8 list" pcl_action_type u64 pcl_interface pcl_dest pcl_rule_action pcl_action_params ip_pcl_rule
  | ReqMac "u8 list" pcl_action_type u64 pcl_interface pcl_dest pcl_rule_action pcl_action_params mac_pcl_rule
  | ReqDefault pcl_interface pcl_dest pcl_default_action
  | ReqReset pcl_interface pcl_dest pcl_action_type
  | ReqGetCounter pcl_interface pcl_dest "u8 list" u64
  | ReqClearCounter pcl_interface pcl_dest "u8 list" u64
  | ReqTrial bool

definition acl_handle :: "env \<Rightarrow> pcl_env \<Rightarrow> acl_request \<Rightarrow> 'a acl_st_scheme \<Rightarrow> 'a acl_st_scheme" where
  "acl_handle E P rq s =
     (case rq of
        ReqIp name ty num i dest action params r \<Rightarrow> snd (pcl_ip_rule_set E P name ty num i dest action params r s)
      | ReqIpv6 name ty num i dest action params r \<Rightarrow> snd (pcl_ipv6_rule_set E P name ty num i dest action params r s)
      | ReqMac name ty num i dest action params r \<Rightarrow> snd (pcl_mac_rule_set E P name ty num i dest action params r s)
      | ReqDefault i dest dflt \<Rightarrow> snd (pcl_default_rule_set E P i dest dflt s)
      | ReqReset i dest ty \<Rightarrow> pcl_reset_rules E i dest ty s
      | ReqGetCounter i dest name num \<Rightarrow> snd (pcl_get_counter E P i dest name num s)
      | ReqClearCounter i dest name num \<Rightarrow> snd (pcl_clear_counter E i dest name num s)
      | ReqTrial en \<Rightarrow> pcl_set_fake_mode_enabled E en s)"

definition acl_run :: "env \<Rightarrow> pcl_env \<Rightarrow> acl_request list \<Rightarrow> 'a acl_st_scheme \<Rightarrow> 'a acl_st_scheme" where
  "acl_run E P rqs s = fold (acl_handle E P) rqs s"

text \<open>The common shape of the requests that set a rule.\<close>

definition dev_loop ::
  "env \<Rightarrow> pcl_interface \<Rightarrow> pcl_dest \<Rightarrow> (nat \<Rightarrow> nat \<Rightarrow> 'a acl_st_scheme \<Rightarrow> status \<times> 'a acl_st_scheme) \<Rightarrow> 'a acl_st_scheme \<Rightarrow> status \<times> 'a acl_st_scheme" where
  "dev_loop E i dest body s =
     (case rule_devs E i dest s of
        ((ST_OK, pcl_id, devs), s) \<Rightarrow> rule_loop (body pcl_id) devs s
      | ((st, _), s) \<Rightarrow> (st, s))"

lemma rule_set_loops:
  "pcl_ip_rule_set E P name ty num i dest action params r s =
     (if length name > NAME_SZ then (ST_BAD_VALUE, s)
      else dev_loop E i dest (\<lambda>pcl_id. rule_step P (bind_key name ty num i dest) (range_cmps P dest r)
        (\<lambda>ix. set_pcl_action ix dest action params (ir_trap_action r)) NOT_IPV6_FORMATS (set_ip_rule P r pcl_id (override_vid i))) s)"
  "pcl_ipv6_rule_set E P name ty num i dest action params r s =
     (if length name > NAME_SZ then (ST_BAD_VALUE, s)
      else dev_loop E i dest (\<lambda>pcl_id. rule_step P (bind_key name ty num i dest) (range_cmps P dest r)
        (\<lambda>ix. set_pcl_action ix dest action params (ir_trap_action r)) IPV6_FORMATS (set_ipv6_rule P r pcl_id (override_vid i))) s)"
  "pcl_mac_rule_set E P name ty num i dest action params m s =
     (if length name > NAME_SZ then (ST_BAD_VALUE, s)
      else dev_loop E i dest (\<lambda>pcl_id. rule_step P (bind_key name ty num i dest) []
        (\<lambda>ix. set_pcl_action ix dest action params (mr_trap_action m)) NOT_IPV6_FORMATS (\<lambda>_. set_mac_rule m pcl_id (override_vid i))) s)"
  "pcl_default_rule_set E P i dest dflt s =
     dev_loop E i dest (\<lambda>pcl_id. rule_step P (bind_key [] ACTION_TYPE_ACL 0 i dest) [] (default_action dest dflt) NOT_IPV6_FORMATS (\<lambda>_. [])) s"
  by (simp_all add: pcl_ip_rule_set_def pcl_ipv6_rule_set_def pcl_mac_rule_set_def pcl_default_rule_set_def dev_loop_def)

text \<open>A rule step by step: whether the rule loop has a device to work on.\<close>

lemma rule_devs_cases:
  assumes "rule_devs E i dest s = ((ST_OK, pcl_id, devs), t)"
  shows "(devs = [0 ..< e_ndevs E] \<and> pif_type i = PCL_INTERFACE_TYPE_VLAN \<and> t = snd (pcl_add_vlan_pcl_id E (pif_num i) s)) \<or>
    (\<exists>p \<in> set (ports s). devs = [pt_ldev p] \<and> t = s)"
proof (cases "pif_type i")
  case PCL_INTERFACE_TYPE_PORT
  with assms obtain p where p: "get_port_ptr (pif_num i) s = (ST_OK, Some p)"
    by (cases "get_port_ptr (pif_num i) s") (auto simp: rule_devs_def split: status.splits option.splits)
  then have "p \<in> set (ports s)"
    by (auto simp: get_port_ptr_def port_ptr_def port_valid_def split: if_splits option.splits)
  with assms p PCL_INTERFACE_TYPE_PORT show ?thesis by (auto simp: rule_devs_def split: pcl_dest.splits)
qed (use assms in \<open>auto simp: rule_devs_def split: status.splits prod.splits\<close>)

lemma rule_devs_state:
  "snd (rule_devs E i dest s) = s \<or> snd (rule_devs E i dest s) = snd (pcl_add_vlan_pcl_id E (pif_num i) s)"
  by (auto simp: rule_devs_def split: pcl_interface_type.split pcl_dest.split status.split option.split prod.split)

locale acl_step_kept =
  fixes E :: env and I :: "'a acl_st_scheme \<Rightarrow> bool"
  assumes dev_known: "I s \<Longrightarrow> p \<in> set (ports s) \<Longrightarrow> pt_ldev p < e_ndevs E"
    and step_kept: "I s \<Longrightarrow> d < e_ndevs E \<Longrightarrow> act_plain action \<Longrightarrow> I (snd (rule_step P key cmps action fmts match d s))"
    and vlan_kept: "I s \<Longrightarrow> I (snd (pcl_add_vlan_pcl_id E v s))"
    and remove_kept: "I s \<Longrightarrow> d < e_ndevs E \<Longrightarrow> I (remove_rule block d key s)"
    and ids_kept: "I s \<Longrightarrow> I (acl_upd (\<lambda>a. a\<lparr>pcl_ids := f a, vlan_ipcl_id := g a\<rparr>) s)"
    and quiet_kept: "I s \<Longrightarrow> pcl_no_rule e \<Longrightarrow> I (emit e s)"
    and crash_kept: "I s \<Longrightarrow> I (crash s)"
begin

lemma loop_kept:
  "I s \<Longrightarrow> set devs \<subseteq> {..<e_ndevs E} \<Longrightarrow> act_plain action \<Longrightarrow> I (snd (rule_loop (rule_step P key cmps action fmts match) devs s))"
proof (induction devs arbitrary: s)
  case (Cons d devs)
  obtain st t where t: "rule_step P key cmps action fmts match d s = (st, t)" by fastforce
  with step_kept [of s d action P key cmps fmts match] Cons.prems have "I t" by simp
  with Cons t show ?case by (cases st) simp_all
qed simp

lemma request_loop_kept:
  assumes "I s" "act_plain action"
  shows "I (snd (dev_loop E i dest (\<lambda>pcl_id. rule_step P key cmps action fmts (match pcl_id)) s))"
proof -
  obtain st pcl_id devs t where d: "rule_devs E i dest s = ((st, pcl_id, devs), t)" by (metis surj_pair)
  from rule_devs_state [of E i dest s] d assms vlan_kept [OF assms(1)] have t: "I t" by fastforce
  show ?thesis
  proof (cases st)
    case ST_OK
    with rule_devs_cases [of E i dest s pcl_id devs t] d dev_known [OF assms(1)] have "set devs \<subseteq> {..<e_ndevs E}" by auto
    from loop_kept [OF t this assms(2)] d ST_OK show ?thesis by (simp add: dev_loop_def)
  qed (use d t in \<open>simp_all add: dev_loop_def\<close>)
qed

lemma reset_dev_kept: "I s \<Longrightarrow> d < e_ndevs E \<Longrightarrow> I (reset_dev i dest ty block d s)"
proof -
  have "I s \<Longrightarrow> d < e_ndevs E \<Longrightarrow> I (fold (remove_rule block d) keys s)" for keys s
    by (induction keys arbitrary: s) (simp_all add: remove_kept)
  then show "I s \<Longrightarrow> d < e_ndevs E \<Longrightarrow> ?thesis" by (simp add: reset_dev_def)
qed

lemma reset_kept: "I s \<Longrightarrow> I (pcl_reset_rules E i dest ty s)"
proof -
  have "I s \<Longrightarrow> set ds \<subseteq> {..<e_ndevs E} \<Longrightarrow> I (fold (reset_dev i dest ty block) ds s)" for block ds s
    by (induction ds arbitrary: s) (simp_all add: reset_dev_kept)
  note devs = this [where ds = "[0 ..< e_ndevs E]"]
  assume "I s"
  then show ?thesis
    by (auto simp: pcl_reset_rules_def Let_def split: pcl_interface_type.split intro!: devs ids_kept crash_kept)
qed

lemma counter_loops_kept:
  "I s \<Longrightarrow> I (snd (counter_loop P block key ds n s))" "I s \<Longrightarrow> I (snd (clear_loop block key ds s))"
proof -
  show "I s \<Longrightarrow> I (snd (counter_loop P block key ds n s))"
    by (induction P block key ds n s rule: counter_loop.induct) (auto simp: Let_def quiet_kept split: option.split)
  show "I s \<Longrightarrow> I (snd (clear_loop block key ds s))"
    by (induction block key ds s rule: clear_loop.induct) (auto simp: quiet_kept split: option.split)
qed

text \<open>All requests but the switch of the trial mode.\<close>

lemma request_kept: "I s \<Longrightarrow> \<forall>en. rq \<noteq> ReqTrial en \<Longrightarrow> I (acl_handle E P rq s)"
proof (cases rq)
  case (ReqIp name ty num i dest action params r)
  then show "I s \<Longrightarrow> \<forall>en. rq \<noteq> ReqTrial en \<Longrightarrow> ?thesis"
    by (simp add: acl_handle_def rule_set_loops request_loop_kept set_pcl_action_plain)
next
  case (ReqIpv6 name ty num i dest action params r)
  then show "I s \<Longrightarrow> \<forall>en. rq \<noteq> ReqTrial en \<Longrightarrow> ?thesis"
    by (simp add: acl_handle_def rule_set_loops request_loop_kept set_pcl_action_plain)
next
  case (ReqMac name ty num i dest action params r)
  then show "I s \<Longrightarrow> \<forall>en. rq \<noteq> ReqTrial en \<Longrightarrow> ?thesis"
    by (simp add: acl_handle_def rule_set_loops request_loop_kept [where match = "\<lambda>pcl_id _. set_mac_rule r pcl_id (override_vid i)"] set_pcl_action_plain)
next
  case (ReqDefault i dest dflt)
  then show "I s \<Longrightarrow> \<forall>en. rq \<noteq> ReqTrial en \<Longrightarrow> ?thesis"
    by (simp add: acl_handle_def rule_set_loops request_loop_kept [where match = "\<lambda>pcl_id _. []"] default_action_plain)
next
  case (ReqGetCounter i dest name num)
  then show "I s \<Longrightarrow> \<forall>en. rq \<noteq> ReqTrial en \<Longrightarrow> ?thesis"
    by (auto simp: acl_handle_def pcl_get_counter_def counter_loops_kept split: option.split)
next
  case (ReqClearCounter i dest name num)
  then show "I s \<Longrightarrow> \<forall>en. rq \<noteq> ReqTrial en \<Longrightarrow> ?thesis"
    by (auto simp: acl_handle_def pcl_clear_counter_def counter_loops_kept split: option.split)
qed (simp_all add: acl_handle_def reset_kept all_bool_eq)

lemma run_kept_here: "I s \<Longrightarrow> \<forall>en. ReqTrial en \<notin> set rqs \<Longrightarrow> I (acl_run E P rqs s)"
proof -
  have "I s \<Longrightarrow> \<forall>en. ReqTrial en \<notin> set rqs \<Longrightarrow> I (fold (acl_handle E P) rqs s)"
  proof (induction rqs arbitrary: s)
    case (Cons a rqs)
    have "\<forall>en. a \<noteq> ReqTrial en" using Cons.prems(2) by auto
    with Cons show ?case by (simp add: request_kept)
  qed simp
  then show "I s \<Longrightarrow> \<forall>en. ReqTrial en \<notin> set rqs \<Longrightarrow> ?thesis" by (simp add: acl_run_def)
qed

end

locale acl_kept = acl_step_kept +
  assumes trial_kept: "I s \<Longrightarrow> I (pcl_set_fake_mode_enabled E en s)"
begin

lemma run_kept: "I s \<Longrightarrow> I (acl_run E P rqs s)"
proof -
  have "I s \<Longrightarrow> I (acl_handle E P rq s)" for rq s
  proof (cases "\<exists>en. rq = ReqTrial en")
    case True
    then show "I s \<Longrightarrow> ?thesis" by (auto simp: acl_handle_def trial_kept)
  next
    case False
    then show "I s \<Longrightarrow> ?thesis" by (simp add: request_kept)
  qed
  then have "I s \<Longrightarrow> I (fold (acl_handle E P) rqs s)" by (induction rqs arbitrary: s) simp_all
  then show "I s \<Longrightarrow> ?thesis" by (simp add: acl_run_def)
qed

end


section \<open>The order of the rules\<close>

definition acl_book_inv :: "env \<Rightarrow> 'a acl_st_scheme \<Rightarrow> bool" where
  "acl_book_inv E s \<longleftrightarrow>
     (\<forall>p \<in> set (ports s). pt_ldev p < e_ndevs E) \<and>
     (\<forall>d < e_ndevs E.
        book_ok (book (user_acl s) d) (bindings (user_acl s) d) \<and>
        (\<forall>ix. pbr_end (book (user_acl s) d) \<le> ix \<and> ix < ib_end (book (user_acl s) d) \<longrightarrow> pcl_rule_at (hw s) d ix = None) \<and>
        (user_acl_fake_mode s \<longrightarrow> book_ok (book (user_acl_fake s) d) (bindings (user_acl_fake s) d)))"

lemma acl_book_inv_dev:
  assumes "acl_book_inv E s" "d < e_ndevs E"
  shows "dev_book_ok s d \<and> (\<not> user_acl_fake_mode s \<longrightarrow> acl_space_empty s d)"
  using assms by (auto simp: acl_book_inv_def dev_book_ok_def acl_space_empty_def curr_acl_def)

lemma acl_book_inv_change:
  assumes "acl_book_inv E s" "d < e_ndevs E" "acl_change d s t"
  shows "acl_book_inv E t"
proof -
  note inv = assms(1) [unfolded acl_book_inv_def]
  have dev: "dev_book_ok s d" "\<not> user_acl_fake_mode s \<Longrightarrow> acl_space_empty s d" using acl_book_inv_dev [OF assms(1,2)] by auto
  note ch = assms(3) [unfolded acl_change_def]
  show ?thesis
  proof (cases "user_acl_fake_mode s")
    case True
    with ch dev have t: "user_acl_fake_mode t" "user_acl t = user_acl s" "pcl_rule_at (hw t) = pcl_rule_at (hw s)" "ports t = ports s"
      by auto
    have "book_ok (book (user_acl_fake t) d') (bindings (user_acl_fake t) d')" if "d' < e_ndevs E" for d'
    proof (cases "d' = d")
      case True
      with ch dev t show ?thesis by (simp add: dev_book_ok_def curr_acl_def)
    next
      case False
      with ch inv that t \<open>user_acl_fake_mode s\<close> show ?thesis by (simp add: curr_acl_def)
    qed
    with inv t show ?thesis unfolding acl_book_inv_def by simp
  next
    case False
    with ch dev have t: "\<not> user_acl_fake_mode t" "ports t = ports s" "acl_space_empty t d" "dev_book_ok t d"
      "\<And>d'. d' \<noteq> d \<Longrightarrow> pcl_rule_at (hw t) d' = pcl_rule_at (hw s) d'"
      "\<And>d'. d' \<noteq> d \<Longrightarrow> book (user_acl t) d' = book (user_acl s) d' \<and> bindings (user_acl t) d' = bindings (user_acl s) d'"
      by (auto simp: curr_acl_def)
    have "book_ok (book (user_acl t) d') (bindings (user_acl t) d') \<and>
        (\<forall>ix. pbr_end (book (user_acl t) d') \<le> ix \<and> ix < ib_end (book (user_acl t) d') \<longrightarrow> pcl_rule_at (hw t) d' ix = None)"
      if "d' < e_ndevs E" for d'
    proof (cases "d' = d")
      case True
      with t show ?thesis by (simp add: dev_book_ok_def acl_space_empty_def curr_acl_def)
    next
      case False
      with t inv that show ?thesis by simp
    qed
    with inv t show ?thesis unfolding acl_book_inv_def by simp
  qed
qed

lemma acl_book_inv_same: "acl_book_inv E s \<Longrightarrow> rules_same s t \<Longrightarrow> acl_book_inv E t"
  unfolding acl_book_inv_def rules_same_def curr_acl_def by (cases "user_acl_fake_mode s") auto

interpretation acl_book: acl_kept E "acl_book_inv E" for E
proof
  show "acl_book_inv E s \<Longrightarrow> p \<in> set (ports s) \<Longrightarrow> pt_ldev p < e_ndevs E" for s p
    by (simp add: acl_book_inv_def)
  show "acl_book_inv E s \<Longrightarrow> d < e_ndevs E \<Longrightarrow> act_plain action \<Longrightarrow> acl_book_inv E (snd (rule_step P key cmps action fmts match d s))"
    for s d action P key cmps fmts match by (rule acl_book_inv_change [OF _ _ rule_step_rules(1)])
  show "acl_book_inv E s \<Longrightarrow> acl_book_inv E (snd (pcl_add_vlan_pcl_id E v s))" for s v
    by (rule acl_book_inv_same [OF _ rules_same_vlan_id])
  show "acl_book_inv E s \<Longrightarrow> d < e_ndevs E \<Longrightarrow> acl_book_inv E (remove_rule block d key s)" for s d block key
    using acl_book_inv_dev [of E s d] by (auto intro: acl_book_inv_change remove_rule_rules(1))
  show "acl_book_inv E s \<Longrightarrow> acl_book_inv E (acl_upd (\<lambda>a. a\<lparr>pcl_ids := f a, vlan_ipcl_id := g a\<rparr>) s)" for s f g
    by (erule acl_book_inv_same, rule rules_same_acl_upd) simp_all
  show "acl_book_inv E s \<Longrightarrow> pcl_no_rule e \<Longrightarrow> acl_book_inv E (emit e s)" for s e
    by (rule acl_book_inv_same [OF _ rules_same_emit])
  show "acl_book_inv E s \<Longrightarrow> acl_book_inv E (crash s)" for s
    by (rule acl_book_inv_same [OF _ rules_same_crash])
  show "acl_book_inv E s \<Longrightarrow> acl_book_inv E (pcl_set_fake_mode_enabled E en s)" for s en
    by (auto simp: pcl_set_fake_mode_enabled_def acl_book_inv_def fake_copy_def)
qed

section \<open>The pool of comparators\<close>

definition cmps_ok :: "user_acl \<Rightarrow> nat \<Rightarrow> bool" where
  "cmps_ok a d \<longleftrightarrow>
     distinct (port_cmp_idxs a d @ map pc_cmp_ix (port_cmps a d)) \<and>
     set (port_cmp_idxs a d @ map pc_cmp_ix (port_cmps a d)) = {..<PCL_CMP_IDX_COUNT} \<and>
     keys_distinct pc_key (port_cmps a d)"

definition acl_cmps_inv :: "env \<Rightarrow> 'a acl_st_scheme \<Rightarrow> bool" where
  "acl_cmps_inv E s \<longleftrightarrow>
     (\<forall>p \<in> set (ports s). pt_ldev p < e_ndevs E) \<and>
     (\<forall>d < e_ndevs E. cmps_ok (user_acl s) d \<and> (user_acl_fake_mode s \<longrightarrow> cmps_ok (user_acl_fake s) d))"

text \<open>Each update of the book-keeping in use keeps the comparators in order.\<close>

definition cmps_step :: "'a acl_st_scheme \<Rightarrow> 'a acl_st_scheme \<Rightarrow> bool" where
  "cmps_step s t \<longleftrightarrow>
     (\<exists>f. user_acl t = (if user_acl_fake_mode s then user_acl s else f (user_acl s)) \<and>
          user_acl_fake t = (if user_acl_fake_mode s then f (user_acl_fake s) else user_acl_fake s) \<and>
          (\<forall>d. cmps_ok (curr_acl s) d \<longrightarrow> cmps_ok (f (curr_acl s)) d)) \<and>
     user_acl_fake_mode t = user_acl_fake_mode s \<and> ports t = ports s"

lemma cmps_step_inv: "acl_cmps_inv E s \<Longrightarrow> cmps_step s t \<Longrightarrow> acl_cmps_inv E t"
  unfolding acl_cmps_inv_def cmps_step_def curr_acl_def by (auto split: if_splits)

lemma cmps_step_upd: "(\<And>d. cmps_ok (curr_acl s) d \<Longrightarrow> cmps_ok (f (curr_acl s)) d) \<Longrightarrow> cmps_step s (acl_upd f s)"
  unfolding cmps_step_def by (auto simp: acl_upd_def intro: exI [of _ f])

lemma cmps_step_id: "user_acl t = user_acl s \<Longrightarrow> user_acl_fake t = user_acl_fake s \<Longrightarrow>
    user_acl_fake_mode t = user_acl_fake_mode s \<Longrightarrow> ports t = ports s \<Longrightarrow> cmps_step s t"
  unfolding cmps_step_def by (auto intro: exI [of _ id])

lemma cmps_step_refl [simp]: "cmps_step s s"
  by (rule cmps_step_id) simp_all

lemma cmps_step_trans: "cmps_step s t \<Longrightarrow> cmps_step t u \<Longrightarrow> cmps_step s u"
proof -
  assume "cmps_step s t" "cmps_step t u"
  then obtain f g where
    f: "user_acl t = (if user_acl_fake_mode s then user_acl s else f (user_acl s))"
      "user_acl_fake t = (if user_acl_fake_mode s then f (user_acl_fake s) else user_acl_fake s)"
      "\<forall>d. cmps_ok (curr_acl s) d \<longrightarrow> cmps_ok (f (curr_acl s)) d" "user_acl_fake_mode t = user_acl_fake_mode s" "ports t = ports s"
    and g: "user_acl u = (if user_acl_fake_mode t then user_acl t else g (user_acl t))"
      "user_acl_fake u = (if user_acl_fake_mode t then g (user_acl_fake t) else user_acl_fake t)"
      "\<forall>d. cmps_ok (curr_acl t) d \<longrightarrow> cmps_ok (g (curr_acl t)) d" "user_acl_fake_mode u = user_acl_fake_mode t" "ports u = ports t"
    unfolding cmps_step_def by blast
  have "curr_acl t = f (curr_acl s)" using f by (simp add: curr_acl_def)
  then show "cmps_step s u"
    unfolding cmps_step_def using f g by (intro conjI exI [of _ "g \<circ> f"]) auto
qed

lemma cmps_step_plain:
  assumes "\<And>a. port_cmps (f a) = port_cmps a" "\<And>a. port_cmp_idxs (f a) = port_cmp_idxs a"
  shows "cmps_step s (acl_upd f s)"
  by (rule cmps_step_upd) (simp add: cmps_ok_def assms)

lemma cmps_step_book: "cmps_step s (book_upd d f s)" "cmps_step s (bindings_upd d g s)"
  unfolding book_upd_def bindings_upd_def by (rule cmps_step_plain; simp)+

lemma cmps_step_quiet:
  "cmps_step s (emit e s)" "cmps_step s (crash s)" "cmps_step s (s\<lparr>hw := h\<rparr>)"
  by (rule cmps_step_id; simp add: emit_def crash_def)+

lemma cmps_step_move: "cmps_step s (ix_book_move_rule d i n s)"
  unfolding ix_book_move_rule_eq by (rule cmps_step_trans [OF cmps_step_quiet(3) cmps_step_book(2)])

lemma cmps_step_moves: "cmps_step s (move_up d lo hi s)" "cmps_step s (move_down d lo hi s)"
proof -
  have "cmps_step s (fold (\<lambda>i. ix_book_move_rule d (f i) (g i)) is s)" for f g "is" and s :: "'a acl_st_scheme"
    by (induction "is" arbitrary: s) (auto intro: cmps_step_trans cmps_step_move)
  then show "cmps_step s (move_up d lo hi s)" "cmps_step s (move_down d lo hi s)"
    by (simp_all add: move_up_def move_down_def)
qed

lemma cmps_step_add_rule: "cmps_step s (snd (pcl_add_rule_ix d key s))"
  by (auto simp: pcl_add_rule_ix_def ix_book_take_cases Let_def split: option.split
      intro: cmps_step_trans [OF cmps_step_trans [OF cmps_step_moves(1) cmps_step_book(1)] cmps_step_book(2)])

lemma cmps_step_add_cmp: "cmps_step s (snd (pcl_add_port_cmp_ix P d key ix c s))"
proof -
  let ?a = "curr_acl s"
  have set: "cmps_step t (snd (pcl_tcp_udp_port_cmp_set P d pc t))" for pc and t :: "'a acl_st_scheme"
    by (auto simp: pcl_tcp_udp_port_cmp_set_def Let_def cmps_step_quiet)
  show ?thesis
  proof (cases "hash_find pc_key (port_cmps ?a d) key")
    case None
    show ?thesis
    proof (cases "dstack_pop (port_cmp_idxs ?a d)")
      case (Some cr)
      obtain i rest where cr: "cr = (i, rest)" by fastforce
      have idxs: "port_cmp_idxs ?a d = rest @ [i]" using Some by (simp add: cr dstack_pop_Some)
      let ?pc = "\<lparr>pc_key = key, pc_cmp_ix = i, pc_rule_idxs = [ix]\<rparr>"
      have "cmps_step s (cmps_upd d rest (hash_add ?pc (port_cmps ?a d)) s)"
        unfolding cmps_upd_def
        by (rule cmps_step_upd) (use None idxs in \<open>auto simp: cmps_ok_def hash_add_def hash_find_None split: if_splits\<close>)
      with None Some show ?thesis
        by (auto simp: pcl_add_port_cmp_ix_def Let_def cr intro: cmps_step_trans [OF _ set])
    qed (use None in \<open>simp add: pcl_add_port_cmp_ix_def Let_def dstack_pop_def\<close>)
  next
    case (Some pc)
    have "cmps_step s (cmps_upd d (port_cmp_idxs ?a d)
        (hash_mod pc_key key (\<lambda>pc. pc\<lparr>pc_rule_idxs := ix # pc_rule_idxs pc\<rparr>) (port_cmps ?a d)) s)"
      unfolding cmps_upd_def
    by (rule cmps_step_upd) (auto simp add: cmps_ok_def simp del: set_append set_map distinct_append)
    with Some show ?thesis by (simp add: pcl_add_port_cmp_ix_def Let_def)
  qed
qed


lemma cmps_step_add_cmps: "cmps_step s (snd (add_cmps P d ix ks c s))"
proof (induction P d ix ks c s rule: add_cmps.induct)
  case (2 P d ix k ks s0 s1 d0 d1 s)
  define old where "old = (case ck_port_type k of PCL_PORT_SRC \<Rightarrow> (case ck_op k of PCL_GTE \<Rightarrow> s0 | PCL_LTE \<Rightarrow> s1)
      | PCL_PORT_DST \<Rightarrow> (case ck_op k of PCL_GTE \<Rightarrow> d0 | PCL_LTE \<Rightarrow> d1))"
  obtain st n t where a: "pcl_add_port_cmp_ix P d k ix old s = ((st, n), t)" by (metis surj_pair)
  have one: "cmps_step s t" using cmps_step_add_cmp [of s P d k ix old] a by simp
  show ?case
  proof (cases st)
    case ST_OK
    from "2.IH" [OF old_def a [symmetric] refl, unfolded ST_OK] one show ?thesis
      using a ST_OK by (simp add: old_def [symmetric] Let_def) (rule cmps_step_trans, assumption+)
  qed (use a one in \<open>simp_all add: old_def [symmetric] Let_def\<close>)
qed simp

lemma cmps_step_rule_step:
  assumes "act_plain action"
  shows "cmps_step s (snd (rule_step P key cmps action fmts match d s))"
proof -
  obtain st ix t1 where a: "pcl_add_rule_ix d key s = ((st, ix), t1)" by (metis surj_pair)
  obtain st' c t2 where b: "add_cmps P d ix cmps ((0, 0), (0, 0)) t1 = ((st', c), t2)" by (metis surj_pair)
  obtain act t3 where x: "action ix t2 = (act, t3)" by (metis surj_pair)
  have one: "cmps_step s t1" using cmps_step_add_rule [of s d key] a by simp
  have "cmps_step t1 t2" using cmps_step_add_cmps [of t1 P d ix cmps "((0, 0), (0, 0))"] b by simp
  with one have two: "cmps_step s t2" by (rule cmps_step_trans)
  have "cmps_step t2 t3" using assms x unfolding act_plain_def by (metis cmps_step_quiet(2) cmps_step_refl snd_conv)
  with two have three: "cmps_step s t3" by (rule cmps_step_trans)
  have "cmps_step t3 (snd (rule_write d dest ix fmts m y t3))" for dest m y
    by (cases dest) (simp_all add: rule_write_def rule_set_def cmps_step_quiet)
  with three have "cmps_step s (snd (rule_write d dest ix fmts m y t3))" for dest m y by (rule cmps_step_trans)
  with one two three show ?thesis by (auto simp: rule_step_def a b x split: status.split option.split)
qed

lemma cmps_step_release: "cmps_step s (release_cmp d ix key s)"
proof (cases "hash_find pc_key (port_cmps (curr_acl s) d) key")
  case None
  then show ?thesis by (simp add: release_cmp_def)
next
  case (Some pc)
  let ?cmps = "port_cmps (curr_acl s) d" and ?idxs = "port_cmp_idxs (curr_acl s) d"
  from hash_find_in [OF Some] have pc: "pc \<in> set ?cmps" "pc_key pc = key" by auto
  have "cmps_step s (cmps_upd d (dstack_rev_sort2 (dstack_push (pc_cmp_ix pc) ?idxs)) (hash_del pc_key key ?cmps) s)"
    unfolding cmps_upd_def
  proof (rule cmps_step_upd)
    fix d'
    assume ok: "cmps_ok (curr_acl s) d'"
    show "cmps_ok ((curr_acl s)\<lparr>port_cmp_idxs := (port_cmp_idxs (curr_acl s))(d := dstack_rev_sort2 (dstack_push (pc_cmp_ix pc) ?idxs)),
        port_cmps := (port_cmps (curr_acl s))(d := hash_del pc_key key ?cmps)\<rparr>) d'"
    proof (cases "d' = d")
      case True
      obtain xs ys where split: "?cmps = xs @ pc # ys" using split_list [OF pc(1)] by blast
      have "hash_del pc_key key ?cmps = filter (\<lambda>e. pc_key e \<noteq> key) ?cmps"
        using ok True by (intro hash_del_filter) (simp add: cmps_ok_def)
      also have "\<dots> = xs @ ys"
      proof -
        have "pc_key pc \<notin> pc_key ` set xs" "pc_key pc \<notin> pc_key ` set ys" using ok True by (auto simp: cmps_ok_def split)
        moreover have "key \<notin> pc_key ` set zs \<Longrightarrow> filter (\<lambda>e. pc_key e \<noteq> key) zs = zs" for zs by (rule filter_True) force
        ultimately have "filter (\<lambda>e. pc_key e \<noteq> key) xs = xs" "filter (\<lambda>e. pc_key e \<noteq> key) ys = ys" using pc by simp_all
        then show ?thesis by (simp add: split pc)
      qed
      finally show ?thesis using ok True by (auto simp: cmps_ok_def split)
    qed (use ok in \<open>simp add: cmps_ok_def\<close>)
  qed
  moreover have "cmps_step s (cmps_upd d ?idxs (hash_mod pc_key key (\<lambda>pc. pc\<lparr>pc_rule_idxs := remove1 ix (pc_rule_idxs pc)\<rparr>) ?cmps) s)"
    unfolding cmps_upd_def
    by (rule cmps_step_upd) (auto simp add: cmps_ok_def simp del: set_append set_map distinct_append)
  ultimately show ?thesis using Some by (simp add: release_cmp_def Let_def)
qed

lemma cmps_step_return: "cmps_step s (snd (ix_book_return d ix s))"
  by (auto simp: ix_book_return_def ix_book_action_acl_return_def ix_book_action_qos_return_def
      ix_book_action_pbr_return_def Let_def intro: cmps_step_trans [OF cmps_step_moves(2) cmps_step_book(1)])

lemma cmps_step_remove: "cmps_step s (remove_rule block d key s)"
proof -
  have rel: "cmps_step t (fold (release_cmp d ix) keys t)" for ix keys and t :: "'a acl_st_scheme"
    by (induction keys arbitrary: t) (auto intro: cmps_step_trans cmps_step_release)
  have inv: "cmps_step t (if user_acl_fake_mode t then t else rule_invalidate d ix t)" for ix and t :: "'a acl_st_scheme"
    by (simp add: rule_invalidate_def cmps_step_quiet)
  have end_: "cmps_step t (bindings_upd d f (emit e (snd (ix_book_return d ix t))))" for f e ix and t :: "'a acl_st_scheme"
    by (rule cmps_step_trans [OF cmps_step_trans [OF cmps_step_return cmps_step_quiet(1)] cmps_step_book(2)])
  show ?thesis
  proof (cases "hash_find rb_key (bindings (curr_acl s) d) key")
    case (Some b)
    show ?thesis unfolding remove_rule_def Some option.case Let_def
      by (rule cmps_step_trans [OF cmps_step_trans [OF rel inv] end_])
  qed (simp add: remove_rule_def)
qed

lemma cmps_step_vlan_id: "cmps_step s (snd (pcl_add_vlan_pcl_id E v s))"
proof -
  have id: "cmps_step s (acl_upd (\<lambda>a. a\<lparr>pcl_ids := r, vlan_ipcl_id := q a\<rparr>) s)" for r q by (rule cmps_step_plain) simp_all
  have en: "cmps_step t (pcl_enable_vlan E v i t)" for i and t :: "'a acl_st_scheme"
    unfolding pcl_enable_vlan_def for_each_dev_state by (rule cmps_step_quiet)
  show ?thesis
    by (auto simp: pcl_add_vlan_pcl_id_def Let_def cmps_step_quiet id intro: cmps_step_trans [OF id en] split: option.split)
qed

interpretation acl_cmps: acl_kept E "acl_cmps_inv E" for E
proof
  show "acl_cmps_inv E s \<Longrightarrow> p \<in> set (ports s) \<Longrightarrow> pt_ldev p < e_ndevs E" for s p
    by (simp add: acl_cmps_inv_def)
  show "acl_cmps_inv E s \<Longrightarrow> d < e_ndevs E \<Longrightarrow> act_plain action \<Longrightarrow> acl_cmps_inv E (snd (rule_step P key cmps action fmts match d s))"
    for s d action P key cmps fmts match by (rule cmps_step_inv [OF _ cmps_step_rule_step])
  show "acl_cmps_inv E s \<Longrightarrow> acl_cmps_inv E (snd (pcl_add_vlan_pcl_id E v s))" for s v
    by (rule cmps_step_inv [OF _ cmps_step_vlan_id])
  show "acl_cmps_inv E s \<Longrightarrow> d < e_ndevs E \<Longrightarrow> acl_cmps_inv E (remove_rule block d key s)" for s d block key
    by (rule cmps_step_inv [OF _ cmps_step_remove])
  show "acl_cmps_inv E s \<Longrightarrow> acl_cmps_inv E (acl_upd (\<lambda>a. a\<lparr>pcl_ids := f a, vlan_ipcl_id := g a\<rparr>) s)" for s f g
    by (erule cmps_step_inv, rule cmps_step_plain) simp_all
  show "acl_cmps_inv E s \<Longrightarrow> pcl_no_rule e \<Longrightarrow> acl_cmps_inv E (emit e s)" for s e
    by (rule cmps_step_inv [OF _ cmps_step_quiet(1)])
  show "acl_cmps_inv E s \<Longrightarrow> acl_cmps_inv E (crash s)" for s
    by (rule cmps_step_inv [OF _ cmps_step_quiet(2)])
  show "acl_cmps_inv E s \<Longrightarrow> acl_cmps_inv E (pcl_set_fake_mode_enabled E en s)" for s en
  proof -
    have "cmps_ok (fake_copy E a f) d = cmps_ok a d" if "d < e_ndevs E" for a f d
      using that by (simp add: cmps_ok_def fake_copy_def o_def copy_cmp_def del: set_append set_map distinct_append)
    then show "acl_cmps_inv E s \<Longrightarrow> ?thesis"
      by (auto simp: pcl_set_fake_mode_enabled_def acl_cmps_inv_def)
  qed
qed

end
