(* ===== verification/Pcl_Trial.thy ===== *)
theory Pcl_Trial
  imports Pcl_Kept
begin

text \<open>
  The trial mode of the access lists: requests run on a copy of the book-keeping. They leave the rules
  of the devices and the real book-keeping alone, and for ports they answer what the real requests
  would.
\<close>

section \<open>Nothing happens to the switch\<close>

definition trial_of :: "env \<Rightarrow> bool \<Rightarrow> 'a acl_st_scheme \<Rightarrow> 'a acl_st_scheme \<Rightarrow> bool" where
  "trial_of E trial s t \<longleftrightarrow>
     acl_book_inv E t \<and> user_acl_fake_mode t = trial \<and>
     (trial \<longrightarrow> user_acl t = user_acl s \<and> pcl_rule_at (hw t) = pcl_rule_at (hw s))"

lemma trial_of_change: "trial_of E m s t \<Longrightarrow> d < e_ndevs E \<Longrightarrow> acl_change d t u \<Longrightarrow> trial_of E m s u"
  using acl_book_inv_dev [of E t d] acl_book_inv_change [of E t d u] by (auto simp: trial_of_def acl_change_def)

lemma trial_of_same: "trial_of E m s t \<Longrightarrow> rules_same t u \<Longrightarrow> trial_of E m s u"
  using acl_book_inv_same [of E t u] by (auto simp: trial_of_def rules_same_def)

interpretation acl_trial: acl_step_kept E "trial_of E m s0" for E m s0
proof
  show "trial_of E m s0 s \<Longrightarrow> p \<in> set (ports s) \<Longrightarrow> pt_ldev p < e_ndevs E" for s p
    by (auto simp: trial_of_def acl_book_inv_def)
  show "trial_of E m s0 s \<Longrightarrow> d < e_ndevs E \<Longrightarrow> act_plain action \<Longrightarrow> trial_of E m s0 (snd (rule_step P key cmps action fmts match d s))"
    for s d action P key cmps fmts match by (rule trial_of_change [OF _ _ rule_step_rules(1)])
  show "trial_of E m s0 s \<Longrightarrow> trial_of E m s0 (snd (pcl_add_vlan_pcl_id E v s))" for s v
    by (rule trial_of_same [OF _ rules_same_vlan_id])
  show "trial_of E m s0 s \<Longrightarrow> d < e_ndevs E \<Longrightarrow> trial_of E m s0 (remove_rule block d key s)" for s d block key
  proof -
    assume t: "trial_of E m s0 s" and d: "d < e_ndevs E"
    then have "dev_book_ok s d" using acl_book_inv_dev [of E s d] by (simp add: trial_of_def)
    from trial_of_change [OF t d remove_rule_rules(1) [OF this]] show ?thesis .
  qed
  show "trial_of E m s0 s \<Longrightarrow> trial_of E m s0 (acl_upd (\<lambda>a. a\<lparr>pcl_ids := f a, vlan_ipcl_id := g a\<rparr>) s)" for s f g
    by (erule trial_of_same, rule rules_same_acl_upd) simp_all
  show "trial_of E m s0 s \<Longrightarrow> pcl_no_rule e \<Longrightarrow> trial_of E m s0 (emit e s)" for s e
    by (rule trial_of_same [OF _ rules_same_emit])
  show "trial_of E m s0 s \<Longrightarrow> trial_of E m s0 (crash s)" for s
    by (rule trial_of_same [OF _ rules_same_crash])
qed

section \<open>The same answers\<close>

definition cmp_sim :: "port_cmp \<Rightarrow> port_cmp \<Rightarrow> bool" where
  "cmp_sim p q \<longleftrightarrow> pc_key p = pc_key q \<and> pc_cmp_ix p = pc_cmp_ix q \<and> mset (pc_rule_idxs p) = mset (pc_rule_idxs q)"

text \<open>The book-keeping in use is the same on the devices, apart from the identifiers of VLANs.\<close>

definition acl_sim :: "env \<Rightarrow> 'a acl_st_scheme \<Rightarrow> 'a acl_st_scheme \<Rightarrow> bool" where
  "acl_sim E s f \<longleftrightarrow>
     ports f = ports s \<and> stack_id f = stack_id s \<and> acl_book_inv E s \<and> acl_book_inv E f \<and>
     (\<forall>d < e_ndevs E.
        book (curr_acl f) d = book (curr_acl s) d \<and> bindings (curr_acl f) d = bindings (curr_acl s) d \<and>
        port_cmp_idxs (curr_acl f) d = port_cmp_idxs (curr_acl s) d \<and>
        list_all2 cmp_sim (port_cmps (curr_acl s) d) (port_cmps (curr_acl f) d))"

lemma cmp_sim_key: "cmp_sim p q \<Longrightarrow> pc_key p = pc_key q"
  by (simp add: cmp_sim_def)

lemma cmp_sim_find:
  assumes "list_all2 cmp_sim ps qs"
  shows "rel_option cmp_sim (hash_find pc_key ps key) (hash_find pc_key qs key)"
  using assms by induction (auto simp: hash_find_def cmp_sim_def)

lemma cmp_sim_mod:
  assumes "list_all2 cmp_sim ps qs" "\<And>p q. cmp_sim p q \<Longrightarrow> cmp_sim (g p) (h q)"
  shows "list_all2 cmp_sim (hash_mod pc_key key g ps) (hash_mod pc_key key h qs)"
  using assms(1) by induction (auto simp: hash_mod_def dest: cmp_sim_key intro: assms(2))

lemma cmp_sim_del:
  assumes "list_all2 cmp_sim ps qs"
  shows "list_all2 cmp_sim (hash_del pc_key key ps) (hash_del pc_key key qs)"
  using assms by induction (auto simp: hash_del_def dest: cmp_sim_key)

lemma cmp_sim_keys: "list_all2 cmp_sim ps qs \<Longrightarrow> map pc_key ps = map pc_key qs"
  by (induction rule: list_all2_induct) (auto simp: cmp_sim_def)

lemma acl_sim_dev:
  assumes "acl_sim E s f" "d < e_ndevs E"
  shows "dev_book_ok s d" "dev_book_ok f d" "book (curr_acl f) d = book (curr_acl s) d"
    "bindings (curr_acl f) d = bindings (curr_acl s) d" "port_cmp_idxs (curr_acl f) d = port_cmp_idxs (curr_acl s) d"
    "list_all2 cmp_sim (port_cmps (curr_acl s) d) (port_cmps (curr_acl f) d)"
  using assms acl_book_inv_dev [of E s d] acl_book_inv_dev [of E f d] by (auto simp: acl_sim_def)

text \<open>Changes of one device: it is enough to look at that device.\<close>

lemma acl_sim_change:
  assumes "acl_sim E s f" "d < e_ndevs E" "acl_change d s t" "acl_change d f g"
    and "book (curr_acl g) d = book (curr_acl t) d" "bindings (curr_acl g) d = bindings (curr_acl t) d"
    and "\<And>d'. d' < e_ndevs E \<Longrightarrow> port_cmp_idxs (curr_acl g) d' = port_cmp_idxs (curr_acl t) d' \<and>
      list_all2 cmp_sim (port_cmps (curr_acl t) d') (port_cmps (curr_acl g) d')"
  shows "acl_sim E t g"
proof -
  have "acl_book_inv E t" "acl_book_inv E g"
    using assms(1-4) by (auto simp: acl_sim_def intro: acl_book_inv_change)
  moreover have "book (curr_acl g) d' = book (curr_acl t) d' \<and> bindings (curr_acl g) d' = bindings (curr_acl t) d'"
    if "d' < e_ndevs E" for d'
  proof (cases "d' = d")
    case False
    then show ?thesis using assms(1,3,4) that unfolding acl_sim_def acl_change_def by metis
  qed (use assms(5,6) in simp)
  moreover have "ports g = ports t" "stack_id g = stack_id t" using assms(1,3,4) by (simp_all add: acl_sim_def acl_change_def)
  ultimately show ?thesis using assms(7) by (simp add: acl_sim_def)
qed

lemma acl_sim_cmps:
  assumes "acl_sim E s f" "list_all2 cmp_sim ps qs"
  shows "acl_sim E (cmps_upd d idxs ps s) (cmps_upd d idxs qs f)"
  using assms acl_book_inv_same [OF _ rules_same_cmps]
  by (auto simp: acl_sim_def cmps_upd_def acl_simps)

lemma acl_sim_quiet:
  assumes "acl_sim E s f"
  shows "pcl_no_rule e \<Longrightarrow> acl_sim E (emit e s) f" "pcl_no_rule e \<Longrightarrow> acl_sim E s (emit e f)"
    "acl_sim E (crash s) f"
proof -
  show "pcl_no_rule e \<Longrightarrow> acl_sim E (emit e s) f" "pcl_no_rule e \<Longrightarrow> acl_sim E s (emit e f)"
    using assms acl_book_inv_same [OF _ rules_same_emit] by (auto simp: acl_sim_def acl_simps)
  have "ports (crash s) = ports s" "stack_id (crash s) = stack_id s" by (simp_all add: crash_def)
  then show "acl_sim E (crash s) f"
    using assms acl_book_inv_same [OF _ rules_same_crash] by (auto simp: acl_sim_def acl_simps)
qed

lemma acl_sim_add_rule:
  assumes sim: "acl_sim E s f" and d: "d < e_ndevs E"
  shows "fst (pcl_add_rule_ix d key s) = fst (pcl_add_rule_ix d key f) \<and>
    acl_sim E (snd (pcl_add_rule_ix d key s)) (snd (pcl_add_rule_ix d key f))"
proof -
  note dev = acl_sim_dev [OF sim d]
  have fst: "fst (pcl_add_rule_ix d key s) = fst (pcl_add_rule_ix d key f)"
    by (simp add: pcl_add_rule_ix_def ix_book_take_cases Let_def dev split: option.split)
  obtain st ix t where a: "pcl_add_rule_ix d key s = ((st, ix), t)" by (metis surj_pair)
  with fst obtain g where b: "pcl_add_rule_ix d key f = ((st, ix), g)" by (metis fst_conv surj_pair)
  show ?thesis
  proof (cases "st = ST_OK")
    case True
    note sa = pcl_add_rule_ix_rules [OF a [unfolded True] dev(1) [unfolded dev_book_ok_def]]
    note sb = pcl_add_rule_ix_rules [OF b [unfolded True] dev(2) [unfolded dev_book_ok_def]]
    from pcl_add_rule_ix_eq [OF a [unfolded True] dev(1) [unfolded dev_book_ok_def]]
      pcl_add_rule_ix_eq [OF b [unfolded True] dev(2) [unfolded dev_book_ok_def]]
    have "book (curr_acl g) d = book (curr_acl t) d" "bindings (curr_acl g) d = bindings (curr_acl t) d"
      using dev by (auto simp: acl_simps)
    moreover have "port_cmp_idxs (curr_acl t) = port_cmp_idxs (curr_acl s)" "port_cmps (curr_acl t) = port_cmps (curr_acl s)"
      "port_cmp_idxs (curr_acl g) = port_cmp_idxs (curr_acl f)" "port_cmps (curr_acl g) = port_cmps (curr_acl f)"
      using sa(1) sb(1) by blast+
    moreover have "acl_change d s t" "acl_change d f g"
      using add_rule_change [of d s key] add_rule_change [of d f key] a b by simp_all
    ultimately have "acl_sim E t g"
      using acl_sim_dev(5,6) [OF sim] by (intro acl_sim_change [OF sim d]) simp_all
    with a b show ?thesis by simp
  next
    case False
    then have "t = s" "g = f"
      using a b by (auto simp: pcl_add_rule_ix_def ix_book_take_cases Let_def split: option.splits if_splits)
    with a b sim show ?thesis by simp
  qed
qed

lemma acl_sim_add_cmp:
  assumes sim: "acl_sim E s f" and d: "d < e_ndevs E"
  shows "fst (pcl_add_port_cmp_ix P d key ix c s) = fst (pcl_add_port_cmp_ix P d key ix c f) \<and>
    acl_sim E (snd (pcl_add_port_cmp_ix P d key ix c s)) (snd (pcl_add_port_cmp_ix P d key ix c f))"
proof -
  note dev = acl_sim_dev [OF sim d]
  have set: "acl_sim E (if b then t else snd (pcl_tcp_udp_port_cmp_set P d pc t)) (if b' then g else snd (pcl_tcp_udp_port_cmp_set P d pc g))"
    if "acl_sim E t g" for pc b b' and t g :: "'a acl_st_scheme"
    using acl_sim_quiet [OF that] acl_sim_quiet [OF acl_sim_quiet(1) [OF that]] that
    by (simp add: pcl_tcp_udp_port_cmp_set_def Let_def)
  from cmp_sim_find [OF dev(6), of key] show ?thesis
  proof (cases rule: option.rel_cases)
    case None
    show ?thesis
    proof (cases "dstack_pop (port_cmp_idxs (curr_acl s) d)")
      case (Some cr)
      let ?pc = "\<lparr>pc_key = key, pc_cmp_ix = fst cr, pc_rule_idxs = [ix]\<rparr>"
      have "acl_sim E (cmps_upd d (snd cr) (hash_add ?pc (port_cmps (curr_acl s) d)) s) (cmps_upd d (snd cr) (hash_add ?pc (port_cmps (curr_acl f) d)) f)"
        by (rule acl_sim_cmps [OF sim]) (use dev in \<open>simp add: hash_add_def list_all2_appendI cmp_sim_def\<close>)
      from set [OF this] None Some dev show ?thesis
        by (simp add: pcl_add_port_cmp_ix_def Let_def case_prod_beta)
    qed (use None dev sim in \<open>simp add: pcl_add_port_cmp_ix_def Let_def dstack_pop_def\<close>)
  next
    case (Some p q)
    have "acl_sim E (cmps_upd d (port_cmp_idxs (curr_acl s) d) (hash_mod pc_key key (\<lambda>pc. pc\<lparr>pc_rule_idxs := ix # pc_rule_idxs pc\<rparr>) (port_cmps (curr_acl s) d)) s)
        (cmps_upd d (port_cmp_idxs (curr_acl s) d) (hash_mod pc_key key (\<lambda>pc. pc\<lparr>pc_rule_idxs := ix # pc_rule_idxs pc\<rparr>) (port_cmps (curr_acl f) d)) f)"
      by (rule acl_sim_cmps [OF sim], rule cmp_sim_mod [OF dev(6)]) (simp add: cmp_sim_def)
    with Some dev show ?thesis by (simp add: pcl_add_port_cmp_ix_def Let_def)
  qed
qed

lemma acl_sim_add_cmps:
  assumes "acl_sim E s f" "d < e_ndevs E"
  shows "fst (add_cmps P d ix ks c s) = fst (add_cmps P d ix ks c f) \<and>
    acl_sim E (snd (add_cmps P d ix ks c s)) (snd (add_cmps P d ix ks c f))"
  using assms
proof (induction P d ix ks c s arbitrary: f rule: add_cmps.induct)
  case (2 P d ix k ks s0 s1 d0 d1 s)
  define old where "old = (case ck_port_type k of PCL_PORT_SRC \<Rightarrow> (case ck_op k of PCL_GTE \<Rightarrow> s0 | PCL_LTE \<Rightarrow> s1)
      | PCL_PORT_DST \<Rightarrow> (case ck_op k of PCL_GTE \<Rightarrow> d0 | PCL_LTE \<Rightarrow> d1))"
  from acl_sim_add_cmp [OF "2.prems", of P k ix old] obtain st n t g where
    a: "pcl_add_port_cmp_ix P d k ix old s = ((st, n), t)" and b: "pcl_add_port_cmp_ix P d k ix old f = ((st, n), g)"
    and sim: "acl_sim E t g" by (metis prod.collapse)
  show ?case
  proof (cases st)
    case ST_OK
    from "2.IH" [OF old_def a [symmetric] refl ST_OK sim "2.prems"(2)] show ?thesis
      using a b ST_OK by (simp add: old_def [symmetric] Let_def)
  qed (use a b sim in \<open>simp_all add: old_def [symmetric] Let_def\<close>)
qed simp


lemma acl_sim_rule_step:
  assumes sim: "acl_sim E s f" and d: "d < e_ndevs E" and mode: "\<not> user_acl_fake_mode s" "user_acl_fake_mode f"
    and act: "act_plain action" "act_plain action'" "\<And>ix u. fst (action ix u) \<noteq> None" and dest: "bk_destination key \<noteq> PCL_DEST_OTHER"
  and t_def: "t = rule_step P key cmps action fmts match d s" and g_def: "g = rule_step P key cmps action' fmts match' d f"
  shows "fst t = fst g \<and> acl_sim E (snd t) (snd g) \<and> \<not> user_acl_fake_mode (snd t) \<and> user_acl_fake_mode (snd g)"
proof -
  have change: "acl_change d s (snd t)" "acl_change d f (snd g)"
    unfolding t_def g_def by (rule rule_step_rules(1) [OF act(1)], rule rule_step_rules(1) [OF act(2)])
  then have flags: "\<not> user_acl_fake_mode (snd t)" "user_acl_fake_mode (snd g)" using mode by (simp_all add: acl_change_def)
  from acl_sim_add_rule [OF sim d, of key] obtain st ix t1 g1 where
    a: "pcl_add_rule_ix d key s = ((st, ix), t1)" "pcl_add_rule_ix d key f = ((st, ix), g1)" and sim1: "acl_sim E t1 g1"
    by (metis prod.collapse)
  have m1: "\<not> user_acl_fake_mode t1" "user_acl_fake_mode g1"
    using add_rule_change [of d s key] add_rule_change [of d f key] a mode by (simp_all add: acl_change_def)
  show ?thesis
  proof (cases "st = ST_OK")
    case st: True
    from acl_sim_add_cmps [OF sim1 d, of P ix cmps "((0, 0), (0, 0))"] obtain st' c t2 g2 where
      b: "add_cmps P d ix cmps ((0, 0), (0, 0)) t1 = ((st', c), t2)" "add_cmps P d ix cmps ((0, 0), (0, 0)) g1 = ((st', c), g2)"
      and sim2: "acl_sim E t2 g2" by (metis prod.collapse)
    have m2: "\<not> user_acl_fake_mode t2" "user_acl_fake_mode g2"
      using rules_same_add_cmps [of t1 P d ix cmps "((0, 0), (0, 0))"] rules_same_add_cmps [of g1 P d ix cmps "((0, 0), (0, 0))"] b m1
      by (simp_all add: rules_same_def)
    show ?thesis
    proof (cases "st' = ST_OK")
      case True
      obtain y t3 where x: "action ix t2 = (Some y, t3)" using act(3) [of ix t2] by (metis not_None_eq prod.collapse)
      have sim3: "acl_sim E t3 g2" using act(1) x acl_sim_quiet(3) [OF sim2] sim2 unfolding act_plain_def by (metis snd_conv)
      have t: "t = rule_write d (bk_destination key) ix fmts (match c) y t3" and g: "g = (ST_OK, g2)"
        using a b x st True m2 by (simp_all add: t_def g_def rule_step_def)
      obtain fmt where w: "t = (ST_OK, rule_set d fmt ix (match c) y t3)"
        using dest by (cases "bk_destination key") (auto simp: t rule_write_def)
      have cur: "curr_acl (snd t) = curr_acl t3" by (simp add: w rule_set_def acl_simps)
      have "acl_sim E (snd t) (snd g)"
        by (rule acl_sim_change [OF sim d change]) (use sim3 d in \<open>auto simp: cur g acl_sim_def\<close>)
      with w g flags show ?thesis by simp
    qed (use a b st sim2 flags in \<open>simp_all add: t_def g_def rule_step_def split: status.split\<close>)
  qed (use a sim1 flags in \<open>simp_all add: t_def g_def rule_step_def split: status.split\<close>)
qed

lemma acl_sim_rule_loop:
  assumes "acl_sim E s f" "set devs \<subseteq> {..<e_ndevs E}" "\<not> user_acl_fake_mode s" "user_acl_fake_mode f"
    and "act_plain action" "act_plain action'" "\<And>ix u. fst (action ix u) \<noteq> None" "bk_destination key \<noteq> PCL_DEST_OTHER"
  and t_def: "t = rule_loop (rule_step P key cmps action fmts match) devs s"
  and g_def: "g = rule_loop (rule_step P key cmps action' fmts match') devs f"
  shows "fst t = fst g \<and> acl_sim E (snd t) (snd g) \<and> \<not> user_acl_fake_mode (snd t) \<and> user_acl_fake_mode (snd g)"
  unfolding t_def g_def using assms(1-4)
proof (induction devs arbitrary: s f)
  case (Cons d devs)
  from acl_sim_rule_step [OF Cons.prems(1) _ Cons.prems(3,4) assms(5-8) refl refl, of d P cmps fmts match match'] Cons.prems(2)
  obtain st t g where "rule_step P key cmps action fmts match d s = (st, t)" "rule_step P key cmps action' fmts match' d f = (st, g)"
    "acl_sim E t g" "\<not> user_acl_fake_mode t" "user_acl_fake_mode g"
    by (metis insert_subset lessThan_iff list.simps(15) prod.collapse)
  with Cons show ?case by (cases st) simp_all
qed simp

lemma acl_sim_release:
  assumes sim: "acl_sim E s f" and d: "d < e_ndevs E"
  shows "acl_sim E (release_cmp d ix key s) (release_cmp d ix key f)"
proof -
  note dev = acl_sim_dev [OF sim d]
  from cmp_sim_find [OF dev(6), of key] show ?thesis
  proof (cases rule: option.rel_cases)
    case None
    then show ?thesis using sim by (simp add: release_cmp_def)
  next
    case (Some p q)
    then have m: "mset (pc_rule_idxs p) = mset (pc_rule_idxs q)" "pc_cmp_ix p = pc_cmp_ix q" by (simp_all add: cmp_sim_def)
    have "set (pc_rule_idxs p) = set (pc_rule_idxs q)" using m(1) by (metis set_mset_mset)
    moreover have "remove1 ix (pc_rule_idxs p) = [] \<longleftrightarrow> remove1 ix (pc_rule_idxs q) = []"
      using m(1) by (metis mset_remove1 mset_zero_iff)
    moreover have "list_all2 cmp_sim (hash_mod pc_key key (\<lambda>pc. pc\<lparr>pc_rule_idxs := remove1 ix (pc_rule_idxs pc)\<rparr>) (port_cmps (curr_acl s) d))
        (hash_mod pc_key key (\<lambda>pc. pc\<lparr>pc_rule_idxs := remove1 ix (pc_rule_idxs pc)\<rparr>) (port_cmps (curr_acl f) d))"
      by (rule cmp_sim_mod [OF dev(6)]) (simp add: cmp_sim_def)
    ultimately show ?thesis
      using Some sim m(2) dev cmp_sim_del [OF dev(6), of key] by (auto simp: release_cmp_def Let_def intro: acl_sim_cmps)
  qed
qed

lemma acl_sim_release_all:
  "acl_sim E s f \<Longrightarrow> d < e_ndevs E \<Longrightarrow> acl_sim E (fold (release_cmp d ix) keys s) (fold (release_cmp d ix) keys f)"
  by (induction keys arbitrary: s f) (auto intro: acl_sim_release)

lemma acl_sim_remove:
  assumes sim: "acl_sim E s f" and d: "d < e_ndevs E"
  shows "acl_sim E (remove_rule block d key s) (remove_rule block d key f)"
proof (cases "hash_find rb_key (bindings (curr_acl s) d) key")
  case None
  with acl_sim_dev [OF sim d] sim show ?thesis by (simp add: remove_rule_def)
next
  case (Some e)
  note dev = acl_sim_dev [OF sim d]
  have Some': "hash_find rb_key (bindings (curr_acl f) d) key = Some e" using Some dev by simp
  note rs = remove_rule_rules(4) [OF dev(1) Some, of block]
  note rf = remove_rule_rules(4) [OF dev(2) Some', of block]
  have rel: "acl_sim E (fold (release_cmp d (rb_ix e)) (map pc_key (port_cmps (curr_acl s) d)) s)
      (fold (release_cmp d (rb_ix e)) (map pc_key (port_cmps (curr_acl f) d)) f)"
    unfolding cmp_sim_keys [OF dev(6)] by (rule acl_sim_release_all [OF sim d])
  show ?thesis
  proof (rule acl_sim_change [OF sim d remove_rule_rules(1) [OF dev(1)] remove_rule_rules(1) [OF dev(2)]])
    show "book (curr_acl (remove_rule block d key f)) d = book (curr_acl (remove_rule block d key s)) d"
      using rs rf dev by simp
    show "bindings (curr_acl (remove_rule block d key f)) d = bindings (curr_acl (remove_rule block d key s)) d"
      by (simp add: remove_rule_rules(3) [OF dev(1)] remove_rule_rules(3) [OF dev(2)] dev Some)
  qed (use rs rf rel in \<open>simp add: acl_sim_def\<close>)
qed

lemma acl_sim_reset_dev: "acl_sim E s f \<Longrightarrow> d < e_ndevs E \<Longrightarrow> acl_sim E (reset_dev i dest ty block d s) (reset_dev i dest ty block d f)"
proof -
  have "acl_sim E s f \<Longrightarrow> d < e_ndevs E \<Longrightarrow> acl_sim E (fold (remove_rule block d) keys s) (fold (remove_rule block d) keys f)" for keys s f
    by (induction keys arbitrary: s f) (auto intro: acl_sim_remove)
  then show "acl_sim E s f \<Longrightarrow> d < e_ndevs E \<Longrightarrow> ?thesis"
    by (simp add: reset_dev_def acl_sim_dev(4))
qed

lemma acl_sim_reset_devs:
  "acl_sim E s f \<Longrightarrow> set ds \<subseteq> {..<e_ndevs E} \<Longrightarrow> acl_sim E (fold (reset_dev i dest ty block) ds s) (fold (reset_dev i dest ty block) ds f)"
  by (induction ds arbitrary: s f) (auto intro: acl_sim_reset_dev)


section \<open>Sequences of requests\<close>

text \<open>An action that \<open>set_pcl_action\<close> accepts.\<close>

definition action_valid :: "pcl_rule_action \<Rightarrow> pcl_action_params \<Rightarrow> pcl_trap_action \<Rightarrow> bool" where
  "action_valid action params trap \<longleftrightarrow>
     (case action of
        RULE_PERMIT \<Rightarrow> True | RULE_DENY \<Rightarrow> True | RULE_DENY_POLICY \<Rightarrow> True
      | RULE_PERMIT_POLICY \<Rightarrow> (case params of AP_POLICY profile policer mark \<Rightarrow> profile = 0 \<or> mark \<noteq> MARK_OTHER | _ \<Rightarrow> False)
      | RULE_PERMIT_PBR \<Rightarrow> (case params of AP_PBR rc \<Rightarrow> True | _ \<Rightarrow> False)
      | RULE_DENY_PBR \<Rightarrow> (case params of AP_PBR rc \<Rightarrow> True | _ \<Rightarrow> False)
      | RULE_OTHER \<Rightarrow> False) \<and> trap \<noteq> TRAP_OTHER"

definition port_request :: "acl_request \<Rightarrow> bool" where
  "port_request rq \<longleftrightarrow>
     (case rq of
        ReqIp name ty num i dest action params r \<Rightarrow>
          pif_type i = PCL_INTERFACE_TYPE_PORT \<and> action_valid action params (ir_trap_action r)
      | ReqIpv6 name ty num i dest action params r \<Rightarrow>
          pif_type i = PCL_INTERFACE_TYPE_PORT \<and> action_valid action params (ir_trap_action r)
      | ReqMac name ty num i dest action params r \<Rightarrow>
          pif_type i = PCL_INTERFACE_TYPE_PORT \<and> action_valid action params (mr_trap_action r)
      | ReqDefault i dest dflt \<Rightarrow> pif_type i = PCL_INTERFACE_TYPE_PORT \<and> dflt \<noteq> DEFAULT_OTHER
      | ReqReset i dest ty \<Rightarrow> pif_type i = PCL_INTERFACE_TYPE_PORT
      | _ \<Rightarrow> False)"

text \<open>What a request answers; \<open>pcl_reset_rules\<close> returns nothing.\<close>

definition acl_status :: "env \<Rightarrow> pcl_env \<Rightarrow> acl_request \<Rightarrow> 'a acl_st_scheme \<Rightarrow> status" where
  "acl_status E P rq s =
     (case rq of
        ReqIp name ty num i dest action params r \<Rightarrow> fst (pcl_ip_rule_set E P name ty num i dest action params r s)
      | ReqIpv6 name ty num i dest action params r \<Rightarrow> fst (pcl_ipv6_rule_set E P name ty num i dest action params r s)
      | ReqMac name ty num i dest action params r \<Rightarrow> fst (pcl_mac_rule_set E P name ty num i dest action params r s)
      | ReqDefault i dest dflt \<Rightarrow> fst (pcl_default_rule_set E P i dest dflt s)
      | ReqGetCounter i dest name num \<Rightarrow> fst (fst (pcl_get_counter E P i dest name num s))
      | ReqClearCounter i dest name num \<Rightarrow> fst (pcl_clear_counter E i dest name num s)
      | _ \<Rightarrow> ST_OK)"

fun acl_answers :: "env \<Rightarrow> pcl_env \<Rightarrow> acl_request list \<Rightarrow> 'a acl_st_scheme \<Rightarrow> status list" where
  "acl_answers E P [] s = []"
| "acl_answers E P (rq # rqs) s = acl_status E P rq s # acl_answers E P rqs (acl_handle E P rq s)"

lemma action_valid_some: "action_valid action params trap \<Longrightarrow> fst (set_pcl_action ix dest action params trap u) \<noteq> None"
  by (auto simp: action_valid_def set_pcl_action_def Let_def
      split: pcl_rule_action.splits pcl_action_params.splits pcl_trap_action.splits)

lemma default_action_some: "dflt \<noteq> DEFAULT_OTHER \<Longrightarrow> fst (default_action dest dflt ix u) \<noteq> None"
  by (cases dflt) (simp_all add: default_action_def action_valid_some [unfolded action_valid_def])

definition trial_run_of :: "env \<Rightarrow> 'a acl_st_scheme \<Rightarrow> 'a acl_st_scheme \<Rightarrow> bool" where
  "trial_run_of E s f \<longleftrightarrow> acl_sim E s f \<and> \<not> user_acl_fake_mode s \<and> user_acl_fake_mode f"

lemma rule_devs_sim:
  assumes "pif_type i = PCL_INTERFACE_TYPE_PORT" "ports f = ports s" "stack_id f = stack_id s"
  shows "\<exists>st a b devs. rule_devs E i dest s = ((st, a, devs), s) \<and> rule_devs E i dest f = ((st, b, devs), f) \<and>
    (st = ST_OK \<longrightarrow> dest \<noteq> PCL_DEST_OTHER \<and> (\<exists>p \<in> set (ports s). devs = [pt_ldev p]))"
proof -
  have same: "get_port_ptr n f = get_port_ptr n s" for n
    by (simp add: get_port_ptr_def port_ptr_def port_valid_def is_stack_port_def stack_active_def assms(2,3))
  have "get_port_ptr (pif_num i) s = (ST_OK, Some p) \<Longrightarrow> p \<in> set (ports s)" for p
    by (auto simp: get_port_ptr_def port_ptr_def port_valid_def split: if_splits option.splits)
  with assms(1) same show ?thesis
    by (auto simp: rule_devs_def split: pcl_dest.split status.split option.split prod.split)
qed

lemma trial_request:
  assumes run: "trial_run_of E s f" and i: "pif_type i = PCL_INTERFACE_TYPE_PORT"
    and act: "act_plain action" "act_plain action'" "\<And>ix u. fst (action ix u) \<noteq> None" and t_def: "t = dev_loop E i dest (\<lambda>pcl_id. rule_step P key cmps action fmts (match pcl_id)) s"
  and g_def: "g = dev_loop E i dest (\<lambda>pcl_id. rule_step P key cmps action' fmts (match pcl_id)) f"
  and key: "bk_destination key = dest"
  shows "fst t = fst g \<and> trial_run_of E (snd t) (snd g)"
proof -
  note r = run [unfolded trial_run_of_def]
  from r have "ports f = ports s" "stack_id f = stack_id s" by (simp_all add: acl_sim_def)
  from rule_devs_sim [OF i this, of E dest] obtain st a b devs where
    d: "rule_devs E i dest s = ((st, a, devs), s)" "rule_devs E i dest f = ((st, b, devs), f)"
    and ok: "st = ST_OK \<longrightarrow> dest \<noteq> PCL_DEST_OTHER \<and> (\<exists>p \<in> set (ports s). devs = [pt_ldev p])" by blast
  show ?thesis
  proof (cases "st = ST_OK")
    case True
    with ok r have devs: "set devs \<subseteq> {..<e_ndevs E}" and dest: "bk_destination key \<noteq> PCL_DEST_OTHER"
      using key by (auto simp: acl_sim_def acl_book_inv_def)
    have t: "t = rule_loop (rule_step P key cmps action fmts (match a)) devs s"
      and g: "g = rule_loop (rule_step P key cmps action' fmts (match b)) devs f"
      using d True by (simp_all add: t_def g_def dev_loop_def)
    from acl_sim_rule_loop [OF _ devs _ _ act(1) act(2) act(3) dest t g] r show ?thesis by (simp add: trial_run_of_def)
  qed (use d run in \<open>simp_all add: t_def g_def dev_loop_def split: status.split\<close>)
qed

lemma trial_step:
  assumes run: "trial_run_of E s f" and rq: "port_request rq"
  shows "acl_status E P rq f = acl_status E P rq s \<and> trial_run_of E (acl_handle E P rq s) (acl_handle E P rq f)"
proof (cases rq)
  case (ReqIp name ty num i dest action params r)
  with rq have i: "pif_type i = PCL_INTERFACE_TYPE_PORT" and v: "action_valid action params (ir_trap_action r)" by (simp_all add: port_request_def)
  let ?t = "pcl_ip_rule_set E P name ty num i dest action params r s" and ?g = "pcl_ip_rule_set E P name ty num i dest action params r f"
  have "fst ?t = fst ?g \<and> trial_run_of E (snd ?t) (snd ?g)"
  proof (cases "NAME_SZ < length name")
    case False
    show ?thesis
      by (rule trial_request [OF run i set_pcl_action_plain set_pcl_action_plain action_valid_some [OF v]],
          (simp only: rule_set_loops False if_False; rule refl)+, simp add: bind_key_def)
  qed (use run in \<open>simp_all add: rule_set_loops\<close>)
  with ReqIp show ?thesis by (simp add: acl_status_def acl_handle_def)
next
  case (ReqIpv6 name ty num i dest action params r)
  with rq have i: "pif_type i = PCL_INTERFACE_TYPE_PORT" and v: "action_valid action params (ir_trap_action r)" by (simp_all add: port_request_def)
  let ?t = "pcl_ipv6_rule_set E P name ty num i dest action params r s" and ?g = "pcl_ipv6_rule_set E P name ty num i dest action params r f"
  have "fst ?t = fst ?g \<and> trial_run_of E (snd ?t) (snd ?g)"
  proof (cases "NAME_SZ < length name")
    case False
    show ?thesis
      by (rule trial_request [OF run i set_pcl_action_plain set_pcl_action_plain action_valid_some [OF v]],
          (simp only: rule_set_loops False if_False; rule refl)+, simp add: bind_key_def)
  qed (use run in \<open>simp_all add: rule_set_loops\<close>)
  with ReqIpv6 show ?thesis by (simp add: acl_status_def acl_handle_def)
next
  case (ReqMac name ty num i dest action params r)
  with rq have i: "pif_type i = PCL_INTERFACE_TYPE_PORT" and v: "action_valid action params (mr_trap_action r)" by (simp_all add: port_request_def)
  let ?t = "pcl_mac_rule_set E P name ty num i dest action params r s" and ?g = "pcl_mac_rule_set E P name ty num i dest action params r f"
  have "fst ?t = fst ?g \<and> trial_run_of E (snd ?t) (snd ?g)"
  proof (cases "NAME_SZ < length name")
    case False
    show ?thesis
      by (rule trial_request [OF run i set_pcl_action_plain set_pcl_action_plain action_valid_some [OF v]],
          (simp only: rule_set_loops False if_False; rule refl)+, simp add: bind_key_def)
  qed (use run in \<open>simp_all add: rule_set_loops\<close>)
  with ReqMac show ?thesis by (simp add: acl_status_def acl_handle_def)
next
  case (ReqDefault i dest dflt)
  with rq have i: "pif_type i = PCL_INTERFACE_TYPE_PORT" and v: "dflt \<noteq> DEFAULT_OTHER" by (simp_all add: port_request_def)
  let ?t = "pcl_default_rule_set E P i dest dflt s" and ?g = "pcl_default_rule_set E P i dest dflt f"
  have "fst ?t = fst ?g \<and> trial_run_of E (snd ?t) (snd ?g)"
  proof (cases "False")
    case False
    show ?thesis
      by (rule trial_request [OF run i default_action_plain default_action_plain default_action_some [OF v]],
          (simp only: rule_set_loops False if_False; rule refl)+, simp add: bind_key_def)
  qed (use run in \<open>simp_all add: rule_set_loops\<close>)
  with ReqDefault show ?thesis by (simp add: acl_status_def acl_handle_def)
next
  case (ReqReset i dest ty)
  with rq have i: "pif_type i = PCL_INTERFACE_TYPE_PORT" by (simp add: port_request_def)
  have "acl_sim E s f" using run by (simp add: trial_run_of_def)
  from acl_sim_reset_devs [OF this, of "[0 ..< e_ndevs E]" i dest ty 0]
  have "acl_sim E (pcl_reset_rules E i dest ty s) (pcl_reset_rules E i dest ty f)"
    by (simp add: pcl_reset_rules_def i atLeast0LessThan)
  moreover have "user_acl_fake_mode (pcl_reset_rules E i dest ty u) = user_acl_fake_mode u" if "acl_book_inv E u" for u :: "'a acl_st_scheme"
    using acl_trial.reset_kept [of E "user_acl_fake_mode u" u u i dest ty] that by (simp add: trial_of_def)
  ultimately show ?thesis using ReqReset run by (simp add: acl_status_def acl_handle_def trial_run_of_def acl_sim_def)
qed (use rq in \<open>simp_all add: port_request_def\<close>)


lemma trial_run:
  assumes "trial_run_of E s f" "\<forall>rq \<in> set rqs. port_request rq"
  shows "acl_answers E P rqs f = acl_answers E P rqs s"
  using assms
proof (induction rqs arbitrary: s f)
  case (Cons rq rqs)
  from trial_step [OF Cons.prems(1), of rq P] Cons show ?case by simp
qed simp

lemma trial_start: "acl_book_inv E s \<Longrightarrow> \<not> user_acl_fake_mode s \<Longrightarrow> trial_run_of E s (pcl_set_fake_mode_enabled E True s)"
proof -
  assume inv: "acl_book_inv E s" and real: "\<not> user_acl_fake_mode s"
  have "list_all2 cmp_sim ps (map copy_cmp ps)" for ps
    by (induction ps) (simp_all add: cmp_sim_def copy_cmp_def)
  then show ?thesis
    using acl_book.trial_kept [OF inv, of True] inv real
    by (simp add: trial_run_of_def acl_sim_def pcl_set_fake_mode_enabled_def fake_copy_def curr_acl_def)
qed

end
