(* ===== verification/Pcl_Layout.thy ===== *)
theory Pcl_Layout
  imports Pcl_Trap
begin

text \<open>
  What \<open>initialize_vars\<close> lays out: the parts of the rule table of a device, in order, are exactly the
  indexes from 0 to the end of the access lists, so no index has two uses.
\<close>

section \<open>The parts of a device\<close>

definition use_region :: "'a pcl_st_scheme \<Rightarrow> nat \<Rightarrow> rule_use \<times> nat \<Rightarrow> nat list" where
  "use_region s pid use = [rule_ix s (fst use) pid ..< rule_ix s (fst use) pid + snd use]"

definition ports_on :: "nat \<Rightarrow> 'a vif_st_scheme \<Rightarrow> nat list" where
  "ports_on d s = filter (\<lambda>pid. pt_ldev (port_at pid s) = d) (port_ids s)"

definition port_region :: "(rule_use \<times> nat) list \<Rightarrow> nat \<Rightarrow> 'a pcl_st_scheme \<Rightarrow> nat list" where
  "port_region uses d s = concat (map (\<lambda>pid. concat (map (use_region s pid) uses)) (ports_on d s))"

definition stackmail_region :: "nat \<Rightarrow> 'a pcl_st_scheme \<Rightarrow> nat list" where
  "stackmail_region d s =
     (if stack_active s then
        (case stack_pri_port s of Some p \<Rightarrow> if pt_ldev (ports s ! p) = d then [stackmail_pri_ix s] else [] | None \<Rightarrow> []) @
        (case stack_sec_port s of Some p \<Rightarrow> if pt_ldev (ports s ! p) = d then [stackmail_sec_ix s] else [] | None \<Rightarrow> [])
      else [])"

definition rule_layout :: "nat \<Rightarrow> 'a pcl_st_scheme \<Rightarrow> nat list" where
  "rule_layout d s =
     stackmail_region d s @ port_region port_uses d s @ [vt_stack_first_entry s d ..< vt_stack_max s d] @
     port_region vt_def_uses d s @ [user_acl_start_ix s d ..< user_acl_max s d]"

section \<open>What the loops assign\<close>

lemma upt_join: "i \<le> j \<Longrightarrow> j \<le> k \<Longrightarrow> [i ..< j] @ [j ..< k] = [i ..< k]"
  using upt_add_eq_append [of i j "k - j"] by simp

lemma assign_uses:
  assumes "distinct (map fst uses)" "fold (assign_use pid) uses (idx, s) = (idx', t)"
  shows "(\<exists>r. t = s\<lparr>rule_ix := r\<rparr> \<and> (\<forall>u p. p \<noteq> pid \<or> u \<notin> fst ` set uses \<longrightarrow> r u p = rule_ix s u p)) \<and>
    idx (pt_ldev (port_at pid s)) \<le> idx' (pt_ldev (port_at pid s)) \<and>
    (\<forall>d. d \<noteq> pt_ldev (port_at pid s) \<longrightarrow> idx' d = idx d) \<and>
    concat (map (use_region t pid) uses) = [idx (pt_ldev (port_at pid s)) ..< idx' (pt_ldev (port_at pid s))]"
  using assms
proof (induction uses arbitrary: idx s)
  case Nil
  then have "t = s" "idx' = idx" by simp_all
  then show ?case by (intro conjI exI [of _ "rule_ix s"]) simp_all
next
  case (Cons use uses)
  obtain u n where use: "use = (u, n)" by fastforce
  let ?d = "pt_ldev (port_at pid s)"
  let ?s = "s\<lparr>rule_ix := (rule_ix s)(u := (rule_ix s u)(pid := idx ?d))\<rparr>"
  have step: "assign_use pid use (idx, s) = (idx(?d := idx ?d + n), ?s)"
    by (simp add: use assign_use_def Let_def)
  have dev: "pt_ldev (port_at pid ?s) = ?d" by (simp add: port_at_def)
  from Cons.prems step have "fold (assign_use pid) uses (idx(?d := idx ?d + n), ?s) = (idx', t)" by simp
  from Cons.IH [OF _ this, unfolded dev] Cons.prems(1) obtain r where
    t: "t = ?s\<lparr>rule_ix := r\<rparr>" and r: "\<And>v p. p \<noteq> pid \<or> v \<notin> fst ` set uses \<Longrightarrow> r v p = rule_ix ?s v p"
    and le: "idx ?d + n \<le> idx' ?d" and other: "\<And>d. d \<noteq> ?d \<Longrightarrow> idx' d = idx d"
    and reg: "concat (map (use_region t pid) uses) = [idx ?d + n ..< idx' ?d]"
    by auto
  have "use_region t pid use = [idx ?d ..< idx ?d + n]"
    using Cons.prems(1) by (simp add: use_region_def use t r)
  with le reg have "concat (map (use_region t pid) (use # uses)) = [idx ?d ..< idx' ?d]"
    using upt_join [of "idx ?d" "idx ?d + n" "idx' ?d"] by simp
  moreover have "t = s\<lparr>rule_ix := r\<rparr>" by (simp add: t)
  moreover have "r v p = rule_ix s v p" if "p \<noteq> pid \<or> v \<notin> fst ` set (use # uses)" for v p
    using r [of p v] that by (auto simp: use)
  ultimately show ?case using le other by (intro conjI exI [of _ r]) auto
qed

lemma assign_ports_list:
  assumes "distinct (map fst uses)" "distinct pids" "fold (\<lambda>pid l. fold (assign_use pid) uses l) pids (idx, s) = (idx', t)"
  shows "(\<exists>r. t = s\<lparr>rule_ix := r\<rparr> \<and> (\<forall>u p. p \<notin> set pids \<or> u \<notin> fst ` set uses \<longrightarrow> r u p = rule_ix s u p)) \<and>
    (\<forall>d. idx d \<le> idx' d \<and>
       concat (map (\<lambda>pid. concat (map (use_region t pid) uses)) (filter (\<lambda>pid. pt_ldev (port_at pid s) = d) pids)) =
         [idx d ..< idx' d])"
  using assms(2,3)
proof (induction pids arbitrary: idx s)
  case Nil
  then have "t = s" "idx' = idx" by simp_all
  then show ?case by (intro conjI exI [of _ "rule_ix s"]) simp_all
next
  case (Cons pid pids)
  obtain idx1 s1 where one: "fold (assign_use pid) uses (idx, s) = (idx1, s1)" by fastforce
  let ?d = "pt_ldev (port_at pid s)"
  from assign_uses [OF assms(1) one] obtain r1 where
    s1: "s1 = s\<lparr>rule_ix := r1\<rparr>" and r1: "\<And>u p. p \<noteq> pid \<or> u \<notin> fst ` set uses \<Longrightarrow> r1 u p = rule_ix s u p"
    and le1: "idx ?d \<le> idx1 ?d" and other1: "\<And>d. d \<noteq> ?d \<Longrightarrow> idx1 d = idx d"
    and reg1: "concat (map (use_region s1 pid) uses) = [idx ?d ..< idx1 ?d]"
    by blast
  from Cons.prems one have "fold (\<lambda>pid l. fold (assign_use pid) uses l) pids (idx1, s1) = (idx', t)" by simp
  from Cons.IH [OF _ this] Cons.prems(1) obtain r where
    t: "t = s1\<lparr>rule_ix := r\<rparr>" and r: "\<And>u p. p \<notin> set pids \<or> u \<notin> fst ` set uses \<Longrightarrow> r u p = rule_ix s1 u p"
    and rest: "\<And>d. idx1 d \<le> idx' d \<and>
       concat (map (\<lambda>pid. concat (map (use_region t pid) uses)) (filter (\<lambda>pid. pt_ldev (port_at pid s1) = d) pids)) =
         [idx1 d ..< idx' d]"
    by auto
  have "use_region t pid use = use_region s1 pid use" if "use \<in> set uses" for use
    using Cons.prems(1) that by (simp add: use_region_def t r)
  then have "concat (map (use_region t pid) uses) = [idx ?d ..< idx1 ?d]"
    using reg1 by (metis (no_types, lifting) map_eq_conv)
  moreover have "port_at p s1 = port_at p s" for p by (simp add: s1 port_at_def)
  ultimately have "idx d \<le> idx' d \<and>
       concat (map (\<lambda>pid. concat (map (use_region t pid) uses)) (filter (\<lambda>pid. pt_ldev (port_at pid s) = d) (pid # pids))) =
         [idx d ..< idx' d]" for d
    using rest [of d] le1 other1 [of d] upt_join [of "idx d" "idx1 d" "idx' d"]
    by (cases "d = ?d") (auto intro: le_trans)
  moreover have "t = s\<lparr>rule_ix := r\<rparr>" by (simp add: t s1)
  moreover have "r u p = rule_ix s u p" if "p \<notin> set (pid # pids) \<or> u \<notin> fst ` set uses" for u p
    using r [of p u] r1 [of p u] that by (auto simp: s1)
  ultimately show ?case by blast
qed

section \<open>The whole table\<close>

text \<open>Where the two stack ports are is known when the unit is in a stack.\<close>

definition stack_ports_known :: "'a pcl_st_scheme \<Rightarrow> bool" where
  "stack_ports_known s \<longleftrightarrow> (stack_active s \<longrightarrow> stack_pri_port s \<noteq> None \<and> stack_sec_port s \<noteq> None)"

lemma assign_pcl_ids_state:
  "\<exists>a b k. assign_pcl_ids s = s\<lparr>port_ipcl_id := a, port_epcl_id := b, vlan_pcl_id_first := k\<rparr>"
proof -
  have "\<exists>a b m. fold assign_pcl_id pids (k, s) = (m, s\<lparr>port_ipcl_id := a, port_epcl_id := b\<rparr>)"
    for pids k and s :: "'a pcl_st_scheme"
  proof (induction pids arbitrary: k s)
    case Nil
    then show ?case by (intro exI [of _ "port_ipcl_id s"] exI [of _ "port_epcl_id s"]) simp
  next
    case (Cons pid pids)
    obtain s' a b where s': "assign_pcl_id pid (k, s) = (k + 2, s')" "s' = s\<lparr>port_ipcl_id := a, port_epcl_id := b\<rparr>"
      by (auto simp: assign_pcl_id_def)
    from Cons [of "k + 2" s'] show ?case by (auto simp: s')
  qed
  from this [of "port_ids s" 0 s] show ?thesis by (auto simp: assign_pcl_ids_def) blast
qed

lemma assign_stackmail_region:
  assumes "stack_ports_known s" "assign_stackmail (\<lambda>d. 0, s) = (idx, t)"
  shows "(\<exists>a b. t = s\<lparr>stackmail_pri_ix := a, stackmail_sec_ix := b\<rparr>) \<and> stackmail_region d t = [0 ..< idx d]"
proof (cases "stack_active s")
  case True
  with assms obtain p q where pq: "stack_pri_port s = Some p" "stack_sec_port s = Some q"
    by (auto simp: stack_ports_known_def)
  have t: "t = s\<lparr>stackmail_pri_ix := 0, stackmail_sec_ix := (if pt_ldev (ports s ! q) = pt_ldev (ports s ! p) then 1 else 0)\<rparr>"
    and idx: "idx = (\<lambda>d. (if d = pt_ldev (ports s ! p) then 1 else 0) + (if d = pt_ldev (ports s ! q) then 1 else 0))"
    using assms(2) [symmetric] True pq by (auto simp: assign_stackmail_def Let_def stack_active_def intro!: ext)
  from True have "stack_active t" by (simp add: t stack_active_def)
  moreover have "[0 ..< 2] = [0, Suc 0]" by (simp add: upt_rec)
  ultimately show ?thesis
    using pq by (intro conjI exI, (simp add: t; fail)) (simp add: stackmail_region_def t idx)
next
  case False
  with assms(2) have "t = s\<lparr>stackmail_pri_ix := 0, stackmail_sec_ix := 0\<rparr>" "idx = (\<lambda>d. 0)"
    by (auto simp: assign_stackmail_def)
  with False show ?thesis by (auto simp: stackmail_region_def stack_active_def)
qed

lemma port_region_from:
  assumes "distinct (map fst uses)" "assign_ports uses (idx, s) = (idx', t)"
  shows "(\<exists>r. t = s\<lparr>rule_ix := r\<rparr> \<and> (\<forall>u p. u \<notin> fst ` set uses \<longrightarrow> r u p = rule_ix s u p)) \<and>
    idx d \<le> idx' d \<and> port_region uses d t = [idx d ..< idx' d]"
proof -
  have f: "fold (\<lambda>pid l. fold (assign_use pid) uses l) (port_ids s) (idx, s) = (idx', t)"
    using assms(2) by (simp add: assign_ports_def)
  have "distinct (port_ids s)" unfolding port_ids_def by (rule distinct_upt)
  from assign_ports_list [OF assms(1) this f] obtain r where
    t: "t = s\<lparr>rule_ix := r\<rparr>" and r: "\<forall>u p. u \<notin> fst ` set uses \<longrightarrow> r u p = rule_ix s u p"
    and d: "idx d \<le> idx' d" "concat (map (\<lambda>pid. concat (map (use_region t pid) uses))
        (filter (\<lambda>pid. pt_ldev (port_at pid s) = d) (port_ids s))) = [idx d ..< idx' d]"
    by blast
  have "ports_on d t = filter (\<lambda>pid. pt_ldev (port_at pid s) = d) (port_ids s)"
    by (simp add: t ports_on_def port_ids_def port_at_def)
  with t r d show ?thesis by (auto simp: port_region_def)
qed

lemma port_region_cong:
  assumes "\<And>u p. u \<in> fst ` set uses \<Longrightarrow> rule_ix t u p = rule_ix s u p" "ports t = ports s"
  shows "port_region uses d t = port_region uses d s"
proof -
  have "use_region t pid use = use_region s pid use" if "use \<in> set uses" for pid use
    using assms(1) that by (simp add: use_region_def)
  moreover have "ports_on d t = ports_on d s" by (simp add: ports_on_def port_ids_def port_at_def assms)
  ultimately show ?thesis unfolding port_region_def by (simp cong: map_cong)
qed

lemma initialize_vars_layout:
  assumes "stack_ports_known s" "d < e_ndevs E" "t = initialize_vars E s"
  shows "rule_layout d t = [0 ..< user_acl_max t d] \<and> user_acl_max t d = user_acl_start_ix t d + user_acl_stack_entries"
proof -
  obtain a b k where s1: "assign_pcl_ids s = s\<lparr>port_ipcl_id := a, port_epcl_id := b, vlan_pcl_id_first := k\<rparr>"
    using assign_pcl_ids_state by blast
  define s1 where "s1 = assign_pcl_ids s"
  obtain i2 s2 where two: "assign_stackmail (\<lambda>d. 0, s1) = (i2, s2)" by fastforce
  obtain i3 s3 where three: "assign_ports port_uses (i2, s2) = (i3, s3)" by fastforce
  define i4 where "i4 = (\<lambda>d. if d < e_ndevs E then i3 d + vt_stack_entries else i3 d)"
  define s4 where "s4 = s3\<lparr>vt_stack_first_entry := i3, vt_stack_max := i4\<rparr>"
  obtain i5 s5 where five: "assign_ports vt_def_uses (i4, s4) = (i5, s5)" by fastforce
  define i6 where "i6 = (\<lambda>d. if d < e_ndevs E then i5 d + user_acl_stack_entries else i5 d)"
  have t: "t = s5\<lparr>user_acl_start_ix := i5, user_acl_max := i6\<rparr>"
    using two three five
    by (simp add: assms(3) initialize_vars_def Let_def assign_range_def s1_def i4_def s4_def i6_def)
  have known: "stack_ports_known s1" using assms(1) by (simp add: s1_def s1 stack_ports_known_def stack_active_def)
  from assign_stackmail_region [OF known two, of d] obtain a' b' where
    s2: "s2 = s1\<lparr>stackmail_pri_ix := a', stackmail_sec_ix := b'\<rparr>" and r2: "stackmail_region d s2 = [0 ..< i2 d]"
    by blast
  from port_region_from [OF _ three, of d] obtain r where
    s3: "s3 = s2\<lparr>rule_ix := r\<rparr>" and r3: "i2 d \<le> i3 d" "port_region port_uses d s3 = [i2 d ..< i3 d]"
    by (auto simp: port_uses_def)
  from port_region_from [OF _ five, of d] obtain r' where
    s5: "s5 = s4\<lparr>rule_ix := r'\<rparr>" and keep: "\<And>u p. u \<notin> fst ` set vt_def_uses \<Longrightarrow> r' u p = rule_ix s4 u p"
    and r5: "i4 d \<le> i5 d" "port_region vt_def_uses d s5 = [i4 d ..< i5 d]"
    by (auto simp: vt_def_uses_def)
  have "port_region port_uses d t = port_region port_uses d s3"
    by (rule port_region_cong) (auto simp: t s5 s4_def keep port_uses_def vt_def_uses_def)
  moreover have "port_region vt_def_uses d t = port_region vt_def_uses d s5"
    by (rule port_region_cong) (simp_all add: t)
  moreover have "stackmail_region d t = stackmail_region d s2"
    by (simp add: stackmail_region_def t s5 s4_def s3 stack_active_def split: option.split)
  ultimately show ?thesis
    using assms(2) r2 r3 r5 by (simp add: rule_layout_def t s5 s4_def upt_join i4_def i6_def)
qed

text \<open>Two uses of one device, or one use of two ports, have different indexes.\<close>

lemma layout_distinct:
  assumes "stack_ports_known s" "d < e_ndevs E" "t = initialize_vars E s"
  shows "distinct (rule_layout d t)"
  using initialize_vars_layout [OF assms] by simp

end
