(* ===== verification/Pcl_Props.thy ===== *)
theory Pcl_Props
  imports Pcl_Trial Pcl_Layout
begin

text \<open>
  Properties of the rule table: its layout, the order of the user's rules and what requests do to it,
  the trial mode, the traps for maintenance frames, and a defect of the comparators.
\<close>

section \<open>A switch with two ports\<close>

definition acl_port :: "nat \<Rightarrow> port" where
  "acl_port lport = \<lparr>pt_ldev = 0, pt_lport = lport, stacking = False, pt_mode = PM_ACCESS, pt_access_vid = 1, pt_native_vid = 1,
     pt_customer_vid = 1, pt_voice_vid = 0, tallow = (\<lambda>_. False), refc = (\<lambda>_. 0)\<rparr>"

definition acl_empty :: user_acl where
  "acl_empty = \<lparr>pcl_ids = [6, 5, 4], vlan_ipcl_id = (\<lambda>_. 0),
     book = (\<lambda>_. \<lparr>ib_start = 100, ib_end = 104, acl_end = 100, qos_end = 100, pbr_end = 100\<rparr>), bindings = (\<lambda>_. []),
     port_cmp_idxs = (\<lambda>_. [7, 6, 5, 4, 3, 2, 1, 0]), port_cmps = (\<lambda>_. [])\<rparr>"

definition acl0 :: acl_st where
  "acl0 = pcl_st.extend (vlan_st.extend (vlan0\<lparr>hw := [], ports := [acl_port 0, acl_port 1], stack_id := 0\<rparr>)
     (pcl_st.fields (\<lambda>pid. 2 * (pid - 1)) (\<lambda>pid. 2 * (pid - 1) + 1) 4
       (\<lambda>u pid. pid + (case u of RU_CFM \<Rightarrow> 0 | RU_CFM2 \<Rightarrow> 2 | RU_CFM6 \<Rightarrow> 4 | _ \<Rightarrow> 6)) 0 0
       (\<lambda>_. 10) (\<lambda>_. 20) (\<lambda>_. 100) (\<lambda>_. 104) None None (\<lambda>_. []) [] (\<lambda>_. False) (\<lambda>_. [])))
     (acl_st.fields acl_empty acl_empty False)"

definition pcl_env0 :: pcl_env where
  "pcl_env0 = \<lparr>p_tcp = 6, p_udp = 17, p_is_tcp_or_udp = (\<lambda>p. p = 6 \<or> p = 17), p_counter = (\<lambda>_ _ _ _. 0)\<rparr>"

definition ip_rule0 :: ip_pcl_rule where
  "ip_rule0 = \<lparr>ir_proto = 17, ir_src_ip = [10, 0, 0, 0], ir_src_ip_mask = [255, 0, 0, 0], ir_dst_ip = [0, 0, 0, 0],
     ir_dst_ip_mask = [0, 0, 0, 0], ir_dscp = 0, ir_dscp_mask = 0, ir_src_ip_port_single = True, ir_src_ip_port = 0,
     ir_src_ip_port_mask = 0, ir_src_ip_port_max = 0, ir_dst_ip_port_single = True, ir_dst_ip_port = 53,
     ir_dst_ip_port_mask = 0xFFFF, ir_dst_ip_port_max = 0, ir_icmp_type = 0, ir_icmp_type_mask = 0, ir_icmp_code = 0,
     ir_icmp_code_mask = 0, ir_igmp_type = 0, ir_igmp_type_mask = 0, ir_tcp_flags = 0, ir_tcp_flags_mask = 0,
     ir_trap_action = TRAP_NONE\<rparr>"

definition acl_if :: "u16 \<Rightarrow> pcl_interface" where
  "acl_if pid = \<lparr>pif_type = PCL_INTERFACE_TYPE_PORT, pif_num = pid\<rparr>"

lemmas acl0_defs = acl0_def acl_empty_def pcl_st.defs vlan_st.defs acl_st.defs

lemma acl0_sel:
  "ports acl0 = [acl_port 0, acl_port 1]" "user_acl acl0 = acl_empty" "user_acl_fake_mode acl0 = False" "hw acl0 = []"
  by (simp_all add: acl0_def pcl_st.defs vlan_st.defs acl_st.defs)

lemma acl0_inv: "acl_book_inv env0 acl0"
proof -
  have "book_ok (book acl_empty d) (bindings acl_empty d)" for d
    by (simp add: book_ok_def acl_empty_def type_region_def split: pcl_action_type.split)
  then show ?thesis by (simp add: acl_book_inv_def acl0_sel acl_port_def env0_def)
qed

section \<open>The order of the rules\<close>

lemma acl_change_rules:
  assumes "acl_change d s t" "\<not> user_acl_fake_mode s" "dev_book_ok s d" "acl_space_empty s d" "d' \<noteq> d"
  shows "acl_rules t d' ty = acl_rules s d' ty"
  using assms by (simp add: acl_change_def acl_rules_def)


lemma initialize_vars_frame: "hw (initialize_vars E s) = hw s \<and> ports (initialize_vars E s) = ports s"
proof -
  have use: "hw (snd (fold (assign_use pid) uses l)) = hw (snd l) \<and> ports (snd (fold (assign_use pid) uses l)) = ports (snd l)"
    for pid uses and l :: "'a layout"
    by (induction uses arbitrary: l) (auto simp: assign_use_def Let_def split: prod.splits)
  have "hw (snd (fold (\<lambda>pid l. fold (assign_use pid) uses l) pids l)) = hw (snd l) \<and>
      ports (snd (fold (\<lambda>pid l. fold (assign_use pid) uses l) pids l)) = ports (snd l)" for uses pids and l :: "'a layout"
    by (induction pids arbitrary: l) (simp_all add: use)
  then have all: "hw (snd (assign_ports uses l)) = hw (snd l) \<and> ports (snd (assign_ports uses l)) = ports (snd l)" for uses and l :: "'a layout"
    by (simp add: assign_ports_def)
  have mail: "hw (snd (assign_stackmail l)) = hw (snd l) \<and> ports (snd (assign_stackmail l)) = ports (snd l)" for l :: "'a layout"
    by (auto simp: assign_stackmail_def Let_def crash_def split: prod.splits option.splits)
  obtain a b k where ids: "assign_pcl_ids s = s\<lparr>port_ipcl_id := a, port_epcl_id := b, vlan_pcl_id_first := k\<rparr>"
    using assign_pcl_ids_state by blast
  have range: "hw (snd (assign_range E n f l)) = hw (snd l) \<and> ports (snd (assign_range E n f l)) = ports (snd l)"
    if "\<And>x y u. hw (f x y u) = hw u \<and> ports (f x y u) = ports u" for n f and l :: "'a layout"
    using that by (simp add: assign_range_def Let_def split: prod.splits)
  show ?thesis
    unfolding initialize_vars_def Let_def by (simp add: range all mail ids)
qed


section \<open>What a request does to the rules\<close>

lemma reset_rules:
  assumes "acl_book_inv E s" "\<not> user_acl_fake_mode s" "d < e_ndevs E"
    and "pif_type i = PCL_INTERFACE_TYPE_PORT \<or> pif_type i = PCL_INTERFACE_TYPE_VLAN \<and> unat (pif_num i) < VLAN_IPCL_IDS"
  shows "acl_rules (pcl_reset_rules E i dest ty s) d ty' = filter (\<lambda>r. \<not> reset_matches i dest ty (fst r)) (acl_rules s d ty')"
proof -
  define real where "real = (\<lambda>u :: 'a acl_st_scheme. trial_of E False s u)"
  have keys: "real u \<Longrightarrow> e < e_ndevs E \<Longrightarrow> real (fold (remove_rule block e) ks u) \<and>
      acl_rules (fold (remove_rule block e) ks u) e ty' = filter (\<lambda>r. fst r \<notin> set ks) (acl_rules u e ty') \<and>
      (\<forall>d'. d' \<noteq> e \<longrightarrow> acl_rules (fold (remove_rule block e) ks u) d' ty' = acl_rules u d' ty')" for block e ks u
  proof (induction ks arbitrary: u)
    case (Cons k ks)
    from Cons.prems(1) have inv: "acl_book_inv E u" "\<not> user_acl_fake_mode u" by (simp_all add: real_def trial_of_def)
    from acl_book_inv_dev [OF inv(1) Cons.prems(2)] inv(2) have dev: "dev_book_ok u e" "acl_space_empty u e" by simp_all
    have "real (remove_rule block e k u)"
      using acl_trial.remove_kept [of E False s u e block k] Cons.prems by (simp add: real_def)
    from Cons.IH [OF this Cons.prems(2)] remove_rule_rules(2) [OF dev(1) inv(2), of block k ty']
      acl_change_rules [OF remove_rule_rules(1) [OF dev(1), of block k] inv(2) dev]
    show ?case by (auto intro: filter_cong)
  qed (simp add: real_def)
  have dev: "real (reset_dev i dest ty block e u) \<and>
      acl_rules (reset_dev i dest ty block e u) e ty' = filter (\<lambda>r. \<not> reset_matches i dest ty (fst r)) (acl_rules u e ty') \<and>
      (\<forall>d'. d' \<noteq> e \<longrightarrow> acl_rules (reset_dev i dest ty block e u) d' ty' = acl_rules u d' ty')"
    if "real u" "e < e_ndevs E" for block e u
  proof -
    have "filter (\<lambda>r. fst r \<notin> set (filter (reset_matches i dest ty) (map rb_key (bindings (curr_acl u) e)))) (acl_rules u e ty') =
        filter (\<lambda>r. \<not> reset_matches i dest ty (fst r)) (acl_rules u e ty')"
      by (rule filter_cong) (auto simp: acl_rules_def)
    with keys [OF that] show ?thesis unfolding reset_dev_def by metis
  qed
  have devs: "real u \<Longrightarrow> distinct ds \<Longrightarrow> set ds \<subseteq> {..<e_ndevs E} \<Longrightarrow>
      acl_rules (fold (reset_dev i dest ty block) ds u) d ty' =
        (if d \<in> set ds then filter (\<lambda>r. \<not> reset_matches i dest ty (fst r)) (acl_rules u d ty') else acl_rules u d ty')" for block ds u
  proof (induction ds arbitrary: u)
    case (Cons e ds)
    with dev [of u e block] show ?case by (cases "d = e") auto
  qed simp
  have start: "real s" using assms(1,2) by (simp add: real_def trial_of_def)
  have pushed: "real (acl_upd (\<lambda>a. a\<lparr>pcl_ids := f a, vlan_ipcl_id := g a\<rparr>) s)" for f g
    using acl_trial.ids_kept [where E = E and m = False and ?s0.0 = s and s = s and f = f and g = g] start by (simp add: real_def)
  have same: "acl_rules (acl_upd (\<lambda>a. a\<lparr>pcl_ids := f a, vlan_ipcl_id := g a\<rparr>) s) d ty' = acl_rules s d ty'" for f g
    by (simp add: acl_rules_def acl_simps)
  from assms(4) show ?thesis
  proof (elim disjE conjE)
    assume "pif_type i = PCL_INTERFACE_TYPE_PORT"
    with devs [OF start distinct_upt, of 0 "e_ndevs E" 0] assms(3) show ?thesis
      by (simp add: pcl_reset_rules_def atLeast0LessThan)
  next
    assume "pif_type i = PCL_INTERFACE_TYPE_VLAN" "unat (pif_num i) < VLAN_IPCL_IDS"
    with devs [OF pushed distinct_upt, of 0 "e_ndevs E"] assms(3) same show ?thesis
      by (simp add: pcl_reset_rules_def atLeast0LessThan Let_def)
  qed
qed










section \<open>Setting and resetting rules\<close>

definition rule_targets :: "env \<Rightarrow> pcl_interface \<Rightarrow> 'a acl_st_scheme \<Rightarrow> nat list" where
  "rule_targets E i s =
     (case pif_type i of
        PCL_INTERFACE_TYPE_VLAN \<Rightarrow> [0 ..< e_ndevs E]
      | PCL_INTERFACE_TYPE_PORT \<Rightarrow> (case port_ptr (pif_num i) s of Some p \<Rightarrow> [pt_ldev p] | None \<Rightarrow> [])
      | PCL_INTERFACE_TYPE_OTHER \<Rightarrow> [])"

lemma rule_loop_appends:
  assumes "acl_book_inv E s" "\<not> user_acl_fake_mode s" "act_plain action" "distinct devs" "set devs \<subseteq> {..<e_ndevs E}"
    and "rule_loop (rule_step P key cmps action fmts match) devs s = (ST_OK, t)" "d < e_ndevs E"
  shows "(d \<notin> set devs \<longrightarrow> (\<forall>ty. acl_rules t d ty = acl_rules s d ty)) \<and>
    (d \<in> set devs \<longrightarrow> (\<exists>c act ix. (\<exists>u. fst (action ix u) = Some act) \<and>
      (\<forall>ty. acl_rules t d ty = acl_rules s d ty @
         (if ty = bk_acttype key then [(key, Some (dest_format (bk_destination key) fmts, match c, act))] else []))))"
  using assms(1,2,4-6)
proof (induction devs arbitrary: s)
  case (Cons e devs)
  from Cons.prems(5) obtain u where u: "rule_step P key cmps action fmts match e s = (ST_OK, u)"
    and rest: "rule_loop (rule_step P key cmps action fmts match) devs u = (ST_OK, t)"
    by (auto split: prod.splits status.splits)
  have e: "e < e_ndevs E" using Cons.prems(4) by simp
  from acl_book_inv_dev [OF Cons.prems(1) e] Cons.prems(2) have dev: "dev_book_ok s e" "acl_space_empty s e" by simp_all
  note step = rule_step_rules [OF assms(3), where d = e and s = s and P = P and key = key and cmps = cmps and fmts = fmts and match = match, unfolded u snd_conv]
  have inv: "acl_book_inv E u" by (rule acl_book_inv_change [OF Cons.prems(1) e step(1)])
  have real: "\<not> user_acl_fake_mode u" using step(1) Cons.prems(2) by (simp add: acl_change_def)
  note IH = Cons.IH [OF inv real _ _ rest]
  show ?case
  proof (cases "d = e")
    case True
    with step(2) [OF refl Cons.prems(2) dev] IH Cons.prems(3,4) show ?thesis by simp
  next
    case False
    have "acl_rules u d ty = acl_rules s d ty" for ty by (rule acl_change_rules [OF step(1) Cons.prems(2) dev False])
    with IH Cons.prems(3,4) False show ?thesis by simp
  qed
qed simp

lemma set_pcl_action_state: "fst (set_pcl_action ix dest action params trap u) = fst (set_pcl_action ix dest action params trap v)"
  by (auto simp: set_pcl_action_def Let_def split: pcl_rule_action.split pcl_action_params.split pcl_trap_action.split)


text \<open>C11. An IP rule that is set successfully comes last of its class on every device it is meant for, with
  the match and the action of the request; no other rule of any device changes or moves in the order.\<close>

theorem pcl_ip_rule_set_appends:
  assumes "acl_book_inv E s" "\<not> user_acl_fake_mode s" "d < e_ndevs E"
    and "pcl_ip_rule_set E P name ty num i dest action params r s = (ST_OK, t)"
  shows "(d \<notin> set (rule_targets E i s) \<longrightarrow> (\<forall>ty'. acl_rules t d ty' = acl_rules s d ty')) \<and>
    (d \<in> set (rule_targets E i s) \<longrightarrow>
      (\<exists>pcl_id c act ix. fst (set_pcl_action ix dest action params (ir_trap_action r) s) = Some act \<and>
        (\<forall>ty'. acl_rules t d ty' = acl_rules s d ty' @
          (if ty' = ty then [(bind_key name ty num i dest,
             Some (dest_format dest NOT_IPV6_FORMATS, set_ip_rule P r pcl_id (override_vid i) c, act))] else []))))"
proof -
  let ?action = "\<lambda>ix. set_pcl_action ix dest action params (ir_trap_action r)"
  from assms(4) obtain pcl_id devs u where d: "rule_devs E i dest s = ((ST_OK, pcl_id, devs), u)"
    and loop: "rule_loop (rule_step P (bind_key name ty num i dest) (range_cmps P dest r) ?action NOT_IPV6_FORMATS
        (set_ip_rule P r pcl_id (override_vid i))) devs u = (ST_OK, t)"
    by (auto simp: rule_set_loops dev_loop_def split: if_splits prod.splits status.splits)
  have same: "rules_same s u"
    using rule_devs_state [of E i dest s] rules_same_vlan_id [of s E "pif_num i"] d by fastforce
  then have real: "\<not> user_acl_fake_mode u" using assms(2) by (simp add: rules_same_def)
  have devs: "devs = rule_targets E i s"
    using rule_devs_cases [OF d] d
    by (auto simp: rule_targets_def rule_devs_def get_port_ptr_def split: pcl_interface_type.splits status.splits option.splits if_splits
        pcl_dest.splits prod.splits)
  have sub: "distinct devs" "set devs \<subseteq> {..<e_ndevs E}"
    using rule_devs_cases [OF d] assms(1) by (auto simp: acl_book_inv_def)
  have key: "bk_destination (bind_key name ty num i dest) = dest" "bk_acttype (bind_key name ty num i dest) = ty"
    by (simp_all add: bind_key_def)
  note app = rule_loop_appends [OF acl_book_inv_same [OF assms(1) same] real set_pcl_action_plain sub loop assms(3), unfolded key]
  show ?thesis
  proof (cases "d \<in> set devs")
    case True
    with app obtain c act ix and v :: "'a acl_st_scheme" where "fst (?action ix v) = Some act"
      "\<forall>ty'. acl_rules t d ty' = acl_rules u d ty' @
         (if ty' = ty then [(bind_key name ty num i dest, Some (dest_format dest NOT_IPV6_FORMATS, set_ip_rule P r pcl_id (override_vid i) c, act))]
          else [])" by blast
    moreover have "fst (?action ix v) = fst (set_pcl_action ix dest action params (ir_trap_action r) s)" for v :: "'a acl_st_scheme"
      by (rule set_pcl_action_state)
    ultimately have "\<exists>pcl_id c act ix. fst (set_pcl_action ix dest action params (ir_trap_action r) s) = Some act \<and>
        (\<forall>ty'. acl_rules t d ty' = acl_rules s d ty' @
          (if ty' = ty then [(bind_key name ty num i dest,
             Some (dest_format dest NOT_IPV6_FORMATS, set_ip_rule P r pcl_id (override_vid i) c, act))] else []))"
      unfolding rules_same_rules [OF same] by metis
    then show ?thesis using True devs by blast
  next
    case False
    with app devs rules_same_rules [OF same] show ?thesis by simp
  qed
qed

lemmas rule_run_defs = rule_set_loops dev_loop_def rule_devs_def acl_if_def get_port_ptr_def port_ptr_def port_valid_def acl0_sel
  acl_port_def bind_key_def NAME_SZ_def range_cmps_def ip_rule0_def pcl_env0_def rule_step_def pcl_add_rule_ix_def
  ix_book_take_cases type_end_def move_up_none book_grown_simps acl_empty_def hash_add_def hash_find_def book_upd_def bindings_upd_def
  acl_upd_def curr_acl_def set_pcl_action_def act_zero_def rule_write_def

theorem pcl_ip_rule_set_appends_witness:
  "\<exists>r. acl_rules (snd (pcl_ip_rule_set env0 pcl_env0 [65] ACTION_TYPE_ACL 1 (acl_if 1) PCL_DEST_INGRESS RULE_DENY AP_NULL ip_rule0 acl0)) 0
     ACTION_TYPE_ACL = [(bind_key [65] ACTION_TYPE_ACL 1 (acl_if 1) PCL_DEST_INGRESS, Some r)]"
proof -
  let ?res = "pcl_ip_rule_set env0 pcl_env0 [65] ACTION_TYPE_ACL 1 (acl_if 1) PCL_DEST_INGRESS RULE_DENY AP_NULL ip_rule0 acl0"
  have stk: "\<not> is_stack_port (acl_port n) s" for n and s :: "acl_st" by (simp add: is_stack_port_def acl_port_def)
  have "fst ?res = ST_OK" by (simp add: rule_run_defs stk [unfolded acl_port_def] Let_def)
  then have ok: "?res = (ST_OK, snd ?res)" by (metis prod.collapse)
  have real: "\<not> user_acl_fake_mode acl0" and d: "0 < e_ndevs env0" by (simp_all add: acl0_sel env0_def)
  have "0 \<in> set (rule_targets env0 (acl_if 1) acl0)"
    by (simp add: rule_targets_def acl_if_def port_ptr_def port_valid_def acl0_sel acl_port_def)
  moreover have "acl_rules acl0 0 ACTION_TYPE_ACL = []" by (simp add: acl_rules_def curr_acl_def acl0_sel acl_empty_def)
  ultimately show ?thesis using pcl_ip_rule_set_appends [OF acl0_inv real d ok] by fastforce
qed

text \<open>C12. Resetting an interface removes exactly its rules of the class and direction; the others keep
  their places in the order.\<close>

theorem pcl_reset_rules_removes:
  assumes "acl_book_inv E s" "\<not> user_acl_fake_mode s" "d < e_ndevs E"
    and "pif_type i = PCL_INTERFACE_TYPE_PORT \<or> pif_type i = PCL_INTERFACE_TYPE_VLAN \<and> unat (pif_num i) < VLAN_IPCL_IDS"
  shows "acl_rules (pcl_reset_rules E i dest ty s) d ty' = filter (\<lambda>r. \<not> reset_matches i dest ty (fst r)) (acl_rules s d ty')"
  by (rule reset_rules [OF assms])

text \<open>C13. Every request keeps the state of the access lists well formed, in use and on trial: the regions of
  the index book hold exactly the indexes of the rules of their class, names are unique, the space
  behind the last rule is empty on the devices, and each of the eight comparators of a device is either
  free or belongs to exactly one port range.\<close>

theorem acl_state_well_formed:
  assumes "acl_book_inv E s" "acl_cmps_inv E s"
  shows "acl_book_inv E (acl_handle E P rq s) \<and> acl_cmps_inv E (acl_handle E P rq s)"
  using acl_book.run_kept [OF assms(1), of P "[rq]"] acl_cmps.run_kept [OF assms(2), of P "[rq]"]
  by (simp add: acl_run_def)

lemma acl0_cmps: "acl_cmps_inv env0 acl0"
proof -
  have "cmps_ok acl_empty d" for d
    by (simp add: cmps_ok_def acl_empty_def PCL_CMP_IDX_COUNT_def) auto
  then show ?thesis by (simp add: acl_cmps_inv_def acl0_sel acl_port_def env0_def)
qed

theorem acl_state_well_formed_witness:
  "acl_book_inv env0 (acl_handle env0 pcl_env0 (ReqTrial True) acl0) \<and> acl_cmps_inv env0 (acl_handle env0 pcl_env0 (ReqTrial True) acl0)"
  by (rule acl_state_well_formed [OF acl0_inv acl0_cmps])

section \<open>Trial mode\<close>

text \<open>C14. Requests in trial mode change no rule of any device and nothing of the real book-keeping.\<close>

theorem trial_leaves_switch:
  assumes "acl_book_inv E s" "user_acl_fake_mode s" "\<forall>en. ReqTrial en \<notin> set rqs"
  shows "pcl_rule_at (hw (acl_run E P rqs s)) = pcl_rule_at (hw s) \<and> user_acl (acl_run E P rqs s) = user_acl s"
  using acl_trial.run_kept_here [of E True s s rqs P] assms by (simp add: trial_of_def)

text \<open>The requests trial mode is about: those that set or reset rules of a port, with an action the
  code knows.\<close>

definition for_port :: "acl_request \<Rightarrow> bool" where
  "for_port rq \<longleftrightarrow>
     (case rq of
        ReqIp name ty num i dest action params r \<Rightarrow> pif_type i = PCL_INTERFACE_TYPE_PORT
      | ReqIpv6 name ty num i dest action params r \<Rightarrow> pif_type i = PCL_INTERFACE_TYPE_PORT
      | ReqMac name ty num i dest action params r \<Rightarrow> pif_type i = PCL_INTERFACE_TYPE_PORT
      | ReqDefault i dest dflt \<Rightarrow> pif_type i = PCL_INTERFACE_TYPE_PORT
      | ReqReset i dest ty \<Rightarrow> pif_type i = PCL_INTERFACE_TYPE_PORT
      | _ \<Rightarrow> False)"

definition known_action :: "acl_request \<Rightarrow> bool" where
  "known_action rq \<longleftrightarrow>
     (case rq of
        ReqIp name ty num i dest action params r \<Rightarrow> action_valid action params (ir_trap_action r)
      | ReqIpv6 name ty num i dest action params r \<Rightarrow> action_valid action params (ir_trap_action r)
      | ReqMac name ty num i dest action params r \<Rightarrow> action_valid action params (mr_trap_action r)
      | ReqDefault i dest dflt \<Rightarrow> dflt \<noteq> DEFAULT_OTHER
      | _ \<Rightarrow> True)"

lemma port_request_known: "for_port rq \<Longrightarrow> known_action rq \<Longrightarrow> port_request rq"
  by (simp add: for_port_def known_action_def port_request_def split: acl_request.splits)

text \<open>C5. What requests that set and reset rules of ports answer in trial mode is what they will answer when they
  are made, if all of them have an action (with its parameters) that the code knows. (The trial does not
  look at the action: without that condition it can answer that all is well where the request itself will
  be refused.)\<close>

theorem trial_predicts:
  assumes "acl_book_inv E s" "\<not> user_acl_fake_mode s" "\<forall>rq \<in> set rqs. for_port rq \<and> known_action rq"
  shows "acl_answers E P rqs (pcl_set_fake_mode_enabled E True s) = acl_answers E P rqs s"
  by (rule trial_run [OF trial_start [OF assms(1,2)]]) (use assms(3) port_request_known in blast)

definition acl_reqs :: "acl_request list" where
  "acl_reqs =
     [ReqIp [65] ACTION_TYPE_ACL 1 (acl_if 1) PCL_DEST_INGRESS RULE_DENY AP_NULL ip_rule0,
      ReqIp [65] ACTION_TYPE_ACL 1 (acl_if 1) PCL_DEST_INGRESS RULE_DENY AP_NULL ip_rule0,
      ReqReset (acl_if 1) PCL_DEST_INGRESS ACTION_TYPE_ACL]"

theorem trial_leaves_switch_witness:
  "user_acl (acl_run env0 pcl_env0 acl_reqs (pcl_set_fake_mode_enabled env0 True acl0)) =
   user_acl (pcl_set_fake_mode_enabled env0 True acl0)"
proof -
  have "acl_book_inv env0 (pcl_set_fake_mode_enabled env0 True acl0)" by (rule acl_book.trial_kept [OF acl0_inv])
  from trial_leaves_switch [OF this, of acl_reqs pcl_env0] show ?thesis
    by (simp add: pcl_set_fake_mode_enabled_def acl_reqs_def)
qed

theorem trial_predicts_witness:
  "acl_answers env0 pcl_env0 acl_reqs (pcl_set_fake_mode_enabled env0 True acl0) = acl_answers env0 pcl_env0 acl_reqs acl0"
  by (rule trial_predicts [OF acl0_inv]) (simp_all add: acl0_sel acl_reqs_def for_port_def known_action_def acl_if_def action_valid_def ip_rule0_def)

text \<open>The identifiers of VLANs from 2048 on are not copied: \<open>memcpy\<close> is given elements for bytes.\<close>

lemma trial_misses_vlans:
  "2047 < v \<Longrightarrow> vlan_ipcl_id (curr_acl (pcl_set_fake_mode_enabled E True s)) v = vlan_ipcl_id (user_acl_fake s) v"
  by (simp add: pcl_set_fake_mode_enabled_def curr_acl_def fake_copy_def copy_4095_bytes_def)

section \<open>Comparators of port ranges\<close>

text \<open>C39. Of two rules with the same port range the later one does not use the comparators of the range:
  whichever they are, its rule compares only comparator 0.\<close>

theorem shared_range_loses_bound:
  assumes "p_is_tcp_or_udp P (ir_proto r)" "\<not> ir_src_ip_port_single r" "ir_dst_ip_port_single r"
    and "range_cmps P dest r = [lo, hi]"
    and "hash_find pc_key (port_cmps (curr_acl s) d) lo = Some p" "hash_find pc_key (port_cmps (curr_acl s) d) hi = Some q"
    and "add_cmps P d ix (range_cmps P dest r) ((0, 0), (0, 0)) s = ((st, c), t)"
  shows "st = ST_OK \<and> pf PF_cmpBitmap 1 1 \<in> set (set_ip_rule P r pcl_id v c)"
proof -
  have keys: "ck_port_type lo = PCL_PORT_SRC" "ck_op lo = PCL_GTE" "ck_port_type hi = PCL_PORT_SRC" "ck_op hi = PCL_LTE"
    using assms(1-4) by (auto simp: range_cmps_def Let_def)
  let ?f = "\<lambda>pc :: port_cmp. pc\<lparr>pc_rule_idxs := ix # pc_rule_idxs pc\<rparr>"
  have "hash_find pc_key (hash_mod pc_key lo ?f (port_cmps (curr_acl s) d)) hi \<noteq> None"
    using hash_find_in [OF assms(6)] by (auto simp: hash_find_None set_map [symmetric] simp del: set_map) (auto simp: image_iff)
  then obtain q' where "hash_find pc_key (hash_mod pc_key lo ?f (port_cmps (curr_acl s) d)) hi = Some q'" by blast
  then have "st = ST_OK \<and> c = ((0, 0), (0, 0))"
    using assms(5,7) by (simp add: assms(4) keys pcl_add_port_cmp_ix_def Let_def cmps_upd_def acl_simps)
  then show ?thesis using assms(1-3) by (simp add: set_ip_rule_def set_l4_def range_bitmap_def)
qed

definition range_key :: "pcl_port_op \<Rightarrow> u16 \<Rightarrow> port_cmp_key" where
  "range_key op n = \<lparr>ck_destination = PCL_DEST_INGRESS, ck_ip_proto = 17, ck_port_type = PCL_PORT_SRC, ck_op = op, ck_port_num = n\<rparr>"

definition range_rule :: ip_pcl_rule where
  "range_rule = ip_rule0\<lparr>ir_src_ip_port_single := False, ir_src_ip_port := 1000, ir_src_ip_port_max := 2000\<rparr>"

definition range_cmps_0 :: "port_cmp list" where
  "range_cmps_0 =
     [\<lparr>pc_key = range_key PCL_GTE 1000, pc_cmp_ix = 4, pc_rule_idxs = [101]\<rparr>, \<lparr>pc_key = range_key PCL_LTE 2000, pc_cmp_ix = 5, pc_rule_idxs = [101]\<rparr>]"

theorem shared_range_loses_bound_witness:
  "pf PF_cmpBitmap 1 1 \<in> set (set_ip_rule pcl_env0 range_rule 0 None
     (snd (fst (add_cmps pcl_env0 0 102 (range_cmps pcl_env0 PCL_DEST_INGRESS range_rule) ((0, 0), (0, 0))
       (acl0\<lparr>user_acl := acl_empty\<lparr>port_cmps := (\<lambda>_. range_cmps_0)\<rparr>\<rparr>)))))"
proof -
  let ?s = "acl0\<lparr>user_acl := acl_empty\<lparr>port_cmps := (\<lambda>_. range_cmps_0)\<rparr>\<rparr>"
  have cmps: "port_cmps (curr_acl ?s) 0 = range_cmps_0" by (simp add: curr_acl_def acl0_sel)
  have keys: "range_cmps pcl_env0 PCL_DEST_INGRESS range_rule = [range_key PCL_GTE 1000, range_key PCL_LTE 2000]"
    by (simp add: range_cmps_def pcl_env0_def range_rule_def ip_rule0_def range_key_def)
  have find: "hash_find pc_key range_cmps_0 (range_key PCL_GTE 1000) = Some (range_cmps_0 ! 0)"
    "hash_find pc_key range_cmps_0 (range_key PCL_LTE 2000) = Some (range_cmps_0 ! 1)"
    by (simp_all add: hash_find_def range_cmps_0_def range_key_def)
  obtain st c t where t: "add_cmps pcl_env0 0 102 (range_cmps pcl_env0 PCL_DEST_INGRESS range_rule) ((0, 0), (0, 0)) ?s = ((st, c), t)"
    by (metis surj_pair)
  from shared_range_loses_bound [OF _ _ _ keys _ _ t, unfolded cmps, OF _ _ _ find, of 0 None] show ?thesis
    unfolding t by (simp add: pcl_env0_def range_rule_def ip_rule0_def)
qed

lemma release_cmp_none:
  "\<forall>pc \<in> set (port_cmps (curr_acl s) d). ix \<notin> set (pc_rule_idxs pc) \<Longrightarrow> fold (release_cmp d ix) keys s = s"
proof -
  assume none: "\<forall>pc \<in> set (port_cmps (curr_acl s) d). ix \<notin> set (pc_rule_idxs pc)"
  have "release_cmp d ix key s = s" for key
    using none by (auto simp: release_cmp_def Let_def split: option.split dest!: hash_find_in)
  then show ?thesis by (induction keys) simp_all
qed

text \<open>Comparators keep the index a rule had when it was set, although rules move: when the first of two
  rules of a device goes and then the second one, whose range uses the comparators, no rule is left, but
  none of the comparators is given back by these removals.\<close>

theorem comparators_leak:
  assumes "acl_book_inv E s" "d < e_ndevs E" "bindings (curr_acl s) d = [a, b]"
    and "bk_acttype (rb_key a) = ACTION_TYPE_ACL" "bk_acttype (rb_key b) = ACTION_TYPE_ACL"
    and "\<forall>pc \<in> set (port_cmps (curr_acl s) d). pc_rule_idxs pc = [rb_ix b]"
    and "t = remove_rule block d (rb_key b) (remove_rule block d (rb_key a) s)"
  shows "bindings (curr_acl t) d = [] \<and> port_cmps (curr_acl t) d = port_cmps (curr_acl s) d"
proof -
  let ?u = "remove_rule block d (rb_key a) s"
  from acl_book_inv_dev [OF assms(1,2)] have dev: "dev_book_ok s d" by simp
  note ok = dev [unfolded dev_book_ok_def book_ok_def assms(3)]
  define st where "st = ib_start (book (curr_acl s) d)"
  have "map rb_ix (of_type ACTION_TYPE_ACL [a, b]) = type_region (book (curr_acl s) d) ACTION_TYPE_ACL" using ok by blast
  then have two: "[rb_ix a, rb_ix b] = [st ..< acl_end (book (curr_acl s) d)]"
    using assms(4,5) by (simp add: of_type_def type_region_def st_def)
  from arg_cong [OF two, of length] have acl: "acl_end (book (curr_acl s) d) = Suc (Suc st)" by simp
  from two have ix: "rb_ix a = st" "rb_ix b = Suc st" unfolding acl by simp_all
  have "acl_end (book (curr_acl s) d) \<le> qos_end (book (curr_acl s) d)" "qos_end (book (curr_acl s) d) \<le> pbr_end (book (curr_acl s) d)"
    using ok by blast+
  with acl have pbr: "Suc st < pbr_end (book (curr_acl s) d)" by linarith
  have ab: "rb_key a \<noteq> rb_key b" using ok by simp
  have fa: "hash_find rb_key (bindings (curr_acl s) d) (rb_key a) = Some a" by (simp add: assms(3) hash_find_def)
  have none: "\<forall>pc \<in> set (port_cmps (curr_acl s) d). st \<notin> set (pc_rule_idxs pc)" using assms(6) ix by simp
  have u: "bindings (curr_acl ?u) d = [rb_map (down_ix st (pbr_end (book (curr_acl s) d) - 1)) b]"
    "port_cmps (curr_acl ?u) = port_cmps (curr_acl s)"
    using remove_rule_rules(3) [OF dev, of block "rb_key a"] remove_rule_rules(4) [OF dev fa, of block] ab release_cmp_none [OF none] ix(1)
    by (simp_all add: fa) (simp add: assms(3))
  have "rb_ix (rb_map (down_ix st (pbr_end (book (curr_acl s) d) - 1)) b) = st" using ix pbr by (simp add: down_ix_def)
  with u have fb: "hash_find rb_key (bindings (curr_acl ?u) d) (rb_key b) = Some (rb_map (down_ix st (pbr_end (book (curr_acl s) d) - 1)) b)"
    and bix: "rb_ix (rb_map (down_ix st (pbr_end (book (curr_acl s) d) - 1)) b) = st"
    by (simp_all add: hash_find_def)
  have dev_u: "dev_book_ok ?u d" using remove_rule_rules(1) [OF dev, of block "rb_key a"] dev by (simp add: acl_change_def)
  have none_u: "\<forall>pc \<in> set (port_cmps (curr_acl ?u) d). st \<notin> set (pc_rule_idxs pc)" using none by (simp add: u)
  obtain g where "bindings (curr_acl t) d = map (rb_map g) (filter (\<lambda>x. rb_key x \<noteq> rb_key b) (bindings (curr_acl ?u) d))"
    using remove_rule_rules(3) [OF dev_u, of block "rb_key b"] by (simp only: assms(7) fb option.case)
  then have "bindings (curr_acl t) d = []" by (simp add: u(1))
  moreover have "port_cmps (curr_acl t) = port_cmps (curr_acl ?u)"
    using remove_rule_rules(4) [OF dev_u fb, of block] unfolding bix release_cmp_none [OF none_u] assms(7) by blast
  ultimately show ?thesis by (simp add: u(2))
qed

definition leak_state :: acl_st where
  "leak_state = acl0\<lparr>user_acl := acl_empty\<lparr>
     book := (\<lambda>_. \<lparr>ib_start = 100, ib_end = 104, acl_end = 102, qos_end = 102, pbr_end = 102\<rparr>),
     bindings := (\<lambda>_. [\<lparr>rb_key = bind_key [65] ACTION_TYPE_ACL 1 (acl_if 1) PCL_DEST_INGRESS, rb_ix = 100\<rparr>,
                       \<lparr>rb_key = bind_key [66] ACTION_TYPE_ACL 1 (acl_if 2) PCL_DEST_INGRESS, rb_ix = 101\<rparr>]),
     port_cmps := (\<lambda>_. range_cmps_0)\<rparr>\<rparr>"

lemma leak_inv: "acl_book_inv env0 leak_state"
proof -
  have neq: "bind_key [66] ACTION_TYPE_ACL 1 (acl_if 2) PCL_DEST_INGRESS \<noteq> bind_key [65] ACTION_TYPE_ACL 1 (acl_if 1) PCL_DEST_INGRESS"
    by (simp add: bind_key_def)
  have upt: "[100 ..< 102] = [100, 101 :: nat]" by (simp add: upt_rec)
  have "book_ok \<lparr>ib_start = 100, ib_end = 104, acl_end = 102, qos_end = 102, pbr_end = 102\<rparr>
      [\<lparr>rb_key = bind_key [65] ACTION_TYPE_ACL 1 (acl_if 1) PCL_DEST_INGRESS, rb_ix = 100\<rparr>,
       \<lparr>rb_key = bind_key [66] ACTION_TYPE_ACL 1 (acl_if 2) PCL_DEST_INGRESS, rb_ix = 101\<rparr>]"
    using neq by (auto simp: book_ok_def type_region_def of_type_def upt bind_key_def split: pcl_action_type.split)
  then show ?thesis
    by (simp add: acl_book_inv_def leak_state_def acl0_sel acl_port_def env0_def)
qed

theorem comparators_leak_witness:
  "port_cmps (curr_acl (remove_rule 0 0 (bind_key [66] ACTION_TYPE_ACL 1 (acl_if 2) PCL_DEST_INGRESS)
     (remove_rule 0 0 (bind_key [65] ACTION_TYPE_ACL 1 (acl_if 1) PCL_DEST_INGRESS) leak_state))) 0 = range_cmps_0"
proof -
  let ?A = "\<lparr>rb_key = bind_key [65] ACTION_TYPE_ACL 1 (acl_if 1) PCL_DEST_INGRESS, rb_ix = 100\<rparr>"
  let ?B = "\<lparr>rb_key = bind_key [66] ACTION_TYPE_ACL 1 (acl_if 2) PCL_DEST_INGRESS, rb_ix = 101\<rparr>"
  have bs: "bindings (curr_acl leak_state) 0 = [?A, ?B]" and cs: "port_cmps (curr_acl leak_state) 0 = range_cmps_0"
    by (simp_all add: curr_acl_def leak_state_def acl0_sel)
  have "0 < e_ndevs env0" by (simp add: env0_def)
  moreover have "\<forall>pc \<in> set (port_cmps (curr_acl leak_state) 0). pc_rule_idxs pc = [rb_ix ?B]" by (simp add: cs range_cmps_0_def)
  moreover have "bk_acttype (rb_key ?A) = ACTION_TYPE_ACL" "bk_acttype (rb_key ?B) = ACTION_TYPE_ACL" by (simp_all add: bind_key_def)
  ultimately have "port_cmps (curr_acl (remove_rule 0 0 (rb_key ?B) (remove_rule 0 0 (rb_key ?A) leak_state))) 0 = port_cmps (curr_acl leak_state) 0"
    using comparators_leak [OF leak_inv _ bs _ _ _ refl, of 0] by blast
  then show ?thesis by (simp add: cs)
qed

lemma leak_rules: "map fst (acl_rules leak_state 0 ACTION_TYPE_ACL) =
    [bind_key [65] ACTION_TYPE_ACL 1 (acl_if 1) PCL_DEST_INGRESS, bind_key [66] ACTION_TYPE_ACL 1 (acl_if 2) PCL_DEST_INGRESS]"
  by (simp add: acl_rules_def curr_acl_def leak_state_def acl0_sel of_type_def) (simp add: bind_key_def)

theorem pcl_reset_rules_removes_witness:
  "map fst (acl_rules (pcl_reset_rules env0 (acl_if 1) PCL_DEST_INGRESS ACTION_TYPE_ACL leak_state) 0 ACTION_TYPE_ACL) =
   [bind_key [66] ACTION_TYPE_ACL 1 (acl_if 2) PCL_DEST_INGRESS]"
proof -
  have "\<not> user_acl_fake_mode leak_state" "0 < e_ndevs env0" "pif_type (acl_if 1) = PCL_INTERFACE_TYPE_PORT"
    by (simp_all add: leak_state_def acl0_sel env0_def acl_if_def)
  from pcl_reset_rules_removes [OF leak_inv this(1,2) disjI1 [OF this(3)], of PCL_DEST_INGRESS ACTION_TYPE_ACL ACTION_TYPE_ACL]
  have "map fst (acl_rules (pcl_reset_rules env0 (acl_if 1) PCL_DEST_INGRESS ACTION_TYPE_ACL leak_state) 0 ACTION_TYPE_ACL) =
      filter (\<lambda>k. \<not> reset_matches (acl_if 1) PCL_DEST_INGRESS ACTION_TYPE_ACL k) (map fst (acl_rules leak_state 0 ACTION_TYPE_ACL))"
    by (simp add: filter_map o_def)
  then show ?thesis unfolding leak_rules by (simp add: reset_matches_def bind_key_def acl_if_def)
qed

section \<open>The layout of the table\<close>

text \<open>C28. \<open>initialize_vars\<close> divides the table of a device without a gap and without overlap: trap of stack mail,
  the rules of the ports, VLAN translation, its default rules, the access lists. No index has two uses.\<close>

theorem rule_table_layout:
  assumes "stack_ports_known s" "d < e_ndevs E"
  shows "rule_layout d (initialize_vars E s) = [0 ..< user_acl_max (initialize_vars E s) d] \<and> distinct (rule_layout d (initialize_vars E s))"
  using initialize_vars_layout [OF assms refl] by simp

lemma acl0_stack: "stack_ports_known acl0"
  by (simp add: stack_ports_known_def stack_active_def) (simp add: acl0_def pcl_st.defs vlan_st.defs acl_st.defs)

theorem rule_table_layout_witness:
  "distinct (rule_layout 1 (initialize_vars env0 acl0))"
  using rule_table_layout [OF acl0_stack, of 1 env0] by (simp add: env0_def)

lemma concat_region_unique:
  "distinct (concat (map f xs)) \<Longrightarrow> x \<in> set xs \<Longrightarrow> y \<in> set xs \<Longrightarrow> j \<in> set (f x) \<Longrightarrow> j \<in> set (f y) \<Longrightarrow> x = y"
  by (induction xs) auto

lemma layout_unique:
  assumes "distinct (rule_layout d s)" "p \<in> set (ports_on d s)" "q \<in> set (ports_on d s)"
    and "(u, m) \<in> set port_uses" "(v, n) \<in> set port_uses" "0 < m" "0 < n" "rule_ix s u p = rule_ix s v q"
  shows "p = q \<and> (u, m) = (v, n)"
proof -
  let ?f = "\<lambda>pid. concat (map (use_region s pid) port_uses)"
  have d: "distinct (concat (map ?f (ports_on d s)))" using assms(1) by (simp add: rule_layout_def port_region_def)
  have j: "rule_ix s u p \<in> set (use_region s p (u, m))" "rule_ix s u p \<in> set (use_region s q (v, n))"
    using assms(6-8) by (auto simp: use_region_def)
  then have "rule_ix s u p \<in> set (?f p)" "rule_ix s u p \<in> set (?f q)" using assms(4,5) by auto
  from concat_region_unique [OF d assms(2,3) this] have pq: "p = q" .
  have "distinct (?f p)" using d assms(2) unfolding distinct_concat_iff [of "map ?f (ports_on d s)"] by simp
  from concat_region_unique [OF this assms(4,5) j(1)] j(2) pq show ?thesis by simp
qed

section \<open>Traps for maintenance frames\<close>

definition cfm_uses :: "rule_use list" where "cfm_uses = [RU_CFM, RU_CFM2, RU_CFM6]"

text \<open>Whether a rule of the port traps a frame whose destination ends in the byte \<open>b\<close>.\<close>

definition cfm_trapped :: "'a pcl_st_scheme \<Rightarrow> nat \<Rightarrow> u8 \<Rightarrow> bool" where
  "cfm_trapped s pid b \<longleftrightarrow>
     (\<exists>u \<in> set cfm_uses. \<exists>v m. pcl_rule_at (hw s) (pt_ldev (port_at pid s)) (rule_ix s u pid) =
        Some (INGRESS_EXT_NOT_IPV6, cfm_match v m pid s, bypass_action 11) \<and> b AND m = v AND m)"

lemma cfm_rules_levels:
  assumes "level \<le> 7"
  shows "(\<exists>(u, v, m) \<in> set (cfm_rules level). b AND m = v AND m) \<longleftrightarrow> unat (b AND 0xF) \<le> level"
proof -
  have nib: "b AND 0x8 = (b AND 0xF) AND 0x8" "b AND 0xC = (b AND 0xF) AND 0xC" "b AND 0xE = (b AND 0xF) AND 0xE"
    by (simp_all add: and.assoc)
  have lt: "unat (b AND 0xF) < 16"
    using word_and_le1 [of b "0xF"] by (simp add: word_le_nat_alt)
  define k where "k = unat (b AND 0xF)"
  have k: "b AND 0xF = of_nat k" "k < 16" using lt by (simp_all add: k_def)
  have "level \<in> {0, 1, 2, 3, 4, 5, 6, 7}" using assms by auto
  moreover have "k \<in> {0, 1, 2, 3, 4, 5, 6, 7, 8, 9, 10, 11, 12, 13, 14, 15}" using k(2) by simp presburger
  ultimately show ?thesis
    unfolding k_def [symmetric]
    by (elim insertE emptyE; simp add: cfm_rules_def k(1) nib [unfolded k(1)])
qed

text \<open>The rules of a list of ports, one after the other, and what they leave at a slot.\<close>

type_synonym cfm_op = "nat \<times> rule_use \<times> (u8 \<times> u8) option"

definition cfm_do :: "cfm_op \<Rightarrow> 'a pcl_st_scheme \<Rightarrow> 'a pcl_st_scheme" where
  "cfm_do op s =
     (case op of
        (pid, u, Some (v, m)) \<Rightarrow> port_rule_set u INGRESS_EXT_NOT_IPV6 (cfm_match v m pid s) (bypass_action 11) pid s
      | (pid, u, None) \<Rightarrow> port_rule_invalidate u pid s)"

definition rule_slot :: "'a pcl_st_scheme \<Rightarrow> nat \<Rightarrow> rule_use \<Rightarrow> nat \<times> nat" where
  "rule_slot s pid u = (pt_ldev (port_at pid s), rule_ix s u pid)"

lemma cfm_do_state: "\<exists>es. cfm_do op s = s\<lparr>hw := es @ hw s\<rparr>"
proof -
  have "\<exists>e. cfm_do op s = emit e s"
    by (auto simp: cfm_do_def port_rule_set_def rule_set_def port_rule_invalidate_def rule_invalidate_def split: prod.split option.split)
  then obtain e where "cfm_do op s = s\<lparr>hw := [e] @ hw s\<rparr>" by (auto simp: emit_def)
  then show ?thesis by blast
qed

lemma cfm_frame:
  assumes "t = s\<lparr>hw := h\<rparr>"
  shows "port_at pid t = port_at pid s" "rule_ix t = rule_ix s" "cfm_match v m pid t = cfm_match v m pid s"
    "rule_slot t pid u = rule_slot s pid u" "trap_ports t = trap_ports s"
  by (simp_all add: assms port_at_def cfm_match_def match_etype_def pf_port_def rule_slot_def trap_ports_def is_stack_port_def
      stack_active_def port_ids_def)

lemma cfm_do_slot:
  "pcl_rule_at (hw (cfm_do (pid, u, w) s)) d ix =
     (if rule_slot s pid u = (d, ix) then map_option (\<lambda>(v, m). (INGRESS_EXT_NOT_IPV6, cfm_match v m pid s, bypass_action 11)) w
      else pcl_rule_at (hw s) d ix)"
  by (auto simp: cfm_do_def port_rule_set_def rule_set_def port_rule_invalidate_def rule_invalidate_def rule_slot_def pcl_slot_step_def
      split: option.split)

lemma cfm_fold_slot:
  "\<exists>h. fold cfm_do ops s = s\<lparr>hw := h\<rparr> \<and>
     pcl_rule_at h d ix = (case find (\<lambda>(pid, u, w). rule_slot s pid u = (d, ix)) (rev ops) of
        Some (pid, u, w) \<Rightarrow> map_option (\<lambda>(v, m). (INGRESS_EXT_NOT_IPV6, cfm_match v m pid s, bypass_action 11)) w
      | None \<Rightarrow> pcl_rule_at (hw s) d ix)"
proof (induction ops rule: rev_induct)
  case Nil
  show ?case by (intro exI [of _ "hw s"]) simp
next
  case (snoc op ops)
  then obtain h where t: "fold cfm_do ops s = s\<lparr>hw := h\<rparr>"
    and h: "pcl_rule_at h d ix = (case find (\<lambda>(pid, u, w). rule_slot s pid u = (d, ix)) (rev ops) of
        Some (pid, u, w) \<Rightarrow> map_option (\<lambda>(v, m). (INGRESS_EXT_NOT_IPV6, cfm_match v m pid s, bypass_action 11)) w
      | None \<Rightarrow> pcl_rule_at (hw s) d ix)" by blast
  obtain pid u w where op: "op = (pid, u, w)" by (cases op)
  obtain es where es: "cfm_do op (s\<lparr>hw := h\<rparr>) = s\<lparr>hw := es @ h\<rparr>" using cfm_do_state [of op "s\<lparr>hw := h\<rparr>"] by auto
  have "pcl_rule_at (es @ h) d ix = pcl_rule_at (hw (cfm_do op (s\<lparr>hw := h\<rparr>))) d ix" unfolding es by simp
  also have "\<dots> = (if rule_slot s pid u = (d, ix) then map_option (\<lambda>(v, m). (INGRESS_EXT_NOT_IPV6, cfm_match v m pid s, bypass_action 11)) w
      else pcl_rule_at h d ix)"
    unfolding op cfm_do_slot by (simp add: cfm_frame [OF refl])
  finally show ?case using t h es by (intro exI [of _ "es @ h"]) (simp add: op)
qed

lemma cfm_trap_fold:
  "snd (pcl_enable_cfm_trap level True s) =
     fold cfm_do (concat (map (\<lambda>pid. map (\<lambda>(u, v, m). (pid, u, Some (v, m))) (cfm_rules level)) (trap_ports s))) s"
  "snd (pcl_enable_cfm_trap level False s) =
     fold cfm_do (concat (map (\<lambda>pid. map (\<lambda>u. (pid, u, None)) cfm_uses) (trap_ports s))) s"
proof -
  have one: "fold (\<lambda>(u, v, m) s. port_rule_set u INGRESS_EXT_NOT_IPV6 (cfm_match v m pid s) (bypass_action 11) pid s) rs t =
      fold cfm_do (map (\<lambda>(u, v, m). (pid, u, Some (v, m))) rs) t" for pid rs and t :: "'a pcl_st_scheme"
    by (induction rs arbitrary: t) (auto simp: cfm_do_def)
  have "fold (\<lambda>pid. fold (\<lambda>(u, v, m) s. port_rule_set u INGRESS_EXT_NOT_IPV6 (cfm_match v m pid s) (bypass_action 11) pid s) rs) pids t =
      fold cfm_do (concat (map (\<lambda>pid. map (\<lambda>(u, v, m). (pid, u, Some (v, m))) rs) pids)) t" for rs pids and t :: "'a pcl_st_scheme"
    by (induction pids arbitrary: t) (simp_all add: one)
  then show "snd (pcl_enable_cfm_trap level True s) =
     fold cfm_do (concat (map (\<lambda>pid. map (\<lambda>(u, v, m). (pid, u, Some (v, m))) (cfm_rules level)) (trap_ports s))) s"
    by (simp add: pcl_enable_cfm_trap_def)
  have two: "fold (\<lambda>u s. port_rule_invalidate u pid s) us t = fold cfm_do (map (\<lambda>u. (pid, u, None)) us) t" for pid us and t :: "'a pcl_st_scheme"
    by (induction us arbitrary: t) (auto simp: cfm_do_def)
  have "fold (\<lambda>pid. fold (\<lambda>u s. port_rule_invalidate u pid s) us) pids t =
      fold cfm_do (concat (map (\<lambda>pid. map (\<lambda>u. (pid, u, None)) us) pids)) t" for us pids and t :: "'a pcl_st_scheme"
    by (induction pids arbitrary: t) (simp_all add: two)
  from this [of cfm_uses] show "snd (pcl_enable_cfm_trap level False s) =
     fold cfm_do (concat (map (\<lambda>pid. map (\<lambda>u. (pid, u, None)) cfm_uses) (trap_ports s))) s"
    by (simp add: pcl_enable_cfm_trap_def cfm_uses_def)
qed


lemma find_rev_eq:
  assumes "\<And>x. x \<in> set xs \<Longrightarrow> Q x \<Longrightarrow> x = y"
  shows "find Q (rev xs) = (if y \<in> set xs \<and> Q y then Some y else None)"
proof (cases "find Q (rev xs)")
  case None
  then show ?thesis by (auto simp: find_None_iff)
next
  case (Some x)
  from find_SomeD [OF Some] assms show ?thesis using Some by auto
qed

lemma cfm_rules_uses: "(u, v, m) \<in> set (cfm_rules level) \<Longrightarrow> u \<in> set cfm_uses"
  by (auto simp: cfm_rules_def cfm_uses_def split: if_splits)

lemma cfm_rules_distinct: "(u, v, m) \<in> set (cfm_rules level) \<Longrightarrow> (u, v', m') \<in> set (cfm_rules level) \<Longrightarrow> v = v' \<and> m = m'"
  by (auto simp: cfm_rules_def split: if_splits)

text \<open>The rules of the trap have slots of their own on a table laid out without clashes, so that switching the
  trap off empties them and switching it on fills them as listed.\<close>

definition cfm_off :: "'a pcl_st_scheme \<Rightarrow> cfm_op list" where
  "cfm_off s = concat (map (\<lambda>pid. map (\<lambda>u. (pid, u, None)) cfm_uses) (trap_ports s))"

definition cfm_on :: "nat \<Rightarrow> 'a pcl_st_scheme \<Rightarrow> cfm_op list" where
  "cfm_on level s = concat (map (\<lambda>pid. map (\<lambda>(u, v, m). (pid, u, Some (v, m))) (cfm_rules level)) (trap_ports s))"

definition no_clashes :: "'a pcl_st_scheme \<Rightarrow> bool" where
  "no_clashes s \<longleftrightarrow> (\<forall>p \<in> set (ports s). distinct (rule_layout (pt_ldev p) s))"

lemma cfm_slots_apart:
  assumes "no_clashes s" "rule_slot s p u = rule_slot s q v" "p \<in> set (trap_ports s)" "q \<in> set (trap_ports s)"
    and "u \<in> set cfm_uses" "v \<in> set cfm_uses"
  shows "p = q \<and> u = v"
proof -
  let ?d = "pt_ldev (port_at p s)"
  have at: "port_at p s \<in> set (ports s)" using assms(3) by (auto simp: trap_ports_def port_ids_def port_at_def)
  have on: "p \<in> set (ports_on ?d s)" "q \<in> set (ports_on ?d s)" using assms(2-4) by (auto simp: ports_on_def trap_ports_def rule_slot_def)
  have uses: "(w, 1) \<in> set port_uses" if "w \<in> set cfm_uses" for w using that by (auto simp: cfm_uses_def port_uses_def)
  from layout_unique [OF _ on uses [OF assms(5)] uses [OF assms(6)]] assms(1,2) at show ?thesis
    by (auto simp: rule_slot_def no_clashes_def)
qed

lemma cfm_off_slot:
  assumes "no_clashes s" "pid \<in> set (trap_ports s)" "u \<in> set cfm_uses" "rule_slot s pid u = (d, ix)"
  shows "find (\<lambda>(p, u', w). rule_slot s p u' = (d, ix)) (rev (cfm_off s)) = Some (pid, u, None)"
proof -
  have "x = (pid, u, None)" if "x \<in> set (cfm_off s)" "(\<lambda>(p, u', w). rule_slot s p u' = (d, ix)) x" for x
    using that cfm_slots_apart [OF assms(1) _ _ assms(2) _ assms(3)] assms(4) by (auto simp: cfm_off_def)
  from find_rev_eq [of "cfm_off s" "\<lambda>(p, u', w). rule_slot s p u' = (d, ix)", OF this] show ?thesis
    using assms(2-4) by (auto simp: cfm_off_def)
qed

lemma cfm_on_slot:
  assumes "no_clashes s" "pid \<in> set (trap_ports s)" "(u, v, m) \<in> set (cfm_rules level)" "rule_slot s pid u = (d, ix)"
  shows "find (\<lambda>(p, u', w). rule_slot s p u' = (d, ix)) (rev (cfm_on level s)) = Some (pid, u, Some (v, m))"
proof -
  have "x = (pid, u, Some (v, m))" if "x \<in> set (cfm_on level s)" "(\<lambda>(p, u', w). rule_slot s p u' = (d, ix)) x" for x
  proof -
    from that obtain p u' v' m' where x: "x = (p, u', Some (v', m'))" "p \<in> set (trap_ports s)" "(u', v', m') \<in> set (cfm_rules level)"
      and slot: "rule_slot s p u' = (d, ix)" by (auto simp: cfm_on_def)
    from cfm_slots_apart [OF assms(1) _ x(2) assms(2) cfm_rules_uses [OF x(3)] cfm_rules_uses [OF assms(3)]] slot assms(4)
    have "p = pid" "u' = u" by auto
    with x cfm_rules_distinct [OF assms(3)] show ?thesis by blast
  qed
  from find_rev_eq [of "cfm_on level s" "\<lambda>(p, u', w). rule_slot s p u' = (d, ix)", OF this] show ?thesis
    using assms(2-4) by (force simp: cfm_on_def)
qed

lemma cfm_on_no_slot:
  assumes "no_clashes s" "pid \<in> set (trap_ports s)" "u \<in> set cfm_uses" "\<forall>v m. (u, v, m) \<notin> set (cfm_rules level)" "rule_slot s pid u = (d, ix)"
  shows "find (\<lambda>(p, u', w). rule_slot s p u' = (d, ix)) (rev (cfm_on level s)) = None"
  using assms(4,5) cfm_slots_apart [OF assms(1) _ _ assms(2) _ assms(3)] cfm_rules_uses by (fastforce simp: find_None_iff cfm_on_def)

text \<open>What the slots of a port hold when the trap has been switched off and on again.\<close>

lemma cfm_slots:
  assumes "no_clashes s" "pid \<in> set (trap_ports s)" "u \<in> set cfm_uses"
    and "t = snd (pcl_enable_cfm_trap level True (snd (pcl_enable_cfm_trap old_level False s)))"
  shows "\<exists>h. t = s\<lparr>hw := h\<rparr>"
    and "(u, v, m) \<in> set (cfm_rules level) \<Longrightarrow> pcl_rule_at (hw t) (pt_ldev (port_at pid s)) (rule_ix s u pid) =
      Some (INGRESS_EXT_NOT_IPV6, cfm_match v m pid s, bypass_action 11)"
    and "\<forall>v m. (u, v, m) \<notin> set (cfm_rules level) \<Longrightarrow> pcl_rule_at (hw t) (pt_ldev (port_at pid s)) (rule_ix s u pid) = None"
proof -
  have hw_of: "hw (s\<lparr>hw := h\<rparr>) = h" for h by simp
  note at = cfm_fold_slot [where d = "pt_ldev (port_at pid s)" and ix = "rule_ix s u pid"]
  have slot: "rule_slot s pid u = (pt_ldev (port_at pid s), rule_ix s u pid)" by (simp add: rule_slot_def)
  from at [of "cfm_off s" s] obtain h1 where h1: "fold cfm_do (cfm_off s) s = s\<lparr>hw := h1\<rparr>"
    and off: "pcl_rule_at h1 (pt_ldev (port_at pid s)) (rule_ix s u pid) = None"
    by (auto simp: cfm_off_slot [OF assms(1-3) slot])
  have "t = fold cfm_do (cfm_on level s) (s\<lparr>hw := h1\<rparr>)"
    unfolding assms(4) cfm_trap_fold by (simp add: cfm_off_def [symmetric] h1 cfm_frame [OF refl] cfm_on_def)
  with at [of "cfm_on level s" "s\<lparr>hw := h1\<rparr>", unfolded cfm_frame(3,4) [OF refl] hw_of] obtain h2 where t: "t = s\<lparr>hw := h2\<rparr>"
    and on: "pcl_rule_at h2 (pt_ldev (port_at pid s)) (rule_ix s u pid) =
       (case find (\<lambda>(p, u', w). rule_slot s p u' = (pt_ldev (port_at pid s), rule_ix s u pid)) (rev (cfm_on level s)) of
          Some (p, u', w) \<Rightarrow> map_option (\<lambda>(v, m). (INGRESS_EXT_NOT_IPV6, cfm_match v m p s, bypass_action 11)) w
        | None \<Rightarrow> pcl_rule_at h1 (pt_ldev (port_at pid s)) (rule_ix s u pid))"
    by auto
  show "\<exists>h. t = s\<lparr>hw := h\<rparr>" using t by blast
  show "pcl_rule_at (hw t) (pt_ldev (port_at pid s)) (rule_ix s u pid) = Some (INGRESS_EXT_NOT_IPV6, cfm_match v m pid s, bypass_action 11)"
    if "(u, v, m) \<in> set (cfm_rules level)" using on cfm_on_slot [OF assms(1,2) that slot] by (simp add: t)
  show "pcl_rule_at (hw t) (pt_ldev (port_at pid s)) (rule_ix s u pid) = None" if "\<forall>v m. (u, v, m) \<notin> set (cfm_rules level)"
    using on off cfm_on_no_slot [OF assms(1-3) that slot] by (simp add: t)
qed

text \<open>C29. On a table laid out without clashes, turning the trap off and then on again for a maintenance level
  makes every port that is no stack port trap exactly the CFM frames of that level and below. (Both steps are
  needed: turning it on for another level while it is on writes the rules of that level only, and leaves those of
  the old one in the slots it does not use.)\<close>

theorem cfm_trap_levels:
  assumes "level \<le> 7" "\<forall>p \<in> set (ports s). distinct (rule_layout (pt_ldev p) s)" "pid \<in> set (trap_ports s)"
    and "t = snd (pcl_enable_cfm_trap level True (snd (pcl_enable_cfm_trap old_level False s)))"
  shows "cfm_trapped t pid b \<longleftrightarrow> unat (b AND 0xF) \<le> level"
proof -
  from assms(2) have apart: "no_clashes s" by (simp add: no_clashes_def)
  note slots = cfm_slots [OF apart assms(3) _ assms(4)]
  have "RU_CFM \<in> set cfm_uses" by (simp add: cfm_uses_def)
  from slots(1) [OF this] obtain h where t: "t = s\<lparr>hw := h\<rparr>" ..
  let ?rule = "\<lambda>v m. (INGRESS_EXT_NOT_IPV6, cfm_match v m pid s, bypass_action 11)"
  let ?at = "\<lambda>u. pcl_rule_at (hw t) (pt_ldev (port_at pid s)) (rule_ix s u pid)"
  have inj: "?rule v m = ?rule v' m' \<longleftrightarrow> v = v' \<and> m = m'" for v m v' m'
    by (simp add: cfm_match_def match_etype_def pfb_def)
  have at: "?at u = Some (?rule v m) \<longleftrightarrow> (u, v, m) \<in> set (cfm_rules level)" if "u \<in> set cfm_uses" for u v m
    using slots(2,3) [OF that] inj by (metis option.distinct(1) option.inject)
  have "cfm_trapped t pid b \<longleftrightarrow> (\<exists>u \<in> set cfm_uses. \<exists>v m. ?at u = Some (?rule v m) \<and> b AND m = v AND m)"
    by (simp add: cfm_trapped_def cfm_frame [OF t])
  also have "\<dots> \<longleftrightarrow> (\<exists>(u, v, m) \<in> set (cfm_rules level). b AND m = v AND m)"
    using at cfm_rules_uses by fastforce
  finally show ?thesis using cfm_rules_levels [OF assms(1)] by simp
qed

theorem cfm_trap_levels_witness:
  "cfm_trapped (snd (pcl_enable_cfm_trap 4 True (snd (pcl_enable_cfm_trap 6 False (initialize_vars env0 acl0))))) 1 0x34"
proof -
  let ?s = "initialize_vars env0 acl0"
  have p: "ports ?s = [acl_port 0, acl_port 1]" by (simp add: initialize_vars_frame acl0_sel)
  have "\<forall>p \<in> set (ports ?s). distinct (rule_layout (pt_ldev p) ?s)"
  proof -
    have "0 < e_ndevs env0" by (simp add: env0_def)
    from layout_distinct [OF acl0_stack this refl] show ?thesis by (simp add: p acl_port_def)
  qed
  moreover have "1 \<in> set (trap_ports ?s)"
    by (simp add: trap_ports_def port_ids_def port_at_def p is_stack_port_def acl_port_def)
  ultimately show ?thesis using cfm_trap_levels [of 4 ?s 1 _ 6 "0x34"] by simp
qed

end
