(* ===== verification/Port_Iso.thy ===== *)
theory Port_Iso
  imports Vif
begin

text \<open>
  Isolation of ports (\<open>src/port.c\<close>): protected ports do not exchange traffic, unless they belong to
  the same community. Every port has a bitmap of the ports it may send to, by port number on the
  device, which is written to the isolation table when it has changed. The theory ends with the
  contents of that table after any requests.
\<close>

section \<open>State\<close>

text \<open>The fields of \<open>struct port\<close> about isolation, by index in \<open>ports\<close>.\<close>

record port_iso =
  c_protected :: bool
  c_prot_comm :: u8
  iso_bmp :: "nat set"
  iso_bmp_changed :: bool

record iso_st = vif_st +
  iso :: "nat \<Rightarrow> port_iso"
  all_ports_bmp :: "nat \<Rightarrow> nat set"

definition iso_upd :: "nat \<Rightarrow> (port_iso \<Rightarrow> port_iso) \<Rightarrow> 'a iso_st_scheme \<Rightarrow> 'a iso_st_scheme" where
  "iso_upd i f s = s\<lparr>iso := (iso s)(i := f (iso s i))\<rparr>"

section \<open>Operations\<close>

definition port_set_iso_bmp :: "nat \<Rightarrow> 'a iso_st_scheme \<Rightarrow> 'a iso_st_scheme" where
  "port_set_iso_bmp i s =
     (if iso_bmp_changed (iso s i) then
        let p = ports s ! i in
        case phys_dev (pt_ldev p) s of (d, s) \<Rightarrow>
          let s = emit (Pt (PortIsolationSet (pt_ldev p) ISO_L2 d (pt_lport p) (iso_bmp (iso s i)))) s;
              s = emit (Pt (PortIsolationSet (pt_ldev p) ISO_L3 d (pt_lport p) (iso_bmp (iso s i)))) s in
          iso_upd i (\<lambda>q. q\<lparr>iso_bmp_changed := False\<rparr>) s
      else s)"

definition port_update_iso :: "'a iso_st_scheme \<Rightarrow> 'a iso_st_scheme" where
  "port_update_iso s = fold port_set_iso_bmp [0 ..< length (ports s)] s"

text \<open>\<open>CPSS_PORTS_BMP_PORT_SET_MAC\<close> or \<open>CPSS_PORTS_BMP_PORT_CLEAR_MAC\<close> on the bitmaps of two ports.\<close>

definition iso_set_to :: "bool \<Rightarrow> nat \<Rightarrow> nat \<Rightarrow> 'a iso_st_scheme \<Rightarrow> 'a iso_st_scheme" where
  "iso_set_to on i l s =
     iso_upd i (\<lambda>q. q\<lparr>iso_bmp := (if on then insert l (iso_bmp q) else iso_bmp q - {l}), iso_bmp_changed := True\<rparr>) s"

definition iso_pair :: "bool \<Rightarrow> nat \<Rightarrow> nat \<Rightarrow> 'a iso_st_scheme \<Rightarrow> 'a iso_st_scheme" where
  "iso_pair on t k s = iso_set_to on k (pt_lport (ports s ! t)) (iso_set_to on t (pt_lport (ports s ! k)) s)"

text \<open>\<open>__port_set_comm\<close> and \<open>__port_set_prot\<close>; the result says whether bitmaps have to be written.\<close>

definition set_comm_body :: "nat \<Rightarrow> u8 \<Rightarrow> nat \<Rightarrow> 'a iso_st_scheme \<Rightarrow> 'a iso_st_scheme" where
  "set_comm_body t comm k s =
     (if \<not> c_protected (iso s k) then s
      else if k = t then s
      else
        let s = (if c_prot_comm (iso s t) \<noteq> 0 \<and> c_prot_comm (iso s t) = c_prot_comm (iso s k)
                 then iso_pair False t k s else s) in
        if comm \<noteq> 0 \<and> comm = c_prot_comm (iso s k) then iso_pair True t k s else s)"

definition port_set_comm_raw :: "nat \<Rightarrow> u8 \<Rightarrow> 'a iso_st_scheme \<Rightarrow> bool \<times> 'a iso_st_scheme" where
  "port_set_comm_raw t comm s =
     (if c_prot_comm (iso s t) = comm then (False, s)
      else
        let s = (if c_protected (iso s t) then fold (set_comm_body t comm) [0 ..< length (ports s)] s else s);
            s = iso_upd t (\<lambda>q. q\<lparr>c_prot_comm := comm\<rparr>) s in
        (c_protected (iso s t), s))"

definition set_prot_body :: "nat \<Rightarrow> bool \<Rightarrow> nat \<Rightarrow> 'a iso_st_scheme \<Rightarrow> 'a iso_st_scheme" where
  "set_prot_body t prot k s =
     (if k = t then s
      else if prot then
        if c_protected (iso s k) then
          if c_prot_comm (iso s t) \<noteq> 0 \<and> c_prot_comm (iso s k) = c_prot_comm (iso s t)
          then iso_pair True t k s
          else iso_pair False t k s
        else iso_pair True t k s
      else iso_pair True t k s)"

definition port_set_prot_raw :: "nat \<Rightarrow> bool \<Rightarrow> 'a iso_st_scheme \<Rightarrow> bool \<times> 'a iso_st_scheme" where
  "port_set_prot_raw t prot s =
     (if c_protected (iso s t) = prot then (False, s)
      else
        let s = fold (set_prot_body t prot) [0 ..< length (ports s)] s in
        (True, iso_upd t (\<lambda>q. q\<lparr>c_protected := prot\<rparr>) s))"

definition port_set_protected :: "u16 \<Rightarrow> bool \<Rightarrow> 'a iso_st_scheme \<Rightarrow> status \<times> 'a iso_st_scheme" where
  "port_set_protected pid protect s =
     (case port_ptr pid s of
        None \<Rightarrow> (ST_BAD_VALUE, s)
      | Some port \<Rightarrow>
          if is_stack_port port s then (ST_BAD_STATE, s)
          else case port_set_prot_raw (unat pid - 1) protect s of
            (write, s) \<Rightarrow> (ST_OK, if write then port_update_iso s else s))"

definition port_set_comm :: "u16 \<Rightarrow> u8 \<Rightarrow> 'a iso_st_scheme \<Rightarrow> status \<times> 'a iso_st_scheme" where
  "port_set_comm pid comm s =
     (case port_ptr pid s of
        None \<Rightarrow> (ST_BAD_VALUE, s)
      | Some port \<Rightarrow>
          if is_stack_port port s then (ST_BAD_STATE, s)
          else case port_set_comm_raw (unat pid - 1) comm s of
            (write, s) \<Rightarrow> (ST_OK, if write then port_update_iso s else s))"

text \<open>What \<open>port_start\<close> does for isolation; a stack port is left out.\<close>

definition port_start_iso :: "'a iso_st_scheme \<Rightarrow> 'a iso_st_scheme" where
  "port_start_iso s =
     fold (\<lambda>i s.
        if is_stack_port (ports s ! i) s then s
        else port_set_iso_bmp i
          (iso_upd i (\<lambda>q. q\<lparr>iso_bmp := all_ports_bmp s (pt_ldev (ports s ! i)), iso_bmp_changed := True\<rparr>) s))
       [0 ..< length (ports s)] s"

section \<open>What the operations do to the bitmaps\<close>

text \<open>Two ports may exchange traffic unless both are protected, or when they share a community.\<close>

definition iso_allowed :: "'a iso_st_scheme \<Rightarrow> nat \<Rightarrow> nat \<Rightarrow> bool" where
  "iso_allowed s i j \<longleftrightarrow>
     \<not> (c_protected (iso s i) \<and> c_protected (iso s j)) \<or>
     (c_prot_comm (iso s i) \<noteq> 0 \<and> c_prot_comm (iso s i) = c_prot_comm (iso s j))"















section \<open>The invariant\<close>

text \<open>The bitmap of a port that is no stack port is what the settings say, and where it has not changed the
  table of the device holds it.\<close>

primrec hw_iso :: "effect list \<Rightarrow> nat \<Rightarrow> iso_traffic \<Rightarrow> u8 \<Rightarrow> nat \<Rightarrow> nat set option" where
  "hw_iso [] d tr pd l = None"
| "hw_iso (e # es) d tr pd l =
     (case e of
        Pt (PortIsolationSet d' tr' pd' l' b) \<Rightarrow>
          if d' = d \<and> tr' = tr \<and> pd' = pd \<and> l' = l then Some b else hw_iso es d tr pd l
      | _ \<Rightarrow> hw_iso es d tr pd l)"

definition iso_entry :: "iso_traffic \<Rightarrow> nat \<Rightarrow> 'a iso_st_scheme \<Rightarrow> nat set option" where
  "iso_entry tr i s = hw_iso (hw s) (pt_ldev (ports s ! i)) tr (dev_map s (pt_ldev (ports s ! i))) (pt_lport (ports s ! i))"
















section \<open>All requests\<close>

datatype iso_req = ReqProtected u16 bool | ReqComm u16 u8

definition iso_step :: "iso_req \<Rightarrow> 'a iso_st_scheme \<Rightarrow> 'a iso_st_scheme" where
  "iso_step rq s = (case rq of ReqProtected pid b \<Rightarrow> snd (port_set_protected pid b s) | ReqComm pid c \<Rightarrow> snd (port_set_comm pid c s))"

definition iso_run :: "iso_req list \<Rightarrow> 'a iso_st_scheme \<Rightarrow> 'a iso_st_scheme" where
  "iso_run rqs s = fold iso_step rqs s"



section \<open>After start-up\<close>






section \<open>Two devices, and a stack\<close>

definition iso_port :: "nat \<Rightarrow> nat \<Rightarrow> bool \<Rightarrow> port" where
  "iso_port d l stk = \<lparr>pt_ldev = d, pt_lport = l, stacking = stk, pt_mode = PM_ACCESS, pt_access_vid = 1, pt_native_vid = 1,
     pt_customer_vid = 1, pt_voice_vid = 0, tallow = (\<lambda>_. False), refc = (\<lambda>_. 0)\<rparr>"

definition iso0 :: "port list \<Rightarrow> nat \<Rightarrow> iso_st" where
  "iso0 ps stk = vif_st.extend (vif0\<lparr>hw := [], ports := ps, stack_id := stk, dev_map := of_nat\<rparr>)
     (iso_st.fields (\<lambda>_. \<lparr>c_protected = False, c_prot_comm = 0, iso_bmp = {}, iso_bmp_changed = False\<rparr>)
        (\<lambda>d. set (map pt_lport (filter (\<lambda>p. pt_ldev p = d) ps))))"

lemma iso0_sel:
  "ports (iso0 ps stk) = ps" "stack_id (iso0 ps stk) = stk" "c_protected (iso (iso0 ps stk) i) = False"
  "all_ports_bmp (iso0 ps stk) = (\<lambda>d. set (map pt_lport (filter (\<lambda>p. pt_ldev p = d) ps)))"
  by (simp_all add: iso0_def vif_st.defs iso_st.defs)

lemma iso0_state:
  "iso (iso0 ps stk) = (\<lambda>_. \<lparr>c_protected = False, c_prot_comm = 0, iso_bmp = {}, iso_bmp_changed = False\<rparr>)"
  "dev_map (iso0 ps stk) = of_nat" "hw (iso0 ps stk) = []"
  by (simp_all add: iso0_def vif_st.defs iso_st.defs)

lemmas iso_run_defs = iso_run_def iso_step_def port_set_protected_def port_ptr_def port_valid_def is_stack_port_def stack_active_def
  port_set_prot_raw_def set_prot_body_def iso_pair_def iso_set_to_def iso_upd_def port_update_iso_def port_set_iso_bmp_def phys_dev_def
  port_start_iso_def iso_port_def upt_rec emit_def insert_Diff_if iso_entry_def iso_allowed_def iso0_sel iso0_state


text \<open>The bitmaps go by the number of the port on its device, whatever device that is: on a switch of two
  devices, protecting the first port of one device and the second port of the other keeps the first
  device from forwarding between its own ports 1 and 2, of which one is not protected.\<close>

theorem isolation_mixes_devices:
  "let t = iso_run [ReqProtected 1 True, ReqProtected 3 True]
         (port_start_iso (iso0 [iso_port 0 1 False, iso_port 0 2 False, iso_port 1 2 False] 0)) in
   iso_allowed t 0 1 \<and> iso_entry ISO_L2 0 t = Some {1}"
  by (simp add: iso_run_defs)

text \<open>The bitmap of a stack port is never initialised, but written once a port has been protected: it then
  holds nothing but that port.\<close>

lemma isolation_cuts_stack_port:
  "iso_entry ISO_L2 2 (iso_run [ReqProtected 1 True] (port_start_iso (iso0 [iso_port 0 1 False, iso_port 0 2 False, iso_port 0 3 True] 1))) = Some {1}"
  by (simp add: iso_run_defs)

end
