(* ===== verification/Spec2Isabelle.thy ===== *)
theory Spec2Isabelle
  imports Route_Props Mll_Props Vlan Policer Fdb_Props Pcl_Props Port_Iso
begin

text \<open>
  A model of presteramgr, the daemon that runs Marvell Prestera switches: it keeps the control
  state of the switch (routes, next hops, VLANs, multicast groups, policers, ports) and programs
  the hardware tables through the vendor's library (CPSS).

  \<^bold>\<open>Parts and theories.\<close> Each theory models one part in the order of its source.

    \<^item> \<open>Prelude\<close>, \<open>Containers\<close>: generic lemmas; the lists and hash tables of \<open>src/utlist.h\<close> and
      \<open>src/uthash.h\<close> as first-match operations on lists. The locale \<open>keyed_table\<close> states what the
      clients of a hash table rely on, \<open>id_pool\<close> what those of an allocator do; both are
      interpreted on the code's own operations.
    \<^item> \<open>Platform\<close>: the environment \<open>env\<close> (the vendor library and what other tasks answer: return
      codes, values read, number of devices) and the base state \<open>sw\<close>: the log \<open>hw\<close> of the calls
      made, newest first, and a flag for undefined behaviour of the C program (a null pointer
      dereferenced, an access past an array, a failed assertion). The contents of a hardware table
      are what the log last wrote.
    \<^item> \<open>Vif\<close>: the interface table of \<open>src/vif.c\<close>. \<open>Port_Iso\<close>: protected ports and communities
      (\<open>src/port.c\<close>) with the isolation table of the devices. \<open>Pools\<close>: \<open>res_pop\<close>, \<open>res_push\<close> of \<open>src/ret.c\<close> and the
      group ids of \<open>src/ret_group.c\<close>. \<open>Lttindex\<close>: \<open>src/lttindex.c\<close>. \<open>Nht\<close>: \<open>src/nht.c\<close>.
    \<^item> \<open>Ret\<close>, \<open>Ret_Group\<close>, \<open>Ret_Mac\<close>: gateways and ECMP groups (\<open>src/ret.c\<close>, \<open>src/ret_group.c\<close>) and the
      ARP client (\<open>src/arpc.c\<close>). \<open>Ret_Inv\<close>, \<open>Ret_Resolve\<close>, \<open>Ret_Build\<close> hold the invariant that ties
      gateways, groups and hardware together and its preservation; \<open>Ret_Reach\<close> the requests
      (\<open>ret_req\<close>), when one is refused, the transition system of the others and the properties.
    \<^item> \<open>Pbr\<close> (\<open>src/pbr.c\<close>), \<open>Fib\<close> (\<open>src/fib.c\<close>), \<open>Route\<close> (\<open>src/route.c\<close>), \<open>Fib6\<close> (\<open>src/fib_ipv6.c\<close> and the
      IPv6 parts of \<open>route.c\<close> and \<open>ret.c\<close>). \<open>Route_Inv\<close> and \<open>Route_Props\<close>: the routing front end over
      whole runs.
    \<^item> \<open>Mll\<close> (\<open>src/mll.c\<close>), \<open>Mcg\<close> (\<open>src/mcg.c\<close>), \<open>Mcre\<close> (\<open>mcre_*\<close> of \<open>src/ret.c\<close>, multicast routes).
      \<open>Mll_Chain\<close> and \<open>Mll_Props\<close>: chains of the multicast linked list as lists of nodes.
    \<^item> \<open>Vlan\<close> (\<open>src/vlan.c\<close>), \<open>Qos\<close> (\<open>src/qos.c\<close>), \<open>Policer\<close> (\<open>src/policer.c\<close>).
    \<^item> \<open>Psec\<close>: port security (the \<open>psec_\<close> functions of \<open>src/port.c\<close>, \<open>src/sec.c\<close>). \<open>Fdb\<close>, \<open>Fdb_Ops\<close>, \<open>Fdbman\<close>:
      the MAC table task of \<open>src/mac.c\<close> (the table; flushes, aging, learned addresses; the messages
      that keep the tables of a stack alike). \<open>Fdb_Inv\<close>, \<open>Fdb_Kept\<close>, \<open>Fdb_Map\<close>, \<open>Fdb_Reach\<close>, \<open>Fdb_Props\<close>: the
      table as a map, what all requests keep (locales \<open>fdb_kept\<close> and \<open>fdb_table_kept\<close>), the properties.
    \<^item> \<open>Dstack\<close> (\<open>src/dstack.c\<close>); \<open>src/pcl.c\<close> in the order of the file: \<open>Pcl\<close> (layout of the rule table, VLAN
      translation), \<open>Pcl_Trap\<close> (source guard, traps and mirrors of control packets), \<open>Pcl_Acl\<close> (index book,
      bindings and comparators of the user's access lists), \<open>Pcl_Rule\<close> (what a rule matches, the requests,
      counters, the trial mode). \<open>Pcl_Layout\<close>: the layout has no overlap. \<open>Pcl_Book\<close>: what an operation on
      the index book does to the rules the devices hold. \<open>Pcl_Kept\<close>: what every request keeps, from
      what each step keeps (locales \<open>acl_step_kept\<close> and \<open>acl_kept\<close>, interpreted on the invariants of the book
      and of the comparators). \<open>Pcl_Trial\<close>: a state on trial simulates the state in use. \<open>Pcl_Props\<close>: the
      properties.

  \<^bold>\<open>Correspondence.\<close> A C struct is a record with its field names (prefixed where two structs share
  one), the globals of a file extend the state record of the files it calls, so every operation
  is polymorphic in what later files add. Operations take the state and return it with their
  result; a status is \<open>status\<close>, a missing pointer \<open>None\<close>. Integers that wrap or are masked are
  words, the others \<open>int\<close> or \<open>nat\<close>.

  \<^bold>\<open>What is shown.\<close> Invariants over all runs: the FIB is well formed, the bitmap of
  spanning tree groups, the table of multicast groups and, on one device, the isolation table are exact, the slots of
  the MAC table are what the devices hold; over all runs of requests none of which is refused: each resolved
  gateway is programmed in every group it belongs to and the runs of different groups are disjoint (a refused
  \<open>ret_set_mac_addr\<close> breaks the first, as is shown too); over all runs without undefined behaviour: the
  counters of port security are the number of addresses in the MAC table. Function: longest-prefix
  match, what a trapped packet and a deletion of a route change in the hardware, what adding to and
  deleting from a multicast list does to the nodes it stands for, insertion into the MAC table as
  an update of a map. Access lists: the devices hold the rules class by class in the order of setting,
  with no gap, after any requests, and the next request keeps the contents and the order of every rule it does
  not reset; a rule set comes last of its class, a reset removes exactly its own; requests on trial change no
  device and, when their action is a known one, answer as the real ones will. The trap for maintenance frames
  is exact when it is turned off before it is turned on for another level. Allocators hand out nothing
  twice. Searches end. The theorems at the end of several theories show defects of
  the code, on all inputs of a kind or on a concrete run.

  \<^bold>\<open>What C leaves open.\<close> Where the program reads what it has not written the model sets the flag
  \<open>crashed\<close> and goes on with one value: in \<open>psec_addr_check\<close>, whose status is uninitialised when an entry of
  a local port is replaced by one that is on none, the value is \<open>PAS_OK\<close>. The flushes read the VLAN
  of every entry where a MAC address has it; what they find in the key of an IP multicast entry is the parameter
  \<open>v_macvlan\<close>. Calls of the vendor's library whose code the program only logs are taken to have been made.

  \<^bold>\<open>Bounds and fuel.\<close> \<open>ltt_scan\<close> has as much fuel as there are positions plus one, \<open>res_scan\<close> and
  \<open>fresh_from\<close> as many steps as entries in use plus one, \<open>find_last_pair\<close> and \<open>find_pair\<close> as many as
  the table has pairs; the theorems on termination show that this is enough. \<open>flush_wait\<close> has as fuel the
  number of polls; \<open>flush_wait_ends\<close> shows that it ends when the devices answer.

  \<^bold>\<open>Not modelled.\<close> Sockets, threads and locks: each handler is one atomic step, as under the lock of
  the routing task. Printing. Board tables and PHY firmware. The ports (\<open>src/port.c\<close>, apart from
  port security and isolation), stacking, and the message server (\<open>src/control.c\<close>, whose message types come from a
  header outside the repository) are not modelled; nor is the self test at the end of \<open>src/pcl.c\<close>.
\<close>

end
